(* ===== verification/Prelude.thy ===== *)
theory Prelude
  imports Complex_Main "HOL-Library.Word"
begin

text \<open>
  Shared ground of the development: the widths of the Rust integers the code uses, the
  result types, the conversions between integers and \<open>f64\<close> values, and the generic lemmas
  on lists and words that the component proofs share.

  Rust's release arithmetic on \<open>u64\<close> wraps, as \<open>+\<close>, \<open>-\<close> and \<open>*\<close> on \<open>64 word\<close> do.
  A checked operation (\<open>checked_add\<close>) is an option. A panic is a value of the outcome type
  of the operation that may panic, never an unspecified HOL value.
\<close>

named_theorems handler_defs
named_theorems effect_simps

type_synonym u8 = "8 word"
type_synonym u16 = "16 word"
type_synonym u32 = "32 word"
type_synonym u64 = "64 word"
type_synonym u128 = "128 word"

section \<open>Integers\<close>

definition checked_add_u64 :: "u64 \<Rightarrow> u64 \<Rightarrow> u64 option" where
  "checked_add_u64 a b = (if unat a + unat b < 2 ^ 64 then Some (a + b) else None)"

lemma checked_add_u64_Some:
  assumes "checked_add_u64 a b = Some c"
  shows "unat c = unat a + unat b"
  using assms by (auto simp: checked_add_u64_def unat_word_ariths split: if_splits)

lemma unat_lt_2_64: "unat (x :: u64) < 2 ^ 64"
  using unsigned_less [of x] by simp

lemma unat_Suc_no_wrap:
  fixes x :: u64
  assumes "unat x < 2 ^ 64 - 1"
  shows "unat (x + 1) = Suc (unat x)"
  using assms by (simp add: unat_word_ariths)

lemma unat_add_no_wrap:
  fixes x y :: u64
  assumes "unat x + unat y < 2 ^ 64"
  shows "unat (x + y) = unat x + unat y"
  using assms by (simp add: unat_word_ariths)

lemma unat_mult_no_wrap:
  fixes x y :: u64
  assumes "unat x * unat y < 2 ^ 64"
  shows "unat (x * y) = unat x * unat y"
  using assms by (simp add: unat_word_ariths)

lemma unat_minus_le:
  fixes x y :: u64
  assumes "y \<le> x"
  shows "unat (x - y) = unat x - unat y"
  using assms by (rule unat_sub)

lemma unat_ucast_64_128: "unat (ucast (x :: u64) :: u128) = unat x"
proof -
  have "unat x < 2 ^ 128" using unat_lt_2_64 [of x] by simp
  then show ?thesis by (simp add: unsigned_ucast_eq take_bit_nat_eq_self)
qed

lemma whole_units_le: "d div (l * r) * r * l \<le> (d :: nat)"
proof -
  have "d div (l * r) * r * l = d div (l * r) * (l * r)" by simp
  also have "\<dots> \<le> d" by (rule div_times_less_eq_dividend)
  finally show ?thesis .
qed

lemma whole_units_eq: "l * r dvd d \<Longrightarrow> d div (l * r) * r * l = (d :: nat)"
proof -
  assume "l * r dvd d"
  have "d div (l * r) * r * l = d div (l * r) * (l * r)" by simp
  also have "\<dots> = d" using \<open>l * r dvd d\<close> by (rule dvd_div_mult_self)
  finally show ?thesis .
qed

section \<open>Floating point\<close>

text \<open>
  An \<open>f64\<close> is a real number; each operation of the code is the exact real operation
  followed by the rounding function \<open>fl\<close> of the floating-point unit, which is a parameter
  of the model. Infinities and NaN do not occur in the values the code computes from a finite
  configuration.
\<close>

definition f64_of_u64 :: "(real \<Rightarrow> real) \<Rightarrow> u64 \<Rightarrow> real" where
  "f64_of_u64 fl n = fl (real (unat n))"

text \<open>\<open>f64::round\<close>: to the nearest integer, halves away from zero.\<close>

definition f64_round :: "real \<Rightarrow> int" where
  "f64_round x = (if 0 \<le> x then \<lfloor>x + 1 / 2\<rfloor> else - \<lfloor>1 / 2 - x\<rfloor>)"

text \<open>\<open>as u64\<close> saturates.\<close>

definition u64_saturate :: "int \<Rightarrow> u64" where
  "u64_saturate z = (if z < 0 then 0 else if z \<ge> 2 ^ 64 then - 1 else word_of_int z)"

lemma unat_u64_saturate:
  "0 \<le> z \<Longrightarrow> z < 2 ^ 64 \<Longrightarrow> unat (u64_saturate z) = nat z"
  by (simp add: u64_saturate_def unat_eq_nat_uint uint_word_of_int)

section \<open>Fallible steps\<close>

text \<open>The question mark.\<close>

definition and_then :: "'e + 'a \<Rightarrow> ('a \<Rightarrow> 'e + 'b) \<Rightarrow> 'e + 'b" where
  "and_then r f = (case r of Inl e \<Rightarrow> Inl e | Inr a \<Rightarrow> f a)"

definition map_error :: "('e \<Rightarrow> 'f) \<Rightarrow> 'e + 'a \<Rightarrow> 'f + 'a" where
  "map_error f r = (case r of Inl e \<Rightarrow> Inl (f e) | Inr a \<Rightarrow> Inr a)"

named_theorems result_iff

lemma and_then_simps [simp]: "and_then (Inl e) f = Inl e" "and_then (Inr a) f = f a"
  by (simp_all add: and_then_def)

lemma map_error_simps [simp]: "map_error f (Inl e) = Inl (f e)" "map_error f (Inr a) = Inr a"
  by (simp_all add: map_error_def)

lemma and_then_Inr_iff [result_iff]: "and_then r f = Inr b \<longleftrightarrow> (\<exists>a. r = Inr a \<and> f a = Inr b)"
  by (cases r) auto

lemma and_then_Inl_iff [result_iff]: "and_then r f = Inl e \<longleftrightarrow> r = Inl e \<or> (\<exists>a. r = Inr a \<and> f a = Inl e)"
  by (cases r) auto

lemma map_error_Inr_iff [result_iff]: "map_error f r = Inr a \<longleftrightarrow> r = Inr a"
  by (cases r) auto

lemma map_error_Inl_iff [result_iff]: "map_error f r = Inl e \<longleftrightarrow> (\<exists>d. r = Inl d \<and> e = f d)"
  by (cases r) auto

section \<open>Lists\<close>

lemma find_SomeD:
  "List.find P xs = Some x \<Longrightarrow> P x \<and> x \<in> set xs"
  by (induction xs) (auto split: if_splits)

end
