(* ===== verification/Rust_Text.thy ===== *)
theory Rust_Text
  imports Prelude
begin

text \<open>
  What the code uses of Rust's string library, on strings as their UTF-8 bytes: decimal
  parsing (\<open>str::parse\<close> of the integer types) and printing, \<open>split\<close>, \<open>split_once\<close>,
  \<open>strip_prefix\<close> and \<open>starts_with\<close>.
\<close>

section \<open>Decimal digits\<close>

definition is_ascii_digit :: "char \<Rightarrow> bool" where
  "is_ascii_digit c \<longleftrightarrow> 48 \<le> (of_char c :: nat) \<and> (of_char c :: nat) \<le> 57"

definition digit_value :: "char \<Rightarrow> nat" where
  "digit_value c = of_char c - 48"

definition digit_char :: "nat \<Rightarrow> char" where
  "digit_char d = char_of (d + 48)"

lemma digit_char_value:
  assumes "d < 10"
  shows "is_ascii_digit (digit_char d)" "digit_value (digit_char d) = d"
  using assms by (simp_all add: is_ascii_digit_def digit_value_def digit_char_def)

fun digits_value :: "nat \<Rightarrow> string \<Rightarrow> nat" where
  "digits_value acc [] = acc"
| "digits_value acc (c # cs) = digits_value (10 * acc + digit_value c) cs"

text \<open>The digits of a non-empty digit string, as \<open>from_str_radix\<close> reads them.\<close>

definition parse_magnitude :: "string \<Rightarrow> nat option" where
  "parse_magnitude s = (if s \<noteq> [] \<and> list_all is_ascii_digit s then Some (digits_value 0 s) else None)"

section \<open>Parsing\<close>

text \<open>
  Unsigned types accept one leading \<open>+\<close>; signed types accept one leading \<open>+\<close> or \<open>-\<close>.
  A value outside the type is an error, as is an empty string.
\<close>

fun parse_unsigned :: "nat \<Rightarrow> string \<Rightarrow> nat option" where
  "parse_unsigned maxv s =
     (case parse_magnitude (case s of c # cs \<Rightarrow> if c = CHR ''+'' then cs else s | [] \<Rightarrow> []) of
        None \<Rightarrow> None
      | Some n \<Rightarrow> if n \<le> maxv then Some n else None)"

definition parse_signed :: "int \<Rightarrow> int \<Rightarrow> string \<Rightarrow> int option" where
  "parse_signed minv maxv s =
     (let (neg, body) = (case s of
          [] \<Rightarrow> (False, [])
        | c # cs \<Rightarrow> if c = CHR ''-'' then (True, cs)
                    else if c = CHR ''+'' then (False, cs) else (False, s))
      in case parse_magnitude body of
           None \<Rightarrow> None
         | Some n \<Rightarrow>
             (let z = (if neg then - int n else int n)
              in if minv \<le> z \<and> z \<le> maxv then Some z else None))"

definition parse_u64 :: "string \<Rightarrow> u64 option" where
  "parse_u64 s = map_option of_nat (parse_unsigned (2 ^ 64 - 1) s)"

definition parse_i32 :: "string \<Rightarrow> int option" where
  "parse_i32 = parse_signed (- (2 ^ 31)) (2 ^ 31 - 1)"

definition parse_i64 :: "string \<Rightarrow> int option" where
  "parse_i64 = parse_signed (- (2 ^ 63)) (2 ^ 63 - 1)"

lemma parse_signed_bounds:
  "parse_signed lo hi s = Some z \<Longrightarrow> lo \<le> z \<and> z \<le> hi"
  by (auto simp: parse_signed_def Let_def split: list.splits if_splits option.splits)

lemma parse_i32_bounds: "parse_i32 s = Some z \<Longrightarrow> - (2 ^ 31) \<le> z \<and> z < 2 ^ 31"
  unfolding parse_i32_def by (drule parse_signed_bounds) auto

section \<open>Printing\<close>

fun show_nat :: "nat \<Rightarrow> string" where
  "show_nat n = (if n < 10 then [digit_char n] else show_nat (n div 10) @ [digit_char (n mod 10)])"

declare show_nat.simps [simp del]

definition show_int :: "int \<Rightarrow> string" where
  "show_int z = (if z < 0 then CHR ''-'' # show_nat (nat (- z)) else show_nat (nat z))"

lemma digits_value_append:
  "digits_value acc (xs @ [c]) = 10 * digits_value acc xs + digit_value c"
  by (induction xs arbitrary: acc) auto

lemma digits_value_show_nat: "digits_value 0 (show_nat n) = n"
proof (induction n rule: show_nat.induct)
  case (1 n)
  then show ?case
    by (subst show_nat.simps) (simp add: digits_value_append digit_char_value)
qed

lemma list_all_show_nat: "list_all is_ascii_digit (show_nat n)"
proof (induction n rule: show_nat.induct)
  case (1 n)
  then show ?case
    by (subst show_nat.simps) (simp add: digit_char_value)
qed

lemma show_nat_not_Nil: "show_nat n \<noteq> []"
  by (subst show_nat.simps) simp

lemma parse_magnitude_show_nat: "parse_magnitude (show_nat n) = Some n"
  by (simp add: parse_magnitude_def list_all_show_nat show_nat_not_Nil digits_value_show_nat)

lemma hd_show_nat: "is_ascii_digit (hd (show_nat n))"
  using list_all_show_nat [of n] show_nat_not_Nil [of n] by (cases "show_nat n") auto

lemma sign_not_digit: "\<not> is_ascii_digit CHR ''-''" "\<not> is_ascii_digit CHR ''+''" "\<not> is_ascii_digit CHR '':''"
  by (simp_all add: is_ascii_digit_def)

lemma parse_signed_show_int:
  assumes "lo \<le> z" and "z \<le> hi"
  shows "parse_signed lo hi (show_int z) = Some z"
proof (cases "z < 0")
  case True
  then show ?thesis using assms
    by (simp add: parse_signed_def show_int_def parse_magnitude_show_nat)
next
  case False
  obtain c cs where c: "show_nat (nat z) = c # cs"
    using show_nat_not_Nil by (cases "show_nat (nat z)") auto
  with hd_show_nat [of "nat z"] sign_not_digit have "c \<noteq> CHR ''-''" "c \<noteq> CHR ''+''" by auto
  with False c assms parse_magnitude_show_nat [of "nat z"] show ?thesis
    by (simp add: parse_signed_def show_int_def)
qed

section \<open>Splitting\<close>

text \<open>\<open>str::split\<close> with a character; the result is never empty.\<close>

fun split_char :: "char \<Rightarrow> string \<Rightarrow> string list" where
  "split_char d [] = [[]]"
| "split_char d (c # cs) =
     (if c = d then [] # split_char d cs
      else case split_char d cs of
             [] \<Rightarrow> [[c]]
           | w # ws \<Rightarrow> (c # w) # ws)"

text \<open>\<open>str::split_once\<close> with a character: at its first occurrence.\<close>

fun split_once :: "char \<Rightarrow> string \<Rightarrow> (string \<times> string) option" where
  "split_once d [] = None"
| "split_once d (c # cs) =
     (if c = d then Some ([], cs)
      else map_option (\<lambda>(l, r). (c # l, r)) (split_once d cs))"

fun strip_prefix :: "string \<Rightarrow> string \<Rightarrow> string option" where
  "strip_prefix [] s = Some s"
| "strip_prefix (p # ps) [] = None"
| "strip_prefix (p # ps) (c # cs) = (if p = c then strip_prefix ps cs else None)"

definition starts_with :: "string \<Rightarrow> string \<Rightarrow> bool" where
  "starts_with p s \<longleftrightarrow> strip_prefix p s \<noteq> None"

lemma split_once_append:
  assumes "d \<notin> set l"
  shows "split_once d (l @ d # r) = Some (l, r)"
  using assms by (induction l) auto

lemma split_once_SomeD:
  "split_once d s = Some (l, r) \<Longrightarrow> s = l @ d # r \<and> d \<notin> set l"
  by (induction s arbitrary: l) (auto split: if_splits)

lemma strip_prefix_append: "strip_prefix p (p @ s) = Some s"
  by (induction p) auto

lemma split_char_not_Nil: "split_char d s \<noteq> []"
  by (induction s) (auto split: list.splits)

lemma split_char_single:
  assumes "d \<notin> set s"
  shows "split_char d s = [s]"
  using assms by (induction s) auto

lemma split_char_two:
  assumes "d \<notin> set l" and "d \<notin> set r"
  shows "split_char d (l @ d # r) = [l, r]"
  using assms by (induction l) (auto simp: split_char_single)

text \<open>\<open>to_lowercase\<close>, on ASCII.\<close>

definition ascii_lower :: "char \<Rightarrow> char" where
  "ascii_lower c = (if 65 \<le> (of_char c :: nat) \<and> of_char c \<le> (90 :: nat) then char_of (of_char c + 32 :: nat) else c)"

text \<open>\<open>format!("{}", port)\<close>\<close>

definition show_u16 :: "u16 \<Rightarrow> string" where
  "show_u16 p = show_nat (unat p)"

end
