(* ===== verification/Api_Errors.thy ===== *)
theory Api_Errors
  imports Rust_Text
begin

text \<open>
  The errors of the gateway's HTTP interface, \<open>crates/gateway/src/errors.rs\<close>, and the responses
  they turn into. The text of a database error is the database library's.
\<close>

datatype api_error =
    Validation string
  | License string
  | Unauthorized
  | RateLimited
  | DatabaseConnection string
  | DatabaseInteraction string
  | DatabaseQuery string

record api_error_body =
  ae_status :: string
  ae_reason :: string
  ae_details :: string

text \<open>The \<open>#[error(...)]\<close> texts.\<close>

fun api_error_text :: "api_error \<Rightarrow> string" where
  "api_error_text (Validation m) = ''Validation error: '' @ m"
| "api_error_text (License m) = ''License error: '' @ m"
| "api_error_text Unauthorized = ''Unauthorized registration access''"
| "api_error_text RateLimited = ''Rate limited''"
| "api_error_text (DatabaseConnection m) = ''Database connection error: '' @ m"
| "api_error_text (DatabaseInteraction m) = ''Database interaction error: '' @ m"
| "api_error_text (DatabaseQuery m) = ''Database query error: '' @ m"

definition database_error_response :: "u16 \<times> api_error_body" where
  "database_error_response =
     (500, \<lparr>ae_status = ''failed'', ae_reason = ''Database error'',
            ae_details = ''An error occurred while accessing the database.''\<rparr>)"

fun api_error_into_response :: "api_error \<Rightarrow> u16 \<times> api_error_body" where
  "api_error_into_response (Validation m) =
     (400, \<lparr>ae_status = ''failed'', ae_reason = ''Provided fields are not valid'',
            ae_details = api_error_text (Validation m)\<rparr>)"
| "api_error_into_response (License address) =
     (403, \<lparr>ae_status = ''failed'', ae_reason = ''no_license'',
            ae_details = ''Address: '' @ address @ '' does not contain the license.''\<rparr>)"
| "api_error_into_response Unauthorized =
     (403, \<lparr>ae_status = ''failed'', ae_reason = ''unauthorized'',
            ae_details = ''You are not authorized to access the registration.''\<rparr>)"
| "api_error_into_response RateLimited =
     (429, \<lparr>ae_status = ''failed'', ae_reason = ''rate_limited'',
            ae_details = ''Too many registration requests. Please try again later.''\<rparr>)"
| "api_error_into_response (DatabaseConnection _) = database_error_response"
| "api_error_into_response (DatabaseInteraction _) = database_error_response"
| "api_error_into_response (DatabaseQuery _) = database_error_response"

end
