(* ===== verification/Rust_Maps.thy ===== *)
theory Rust_Maps
  imports Prelude "HOL-Library.AList" "HOL-Library.Multiset"
begin

text \<open>
  The two maps of Rust's standard library that the load balancer keeps its state in:
  \<open>BTreeMap\<close>, as an association list in the order of its keys, and \<open>HashMap\<close>, as an
  association list with distinct keys whose order means nothing. The interface that the
  components use is the locale \<open>rust_map\<close>; both maps are interpretations of it. Also
  \<open>Uuid\<close>, the key of the registry of relays, with its order.
\<close>

section \<open>The interface\<close>

locale rust_map =
  fixes ok :: "'m \<Rightarrow> bool"
    and empty_map :: "'m"
    and get :: "'k \<Rightarrow> 'm \<Rightarrow> 'v option"
    and put :: "'k \<Rightarrow> 'v \<Rightarrow> 'm \<Rightarrow> 'm"
    and remove :: "'k \<Rightarrow> 'm \<Rightarrow> 'm"
    and retain :: "('k \<Rightarrow> 'v \<Rightarrow> bool) \<Rightarrow> 'm \<Rightarrow> 'm"
    and entries :: "'m \<Rightarrow> ('k \<times> 'v) list"
  assumes ok_empty: "ok empty_map"
    and entries_empty: "entries empty_map = []"
    and ok_put: "ok m \<Longrightarrow> ok (put k v m)"
    and ok_remove: "ok m \<Longrightarrow> ok (remove k m)"
    and ok_retain: "ok m \<Longrightarrow> ok (retain P m)"
    and get_put: "ok m \<Longrightarrow> get k' (put k v m) = (if k' = k then Some v else get k' m)"
    and get_remove: "ok m \<Longrightarrow> get k' (remove k m) = (if k' = k then None else get k' m)"
    and entries_retain: "entries (retain P m) = filter (\<lambda>(k, v). P k v) (entries m)"
    and distinct_entries: "ok m \<Longrightarrow> distinct (map fst (entries m))"
    and get_entries: "ok m \<Longrightarrow> get k m = Some v \<longleftrightarrow> (k, v) \<in> set (entries m)"
begin

lemma get_retain:
  assumes "ok m"
  shows "get k (retain P m) = Some v \<longleftrightarrow> get k m = Some v \<and> P k v"
  using assms by (auto simp: get_entries ok_retain entries_retain)

lemma distinct_pairs: "ok m \<Longrightarrow> distinct (entries m)"
  using distinct_entries by (simp add: distinct_map)

lemma set_entries_put:
  assumes "ok m"
  shows "set (entries (put k v m)) = {x \<in> set (entries m). fst x \<noteq> k} \<union> {(k, v)}"
proof -
  have "x \<in> set (entries (put k v m)) \<longleftrightarrow> x \<in> {x \<in> set (entries m). fst x \<noteq> k} \<union> {(k, v)}" for x
    using assms by (cases x)
      (auto simp flip: get_entries [OF ok_put [OF assms]] get_entries [OF assms] simp: get_put split: if_splits)
  then show ?thesis by blast
qed

lemma set_entries_remove:
  assumes "ok m"
  shows "set (entries (remove k m)) = {x \<in> set (entries m). fst x \<noteq> k}"
proof -
  have "x \<in> set (entries (remove k m)) \<longleftrightarrow> x \<in> {x \<in> set (entries m). fst x \<noteq> k}" for x
    using assms by (cases x)
      (auto simp flip: get_entries [OF ok_remove [OF assms]] get_entries [OF assms] simp: get_remove split: if_splits)
  then show ?thesis by blast
qed

text \<open>A fresh key adds exactly its entry; removing a key takes exactly its entry away.\<close>

lemma mset_entries_put:
  assumes "ok m" and "get k m = None"
  shows "mset (entries (put k v m)) = add_mset (k, v) (mset (entries m))"
proof -
  have fresh: "\<forall>x \<in> set (entries m). fst x \<noteq> k"
    using assms get_entries [OF assms(1), of k] by auto
  have "set (entries (put k v m)) = set ((k, v) # entries m)"
    using fresh by (auto simp: set_entries_put [OF assms(1)])
  moreover have "distinct ((k, v) # entries m)"
    using fresh distinct_pairs [OF assms(1)] by auto
  ultimately have "mset (entries (put k v m)) = mset ((k, v) # entries m)"
    using set_eq_iff_mset_eq_distinct distinct_pairs [OF ok_put [OF assms(1)]] by blast
  then show ?thesis by simp
qed

lemma mset_entries_remove:
  assumes "ok m" and "get k m = Some v"
  shows "mset (entries m) = add_mset (k, v) (mset (entries (remove k m)))"
proof -
  have kv: "(k, v) \<in> set (entries m)" using assms get_entries by blast
  have uniq: "(k, w) \<in> set (entries m) \<Longrightarrow> w = v" for w
    using get_entries [OF assms(1)] assms(2) by (metis option.inject)
  have "x \<in> set (entries m) \<longleftrightarrow> x \<in> insert (k, v) {x \<in> set (entries m). fst x \<noteq> k}" for x
    using kv by (cases x) (auto dest: uniq)
  then have "set (entries m) = insert (k, v) {x \<in> set (entries m). fst x \<noteq> k}" by blast
  then have "set (entries m) = set ((k, v) # entries (remove k m))"
    by (simp add: set_entries_remove [OF assms(1)])
  moreover have "distinct ((k, v) # entries (remove k m))"
    using distinct_pairs [OF ok_remove [OF assms(1)]] by (auto simp: set_entries_remove [OF assms(1)])
  ultimately have "mset (entries m) = mset ((k, v) # entries (remove k m))"
    using set_eq_iff_mset_eq_distinct distinct_pairs [OF assms(1)] by blast
  then show ?thesis by simp
qed

lemma entries_remove_absent:
  assumes "ok m" and "get k m = None"
  shows "mset (entries (remove k m)) = mset (entries m)"
proof -
  have "\<forall>x \<in> set (entries m). fst x \<noteq> k"
    using assms get_entries [OF assms(1), of k] by auto
  then have "set (entries (remove k m)) = set (entries m)"
    by (auto simp: set_entries_remove [OF assms(1)])
  then show ?thesis
    using set_eq_iff_mset_eq_distinct distinct_pairs [OF assms(1)]
      distinct_pairs [OF ok_remove [OF assms(1)]] by blast
qed

lemma mset_entries_retain:
  "mset (entries m) =
   mset (entries (retain P m)) + mset (filter (\<lambda>(k, v). \<not> P k v) (entries m))"
  by (simp add: entries_retain split_def multiset_partition [of "mset (entries m)"])

end

section \<open>\<open>HashMap\<close>\<close>

type_synonym ('k, 'v) hash_map = "('k \<times> 'v) list"

definition hash_ok :: "('k, 'v) hash_map \<Rightarrow> bool" where
  "hash_ok m \<longleftrightarrow> distinct (map fst m)"

definition hash_get :: "'k \<Rightarrow> ('k, 'v) hash_map \<Rightarrow> 'v option" where
  "hash_get k m = map_of m k"

definition hash_insert :: "'k \<Rightarrow> 'v \<Rightarrow> ('k, 'v) hash_map \<Rightarrow> ('k, 'v) hash_map" where
  "hash_insert k v m = AList.update k v m"

definition hash_remove :: "'k \<Rightarrow> ('k, 'v) hash_map \<Rightarrow> ('k, 'v) hash_map" where
  "hash_remove k m = AList.delete k m"

definition hash_retain :: "('k \<Rightarrow> 'v \<Rightarrow> bool) \<Rightarrow> ('k, 'v) hash_map \<Rightarrow> ('k, 'v) hash_map" where
  "hash_retain P m = filter (\<lambda>(k, v). P k v) m"

lemma distinct_map_filter_fst: "distinct (map fst m) \<Longrightarrow> distinct (map fst (filter P m))"
  by (rule distinct_map_filter)

interpretation hash: rust_map hash_ok "[]" hash_get hash_insert hash_remove hash_retain "\<lambda>m. m"
proof
  fix m :: "('k, 'v) hash_map" and k k' v P
  assume ok: "hash_ok m"
  then show "hash_ok (hash_insert k v m)" "hash_ok (hash_remove k m)" "hash_ok (hash_retain P m)"
    by (simp_all add: hash_ok_def hash_insert_def hash_remove_def hash_retain_def distinct_update
          distinct_delete distinct_map_filter_fst)
  show "hash_get k' (hash_insert k v m) = (if k' = k then Some v else hash_get k' m)"
    by (simp add: hash_get_def hash_insert_def update_conv')
  show "hash_get k' (hash_remove k m) = (if k' = k then None else hash_get k' m)"
    by (simp add: hash_get_def hash_remove_def delete_conv')
  show "distinct (map fst m)" using ok by (simp add: hash_ok_def)
  show "hash_get k m = Some v \<longleftrightarrow> (k, v) \<in> set m"
    using ok by (simp add: hash_get_def hash_ok_def)
qed (simp_all add: hash_ok_def hash_retain_def)

section \<open>\<open>BTreeMap\<close>\<close>

type_synonym ('k, 'v) btree_map = "('k \<times> 'v) list"

definition btree_ok :: "('k :: linorder, 'v) btree_map \<Rightarrow> bool" where
  "btree_ok m \<longleftrightarrow> sorted_wrt (<) (map fst m)"

definition btree_get :: "'k \<Rightarrow> ('k :: linorder, 'v) btree_map \<Rightarrow> 'v option" where
  "btree_get k m = map_of m k"

fun btree_insert :: "'k \<Rightarrow> 'v \<Rightarrow> ('k :: linorder, 'v) btree_map \<Rightarrow> ('k, 'v) btree_map" where
  "btree_insert k v [] = [(k, v)]"
| "btree_insert k v ((k', v') # m) =
     (if k < k' then (k, v) # (k', v') # m
      else if k = k' then (k, v) # m
      else (k', v') # btree_insert k v m)"

definition btree_remove :: "'k \<Rightarrow> ('k :: linorder, 'v) btree_map \<Rightarrow> ('k, 'v) btree_map" where
  "btree_remove k m = filter (\<lambda>(k', v). k' \<noteq> k) m"

definition btree_retain :: "('k \<Rightarrow> 'v \<Rightarrow> bool) \<Rightarrow> ('k :: linorder, 'v) btree_map \<Rightarrow> ('k, 'v) btree_map" where
  "btree_retain P m = filter (\<lambda>(k, v). P k v) m"

definition btree_keys :: "('k :: linorder, 'v) btree_map \<Rightarrow> 'k list" where
  "btree_keys m = map fst m"

lemma btree_ok_distinct: "btree_ok m \<Longrightarrow> distinct (map fst m)"
  by (simp add: btree_ok_def strict_sorted_iff)

lemma btree_ok_filter: "btree_ok m \<Longrightarrow> btree_ok (filter P m)"
  by (simp add: btree_ok_def sorted_wrt_map sorted_wrt_filter)

lemma set_btree_insert_keys: "set (map fst (btree_insert k v m)) = insert k (set (map fst m))"
  by (induction k v m rule: btree_insert.induct) (simp_all add: insert_commute)

lemma btree_ok_insert: "btree_ok m \<Longrightarrow> btree_ok (btree_insert k v m)"
proof (induction m)
  case (Cons a m)
  obtain k' v' where a: "a = (k', v')" by (cases a)
  have rest: "btree_ok (btree_insert k v m)" using Cons by (simp add: btree_ok_def)
  have above: "\<forall>x \<in> set (map fst m). k' < x" using Cons.prems by (auto simp: btree_ok_def a)
  show ?case
  proof (cases "k' < k")
    case True
    with above have "\<forall>x \<in> set (map fst (btree_insert k v m)). k' < x"
      unfolding set_btree_insert_keys by simp
    moreover have "btree_insert k v (a # m) = a # btree_insert k v m" using True by (auto simp: a)
    ultimately show ?thesis using rest by (simp add: btree_ok_def a)
  next
    case False
    show ?thesis
    proof (cases "k = k'")
      case False
      with \<open>\<not> k' < k\<close> have "k < k'" by simp
      with Cons.prems above show ?thesis by (fastforce simp: btree_ok_def a)
    qed (use Cons.prems in \<open>simp add: btree_ok_def a\<close>)
  qed
qed (simp add: btree_ok_def)

lemma map_of_btree_insert: "map_of (btree_insert k v m) k' = (if k' = k then Some v else map_of m k')"
  by (induction m) auto

lemma map_of_filter_key: "map_of (filter (\<lambda>(k', v). k' \<noteq> k) m) k'' = (if k'' = k then None else map_of m k'')"
  by (induction m) auto

interpretation btree: rust_map btree_ok "[]" btree_get btree_insert btree_remove btree_retain "\<lambda>m. m"
proof
  fix m :: "('k :: linorder, 'v) btree_map" and k k' v P
  assume ok: "btree_ok m"
  then show "btree_ok (btree_insert k v m)" "btree_ok (btree_remove k m)" "btree_ok (btree_retain P m)"
    by (simp_all add: btree_ok_insert btree_ok_filter btree_remove_def btree_retain_def)
  show "btree_get k' (btree_insert k v m) = (if k' = k then Some v else btree_get k' m)"
    by (simp add: btree_get_def map_of_btree_insert)
  show "btree_get k' (btree_remove k m) = (if k' = k then None else btree_get k' m)"
    by (simp add: btree_get_def btree_remove_def map_of_filter_key)
  show "distinct (map fst m)" using ok by (rule btree_ok_distinct)
  show "btree_get k m = Some v \<longleftrightarrow> (k, v) \<in> set m"
    using btree_ok_distinct [OF ok] by (simp add: btree_get_def)
qed (simp_all add: btree_ok_def btree_retain_def)

section \<open>\<open>Uuid\<close>\<close>

text \<open>Its derived order compares the sixteen bytes, most significant first.\<close>

datatype uuid = Uuid u128

fun uuid_bits :: "uuid \<Rightarrow> u128" where
  "uuid_bits (Uuid b) = b"

instantiation uuid :: linorder
begin

definition less_eq_uuid :: "uuid \<Rightarrow> uuid \<Rightarrow> bool" where
  "less_eq_uuid a b \<longleftrightarrow> uuid_bits a \<le> uuid_bits b"

definition less_uuid :: "uuid \<Rightarrow> uuid \<Rightarrow> bool" where
  "less_uuid a b \<longleftrightarrow> uuid_bits a < uuid_bits b"

instance
proof
  fix x y z :: uuid
  show "x < y \<longleftrightarrow> x \<le> y \<and> \<not> y \<le> x" by (auto simp: less_eq_uuid_def less_uuid_def)
  show "x \<le> x" by (simp add: less_eq_uuid_def)
  show "x \<le> y \<Longrightarrow> y \<le> z \<Longrightarrow> x \<le> z" by (auto simp: less_eq_uuid_def)
  show "x \<le> y \<Longrightarrow> y \<le> x \<Longrightarrow> x = y" by (cases x; cases y) (auto simp: less_eq_uuid_def)
  show "x \<le> y \<or> y \<le> x" by (auto simp: less_eq_uuid_def)
qed

end

end
