(* ===== verification/Lb_Token.thy ===== *)
theory Lb_Token
  imports Api_Errors Rust_Maps
begin

text \<open>
  The stateless access tokens of the gateway, \<open>new_access_token\<close>, \<open>register\<close> and
  \<open>websocket_route\<close> of \<open>crates/gateway/src/load_balancer.rs\<close>. Base64, the keyed hash, the
  hexadecimal form of a hash and the JSON codec are libraries: parameters of the model, with
  what the code relies on of the codecs as the hypothesis \<open>token_lib_ok\<close>. Nothing is assumed of the
  keyed hash: that tokens are authentic is a reduction to its forgery.
\<close>

section \<open>The libraries\<close>

record token_payload =
  kp_api_prefix :: uuid
  kp_asset_name :: string
  kp_reward_addr :: string
  kp_expires :: u64

record token_lib =
  tl_b64_encode :: "string \<Rightarrow> string"              \<comment> \<open>\<open>URL_SAFE_NO_PAD.encode\<close>\<close>
  tl_b64_decode :: "string \<Rightarrow> string option"
  tl_keyed_hash :: "string \<Rightarrow> string \<Rightarrow> string"     \<comment> \<open>\<open>blake3::keyed_hash\<close>\<close>
  tl_to_hex :: "string \<Rightarrow> string"
  tl_from_hex :: "string \<Rightarrow> string option"
  tl_to_json :: "token_payload \<Rightarrow> string"
  tl_from_json :: "string \<Rightarrow> token_payload option"

text \<open>The codecs invert each other, and the URL-safe alphabet has no full stop.\<close>

definition token_lib_ok :: "token_lib \<Rightarrow> bool" where
  "token_lib_ok L \<longleftrightarrow>
     (\<forall>s. tl_b64_decode L (tl_b64_encode L s) = Some s) \<and>
     (\<forall>s. CHR ''.'' \<notin> set (tl_b64_encode L s)) \<and>
     (\<forall>h. tl_from_hex L (tl_to_hex L h) = Some h) \<and>
     (\<forall>p. tl_from_json L (tl_to_json L p) = Some p)"

section \<open>Tokens\<close>

definition ACCESS_TOKEN_TIMEOUT_SECS :: u64 where
  "ACCESS_TOKEN_TIMEOUT_SECS = 5 * 60"

record access_token_state =
  at_name :: string
  at_reward_addr :: string
  at_api_prefix :: uuid

text \<open>\<open>now\<close> is the system time in seconds since the epoch.\<close>

definition new_access_token ::
  "token_lib \<Rightarrow> string \<Rightarrow> u64 \<Rightarrow> string \<Rightarrow> uuid \<Rightarrow> string \<Rightarrow> string" where
  "new_access_token L peer_secret now name api_prefix reward_addr =
     (let payload = \<lparr>kp_api_prefix = api_prefix, kp_asset_name = name,
                     kp_reward_addr = reward_addr,
                     kp_expires = now + ACCESS_TOKEN_TIMEOUT_SECS\<rparr>;
          payload_b64 = tl_b64_encode L (tl_to_json L payload);
          hash = tl_keyed_hash L peer_secret payload_b64
      in payload_b64 @ ''.'' @ tl_to_hex L hash)"

definition lb_register ::
  "token_lib \<Rightarrow> string \<Rightarrow> u64 \<Rightarrow> string \<Rightarrow> api_error + access_token_state" where
  "lb_register L peer_secret now token =
     (case split_once CHR ''.'' token of
        None \<Rightarrow> Inl Unauthorized
      | Some (payload_b64, hash_hex) \<Rightarrow>
          (let expected = tl_keyed_hash L peer_secret payload_b64
           in case tl_from_hex L hash_hex of
                None \<Rightarrow> Inl Unauthorized
              | Some provided \<Rightarrow>
                  if expected \<noteq> provided then Inl Unauthorized
                  else case tl_b64_decode L payload_b64 of
                         None \<Rightarrow> Inl Unauthorized
                       | Some payload_json \<Rightarrow>
                           (case tl_from_json L payload_json of
                              None \<Rightarrow> Inl Unauthorized
                            | Some payload \<Rightarrow>
                                if kp_expires payload < now then Inl Unauthorized
                                else Inr \<lparr>at_name = kp_asset_name payload,
                                          at_reward_addr = kp_reward_addr payload,
                                          at_api_prefix = kp_api_prefix payload\<rparr>)))"

text \<open>
  The \<open>Authorization\<close> header, when it is there and is text; \<open>Inr\<close> means that the connection is
  upgraded and its event loop starts with this state.
\<close>

definition websocket_route ::
  "token_lib \<Rightarrow> string \<Rightarrow> u64 \<Rightarrow> string option \<Rightarrow> api_error + access_token_state" where
  "websocket_route L peer_secret now authorization =
     (case Option.bind authorization (strip_prefix ''Bearer '') of
        None \<Rightarrow> Inl Unauthorized
      | Some token \<Rightarrow> lb_register L peer_secret now token)"

section \<open>A library to instantiate the hypotheses with\<close>

text \<open>Every byte as two letters from \<open>A\<close> to \<open>P\<close>; a payload as its four fields.\<close>

definition nibbles :: "char \<Rightarrow> string" where
  "nibbles c = (let n = of_char c :: nat in [char_of (65 + n div 16), char_of (65 + n mod 16)])"

definition hexed :: "string \<Rightarrow> string" where
  "hexed s = concat (map nibbles s)"

fun unnibbles :: "string \<Rightarrow> string option" where
  "unnibbles [] = Some []"
| "unnibbles [c] = None"
| "unnibbles (a # b # s) =
     map_option (\<lambda>r. char_of ((of_char a - 65) * 16 + (of_char b - 65) :: nat) # r) (unnibbles s)"

definition demo_to_json :: "token_payload \<Rightarrow> string" where
  "demo_to_json p =
     show_nat (unat (uuid_bits (kp_api_prefix p))) @ '','' @ show_nat (unat (kp_expires p)) @ '','' @
     hexed (kp_asset_name p) @ '','' @ hexed (kp_reward_addr p)"

definition demo_from_json :: "string \<Rightarrow> token_payload option" where
  "demo_from_json s =
     (case split_char CHR '','' s of
        [p, e, n, r] \<Rightarrow>
          (case (parse_magnitude p, parse_magnitude e, unnibbles n, unnibbles r) of
             (Some p', Some e', Some n', Some r') \<Rightarrow>
               Some \<lparr>kp_api_prefix = Uuid (of_nat p'), kp_asset_name = n', kp_reward_addr = r',
                     kp_expires = of_nat e'\<rparr>
           | _ \<Rightarrow> None)
      | _ \<Rightarrow> None)"

definition demo_token_lib :: token_lib where
  "demo_token_lib =
     \<lparr>tl_b64_encode = hexed, tl_b64_decode = unnibbles,
      tl_keyed_hash = (\<lambda>k m. k @ m), tl_to_hex = hexed,
      tl_from_hex = unnibbles, tl_to_json = demo_to_json, tl_from_json = demo_from_json\<rparr>"

lemma of_char_char_of_65: "n < 16 \<Longrightarrow> (of_char (char_of (65 + n) :: char) :: nat) = 65 + n"
  by (simp add: of_char_of)

lemma unnibbles_step: "unnibbles (nibbles c @ s) = map_option ((#) c) (unnibbles s)"
proof -
  have "(of_char c :: nat) < 256" by (rule nat_of_char_less_256)
  then have "(of_char c :: nat) div 16 < 16" "(of_char c :: nat) mod 16 < 16"
    by (auto intro: less_mult_imp_div_less)
  then show ?thesis
    by (simp add: nibbles_def Let_def of_char_char_of_65)
qed

lemma unnibbles_hexed: "unnibbles (hexed s) = Some s"
  by (induction s) (simp_all add: hexed_def unnibbles_step)

lemma char_of_65_plain:
  assumes "n < 16"
  shows "(char_of (65 + n :: nat) :: char) \<noteq> CHR '',''" "(char_of (65 + n :: nat) :: char) \<noteq> CHR ''.''"
proof -
  have "(of_char (char_of (65 + n :: nat) :: char) :: nat) = 65 + n"
    using assms by (rule of_char_char_of_65)
  moreover have "(of_char CHR '','' :: nat) = 44" "(of_char CHR ''.'' :: nat) = 46" by simp_all
  ultimately show "(char_of (65 + n :: nat) :: char) \<noteq> CHR '',''"
    "(char_of (65 + n :: nat) :: char) \<noteq> CHR ''.''" by force+
qed

lemma hexed_plain: "CHR '','' \<notin> set (hexed s)" "CHR ''.'' \<notin> set (hexed s)"
proof -
  have "(of_char c :: nat) div 16 < 16 \<and> (of_char c :: nat) mod 16 < 16" for c :: char
    using nat_of_char_less_256 [of c] by (auto intro: less_mult_imp_div_less)
  then have "CHR '','' \<notin> set (nibbles c) \<and> CHR ''.'' \<notin> set (nibbles c)" for c
    unfolding nibbles_def Let_def using char_of_65_plain by (metis empty_iff empty_set set_ConsD)
  then show "CHR '','' \<notin> set (hexed s)" "CHR ''.'' \<notin> set (hexed s)"
    by (auto simp: hexed_def)
qed

lemma comma_not_in_show_nat: "CHR '','' \<notin> set (show_nat n)"
  using list_all_show_nat [of n] by (auto simp: list_all_iff is_ascii_digit_def)

lemma split_char_Cons_field:
  "d \<notin> set l \<Longrightarrow> split_char d (l @ d # s) = l # split_char d s"
  by (induction l) (auto split: list.splits)

lemma uuid_of_bits: "Uuid (uuid_bits u) = u"
  by (cases u) simp

lemma demo_json_roundtrip: "demo_from_json (demo_to_json p) = Some p"
proof -
  have "split_char CHR '','' (demo_to_json p) =
    [show_nat (unat (uuid_bits (kp_api_prefix p))), show_nat (unat (kp_expires p)),
     hexed (kp_asset_name p), hexed (kp_reward_addr p)]"
    by (simp add: demo_to_json_def split_char_Cons_field comma_not_in_show_nat hexed_plain split_char_single)
  then show ?thesis
    by (simp add: demo_from_json_def parse_magnitude_show_nat unnibbles_hexed uuid_of_bits)
qed

lemma demo_token_lib_ok: "token_lib_ok demo_token_lib"
  by (simp add: token_lib_ok_def demo_token_lib_def unnibbles_hexed hexed_plain demo_json_roundtrip)

section \<open>Properties\<close>

lemma lb_register_InrD:
  assumes "lb_register L k now t = Inr st"
  obtains payload_b64 mac j p where
    "split_once CHR ''.'' t = Some (payload_b64, mac)" "tl_from_hex L mac = Some (tl_keyed_hash L k payload_b64)"
    "tl_b64_decode L payload_b64 = Some j" "tl_from_json L j = Some p" "now \<le> kp_expires p"
    "st = \<lparr>at_name = kp_asset_name p, at_reward_addr = kp_reward_addr p, at_api_prefix = kp_api_prefix p\<rparr>"
  using assms
  by (auto simp: lb_register_def Let_def split: option.splits if_splits intro: that)

text \<open>A token is accepted by any gateway with the same secret until five minutes after it was
  issued, with the name, the address and the prefix it was issued for, and refused from then on.\<close>

theorem token_roundtrip:
  assumes "token_lib_ok L" and "unat issued + 300 < 2 ^ 64"
  shows "websocket_route L k now (Some (''Bearer '' @ new_access_token L k issued name prefix addr)) =
    (if unat now \<le> unat issued + 300
     then Inr \<lparr>at_name = name, at_reward_addr = addr, at_api_prefix = prefix\<rparr>
     else Inl Unauthorized)"
proof -
  have "unat (issued + ACCESS_TOKEN_TIMEOUT_SECS) = unat issued + 300"
    using assms(2) by (subst unat_add_no_wrap) (simp_all add: ACCESS_TOKEN_TIMEOUT_SECS_def)
  then have "issued + ACCESS_TOKEN_TIMEOUT_SECS < now \<longleftrightarrow> \<not> unat now \<le> unat issued + 300"
    by (simp add: word_less_nat_alt not_le)
  with assms(1) have "lb_register L k now (new_access_token L k issued name prefix addr) =
    (if unat now \<le> unat issued + 300
     then Inr \<lparr>at_name = name, at_reward_addr = addr, at_api_prefix = prefix\<rparr>
     else Inl Unauthorized)"
    unfolding token_lib_ok_def
    by (simp add: lb_register_def new_access_token_def Let_def split_once_append)
  then show ?thesis
    unfolding websocket_route_def bind.simps strip_prefix_append option.case .
qed

theorem token_roundtrip_witness:
  "websocket_route demo_token_lib ''k'' 1060
     (Some (''Bearer '' @ new_access_token demo_token_lib ''k'' 1000 ''n'' (Uuid 7) ''a'')) =
   Inr \<lparr>at_name = ''n'', at_reward_addr = ''a'', at_api_prefix = Uuid 7\<rparr>"
  by (subst token_roundtrip [OF demo_token_lib_ok]) simp_all

text \<open>What a gateway has issued: the times with the names, prefixes and addresses, and what it signed for them.\<close>

type_synonym issue = "u64 \<times> string \<times> uuid \<times> string"

definition issued_payload :: "token_lib \<Rightarrow> issue \<Rightarrow> string" where
  "issued_payload L = (\<lambda>(issued, name, prefix, addr).
     tl_b64_encode L (tl_to_json L \<lparr>kp_api_prefix = prefix, kp_asset_name = name, kp_reward_addr = addr,
       kp_expires = issued + ACCESS_TOKEN_TIMEOUT_SECS\<rparr>))"

text \<open>A forgery of the keyed hash: its value under the key for a text that was never signed with it.\<close>

definition forgery :: "token_lib \<Rightarrow> string \<Rightarrow> string set \<Rightarrow> string \<Rightarrow> string \<Rightarrow> bool" where
  "forgery L k hashed payload mac \<longleftrightarrow>
     payload \<notin> hashed \<and> tl_from_hex L mac = Some (tl_keyed_hash L k payload)"

lemma issued_token:
  "token_lib_ok L \<Longrightarrow>
     split_once CHR ''.'' (new_access_token L k issued name prefix addr) =
       Some (issued_payload L (issued, name, prefix, addr),
             tl_to_hex L (tl_keyed_hash L k (issued_payload L (issued, name, prefix, addr))))"
  by (simp add: new_access_token_def issued_payload_def Let_def token_lib_ok_def split_once_append)

text \<open>C21: Tokens cannot be forged without forging the keyed hash. A token that a gateway accepts has two parts, a
  payload and the keyed hash of it; and either the payload is one that a gateway with that key has issued,
  the token then gives exactly the name, the address and the prefix of that issue, and is at most five
  minutes older than the moment of its use; or the two parts are a forgery of the keyed hash, its value for
  a text that was never signed. No assumption on the hash is made.\<close>

theorem token_authentic:
  assumes "token_lib_ok L" and "\<forall>(issued, _) \<in> I. unat issued + 300 < 2 ^ 64"
    and "lb_register L k now t = Inr st"
  shows "\<exists>payload mac. split_once CHR ''.'' t = Some (payload, mac) \<and>
    ((\<exists>(issued, name, prefix, addr) \<in> I. payload = issued_payload L (issued, name, prefix, addr) \<and>
        tl_from_hex L mac = Some (tl_keyed_hash L k payload) \<and>
        st = \<lparr>at_name = name, at_reward_addr = addr, at_api_prefix = prefix\<rparr> \<and>
        unat now \<le> unat issued + 300) \<or>
     forgery L k (issued_payload L ` I) payload mac)"
proof -
  obtain b64 m j p where t: "split_once CHR ''.'' t = Some (b64, m)"
    and m: "tl_from_hex L m = Some (tl_keyed_hash L k b64)"
    and j: "tl_b64_decode L b64 = Some j" "tl_from_json L j = Some p" and e: "now \<le> kp_expires p"
    and st: "st = \<lparr>at_name = kp_asset_name p, at_reward_addr = kp_reward_addr p, at_api_prefix = kp_api_prefix p\<rparr>"
    using assms(3) by (rule lb_register_InrD)
  show ?thesis
  proof (cases "b64 \<in> issued_payload L ` I")
    case True
    then obtain issued name prefix addr where i: "(issued, name, prefix, addr) \<in> I"
      "b64 = issued_payload L (issued, name, prefix, addr)" by auto
    from i(2) j assms(1) have "p = \<lparr>kp_api_prefix = prefix, kp_asset_name = name, kp_reward_addr = addr,
        kp_expires = issued + ACCESS_TOKEN_TIMEOUT_SECS\<rparr>"
      by (auto simp: issued_payload_def token_lib_ok_def)
    moreover have "unat (issued + ACCESS_TOKEN_TIMEOUT_SECS) = unat issued + 300"
      using assms(2) i(1) by (subst unat_add_no_wrap) (auto simp: ACCESS_TOKEN_TIMEOUT_SECS_def)
    ultimately have "st = \<lparr>at_name = name, at_reward_addr = addr, at_api_prefix = prefix\<rparr> \<and>
        unat now \<le> unat issued + 300"
      using st e by (simp add: word_le_nat_alt)
    with t m i show ?thesis by blast
  next
    case False
    with t m show ?thesis by (auto simp: forgery_def)
  qed
qed

text \<open>A token that was issued, used a minute later.\<close>

theorem token_authentic_witness:
  "\<exists>st. lb_register demo_token_lib ''k'' 1060
     (new_access_token demo_token_lib ''k'' 1000 ''n'' (Uuid 7) ''a'') = Inr st \<and>
   st = \<lparr>at_name = ''n'', at_reward_addr = ''a'', at_api_prefix = Uuid 7\<rparr>"
proof -
  let ?t = "new_access_token demo_token_lib ''k'' 1000 ''n'' (Uuid 7) ''a''"
  let ?I = "{(1000, ''n'', Uuid 7, ''a'')} :: issue set"
  obtain st where st: "lb_register demo_token_lib ''k'' 1060 ?t = Inr st"
    using demo_token_lib_ok
    by (simp add: lb_register_def new_access_token_def Let_def token_lib_ok_def split_once_append
        ACCESS_TOKEN_TIMEOUT_SECS_def)
  have I: "\<forall>(issued, _) \<in> ?I. unat issued + 300 < 2 ^ 64" by simp
  have "\<not> forgery demo_token_lib ''k'' (issued_payload demo_token_lib ` ?I)
      (issued_payload demo_token_lib (1000, ''n'', Uuid 7, ''a'')) mac" for mac
    by (simp add: forgery_def)
  with token_authentic [OF demo_token_lib_ok I st] issued_token [OF demo_token_lib_ok, of "''k''" 1000 "''n''" "Uuid 7" "''a''"]
  show ?thesis using st by auto
qed

end
