(* ===== verification/Lb_Registry.thy ===== *)
theory Lb_Registry
  imports Lb_Token
begin

text \<open>
  The registry of connected relays, \<open>LoadBalancerState\<close> of \<open>crates/gateway/src/load_balancer.rs\<close>:
  the choice of a relay for a request, and the steps by which the event loops of concurrent
  WebSocket sessions enter and leave the registry. Each lock of \<open>active_relays\<close> is one atomic
  step; sessions interleave between their steps.
\<close>

section \<open>Choosing a relay\<close>

text \<open>
  A relay's channels and counters belong to the session that runs its event loop; sessions are
  numbered, and the number stands for the clones of the session's senders.
\<close>

record relay_state =
  rs_name :: string
  rs_session :: nat

record load_balancer =
  lb_active_relays :: "(uuid, relay_state) btree_map"
  lb_any_relay_cursor :: u64

definition lb_new :: load_balancer where
  "lb_new = \<lparr>lb_active_relays = [], lb_any_relay_cursor = 0\<rparr>"

definition relay_for_prefix ::
  "(uuid \<Rightarrow> string) \<Rightarrow> load_balancer \<Rightarrow> uuid \<Rightarrow> string \<Rightarrow> (u16 \<times> string) + (nat \<times> string)" where
  "relay_for_prefix show_uuid lb api_prefix rest =
     (case btree_get api_prefix (lb_active_relays lb) of
        None \<Rightarrow> Inl (404, ''relay '' @ show_uuid api_prefix @ '' not found for request: '' @ rest)
      | Some rs \<Rightarrow> Inr (rs_session rs, rs_name rs))"

text \<open>\<open>None\<close> is a panic: one of the two \<open>expect\<close>s of the code fails.\<close>

definition relay_for_any ::
  "load_balancer \<Rightarrow> string \<Rightarrow> (((u16 \<times> string) + (nat \<times> string)) \<times> load_balancer) option" where
  "relay_for_any lb rest =
     (let n = length (lb_active_relays lb)
      in if n = 0 then Some (Inl (404, ''no relays connected for request: '' @ rest), lb)
         else
           let request_count = lb_any_relay_cursor lb;
               lb' = lb\<lparr>lb_any_relay_cursor := request_count + 1\<rparr>;
               idx = unat (request_count mod of_nat n)
           in case drop idx (btree_keys (lb_active_relays lb)) of
                [] \<Rightarrow> None
              | api_prefix # _ \<Rightarrow>
                  (case btree_get api_prefix (lb_active_relays lb) of
                     None \<Rightarrow> None
                   | Some rs \<Rightarrow> Some (Inr (rs_session rs, rs_name rs), lb')))"

text \<open>A sequence of requests to any relay, with no change of the registry in between.\<close>

fun any_calls ::
  "nat \<Rightarrow> load_balancer \<Rightarrow> string \<Rightarrow> (((u16 \<times> string) + (nat \<times> string)) list \<times> load_balancer) option" where
  "any_calls 0 lb rest = Some ([], lb)"
| "any_calls (Suc k) lb rest =
     Option.bind (relay_for_any lb rest) (\<lambda>(r, lb1).
       map_option (\<lambda>(rs, lb2). (r # rs, lb2)) (any_calls k lb1 rest))"

definition relay_of :: "uuid \<times> relay_state \<Rightarrow> (u16 \<times> string) + (nat \<times> string)" where
  "relay_of e = Inr (rs_session (snd e), rs_name (snd e))"

lemma relay_for_any_pick:
  assumes "btree_ok (lb_active_relays lb)" and "lb_active_relays lb \<noteq> []"
    and "length (lb_active_relays lb) < 2 ^ 64"
  shows "relay_for_any lb rest =
    Some (relay_of (lb_active_relays lb ! (unat (lb_any_relay_cursor lb) mod length (lb_active_relays lb))),
          lb\<lparr>lb_any_relay_cursor := lb_any_relay_cursor lb + 1\<rparr>)"
proof -
  let ?m = "lb_active_relays lb" and ?c = "lb_any_relay_cursor lb"
  let ?i = "unat ?c mod length ?m"
  have i: "?i < length ?m" using assms(2) by simp
  have idx: "unat (?c mod of_nat (length ?m)) = ?i"
    using assms(3) by (simp add: unat_mod_distrib unat_of_nat take_bit_nat_eq_self)
  have d: "drop ?i (btree_keys ?m) = fst (?m ! ?i) # drop (Suc ?i) (btree_keys ?m)"
    using i by (simp add: btree_keys_def Cons_nth_drop_Suc [symmetric])
  have "btree_get (fst (?m ! ?i)) ?m = Some (snd (?m ! ?i))"
    using i btree.get_entries [OF assms(1)] by simp
  with assms(2) show ?thesis
    by (simp add: relay_for_any_def Let_def idx d relay_of_def)
qed

lemma any_calls_picks:
  assumes "btree_ok (lb_active_relays lb)" and "lb_active_relays lb \<noteq> []"
    and "length (lb_active_relays lb) < 2 ^ 64" and "unat (lb_any_relay_cursor lb) + k \<le> 2 ^ 64"
  shows "any_calls k lb rest =
    Some (map (\<lambda>j. relay_of (lb_active_relays lb !
            ((unat (lb_any_relay_cursor lb) + j) mod length (lb_active_relays lb)))) [0..<k],
          lb\<lparr>lb_any_relay_cursor := lb_any_relay_cursor lb + of_nat k\<rparr>)"
  using assms
proof (induction k arbitrary: lb)
  case (Suc k)
  let ?lb = "lb\<lparr>lb_any_relay_cursor := lb_any_relay_cursor lb + 1\<rparr>"
  show ?case
  proof (cases k)
    case 0
    with Suc.prems show ?thesis by (simp add: relay_for_any_pick)
  next
    case (Suc l)
    then have c: "unat (lb_any_relay_cursor lb + 1) = Suc (unat (lb_any_relay_cursor lb))"
      using Suc.prems(4) by (intro unat_Suc_no_wrap) simp
    have "any_calls k ?lb rest =
      Some (map (\<lambda>j. relay_of (lb_active_relays lb !
            ((unat (lb_any_relay_cursor lb + 1) + j) mod length (lb_active_relays lb)))) [0..<k],
        lb\<lparr>lb_any_relay_cursor := lb_any_relay_cursor lb + 1 + of_nat k\<rparr>)"
      using Suc.IH [of ?lb] Suc.prems c by auto
    moreover have "relay_for_any lb rest =
      Some (relay_of (lb_active_relays lb ! (unat (lb_any_relay_cursor lb) mod length (lb_active_relays lb))), ?lb)"
      using Suc.prems(1-3) by (rule relay_for_any_pick)
    moreover have "[0..<Suc k] = 0 # map Suc [0..<k]"
      by (simp add: map_Suc_upt upt_conv_Cons del: upt_Suc)
    ultimately show ?thesis
      by (simp add: c o_def add.assoc del: upt_Suc)
  qed
qed simp

lemma rotate_as_picks:
  "map (\<lambda>j. f (xs ! ((c + j) mod length xs))) [0..<length xs] = map f (rotate c xs)"
  by (rule nth_equalityI) (simp_all add: nth_rotate)

lemma mset_rotate_list: "mset (rotate c xs) = mset xs"
proof -
  have "mset (rotate1 ys) = mset ys" for ys :: "'a list" by (cases ys) simp_all
  then show ?thesis by (induction c) (simp_all add: rotate_def)
qed

lemma mset_picks:
  assumes "xs \<noteq> []"
  shows "mset (map (\<lambda>j. f (xs ! ((c + j) mod length xs))) [0..<k * length xs]) =
    repeat_mset k (mset (map f xs))"
proof (induction k)
  case (Suc k)
  let ?n = "length xs" and ?g = "\<lambda>j. f (xs ! ((c + j) mod length xs))"
  have split: "[0..<Suc k * ?n] = [0..<k * ?n] @ map (\<lambda>j. j + k * ?n) [0..<?n]"
    using upt_add_eq_append [of 0 "k * ?n" ?n] map_add_upt [of "k * ?n" ?n] by (simp add: add.commute)
  have "(c + (j + k * ?n)) mod ?n = (c + j) mod ?n" for j
    using mod_mult_self1 [of "c + j" k ?n] by (simp only: add.assoc)
  then have "map ?g [0..<Suc k * ?n] = map ?g [0..<k * ?n] @ map ?g [0..<?n]"
    unfolding split by simp
  moreover have "mset (map ?g [0..<?n]) = mset (map f xs)"
    by (subst rotate_as_picks) (metis mset_map mset_rotate_list)
  ultimately show ?case
    using Suc.IH by (simp only: mset_append) simp
qed simp

text \<open>C23: Round robin is exact. As long as the registry does not change and the cursor does not wrap around, the
  j-th of a sequence of requests for any relay goes to the entry of the registry at the position of the
  cursor plus j, modulo the number of relays, in the order of their prefixes; none fails; the cursor ends
  where the next sequence continues; and when their number is a multiple of the number of relays, every
  relay gets equally many of them.\<close>

theorem round_robin_fair:
  assumes "btree_ok (lb_active_relays lb)" and "lb_active_relays lb \<noteq> []"
    and "length (lb_active_relays lb) < 2 ^ 64" and "unat (lb_any_relay_cursor lb) + n \<le> 2 ^ 64"
  shows "\<exists>picks. any_calls n lb rest =
      Some (picks, lb\<lparr>lb_any_relay_cursor := lb_any_relay_cursor lb + of_nat n\<rparr>) \<and>
    length picks = n \<and> sorted_wrt (<) (btree_keys (lb_active_relays lb)) \<and>
    (\<forall>j < n. picks ! j = relay_of (lb_active_relays lb !
        ((unat (lb_any_relay_cursor lb) + j) mod length (lb_active_relays lb)))) \<and>
    (\<forall>k. n = k * length (lb_active_relays lb) \<longrightarrow>
      mset picks = repeat_mset k (mset (map relay_of (lb_active_relays lb))))"
proof -
  let ?picks = "map (\<lambda>j. relay_of (lb_active_relays lb !
      ((unat (lb_any_relay_cursor lb) + j) mod length (lb_active_relays lb)))) [0..<n]"
  have "any_calls n lb rest = Some (?picks, lb\<lparr>lb_any_relay_cursor := lb_any_relay_cursor lb + of_nat n\<rparr>)"
    by (rule any_calls_picks [OF assms])
  moreover have "sorted_wrt (<) (btree_keys (lb_active_relays lb))"
    using assms(1) by (simp add: btree_ok_def btree_keys_def)
  moreover have "\<forall>k. n = k * length (lb_active_relays lb) \<longrightarrow>
      mset ?picks = repeat_mset k (mset (map relay_of (lb_active_relays lb)))"
    using mset_picks [OF assms(2), of relay_of "unat (lb_any_relay_cursor lb)"] by blast
  ultimately show ?thesis by (intro exI [of _ ?picks]) simp
qed

theorem round_robin_fair_witness:
  "\<exists>picks lb'. any_calls 6
     \<lparr>lb_active_relays = [(Uuid 1, \<lparr>rs_name = ''a'', rs_session = 4\<rparr>), (Uuid 2, \<lparr>rs_name = ''b'', rs_session = 0\<rparr>),
                          (Uuid 9, \<lparr>rs_name = ''c'', rs_session = 2\<rparr>)], lb_any_relay_cursor = 8\<rparr> ''/'' = Some (picks, lb') \<and>
   picks ! 0 = Inr (2, ''c'') \<and> picks ! 1 = Inr (4, ''a'') \<and> count (mset picks) (Inr (2, ''c'')) = 2"
proof -
  let ?lb = "\<lparr>lb_active_relays = [(Uuid 1, \<lparr>rs_name = ''a'', rs_session = 4\<rparr>), (Uuid 2, \<lparr>rs_name = ''b'', rs_session = 0\<rparr>),
      (Uuid 9, \<lparr>rs_name = ''c'', rs_session = 2\<rparr>)], lb_any_relay_cursor = 8\<rparr>"
  have ok: "btree_ok (lb_active_relays ?lb)" by (simp add: btree_ok_def less_uuid_def)
  obtain picks where p: "any_calls 6 ?lb ''/'' = Some (picks, ?lb\<lparr>lb_any_relay_cursor := 8 + of_nat 6\<rparr>)" and
    nth: "\<forall>j < 6. picks ! j = relay_of (lb_active_relays ?lb ! ((8 + j) mod 3))" and
    m: "\<forall>k. (6 :: nat) = k * 3 \<longrightarrow> mset picks = repeat_mset k (mset (map relay_of (lb_active_relays ?lb)))"
    using round_robin_fair [OF ok, of 6 "''/''"] by auto
  have "picks ! 0 = Inr (2, ''c'')" "picks ! 1 = Inr (4, ''a'')" using nth by (simp_all add: relay_of_def)
  moreover from m have "mset picks = repeat_mset 2 (mset (map relay_of (lb_active_relays ?lb)))" by simp
  ultimately show ?thesis using p by (intro exI [of _ picks]) (auto simp: relay_of_def)
qed

section \<open>Sessions entering and leaving\<close>

datatype session_phase =
    Overriding "nat list"   \<comment> \<open>sessions still to be told to finish\<close>
  | Serving
  | Gone                    \<comment> \<open>its entry was removed by the final clean-up\<close>

record session =
  se_token :: access_token_state
  se_phase :: session_phase
  se_finish :: "string list"   \<comment> \<open>the reasons on its \<open>do_finish\<close> channel\<close>

record lb_system =
  sy_lb :: load_balancer
  sy_sessions :: "session list"

text \<open>\<open>disconnect_existing_sessions_of\<close>: the \<open>retain\<close>, then one message per collected sender.\<close>

definition disconnect_retain ::
  "access_token_state \<Rightarrow> load_balancer \<Rightarrow> load_balancer \<times> nat list" where
  "disconnect_retain ts lb =
     (lb\<lparr>lb_active_relays := btree_retain (\<lambda>_ rs. rs_name rs \<noteq> at_name ts) (lb_active_relays lb)\<rparr>,
      map (\<lambda>(_, rs). rs_session rs) (filter (\<lambda>(_, rs). rs_name rs = at_name ts) (lb_active_relays lb)))"

definition override_reason :: "(uuid \<Rightarrow> string) \<Rightarrow> access_token_state \<Rightarrow> string" where
  "override_reason show_uuid ts =
     ''overridden by the latest '' @ at_name ts @ '' registration with prefix '' @ show_uuid (at_api_prefix ts)"

definition lb_enter :: "access_token_state \<Rightarrow> nat \<Rightarrow> load_balancer \<Rightarrow> load_balancer" where
  "lb_enter ts i lb =
     lb\<lparr>lb_active_relays := btree_insert (at_api_prefix ts) \<lparr>rs_name = at_name ts, rs_session = i\<rparr>
                              (lb_active_relays lb)\<rparr>"

definition lb_leave :: "access_token_state \<Rightarrow> load_balancer \<Rightarrow> load_balancer" where
  "lb_leave ts lb = lb\<lparr>lb_active_relays := btree_remove (at_api_prefix ts) (lb_active_relays lb)\<rparr>"

datatype lb_label =
    LB_Connect access_token_state   \<comment> \<open>an upgraded socket: \<open>run\<close> starts with the \<open>retain\<close>\<close>
  | LB_Notify nat                   \<comment> \<open>\<open>run\<close> of a session sends the next \<open>do_finish\<close> message\<close>
  | LB_Enter nat                    \<comment> \<open>\<open>run\<close> inserts its relay state\<close>
  | LB_Leave nat                    \<comment> \<open>its event loop broke, for any reason: the final \<open>remove\<close>\<close>
  | LB_Any string                   \<comment> \<open>a request for any relay\<close>

definition at_session :: "nat \<Rightarrow> (session \<Rightarrow> session) \<Rightarrow> lb_system \<Rightarrow> lb_system" where
  "at_session i f y = y\<lparr>sy_sessions := (sy_sessions y)[i := f (sy_sessions y ! i)]\<rparr>"

fun lb_exec :: "(uuid \<Rightarrow> string) \<Rightarrow> lb_label \<Rightarrow> lb_system \<Rightarrow> lb_system option" where
  "lb_exec show_uuid (LB_Connect ts) y =
     (let (lb', others) = disconnect_retain ts (sy_lb y)
      in Some (y\<lparr>sy_lb := lb',
                 sy_sessions := sy_sessions y @ [\<lparr>se_token = ts, se_phase = Overriding others, se_finish = []\<rparr>]\<rparr>))"
| "lb_exec show_uuid (LB_Notify i) y =
     (if i < length (sy_sessions y) then
        (case se_phase (sy_sessions y ! i) of
           Overriding (j # js) \<Rightarrow>
             Some (at_session j (\<lambda>e. e\<lparr>se_finish := se_finish e @ [override_reason show_uuid (se_token (sy_sessions y ! i))]\<rparr>)
                    (at_session i (\<lambda>e. e\<lparr>se_phase := Overriding js\<rparr>) y))
         | _ \<Rightarrow> None)
      else None)"
| "lb_exec show_uuid (LB_Enter i) y =
     (if i < length (sy_sessions y) \<and> se_phase (sy_sessions y ! i) = Overriding [] then
        Some (at_session i (\<lambda>e. e\<lparr>se_phase := Serving\<rparr>)
               (y\<lparr>sy_lb := lb_enter (se_token (sy_sessions y ! i)) i (sy_lb y)\<rparr>))
      else None)"
| "lb_exec show_uuid (LB_Leave i) y =
     (if i < length (sy_sessions y) \<and> se_phase (sy_sessions y ! i) = Serving then
        Some (at_session i (\<lambda>e. e\<lparr>se_phase := Gone\<rparr>)
               (y\<lparr>sy_lb := lb_leave (se_token (sy_sessions y ! i)) (sy_lb y)\<rparr>))
      else None)"
| "lb_exec show_uuid (LB_Any rest) y =
     map_option (\<lambda>(r, lb'). y\<lparr>sy_lb := lb'\<rparr>) (relay_for_any (sy_lb y) rest)"

fun lb_run :: "(uuid \<Rightarrow> string) \<Rightarrow> lb_label list \<Rightarrow> lb_system \<Rightarrow> lb_system option" where
  "lb_run show_uuid [] y = Some y"
| "lb_run show_uuid (l # ls) y = Option.bind (lb_exec show_uuid l y) (lb_run show_uuid ls)"

definition lb_start :: lb_system where
  "lb_start = \<lparr>sy_lb = lb_new, sy_sessions = []\<rparr>"

lemmas lb_step_defs = disconnect_retain_def lb_enter_def lb_leave_def at_session_def

section \<open>The registry holds only serving sessions\<close>

text \<open>An entry is the one its session put there: under the session's own prefix and name.\<close>

definition entry_ok :: "session list \<Rightarrow> uuid \<times> relay_state \<Rightarrow> bool" where
  "entry_ok ss e \<longleftrightarrow>
     rs_session (snd e) < length ss \<and> se_phase (ss ! rs_session (snd e)) = Serving \<and>
     at_api_prefix (se_token (ss ! rs_session (snd e))) = fst e \<and>
     at_name (se_token (ss ! rs_session (snd e))) = rs_name (snd e)"

definition registry_ok :: "lb_system \<Rightarrow> bool" where
  "registry_ok y \<longleftrightarrow> btree_ok (lb_active_relays (sy_lb y)) \<and>
     list_all (entry_ok (sy_sessions y)) (lb_active_relays (sy_lb y))"

lemma entry_ok_append: "entry_ok ss e \<Longrightarrow> entry_ok (ss @ [x]) e"
  by (simp add: entry_ok_def nth_append)

lemma entry_ok_cong:
  assumes "entry_ok ss e" and "length ss' = length ss" and "rs_session (snd e) = k"
    and "se_phase (ss' ! k) = se_phase (ss ! k)" and "se_token (ss' ! k) = se_token (ss ! k)"
  shows "entry_ok ss' e"
  using assms by (simp add: entry_ok_def)

lemma entry_ok_at_session:
  assumes "entry_ok (sy_sessions y) e"
    and "rs_session (snd e) \<noteq> i \<or> (\<forall>x. se_phase (f x) = se_phase x \<and> se_token (f x) = se_token x)"
  shows "entry_ok (sy_sessions (at_session i f y)) e"
  using assms
  by (cases "rs_session (snd e) = i") (auto simp: entry_ok_def at_session_def)

lemma registry_ok_any:
  assumes "relay_for_any lb rest = Some (r, lb')"
  shows "lb_active_relays lb' = lb_active_relays lb"
  using assms by (auto simp: relay_for_any_def Let_def split: if_splits list.splits option.splits)

lemma registry_ok_exec:
  assumes "lb_exec show_uuid l y = Some z" and "registry_ok y"
  shows "registry_ok z"
proof -
  have ok: "btree_ok (lb_active_relays (sy_lb y))"
    and es: "e \<in> set (lb_active_relays (sy_lb y)) \<Longrightarrow> entry_ok (sy_sessions y) e" for e
    using assms(2) by (simp_all add: registry_ok_def list_all_iff)
  show ?thesis
  proof (cases l)
    case (LB_Connect ts)
    with assms ok es show ?thesis
      by (auto simp: registry_ok_def lb_step_defs list_all_iff entry_ok_append btree_ok_filter
          btree_retain_def Let_def)
  next
    case (LB_Notify i)
    with assms(1) obtain j js where i: "i < length (sy_sessions y)"
      "se_phase (sy_sessions y ! i) = Overriding (j # js)"
      and z: "z = at_session j (\<lambda>e. e\<lparr>se_finish := se_finish e @ [override_reason show_uuid (se_token (sy_sessions y ! i))]\<rparr>)
                    (at_session i (\<lambda>e. e\<lparr>se_phase := Overriding js\<rparr>) y)"
      by (auto split: if_splits session_phase.splits list.splits)
    have "entry_ok (sy_sessions z) e" if "e \<in> set (lb_active_relays (sy_lb y))" for e
    proof -
      have "rs_session (snd e) \<noteq> i" using es [OF that] i by (auto simp: entry_ok_def)
      with es [OF that] show ?thesis unfolding z
        by (intro entry_ok_at_session) simp_all
    qed
    with ok show ?thesis by (simp add: registry_ok_def list_all_iff z at_session_def)
  next
    case (LB_Enter i)
    let ?ts = "se_token (sy_sessions y ! i)"
    let ?y = "y\<lparr>sy_lb := lb_enter ?ts i (sy_lb y)\<rparr>"
    from LB_Enter assms(1) have i: "i < length (sy_sessions y)" "se_phase (sy_sessions y ! i) = Overriding []"
      and z: "z = at_session i (\<lambda>e. e\<lparr>se_phase := Serving\<rparr>) ?y"
      by (auto split: if_splits)
    have "entry_ok (sy_sessions z) e" if "e \<in> set (lb_active_relays (sy_lb y))" for e
    proof -
      have "rs_session (snd e) \<noteq> i" using es [OF that] i by (auto simp: entry_ok_def)
      with es [OF that] show ?thesis unfolding z by (intro entry_ok_at_session) simp_all
    qed
    moreover have "entry_ok (sy_sessions z) (at_api_prefix ?ts, \<lparr>rs_name = at_name ?ts, rs_session = i\<rparr>)"
      using i by (simp add: entry_ok_def z at_session_def)
    ultimately show ?thesis using ok
      by (auto simp: registry_ok_def list_all_iff z at_session_def lb_enter_def btree.ok_put
          btree.set_entries_put)
  next
    case (LB_Leave i)
    let ?ts = "se_token (sy_sessions y ! i)"
    let ?y = "y\<lparr>sy_lb := lb_leave ?ts (sy_lb y)\<rparr>"
    from LB_Leave assms(1) have z: "z = at_session i (\<lambda>e. e\<lparr>se_phase := Gone\<rparr>) ?y"
      by (auto split: if_splits)
    have "entry_ok (sy_sessions z) e"
      if "e \<in> set (lb_active_relays (sy_lb y))" "fst e \<noteq> at_api_prefix ?ts" for e
    proof -
      have "rs_session (snd e) \<noteq> i" using es [OF that(1)] that(2) by (auto simp: entry_ok_def)
      with es [OF that(1)] show ?thesis unfolding z by (intro entry_ok_at_session) simp_all
    qed
    with ok show ?thesis
      by (auto simp: registry_ok_def list_all_iff z at_session_def lb_leave_def btree.ok_remove
          btree.set_entries_remove)
  next
    case (LB_Any rest)
    with assms(1) obtain r lb' where "relay_for_any (sy_lb y) rest = Some (r, lb')" "z = y\<lparr>sy_lb := lb'\<rparr>"
      by auto
    with assms(2) registry_ok_any show ?thesis by (simp add: registry_ok_def)
  qed
qed

lemma registry_ok_run:
  "lb_run show_uuid ls y = Some z \<Longrightarrow> registry_ok y \<Longrightarrow> registry_ok z"
proof (induction ls arbitrary: y)
  case (Cons l ls)
  then show ?case
    using registry_ok_exec by (cases "lb_exec show_uuid l y") auto
qed simp

lemma registry_ok_start: "registry_ok lb_start"
  by (simp add: registry_ok_def lb_start_def lb_new_def btree.ok_empty)

text \<open>C22: No request is ever given to a session that has left: in every interleaving of connecting,
  overriding, entering and leaving sessions, a relay chosen by prefix is serving under exactly
  that prefix and name, a relay chosen by round robin is serving, and the choice does not panic.\<close>

theorem requests_reach_serving_sessions:
  assumes "lb_run show_uuid ls lb_start = Some y" and "length (lb_active_relays (sy_lb y)) < 2 ^ 64"
  shows "(case relay_for_prefix show_uuid (sy_lb y) p rest of
            Inl (code, _) \<Rightarrow> code = 404
          | Inr (i, name) \<Rightarrow> i < length (sy_sessions y) \<and> se_phase (sy_sessions y ! i) = Serving \<and>
              at_api_prefix (se_token (sy_sessions y ! i)) = p \<and> at_name (se_token (sy_sessions y ! i)) = name)
       \<and> (case relay_for_any (sy_lb y) rest of
            None \<Rightarrow> False
          | Some (Inl (code, _), _) \<Rightarrow> code = 404 \<and> lb_active_relays (sy_lb y) = []
          | Some (Inr (i, name), _) \<Rightarrow> i < length (sy_sessions y) \<and> se_phase (sy_sessions y ! i) = Serving \<and>
              at_name (se_token (sy_sessions y ! i)) = name)"
proof -
  have r: "registry_ok y" using registry_ok_run [OF assms(1) registry_ok_start] .
  have E1: "entry_ok (sy_sessions y) (p, rs)" if "btree_get p (lb_active_relays (sy_lb y)) = Some rs" for rs
    using r that btree.get_entries [of "lb_active_relays (sy_lb y)" p rs]
    by (auto simp: registry_ok_def list_all_iff)
  have E2: "entry_ok (sy_sessions y) (lb_active_relays (sy_lb y) ! (n mod length (lb_active_relays (sy_lb y))))"
    if "lb_active_relays (sy_lb y) \<noteq> []" for n
    using r that by (auto simp: registry_ok_def list_all_iff)
  show ?thesis
  proof (cases "lb_active_relays (sy_lb y) = []")
    case True
    then show ?thesis by (simp add: relay_for_prefix_def relay_for_any_def btree_get_def)
  next
    case False
    with relay_for_any_pick [of "sy_lb y" rest] r assms(2) E1 E2
    show ?thesis
      by (auto simp: relay_for_prefix_def registry_ok_def relay_of_def entry_ok_def split: option.splits)
  qed
qed

text \<open>A reconnection of one relay: the second session overrides the first, which then finishes.\<close>

definition demo_token :: "uuid \<Rightarrow> access_token_state" where
  "demo_token p = \<lparr>at_name = ''relay'', at_reward_addr = ''addr'', at_api_prefix = p\<rparr>"

definition demo_reconnect :: "uuid \<Rightarrow> uuid \<Rightarrow> lb_label list" where
  "demo_reconnect p q =
     [LB_Connect (demo_token p), LB_Enter 0, LB_Connect (demo_token q), LB_Notify 1, LB_Enter 1]"

lemmas lb_run_simps = lb_start_def lb_new_def lb_step_defs demo_reconnect_def demo_token_def
  btree_insert.simps btree_retain_def btree_remove_def Let_def less_uuid_def override_reason_def

theorem requests_reach_serving_sessions_witness:
  "\<exists>y. lb_run (\<lambda>_. ''u'') (demo_reconnect (Uuid 1) (Uuid 2)) lb_start = Some y \<and>
     (case relay_for_prefix (\<lambda>_. ''u'') (sy_lb y) (Uuid 2) ''/'' of
        Inl (code, _) \<Rightarrow> code = 404
      | Inr (i, name) \<Rightarrow> i < length (sy_sessions y) \<and> se_phase (sy_sessions y ! i) = Serving \<and>
          at_api_prefix (se_token (sy_sessions y ! i)) = Uuid 2 \<and>
          at_name (se_token (sy_sessions y ! i)) = name)"
proof -
  obtain y where y: "lb_run (\<lambda>_. ''u'') (demo_reconnect (Uuid 1) (Uuid 2)) lb_start = Some y"
    "length (lb_active_relays (sy_lb y)) < 2 ^ 64"
    by (simp add: lb_run_simps)
  with requests_reach_serving_sessions [OF y, of "Uuid 2" "''/''"] show ?thesis by blast
qed

section \<open>One session per NFT\<close>

text \<open>
  What the override achieves when sessions connect one at a time: the flag is set from a
  connection to its entry.
\<close>

fun one_at_a_time :: "bool \<Rightarrow> lb_label list \<Rightarrow> bool" where
  "one_at_a_time pending [] = True"
| "one_at_a_time pending (LB_Connect _ # ls) = (\<not> pending \<and> one_at_a_time True ls)"
| "one_at_a_time pending (LB_Enter _ # ls) = one_at_a_time False ls"
| "one_at_a_time pending (_ # ls) = one_at_a_time pending ls"

definition entering :: "session \<Rightarrow> bool" where
  "entering e \<longleftrightarrow> (case se_phase e of Overriding _ \<Rightarrow> True | _ \<Rightarrow> False)"

lemma at_session_simps:
  "length (sy_sessions (at_session i f y)) = length (sy_sessions y)"
  "sy_lb (at_session i f y) = sy_lb y"
  "k < length (sy_sessions y) \<Longrightarrow>
   sy_sessions (at_session i f y) ! k = (if k = i then f (sy_sessions y ! i) else sy_sessions y ! k)"
  by (auto simp: at_session_def)

lemma entering_simps:
  "\<not> entering (e\<lparr>se_phase := Serving\<rparr>)" "\<not> entering (e\<lparr>se_phase := Gone\<rparr>)"
  "entering (e\<lparr>se_finish := fs\<rparr>) = entering e"
  "se_phase e = Overriding js \<Longrightarrow> entering e"
  by (simp_all add: entering_def)

definition names_ok :: "bool \<Rightarrow> lb_system \<Rightarrow> bool" where
  "names_ok pending y \<longleftrightarrow> btree_ok (lb_active_relays (sy_lb y)) \<and>
     inj_on (rs_name \<circ> snd) (set (lb_active_relays (sy_lb y))) \<and>
     (\<forall>i < length (sy_sessions y). entering (sy_sessions y ! i) \<longrightarrow>
        pending \<and> i = length (sy_sessions y) - 1 \<and>
        at_name (se_token (sy_sessions y ! i)) \<notin> (rs_name \<circ> snd) ` set (lb_active_relays (sy_lb y)))"

definition pending_after :: "lb_label \<Rightarrow> bool \<Rightarrow> bool" where
  "pending_after l pending =
     (case l of LB_Connect _ \<Rightarrow> True | LB_Enter _ \<Rightarrow> False | _ \<Rightarrow> pending)"

lemma one_at_a_time_step:
  "one_at_a_time pending (l # ls) \<Longrightarrow> one_at_a_time (pending_after l pending) ls"
  by (cases l) (simp_all add: pending_after_def)

lemma names_okD:
  assumes "names_ok pending y" and "i < length (sy_sessions y)" and "entering (sy_sessions y ! i)"
  shows "pending" "i = length (sy_sessions y) - 1"
    "at_name (se_token (sy_sessions y ! i)) \<notin> (rs_name \<circ> snd) ` set (lb_active_relays (sy_lb y))"
  using assms by (auto simp: names_ok_def)

lemma names_ok_connect:
  assumes "names_ok False y" and "lb_exec show_uuid (LB_Connect ts) y = Some z"
  shows "names_ok True z"
proof -
  have "\<not> entering (sy_sessions y ! i)" if "i < length (sy_sessions y)" for i
    using names_okD(1) [OF assms(1) that] by blast
  with assms show ?thesis
    by (auto simp: names_ok_def lb_step_defs btree_retain_def btree_ok_filter Let_def nth_append
        less_Suc_eq intro: inj_on_subset)
qed

lemma names_ok_enter:
  assumes "names_ok pending y" and "lb_exec show_uuid (LB_Enter i) y = Some z"
  shows "names_ok False z"
proof -
  let ?ts = "se_token (sy_sessions y ! i)" and ?es = "set (lb_active_relays (sy_lb y))"
  let ?new = "(at_api_prefix ?ts, \<lparr>rs_name = at_name ?ts, rs_session = i\<rparr>)"
  from assms(2) have i: "i < length (sy_sessions y)" "se_phase (sy_sessions y ! i) = Overriding []"
    and z: "z = at_session i (\<lambda>e. e\<lparr>se_phase := Serving\<rparr>) (y\<lparr>sy_lb := lb_enter ?ts i (sy_lb y)\<rparr>)"
    by (auto split: if_splits)
  have ei: "entering (sy_sessions y ! i)" using i by (simp add: entering_def)
  have ok: "btree_ok (lb_active_relays (sy_lb y))" and inj: "inj_on (rs_name \<circ> snd) ?es"
    using assms(1) by (simp_all add: names_ok_def)
  have es: "set (lb_active_relays (sy_lb z)) = {x \<in> ?es. fst x \<noteq> at_api_prefix ?ts} \<union> {?new}"
    using btree.set_entries_put [OF ok] by (simp add: z at_session_def lb_enter_def)
  have fresh: "rs_name b \<noteq> at_name ?ts" if "(a, b) \<in> ?es" for a b
    using that names_okD(3) [OF assms(1) i(1) ei] by force
  have "inj_on (rs_name \<circ> snd) (set (lb_active_relays (sy_lb z)))"
    unfolding es using inj by (auto simp: inj_on_def dest: fresh fresh [symmetric])
  moreover have "\<not> entering (sy_sessions z ! k)" if "k < length (sy_sessions z)" for k
  proof
    assume "entering (sy_sessions z ! k)"
    moreover have "k < length (sy_sessions y)" using that by (simp add: z at_session_def)
    ultimately have "k \<noteq> i" "entering (sy_sessions y ! k)"
      using i(1) by (auto simp: z at_session_simps entering_simps split: if_splits)
    with names_okD(2) [OF assms(1) \<open>k < length (sy_sessions y)\<close>] names_okD(2) [OF assms(1) i(1) ei]
    show False by simp
  qed
  ultimately show ?thesis
    using ok by (simp add: names_ok_def z at_session_def lb_enter_def btree.ok_put)
qed

text \<open>A step that adds no entry and lets no session start to enter.\<close>

lemma names_ok_shrink:
  assumes "names_ok pending y" and "btree_ok (lb_active_relays (sy_lb z))"
    and "set (lb_active_relays (sy_lb z)) \<subseteq> set (lb_active_relays (sy_lb y))"
    and "length (sy_sessions z) = length (sy_sessions y)"
    and "\<And>i. i < length (sy_sessions y) \<Longrightarrow> se_token (sy_sessions z ! i) = se_token (sy_sessions y ! i) \<and>
           (entering (sy_sessions z ! i) \<longrightarrow> entering (sy_sessions y ! i))"
  shows "names_ok pending z"
proof -
  have "inj_on (rs_name \<circ> snd) (set (lb_active_relays (sy_lb z)))"
    using assms(1,3) by (auto simp: names_ok_def intro: inj_on_subset)
  moreover have "pending \<and> i = length (sy_sessions z) - 1 \<and>
      at_name (se_token (sy_sessions z ! i)) \<notin> (rs_name \<circ> snd) ` set (lb_active_relays (sy_lb z))"
    if "i < length (sy_sessions z)" "entering (sy_sessions z ! i)" for i
    using that names_okD [OF assms(1), of i] assms(3-5) by (metis image_mono subsetD)
  ultimately show ?thesis using assms(2) by (simp add: names_ok_def)
qed

lemma names_ok_at_session:
  assumes "names_ok pending y"
    and "i < length (sy_sessions y) \<Longrightarrow>
      se_token (f (sy_sessions y ! i)) = se_token (sy_sessions y ! i) \<and>
      (entering (f (sy_sessions y ! i)) \<longrightarrow> entering (sy_sessions y ! i))"
  shows "names_ok pending (at_session i f y)"
  using assms(1)
proof (rule names_ok_shrink)
  fix k
  assume "k < length (sy_sessions y)"
  then show "se_token (sy_sessions (at_session i f y) ! k) = se_token (sy_sessions y ! k) \<and>
    (entering (sy_sessions (at_session i f y) ! k) \<longrightarrow> entering (sy_sessions y ! k))"
    using assms(2) by (cases "k = i") (simp_all add: at_session_simps)
qed (use assms(1) in \<open>simp_all add: names_ok_def at_session_simps\<close>)

lemma names_ok_exec:
  assumes "lb_exec show_uuid l y = Some z" and "names_ok pending y" and "one_at_a_time pending (l # ls)"
  shows "names_ok (pending_after l pending) z"
proof (cases l)
  case (LB_Connect ts)
  with assms names_ok_connect show ?thesis by (simp add: pending_after_def)
next
  case (LB_Enter i)
  with assms names_ok_enter show ?thesis by (simp add: pending_after_def)
next
  case (LB_Notify i)
  then have "pending_after l pending = pending" by (simp add: pending_after_def)
  moreover have "names_ok pending z"
  proof -
    from assms(1) LB_Notify obtain j js where i: "i < length (sy_sessions y)"
      "se_phase (sy_sessions y ! i) = Overriding (j # js)"
      and z: "z = at_session j (\<lambda>e. e\<lparr>se_finish := se_finish e @ [override_reason show_uuid (se_token (sy_sessions y ! i))]\<rparr>)
                    (at_session i (\<lambda>e. e\<lparr>se_phase := Overriding js\<rparr>) y)"
      by (auto split: if_splits session_phase.splits list.splits)
    show ?thesis
      unfolding z using assms(2) i
      by (intro names_ok_at_session) (simp_all add: entering_simps)
  qed
  ultimately show ?thesis by simp
next
  case (LB_Leave i)
  then have "pending_after l pending = pending" by (simp add: pending_after_def)
  moreover have "names_ok pending z"
  proof -
    let ?y = "y\<lparr>sy_lb := lb_leave (se_token (sy_sessions y ! i)) (sy_lb y)\<rparr>"
    from assms(1) LB_Leave have z: "z = at_session i (\<lambda>e. e\<lparr>se_phase := Gone\<rparr>) ?y"
      by (auto split: if_splits)
    have "names_ok pending ?y"
      using assms(2)
      by (rule names_ok_shrink)
        (use assms(2) in \<open>auto simp: names_ok_def lb_leave_def btree.ok_remove btree.set_entries_remove\<close>)
    then show ?thesis unfolding z by (rule names_ok_at_session) (simp add: entering_simps)
  qed
  ultimately show ?thesis by simp
next
  case (LB_Any rest)
  with assms(1) obtain r lb' where "relay_for_any (sy_lb y) rest = Some (r, lb')" "z = y\<lparr>sy_lb := lb'\<rparr>"
    by auto
  with assms(2) registry_ok_any [of "sy_lb y"] show ?thesis
    by (simp add: LB_Any pending_after_def names_ok_def)
qed

lemma names_ok_run:
  "lb_run show_uuid ls y = Some z \<Longrightarrow> names_ok pending y \<Longrightarrow> one_at_a_time pending ls \<Longrightarrow>
   \<exists>p. names_ok p z"
proof (induction ls arbitrary: y pending)
  case (Cons l ls)
  then show ?case
    using names_ok_exec [of show_uuid l y] one_at_a_time_step [of pending l ls]
    by (cases "lb_exec show_uuid l y") fastforce+
qed auto

text \<open>When no session connects while another is between its connection and its entry, the registry
  never has two entries for the same NFT.\<close>

theorem one_session_per_nft:
  assumes "lb_run show_uuid ls lb_start = Some y" and "one_at_a_time False ls"
  shows "distinct (map (\<lambda>(_, rs). rs_name rs) (lb_active_relays (sy_lb y)))"
proof -
  have "names_ok False lb_start" by (simp add: names_ok_def lb_start_def lb_new_def btree.ok_empty)
  with names_ok_run assms obtain p where "names_ok p y" by blast
  then have "btree_ok (lb_active_relays (sy_lb y))" "inj_on (rs_name \<circ> snd) (set (lb_active_relays (sy_lb y)))"
    by (simp_all add: names_ok_def)
  with btree.distinct_pairs have "distinct (map (rs_name \<circ> snd) (lb_active_relays (sy_lb y)))"
    by (simp add: distinct_map)
  then show ?thesis by (simp add: o_def split_def)
qed

theorem one_session_per_nft_witness:
  "\<exists>y. lb_run (\<lambda>_. ''u'') (demo_reconnect (Uuid 1) (Uuid 2)) lb_start = Some y \<and>
     distinct (map (\<lambda>(_, rs). rs_name rs) (lb_active_relays (sy_lb y)))"
proof -
  obtain y where y: "lb_run (\<lambda>_. ''u'') (demo_reconnect (Uuid 1) (Uuid 2)) lb_start = Some y"
    by (simp add: lb_run_simps)
  have "one_at_a_time False (demo_reconnect (Uuid 1) (Uuid 2))" by (simp add: demo_reconnect_def)
  with one_session_per_nft [OF y] y show ?thesis by blast
qed

text \<open>The override is not enough when a relay reconnects under its own prefix, as the platform
  does: the old session's final clean-up removes the new session's entry, so the new session keeps
  serving without ever being told to finish, and no request reaches it. And when two sessions of
  one NFT connect at the same time, both stay in the registry and neither is told to finish.\<close>

theorem override_gaps:
  "(\<exists>y. lb_run show_uuid (demo_reconnect (Uuid 1) (Uuid 1) @ [LB_Leave 0]) lb_start = Some y \<and>
      one_at_a_time False (demo_reconnect (Uuid 1) (Uuid 1) @ [LB_Leave 0]) \<and>
      se_phase (sy_sessions y ! 1) = Serving \<and> se_finish (sy_sessions y ! 1) = [] \<and>
      relay_for_prefix show_uuid (sy_lb y) (Uuid 1) rest =
        Inl (404, ''relay '' @ show_uuid (Uuid 1) @ '' not found for request: '' @ rest) \<and>
      relay_for_any (sy_lb y) rest = Some (Inl (404, ''no relays connected for request: '' @ rest), sy_lb y))
   \<and> (\<exists>y. lb_run show_uuid [LB_Connect (demo_token (Uuid 1)), LB_Connect (demo_token (Uuid 2)),
                           LB_Enter 0, LB_Enter 1] lb_start = Some y \<and>
      map (\<lambda>(_, rs). rs_name rs) (lb_active_relays (sy_lb y)) = [''relay'', ''relay''] \<and>
      concat (map se_finish (sy_sessions y)) = [])"
  by (simp add: lb_run_simps relay_for_prefix_def relay_for_any_def btree_get_def)

end
