(* ===== verification/Http_Relay.thy ===== *)
theory Http_Relay
  imports Rust_Text Rust_Maps
begin

text \<open>
  HTTP requests and responses carried as JSON messages over a WebSocket. Two pairs of ends
  convert between the two forms: the gateway's load balancer (\<open>gateway/src/load_balancer.rs\<close>)
  with the platform (\<open>platform/src/load_balancer.rs\<close>), and the SDK bridge's proxy
  (\<open>sdk_bridge/src/http_proxy.rs\<close>) with the gateway (\<open>gateway/src/sdk_bridge_ws.rs\<close>).
  The HTTP and Base64 libraries are the parameter \<open>http_lib\<close>.
\<close>

section \<open>The libraries\<close>

datatype http_method = GET | POST | Other_Method string

type_synonym http_headers = "(string \<times> string) list"

text \<open>A body is a stream that ends in its bytes or breaks with an error.\<close>

record http_request =
  hq_method :: http_method
  hq_uri :: string
  hq_headers :: http_headers
  hq_body :: "string + string"

record http_response =
  hr_status :: u16
  hr_headers :: http_headers
  hr_body :: "string + string"

record http_lib =
  hl_b64_encode :: "string \<Rightarrow> string"                  \<comment> \<open>\<open>STANDARD.encode\<close>\<close>
  hl_b64_decode :: "string \<Rightarrow> string + string"
  hl_iter :: "http_headers \<Rightarrow> http_headers"            \<comment> \<open>the order of \<open>HeaderMap::iter\<close>\<close>
  hl_to_str :: "string \<Rightarrow> string option"               \<comment> \<open>\<open>HeaderValue::to_str\<close>\<close>
  hl_name_ok :: "string \<Rightarrow> bool"
  hl_value_ok :: "string \<Rightarrow> bool"
  hl_uri_ok :: "string \<Rightarrow> bool"
  hl_uri_query :: "string \<Rightarrow> string option"            \<comment> \<open>\<open>Uri::query\<close>\<close>
  hl_uri_path :: "string \<Rightarrow> string"
  hl_path_and_query :: "string \<Rightarrow> string option"
  hl_status_error :: "u16 \<Rightarrow> string option"            \<comment> \<open>\<open>StatusCode::from_u16\<close>\<close>
  hl_build_error :: string
  hl_limit_error :: string
  hl_show_method :: "http_method \<Rightarrow> string"
  hl_uuid_parse :: "string \<Rightarrow> uuid option"
  hl_show_uuid :: "uuid \<Rightarrow> string"

text \<open>
  What the code relies on: Base64 inverts and encodes nothing as nothing; iterating a header map
  loses no pair; a header value that is text reads as itself and can be set again; every
  three-digit code is a status.
\<close>

definition http_lib_ok :: "http_lib \<Rightarrow> bool" where
  "http_lib_ok L \<longleftrightarrow>
     (\<forall>s. hl_b64_decode L (hl_b64_encode L s) = Inr s) \<and> hl_b64_encode L [] = [] \<and>
     (\<forall>hs. mset (hl_iter L hs) = mset hs) \<and>
     (\<forall>v s. hl_to_str L v = Some s \<longrightarrow> s = v \<and> hl_value_ok L v) \<and>
     (\<forall>c. 100 \<le> unat c \<and> unat c < 1000 \<longrightarrow> hl_status_error L c = None)"

text \<open>\<open>axum::body::to_bytes\<close> with its limit.\<close>

definition to_bytes :: "http_lib \<Rightarrow> nat \<Rightarrow> string + string \<Rightarrow> string + string" where
  "to_bytes L limit body =
     (case body of Inl e \<Rightarrow> Inl e
      | Inr b \<Rightarrow> if limit < length b then Inl (hl_limit_error L) else Inr b)"

text \<open>The builders: an unacceptable part makes the final \<open>body(...)\<close> fail.\<close>

definition headers_ok :: "http_lib \<Rightarrow> http_headers \<Rightarrow> bool" where
  "headers_ok L hs \<longleftrightarrow> list_all (\<lambda>(n, v). hl_name_ok L n \<and> hl_value_ok L v) hs"

definition build_request :: "http_lib \<Rightarrow> http_request \<Rightarrow> string + http_request" where
  "build_request L q =
     (if hl_uri_ok L (hq_uri q) \<and> headers_ok L (hq_headers q) then Inr q else Inl (hl_build_error L))"

definition build_response :: "http_lib \<Rightarrow> http_response \<Rightarrow> string + http_response" where
  "build_response L r = (if headers_ok L (hr_headers r) then Inr r else Inl (hl_build_error L))"

definition DEFAULT_MAX_BODY_BYTES :: nat where
  "DEFAULT_MAX_BODY_BYTES = 10 * 1024 * 1024"

text \<open>\<open>(code, reason).into_response()\<close>\<close>

definition plain_response :: "u16 \<Rightarrow> string \<Rightarrow> http_response" where
  "plain_response code reason =
     \<lparr>hr_status = code, hr_headers = [(''content-type'', ''text/plain; charset=utf-8'')],
      hr_body = Inr reason\<rparr>"

section \<open>The messages\<close>

datatype json_method = JGET | JPOST

record json_request =
  jq_id :: uuid
  jq_method :: json_method
  jq_path :: string
  jq_query :: "string option"
  jq_header :: http_headers
  jq_body_base64 :: string

record json_response =
  jr_id :: uuid
  jr_code :: u16
  jr_header :: http_headers
  jr_body_base64 :: string

text \<open>The message of \<open>sdk_bridge/src/protocol.rs\<close> has the query inside the path.\<close>

record sdk_json_request =
  sq_id :: uuid
  sq_method :: json_method
  sq_path :: string
  sq_header :: http_headers
  sq_body_base64 :: string

fun json_method_of :: "http_method \<Rightarrow> json_method option" where
  "json_method_of GET = Some JGET"
| "json_method_of POST = Some JPOST"
| "json_method_of (Other_Method m) = None"

fun http_method_of :: "json_method \<Rightarrow> http_method" where
  "http_method_of JGET = GET"
| "http_method_of JPOST = POST"

text \<open>The \<open>flat_map\<close> over the headers: values that are not text are dropped.\<close>

definition text_headers :: "http_lib \<Rightarrow> http_headers \<Rightarrow> http_headers" where
  "text_headers L hs =
     List.map_filter (\<lambda>(n, v). map_option (\<lambda>s. (n, s)) (hl_to_str L v)) (hl_iter L hs)"

definition decode_body :: "http_lib \<Rightarrow> string \<Rightarrow> string + string" where
  "decode_body L b64 = (if b64 = [] then Inr [] else hl_b64_decode L b64)"

section \<open>Gateway to platform\<close>

text \<open>\<open>new_id\<close> is the fresh \<open>Uuid::new_v4()\<close>.\<close>

definition lb_request_to_json ::
  "http_lib \<Rightarrow> uuid \<Rightarrow> string \<Rightarrow> string option \<Rightarrow> string \<Rightarrow> http_request \<Rightarrow> (u16 \<times> string) + json_request" where
  "lb_request_to_json L new_id path_override query_override relay_name q =
     (case json_method_of (hq_method q) of
        None \<Rightarrow> Inl (400, ''unhandled request method: '' @ hl_show_method L (hq_method q))
      | Some method \<Rightarrow>
          (let header = text_headers L (hq_headers q)
           in case to_bytes L DEFAULT_MAX_BODY_BYTES (hq_body q) of
                Inl err \<Rightarrow>
                  Inl (400, ''failed to read body bytes for request to '' @ relay_name @ '': '' @
                            path_override @ '': '' @ err)
              | Inr body_bytes \<Rightarrow>
                  Inr \<lparr>jq_id = new_id, jq_method = method, jq_path = path_override,
                       jq_query = query_override, jq_header = header,
                       jq_body_base64 = hl_b64_encode L body_bytes\<rparr>))"

definition lb_json_to_response ::
  "http_lib \<Rightarrow> string \<Rightarrow> json_response \<Rightarrow> (u16 \<times> string) + http_response" where
  "lb_json_to_response L relay_name json =
     (case decode_body L (jr_body_base64 json) of
        Inl err \<Rightarrow> Inl (502, relay_name @ '': Invalid base64 encoding of response body_base64: '' @ err)
      | Inr body \<Rightarrow>
          (case hl_status_error L (jr_code json) of
             Some err \<Rightarrow>
               Inl (502, relay_name @ '': Invalid response status code '' @ show_u16 (jr_code json) @ '': '' @ err)
           | None \<Rightarrow>
               (case build_response L \<lparr>hr_status = jr_code json, hr_headers = jr_header json, hr_body = Inr body\<rparr> of
                  Inl err \<Rightarrow> Inl (400, relay_name @ '': Error when constructing a request from JSON request: '' @ err)
                | Inr r \<Rightarrow> Inr r)))"

text \<open>\<open>impl Display for ApiPrefix\<close> of \<open>platform/src/server/state.rs\<close>\<close>

definition show_api_prefix :: "http_lib \<Rightarrow> uuid option \<Rightarrow> string" where
  "show_api_prefix L p = (case p of Some u \<Rightarrow> ''/'' @ hl_show_uuid L u | None \<Rightarrow> ''/'')"

definition pf_json_to_request ::
  "http_lib \<Rightarrow> uuid option \<Rightarrow> json_request \<Rightarrow> (u16 \<times> string) + http_request" where
  "pf_json_to_request L api_prefix json =
     (case decode_body L (jq_body_base64 json) of
        Inl err \<Rightarrow> Inl (400, ''Invalid base64 encoding of body_base64: '' @ err)
      | Inr body \<Rightarrow>
          (let uri = (case jq_query json of
                        Some query \<Rightarrow> show_api_prefix L api_prefix @ jq_path json @ ''?'' @ query
                      | None \<Rightarrow> show_api_prefix L api_prefix @ jq_path json)
           in case build_request L \<lparr>hq_method = http_method_of (jq_method json), hq_uri = uri,
                                    hq_headers = jq_header json, hq_body = Inr body\<rparr> of
                Inl err \<Rightarrow> Inl (400, ''Error when constructing a request from JSON request: '' @ err)
              | Inr q \<Rightarrow> Inr q))"

definition pf_response_to_json ::
  "http_lib \<Rightarrow> nat \<Rightarrow> http_response \<Rightarrow> uuid \<Rightarrow> (u16 \<times> string) + json_response" where
  "pf_response_to_json L max_response_body_bytes r request_id =
     (case to_bytes L max_response_body_bytes (hr_body r) of
        Inl err \<Rightarrow> Inl (502, ''Cannot read body of the response: '' @ err)
      | Inr body_bytes \<Rightarrow>
          Inr \<lparr>jr_id = request_id, jr_code = hr_status r, jr_header = text_headers L (hr_headers r),
               jr_body_base64 = hl_b64_encode L body_bytes\<rparr>)"

text \<open>The router answers, or does not within \<open>REQUEST_TIMEOUT\<close> (\<open>None\<close>).\<close>

definition error_json :: "http_lib \<Rightarrow> uuid \<Rightarrow> u16 \<Rightarrow> string \<Rightarrow> json_response" where
  "error_json L request_id code err =
     \<lparr>jr_id = request_id, jr_code = code, jr_header = [], jr_body_base64 = hl_b64_encode L err\<rparr>"

definition pf_handle_one ::
  "http_lib \<Rightarrow> nat \<Rightarrow> uuid option \<Rightarrow> (http_request \<Rightarrow> http_response option) \<Rightarrow> json_request \<Rightarrow> json_response" where
  "pf_handle_one L max_response_body_bytes api_prefix router json =
     (let rv = (case pf_json_to_request L api_prefix json of
                  Inl e \<Rightarrow> Inl e
                | Inr q \<Rightarrow>
                    (case router q of
                       None \<Rightarrow> Inl (504, ''Timed out while waiting 60s for a response'')
                     | Some r \<Rightarrow> pf_response_to_json L max_response_body_bytes r (jq_id json)))
      in case rv of
           Inr ok \<Rightarrow> ok
         | Inl (code, err) \<Rightarrow> error_json L (jq_id json) code err)"

section \<open>SDK bridge to gateway\<close>

definition sp_request_to_json ::
  "http_lib \<Rightarrow> uuid \<Rightarrow> http_request \<Rightarrow> (u16 \<times> string) + sdk_json_request" where
  "sp_request_to_json L new_id q =
     (case json_method_of (hq_method q) of
        None \<Rightarrow> Inl (400, ''unhandled request method: '' @ hl_show_method L (hq_method q))
      | Some method \<Rightarrow>
          (let header = text_headers L (hq_headers q);
               path = (case hl_path_and_query L (hq_uri q) of
                         Some p \<Rightarrow> p | None \<Rightarrow> hl_uri_path L (hq_uri q))
           in case to_bytes L DEFAULT_MAX_BODY_BYTES (hq_body q) of
                Inl err \<Rightarrow> Inl (400, ''failed to read body bytes: '' @ err)
              | Inr body_bytes \<Rightarrow>
                  Inr \<lparr>sq_id = new_id, sq_method = method, sq_path = path, sq_header = header,
                       sq_body_base64 = hl_b64_encode L body_bytes\<rparr>))"

definition sp_json_to_response :: "http_lib \<Rightarrow> json_response \<Rightarrow> (u16 \<times> string) + http_response" where
  "sp_json_to_response L json =
     (case decode_body L (jr_body_base64 json) of
        Inl err \<Rightarrow> Inl (502, ''Invalid base64 encoding of response body_base64: '' @ err)
      | Inr body \<Rightarrow>
          (case hl_status_error L (jr_code json) of
             Some err \<Rightarrow> Inl (502, ''Invalid response status code '' @ show_u16 (jr_code json) @ '': '' @ err)
           | None \<Rightarrow>
               (case build_response L \<lparr>hr_status = jr_code json, hr_headers = jr_header json, hr_body = Inr body\<rparr> of
                  Inl err \<Rightarrow> Inl (502, ''Error when constructing a response: '' @ err)
                | Inr r \<Rightarrow> Inr r)))"

definition bw_json_to_request :: "http_lib \<Rightarrow> sdk_json_request \<Rightarrow> (u16 \<times> string) + http_request" where
  "bw_json_to_request L json =
     (case decode_body L (sq_body_base64 json) of
        Inl err \<Rightarrow> Inl (400, ''Invalid base64 encoding of body_base64: '' @ err)
      | Inr body \<Rightarrow>
          (case build_request L \<lparr>hq_method = http_method_of (sq_method json), hq_uri = sq_path json,
                                 hq_headers = sq_header json, hq_body = Inr body\<rparr> of
             Inl err \<Rightarrow> Inl (400, ''Error when constructing a request from JSON request: '' @ err)
           | Inr q \<Rightarrow> Inr q))"

definition bw_response_to_json ::
  "http_lib \<Rightarrow> http_response \<Rightarrow> uuid \<Rightarrow> (u16 \<times> string) + json_response" where
  "bw_response_to_json L r request_id =
     (case to_bytes L DEFAULT_MAX_BODY_BYTES (hr_body r) of
        Inl err \<Rightarrow> Inl (502, ''Cannot read body of the response: '' @ err)
      | Inr body_bytes \<Rightarrow>
          Inr \<lparr>jr_id = request_id, jr_code = hr_status r, jr_header = text_headers L (hr_headers r),
               jr_body_base64 = hl_b64_encode L body_bytes\<rparr>)"

definition bw_handle_one ::
  "http_lib \<Rightarrow> (http_request \<Rightarrow> http_response option) \<Rightarrow> sdk_json_request \<Rightarrow> json_response" where
  "bw_handle_one L router json =
     (let rv = (case bw_json_to_request L json of
                  Inl e \<Rightarrow> Inl e
                | Inr q \<Rightarrow>
                    (case router q of
                       None \<Rightarrow> Inl (504, ''Timed out while waiting 60s for a response'')
                     | Some r \<Rightarrow> bw_response_to_json L r (sq_id json)))
      in case rv of
           Inr ok \<Rightarrow> ok
         | Inl (code, err) \<Rightarrow> error_json L (sq_id json) code err)"

section \<open>What a relay promises\<close>

text \<open>What a header map and a response are by their types.\<close>

definition names_valid :: "http_lib \<Rightarrow> http_headers \<Rightarrow> bool" where
  "names_valid L hs \<longleftrightarrow> list_all (\<lambda>(n, v). hl_name_ok L n) hs"

definition response_valid :: "http_lib \<Rightarrow> http_response \<Rightarrow> bool" where
  "response_valid L r \<longleftrightarrow> 100 \<le> unat (hr_status r) \<and> unat (hr_status r) < 1000 \<and> names_valid L (hr_headers r)"

definition router_valid :: "http_lib \<Rightarrow> (http_request \<Rightarrow> http_response option) \<Rightarrow> bool" where
  "router_valid L router \<longleftrightarrow> (\<forall>q r. router q = Some r \<longrightarrow> response_valid L r)"

text \<open>The same pairs, in any order, without the values that are not text.\<close>

definition same_text_headers :: "http_lib \<Rightarrow> http_headers \<Rightarrow> http_headers \<Rightarrow> bool" where
  "same_text_headers L original relayed \<longleftrightarrow>
     mset relayed = filter_mset (\<lambda>(n, v). hl_to_str L v \<noteq> None) (mset original)"

text \<open>What the client must get for what the router answered.\<close>

definition answer_relayed ::
  "http_lib \<Rightarrow> nat \<Rightarrow> http_response option \<Rightarrow> http_response \<Rightarrow> bool" where
  "answer_relayed L limit answer got =
     (case answer of
        None \<Rightarrow> hr_status got = 504
      | Some r \<Rightarrow>
          (case hr_body r of
             Inl _ \<Rightarrow> hr_status got = 502
           | Inr b \<Rightarrow>
               if limit < length b then hr_status got = 502
               else hr_status got = hr_status r \<and> hr_body got = Inr b \<and>
                    same_text_headers L (hr_headers r) (hr_headers got)))"

lemma decode_body_encode: "http_lib_ok L \<Longrightarrow> decode_body L (hl_b64_encode L b) = Inr b"
  by (auto simp: http_lib_ok_def decode_body_def) (metis Inr_inject)

lemma text_headers_filter:
  assumes "http_lib_ok L"
  shows "text_headers L hs = filter (\<lambda>(n, v). hl_to_str L v \<noteq> None) (hl_iter L hs)"
proof -
  have "List.map_filter (\<lambda>(n, v). map_option (\<lambda>s. (n, s)) (hl_to_str L v)) xs =
    filter (\<lambda>(n, v). hl_to_str L v \<noteq> None) xs" for xs :: http_headers
    using assms by (induction xs) (auto simp: http_lib_ok_def List.map_filter_simps split: option.splits)
  then show ?thesis by (simp add: text_headers_def)
qed

lemma same_text_headers_relayed:
  assumes "http_lib_ok L"
  shows "same_text_headers L hs (text_headers L hs)"
  using assms by (simp add: text_headers_filter same_text_headers_def http_lib_ok_def)

lemma text_headers_ok:
  assumes "http_lib_ok L" and "names_valid L hs"
  shows "headers_ok L (text_headers L hs)"
proof -
  have "set (hl_iter L hs) = set hs"
    using assms(1) by (metis http_lib_ok_def mset_eq_setD)
  with assms show ?thesis
    by (auto simp: text_headers_filter headers_ok_def names_valid_def list_all_iff http_lib_ok_def)
qed

text \<open>The client side of a response, shared by the gateway and the SDK proxy.\<close>

definition readable :: "http_lib \<Rightarrow> json_response \<Rightarrow> http_response \<Rightarrow> bool" where
  "readable L json r \<longleftrightarrow>
     decode_body L (jr_body_base64 json) = hr_body r \<and> (\<exists>b. hr_body r = Inr b) \<and>
     hl_status_error L (jr_code json) = None \<and> headers_ok L (jr_header json) \<and>
     hr_status r = jr_code json \<and> hr_headers r = jr_header json"

lemma readable_lb: "readable L json r \<Longrightarrow> lb_json_to_response L name json = Inr r"
  by (auto simp: readable_def lb_json_to_response_def build_response_def)

lemma readable_sp: "readable L json r \<Longrightarrow> sp_json_to_response L json = Inr r"
  by (auto simp: readable_def sp_json_to_response_def build_response_def)

lemma readable_error:
  assumes "http_lib_ok L" and "100 \<le> unat code" and "unat code < 1000"
  shows "readable L (error_json L i code err) \<lparr>hr_status = code, hr_headers = [], hr_body = Inr err\<rparr>"
  using assms decode_body_encode [OF assms(1)]
  by (simp add: readable_def error_json_def http_lib_ok_def headers_ok_def)

lemma readable_answer:
  assumes "http_lib_ok L" and "response_valid L r"
  shows "readable L \<lparr>jr_id = i, jr_code = hr_status r, jr_header = text_headers L (hr_headers r),
                     jr_body_base64 = hl_b64_encode L b\<rparr>
    \<lparr>hr_status = hr_status r, hr_headers = text_headers L (hr_headers r), hr_body = Inr b\<rparr>"
  using assms decode_body_encode [OF assms(1)] text_headers_ok [OF assms(1)]
  by (simp add: readable_def response_valid_def http_lib_ok_def)

text \<open>Both \<open>handle_one\<close>s, once the request is built, answer the same way.\<close>

definition answer_json ::
  "http_lib \<Rightarrow> nat \<Rightarrow> uuid \<Rightarrow> http_response option \<Rightarrow> json_response" where
  "answer_json L limit i answer =
     (case answer of
        None \<Rightarrow> error_json L i 504 ''Timed out while waiting 60s for a response''
      | Some r \<Rightarrow>
          (case to_bytes L limit (hr_body r) of
             Inl err \<Rightarrow> error_json L i 502 (''Cannot read body of the response: '' @ err)
           | Inr b \<Rightarrow> \<lparr>jr_id = i, jr_code = hr_status r, jr_header = text_headers L (hr_headers r),
                      jr_body_base64 = hl_b64_encode L b\<rparr>))"

lemma pf_handle_one_answer:
  "pf_json_to_request L p j = Inr q \<Longrightarrow> pf_handle_one L limit p router j = answer_json L limit (jq_id j) (router q)"
  by (simp add: pf_handle_one_def answer_json_def pf_response_to_json_def split: option.splits sum.splits)

lemma bw_handle_one_answer:
  "bw_json_to_request L j = Inr q \<Longrightarrow>
   bw_handle_one L router j = answer_json L DEFAULT_MAX_BODY_BYTES (sq_id j) (router q)"
  by (simp add: bw_handle_one_def answer_json_def bw_response_to_json_def split: option.splits sum.splits)

lemma answer_json_relayed:
  assumes "http_lib_ok L" and "router_valid L router"
  shows "\<exists>got. readable L (answer_json L limit i (router q)) got \<and> answer_relayed L limit (router q) got"
proof (cases "router q")
  case None
  with readable_error [OF assms(1), of 504] show ?thesis
    by (fastforce simp: answer_json_def answer_relayed_def)
next
  case (Some r)
  then have v: "response_valid L r" using assms(2) by (simp add: router_valid_def)
  show ?thesis
  proof (cases "to_bytes L limit (hr_body r)")
    case (Inl err)
    with Some readable_error [OF assms(1), of 502] show ?thesis
      by (fastforce simp: answer_json_def answer_relayed_def to_bytes_def split: sum.splits if_splits)
  next
    case (Inr b)
    with Some readable_answer [OF assms(1) v, of i b] same_text_headers_relayed [OF assms(1), of "hr_headers r"]
    show ?thesis
      by (fastforce simp: answer_json_def answer_relayed_def to_bytes_def split: sum.splits if_splits)
  qed
qed

section \<open>Round trips\<close>

definition target_uri :: "http_lib \<Rightarrow> uuid option \<Rightarrow> string \<Rightarrow> string option \<Rightarrow> string" where
  "target_uri L p path query =
     show_api_prefix L p @ path @ (case query of None \<Rightarrow> [] | Some s \<Rightarrow> ''?'' @ s)"

text \<open>A request relayed to a platform reaches its router as it was, method, path, query, text headers
  and body, and the client gets the router's answer as it was; a router that is too slow gives
  504, an answer whose body is broken or too long 502.\<close>

theorem platform_relay_roundtrip:
  assumes "http_lib_ok L" and "router_valid L router" and "names_valid L (hq_headers q)"
    and "json_method_of (hq_method q) \<noteq> None" and "hq_body q = Inr b"
    and "length b \<le> DEFAULT_MAX_BODY_BYTES" and "hl_uri_ok L (target_uri L p path query)"
  shows "\<exists>j q' got.
    lb_request_to_json L i path query name q = Inr j \<and> pf_json_to_request L p j = Inr q' \<and>
    hq_method q' = hq_method q \<and> hq_uri q' = target_uri L p path query \<and> hq_body q' = Inr b \<and>
    same_text_headers L (hq_headers q) (hq_headers q') \<and>
    lb_json_to_response L name (pf_handle_one L limit p router j) = Inr got \<and>
    answer_relayed L limit (router q') got"
proof -
  obtain m where m: "json_method_of (hq_method q) = Some m" using assms(4) by blast
  then have m': "http_method_of m = hq_method q" by (cases "hq_method q") auto
  let ?j = "\<lparr>jq_id = i, jq_method = m, jq_path = path, jq_query = query,
    jq_header = text_headers L (hq_headers q), jq_body_base64 = hl_b64_encode L b\<rparr>"
  let ?q = "\<lparr>hq_method = hq_method q, hq_uri = target_uri L p path query,
    hq_headers = text_headers L (hq_headers q), hq_body = Inr b\<rparr>"
  have 1: "lb_request_to_json L i path query name q = Inr ?j"
    using assms(5,6) m by (simp add: lb_request_to_json_def to_bytes_def)
  have 2: "pf_json_to_request L p ?j = Inr ?q"
    using assms(7) text_headers_ok [OF assms(1,3)] m'
    by (cases query) (simp_all add: pf_json_to_request_def decode_body_encode [OF assms(1)] build_request_def target_uri_def)
  from answer_json_relayed [OF assms(1,2), of limit i ?q] obtain got where
    "readable L (answer_json L limit i (router ?q)) got" "answer_relayed L limit (router ?q) got" by blast
  with 1 2 readable_lb same_text_headers_relayed [OF assms(1)] pf_handle_one_answer [OF 2] show ?thesis
    by (intro exI [of _ ?j] exI [of _ ?q] exI [of _ got]) simp
qed

definition demo_http_lib :: http_lib where
  "demo_http_lib = \<lparr>hl_b64_encode = (\<lambda>s. s), hl_b64_decode = Inr, hl_iter = rev,
     hl_to_str = (\<lambda>v. if list_all (\<lambda>c. of_char c < (128 :: nat)) v then Some v else None),
     hl_name_ok = (\<lambda>n. n \<noteq> []), hl_value_ok = (\<lambda>v. True), hl_uri_ok = (\<lambda>u. u \<noteq> []),
     hl_uri_query = (\<lambda>u. map_option snd (split_once CHR ''?'' u)),
     hl_uri_path = (\<lambda>u. case split_once CHR ''?'' u of None \<Rightarrow> u | Some (p, _) \<Rightarrow> p),
     hl_path_and_query = Some, hl_status_error = (\<lambda>c. if 100 \<le> unat c \<and> unat c < 1000 then None else Some ''invalid''),
     hl_build_error = ''invalid'', hl_limit_error = ''too long'', hl_show_method = (\<lambda>_. ''PUT''),
     hl_uuid_parse = (\<lambda>s. map_option (\<lambda>n. Uuid (of_nat n)) (parse_magnitude s)),
     hl_show_uuid = (\<lambda>u. ''u'')\<rparr>"

lemma demo_http_lib_ok: "http_lib_ok demo_http_lib"
  by (simp add: http_lib_ok_def demo_http_lib_def)

definition demo_request :: http_request where
  "demo_request = \<lparr>hq_method = POST, hq_uri = ''/tx?x=1'', hq_headers = [(''a'', ''b''), (''c'', ''d'')], hq_body = Inr ''body''\<rparr>"

lemma demo_request_valid:
  "names_valid demo_http_lib (hq_headers demo_request)" "json_method_of (hq_method demo_request) \<noteq> None"
  "hq_body demo_request = Inr ''body''" "length ''body'' \<le> DEFAULT_MAX_BODY_BYTES"
  by (simp_all add: names_valid_def demo_request_def demo_http_lib_def DEFAULT_MAX_BODY_BYTES_def)

definition demo_constant_router :: "http_request \<Rightarrow> http_response option" where
  "demo_constant_router q = Some \<lparr>hr_status = 200, hr_headers = [], hr_body = Inr ''ok''\<rparr>"

lemma demo_router_valid: "router_valid demo_http_lib demo_constant_router"
  by (simp add: router_valid_def demo_constant_router_def response_valid_def names_valid_def)

theorem platform_relay_roundtrip_witness:
  "\<exists>j q' got.
    lb_request_to_json demo_http_lib (Uuid 3) ''/tx'' (Some ''x=1'') ''r'' demo_request = Inr j \<and>
    pf_json_to_request demo_http_lib (Some (Uuid 5)) j = Inr q' \<and> hq_uri q' = ''/u/tx?x=1'' \<and>
    lb_json_to_response demo_http_lib ''r''
      (pf_handle_one demo_http_lib 100 (Some (Uuid 5)) demo_constant_router j) = Inr got \<and>
    hr_status got = 200 \<and> hr_body got = Inr ''ok''"
proof -
  have t: "target_uri demo_http_lib (Some (Uuid 5)) ''/tx'' (Some ''x=1'') = ''/u/tx?x=1''"
    by (simp add: target_uri_def show_api_prefix_def demo_http_lib_def)
  then have "hl_uri_ok demo_http_lib (target_uri demo_http_lib (Some (Uuid 5)) ''/tx'' (Some ''x=1''))"
    by (simp add: demo_http_lib_def)
  from platform_relay_roundtrip [OF demo_http_lib_ok demo_router_valid demo_request_valid this,
      of "Uuid 3" "''r''" 100] t
  show ?thesis
    by (fastforce simp: answer_relayed_def demo_constant_router_def)
qed

text \<open>A request that an SDK sends through its bridge reaches the gateway's router as it was, and the SDK
  gets the router's answer as it was, or 504 or 502 when the router is too slow or its body
  broken or too long.\<close>

theorem sdk_relay_roundtrip:
  assumes "http_lib_ok L" and "router_valid L router" and "names_valid L (hq_headers q)"
    and "json_method_of (hq_method q) \<noteq> None" and "hq_body q = Inr b"
    and "length b \<le> DEFAULT_MAX_BODY_BYTES" and "hl_path_and_query L (hq_uri q) = Some pq" and "hl_uri_ok L pq"
  shows "\<exists>j q' got.
    sp_request_to_json L i q = Inr j \<and> bw_json_to_request L j = Inr q' \<and>
    hq_method q' = hq_method q \<and> hq_uri q' = pq \<and> hq_body q' = Inr b \<and>
    same_text_headers L (hq_headers q) (hq_headers q') \<and>
    sp_json_to_response L (bw_handle_one L router j) = Inr got \<and>
    answer_relayed L DEFAULT_MAX_BODY_BYTES (router q') got"
proof -
  obtain m where m: "json_method_of (hq_method q) = Some m" using assms(4) by blast
  then have m': "http_method_of m = hq_method q" by (cases "hq_method q") auto
  let ?j = "\<lparr>sq_id = i, sq_method = m, sq_path = pq,
    sq_header = text_headers L (hq_headers q), sq_body_base64 = hl_b64_encode L b\<rparr>"
  let ?q = "\<lparr>hq_method = hq_method q, hq_uri = pq,
    hq_headers = text_headers L (hq_headers q), hq_body = Inr b\<rparr>"
  have 1: "sp_request_to_json L i q = Inr ?j"
    using assms(5,6,7) m by (simp add: sp_request_to_json_def to_bytes_def)
  have 2: "bw_json_to_request L ?j = Inr ?q"
    using assms(8) text_headers_ok [OF assms(1,3)] m'
    by (simp add: bw_json_to_request_def decode_body_encode [OF assms(1)] build_request_def)
  from answer_json_relayed [OF assms(1,2), of DEFAULT_MAX_BODY_BYTES i ?q] obtain got where
    "readable L (answer_json L DEFAULT_MAX_BODY_BYTES i (router ?q)) got"
    "answer_relayed L DEFAULT_MAX_BODY_BYTES (router ?q) got" by blast
  with 1 2 readable_sp same_text_headers_relayed [OF assms(1)] bw_handle_one_answer [OF 2] show ?thesis
    by (intro exI [of _ ?j] exI [of _ ?q] exI [of _ got]) simp
qed

theorem sdk_relay_roundtrip_witness:
  "\<exists>j q' got.
    sp_request_to_json demo_http_lib (Uuid 3) demo_request = Inr j \<and>
    bw_json_to_request demo_http_lib j = Inr q' \<and> hq_uri q' = ''/tx?x=1'' \<and>
    sp_json_to_response demo_http_lib (bw_handle_one demo_http_lib demo_constant_router j) = Inr got \<and>
    hr_status got = 200 \<and> hr_body got = Inr ''ok''"
proof -
  have "hl_path_and_query demo_http_lib (hq_uri demo_request) = Some ''/tx?x=1''"
    "hl_uri_ok demo_http_lib ''/tx?x=1''"
    by (simp_all add: demo_http_lib_def demo_request_def)
  from sdk_relay_roundtrip [OF demo_http_lib_ok demo_router_valid demo_request_valid this, of "Uuid 3"]
  show ?thesis
    by (fastforce simp: answer_relayed_def demo_constant_router_def DEFAULT_MAX_BODY_BYTES_def)
qed

end
