(* ===== verification/Hydra_Actor.thy ===== *)
theory Hydra_Actor
  imports Prelude
begin

text \<open>
  The event loop that all Hydra controllers of the repository share
  (\<open>State::spawn\<close>, \<open>State::send\<close>, \<open>State::send_delayed\<close>, \<open>State::stop_hydra_node\<close> and the
  watchdog task of \<open>State::start_hydra_node\<close>, in \<open>hydra_server_platform/mod.rs\<close>,
  \<open>hydra_server_bridge/mod.rs\<close> and \<open>sdk_bridge/src/hydra_client/mod.rs\<close>).

  A handler (\<open>process_event\<close>) returns the new state, the list of its effects in the order
  the code performs them, and its \<open>Result\<close>. An actor is the state with the bounded channel
  \<open>mpsc::channel::<Event>(32)\<close>, the effects the task still has to perform, the sleeping
  \<open>send_delayed\<close> tasks with the restart generation each one captured, the tasks that wait
  for room in the channel, and the watchdog. Which of several waiting tasks gets the next
  free slot is left open, so every order the runtime may choose is covered.
  A schedule is a list of labels; \<open>actor_exec\<close> gives the successor of one label, or \<open>None\<close>
  where the label is not enabled.
\<close>

section \<open>Effects and results\<close>

datatype hydra_err =
    Ext_Err string          \<comment> \<open>an error of an external call, passed on by \<open>?\<close>\<close>
  | Bail string             \<comment> \<open>\<open>bail!\<close> or \<open>anyhow!\<close> of the code\<close>

type_synonym 'a hres = "hydra_err + 'a"

datatype ('e, 'x) effect =
    Send 'e                 \<comment> \<open>\<open>self.send(e).await\<close>\<close>
  | Send_Delayed u64 'e nat \<comment> \<open>captured generation, event, delay in ms\<close>
  | Abort_Watchdog
  | Start_Watchdog u64      \<comment> \<open>captured generation\<close>
  | Do 'x                   \<comment> \<open>a call to the outside world\<close>

type_synonym ('s, 'e, 'x) handled = "'s \<times> ('e, 'x) effect list \<times> unit hres"

abbreviation hdone :: "'s \<Rightarrow> ('e, 'x) effect list \<Rightarrow> ('s, 'e, 'x) handled" where
  "hdone s fx \<equiv> (s, fx, Inr ())"

abbreviation hfail :: "'s \<Rightarrow> ('e, 'x) effect list \<Rightarrow> hydra_err \<Rightarrow> ('s, 'e, 'x) handled" where
  "hfail s fx e \<equiv> (s, fx, Inl e)"

section \<open>The actor\<close>

text \<open>\<open>mpsc::channel::<Event>(32)\<close>\<close>

definition event_capacity :: nat where
  "event_capacity = 32"

record ('s, 'e, 'x) actor =
  ac_state :: 's
  ac_queue :: "'e list"
  ac_outbox :: "('e, 'x) effect list"
  ac_timers :: "(u64 \<times> 'e) list"
  ac_blocked :: "('e \<times> bool) list"
  ac_watchdog :: "u64 option"
  ac_stopped :: bool
  ac_calls :: "'x list"

datatype ('v, 'e) label =
    Deliver 'e        \<comment> \<open>a send from outside the task (controller, key exchange) is accepted\<close>
  | Fire nat          \<comment> \<open>the \<open>send_delayed\<close> task at this position wakes up\<close>
  | Unblock nat       \<comment> \<open>a task waiting in \<open>send\<close> gets a slot of the channel\<close>
  | Node_Exit         \<comment> \<open>\<open>child.wait()\<close> returned and the watchdog's delay is over\<close>
  | Node_Lost         \<comment> \<open>\<open>child.wait()\<close> failed; the watchdog only logs it\<close>
  | Perform           \<comment> \<open>the task performs its next effect\<close>
  | Recv 'v           \<comment> \<open>\<open>event_rx.recv()\<close> and \<open>process_event\<close>, in environment \<open>'v\<close>\<close>

definition room :: "('s, 'e, 'x) actor \<Rightarrow> bool" where
  "room a \<longleftrightarrow> length (ac_queue a) < event_capacity"

definition enqueue :: "'e \<Rightarrow> ('s, 'e, 'x) actor \<Rightarrow> ('s, 'e, 'x) actor" where
  "enqueue e a = a\<lparr>ac_queue := ac_queue a @ [e]\<rparr>"

definition remove_nth :: "nat \<Rightarrow> 'a list \<Rightarrow> 'a list" where
  "remove_nth i xs = take i xs @ drop (Suc i) xs"

text \<open>
  \<open>send_delayed\<close>: the sleeping task drops its event when a restart has happened since it was
  scheduled; otherwise it sends it, and waits in \<open>send\<close> (with no further look at the
  generation) while the channel is full. The flag of a waiting task says whether it is the
  watchdog, which \<open>abort\<close> can still cancel.
\<close>

definition offer :: "'e \<Rightarrow> bool \<Rightarrow> ('s, 'e, 'x) actor \<Rightarrow> ('s, 'e, 'x) actor" where
  "offer e wd a =
     (if ac_stopped a then a
      else if room a then enqueue e a
      else a\<lparr>ac_blocked := ac_blocked a @ [(e, wd)]\<rparr>)"

definition unblock :: "nat \<Rightarrow> ('s, 'e, 'x) actor \<Rightarrow> ('s, 'e, 'x) actor option" where
  "unblock i a =
     (if i < length (ac_blocked a) then
        let a' = a\<lparr>ac_blocked := remove_nth i (ac_blocked a)\<rparr>
        in if ac_stopped a then Some a'
           else if room a then Some (enqueue (fst (ac_blocked a ! i)) a')
           else None
      else None)"

definition fire_timer :: "('s \<Rightarrow> u64) \<Rightarrow> nat \<Rightarrow> ('s, 'e, 'x) actor \<Rightarrow> ('s, 'e, 'x) actor option" where
  "fire_timer gen i a =
     (if i < length (ac_timers a) then
        let (g, e) = ac_timers a ! i;
            a' = a\<lparr>ac_timers := remove_nth i (ac_timers a)\<rparr>
        in Some (if g = gen (ac_state a) then offer e False a' else a')
      else None)"

text \<open>The watchdog sends \<open>Restart\<close> only when no newer restart has been initiated.\<close>

definition node_exit :: "('s \<Rightarrow> u64) \<Rightarrow> 'e \<Rightarrow> ('s, 'e, 'x) actor \<Rightarrow> ('s, 'e, 'x) actor option" where
  "node_exit gen restart a =
     (case ac_watchdog a of
        None \<Rightarrow> None
      | Some g \<Rightarrow>
          let a' = a\<lparr>ac_watchdog := None\<rparr>
          in Some (if g = gen (ac_state a) then offer restart True a' else a'))"

definition node_lost :: "('s, 'e, 'x) actor \<Rightarrow> ('s, 'e, 'x) actor option" where
  "node_lost a = (if ac_watchdog a = None then None else Some (a\<lparr>ac_watchdog := None\<rparr>))"

text \<open>
  The task performs its effects in order. A \<open>send\<close> to its own channel waits for room, and
  the task that waits is the only receiver of that channel.
\<close>

fun perform_effect :: "('e, 'x) effect \<Rightarrow> ('s, 'e, 'x) actor \<Rightarrow> ('s, 'e, 'x) actor option" where
  "perform_effect (Send e) a =
     (if ac_stopped a then Some a else if room a then Some (enqueue e a) else None)"
| "perform_effect (Send_Delayed g e d) a = Some (a\<lparr>ac_timers := ac_timers a @ [(g, e)]\<rparr>)"
| "perform_effect Abort_Watchdog a =
     Some (a\<lparr>ac_watchdog := None, ac_blocked := filter (\<lambda>(e, wd). \<not> wd) (ac_blocked a)\<rparr>)"
| "perform_effect (Start_Watchdog g) a = Some (a\<lparr>ac_watchdog := Some g\<rparr>)"
| "perform_effect (Do x) a = Some (a\<lparr>ac_calls := ac_calls a @ [x]\<rparr>)"

definition perform :: "('s, 'e, 'x) actor \<Rightarrow> ('s, 'e, 'x) actor option" where
  "perform a =
     (case ac_outbox a of
        [] \<Rightarrow> None
      | f # fx \<Rightarrow> perform_effect f (a\<lparr>ac_outbox := fx\<rparr>))"

text \<open>
  One turn of \<open>while let Some(event) = event_rx.recv().await\<close>: on \<open>Err\<close> the loop sleeps
  for \<open>RESTART_DELAY\<close> and sends \<open>Restart\<close> to its own channel; the servers leave the loop
  after a successful \<open>Terminate\<close>.
\<close>

definition recv_event ::
  "('v \<Rightarrow> 'e \<Rightarrow> 's \<Rightarrow> ('s, 'e, 'x) handled) \<Rightarrow> 'e \<Rightarrow> ('e \<Rightarrow> bool) \<Rightarrow> 'v \<Rightarrow>
   ('s, 'e, 'x) actor \<Rightarrow> ('s, 'e, 'x) actor option" where
  "recv_event handle restart breaks v a =
     (case (ac_outbox a, ac_queue a, ac_stopped a) of
        ([], e # q, False) \<Rightarrow>
          (case handle v e (ac_state a) of
             (s, fx, Inr _) \<Rightarrow>
               Some (a\<lparr>ac_state := s, ac_queue := q, ac_outbox := fx, ac_stopped := breaks e\<rparr>)
           | (s, fx, Inl _) \<Rightarrow>
               Some (a\<lparr>ac_state := s, ac_queue := q, ac_outbox := fx @ [Send restart]\<rparr>))
      | _ \<Rightarrow> None)"

fun actor_exec ::
  "('s \<Rightarrow> u64) \<Rightarrow> ('v \<Rightarrow> 'e \<Rightarrow> 's \<Rightarrow> ('s, 'e, 'x) handled) \<Rightarrow> 'e \<Rightarrow> ('e \<Rightarrow> bool) \<Rightarrow>
   ('v, 'e) label \<Rightarrow> ('s, 'e, 'x) actor \<Rightarrow> ('s, 'e, 'x) actor option" where
  "actor_exec gen handle restart breaks (Deliver e) a =
     (if \<not> ac_stopped a \<and> room a then Some (enqueue e a) else None)"
| "actor_exec gen handle restart breaks (Fire i) a = fire_timer gen i a"
| "actor_exec gen handle restart breaks (Unblock i) a = unblock i a"
| "actor_exec gen handle restart breaks Node_Exit a = node_exit gen restart a"
| "actor_exec gen handle restart breaks Node_Lost a = node_lost a"
| "actor_exec gen handle restart breaks Perform a = perform a"
| "actor_exec gen handle restart breaks (Recv v) a = recv_event handle restart breaks v a"

fun actor_run ::
  "('s \<Rightarrow> u64) \<Rightarrow> ('v \<Rightarrow> 'e \<Rightarrow> 's \<Rightarrow> ('s, 'e, 'x) handled) \<Rightarrow> 'e \<Rightarrow> ('e \<Rightarrow> bool) \<Rightarrow>
   ('v, 'e) label list \<Rightarrow> ('s, 'e, 'x) actor \<Rightarrow> ('s, 'e, 'x) actor option" where
  "actor_run gen handle restart breaks [] a = Some a"
| "actor_run gen handle restart breaks (l # ls) a =
     (case actor_exec gen handle restart breaks l a of
        None \<Rightarrow> None
      | Some b \<Rightarrow> actor_run gen handle restart breaks ls b)"

text \<open>\<open>State::spawn\<close>: a fresh channel, the initial \<open>Restart\<close> sent, nothing else pending.\<close>

definition actor_spawn :: "'e \<Rightarrow> 's \<Rightarrow> ('s, 'e, 'x) actor" where
  "actor_spawn restart s =
     \<lparr>ac_state = s, ac_queue = [restart], ac_outbox = [], ac_timers = [],
      ac_blocked = [], ac_watchdog = None, ac_stopped = False, ac_calls = []\<rparr>"

inductive actor_reach ::
  "('s \<Rightarrow> u64) \<Rightarrow> ('v \<Rightarrow> 'e \<Rightarrow> 's \<Rightarrow> ('s, 'e, 'x) handled) \<Rightarrow> 'e \<Rightarrow> ('e \<Rightarrow> bool) \<Rightarrow>
   ('s, 'e, 'x) actor \<Rightarrow> ('s, 'e, 'x) actor \<Rightarrow> bool"
  for gen handle restart breaks a where
  reach_refl: "actor_reach gen handle restart breaks a a"
| reach_step: "actor_reach gen handle restart breaks a b \<Longrightarrow>
     actor_exec gen handle restart breaks l b = Some c \<Longrightarrow>
     actor_reach gen handle restart breaks a c"

lemma actor_run_append:
  "actor_run gen handle restart breaks (ls @ ms) a =
     Option.bind (actor_run gen handle restart breaks ls a)
       (actor_run gen handle restart breaks ms)"
  by (induction ls arbitrary: a) (auto split: option.splits)

lemma actor_run_reach:
  assumes "actor_run gen handle restart breaks ls b = Some c"
    and "actor_reach gen handle restart breaks a b"
  shows "actor_reach gen handle restart breaks a c"
  using assms
  by (induction ls arbitrary: b) (auto split: option.splits intro: actor_reach.intros)

text \<open>A burst of sends from outside fits as long as there is room.\<close>

lemma actor_run_deliver:
  assumes "\<not> ac_stopped a" and "length (ac_queue a) + n \<le> event_capacity"
  shows "actor_run gen handle restart breaks (replicate n (Deliver e)) a =
    Some (a\<lparr>ac_queue := ac_queue a @ replicate n e\<rparr>)"
  using assms
proof (induction n arbitrary: a)
  case (Suc n)
  then show ?case using Suc.IH [of "enqueue e a"]
    by (simp add: room_def enqueue_def)
qed simp

section \<open>A full channel blocks its own task\<close>

definition wedged :: "('s, 'e, 'x) actor \<Rightarrow> bool" where
  "wedged a \<longleftrightarrow> \<not> ac_stopped a \<and> length (ac_queue a) = event_capacity \<and>
     (\<exists>e fx. ac_outbox a = Send e # fx)"

lemma wedged_not_room: "wedged a \<Longrightarrow> \<not> room a"
  by (simp add: wedged_def room_def)

lemma wedged_after_burst:
  assumes "\<not> ac_stopped a" and "ac_queue a = []" and "ac_outbox a = Send f # fx"
  shows "\<exists>b. actor_run gen handle restart breaks (replicate event_capacity (Deliver e)) a = Some b \<and>
    wedged b"
  using assms by (simp add: actor_run_deliver wedged_def)

lemma wedged_step:
  assumes "wedged a" and "actor_exec gen handle restart breaks l a = Some b"
  shows "wedged b \<and> ac_queue b = ac_queue a \<and> ac_outbox b = ac_outbox a \<and>
    ac_state b = ac_state a \<and> ac_calls b = ac_calls a"
  using assms
  by (cases l)
    (auto simp: wedged_def room_def enqueue_def fire_timer_def node_exit_def perform_def
      offer_def unblock_def node_lost_def recv_event_def Let_def
      split: if_splits option.splits prod.splits)

lemma wedged_forever:
  assumes "actor_reach gen handle restart breaks a b" and "wedged a"
  shows "wedged b \<and> ac_queue b = ac_queue a \<and> ac_outbox b = ac_outbox a \<and>
    ac_state b = ac_state a \<and> ac_calls b = ac_calls a"
  using assms(1)
proof (induction rule: actor_reach.induct)
  case reach_refl
  with assms(2) show ?case by simp
next
  case (reach_step b l c)
  then show ?case using wedged_step [of b gen handle restart breaks l c] by simp
qed

text \<open>Conversely an actor that is neither stopped nor wedged and has work to do can move.\<close>

lemma not_wedged_progress:
  assumes "\<not> ac_stopped a" and "\<not> wedged a"
    and "length (ac_queue a) \<le> event_capacity" and "ac_outbox a \<noteq> [] \<or> ac_queue a \<noteq> []"
  shows "\<exists>l b. actor_exec gen handle restart breaks l a = Some b"
proof (cases "ac_outbox a")
  case Nil
  with assms(4) obtain e q where "ac_queue a = e # q" by (cases "ac_queue a") auto
  with Nil assms(1) have "\<exists>b. actor_exec gen handle restart breaks (Recv v) a = Some b" for v
    by (auto simp: recv_event_def split: prod.splits sum.splits)
  then show ?thesis by blast
next
  case (Cons f fx)
  have "\<exists>b. perform a = Some b"
    using Cons assms(1-3) by (cases f) (auto simp: perform_def room_def wedged_def)
  then show ?thesis using actor_exec.simps(6) by metis
qed

section \<open>The captured generations\<close>

fun effect_tags :: "('e, 'x) effect \<Rightarrow> u64 set" where
  "effect_tags (Send_Delayed g e d) = {g}"
| "effect_tags (Start_Watchdog g) = {g}"
| "effect_tags _ = {}"

definition live_tags :: "('s, 'e, 'x) actor \<Rightarrow> u64 set" where
  "live_tags a = fst ` set (ac_timers a) \<union> (\<Union>f\<in>set (ac_outbox a). effect_tags f) \<union>
     set_option (ac_watchdog a)"

lemma set_remove_nth: "set (remove_nth i xs) \<subseteq> set xs"
  by (auto simp: remove_nth_def dest: in_set_takeD in_set_dropD)

text \<open>Only \<open>recv_event\<close> changes the state or brings a generation into the actor.\<close>

lemma live_tags_step:
  assumes "actor_exec gen handle restart breaks l a = Some b" and "\<And>v. l \<noteq> Recv v"
  shows "live_tags b \<subseteq> live_tags a \<and> ac_state b = ac_state a"
proof (cases l)
  case (Fire i)
  with assms(1) have "ac_timers b = remove_nth i (ac_timers a) \<and> ac_outbox b = ac_outbox a \<and>
    ac_watchdog b = ac_watchdog a \<and> ac_state b = ac_state a"
    by (auto simp: fire_timer_def offer_def enqueue_def Let_def split: if_splits prod.splits)
  with set_remove_nth [of i "ac_timers a"] show ?thesis
    by (auto simp: live_tags_def)
next
  case Perform
  with assms(1) obtain f fx where f: "ac_outbox a = f # fx"
    "perform_effect f (a\<lparr>ac_outbox := fx\<rparr>) = Some b"
    by (auto simp: perform_def split: list.splits)
  then show ?thesis
    by (cases f) (auto simp: live_tags_def enqueue_def split: if_splits)
qed (use assms in \<open>auto simp: live_tags_def node_exit_def node_lost_def unblock_def offer_def
      enqueue_def Let_def split: if_splits option.splits\<close>)

section \<open>Events on their way to the handler\<close>

text \<open>
  An event is on its way when it is in the channel, in a task that waits for room, in an
  effect still to be performed, or in a sleeping task of the current generation. No step but
  its own reception loses it.
\<close>

fun emits :: "('e \<Rightarrow> bool) \<Rightarrow> ('e, 'x) effect \<Rightarrow> bool" where
  "emits P (Send e) = P e"
| "emits P (Send_Delayed g e d) = P e"
| "emits P _ = False"

definition on_its_way :: "('s \<Rightarrow> u64) \<Rightarrow> 'e \<Rightarrow> ('s, 'e, 'x) actor \<Rightarrow> bool" where
  "on_its_way gen e a \<longleftrightarrow>
     e \<in> set (ac_queue a) \<or> (e, False) \<in> set (ac_blocked a) \<or> Send e \<in> set (ac_outbox a) \<or>
     (\<exists>d. Send_Delayed (gen (ac_state a)) e d \<in> set (ac_outbox a)) \<or>
     (gen (ac_state a), e) \<in> set (ac_timers a)"

definition pending :: "('s \<Rightarrow> u64) \<Rightarrow> ('e \<Rightarrow> bool) \<Rightarrow> ('s, 'e, 'x) actor \<Rightarrow> bool" where
  "pending gen P a \<longleftrightarrow> (\<exists>e. P e \<and> on_its_way gen e a)"

lemma in_remove_nth:
  assumes "x \<in> set xs" and "x \<noteq> xs ! i" and "i < length xs"
  shows "x \<in> set (remove_nth i xs)"
proof -
  have "xs = take i xs @ xs ! i # drop (Suc i) xs" using assms(3) by (rule id_take_nth_drop)
  then have "set xs = insert (xs ! i) (set (remove_nth i xs))"
    by (metis remove_nth_def set_append list.simps(15) Un_insert_right)
  with assms(1,2) show ?thesis by auto
qed

lemma on_its_way_fire:
  assumes "fire_timer gen i a = Some b" and "\<not> ac_stopped a" and "on_its_way gen e a"
  shows "on_its_way gen e b"
proof (cases "(gen (ac_state a), e) \<in> set (ac_timers a)")
  case True
  with assms show ?thesis
    by (cases "ac_timers a ! i = (gen (ac_state a), e)")
      (auto simp: on_its_way_def fire_timer_def offer_def enqueue_def Let_def
        intro!: in_remove_nth split: if_splits prod.splits)
next
  case False
  with assms show ?thesis
    by (auto simp: on_its_way_def fire_timer_def offer_def enqueue_def Let_def
        split: if_splits prod.splits)
qed

lemma on_its_way_unblock:
  assumes "unblock i a = Some b" and "\<not> ac_stopped a" and "on_its_way gen e a"
  shows "on_its_way gen e b"
proof (cases "(e, False) \<in> set (ac_blocked a)")
  case True
  with assms show ?thesis
    by (cases "ac_blocked a ! i = (e, False)")
      (auto simp: on_its_way_def unblock_def enqueue_def Let_def
        intro!: in_remove_nth split: if_splits)
next
  case False
  with assms show ?thesis
    by (auto simp: on_its_way_def unblock_def enqueue_def Let_def split: if_splits)
qed

lemma on_its_way_perform:
  assumes "perform a = Some b" and "\<not> ac_stopped a" and "on_its_way gen e a"
  shows "on_its_way gen e b"
proof -
  from assms(1) obtain f fx where f: "ac_outbox a = f # fx"
    and p: "perform_effect f (a\<lparr>ac_outbox := fx\<rparr>) = Some b"
    by (auto simp: perform_def split: list.splits)
  with assms(2,3) show ?thesis
    by (cases f) (auto simp: on_its_way_def enqueue_def split: if_splits)
qed

lemma on_its_way_step:
  assumes "actor_exec gen handle restart breaks l a = Some b" and "\<And>v. l \<noteq> Recv v"
    and "\<not> ac_stopped a" and "on_its_way gen e a"
  shows "on_its_way gen e b"
proof (cases l)
  case (Fire i)
  with assms show ?thesis using on_its_way_fire [of gen i a b e] by simp
next
  case (Unblock i)
  with assms show ?thesis using on_its_way_unblock [of i a b gen e] by simp
next
  case Perform
  with assms show ?thesis using on_its_way_perform [of a b gen e] by simp
qed (use assms in \<open>auto simp: on_its_way_def node_exit_def node_lost_def offer_def enqueue_def
      Let_def split: if_splits option.splits\<close>)

lemma stopped_step:
  assumes "actor_exec gen handle restart breaks l a = Some b" and "ac_stopped a"
  shows "ac_stopped b"
proof (cases l)
  case Perform
  with assms obtain f fx where "perform_effect f (a\<lparr>ac_outbox := fx\<rparr>) = Some b"
    by (auto simp: perform_def split: list.splits)
  with assms(2) show ?thesis by (cases f) auto
qed (use assms in \<open>auto simp: fire_timer_def unblock_def node_exit_def node_lost_def
      recv_event_def offer_def enqueue_def Let_def split: if_splits option.splits prod.splits
      list.splits\<close>)

section \<open>The interface the handlers promise\<close>

text \<open>
  Every \<open>send_delayed\<close> captures the generation the handler leaves behind; \<open>Restart\<close>
  increments the generation and no other event changes it.
\<close>

locale hydra_actor =
  fixes gen :: "'s \<Rightarrow> u64"
    and handle :: "'v \<Rightarrow> 'e \<Rightarrow> 's \<Rightarrow> ('s, 'e, 'x) handled"
    and restart :: 'e
    and breaks :: "'e \<Rightarrow> bool"
  assumes delayed_tag:
      "handle v e s = (s', fx, r) \<Longrightarrow> Send_Delayed g e' d \<in> set fx \<Longrightarrow> g = gen s'"
    and watchdog_tag:
      "handle v e s = (s', fx, r) \<Longrightarrow> Start_Watchdog g \<in> set fx \<Longrightarrow> g = gen s'"
    and gen_restart: "handle v restart s = (s', fx, r) \<Longrightarrow> gen s' = gen s + 1"
    and gen_keep: "e \<noteq> restart \<Longrightarrow> handle v e s = (s', fx, r) \<Longrightarrow> gen s' = gen s"
begin

text \<open>All captured generations are those of the current or of an earlier epoch.\<close>

definition tags_bounded :: "('s, 'e, 'x) actor \<Rightarrow> bool" where
  "tags_bounded a \<longleftrightarrow> (\<forall>g\<in>live_tags a. unat g \<le> unat (gen (ac_state a)))"

lemma handle_gen_bounds:
  assumes "handle v e s = (s', fx, r)" and "unat (gen s) < 2 ^ 64 - 1"
  shows "unat (gen s) \<le> unat (gen s') \<and> unat (gen s') \<le> Suc (unat (gen s))"
  using assms gen_keep [of e v s s' fx r] gen_restart [of v s s' fx r]
  by (cases "e = restart") (auto simp: unat_Suc_no_wrap)

lemma step_gen:
  assumes "actor_exec gen handle restart breaks l a = Some b"
    and "unat (gen (ac_state a)) < 2 ^ 64 - 1"
  shows "unat (gen (ac_state a)) \<le> unat (gen (ac_state b)) \<and>
    unat (gen (ac_state b)) \<le> Suc (unat (gen (ac_state a)))"
proof (cases "\<exists>v. l = Recv v")
  case True
  with assms(1) obtain v e s fx r where h: "handle v e (ac_state a) = (s, fx, r)"
    and "ac_state b = s"
    by (auto simp: recv_event_def split: list.splits bool.splits prod.splits sum.splits)
  with handle_gen_bounds [OF h assms(2)] show ?thesis by simp
next
  case False
  with live_tags_step [OF assms(1)] show ?thesis by auto
qed

lemma run_gen:
  assumes "actor_run gen handle restart breaks ls a = Some b"
    and "unat (gen (ac_state a)) + length ls < 2 ^ 64"
  shows "unat (gen (ac_state a)) \<le> unat (gen (ac_state b))"
  using assms
proof (induction ls arbitrary: a)
  case Nil
  then show ?case by simp
next
  case (Cons l ls)
  then obtain c where c: "actor_exec gen handle restart breaks l a = Some c"
    and r: "actor_run gen handle restart breaks ls c = Some b"
    by (auto split: option.splits)
  from Cons.prems(2) have "unat (gen (ac_state a)) < 2 ^ 64 - 1" by simp
  from step_gen [OF c this] Cons.prems(2)
  have g: "unat (gen (ac_state a)) \<le> unat (gen (ac_state c))"
    and "unat (gen (ac_state c)) + length ls < 2 ^ 64" by auto
  with Cons.IH [OF r] show ?case by simp
qed

lemma run_gen_upper:
  assumes "actor_run gen handle restart breaks ls a = Some b"
    and "unat (gen (ac_state a)) + length ls < 2 ^ 64"
  shows "unat (gen (ac_state b)) \<le> unat (gen (ac_state a)) + length ls"
  using assms
proof (induction ls arbitrary: a)
  case (Cons l ls)
  then obtain c where c: "actor_exec gen handle restart breaks l a = Some c"
    and r: "actor_run gen handle restart breaks ls c = Some b"
    by (auto split: option.splits)
  from Cons.prems(2) have "unat (gen (ac_state a)) < 2 ^ 64 - 1" by simp
  from step_gen [OF c this] Cons.prems(2) Cons.IH [OF r] show ?case by simp
qed simp

lemma tags_bounded_spawn: "tags_bounded (actor_spawn restart s)"
  by (simp add: tags_bounded_def live_tags_def actor_spawn_def)

lemma handle_tags:
  assumes "handle v e s = (s', fx, r)" and "f \<in> set fx" and "g \<in> effect_tags f"
  shows "g = gen s'"
  using assms delayed_tag [OF assms(1)] watchdog_tag [OF assms(1)] by (cases f) auto

lemma live_tags_recv:
  assumes "recv_event handle restart breaks v a = Some b"
  shows "live_tags b \<subseteq> live_tags a \<union> {gen (ac_state b)}"
proof -
  from assms obtain e q s fx r where
    h: "handle v e (ac_state a) = (s, fx, r)" and a: "ac_outbox a = []" and
    b: "ac_state b = s" "ac_timers b = ac_timers a" "ac_watchdog b = ac_watchdog a"
       "ac_outbox b = fx \<or> ac_outbox b = fx @ [Send restart]"
    by (auto simp: recv_event_def split: list.splits bool.splits prod.splits sum.splits)
  have "(\<Union>f\<in>set (ac_outbox b). effect_tags f) \<subseteq> {gen s}"
    using b(4) handle_tags [OF h] by auto
  then show ?thesis using b(1-3) a by (auto simp: live_tags_def)
qed

lemma tags_bounded_step:
  assumes "tags_bounded a" and "unat (gen (ac_state a)) < 2 ^ 64 - 1"
    and "actor_exec gen handle restart breaks l a = Some b"
  shows "tags_bounded b"
proof -
  have le: "unat (gen (ac_state a)) \<le> unat (gen (ac_state b))"
    using step_gen [OF assms(3,2)] by simp
  have "live_tags b \<subseteq> live_tags a \<union> {gen (ac_state b)}"
  proof (cases "\<exists>v. l = Recv v")
    case True
    then obtain v where "recv_event handle restart breaks v a = Some b"
      using assms(3) by auto
    then show ?thesis by (rule live_tags_recv)
  next
    case False
    with live_tags_step [OF assms(3)] show ?thesis by auto
  qed
  then have "\<And>g. g \<in> live_tags b \<Longrightarrow> g \<in> live_tags a \<or> g = gen (ac_state b)" by auto
  with assms(1) le show ?thesis unfolding tags_bounded_def by fastforce
qed

lemma tags_bounded_run:
  assumes "tags_bounded a" and "actor_run gen handle restart breaks ls a = Some b"
    and "unat (gen (ac_state a)) + length ls < 2 ^ 64"
  shows "tags_bounded b"
  using assms
proof (induction ls arbitrary: a)
  case Nil
  then show ?case by simp
next
  case (Cons l ls)
  then obtain c where c: "actor_exec gen handle restart breaks l a = Some c"
    and r: "actor_run gen handle restart breaks ls c = Some b"
    by (auto split: option.splits)
  from Cons.prems(3) have lt: "unat (gen (ac_state a)) < 2 ^ 64 - 1" by simp
  have "tags_bounded c" by (rule tags_bounded_step [OF Cons.prems(1) lt c])
  moreover have "unat (gen (ac_state c)) + length ls < 2 ^ 64"
    using step_gen [OF c lt] Cons.prems(3) by simp
  ultimately show ?case using Cons.IH r by blast
qed

text \<open>
  The promise of \<open>restart_gen\<close>: once \<open>Restart\<close> has been handled, no delayed event that was
  pending before can ever reach the channel again; its task only ends.
\<close>

lemma restart_invalidates:
  assumes "tags_bounded a" and "ac_queue a = restart # q"
    and "actor_exec gen handle restart breaks (Recv v) a = Some b"
    and "actor_run gen handle restart breaks ls b = Some c"
    and "unat (gen (ac_state a)) + length ls + 1 < 2 ^ 64"
    and "(g, e) \<in> set (ac_timers a)"
  shows "g \<noteq> gen (ac_state c)"
proof -
  from assms(2,3) obtain s fx r where h: "handle v restart (ac_state a) = (s, fx, r)"
    and b: "ac_state b = s"
    by (auto simp: recv_event_def split: list.splits bool.splits prod.splits sum.splits)
  have gb: "unat (gen (ac_state b)) = Suc (unat (gen (ac_state a)))"
    using gen_restart [OF h] b assms(5) by (simp add: unat_Suc_no_wrap)
  with run_gen [OF assms(4)] assms(5)
  have "unat (gen (ac_state a)) < unat (gen (ac_state c))" by simp
  moreover have "unat g \<le> unat (gen (ac_state a))"
    using assms(1,6) by (force simp: tags_bounded_def live_tags_def)
  ultimately show ?thesis by auto
qed

lemma stale_fire:
  assumes "fire_timer gen i a = Some b" and "i < length (ac_timers a)"
    and "fst (ac_timers a ! i) \<noteq> gen (ac_state a)"
  shows "ac_queue b = ac_queue a \<and> ac_blocked b = ac_blocked a \<and>
    ac_timers b = remove_nth i (ac_timers a)"
  using assms by (auto simp: fire_timer_def Let_def split: prod.splits if_splits)

text \<open>A handler invariant holds in every reachable state of the actor.\<close>

lemma state_invariant:
  assumes "actor_reach gen handle restart breaks (actor_spawn restart s0) b"
    and "I s0" and "\<And>v e s s' fx r. handle v e s = (s', fx, r) \<Longrightarrow> I s \<Longrightarrow> I s'"
  shows "I (ac_state b)"
  using assms(1)
proof (induction rule: actor_reach.induct)
  case reach_refl
  with assms(2) show ?case by (simp add: actor_spawn_def)
next
  case (reach_step b l c)
  show ?case
  proof (cases "\<exists>v. l = Recv v")
    case True
    then obtain v where "recv_event handle restart breaks v b = Some c"
      using reach_step by auto
    then obtain e fx r where "handle v e (ac_state b) = (ac_state c, fx, r)"
      by (auto simp: recv_event_def split: list.splits bool.splits prod.splits sum.splits)
    with assms(3) reach_step.IH show ?thesis by blast
  next
    case False
    then have "ac_state c = ac_state b" using live_tags_step [OF reach_step(2)] by auto
    with reach_step.IH show ?thesis by simp
  qed
qed

text \<open>
  The rule for "never stuck": while \<open>Q\<close> holds of the state, an event of \<open>P\<close> is on its way,
  if every handler that returns \<open>Ok\<close> into \<open>Q\<close> emits such an event, or was in \<open>Q\<close> before and
  has consumed none. An error is covered by the \<open>Restart\<close> the loop sends.
\<close>

lemma pending_recv:
  assumes "P restart"
    and ok: "\<And>v e s s' fx. handle v e s = (s', fx, Inr ()) \<Longrightarrow> I s \<Longrightarrow> Q s' \<Longrightarrow>
       (\<exists>f\<in>set fx. emits P f) \<or> (Q s \<and> \<not> P e)"
    and I: "I (ac_state a)"
    and step: "recv_event handle restart breaks v a = Some b"
    and inv: "Q (ac_state a) \<Longrightarrow> pending gen P a" and q: "Q (ac_state b)"
  shows "pending gen P b"
proof -
  from step obtain e q s fx r where h: "handle v e (ac_state a) = (s, fx, r)"
    and a: "ac_outbox a = []" "ac_queue a = e # q"
    and b: "ac_state b = s" "ac_queue b = q" "ac_timers b = ac_timers a"
      "ac_blocked b = ac_blocked a"
    and out: "case r of Inl _ \<Rightarrow> ac_outbox b = fx @ [Send restart] | Inr _ \<Rightarrow> ac_outbox b = fx"
    by (auto simp: recv_event_def split: list.splits bool.splits prod.splits sum.splits)
  show ?thesis
  proof (cases r)
    case (Inl x)
    with out have "on_its_way gen restart b" by (simp add: on_its_way_def)
    with assms(1) show ?thesis by (auto simp: pending_def)
  next
    case (Inr u)
    with ok [of v e "ac_state a" s fx] I h q b(1)
    consider f where "f \<in> set fx" "emits P f" | "Q (ac_state a)" "\<not> P e" by auto
    then show ?thesis
    proof cases
      case 1
      with Inr out have f: "f \<in> set (ac_outbox b)" by simp
      obtain e' where "P e'" and "on_its_way gen e' b"
      proof (cases f)
        case (Send e')
        with 1 f that show thesis by (auto simp: on_its_way_def)
      next
        case (Send_Delayed g e' d)
        with 1 delayed_tag [OF h] b(1) have "g = gen (ac_state b)" by auto
        with Send_Delayed 1 f that show thesis by (auto simp: on_its_way_def)
      qed (use 1 in auto)
      then show ?thesis by (auto simp: pending_def)
    next
      case 2
      with assms(1) have "gen s = gen (ac_state a)" using gen_keep [OF _ h] by auto
      moreover from inv [OF 2(1)] 2(2) obtain e' where "P e'" "e' \<noteq> e" "on_its_way gen e' a"
        by (auto simp: pending_def)
      ultimately have "on_its_way gen e' b" using a b by (auto simp: on_its_way_def)
      with \<open>P e'\<close> show ?thesis by (auto simp: pending_def)
    qed
  qed
qed

lemma pending_reach_inv:
  assumes "actor_reach gen handle restart breaks (actor_spawn restart s0) b"
    and "P restart" and I0: "I s0"
    and I: "\<And>v e s s' fx r. handle v e s = (s', fx, r) \<Longrightarrow> I s \<Longrightarrow> I s'"
    and ok: "\<And>v e s s' fx. handle v e s = (s', fx, Inr ()) \<Longrightarrow> I s \<Longrightarrow> Q s' \<Longrightarrow>
       (\<exists>f\<in>set fx. emits P f) \<or> (Q s \<and> \<not> P e)"
  shows "Q (ac_state b) \<Longrightarrow> \<not> ac_stopped b \<Longrightarrow> pending gen P b"
  using assms(1)
proof (induction rule: actor_reach.induct)
  case reach_refl
  with assms(2) show ?case
    by (auto simp: pending_def on_its_way_def actor_spawn_def)
next
  case (reach_step b l c)
  then have ns: "\<not> ac_stopped b" using stopped_step [OF reach_step(2)] by blast
  have Ib: "I (ac_state b)" by (rule state_invariant [where I = I, OF reach_step(1) I0 I])
  show ?case
  proof (cases "\<exists>v. l = Recv v")
    case True
    then obtain v where "recv_event handle restart breaks v b = Some c"
      using reach_step by auto
    then show ?thesis
      by (rule pending_recv [where P = P and Q = Q and I = I, rotated 3])
        (use assms(2) Ib ok reach_step ns in blast)+
  next
    case False
    then have "ac_state c = ac_state b" using live_tags_step [OF reach_step(2)] by auto
    with reach_step ns have "pending gen P b" by simp
    then show ?thesis using False on_its_way_step [OF reach_step(2) _ ns]
      by (auto simp: pending_def)
  qed
qed

lemma pending_reach:
  assumes "actor_reach gen handle restart breaks (actor_spawn restart s0) b"
    and "P restart"
    and "\<And>v e s s' fx. handle v e s = (s', fx, Inr ()) \<Longrightarrow> Q s' \<Longrightarrow>
       (\<exists>f\<in>set fx. emits P f) \<or> (Q s \<and> \<not> P e)"
  shows "Q (ac_state b) \<Longrightarrow> \<not> ac_stopped b \<Longrightarrow> pending gen P b"
  by (rule pending_reach_inv [where I = "\<lambda>_. True" and P = P and Q = Q, rotated 5])
    (use assms in blast)+

end

section \<open>How a model meets the interface\<close>

text \<open>
  One predicate per handled result: the generation left behind is \<open>g\<close> and every captured
  generation is \<open>g\<close>.
\<close>

definition tagged :: "('s \<Rightarrow> u64) \<Rightarrow> u64 \<Rightarrow> ('s, 'e, 'x) handled \<Rightarrow> bool" where
  "tagged gen g h \<longleftrightarrow> (case h of (s, fx, r) \<Rightarrow>
     gen s = g \<and> (\<forall>f\<in>set fx. effect_tags f \<subseteq> {g}))"

lemma hydra_actorI:
  assumes t: "\<And>v e s. tagged gen (if e = restart then gen s + 1 else gen s) (handle v e s)"
  shows "hydra_actor gen handle restart"
proof
  fix v e s s' fx r g e' d
  assume h: "handle v e s = (s', fx, r)"
  from t [where v = v and e = e and s = s] h
  have g: "gen s' = (if e = restart then gen s + 1 else gen s)"
    and f: "\<And>f. f \<in> set fx \<Longrightarrow> effect_tags f \<subseteq> {gen s'}"
    by (auto simp: tagged_def)
  show "Send_Delayed g e' d \<in> set fx \<Longrightarrow> g = gen s'" using f by fastforce
  show "Start_Watchdog g \<in> set fx \<Longrightarrow> g = gen s'" using f by fastforce
  show "e \<noteq> restart \<Longrightarrow> gen s' = gen s" using g by simp
next
  fix v s s' fx r
  assume "handle v restart s = (s', fx, r)"
  with t [where v = v and e = restart and s = s] show "gen s' = gen s + 1"
    by (simp add: tagged_def)
qed

text \<open>A handled result that continues a sequence: an error, or an effect that emits one of \<open>P\<close>.\<close>

definition continues :: "('e \<Rightarrow> bool) \<Rightarrow> ('s, 'e, 'x) handled \<Rightarrow> bool" where
  "continues P h \<longleftrightarrow>
     (case h of (s, fx, Inl _) \<Rightarrow> True | (s, fx, Inr _) \<Rightarrow> (\<exists>f\<in>set fx. emits P f))"

lemma continues_done: "continues P (s, fx, Inr u) \<longleftrightarrow> (\<exists>f\<in>set fx. emits P f)"
  by (simp add: continues_def)

lemma continues_failed: "continues P (s, fx, Inl err)"
  by (simp add: continues_def)

end
