(* ===== verification/Hydra_Json.thy ===== *)
theory Hydra_Json
  imports Rust_Text Hydra_Actor
begin

text \<open>
  The \<open>serde_json::Value\<close>s the controllers read from a hydra-node, and the pure functions
  over them: the head status (\<open>fetch_head_tag\<close>, \<open>fetch_head_ready_to_fanout\<close>), the lovelace
  sums of \<open>common/src/cardano_keys.rs\<close> and the balance of an address in a snapshot
  (\<open>lovelace_in_snapshot_for_address\<close>). The HTTP request that yields a body is a parameter:
  each function takes the \<open>Result\<close> of the request.
\<close>

datatype json =
    JNull
  | JBool bool
  | JPosInt u64
  | JNegInt int
  | JFloat real
  | JStr string
  | JArr "json list"
  | JObj "(string \<times> json) list"

fun as_object :: "json \<Rightarrow> (string \<times> json) list option" where
  "as_object (JObj m) = Some m"
| "as_object _ = None"

fun as_array :: "json \<Rightarrow> json list option" where
  "as_array (JArr xs) = Some xs"
| "as_array _ = None"

fun as_str :: "json \<Rightarrow> string option" where
  "as_str (JStr s) = Some s"
| "as_str _ = None"

fun as_bool :: "json \<Rightarrow> bool option" where
  "as_bool (JBool b) = Some b"
| "as_bool _ = None"

fun as_u64 :: "json \<Rightarrow> u64 option" where
  "as_u64 (JPosInt n) = Some n"
| "as_u64 _ = None"

definition jget :: "string \<Rightarrow> json \<Rightarrow> json option" where
  "jget k v = Option.bind (as_object v) (\<lambda>m. map_of m k)"

text \<open>\<open>Value::pointer("/a/b")\<close> for keys that are not array indices.\<close>

definition jpointer :: "string \<Rightarrow> string \<Rightarrow> json \<Rightarrow> json option" where
  "jpointer a b v = Option.bind (jget a v) (jget b)"

section \<open>The head status\<close>

definition fetch_head_tag :: "json hres \<Rightarrow> string hres" where
  "fetch_head_tag r =
     (case r of Inl e \<Rightarrow> Inl e
      | Inr v \<Rightarrow>
          (case jget ''tag'' v of
             None \<Rightarrow> Inl (Bail ''missing tag'')
           | Some a \<Rightarrow>
               (case as_str a of
                  None \<Rightarrow> Inl (Bail ''tag is not a string'')
                | Some t \<Rightarrow> Inr t)))"

definition fetch_head_ready_to_fanout :: "json hres \<Rightarrow> bool hres" where
  "fetch_head_ready_to_fanout r =
     (case r of Inl e \<Rightarrow> Inl e
      | Inr v \<Rightarrow>
          (let tag = (case Option.bind (jget ''tag'' v) as_str of None \<Rightarrow> [] | Some t \<Rightarrow> t);
               ready = (case Option.bind (jpointer ''contents'' ''readyToFanoutSent'' v) as_bool of
                          None \<Rightarrow> False | Some b \<Rightarrow> b)
           in Inr (tag = ''Closed'' \<and> ready)))"

text \<open>Whether one of the inputs is still a key of the snapshot; a body that is no object counts
  as confirmed.\<close>

definition still_present :: "string list \<Rightarrow> json \<Rightarrow> bool" where
  "still_present spent_inputs utxo =
     (case as_object utxo of
        Some m \<Rightarrow> (\<exists>i\<in>set spent_inputs. map_of m i \<noteq> None)
      | None \<Rightarrow> False)"

section \<open>Lovelace sums\<close>

definition json_as_u64 :: "json \<Rightarrow> u64 hres" where
  "json_as_u64 v =
     (case as_u64 v of
        Some n \<Rightarrow> Inr n
      | None \<Rightarrow>
          (case as_str v of
             Some s \<Rightarrow> (case parse_u64 s of Some n \<Rightarrow> Inr n
                        | None \<Rightarrow> Inl (Ext_Err ''ParseIntError''))
           | None \<Rightarrow> Inl (Bail ''value is neither u64 nor string'')))"

text \<open>What one UTxO entry of the object contributes, \<open>None\<close> where both shapes are absent.\<close>

definition utxo_entry_value :: "json \<Rightarrow> json option" where
  "utxo_entry_value utxo =
     (case Option.bind (Option.bind (jget ''value'' utxo) as_object) (\<lambda>m. map_of m ''lovelace'') of
        Some v \<Rightarrow> Some v
      | None \<Rightarrow>
          (case Option.bind (jget ''amount'' utxo) as_array of
             Some (v # _) \<Rightarrow> Some v
           | _ \<Rightarrow> None))"

fun sum_utxo_entries :: "u64 \<Rightarrow> (string \<times> json) list \<Rightarrow> u64 hres" where
  "sum_utxo_entries tot [] = Inr tot"
| "sum_utxo_entries tot ((txin, utxo) # rest) =
     (case utxo_entry_value utxo of
        None \<Rightarrow> sum_utxo_entries tot rest
      | Some v \<Rightarrow>
          (case json_as_u64 v of
             Inl e \<Rightarrow> Inl e
           | Inr n \<Rightarrow>
               (case checked_add_u64 tot n of
                  None \<Rightarrow> Inl (Bail ''lovelace sum overflow'')
                | Some tot' \<Rightarrow> sum_utxo_entries tot' rest)))"

definition sum_lovelace_from_utxo_json :: "json \<Rightarrow> u64 hres" where
  "sum_lovelace_from_utxo_json v =
     (case as_object v of
        None \<Rightarrow> Inl (Bail ''UTxO JSON root is not an object'')
      | Some m \<Rightarrow> sum_utxo_entries 0 m)"

definition lovelace_in_snapshot_for_address :: "json hres \<Rightarrow> string \<Rightarrow> u64 hres" where
  "lovelace_in_snapshot_for_address r address =
     (case r of Inl e \<Rightarrow> Inl e
      | Inr utxo \<Rightarrow>
          (case as_object utxo of
             None \<Rightarrow> Inl (Bail ''snapshot/utxo: expected top-level JSON object'')
           | Some m \<Rightarrow>
               sum_lovelace_from_utxo_json
                 (JObj (filter (\<lambda>(k, v). Option.bind (jget ''address'' v) as_str = Some address) m))))"

text \<open>
  The specification of the sum: over the entries whose value is readable, the exact sum as a
  natural number, whenever the checked additions do not fail.
\<close>

fun entries_total :: "(string \<times> json) list \<Rightarrow> nat option" where
  "entries_total [] = Some 0"
| "entries_total ((k, utxo) # rest) =
     (case utxo_entry_value utxo of
        None \<Rightarrow> entries_total rest
      | Some v \<Rightarrow>
          (case json_as_u64 v of
             Inl _ \<Rightarrow> None
           | Inr n \<Rightarrow> map_option (\<lambda>t. unat n + t) (entries_total rest)))"

lemma sum_utxo_entries_spec:
  "sum_utxo_entries tot m = Inr r \<longleftrightarrow>
     (\<exists>t. entries_total m = Some t \<and> unat tot + t < 2 ^ 64 \<and> unat r = unat tot + t)"
proof (induction m arbitrary: tot)
  case Nil
  have "unat tot < 2 ^ 64" by (rule unat_lt_2_64)
  then show ?case by (auto simp: word_unat_eq_iff)
next
  case (Cons p m)
  obtain k utxo where p: "p = (k, utxo)" by (cases p)
  show ?case
  proof (cases "utxo_entry_value utxo")
    case None
    with p Cons.IH show ?thesis by simp
  next
    case (Some v)
    show ?thesis
    proof (cases "json_as_u64 v")
      case (Inl e)
      with p Some show ?thesis by simp
    next
      case (Inr n)
      show ?thesis
      proof (cases "unat tot + unat n < 2 ^ 64")
        case True
        then have "checked_add_u64 tot n = Some (tot + n)" "unat (tot + n) = unat tot + unat n"
          by (simp_all add: checked_add_u64_def unat_add_no_wrap)
        with p Some Inr Cons.IH [of "tot + n"] show ?thesis
          by (auto simp: add.assoc)
      next
        case False
        with p Some Inr show ?thesis by (auto simp: checked_add_u64_def)
      qed
    qed
  qed
qed

section \<open>Properties\<close>

text \<open>The balance of an address in a snapshot is the exact sum of the lovelace of its entries;
  it is an error exactly when a value is unreadable or the sum does not fit into a \<open>u64\<close>.\<close>

theorem snapshot_balance_exact:
  "lovelace_in_snapshot_for_address (Inr (JObj m)) address = Inr r \<longleftrightarrow>
     (\<exists>t. entries_total (filter (\<lambda>(k, v). Option.bind (jget ''address'' v) as_str = Some address) m)
            = Some t \<and> t < 2 ^ 64 \<and> unat r = t)"
  by (simp add: lovelace_in_snapshot_for_address_def sum_lovelace_from_utxo_json_def
      sum_utxo_entries_spec)

text \<open>A UTxO entry of the shape \<open>{amount: [{unit, quantity}]}\<close> without a \<open>value\<close> makes the sum
  fail, although the comment on the function promises to handle that shape.\<close>

theorem amount_list_shape_rejected:
  "sum_lovelace_from_utxo_json
     (JObj [(txin, JObj [(''amount'', JArr (JObj [(''unit'', u), (''quantity'', q)] # rest))])])
   = Inl (Bail ''value is neither u64 nor string'')"
  by (simp add: sum_lovelace_from_utxo_json_def utxo_entry_value_def jget_def json_as_u64_def)

end
