(* ===== verification/Hydra_Config.thy ===== *)
theory Hydra_Config
  imports Hydra_Json
begin

text \<open>
  What the two gateway controllers share: the \<open>[hydra_*]\<close> section of the gateway's
  configuration (\<open>gateway/src/config.rs\<close>), the check \<open>HydrasManager::new\<close> makes of it,
  the constants, and the environment a handler runs in: the result of each external call it
  makes (HTTP to Blockfrost and to the hydra-node, files, processes), as one record, so that
  every error branch of a handler is reachable by choosing the environment.
\<close>

section \<open>Configuration\<close>

record hydra_toml =
  ht_cardano_signing_key :: string
  ht_max_concurrent_hydra_nodes :: u64
  ht_commit_ada :: real
  ht_lovelace_per_request :: u64
  ht_requests_per_microtransaction :: u64
  ht_microtransactions_per_fanout :: u64

definition MIN_FUEL_LOVELACE :: u64 where "MIN_FUEL_LOVELACE = 15000000"
definition MIN_LOVELACE_PER_TRANSACTION :: u64 where "MIN_LOVELACE_PER_TRANSACTION = 840450"
definition L2_TX_POLL_INTERVAL :: nat where "L2_TX_POLL_INTERVAL = 1000"
definition L2_TX_MAX_POLL_ATTEMPTS :: u32 where "L2_TX_MAX_POLL_ATTEMPTS = 15"
definition L2_TX_MAX_RETRIES :: u32 where "L2_TX_MAX_RETRIES = 3"
definition CREDIT_POLL_INTERVAL :: nat where "CREDIT_POLL_INTERVAL = 1000"

text \<open>
  The validation at the start of \<open>HydrasManager::new\<close>; the products are computed in \<open>u128\<close>,
  the commit in \<open>f64\<close>.
\<close>

definition minimal_commit :: "(real \<Rightarrow> real) \<Rightarrow> hydra_toml \<Rightarrow> real" where
  "minimal_commit fl c =
     (let n = (ucast (ht_lovelace_per_request c) :: u128)
              * ucast (ht_requests_per_microtransaction c)
              * ucast (ht_microtransactions_per_fanout c)
              + ucast MIN_LOVELACE_PER_TRANSACTION
      in fl (fl (fl (101 / 100) * fl (real (unat n))) / 1000000))"

definition validate_toml :: "(real \<Rightarrow> real) \<Rightarrow> hydra_toml \<Rightarrow> unit hres" where
  "validate_toml fl c =
     (if ht_commit_ada c < minimal_commit fl c then
        Inl (Bail ''configured commit_ada is too small'')
      else
        let m = (ucast (ht_lovelace_per_request c) :: u128)
                * ucast (ht_requests_per_microtransaction c)
        in if m < ucast MIN_LOVELACE_PER_TRANSACTION then
             Inl (Bail ''each microtransaction is too small'')
           else Inr ())"

section \<open>The environment of a handler\<close>

record hydra_env =
  he_fl :: "real \<Rightarrow> real"
  he_lovelace_on_addr :: "string \<Rightarrow> u64 hres"
  he_skey_exists :: "bool hres"
  he_new_keypair :: "unit hres"
  he_derive_address :: "string \<Rightarrow> string hres"
  he_fund_address :: "unit hres"
  he_peers_metric :: "bool hres"
  he_ws_send :: "unit hres"
  he_head :: "json hres"
  he_commit :: "unit hres"
  he_send_tx :: "string list hres"
  he_snapshot :: "json hres"
  he_free_port1 :: "u16 hres"
  he_free_port2 :: "u16 hres"
  he_write_params :: "unit hres"
  he_write_hydra_vk :: "unit hres"
  he_write_cardano_vk :: "unit hres"
  he_write_project_id :: "unit hres"
  he_spawn :: "u32 option hres"

datatype hydra_call =
    Kill_Group u32
  | Spawn_Node "string list" "u32 option"
  | New_Keypair string
  | Fund_Address string string u64
  | Ws_Send u16 string
  | Commit_All string u16
  | Empty_Commit u16
  | Send_Tx string u64

text \<open>An environment in which every call succeeds, for concrete runs.\<close>

definition calm_env :: hydra_env where
  "calm_env =
     \<lparr>he_fl = id, he_lovelace_on_addr = (\<lambda>_. Inr 1000000000), he_skey_exists = Inr True,
      he_new_keypair = Inr (), he_derive_address = (\<lambda>_. Inr ''addr''),
      he_fund_address = Inr (), he_peers_metric = Inr True, he_ws_send = Inr (),
      he_head = Inr (JObj [(''tag'', JStr ''Open'')]), he_commit = Inr (),
      he_send_tx = Inr [''tx#0''], he_snapshot = Inr (JObj []),
      he_free_port1 = Inr 4001, he_free_port2 = Inr 4002, he_write_params = Inr (),
      he_write_hydra_vk = Inr (), he_write_cardano_vk = Inr (), he_write_project_id = Inr (),
      he_spawn = Inr (Some 77)\<rparr>"

lemma calm_env_simps [simp]:
  "he_fl calm_env = id" "he_lovelace_on_addr calm_env a = Inr 1000000000"
  "he_skey_exists calm_env = Inr True" "he_new_keypair calm_env = Inr ()"
  "he_derive_address calm_env p = Inr ''addr''" "he_fund_address calm_env = Inr ()"
  "he_peers_metric calm_env = Inr True" "he_ws_send calm_env = Inr ()"
  "he_head calm_env = Inr (JObj [(''tag'', JStr ''Open'')])"
  "he_commit calm_env = Inr ()" "he_send_tx calm_env = Inr [''tx#0'']"
  "he_snapshot calm_env = Inr (JObj [])" "he_free_port1 calm_env = Inr 4001"
  "he_free_port2 calm_env = Inr 4002" "he_write_params calm_env = Inr ()"
  "he_write_hydra_vk calm_env = Inr ()" "he_write_cardano_vk calm_env = Inr ()"
  "he_write_project_id calm_env = Inr ()" "he_spawn calm_env = Inr (Some 77)"
  by (simp_all add: calm_env_def)

lemma fetch_head_tag_open [simp]: "fetch_head_tag (Inr (JObj [(''tag'', JStr s)])) = Inr s"
  by (simp add: fetch_head_tag_def jget_def)

section \<open>What the validation gives\<close>

text \<open>
  The checks are exact in \<open>u128\<close>: a product of two \<open>u64\<close> values never wraps there.
\<close>

lemma unat_u128_prod2:
  fixes a b :: u64
  shows "unat ((ucast a :: u128) * ucast b) = unat a * unat b"
proof -
  have "unat a * unat b < 2 ^ 64 * 2 ^ 64"
    by (rule mult_strict_mono') (use unat_lt_2_64 in auto)
  also have "(2::nat) ^ 64 * 2 ^ 64 = 2 ^ 128" by (simp flip: power_add)
  finally show ?thesis
    by (simp add: unat_word_ariths unat_ucast_64_128)
qed

lemma validate_toml_micro:
  assumes "validate_toml fl c = Inr ()"
  shows "840450 \<le> unat (ht_lovelace_per_request c) * unat (ht_requests_per_microtransaction c)"
proof -
  let ?m = "(ucast (ht_lovelace_per_request c) :: u128) * ucast (ht_requests_per_microtransaction c)"
  have "\<not> ?m < ucast MIN_LOVELACE_PER_TRANSACTION"
    using assms by (auto simp: validate_toml_def Let_def split: if_splits)
  then have "unat (ucast MIN_LOVELACE_PER_TRANSACTION :: u128) \<le> unat ?m"
    by (simp add: word_le_nat_alt [symmetric])
  then show ?thesis by (simp add: unat_u128_prod2 MIN_LOVELACE_PER_TRANSACTION_def)
qed

text \<open>A concrete configuration.\<close>

definition gp_demo_toml :: hydra_toml where
  "gp_demo_toml = \<lparr>ht_cardano_signing_key = ''gw.sk'', ht_max_concurrent_hydra_nodes = 2,
     ht_commit_ada = 2, ht_lovelace_per_request = 840450, ht_requests_per_microtransaction = 1,
     ht_microtransactions_per_fanout = 1\<rparr>"

section \<open>Properties\<close>

text \<open>C7: A configuration that passes the validation commits enough for a whole cycle of full
  microtransactions plus the minimal output, whatever the rounding of the floating-point unit
  does within 0.1%, as long as the cycle fits into a \<open>u128\<close>; and every full microtransaction is
  at least the minimal output.\<close>

theorem validated_commit_covers_cycle:
  assumes "validate_toml fl c = Inr ()"
    and fl: "\<And>x. 1 / 2 \<le> x \<Longrightarrow> 999 / 1000 * x \<le> fl x"
    and fits: "unat (ht_lovelace_per_request c) * unat (ht_requests_per_microtransaction c) *
      unat (ht_microtransactions_per_fanout c) + 840450 < 2 ^ 128"
  shows "real (unat (ht_lovelace_per_request c) * unat (ht_requests_per_microtransaction c) *
      unat (ht_microtransactions_per_fanout c) + 840450) \<le> ht_commit_ada c * 1000000 \<and>
    840450 \<le> unat (ht_lovelace_per_request c) * unat (ht_requests_per_microtransaction c)"
proof
  let ?n = "unat (ht_lovelace_per_request c) * unat (ht_requests_per_microtransaction c) *
      unat (ht_microtransactions_per_fanout c) + 840450"
  let ?w = "(ucast (ht_lovelace_per_request c) :: u128) * ucast (ht_requests_per_microtransaction c)
      * ucast (ht_microtransactions_per_fanout c) + ucast MIN_LOVELACE_PER_TRANSACTION"
  have w: "unat ?w = ?n"
    using fits unat_u128_prod2 [of "ht_lovelace_per_request c" "ht_requests_per_microtransaction c"]
    by (simp add: unat_word_ariths unat_ucast_64_128 MIN_LOVELACE_PER_TRANSACTION_def mod_simps)
  have "minimal_commit fl c \<le> ht_commit_ada c"
    using assms(1) by (auto simp: validate_toml_def Let_def split: if_splits)
  then have m: "fl (fl (fl (101 / 100) * fl (real ?n)) / 1000000) \<le> ht_commit_ada c"
    unfolding minimal_commit_def Let_def w .
  define x where "x = real ?n"
  have "real 840450 \<le> real ?n" by (simp only: of_nat_le_iff le_add2)
  then have n: "840450 \<le> x" by (simp only: of_nat_numeral x_def)
  note m = m [folded x_def]
  have a: "1 \<le> fl (101 / 100)" "999 / 1000 * (101 / 100) \<le> fl (101 / 100)"
    using fl [of "101 / 100"] by simp_all
  have b: "999 / 1000 * x \<le> fl x" using fl [of x] n by simp
  have p: "999 / 1000 * (101 / 100) * (999 / 1000 * x) \<le> fl (101 / 100) * fl x"
    by (rule mult_mono) (use a b n in auto)
  have q: "999 / 1000 * (fl (101 / 100) * fl x) \<le> fl (fl (101 / 100) * fl x)"
    by (rule fl) (use p n in linarith)
  have r: "999 / 1000 * (fl (fl (101 / 100) * fl x) / 1000000)
      \<le> fl (fl (fl (101 / 100) * fl x) / 1000000)"
    by (rule fl) (use p q n in linarith)
  from p q r m n have "x \<le> ht_commit_ada c * 1000000" by linarith
  then show "real ?n \<le> ht_commit_ada c * 1000000" by (simp only: x_def)
qed (rule validate_toml_micro [OF assms(1)])

theorem validated_commit_covers_cycle_witness:
  "validate_toml id gp_demo_toml = Inr () \<and> (840450 * 1 * 1 + 840450 :: real) \<le> 2 * 1000000"
proof -
  have v: "validate_toml id gp_demo_toml = Inr ()"
    by (simp add: validate_toml_def minimal_commit_def gp_demo_toml_def Let_def
        MIN_LOVELACE_PER_TRANSACTION_def)
  from validated_commit_covers_cycle [OF v] have "real (840450 * 1 * 1 + 840450) \<le> 2 * 1000000"
    by (simp add: gp_demo_toml_def)
  with v show ?thesis by simp
qed

end
