(* ===== verification/Hydra_Platform_Server.thy ===== *)
theory Hydra_Platform_Server
  imports Hydra_Config
begin

text \<open>
  The gateway's Hydra controller for platforms
  (\<open>crates/gateway/src/hydra_server_platform/mod.rs\<close>): the state \<open>State\<close>, one definition per
  arm of \<open>process_event\<close>, \<open>start_hydra_node\<close>, and the \<open>HydrasManager\<close> with its key exchange.
  The event loop around the handlers is that of \<open>Hydra_Actor\<close>.
\<close>

section \<open>Data\<close>

record kex_request =
  kq_machine_id :: string
  kq_platform_cardano_vkey :: json
  kq_platform_hydra_vkey :: json
  kq_accepted_platform_h2h_port :: "u16 option"

record kex_response =
  kr_machine_id :: string
  kr_gateway_cardano_vkey :: json
  kr_gateway_hydra_vkey :: json
  kr_hydra_scripts_tx_id :: string
  kr_protocol_parameters :: json
  kr_contestation_secs :: nat
  kr_proposed_platform_h2h_port :: u16
  kr_gateway_h2h_port :: u16
  kr_kex_done :: bool

datatype gp_event =
    GP_Restart
  | GP_Terminate
  | GP_FundCommitAddr
  | GP_TryToInitHead
  | GP_WaitForInitial u64
  | GP_TryToCommit
  | GP_WaitForOpen
  | GP_AccountOneRequest
  | GP_WaitForL2Tx "string list" u32 u64 u32
  | GP_WaitForUtxoCount
  | GP_TryToClose
  | GP_WaitForClosed u64
  | GP_WaitForFanoutReady
  | GP_DoFanout
  | GP_WaitForIdleAfterClose u64

record gp_state =
  gp_toml :: hydra_toml
  gp_gateway_cardano_addr :: string
  gp_reward_addr :: string
  gp_config_dir :: string
  gp_kex_req :: kex_request
  gp_kex_resp :: kex_response
  gp_api_port :: u16
  gp_metrics_port :: u16
  gp_hydra_peers_connected :: bool
  gp_hydra_head_open :: bool
  gp_accounted_requests :: u64
  gp_sent_microtransactions :: u64
  gp_commit_wallet_skey :: string
  gp_commit_wallet_addr :: string
  gp_commit_fund_tx_sent :: bool
  gp_is_closing :: bool
  gp_awaiting_l2_confirmation :: bool
  gp_hydra_pid :: "u32 option"
  gp_hydra_watchdog :: bool
  gp_restart_gen :: u64

type_synonym gp_handled = "(gp_state, gp_event, hydra_call) handled"

text \<open>\<open>State::spawn\<close>: the initial state.\<close>

definition gp_init :: "hydra_toml \<Rightarrow> string \<Rightarrow> string \<Rightarrow> string \<Rightarrow> kex_request \<Rightarrow> kex_response \<Rightarrow> gp_state" where
  "gp_init toml gw_addr reward dir req resp =
     \<lparr>gp_toml = toml, gp_gateway_cardano_addr = gw_addr, gp_reward_addr = reward,
      gp_config_dir = dir, gp_kex_req = req, gp_kex_resp = resp,
      gp_api_port = 0, gp_metrics_port = 0,
      gp_hydra_peers_connected = False, gp_hydra_head_open = False,
      gp_accounted_requests = 0, gp_sent_microtransactions = 0,
      gp_commit_wallet_skey = [], gp_commit_wallet_addr = [],
      gp_commit_fund_tx_sent = False, gp_is_closing = False,
      gp_awaiting_l2_confirmation = False, gp_hydra_pid = None,
      gp_hydra_watchdog = False, gp_restart_gen = 0\<rparr>"

definition gp_send_delayed :: "gp_state \<Rightarrow> gp_event \<Rightarrow> nat \<Rightarrow> (gp_event, hydra_call) effect" where
  "gp_send_delayed s e ms = Send_Delayed (gp_restart_gen s) e ms"

section \<open>Running the hydra-node\<close>

definition gp_stop_hydra_node :: "gp_state \<Rightarrow> gp_state \<times> (gp_event, hydra_call) effect list" where
  "gp_stop_hydra_node s =
     (s\<lparr>gp_hydra_watchdog := False, gp_hydra_pid := None\<rparr>,
      (if gp_hydra_watchdog s then [Abort_Watchdog] else []) @
      (case gp_hydra_pid s of Some pid \<Rightarrow> [Do (Kill_Group pid)] | None \<Rightarrow> []))"

definition gp_hydra_node_args :: "gp_state \<Rightarrow> string list" where
  "gp_hydra_node_args s =
     [''--node-id'', ''gateway-node'',
      ''--persistence-dir'', gp_config_dir s @ ''/persistence'',
      ''--cardano-signing-key'', ht_cardano_signing_key (gp_toml s),
      ''--hydra-signing-key'', gp_config_dir s @ ''/hydra.sk'',
      ''--hydra-scripts-tx-id'', kr_hydra_scripts_tx_id (gp_kex_resp s),
      ''--ledger-protocol-parameters'', gp_config_dir s @ ''/protocol-parameters.json'',
      ''--contestation-period'', show_nat (kr_contestation_secs (gp_kex_resp s)) @ ''s'',
      ''--blockfrost'', gp_config_dir s @ ''/blockfrost-project-id'',
      ''--api-port'', show_u16 (gp_api_port s),
      ''--api-host'', ''127.0.0.1'',
      ''--listen'', ''127.0.0.1:'' @ show_u16 (kr_gateway_h2h_port (gp_kex_resp s)),
      ''--peer'', ''127.0.0.1:'' @ show_u16 (kr_proposed_platform_h2h_port (gp_kex_resp s)),
      ''--monitoring-port'', show_u16 (gp_metrics_port s),
      ''--hydra-verification-key'', gp_config_dir s @ ''/platform-hydra.vk'',
      ''--cardano-verification-key'', gp_config_dir s @ ''/platform-payment.vk'']"

definition gp_start_hydra_node :: "hydra_env \<Rightarrow> gp_state \<Rightarrow> gp_handled" where
  "gp_start_hydra_node v s0 =
     (let (s, fx) = gp_stop_hydra_node s0 in
      case he_free_port1 v of Inl e \<Rightarrow> hfail s fx e
      | Inr p1 \<Rightarrow>
        let s = s\<lparr>gp_api_port := p1\<rparr> in
        case he_free_port2 v of Inl e \<Rightarrow> hfail s fx e
        | Inr p2 \<Rightarrow>
          let s = s\<lparr>gp_metrics_port := p2\<rparr> in
          case he_write_params v of Inl e \<Rightarrow> hfail s fx e
          | Inr _ \<Rightarrow>
            case he_write_hydra_vk v of Inl e \<Rightarrow> hfail s fx e
            | Inr _ \<Rightarrow>
              case he_write_cardano_vk v of Inl e \<Rightarrow> hfail s fx e
              | Inr _ \<Rightarrow>
                case he_write_project_id v of Inl e \<Rightarrow> hfail s fx e
                | Inr _ \<Rightarrow>
                  case he_spawn v of Inl e \<Rightarrow> hfail s fx e
                  | Inr pid \<Rightarrow>
                    hdone (s\<lparr>gp_hydra_pid := pid, gp_hydra_watchdog := True\<rparr>)
                      (fx @ [Do (Spawn_Node (gp_hydra_node_args s) pid),
                             Start_Watchdog (gp_restart_gen s)]))"

section \<open>The handlers\<close>

definition gp_on_restart :: "hydra_env \<Rightarrow> gp_state \<Rightarrow> gp_handled" where
  "gp_on_restart v s0 =
     (let s = s0\<lparr>gp_restart_gen := gp_restart_gen s0 + 1,
                 gp_hydra_head_open := False,
                 gp_hydra_peers_connected := False,
                 gp_is_closing := False,
                 gp_awaiting_l2_confirmation := False,
                 gp_sent_microtransactions := 0,
                 gp_accounted_requests := 0\<rparr>
      in case gp_start_hydra_node v s of
           (s', fx, Inl e) \<Rightarrow> hfail s' fx e
         | (s', fx, Inr _) \<Rightarrow> hdone s' (fx @ [gp_send_delayed s' GP_FundCommitAddr 1000]))"

definition gp_on_terminate :: "gp_state \<Rightarrow> gp_handled" where
  "gp_on_terminate s = (let (s', fx) = gp_stop_hydra_node s in hdone s' fx)"

definition target_lovelace :: "hydra_env \<Rightarrow> hydra_toml \<Rightarrow> u64" where
  "target_lovelace v c = u64_saturate (f64_round (he_fl v (ht_commit_ada c * 1000000)))"

definition gp_on_fund_commit_addr :: "hydra_env \<Rightarrow> gp_state \<Rightarrow> gp_handled" where
  "gp_on_fund_commit_addr v s0 =
     (case he_lovelace_on_addr v (gp_gateway_cardano_addr s0) of Inl e \<Rightarrow> hfail s0 [] e
      | Inr fuel \<Rightarrow>
        if fuel = 0 then hdone s0 [gp_send_delayed s0 GP_FundCommitAddr 5000]
        else
          let commit_wallet = gp_config_dir s0 @ ''/commit-funds'';
              s = s0\<lparr>gp_commit_wallet_skey := commit_wallet @ ''.sk''\<rparr> in
          case he_skey_exists v of Inl e \<Rightarrow> hfail s [] e
          | Inr ex \<Rightarrow>
            let fx1 = (if ex then [] else [Do (New_Keypair commit_wallet)]) in
            case (if ex then Inr () else he_new_keypair v) of Inl e \<Rightarrow> hfail s fx1 e
            | Inr _ \<Rightarrow>
              case he_derive_address v (gp_commit_wallet_skey s) of Inl e \<Rightarrow> hfail s fx1 e
              | Inr addr \<Rightarrow>
                let s = s\<lparr>gp_commit_wallet_addr := addr\<rparr>;
                    tgt = target_lovelace v (gp_toml s) in
                case he_lovelace_on_addr v addr of Inl e \<Rightarrow> hfail s fx1 e
                | Inr cur \<Rightarrow>
                  if cur < tgt then
                    if gp_commit_fund_tx_sent s then
                      hdone s (fx1 @ [gp_send_delayed s GP_FundCommitAddr 5000])
                    else
                      let top_up = max (tgt - cur) MIN_LOVELACE_PER_TRANSACTION;
                          fx2 = fx1 @ [Do (Fund_Address (gp_gateway_cardano_addr s) addr top_up)] in
                      case he_fund_address v of Inl e \<Rightarrow> hfail s fx2 e
                      | Inr _ \<Rightarrow>
                        let s = s\<lparr>gp_commit_fund_tx_sent := True\<rparr> in
                        hdone s (fx2 @ [gp_send_delayed s GP_FundCommitAddr 5000])
                  else
                    let s = s\<lparr>gp_commit_fund_tx_sent := False\<rparr> in
                    hdone s (fx1 @ [gp_send_delayed s GP_TryToInitHead 1000]))"

definition gp_on_try_to_init_head :: "hydra_env \<Rightarrow> gp_state \<Rightarrow> gp_handled" where
  "gp_on_try_to_init_head v s0 =
     (if he_peers_metric v = Inr True then
        let s = s0\<lparr>gp_hydra_peers_connected := True\<rparr>;
            fx = [Do (Ws_Send (gp_api_port s) ''Init'')] in
        case he_ws_send v of Inl e \<Rightarrow> hfail s fx e
        | Inr _ \<Rightarrow> hdone s (fx @ [gp_send_delayed s (GP_WaitForInitial 10) 3000])
      else hdone s0 [gp_send_delayed s0 GP_TryToInitHead 1000])"

definition gp_on_wait_for_initial :: "hydra_env \<Rightarrow> u64 \<Rightarrow> gp_state \<Rightarrow> gp_handled" where
  "gp_on_wait_for_initial v retries s =
     (case fetch_head_tag (he_head v) of Inl e \<Rightarrow> hfail s [] e
      | Inr status \<Rightarrow>
        if status = ''Initial'' then hdone s [gp_send_delayed s GP_TryToCommit 1000]
        else if status = ''Open'' then hdone s [gp_send_delayed s GP_WaitForOpen 1000]
        else if retries \<le> 1 then hdone s [gp_send_delayed s GP_TryToInitHead 1000]
        else hdone s [gp_send_delayed s (GP_WaitForInitial (retries - 1)) 3000])"

definition lovelace_needed :: "hydra_env \<Rightarrow> real \<Rightarrow> real" where
  "lovelace_needed v ada = he_fl v (he_fl v (he_fl v (99 / 100) * ada) * 1000000)"

definition gp_on_try_to_commit :: "hydra_env \<Rightarrow> gp_state \<Rightarrow> gp_handled" where
  "gp_on_try_to_commit v s =
     (case he_lovelace_on_addr v (gp_commit_wallet_addr s) of Inl e \<Rightarrow> hfail s [] e
      | Inr have_lovelace \<Rightarrow>
        if lovelace_needed v (ht_commit_ada (gp_toml s)) \<le> f64_of_u64 (he_fl v) have_lovelace then
          let fx = [Do (Commit_All (gp_commit_wallet_addr s) (gp_api_port s))] in
          case he_commit v of
            Inr _ \<Rightarrow> hdone s (fx @ [gp_send_delayed s GP_WaitForOpen 3000])
          | Inl _ \<Rightarrow> hdone s (fx @ [gp_send_delayed s GP_TryToCommit 30000])
        else hdone s [gp_send_delayed s GP_TryToCommit 3000])"

definition gp_on_wait_for_open :: "hydra_env \<Rightarrow> gp_state \<Rightarrow> gp_handled" where
  "gp_on_wait_for_open v s =
     (case fetch_head_tag (he_head v) of Inl e \<Rightarrow> hfail s [] e
      | Inr status \<Rightarrow>
        if status = ''Open'' then hdone (s\<lparr>gp_hydra_head_open := True\<rparr>) []
        else hdone s [gp_send_delayed s GP_WaitForOpen 3000])"

definition gp_on_account_one_request :: "hydra_env \<Rightarrow> gp_state \<Rightarrow> gp_handled" where
  "gp_on_account_one_request v s0 =
     (if gp_awaiting_l2_confirmation s0 then
        hdone s0 [gp_send_delayed s0 GP_AccountOneRequest 1000]
      else
        let s = s0\<lparr>gp_accounted_requests := gp_accounted_requests s0 + 1\<rparr> in
        if ht_requests_per_microtransaction (gp_toml s) \<le> gp_accounted_requests s then
          if gp_is_closing s then hdone s []
          else if gp_hydra_head_open s then
            let amount = gp_accounted_requests s * ht_lovelace_per_request (gp_toml s);
                fx = [Do (Send_Tx (gp_reward_addr s) amount)] in
            case he_send_tx v of Inl e \<Rightarrow> hfail s fx e
            | Inr spent_inputs \<Rightarrow>
              let s = s\<lparr>gp_accounted_requests := 0,
                        gp_sent_microtransactions := gp_sent_microtransactions s + 1,
                        gp_awaiting_l2_confirmation := True\<rparr>;
                  fx = fx @ [Send (GP_WaitForL2Tx spent_inputs 0 amount L2_TX_MAX_RETRIES)] in
              if ht_microtransactions_per_fanout (gp_toml s) \<le> gp_sent_microtransactions s then
                let s = s\<lparr>gp_is_closing := True\<rparr> in
                hdone s (fx @ [gp_send_delayed s GP_WaitForUtxoCount 3000])
              else hdone s fx
          else hdone s []
        else hdone s [])"

definition gp_on_wait_for_l2_tx ::
  "hydra_env \<Rightarrow> string list \<Rightarrow> u32 \<Rightarrow> u64 \<Rightarrow> u32 \<Rightarrow> gp_state \<Rightarrow> gp_handled" where
  "gp_on_wait_for_l2_tx v spent_inputs attempts amount retries_left s =
     (case he_snapshot v of Inl e \<Rightarrow> hfail s [] e
      | Inr utxo \<Rightarrow>
        if \<not> still_present spent_inputs utxo then
          hdone (s\<lparr>gp_awaiting_l2_confirmation := False\<rparr>) []
        else if L2_TX_MAX_POLL_ATTEMPTS \<le> attempts then
          if 0 < retries_left then
            let fx = [Do (Send_Tx (gp_reward_addr s) amount)] in
            case he_send_tx v of Inl e \<Rightarrow> hfail s fx e
            | Inr new_inputs \<Rightarrow>
              hdone s (fx @ [Send (GP_WaitForL2Tx new_inputs 0 amount (retries_left - 1))])
          else hdone (s\<lparr>gp_awaiting_l2_confirmation := False\<rparr>) []
        else
          hdone s [gp_send_delayed s
            (GP_WaitForL2Tx spent_inputs (attempts + 1) amount retries_left) L2_TX_POLL_INTERVAL])"

definition hydra_utxo_count :: "json hres \<Rightarrow> u64 hres" where
  "hydra_utxo_count r =
     (case r of Inl e \<Rightarrow> Inl e
      | Inr v \<Rightarrow>
          (case as_object v of
             None \<Rightarrow> Inl (Bail ''snapshot/utxo: expected top-level JSON object'')
           | Some m \<Rightarrow> if length m < 2 ^ 64 then Inr (of_nat (length m))
                       else Inl (Bail ''utxo length does not fit into u64 (?)'')))"

definition gp_on_wait_for_utxo_count :: "hydra_env \<Rightarrow> gp_state \<Rightarrow> gp_handled" where
  "gp_on_wait_for_utxo_count v s =
     (let expected = 1 + gp_sent_microtransactions s in
      case hydra_utxo_count (he_snapshot v) of Inl e \<Rightarrow> hfail s [] e
      | Inr cur \<Rightarrow>
        if expected \<le> cur then hdone s [gp_send_delayed s GP_TryToClose 1000]
        else hdone s [gp_send_delayed s GP_WaitForUtxoCount 3000])"

definition gp_on_try_to_close :: "hydra_env \<Rightarrow> gp_state \<Rightarrow> gp_handled" where
  "gp_on_try_to_close v s =
     (let fx = [Do (Ws_Send (gp_api_port s) ''Close'')] in
      case he_ws_send v of Inl e \<Rightarrow> hfail s fx e
      | Inr _ \<Rightarrow> hdone s (fx @ [gp_send_delayed s (GP_WaitForClosed 10) 3000]))"

definition gp_on_wait_for_closed :: "hydra_env \<Rightarrow> u64 \<Rightarrow> gp_state \<Rightarrow> gp_handled" where
  "gp_on_wait_for_closed v retries s =
     (case fetch_head_tag (he_head v) of Inl e \<Rightarrow> hfail s [] e
      | Inr status \<Rightarrow>
        if status = ''Closed'' then hdone s [gp_send_delayed s GP_WaitForFanoutReady 3000]
        else hdone s [gp_send_delayed s
          (if retries \<le> 1 then GP_TryToClose else GP_WaitForClosed (retries - 1)) 3000])"

definition gp_on_wait_for_fanout_ready :: "hydra_env \<Rightarrow> gp_state \<Rightarrow> gp_handled" where
  "gp_on_wait_for_fanout_ready v s =
     (case fetch_head_ready_to_fanout (he_head v) of Inl e \<Rightarrow> hfail s [] e
      | Inr ready \<Rightarrow>
        if ready then hdone s [gp_send_delayed s GP_DoFanout 1000]
        else hdone s [gp_send_delayed s GP_WaitForFanoutReady 3000])"

definition gp_on_do_fanout :: "hydra_env \<Rightarrow> gp_state \<Rightarrow> gp_handled" where
  "gp_on_do_fanout v s =
     (let fx = [Do (Ws_Send (gp_api_port s) ''Fanout'')] in
      case he_ws_send v of Inl e \<Rightarrow> hfail s fx e
      | Inr _ \<Rightarrow> hdone s (fx @ [gp_send_delayed s (GP_WaitForIdleAfterClose 10) 3000]))"

definition gp_on_wait_for_idle :: "hydra_env \<Rightarrow> u64 \<Rightarrow> gp_state \<Rightarrow> gp_handled" where
  "gp_on_wait_for_idle v retries s0 =
     (case fetch_head_tag (he_head v) of Inl e \<Rightarrow> hfail s0 [] e
      | Inr status \<Rightarrow>
        if status = ''Idle'' then
          let s = s0\<lparr>gp_hydra_head_open := False,
                     gp_is_closing := False,
                     gp_awaiting_l2_confirmation := False,
                     gp_sent_microtransactions := 0,
                     gp_accounted_requests := 0\<rparr> in
          hdone s [gp_send_delayed s GP_FundCommitAddr 3000]
        else if retries \<le> 1 then hdone s0 [gp_send_delayed s0 GP_DoFanout 1000]
        else hdone s0 [gp_send_delayed s0 (GP_WaitForIdleAfterClose (retries - 1)) 3000])"

fun gp_process_event :: "hydra_env \<Rightarrow> gp_event \<Rightarrow> gp_state \<Rightarrow> gp_handled" where
  "gp_process_event v GP_Restart s = gp_on_restart v s"
| "gp_process_event v GP_Terminate s = gp_on_terminate s"
| "gp_process_event v GP_FundCommitAddr s = gp_on_fund_commit_addr v s"
| "gp_process_event v GP_TryToInitHead s = gp_on_try_to_init_head v s"
| "gp_process_event v (GP_WaitForInitial n) s = gp_on_wait_for_initial v n s"
| "gp_process_event v GP_TryToCommit s = gp_on_try_to_commit v s"
| "gp_process_event v GP_WaitForOpen s = gp_on_wait_for_open v s"
| "gp_process_event v GP_AccountOneRequest s = gp_on_account_one_request v s"
| "gp_process_event v (GP_WaitForL2Tx i a m r) s = gp_on_wait_for_l2_tx v i a m r s"
| "gp_process_event v GP_WaitForUtxoCount s = gp_on_wait_for_utxo_count v s"
| "gp_process_event v GP_TryToClose s = gp_on_try_to_close v s"
| "gp_process_event v (GP_WaitForClosed n) s = gp_on_wait_for_closed v n s"
| "gp_process_event v GP_WaitForFanoutReady s = gp_on_wait_for_fanout_ready v s"
| "gp_process_event v GP_DoFanout s = gp_on_do_fanout v s"
| "gp_process_event v (GP_WaitForIdleAfterClose n) s = gp_on_wait_for_idle v n s"

definition gp_is_terminate :: "gp_event \<Rightarrow> bool" where
  "gp_is_terminate e \<longleftrightarrow> e = GP_Terminate"

lemmas gp_handler_defs =
  gp_on_restart_def gp_on_terminate_def gp_on_fund_commit_addr_def gp_on_try_to_init_head_def
  gp_on_wait_for_initial_def gp_on_try_to_commit_def gp_on_wait_for_open_def
  gp_on_account_one_request_def gp_on_wait_for_l2_tx_def gp_on_wait_for_utxo_count_def
  gp_on_try_to_close_def gp_on_wait_for_closed_def gp_on_wait_for_fanout_ready_def
  gp_on_do_fanout_def gp_on_wait_for_idle_def

section \<open>The handlers keep the promises of the actor interface\<close>

lemma gp_start_hydra_node_tagged: "tagged gp_restart_gen (gp_restart_gen s) (gp_start_hydra_node v s)"
  by (auto simp: gp_start_hydra_node_def gp_stop_hydra_node_def tagged_def Let_def
      split: sum.splits option.splits)

lemma gp_process_event_tagged:
  "tagged gp_restart_gen (if e = GP_Restart then gp_restart_gen s + 1 else gp_restart_gen s)
     (gp_process_event v e s)"
proof (cases e)
  case GP_Restart
  let ?s = "s\<lparr>gp_restart_gen := gp_restart_gen s + 1, gp_hydra_head_open := False,
    gp_hydra_peers_connected := False, gp_is_closing := False,
    gp_awaiting_l2_confirmation := False, gp_sent_microtransactions := 0,
    gp_accounted_requests := 0\<rparr>"
  from gp_start_hydra_node_tagged [of ?s v] show ?thesis
    by (simp add: GP_Restart gp_on_restart_def tagged_def gp_send_delayed_def Let_def
        split: prod.splits sum.splits)
qed (auto simp: gp_handler_defs gp_stop_hydra_node_def tagged_def gp_send_delayed_def
      Let_def split: sum.splits option.splits)

interpretation gp: hydra_actor gp_restart_gen gp_process_event GP_Restart gp_is_terminate
  by (rule hydra_actorI) (rule gp_process_event_tagged)

end
