(* ===== verification/Hydras_Manager.thy ===== *)
theory Hydras_Manager
  imports Hydra_Platform_Server
begin

text \<open>
  \<open>HydrasManager\<close> of \<open>crates/gateway/src/hydra_server_platform/mod.rs\<close>: the two rounds of the
  key exchange with a platform, and the limit on concurrent controllers, which the code keeps
  in the strong count of an \<open>Arc\<close>. A call of \<open>spawn_new\<close> clones the \<open>Arc\<close> first and compares
  afterwards; calls run concurrently, so the counter is a transition system whose labels
  interleave the steps of any number of calls with clones and drops of the controllers.
\<close>

section \<open>The key exchange\<close>

record hydra_config =
  hc_toml :: hydra_toml
  hc_gateway_cardano_vkey :: json
  hc_gateway_cardano_addr :: string
  hc_protocol_parameters :: json
  hc_hydra_scripts_tx_id :: string

text \<open>The results of the external calls of the two rounds.\<close>

record kex_env =
  ke_fl :: "real \<Rightarrow> real"
  ke_lovelace_on_addr :: "string \<Rightarrow> u64 hres"
  ke_config_dir :: "string hres"
  ke_gen_hydra_keys :: "unit hres"
  ke_this_host :: string
  ke_read_hydra_vk :: "json hres"
  ke_free_port1 :: "u16 hres"
  ke_free_port2 :: "u16 hres"
  ke_port_free :: "u16 \<Rightarrow> bool hres"

definition CONTESTATION_PERIOD_SECONDS :: nat where "CONTESTATION_PERIOD_SECONDS = 60"

text \<open>The parameter \<open>strong\<close> is \<open>Arc::strong_count\<close> at the moment of the call.\<close>

definition initialize_key_exchange ::
  "kex_env \<Rightarrow> hydra_config \<Rightarrow> nat \<Rightarrow> kex_request \<Rightarrow> kex_response hres" where
  "initialize_key_exchange v c strong req =
     (if kq_accepted_platform_h2h_port req \<noteq> None then
        Inl (Bail ''accepted_platform_h2h_port must not be set in initialize_key_exchange'')
      else
        let cur_count = strong - 1 in
        if unat (ht_max_concurrent_hydra_nodes (hc_toml c)) \<le> cur_count then
          Inl (Bail ''Too many concurrent hydra-nodes already running'')
        else case ke_lovelace_on_addr v (hc_gateway_cardano_addr c) of Inl e \<Rightarrow> Inl e
        | Inr l \<Rightarrow>
          let have_funds = ke_fl v (f64_of_u64 (ke_fl v) l / 1000000);
              required = ke_fl v (ht_commit_ada (hc_toml c) +
                           ke_fl v (f64_of_u64 (ke_fl v) MIN_FUEL_LOVELACE / 1000000))
          in if have_funds < required then Inl (Bail ''too little ADA on the enterprise address'')
          else case ke_config_dir v of Inl e \<Rightarrow> Inl e
          | Inr _ \<Rightarrow>
            case ke_gen_hydra_keys v of Inl e \<Rightarrow> Inl e
            | Inr _ \<Rightarrow>
              case ke_read_hydra_vk v of Inl e \<Rightarrow> Inl e
              | Inr vk \<Rightarrow>
                case ke_free_port1 v of Inl e \<Rightarrow> Inl e
                | Inr p1 \<Rightarrow>
                  case ke_free_port2 v of Inl e \<Rightarrow> Inl e
                  | Inr p2 \<Rightarrow>
                    Inr \<lparr>kr_machine_id = ke_this_host v,
                         kr_gateway_cardano_vkey = hc_gateway_cardano_vkey c,
                         kr_gateway_hydra_vkey = vk,
                         kr_hydra_scripts_tx_id = hc_hydra_scripts_tx_id c,
                         kr_protocol_parameters = hc_protocol_parameters c,
                         kr_contestation_secs = CONTESTATION_PERIOD_SECONDS,
                         kr_proposed_platform_h2h_port = p1,
                         kr_gateway_h2h_port = p2,
                         kr_kex_done = False\<rparr>)"

text \<open>
  \<open>spawn_new\<close>, seen from one call: \<open>strong\<close> is the strong count right after its own clone.
  The result is what the controller is spawned with.
\<close>

definition spawn_new ::
  "kex_env \<Rightarrow> hydra_config \<Rightarrow> nat \<Rightarrow> kex_request \<times> kex_response \<Rightarrow> kex_request \<Rightarrow>
   (kex_request \<times> kex_response) hres" where
  "spawn_new v c strong initial final_req =
     (if fst initial \<noteq> final_req\<lparr>kq_accepted_platform_h2h_port := None\<rparr> then
        Inl (Bail ''The 2nd KeyExchangeRequest must be the same as the 1st one.'')
      else if kq_accepted_platform_h2h_port final_req
                \<noteq> Some (kr_proposed_platform_h2h_port (snd initial)) then
        Inl (Bail ''The Platform must accept the same port that was proposed to it.'')
      else if unat (ht_max_concurrent_hydra_nodes (hc_toml c)) < strong - 1 then
        Inl (Bail ''Too many concurrent hydra-nodes already running'')
      else if \<not> (ke_port_free v (kr_gateway_h2h_port (snd initial)) = Inr True \<and>
                 ke_port_free v (kr_proposed_platform_h2h_port (snd initial)) = Inr True) then
        Inl (Bail ''The exchanged ports are no longer free on the gateway'')
      else case ke_config_dir v of Inl e \<Rightarrow> Inl e
      | Inr _ \<Rightarrow> Inr (final_req, (snd initial)\<lparr>kr_kex_done := True\<rparr>))"

section \<open>The limit on concurrent controllers\<close>

text \<open>
  \<open>hm_checking\<close> calls of \<open>spawn_new\<close> hold a clone and have not compared yet, \<open>hm_starting\<close> calls
  have passed the comparison; \<open>hm_nodes\<close> holds, for each controller ever spawned, the number
  of its live handles (\<open>HydraController\<close> is \<open>Clone\<close>, and each handle holds an \<open>Arc\<close>).
\<close>

record hydras_manager =
  hm_max :: u64
  hm_checking :: nat
  hm_starting :: nat
  hm_nodes :: "nat list"

datatype hm_label =
    HM_Clone
  | HM_Check
  | HM_Abandon
  | HM_Spawn
  | HM_Handle_Clone nat
  | HM_Handle_Drop nat

definition hm_strong :: "hydras_manager \<Rightarrow> nat" where
  "hm_strong m = 1 + hm_checking m + hm_starting m + sum_list (hm_nodes m)"

definition hm_new :: "u64 \<Rightarrow> hydras_manager" where
  "hm_new k = \<lparr>hm_max = k, hm_checking = 0, hm_starting = 0, hm_nodes = []\<rparr>"

fun hm_exec :: "hm_label \<Rightarrow> hydras_manager \<Rightarrow> hydras_manager option" where
  "hm_exec HM_Clone m = Some (m\<lparr>hm_checking := Suc (hm_checking m)\<rparr>)"
| "hm_exec HM_Check m =
     (if hm_checking m = 0 then None
      else if unat (hm_max m) < hm_strong m - 1 then
        Some (m\<lparr>hm_checking := hm_checking m - 1\<rparr>)
      else Some (m\<lparr>hm_checking := hm_checking m - 1, hm_starting := Suc (hm_starting m)\<rparr>))"
| "hm_exec HM_Abandon m =
     (if hm_starting m = 0 then None else Some (m\<lparr>hm_starting := hm_starting m - 1\<rparr>))"
| "hm_exec HM_Spawn m =
     (if hm_starting m = 0 then None
      else Some (m\<lparr>hm_starting := hm_starting m - 1, hm_nodes := hm_nodes m @ [1]\<rparr>))"
| "hm_exec (HM_Handle_Clone i) m =
     (if i < length (hm_nodes m) \<and> 0 < hm_nodes m ! i then
        Some (m\<lparr>hm_nodes := (hm_nodes m)[i := Suc (hm_nodes m ! i)]\<rparr>)
      else None)"
| "hm_exec (HM_Handle_Drop i) m =
     (if i < length (hm_nodes m) \<and> 0 < hm_nodes m ! i then
        Some (m\<lparr>hm_nodes := (hm_nodes m)[i := hm_nodes m ! i - 1]\<rparr>)
      else None)"

fun hm_run :: "hm_label list \<Rightarrow> hydras_manager \<Rightarrow> hydras_manager option" where
  "hm_run [] m = Some m"
| "hm_run (l # ls) m = Option.bind (hm_exec l m) (hm_run ls)"

definition live_controllers :: "nat list \<Rightarrow> nat" where
  "live_controllers ns = length (filter (\<lambda>n. 0 < n) ns)"

definition hm_ok :: "hydras_manager \<Rightarrow> bool" where
  "hm_ok m \<longleftrightarrow> hm_starting m + live_controllers (hm_nodes m) \<le> unat (hm_max m)"

lemma live_le_sum: "live_controllers ns \<le> sum_list ns"
  by (induction ns) (auto simp: live_controllers_def)

lemma live_append: "live_controllers (xs @ ys) = live_controllers xs + live_controllers ys"
  by (simp add: live_controllers_def)

lemma live_one: "live_controllers [n] = (if 0 < n then 1 else 0)"
  by (simp add: live_controllers_def)

lemma live_update:
  assumes "i < length ns" and "0 < ns ! i"
  shows "live_controllers (ns[i := k]) \<le> live_controllers ns"
proof -
  have "ns = take i ns @ ns ! i # drop (Suc i) ns" using assms(1) by (rule id_take_nth_drop)
  moreover have "ns[i := k] = take i ns @ k # drop (Suc i) ns"
    using assms(1) by (rule upd_conv_take_nth_drop)
  ultimately show ?thesis using assms(2)
    by (metis (no_types, lifting) live_append live_controllers_def filter.simps length_Cons
        add_le_mono order_refl le_Suc_eq)
qed

lemma hm_exec_ok: "hm_exec l m = Some m' \<Longrightarrow> hm_ok m \<Longrightarrow> hm_ok m' \<and> hm_max m' = hm_max m"
  using live_le_sum [of "hm_nodes m"]
  by (cases l)
    (auto simp: hm_ok_def hm_strong_def live_append live_one split: if_splits
      intro: order_trans [OF add_left_mono [OF live_update]])

lemma hm_run_ok: "hm_run ls m = Some m' \<Longrightarrow> hm_ok m \<Longrightarrow> hm_ok m' \<and> hm_max m' = hm_max m"
proof (induction ls arbitrary: m)
  case (Cons l ls)
  then obtain k where "hm_exec l m = Some k" "hm_run ls k = Some m'"
    by (auto simp: bind_eq_Some_conv)
  with hm_exec_ok Cons show ?case by metis
qed simp

lemma hm_new_ok: "hm_ok (hm_new k) \<and> hm_max (hm_new k) = k"
  by (simp add: hm_ok_def hm_new_def live_controllers_def)

lemma spawn_new_ok_iff:
  "(\<exists>r. spawn_new v c strong (req, resp) final = Inr r) \<longleftrightarrow>
     req = final\<lparr>kq_accepted_platform_h2h_port := None\<rparr> \<and>
     kq_accepted_platform_h2h_port final = Some (kr_proposed_platform_h2h_port resp) \<and>
     strong - 1 \<le> unat (ht_max_concurrent_hydra_nodes (hc_toml c)) \<and>
     ke_port_free v (kr_gateway_h2h_port resp) = Inr True \<and>
     ke_port_free v (kr_proposed_platform_h2h_port resp) = Inr True \<and>
     (\<exists>d. ke_config_dir v = Inr d)"
  by (auto simp: spawn_new_def split: sum.splits)

section \<open>Properties\<close>

text \<open>C5: However the calls of \<open>spawn_new\<close> and the clones and drops of the controllers interleave,
  the controllers with a live handle and those being spawned never exceed the configured limit.\<close>

theorem controllers_limited:
  assumes "hm_run ls (hm_new k) = Some m"
  shows "hm_starting m + live_controllers (hm_nodes m) \<le> unat k"
  using hm_run_ok [OF assms conjunct1 [OF hm_new_ok]] hm_new_ok [of k] by (auto simp: hm_ok_def)

theorem controllers_limited_witness:
  "\<exists>m. hm_run [HM_Clone, HM_Clone, HM_Check, HM_Check, HM_Clone, HM_Check, HM_Spawn,
      HM_Handle_Clone 0, HM_Clone, HM_Check] (hm_new 1) = Some m \<and>
     hm_starting m + live_controllers (hm_nodes m) \<le> 1 \<and> hm_nodes m = [2]"
proof -
  let ?ls = "[HM_Clone, HM_Clone, HM_Check, HM_Check, HM_Clone, HM_Check, HM_Spawn,
      HM_Handle_Clone 0, HM_Clone, HM_Check]"
  have "\<exists>m. hm_run ?ls (hm_new 1) = Some m \<and> hm_nodes m = [2]"
    by (simp add: hm_new_def hm_strong_def)
  then obtain m where m: "hm_run ?ls (hm_new 1) = Some m" "hm_nodes m = [2]" by blast
  from controllers_limited [OF m(1)] have "hm_starting m + live_controllers (hm_nodes m) \<le> 1"
    by simp
  with m show ?thesis by blast
qed

text \<open>C6: After a first round, the second round succeeds for exactly one request, the first one with
  the proposed port accepted, provided the limit holds and both ports are free.\<close>

theorem key_exchange_roundtrip:
  assumes "initialize_key_exchange v c strong req = Inr resp"
  shows "\<not> kr_kex_done resp \<and> strong - 1 < unat (ht_max_concurrent_hydra_nodes (hc_toml c)) \<and>
    (\<forall>v' strong' final. (\<exists>r. spawn_new v' c strong' (req, resp) final = Inr r) \<longleftrightarrow>
       final = req\<lparr>kq_accepted_platform_h2h_port := Some (kr_proposed_platform_h2h_port resp)\<rparr> \<and>
       strong' - 1 \<le> unat (ht_max_concurrent_hydra_nodes (hc_toml c)) \<and>
       ke_port_free v' (kr_gateway_h2h_port resp) = Inr True \<and>
       ke_port_free v' (kr_proposed_platform_h2h_port resp) = Inr True \<and>
       (\<exists>d. ke_config_dir v' = Inr d))"
proof -
  have req: "kq_accepted_platform_h2h_port req = None" and
    "\<not> kr_kex_done resp" "strong - 1 < unat (ht_max_concurrent_hydra_nodes (hc_toml c))"
    using assms by (auto simp: initialize_key_exchange_def Let_def split: if_splits sum.splits)
  moreover have "req = final\<lparr>kq_accepted_platform_h2h_port := None\<rparr> \<and>
      kq_accepted_platform_h2h_port final = Some p \<longleftrightarrow>
      final = req\<lparr>kq_accepted_platform_h2h_port := Some p\<rparr>" for final p
    using req by (cases req; cases final) auto
  ultimately show ?thesis unfolding spawn_new_ok_iff by blast
qed

text \<open>A concrete exchange.\<close>

definition kex_demo_env :: kex_env where
  "kex_demo_env = \<lparr>ke_fl = id, ke_lovelace_on_addr = (\<lambda>_. Inr 50000000), ke_config_dir = Inr ''d'',
     ke_gen_hydra_keys = Inr (), ke_this_host = ''gw'', ke_read_hydra_vk = Inr JNull,
     ke_free_port1 = Inr 5001, ke_free_port2 = Inr 5002, ke_port_free = (\<lambda>_. Inr True)\<rparr>"

definition kex_demo_config :: hydra_config where
  "kex_demo_config = \<lparr>hc_toml = \<lparr>ht_cardano_signing_key = ''k'',
       ht_max_concurrent_hydra_nodes = 2, ht_commit_ada = 2, ht_lovelace_per_request = 840450,
       ht_requests_per_microtransaction = 1, ht_microtransactions_per_fanout = 1\<rparr>,
     hc_gateway_cardano_vkey = JNull, hc_gateway_cardano_addr = ''a'',
     hc_protocol_parameters = JNull, hc_hydra_scripts_tx_id = ''t''\<rparr>"

definition kex_demo_req :: kex_request where
  "kex_demo_req = \<lparr>kq_machine_id = ''p'', kq_platform_cardano_vkey = JNull,
     kq_platform_hydra_vkey = JNull, kq_accepted_platform_h2h_port = None\<rparr>"

theorem key_exchange_roundtrip_witness:
  "\<exists>resp r. initialize_key_exchange kex_demo_env kex_demo_config 1 kex_demo_req = Inr resp \<and>
     \<not> kr_kex_done resp \<and>
     spawn_new kex_demo_env kex_demo_config 2 (kex_demo_req, resp)
       (kex_demo_req\<lparr>kq_accepted_platform_h2h_port := Some 5001\<rparr>) = Inr r"
proof -
  have "\<exists>resp. initialize_key_exchange kex_demo_env kex_demo_config 1 kex_demo_req = Inr resp \<and>
      kr_proposed_platform_h2h_port resp = 5001"
    by (simp add: initialize_key_exchange_def kex_demo_env_def kex_demo_config_def
        kex_demo_req_def f64_of_u64_def MIN_FUEL_LOVELACE_def)
  then obtain resp where 1: "initialize_key_exchange kex_demo_env kex_demo_config 1 kex_demo_req
      = Inr resp" "kr_proposed_platform_h2h_port resp = 5001" by blast
  have "ke_port_free kex_demo_env p = Inr True" "ke_config_dir kex_demo_env = Inr ''d''" for p
    by (simp_all add: kex_demo_env_def)
  moreover have "ht_max_concurrent_hydra_nodes (hc_toml kex_demo_config) = 2"
    by (simp add: kex_demo_config_def)
  ultimately show ?thesis using key_exchange_roundtrip [OF 1(1)] 1 by fastforce
qed

end
