(* ===== verification/Tcp_Tunnel.thy ===== *)
theory Tcp_Tunnel
  imports Rust_Maps "HOL-Library.Sublist"
begin

unbundle bit_operations_syntax

text \<open>
  The tunnel that carries the TCP connections of two hydra-nodes over a WebSocket,
  \<open>crates/common/src/tcp_mux_tunnel.rs\<close>: the multiplexer of one end, with one task per stream,
  and two ends joined by the WebSocket. A step is what a task does between two waits; the
  tasks of both ends interleave in any order. The bytes that a task has read from its socket
  and written to it are recorded in its state.
\<close>

section \<open>Messages and state\<close>

datatype tunnel_msg =
    TM_Open u64
  | TM_Data u64 string
  | TM_Close u64 u8 "string option"

definition CLOSE_CLEAN :: u8 where "CLOSE_CLEAN = 0"
definition CLOSE_IO :: u8 where "CLOSE_IO = 1"
definition CLOSE_CANCELLED :: u8 where "CLOSE_CANCELLED = 2"
definition CLOSE_PROTOCOL :: u8 where "CLOSE_PROTOCOL = 3"

record tunnel_config =
  tc_expose_port :: u16
  tc_id_prefix_bit :: bool

datatype conn_cmd = CC_Write string | CC_Close bool

text \<open>
  A task runs its loop, then leaves it, with the \<open>Close\<close> it still has to send, then has removed
  its route, sent the message and dropped its receiver.
\<close>

datatype task_phase =
    Running
  | Leaving "(u8 \<times> string option) option"
  | Ended

record conn_task =
  ct_id :: u64
  ct_queue :: "conn_cmd list"
  ct_phase :: task_phase
  ct_read :: string
  ct_written :: string

text \<open>
  \<open>tu_conns\<close> maps the id of a stream to the task that holds its receiver; \<open>tu_out\<close> is the
  outbound channel together with what the WebSocket has not delivered yet. \<open>tu_opening\<close> is where
  the listener is: it has sent the \<open>Open\<close> of an accepted socket, and has not inserted its route yet.
\<close>

record tunnel =
  tu_cfg :: tunnel_config
  tu_cancelled :: bool
  tu_conns :: "(u64, nat) hash_map"
  tu_next_id :: u64
  tu_opening :: "u64 option"
  tu_tasks :: "conn_task list"
  tu_out :: "tunnel_msg list"
  tu_out_closed :: bool

definition ID_PREFIX :: u64 where "ID_PREFIX = push_bit 63 1"

definition id_prefix :: "tunnel_config \<Rightarrow> u64" where
  "id_prefix cfg = (if tc_id_prefix_bit cfg then ID_PREFIX else 0)"

definition tunnel_new :: "tunnel_config \<Rightarrow> tunnel" where
  "tunnel_new cfg =
     \<lparr>tu_cfg = cfg, tu_cancelled = False, tu_conns = [], tu_next_id = 1 OR id_prefix cfg,
      tu_opening = None, tu_tasks = [], tu_out = [], tu_out_closed = False\<rparr>"

section \<open>Operations\<close>

definition send_out :: "tunnel_msg \<Rightarrow> tunnel \<Rightarrow> tunnel" where
  "send_out m u = (if tu_out_closed u then u else u\<lparr>tu_out := tu_out u @ [m]\<rparr>)"

definition at_task :: "nat \<Rightarrow> (conn_task \<Rightarrow> conn_task) \<Rightarrow> tunnel \<Rightarrow> tunnel" where
  "at_task t f u = u\<lparr>tu_tasks := (tu_tasks u)[t := f (tu_tasks u ! t)]\<rparr>"

text \<open>A command for a task whose receiver is gone is lost.\<close>

definition push_cmd :: "conn_cmd \<Rightarrow> conn_task \<Rightarrow> conn_task" where
  "push_cmd c k = (if ct_phase k = Ended then k else k\<lparr>ct_queue := ct_queue k @ [c]\<rparr>)"

definition alloc_local_id :: "tunnel \<Rightarrow> u64 \<times> tunnel" where
  "alloc_local_id u =
     (let base = tu_next_id u AND NOT ID_PREFIX
      in (base OR id_prefix (tu_cfg u), u\<lparr>tu_next_id := tu_next_id u + 1\<rparr>))"

definition attach_stream_with_id :: "u64 \<Rightarrow> tunnel \<Rightarrow> tunnel" where
  "attach_stream_with_id i u =
     (let old = hash_get i (tu_conns u);
          u1 = u\<lparr>tu_conns := hash_insert i (length (tu_tasks u)) (tu_conns u)\<rparr>;
          u2 = (case old of Some o' \<Rightarrow> at_task o' (push_cmd (CC_Close False)) u1 | None \<Rightarrow> u1)
      in u2\<lparr>tu_tasks := tu_tasks u2 @
              [\<lparr>ct_id = i, ct_queue = [], ct_phase = Running, ct_read = [], ct_written = []\<rparr>]\<rparr>)"

text \<open>The codec and the outcome of \<open>TcpStream::connect\<close> are the environment's.\<close>

record codec =
  cd_encode :: "string \<Rightarrow> string"
  cd_decode :: "string \<Rightarrow> string option"

fun on_msg :: "codec \<Rightarrow> string option \<Rightarrow> tunnel_msg \<Rightarrow> tunnel \<Rightarrow> tunnel" where
  "on_msg cd connect_error (TM_Open i) u =
     (case connect_error of
        None \<Rightarrow> attach_stream_with_id i u
      | Some e \<Rightarrow> send_out (TM_Close i CLOSE_IO (Some e)) u)"
| "on_msg cd connect_error (TM_Data i b64) u =
     (case cd_decode cd b64 of
        None \<Rightarrow> send_out (TM_Close i CLOSE_PROTOCOL (Some ''invalid base64'')) u
      | Some bytes \<Rightarrow>
          (case hash_get i (tu_conns u) of
             None \<Rightarrow> u
           | Some t \<Rightarrow> at_task t (push_cmd (CC_Write bytes)) u))"
| "on_msg cd connect_error (TM_Close i code msg) u =
     (case hash_get i (tu_conns u) of
        None \<Rightarrow> u
      | Some t \<Rightarrow>
          at_task t (push_cmd (CC_Close False)) (u\<lparr>tu_conns := hash_remove i (tu_conns u)\<rparr>))"

text \<open>
  The listener handles one accepted socket at a time. A cancelled one accepts nothing more; a
  closed outbound channel shuts the accepted socket and ends it. It waits for the \<open>Open\<close> to be
  sent, and only then for the lock of the routes: in between, messages of the peer are handled.
\<close>

definition accept_step :: "tunnel \<Rightarrow> tunnel option" where
  "accept_step u =
     (if tu_cancelled u \<or> tu_opening u \<noteq> None then None
      else let (i, u1) = alloc_local_id u
           in if tu_out_closed u then Some u1
              else Some ((send_out (TM_Open i) u1)\<lparr>tu_opening := Some i\<rparr>))"

definition attached_step :: "tunnel \<Rightarrow> tunnel option" where
  "attached_step u =
     (case tu_opening u of
        None \<Rightarrow> None
      | Some i \<Rightarrow> Some (attach_stream_with_id i (u\<lparr>tu_opening := None\<rparr>)))"

text \<open>\<open>attach_stream\<close>, for a socket accepted elsewhere, makes the same two steps; its first one gives
  the id, or the failed send. Nothing in the repository calls it.\<close>

definition attach_stream_open :: "tunnel \<Rightarrow> u64 option \<times> tunnel" where
  "attach_stream_open u =
     (let (i, u1) = alloc_local_id u
      in if tu_out_closed u then (None, u1) else (Some i, send_out (TM_Open i) u1))"

datatype read_outcome = Read_Bytes string | Read_Error string

definition leave :: "(u8 \<times> string option) option \<Rightarrow> conn_task \<Rightarrow> conn_task" where
  "leave why k = k\<lparr>ct_phase := Leaving why\<rparr>"

text \<open>One branch of the \<open>select!\<close> of a running task each.\<close>

definition read_step :: "codec \<Rightarrow> nat \<Rightarrow> read_outcome \<Rightarrow> tunnel \<Rightarrow> tunnel option" where
  "read_step cd t outcome u =
     (if t < length (tu_tasks u) \<and> ct_phase (tu_tasks u ! t) = Running then
        (case outcome of
           Read_Error e \<Rightarrow> Some (at_task t (leave (Some (CLOSE_IO, Some e))) u)
         | Read_Bytes chunk \<Rightarrow>
             if chunk = [] then Some (at_task t (leave (Some (CLOSE_CLEAN, None))) u)
             else if tu_out_closed u then Some (at_task t (leave None) u)
             else Some (send_out (TM_Data (ct_id (tu_tasks u ! t)) (cd_encode cd chunk))
                         (at_task t (\<lambda>k. k\<lparr>ct_read := ct_read k @ chunk\<rparr>) u)))
      else None)"

text \<open>\<open>write_all\<close> that fails has written some prefix of the chunk.\<close>

definition cmd_step :: "nat \<Rightarrow> (nat \<times> string) option \<Rightarrow> tunnel \<Rightarrow> tunnel option" where
  "cmd_step t write_error u =
     (if t < length (tu_tasks u) \<and> ct_phase (tu_tasks u ! t) = Running then
        (case ct_queue (tu_tasks u ! t) of
           [] \<Rightarrow> None
         | CC_Close notify_peer # q \<Rightarrow>
             Some (at_task t (\<lambda>k. leave (if notify_peer then Some (CLOSE_CLEAN, None) else None)
                                   (k\<lparr>ct_queue := q\<rparr>)) u)
         | CC_Write chunk # q \<Rightarrow>
             (case write_error of
                None \<Rightarrow> Some (at_task t (\<lambda>k. k\<lparr>ct_queue := q, ct_written := ct_written k @ chunk\<rparr>) u)
              | Some (n, e) \<Rightarrow>
                  Some (at_task t (\<lambda>k. leave (Some (CLOSE_IO, Some e))
                          (k\<lparr>ct_queue := q, ct_written := ct_written k @ take n chunk\<rparr>)) u)))
      else None)"

text \<open>\<open>recv\<close> gives \<open>None\<close> when the queue is drained and no route holds the sender any more.\<close>

definition no_sender_step :: "nat \<Rightarrow> tunnel \<Rightarrow> tunnel option" where
  "no_sender_step t u =
     (if t < length (tu_tasks u) \<and> ct_phase (tu_tasks u ! t) = Running \<and>
         ct_queue (tu_tasks u ! t) = [] \<and> t \<notin> snd ` set (tu_conns u)
      then Some (at_task t (leave None) u) else None)"

definition cancelled_step :: "nat \<Rightarrow> tunnel \<Rightarrow> tunnel option" where
  "cancelled_step t u =
     (if tu_cancelled u \<and> t < length (tu_tasks u) \<and> ct_phase (tu_tasks u ! t) = Running
      then Some (at_task t (leave (Some (CLOSE_CANCELLED, Some ''cancelled''))) u) else None)"

text \<open>After the loop: remove the route of the stream's id, tell the peer, drop the receiver.\<close>

definition end_step :: "nat \<Rightarrow> tunnel \<Rightarrow> tunnel option" where
  "end_step t u =
     (if t < length (tu_tasks u) then
        (case ct_phase (tu_tasks u ! t) of
           Leaving why \<Rightarrow>
             (let i = ct_id (tu_tasks u ! t);
                  u1 = u\<lparr>tu_conns := hash_remove i (tu_conns u)\<rparr>;
                  u2 = (case why of Some (code, msg) \<Rightarrow> send_out (TM_Close i code msg) u1 | None \<Rightarrow> u1)
              in Some (at_task t (\<lambda>k. k\<lparr>ct_phase := Ended\<rparr>) u2))
         | _ \<Rightarrow> None)
      else None)"

section \<open>Two ends\<close>

datatype tunnel_label =
    TL_Accept
  | TL_Attached                    \<comment> \<open>the route of the accepted socket is inserted\<close>
  | TL_Deliver "string option"     \<comment> \<open>the next message of the peer; the error of a connect\<close>
  | TL_Read nat read_outcome
  | TL_Cmd nat "(nat \<times> string) option"
  | TL_No_Sender nat
  | TL_Cancelled nat
  | TL_End nat
  | TL_Cancel                      \<comment> \<open>\<open>Tunnel::cancel\<close>\<close>
  | TL_Close_Out nat               \<comment> \<open>the task that drains the outbound channel ends\<close>

text \<open>When the draining task ends, the \<open>n\<close> messages that are on the WebSocket already still arrive.\<close>

type_synonym tunnel_pair = "bool \<Rightarrow> tunnel"

fun tunnel_exec :: "codec \<Rightarrow> bool \<times> tunnel_label \<Rightarrow> tunnel_pair \<Rightarrow> tunnel_pair option" where
  "tunnel_exec cd (x, TL_Accept) p = map_option (\<lambda>u. p(x := u)) (accept_step (p x))"
| "tunnel_exec cd (x, TL_Attached) p = map_option (\<lambda>u. p(x := u)) (attached_step (p x))"
| "tunnel_exec cd (x, TL_Deliver ce) p =
     (case tu_out (p (\<not> x)) of
        [] \<Rightarrow> None
      | m # ms \<Rightarrow> Some (p(x := on_msg cd ce m (p x), (\<not> x) := (p (\<not> x))\<lparr>tu_out := ms\<rparr>)))"
| "tunnel_exec cd (x, TL_Read t r) p = map_option (\<lambda>u. p(x := u)) (read_step cd t r (p x))"
| "tunnel_exec cd (x, TL_Cmd t e) p = map_option (\<lambda>u. p(x := u)) (cmd_step t e (p x))"
| "tunnel_exec cd (x, TL_No_Sender t) p = map_option (\<lambda>u. p(x := u)) (no_sender_step t (p x))"
| "tunnel_exec cd (x, TL_Cancelled t) p = map_option (\<lambda>u. p(x := u)) (cancelled_step t (p x))"
| "tunnel_exec cd (x, TL_End t) p = map_option (\<lambda>u. p(x := u)) (end_step t (p x))"
| "tunnel_exec cd (x, TL_Cancel) p = Some (p(x := (p x)\<lparr>tu_cancelled := True\<rparr>))"
| "tunnel_exec cd (x, TL_Close_Out n) p =
     Some (p(x := (p x)\<lparr>tu_out := take n (tu_out (p x)), tu_out_closed := True\<rparr>))"

fun tunnel_run :: "codec \<Rightarrow> (bool \<times> tunnel_label) list \<Rightarrow> tunnel_pair \<Rightarrow> tunnel_pair option" where
  "tunnel_run cd [] p = Some p"
| "tunnel_run cd (l # ls) p = Option.bind (tunnel_exec cd l p) (tunnel_run cd ls)"

definition tunnel_start :: "(bool \<Rightarrow> tunnel_config) \<Rightarrow> tunnel_pair" where
  "tunnel_start cfg = (\<lambda>x. tunnel_new (cfg x))"

text \<open>Each end's connections to the other: as both ends are configured, with the prefix bit.\<close>

definition demo_codec :: codec where
  "demo_codec = \<lparr>cd_encode = (\<lambda>s. s), cd_decode = Some\<rparr>"

definition demo_cfg :: "bool \<Rightarrow> tunnel_config" where
  "demo_cfg b = \<lparr>tc_expose_port = 5001, tc_id_prefix_bit = b\<rparr>"

lemmas tunnel_step_defs = accept_step_def attached_step_def alloc_local_id_def attach_stream_with_id_def send_out_def
  at_task_def push_cmd_def read_step_def cmd_step_def no_sender_step_def cancelled_step_def end_step_def
  leave_def

end
