(* ===== verification/Ping_Watchdog.thy ===== *)
theory Ping_Watchdog
  imports Prelude
begin

text \<open>
  The liveness check that the four WebSocket event loops share (gateway and platform, SDK bridge
  and gateway): a tick every few seconds sends a numbered ping, unless the previous one is still
  unanswered, in which case the loop ends. The locale states the contract of one event loop's
  handler; the consequences are proved once and interpreted for each loop.
\<close>

section \<open>Event loops\<close>

text \<open>A handler gives the new state, its effects and whether the loop goes on.\<close>

type_synonym ('s, 'x) looped = "'s \<times> 'x list \<times> bool"

text \<open>The loop over the events that arrive, each with what the outside world does meanwhile.\<close>

fun event_loop :: "('v \<Rightarrow> 'e \<Rightarrow> 's \<Rightarrow> ('s, 'x) looped) \<Rightarrow> ('v \<times> 'e) list \<Rightarrow> 's \<Rightarrow> ('s, 'x) looped" where
  "event_loop handle [] s = (s, [], True)"
| "event_loop handle ((v, e) # es) s =
     (case handle v e s of (s', fx, go) \<Rightarrow>
        if go then (case event_loop handle es s' of (s'', fx', go') \<Rightarrow> (s'', fx @ fx', go'))
        else (s', fx, False))"

lemma event_loop_append:
  "event_loop handle (es @ fs) s =
     (case event_loop handle es s of (s', fx, go) \<Rightarrow>
        if go then (case event_loop handle fs s' of (s'', fx', go') \<Rightarrow> (s'', fx @ fx', go'))
        else (s', fx, False))"
proof (induction handle es s rule: event_loop.induct)
  case (1 handle s)
  then show ?case by (simp split: prod.splits)
next
  case (2 handle v e es s)
  then show ?case by (auto split: prod.splits)
qed

locale ping_watchdog =
  fixes handle :: "'v \<Rightarrow> 'e \<Rightarrow> 's \<Rightarrow> ('s, 'x) looped"
    and unanswered :: "'s \<Rightarrow> bool"
    and ping_id :: "'s \<Rightarrow> u64"
    and tick :: "'e"
    and pong :: "u64 \<Rightarrow> 'e"
    and ping_sent :: "u64 \<Rightarrow> 'x"
    and can_send :: "'v \<Rightarrow> bool"
  assumes tick_unanswered: "unanswered s \<Longrightarrow> handle v tick s = (s', fx, go) \<Longrightarrow> \<not> go"
    and tick_answered: "\<not> unanswered s \<Longrightarrow> handle v tick s = (s', fx, go) \<Longrightarrow>
        ping_id s' = ping_id s + 1 \<and> unanswered s' \<and> go = can_send v \<and>
        (can_send v \<longrightarrow> ping_sent (ping_id s') \<in> set fx)"
    and pong_answers: "handle v (pong k) s = (s', fx, go) \<Longrightarrow>
        go \<and> ping_id s' = ping_id s \<and> (unanswered s' \<longleftrightarrow> unanswered s \<and> k \<noteq> ping_id s)"
    and other_events: "e \<noteq> tick \<Longrightarrow> e \<notin> range pong \<Longrightarrow> handle v e s = (s', fx, go) \<Longrightarrow>
        ping_id s' = ping_id s \<and> unanswered s' = unanswered s"
begin

lemma event_keeps_id:
  "e \<noteq> tick \<Longrightarrow> handle v e s = (s', fx, go) \<Longrightarrow> ping_id s' = ping_id s"
  using pong_answers other_events by (cases "e \<in> range pong") blast+

text \<open>Between two ticks, the ping is unanswered exactly when no pong with its number was handled.\<close>

lemma between_ticks:
  assumes "event_loop handle es s = (s', fx, True)" and "tick \<notin> snd ` set es"
  shows "ping_id s' = ping_id s \<and>
    (unanswered s' \<longleftrightarrow> unanswered s \<and> pong (ping_id s) \<notin> snd ` set es)"
  using assms
proof (induction es arbitrary: s fx)
  case (Cons ve es)
  obtain v e where ve: "ve = (v, e)" by (cases ve)
  obtain t fx1 go where h: "handle v e s = (t, fx1, go)" by (cases "handle v e s")
  from Cons.prems(1) obtain fx2 where go: "go" and r: "event_loop handle es t = (s', fx2, True)"
    by (auto simp: ve h split: if_splits prod.splits)
  have e: "e \<noteq> tick" "tick \<notin> snd ` set es" using Cons.prems(2) by (auto simp: ve)
  note IH = Cons.IH [OF r e(2)]
  note id = event_keeps_id [OF e(1) h]
  show ?case
  proof (cases "e \<in> range pong")
    case True
    then obtain k where k: "e = pong k" by blast
    from pong_answers [OF h [unfolded k]]
    have u: "unanswered t \<longleftrightarrow> unanswered s \<and> k \<noteq> ping_id s" by blast
    have inj: "pong k = pong (ping_id s) \<Longrightarrow> unanswered s \<Longrightarrow> k = ping_id s"
    proof -
      assume eq: "pong k = pong (ping_id s)" and us: "unanswered s"
      obtain t' fx' go' where h': "handle v (pong (ping_id s)) s = (t', fx', go')"
        by (cases "handle v (pong (ping_id s)) s")
      with h k eq have "t' = t" by simp
      with pong_answers [OF h'] u us show ?thesis by blast
    qed
    with IH id u k show ?thesis by (auto simp: ve)
  next
    case False
    with other_events [OF e(1) False h] IH id show ?thesis by (auto simp: ve)
  qed
qed simp

text \<open>
  So after a tick that sent a ping, the loop is still going at the next tick exactly when the
  peer answered in between (and the socket takes the new ping).
\<close>

lemma two_ticks:
  assumes "\<not> unanswered s" and "can_send v" and "tick \<notin> snd ` set es"
    and "event_loop handle ((v, tick) # es) s = (s', fx, True)"
    and "event_loop handle ((v, tick) # es @ [(v', tick)]) s = (s'', fx', go)"
  shows "go \<longleftrightarrow> can_send v' \<and> pong (ping_id s + 1) \<in> snd ` set es"
proof -
  obtain t fx1 g1 where h: "handle v tick s = (t, fx1, g1)" by (cases "handle v tick s")
  from tick_answered [OF assms(1) h] assms(2)
  have t: "ping_id t = ping_id s + 1" "unanswered t" and g1: "g1" by auto
  from assms(4) h g1 obtain fx2 where r: "event_loop handle es t = (s', fx2, True)"
    by (auto split: prod.splits)
  note b = between_ticks [OF r assms(3)]
  obtain u fx3 g2 where h2: "handle v' tick s' = (u, fx3, g2)" by (cases "handle v' tick s'")
  have "go = g2"
    using assms(5) h g1 r h2 by (auto simp: event_loop_append split: if_splits prod.splits)
  with b t tick_unanswered [OF _ h2] tick_answered [OF _ h2] show ?thesis
    by (cases "unanswered s'") auto
qed

end

end
