(* ===== verification/Settling_Process.thy ===== *)
theory Settling_Process
  imports Rust_Maps
begin

text \<open>
  Processes that take in requests and have to settle each of them exactly once. A step takes some
  requests in, settles some and keeps the others pending; the locale proves that nothing is lost
  or settled twice over a run, for the event loops and the tables of requests in progress.
\<close>

section \<open>Runs\<close>

fun runs :: "('l \<Rightarrow> 'p \<Rightarrow> 'p option) \<Rightarrow> 'l list \<Rightarrow> 'p \<Rightarrow> 'p option" where
  "runs exec [] p = Some p"
| "runs exec (l # ls) p = Option.bind (exec l p) (runs exec ls)"

lemma runs_invariant:
  assumes "runs exec ls p = Some p'" and "I p"
    and "\<And>l p p'. I p \<Longrightarrow> exec l p = Some p' \<Longrightarrow> I p'"
  shows "I p'"
  using assms(1,2) by (induction ls arbitrary: p) (auto simp: bind_eq_Some_conv dest: assms(3))

lemma runs_append: "runs exec (ls @ ks) p = Option.bind (runs exec ls p) (runs exec ks)"
  by (induction ls arbitrary: p) (auto split: bind_split)

lemma mset_remove_index:
  "i < length xs \<Longrightarrow> add_mset (f (xs ! i)) (mset (map f (take i xs)) + mset (map f (drop (Suc i) xs))) = mset (map f xs)"
  by (metis (no_types, lifting) Cons_nth_drop_Suc append_take_drop_id list.simps(9) map_append mset.simps(2)
      mset_append union_mset_add_mset_right)

locale settling_process =
  fixes exec :: "'l \<Rightarrow> 'p \<Rightarrow> 'p option"
    and well_formed :: "'p \<Rightarrow> bool"
    and settled_by :: "'p \<Rightarrow> 'r multiset"
    and pending_in :: "'p \<Rightarrow> 'r multiset"
    and taken_in :: "'l \<Rightarrow> 'r multiset"
  assumes step_well_formed: "well_formed p \<Longrightarrow> exec l p = Some p' \<Longrightarrow> well_formed p'"
    and step_settles: "well_formed p \<Longrightarrow> exec l p = Some p' \<Longrightarrow>
        settled_by p + pending_in p + taken_in l = settled_by p' + pending_in p'"
begin

lemma run_settles:
  "well_formed p \<Longrightarrow> runs exec ls p = Some p' \<Longrightarrow> well_formed p' \<and>
    settled_by p + pending_in p + sum_list (map taken_in ls) = settled_by p' + pending_in p'"
proof (induction ls arbitrary: p)
  case (Cons l ls)
  from Cons.prems(2) obtain q where l: "exec l p = Some q" and ls: "runs exec ls q = Some p'"
    by (auto simp: bind_eq_Some_conv)
  note IH = Cons.IH [OF step_well_formed [OF Cons.prems(1) l] ls]
  have "settled_by p + pending_in p + sum_list (map taken_in (l # ls)) =
      settled_by p + pending_in p + taken_in l + sum_list (map taken_in ls)" by (simp add: add.assoc)
  also have "\<dots> = settled_by q + pending_in q + sum_list (map taken_in ls)"
    by (simp only: step_settles [OF Cons.prems(1) l])
  finally show ?case using IH by simp
qed simp

lemma run_from_nothing:
  assumes "well_formed p" and "settled_by p = {#}" and "pending_in p = {#}" and "runs exec ls p = Some p'"
  shows "sum_list (map taken_in ls) = settled_by p' + pending_in p'"
  using run_settles [OF assms(1,4)] assms(2,3) by simp

end

section \<open>Tables of requests in progress\<close>

definition hash_values :: "('k, 'v) hash_map \<Rightarrow> 'v multiset" where
  "hash_values m = image_mset snd (mset m)"

lemma hash_values_empty [simp]: "hash_values [] = {#}"
  by (simp add: hash_values_def)

lemma hash_values_insert:
  assumes "hash_ok m"
  shows "hash_values (hash_insert k v m) + (case hash_get k m of None \<Rightarrow> {#} | Some old \<Rightarrow> {#old#}) =
    add_mset v (hash_values m)"
proof (cases "hash_get k m")
  case None
  with hash.mset_entries_put [OF assms None] show ?thesis by (simp add: hash_values_def)
next
  case (Some old)
  have ok: "hash_ok (hash_remove k m)" by (rule hash.ok_remove [OF assms])
  have absent: "hash_get k (hash_remove k m) = None" by (simp add: hash.get_remove [OF assms])
  have again: "mset (hash_insert k v m) = mset (hash_insert k v (hash_remove k m))"
  proof -
    have "set (hash_insert k v m) = set (hash_insert k v (hash_remove k m))"
      by (simp only: hash.set_entries_put [OF assms] hash.set_entries_put [OF ok] hash.set_entries_remove [OF assms])
        blast
    with hash.distinct_pairs [OF hash.ok_put [OF assms]] hash.distinct_pairs [OF hash.ok_put [OF ok]]
    show ?thesis by (simp add: set_eq_iff_mset_eq_distinct)
  qed
  have "mset m = add_mset (k, old) (mset (hash_remove k m))"
    by (rule hash.mset_entries_remove [OF assms Some])
  with again hash.mset_entries_put [OF ok absent] show ?thesis by (simp add: Some hash_values_def)
qed

lemma hash_values_remove:
  assumes "hash_ok m" and "hash_get k m = Some v"
  shows "hash_values m = add_mset v (hash_values (hash_remove k m))"
  using hash.mset_entries_remove [OF assms] by (simp add: hash_values_def)

lemma hash_values_retain:
  "hash_values m = hash_values (hash_retain P m) + image_mset snd (mset (filter (\<lambda>(k, v). \<not> P k v) m))"
  unfolding hash_values_def by (metis hash.mset_entries_retain image_mset_union)

end
