(* ===== verification/Lb_Connection.thy ===== *)
theory Lb_Connection
  imports Http_Relay Hydras_Manager Tcp_Tunnel Ping_Watchdog Settling_Process
begin

text \<open>
  One WebSocket connection of the gateway with a relay, \<open>event_loop::run\<close> of
  \<open>crates/gateway/src/load_balancer.rs\<close>: the handler of each event, the clean-up after the loop,
  and the periodic removal of expired requests. The registry steps of \<open>run\<close> are in
  \<open>Lb_Registry\<close>, the conversions from and to HTTP in \<open>Http_Relay\<close>.
\<close>

section \<open>State\<close>

datatype lb_message =
    LM_Request json_request
  | LM_HydraKExResponse kex_response
  | LM_HydraTunnel tunnel_msg
  | LM_Ping u64
  | LM_Pong u64
  | LM_Error u64 string

datatype relay_message =
    RM_Response json_response
  | RM_HydraKExRequest kex_request
  | RM_HydraTunnel tunnel_msg
  | RM_Ping u64
  | RM_Pong u64

text \<open>\<open>rq_respond_to\<close> numbers the one-shot channel of the requester; times are milliseconds.\<close>

record request_state =
  rq_respond_to :: nat
  rq_expires :: nat
  rq_underlying :: json_request
  rq_is_health_check :: bool

datatype lb_event =
    EV_New_Request request_state
  | EV_Relay relay_message
  | EV_Ping_Tick
  | EV_Finish string

text \<open>A cancellation token is numbered; the tunnel is known by its token and its configuration.\<close>

record lb_conn =
  lc_in_progress :: "(uuid, request_state) hash_map"
  lc_requests_sent :: u64
  lc_responses_received :: u64
  lc_network_rtt :: "nat option"
  lc_last_ping_sent_at :: "nat option"
  lc_last_ping_id :: u64
  lc_disconnection_reason :: "string option"
  lc_initial_hydra_kex :: "(kex_request \<times> kex_response) option"
  lc_hydra_controller :: "(kex_request \<times> kex_response) option"
  lc_tunnel_cancellation :: nat
  lc_tunnel_controller :: "(nat \<times> tunnel_config) option"

definition lb_conn_new :: lb_conn where
  "lb_conn_new = \<lparr>lc_in_progress = [], lc_requests_sent = 0, lc_responses_received = 0,
     lc_network_rtt = None, lc_last_ping_sent_at = None, lc_last_ping_id = 0,
     lc_disconnection_reason = None, lc_initial_hydra_kex = None, lc_hydra_controller = None,
     lc_tunnel_cancellation = 0, lc_tunnel_controller = None\<rparr>"

datatype lb_effect =
    LE_Send lb_message
  | LE_Respond request_state json_response      \<comment> \<open>the one-shot \<open>send\<close>\<close>
  | LE_Drop request_state                       \<comment> \<open>the one-shot sender is dropped unused\<close>
  | LE_Schedule_Ping_Tick
  | LE_Account_One_Request
  | LE_Terminate_Controller
  | LE_Cancel_Tunnel nat
  | LE_Spawn_Listener u16 nat tunnel_config
  | LE_Forward_Tunnel nat
  | LE_Tunnel_Msg nat tunnel_msg
  | LE_Close "string option"

text \<open>What the outside world does during an event.\<close>

record lb_env =
  en_http :: http_lib
  en_socket_open :: bool              \<comment> \<open>\<open>socket_tx.send\<close> succeeds\<close>
  en_now :: nat
  en_controller_alive :: bool
  en_hydras :: "hydra_config option"
  en_kex :: kex_env
  en_strong :: nat                    \<comment> \<open>strong count of the limiter\<close>
  en_listener_error :: "string option"
  en_show_error :: "hydra_err \<Rightarrow> string"

type_synonym lb_handler = "lb_conn \<Rightarrow> (lb_conn, lb_effect) looped"

text \<open>\<open>{:?}\<close> of a string without special characters.\<close>

definition debug_str :: "string \<Rightarrow> string" where
  "debug_str s = CHR 0x22 # s @ [CHR 0x22]"

text \<open>\<open>send_json_msg\<close>: sent, or the loop has to end.\<close>

definition lb_send :: "lb_env \<Rightarrow> lb_message \<Rightarrow> lb_effect list \<times> bool" where
  "lb_send v m = (if en_socket_open v then ([LE_Send m], True) else ([], False))"

section \<open>Requests and responses\<close>

definition fail_request :: "http_lib \<Rightarrow> request_state \<Rightarrow> u16 \<Rightarrow> string \<Rightarrow> lb_effect" where
  "fail_request L rq code why =
     LE_Respond rq \<lparr>jr_id = jq_id (rq_underlying rq), jr_code = code, jr_header = [],
                    jr_body_base64 = hl_b64_encode L why\<rparr>"

text \<open>A request with the id of one in progress takes its place, whose sender is dropped.\<close>

definition pass_on_request :: "lb_env \<Rightarrow> request_state \<Rightarrow> lb_handler" where
  "pass_on_request v rq s =
     (let request_id = jq_id (rq_underlying rq);
          replaced = (case hash_get request_id (lc_in_progress s) of None \<Rightarrow> [] | Some old \<Rightarrow> [LE_Drop old]);
          s1 = s\<lparr>lc_in_progress := hash_insert request_id rq (lc_in_progress s)\<rparr>;
          (fx, ok) = lb_send v (LM_Request (rq_underlying rq))
      in if ok then (s1\<lparr>lc_requests_sent := lc_requests_sent s1 + 1\<rparr>, replaced @ fx, True)
         else
           let err = ''error when sending request to relay: '' @ debug_str ''broken connection with the relay''
           in case hash_get request_id (lc_in_progress s1) of
                None \<Rightarrow> (s1, replaced, False)
              | Some rq' \<Rightarrow>
                  (s1\<lparr>lc_in_progress := hash_remove request_id (lc_in_progress s1)\<rparr>,
                   replaced @ [fail_request (en_http v) rq' 400 err], False))"

text \<open>The flag is that of the request the response belongs to.\<close>

definition pass_on_response :: "json_response \<Rightarrow> lb_conn \<Rightarrow> lb_conn \<times> lb_effect list \<times> bool option" where
  "pass_on_response r s =
     (case hash_get (jr_id r) (lc_in_progress s) of
        None \<Rightarrow> (s, [], None)
      | Some rq \<Rightarrow>
          (s\<lparr>lc_in_progress := hash_remove (jr_id r) (lc_in_progress s),
             lc_responses_received := lc_responses_received s + 1\<rparr>,
           [LE_Respond rq r], Some (rq_is_health_check rq)))"

text \<open>\<open>(200..500).contains(&code)\<close>\<close>

definition billable_code :: "u16 \<Rightarrow> bool" where
  "billable_code code \<longleftrightarrow> 200 \<le> code \<and> code < 500"

definition lb_on_response :: "lb_env \<Rightarrow> json_response \<Rightarrow> lb_handler" where
  "lb_on_response v r s =
     (let (s1, fx, is_health_check) = pass_on_response r s
      in if lc_hydra_controller s1 \<noteq> None \<and> billable_code (jr_code r) \<and> is_health_check = Some False
         then (s1, fx @ [LE_Account_One_Request], True) else (s1, fx, True))"

section \<open>The key exchange\<close>

definition lb_drop_controller :: "lb_env \<Rightarrow> lb_conn \<Rightarrow> lb_conn \<times> lb_effect list" where
  "lb_drop_controller v s =
     (case lc_hydra_controller s of
        None \<Rightarrow> (s, [])
      | Some ctl \<Rightarrow>
          (s\<lparr>lc_hydra_controller := None, lc_tunnel_cancellation := Suc (lc_tunnel_cancellation s),
             lc_tunnel_controller := None\<rparr>,
           (if en_controller_alive v then [LE_Terminate_Controller] else []) @
           [LE_Cancel_Tunnel (lc_tunnel_cancellation s)]))"

definition setup_error :: "string \<Rightarrow> lb_message" where
  "setup_error why = LM_Error 537 (''Hydra micropayments setup error: '' @ why)"

text \<open>The reply, or \<open>None\<close> when the listener of the tunnel cannot be bound and the loop ends.\<close>

definition lb_kex_reply :: "lb_env \<Rightarrow> kex_request \<Rightarrow> lb_conn \<Rightarrow> lb_conn \<times> lb_effect list \<times> lb_message option" where
  "lb_kex_reply v req s =
     (case (en_hydras v, kq_accepted_platform_h2h_port req, lc_initial_hydra_kex s) of
        (None, _, _) \<Rightarrow> (s, [], Some (LM_Error 536 ''Hydra micropayments not supported''))
      | (Some c, Some _, Some initial_kex) \<Rightarrow>
          (case spawn_new (en_kex v) c (en_strong v) initial_kex req of
             Inl err \<Rightarrow> (s, [], Some (setup_error (en_show_error v err)))
           | Inr (final_req, resp) \<Rightarrow>
               let s1 = s\<lparr>lc_initial_hydra_kex := None, lc_hydra_controller := Some (final_req, resp)\<rparr>
               in if kq_machine_id req = kr_machine_id resp then (s1, [], Some (LM_HydraKExResponse resp))
                  else
                    let cfg = \<lparr>tc_expose_port = kr_gateway_h2h_port resp, tc_id_prefix_bit = True\<rparr>;
                        token = lc_tunnel_cancellation s1;
                        fx = [LE_Spawn_Listener (kr_proposed_platform_h2h_port resp) token cfg]
                    in case en_listener_error v of
                         Some err \<Rightarrow>
                           (s1\<lparr>lc_disconnection_reason := Some (''hydra-tunnel: failed to bind listener on port '' @
                                  show_u16 (kr_proposed_platform_h2h_port resp) @ '': '' @ err)\<rparr>, fx, None)
                       | None \<Rightarrow>
                           (s1\<lparr>lc_tunnel_controller := Some (token, cfg)\<rparr>, fx @ [LE_Forward_Tunnel token],
                            Some (LM_HydraKExResponse resp)))
      | (Some c, Some _, None) \<Rightarrow>
          (s, [], Some (setup_error ''no pending key exchange; please re-initiate''))
      | (Some c, None, _) \<Rightarrow>
          (case initialize_key_exchange (en_kex v) c (en_strong v) req of
             Inl err \<Rightarrow> (s, [], Some (setup_error (en_show_error v err)))
           | Inr resp \<Rightarrow> (s\<lparr>lc_initial_hydra_kex := Some (req, resp)\<rparr>, [], Some (LM_HydraKExResponse resp))))"

definition lb_on_kex_request :: "lb_env \<Rightarrow> kex_request \<Rightarrow> lb_handler" where
  "lb_on_kex_request v req s =
     (let (s1, fx1) = lb_drop_controller v s;
          (s2, fx2, reply) = lb_kex_reply v req s1
      in case reply of
           None \<Rightarrow> (s2, fx1 @ fx2, False)
         | Some m \<Rightarrow> (let (fx3, ok) = lb_send v m in (s2, fx1 @ fx2 @ fx3, ok)))"

section \<open>Pings\<close>

definition lb_on_pong :: "lb_env \<Rightarrow> u64 \<Rightarrow> lb_handler" where
  "lb_on_pong v pong_id s =
     (if pong_id = lc_last_ping_id s then
        (case lc_last_ping_sent_at s of
           Some sent_at \<Rightarrow> (s\<lparr>lc_network_rtt := Some (en_now v - sent_at), lc_last_ping_sent_at := None\<rparr>, [], True)
         | None \<Rightarrow> (s\<lparr>lc_last_ping_sent_at := None\<rparr>, [], True))
      else (s, [], True))"

definition lb_on_ping_tick :: "lb_env \<Rightarrow> lb_handler" where
  "lb_on_ping_tick v s =
     (case lc_last_ping_sent_at s of
        Some _ \<Rightarrow> (s\<lparr>lc_disconnection_reason := Some ''ping timeout''\<rparr>, [], False)
      | None \<Rightarrow>
          (let s1 = s\<lparr>lc_last_ping_id := lc_last_ping_id s + 1, lc_last_ping_sent_at := Some (en_now v)\<rparr>;
               (fx, ok) = lb_send v (LM_Ping (lc_last_ping_id s1))
           in (s1, LE_Schedule_Ping_Tick # fx, ok)))"

section \<open>The loop\<close>

fun lb_handle :: "lb_env \<Rightarrow> lb_event \<Rightarrow> lb_handler" where
  "lb_handle v (EV_Finish reason) s = (s\<lparr>lc_disconnection_reason := Some reason\<rparr>, [], False)"
| "lb_handle v (EV_New_Request rq) s = pass_on_request v rq s"
| "lb_handle v (EV_Relay (RM_HydraTunnel m)) s =
     (case lc_tunnel_controller s of
        Some (token, _) \<Rightarrow> (s, [LE_Tunnel_Msg token m], True)
      | None \<Rightarrow> (s, [], True))"
| "lb_handle v (EV_Relay (RM_HydraKExRequest req)) s = lb_on_kex_request v req s"
| "lb_handle v (EV_Relay (RM_Response r)) s = lb_on_response v r s"
| "lb_handle v (EV_Relay (RM_Ping i)) s = (let (fx, ok) = lb_send v (LM_Pong i) in (s, fx, ok))"
| "lb_handle v (EV_Relay (RM_Pong i)) s = lb_on_pong v i s"
| "lb_handle v EV_Ping_Tick s = lb_on_ping_tick v s"

text \<open>After the loop: the events still queued, then the requests in progress.\<close>

fun lb_drain :: "http_lib \<Rightarrow> string \<Rightarrow> lb_event list \<Rightarrow> lb_conn \<Rightarrow> lb_conn \<times> lb_effect list" where
  "lb_drain L reason [] s = (s, [])"
| "lb_drain L reason (EV_New_Request rq # es) s =
     (let (s1, fx) = lb_drain L reason es s
      in (s1, fail_request L rq 502 (''relay disconnected with pending requests: '' @ reason) # fx))"
| "lb_drain L reason (EV_Relay (RM_Response r) # es) s =
     (let (s1, fx1, _) = pass_on_response r s;
          (s2, fx2) = lb_drain L reason es s1
      in (s2, fx1 @ fx2))"
| "lb_drain L reason (_ # es) s = lb_drain L reason es s"

definition lb_finish :: "http_lib \<Rightarrow> lb_event list \<Rightarrow> lb_conn \<Rightarrow> lb_conn \<times> lb_effect list" where
  "lb_finish L queued s =
     (let reason = (case lc_disconnection_reason s of Some r \<Rightarrow> r | None \<Rightarrow> ''reason unknown'');
          fx1 = (if lc_hydra_controller s \<noteq> None then [LE_Terminate_Controller] else []) @
                [LE_Cancel_Tunnel (lc_tunnel_cancellation s), LE_Close (lc_disconnection_reason s)];
          (s1, fx2) = lb_drain L reason queued (s\<lparr>lc_hydra_controller := None\<rparr>);
          fx3 = map (\<lambda>(_, rq). fail_request L rq 502 (''relay disconnected with in-progress requests: '' @ reason))
                  (lc_in_progress s1)
      in (s1\<lparr>lc_in_progress := []\<rparr>, fx1 @ fx2 @ fx3))"

text \<open>\<open>clean_up_expired_requests_periodically\<close>, one round.\<close>

definition EXPIRY_MARGIN :: nat where "EXPIRY_MARGIN = 10000"

definition lb_clean_up_expired :: "nat \<Rightarrow> lb_conn \<Rightarrow> lb_conn \<times> lb_effect list" where
  "lb_clean_up_expired now s =
     (s\<lparr>lc_in_progress := hash_retain (\<lambda>_ rq. now < rq_expires rq + EXPIRY_MARGIN) (lc_in_progress s)\<rparr>,
      map (\<lambda>(_, rq). LE_Drop rq)
        (filter (\<lambda>(_, rq). \<not> now < rq_expires rq + EXPIRY_MARGIN) (lc_in_progress s)))"

section \<open>The connection as a process\<close>

definition LB_EVENT_CAPACITY :: nat where "LB_EVENT_CAPACITY = 64"

record lb_process =
  lp_conn :: lb_conn
  lp_queue :: "lb_event list"
  lp_open :: bool
  lp_log :: "lb_effect list"

text \<open>
  An event that finds the receiver dropped is lost with what it holds; the tasks that wire
  requests, finish messages and the socket to the queue wait while it is full.
\<close>

datatype lb_step =
    LP_Arrive lb_event
  | LP_Handle lb_env
  | LP_Expire nat

definition lost_with :: "lb_event \<Rightarrow> lb_effect list" where
  "lost_with e = (case e of EV_New_Request rq \<Rightarrow> [LE_Drop rq] | _ \<Rightarrow> [])"

fun lp_exec :: "lb_step \<Rightarrow> lb_process \<Rightarrow> lb_process option" where
  "lp_exec (LP_Arrive e) p =
     (if \<not> lp_open p then Some (p\<lparr>lp_log := lp_log p @ lost_with e\<rparr>)
      else if length (lp_queue p) < LB_EVENT_CAPACITY then Some (p\<lparr>lp_queue := lp_queue p @ [e]\<rparr>)
      else None)"
| "lp_exec (LP_Handle v) p =
     (if \<not> lp_open p then None
      else case lp_queue p of
             [] \<Rightarrow> None
           | e # es \<Rightarrow>
               (case lb_handle v e (lp_conn p) of (s, fx, go) \<Rightarrow>
                  if go then Some (p\<lparr>lp_conn := s, lp_queue := es, lp_log := lp_log p @ fx\<rparr>)
                  else let (s', fx') = lb_finish (en_http v) es s
                       in Some \<lparr>lp_conn = s', lp_queue = [], lp_open = False, lp_log = lp_log p @ fx @ fx'\<rparr>))"
| "lp_exec (LP_Expire now) p =
     (if lp_open p then
        (let (s, fx) = lb_clean_up_expired now (lp_conn p)
         in Some (p\<lparr>lp_conn := s, lp_log := lp_log p @ fx\<rparr>))
      else None)"

abbreviation lp_run :: "lb_step list \<Rightarrow> lb_process \<Rightarrow> lb_process option" where
  "lp_run \<equiv> runs lp_exec"

text \<open>The first ping tick is queued before the loop starts.\<close>

definition lp_start :: lb_process where
  "lp_start = \<lparr>lp_conn = lb_conn_new, lp_queue = [EV_Ping_Tick], lp_open = True, lp_log = []\<rparr>"

end
