(* ===== verification/Lb_Connection_Correct.thy ===== *)
theory Lb_Connection_Correct
  imports Lb_Connection
begin

text \<open>
  What the connection with a relay promises: every request that reached it is settled exactly once,
  only answered user requests are accounted, and a silent relay is disconnected.
\<close>

section \<open>Requests, answers and accounting in a log\<close>

definition requests_of :: "lb_event \<Rightarrow> request_state multiset" where
  "requests_of e = (case e of EV_New_Request rq \<Rightarrow> {#rq#} | _ \<Rightarrow> {#})"

definition taken_in :: "lb_step \<Rightarrow> request_state multiset" where
  "taken_in l = (case l of LP_Arrive e \<Rightarrow> requests_of e | _ \<Rightarrow> {#})"

definition arrived :: "lb_step list \<Rightarrow> request_state multiset" where
  "arrived ls = sum_list (map taken_in ls)"

text \<open>Answered, or told (by the dropped sender) that there will be no answer.\<close>

fun settled :: "lb_effect list \<Rightarrow> request_state multiset" where
  "settled [] = {#}"
| "settled (LE_Respond rq r # fx) = add_mset rq (settled fx)"
| "settled (LE_Drop rq # fx) = add_mset rq (settled fx)"
| "settled (_ # fx) = settled fx"

definition in_progress :: "lb_conn \<Rightarrow> request_state multiset" where
  "in_progress s = hash_values (lc_in_progress s)"

definition queued_requests :: "lb_event list \<Rightarrow> request_state multiset" where
  "queued_requests es = sum_list (map requests_of es)"

definition pending_requests :: "lb_process \<Rightarrow> request_state multiset" where
  "pending_requests p = in_progress (lp_conn p) + queued_requests (lp_queue p)"

text \<open>The requests whose answer is followed at once by \<open>account_one_request\<close>.\<close>

definition account_next :: "lb_effect list \<Rightarrow> bool" where
  "account_next fx \<longleftrightarrow> (case fx of x # _ \<Rightarrow> x = LE_Account_One_Request | [] \<Rightarrow> False)"

fun billed_here :: "lb_effect \<Rightarrow> bool \<Rightarrow> request_state list" where
  "billed_here (LE_Respond rq r) accounts =
     (if accounts \<and> billable_code (jr_code r) \<and> \<not> rq_is_health_check rq then [rq] else [])"
| "billed_here _ accounts = []"

fun billed_requests :: "lb_effect list \<Rightarrow> request_state list" where
  "billed_requests [] = []"
| "billed_requests (x # fx) = billed_here x (account_next fx) @ billed_requests fx"

definition accounted :: "lb_effect list \<Rightarrow> nat" where
  "accounted fx = count_list fx LE_Account_One_Request"

lemma settled_append: "settled (fx @ fx') = settled fx + settled fx'"
  by (induction fx rule: settled.induct) simp_all

lemma settled_responds: "settled (map (\<lambda>x. LE_Respond (f x) (g x)) xs) = image_mset f (mset xs)"
  by (induction xs) simp_all

lemma settled_drops: "settled (map (\<lambda>x. LE_Drop (f x)) xs) = image_mset f (mset xs)"
  by (induction xs) simp_all

lemma queued_simps:
  "queued_requests [] = {#}"
  "queued_requests (e # es) = requests_of e + queued_requests es"
  "queued_requests (es @ fs) = queued_requests es + queued_requests fs"
  by (simp_all add: queued_requests_def)

lemma requests_of_simps:
  "requests_of (EV_New_Request rq) = {#rq#}" "requests_of (EV_Relay m) = {#}"
  "requests_of EV_Ping_Tick = {#}" "requests_of (EV_Finish r) = {#}"
  by (simp_all add: requests_of_def)

lemmas settle_simps = settled_append settled_responds settled_drops queued_simps requests_of_simps

section \<open>Each step settles what it takes\<close>

text \<open>The balance of a step: what was in progress and what came in is settled or in progress.\<close>

definition balanced :: "request_state multiset \<Rightarrow> lb_conn \<Rightarrow> lb_conn \<Rightarrow> lb_effect list \<Rightarrow> bool" where
  "balanced new s s' fx \<longleftrightarrow> hash_ok (lc_in_progress s') \<and>
     in_progress s + new = settled fx + in_progress s'"

lemma balanced_append:
  assumes "balanced a s t fx" and "balanced b t u gx"
  shows "balanced (a + b) s u (fx @ gx)"
proof -
  have 1: "in_progress s + a = settled fx + in_progress t" using assms(1) by (simp add: balanced_def)
  have 2: "in_progress t + b = settled gx + in_progress u" "hash_ok (lc_in_progress u)"
    using assms(2) by (simp_all add: balanced_def)
  have "in_progress s + (a + b) = (in_progress s + a) + b" by (simp only: add.assoc)
  also have "\<dots> = settled fx + (in_progress t + b)" by (simp only: 1 add.assoc)
  also have "\<dots> = settled (fx @ gx) + in_progress u" by (simp only: 2 settled_append add.assoc)
  finally show ?thesis using 2 by (simp add: balanced_def)
qed

lemma in_progress_cong: "lc_in_progress s' = lc_in_progress s \<Longrightarrow> in_progress s' = in_progress s"
  by (simp add: in_progress_def)

lemma pass_on_response_balanced:
  assumes "hash_ok (lc_in_progress s)" and "pass_on_response r s = (s', fx, b)"
  shows "balanced {#} s s' fx"
  using assms hash_values_remove [OF assms(1), of "jr_id r"]
  by (auto simp: pass_on_response_def balanced_def in_progress_def hash.ok_remove split: option.splits)

lemma pass_on_request_balanced:
  assumes ok: "hash_ok (lc_in_progress s)" and h: "pass_on_request v rq s = (s', fx, go)"
  shows "balanced {#rq#} s s' fx"
proof -
  define k where "k = jq_id (rq_underlying rq)"
  define m where "m = hash_insert k rq (lc_in_progress s)"
  have okm: "hash_ok m" by (simp add: m_def hash.ok_put ok)
  have get: "hash_get k m = Some rq" by (simp add: m_def hash.get_put ok)
  note ins = hash_values_insert [OF ok, of k rq, folded m_def]
  note rem = hash_values_remove [OF okm get]
  show ?thesis
  proof (cases "en_socket_open v")
    case True
    with h ins show ?thesis
      by (auto simp: pass_on_request_def Let_def lb_send_def k_def [symmetric] m_def [symmetric] balanced_def
          in_progress_def settle_simps okm split: option.splits)
  next
    case False
    with h ins rem show ?thesis
      by (auto simp: pass_on_request_def Let_def lb_send_def k_def [symmetric] m_def [symmetric] balanced_def
          in_progress_def settle_simps okm get hash.ok_remove fail_request_def split: option.splits)
  qed
qed

lemma no_requests_balanced:
  assumes "hash_ok (lc_in_progress s)" and "lc_in_progress s' = lc_in_progress s" and "settled fx = {#}"
  shows "balanced {#} s s' fx"
  using assms by (simp add: balanced_def in_progress_def)

lemma settled_send [simp]: "settled (fst (lb_send v m)) = {#}"
  by (simp add: lb_send_def)

lemma kex_untouched:
  assumes "lb_on_kex_request v req s = (s', fx, go)"
  shows "lc_in_progress s' = lc_in_progress s \<and> settled fx = {#} \<and> accounted fx = 0 \<and> billed_requests fx = []"
proof -
  obtain s1 fx1 where d: "lb_drop_controller v s = (s1, fx1)" by fastforce
  obtain s2 fx2 reply where k: "lb_kex_reply v req s1 = (s2, fx2, reply)" by (cases "lb_kex_reply v req s1")
  have 1: "lc_in_progress s1 = lc_in_progress s \<and> (fx1 = [] \<or>
      (\<exists>t. fx1 = [LE_Cancel_Tunnel t] \<or> fx1 = [LE_Terminate_Controller, LE_Cancel_Tunnel t]))"
    using d by (auto simp: lb_drop_controller_def split: option.splits if_splits)
  have 2: "lc_in_progress s2 = lc_in_progress s1 \<and> (fx2 = [] \<or>
      (\<exists>p t c. fx2 = [LE_Spawn_Listener p t c] \<or> (\<exists>t'. fx2 = [LE_Spawn_Listener p t c, LE_Forward_Tunnel t'])))"
    using k by (auto simp: lb_kex_reply_def Let_def split: option.splits sum.splits prod.splits if_splits)
  have 3: "fx = fx1 @ fx2 \<or> (\<exists>m. fx = fx1 @ fx2 @ [LE_Send m])" and 4: "s' = s2"
    using assms by (auto simp: lb_on_kex_request_def d k lb_send_def split: option.splits if_splits)
  from 1 2 3 4 show ?thesis by (auto simp: accounted_def)
qed

lemma lb_handle_balanced:
  assumes ok: "hash_ok (lc_in_progress s)" and h: "lb_handle v e s = (s', fx, go)"
  shows "balanced (requests_of e) s s' fx"
proof (cases e)
  case (EV_New_Request rq)
  with pass_on_request_balanced [OF ok] h show ?thesis by (simp add: requests_of_simps)
next
  case (EV_Relay m)
  show ?thesis
  proof (cases m)
    case (RM_Response r)
    obtain s1 fx1 b where p: "pass_on_response r s = (s1, fx1, b)" by (cases "pass_on_response r s")
    have "s' = s1" "fx = fx1 \<or> fx = fx1 @ [LE_Account_One_Request]"
      using h by (auto simp: EV_Relay RM_Response lb_on_response_def p split: if_splits)
    with pass_on_response_balanced [OF ok p] show ?thesis
      by (auto simp: EV_Relay balanced_def settle_simps)
  next
    case (RM_HydraKExRequest req)
    with EV_Relay h kex_untouched [of v req s s' fx go] show ?thesis
      by (simp add: no_requests_balanced [OF ok] requests_of_simps)
  qed (use h ok in \<open>auto simp: EV_Relay requests_of_simps lb_send_def lb_on_pong_def
        intro!: no_requests_balanced split: option.splits if_splits\<close>)
qed (use h ok in \<open>auto simp: requests_of_simps lb_on_ping_tick_def Let_def lb_send_def
        intro!: no_requests_balanced split: option.splits if_splits\<close>)

lemma lb_drain_balanced:
  "hash_ok (lc_in_progress s) \<Longrightarrow> lb_drain L reason es s = (s', fx) \<Longrightarrow>
    balanced (queued_requests es) s s' fx"
proof (induction L reason es s arbitrary: s' fx rule: lb_drain.induct)
  case (2 L reason rq es s)
  obtain s1 fx1 where d: "lb_drain L reason es s = (s1, fx1)" by fastforce
  from 2(1) [OF 2(2) d] 2(3) d show ?case by (auto simp: balanced_def fail_request_def settle_simps)
next
  case (3 L reason r es s)
  obtain s1 fx1 b where p: "pass_on_response r s = (s1, fx1, b)" by (cases "pass_on_response r s")
  obtain s2 fx2 where d: "lb_drain L reason es s1 = (s2, fx2)" by fastforce
  note b1 = pass_on_response_balanced [OF 3(2) p]
  from 3(1) [OF p [symmetric] refl refl _ d] b1 have "balanced (queued_requests es) s1 s2 fx2"
    by (simp add: balanced_def)
  with b1 3(3) p d show ?case by (auto simp: balanced_def settle_simps)
qed (auto simp: balanced_def settle_simps)

lemma lb_finish_balanced:
  assumes "hash_ok (lc_in_progress s)" and "lb_finish L es s = (s', fx)"
  shows "balanced (queued_requests es) s s' fx \<and> lc_in_progress s' = []"
proof -
  let ?s0 = "s\<lparr>lc_hydra_controller := None\<rparr>"
  let ?reason = "case lc_disconnection_reason s of Some r \<Rightarrow> r | None \<Rightarrow> ''reason unknown''"
  obtain s1 fx1 where d: "lb_drain L ?reason es ?s0 = (s1, fx1)" by fastforce
  have b: "balanced (queued_requests es) ?s0 s1 fx1" using lb_drain_balanced [OF _ d] assms(1) by simp
  have "in_progress ?s0 = in_progress s" by (simp add: in_progress_def)
  with b assms(2) d hash.ok_empty show ?thesis
    by (auto simp: lb_finish_def Let_def balanced_def settle_simps fail_request_def split_def in_progress_def hash_values_def)
qed

lemma lb_clean_up_balanced:
  assumes "hash_ok (lc_in_progress s)" and "lb_clean_up_expired now s = (s', fx)"
  shows "balanced {#} s s' fx"
proof -
  let ?P = "\<lambda>(_ :: uuid) rq. now < rq_expires rq + EXPIRY_MARGIN"
  note hash_values_retain [of "lc_in_progress s" ?P]
  with assms hash.ok_retain [OF assms(1)] show ?thesis
    by (auto simp: lb_clean_up_expired_def balanced_def in_progress_def settle_simps split_def)
qed

section \<open>Runs\<close>

definition process_ok :: "lb_process \<Rightarrow> bool" where
  "process_ok p \<longleftrightarrow> hash_ok (lc_in_progress (lp_conn p)) \<and>
     (\<not> lp_open p \<longrightarrow> lp_queue p = [] \<and> lc_in_progress (lp_conn p) = [])"

lemma lp_exec_conserves:
  assumes "process_ok p" and "lp_exec l p = Some p'"
  shows "process_ok p' \<and>
    settled (lp_log p) + pending_requests p + taken_in l = settled (lp_log p') + pending_requests p'"
proof (cases l)
  case (LP_Arrive e)
  with assms show ?thesis
    by (auto simp: process_ok_def pending_requests_def settle_simps lost_with_def taken_in_def
        split: if_splits lb_event.splits)
next
  case (LP_Handle v)
  with assms obtain e es where q: "lp_queue p = e # es" and o: "lp_open p"
    by (auto split: if_splits list.splits)
  obtain s fx go where h: "lb_handle v e (lp_conn p) = (s, fx, go)" by (cases "lb_handle v e (lp_conn p)")
  obtain s' fx' where f: "lb_finish (en_http v) es s = (s', fx')" by fastforce
  have b: "balanced (requests_of e) (lp_conn p) s fx"
    using lb_handle_balanced [OF _ h] assms(1) by (simp add: process_ok_def)
  have c: "balanced (queued_requests es) s s' fx' \<and> lc_in_progress s' = []"
    using lb_finish_balanced [OF _ f] b by (simp add: balanced_def hash.ok_empty)
  have "balanced (requests_of e + queued_requests es) (lp_conn p) s' (fx @ fx')"
    using balanced_append [OF b] c by blast
  with b c assms(2) LP_Handle q o h f show ?thesis
    by (auto simp: process_ok_def pending_requests_def balanced_def settle_simps taken_in_def hash.ok_empty split: if_splits)
next
  case (LP_Expire now)
  obtain s fx where c: "lb_clean_up_expired now (lp_conn p) = (s, fx)" by fastforce
  have "balanced {#} (lp_conn p) s fx" using lb_clean_up_balanced [OF _ c] assms(1) by (simp add: process_ok_def)
  with assms(2) LP_Expire c show ?thesis
    by (auto simp: process_ok_def pending_requests_def balanced_def settle_simps taken_in_def split: if_splits)
qed

interpretation lbp: settling_process lp_exec process_ok "\<lambda>p. settled (lp_log p)" pending_requests taken_in
  by unfold_locales (use lp_exec_conserves in blast)+

lemma process_ok_start: "process_ok lp_start"
  by (simp add: process_ok_def lp_start_def lb_conn_new_def hash.ok_empty)

lemma lp_run_balance:
  assumes "lp_run ls lp_start = Some p"
  shows "process_ok p \<and> arrived ls = settled (lp_log p) + pending_requests p"
proof -
  have start: "pending_requests lp_start = {#}" "settled (lp_log lp_start) = {#}"
    by (simp_all add: pending_requests_def lp_start_def lb_conn_new_def in_progress_def settle_simps)
  from lbp.run_settles [OF process_ok_start assms] lbp.run_from_nothing [OF process_ok_start start(2,1) assms]
  show ?thesis by (simp add: arrived_def)
qed

section \<open>Accounting\<close>

lemma account_next_append: "\<not> account_next gx \<Longrightarrow> account_next (fx @ gx) = account_next fx"
  by (cases fx) (simp_all add: account_next_def)

lemma billed_append:
  "\<not> account_next gx \<Longrightarrow> billed_requests (fx @ gx) = billed_requests fx @ billed_requests gx"
  by (induction fx) (simp_all add: account_next_append)

lemma accounted_append: "accounted (fx @ gx) = accounted fx + accounted gx"
  by (simp add: accounted_def)

lemma billed_settled: "mset (billed_requests fx) \<subseteq># settled fx"
proof (induction fx)
  case (Cons x fx)
  have "mset (billed_here x a) + settled fx \<subseteq># settled (x # fx)" for a by (cases x) simp_all
  from subset_mset.order_trans [OF subset_mset.add_left_mono [OF Cons.IH] this] show ?case by simp
qed simp

lemma nothing_billed:
  assumes "LE_Account_One_Request \<notin> set fx"
  shows "\<not> account_next fx \<and> accounted fx = 0 \<and> billed_requests fx = []"
proof -
  have clean: "\<not> account_next gx" if "LE_Account_One_Request \<notin> set gx" for gx
    using that by (cases gx) (auto simp: account_next_def)
  have "billed_here x False = []" for x by (cases x) simp_all
  with assms have "billed_requests fx = []" by (induction fx) (simp_all add: clean)
  with assms clean show ?thesis by (simp add: accounted_def)
qed

definition bills :: "lb_effect list \<Rightarrow> bool" where
  "bills fx \<longleftrightarrow> \<not> account_next fx \<and> accounted fx = length (billed_requests fx)"

lemma bills_nothing: "LE_Account_One_Request \<notin> set fx \<Longrightarrow> bills fx"
  using nothing_billed by (simp add: bills_def)

lemma bills_append: "bills fx \<Longrightarrow> bills gx \<Longrightarrow> bills (fx @ gx)"
  by (simp add: bills_def billed_append accounted_append account_next_append)

lemma kex_accounts_nothing:
  "lb_on_kex_request v req s = (s', fx, go) \<Longrightarrow> LE_Account_One_Request \<notin> set fx"
  using kex_untouched [of v req s s' fx go] by (simp add: accounted_def count_list_0_iff)

lemma lb_handle_bills:
  assumes "lb_handle v e s = (s', fx, go)"
  shows "bills fx"
proof (cases "\<exists>r. e = EV_Relay (RM_Response r)")
  case True
  then obtain r where e: "e = EV_Relay (RM_Response r)" by blast
  show ?thesis
  proof (cases "hash_get (jr_id r) (lc_in_progress s)")
    case None
    with assms e show ?thesis
      by (simp add: lb_on_response_def pass_on_response_def bills_def accounted_def account_next_def)
  next
    case (Some rq)
    with assms e have "fx = [LE_Respond rq r] \<or>
        fx = [LE_Respond rq r, LE_Account_One_Request] \<and> billable_code (jr_code r) \<and> \<not> rq_is_health_check rq"
      by (auto simp: lb_on_response_def pass_on_response_def split: if_splits)
    then show ?thesis by (auto simp: bills_def accounted_def account_next_def)
  qed
next
  case False
  then have "LE_Account_One_Request \<notin> set fx"
    using assms kex_accounts_nothing [of v _ s s' fx go]
    by (cases "(v, e, s)" rule: lb_handle.cases)
      (auto simp: pass_on_request_def lb_send_def Let_def fail_request_def lb_on_pong_def lb_on_ping_tick_def
        split: option.splits if_splits)
  then show ?thesis by (rule bills_nothing)
qed

lemma pass_on_response_accounts_nothing:
  "pass_on_response r s = (s', fx, b) \<Longrightarrow> LE_Account_One_Request \<notin> set fx"
  by (auto simp: pass_on_response_def split: option.splits)

lemma lb_drain_accounts_nothing:
  "lb_drain L reason es s = (s', fx) \<Longrightarrow> LE_Account_One_Request \<notin> set fx"
proof (induction L reason es s arbitrary: s' fx rule: lb_drain.induct)
  case (3 L reason r es s)
  obtain s1 fx1 b where p: "pass_on_response r s = (s1, fx1, b)" by (cases "pass_on_response r s")
  obtain s2 fx2 where d: "lb_drain L reason es s1 = (s2, fx2)" by fastforce
  from 3 p d pass_on_response_accounts_nothing [OF p] show ?case by auto
qed (auto simp: fail_request_def split: prod.splits)

lemma lb_finish_accounts_nothing:
  assumes "lb_finish L es s = (s', fx)"
  shows "LE_Account_One_Request \<notin> set fx"
proof -
  let ?reason = "case lc_disconnection_reason s of Some r \<Rightarrow> r | None \<Rightarrow> ''reason unknown''"
  obtain s1 fx1 where d: "lb_drain L ?reason es (s\<lparr>lc_hydra_controller := None\<rparr>) = (s1, fx1)" by fastforce
  with assms lb_drain_accounts_nothing [OF d] show ?thesis
    by (auto simp: lb_finish_def Let_def fail_request_def)
qed

lemma lp_exec_bills:
  assumes "lp_exec l p = Some p'" and "bills (lp_log p)"
  shows "bills (lp_log p')"
proof (cases l)
  case (LP_Arrive e)
  have "bills (lost_with e)" by (cases e) (simp_all add: lost_with_def bills_nothing)
  with LP_Arrive assms show ?thesis by (auto simp: bills_append split: if_splits)
next
  case (LP_Handle v)
  with assms obtain e es where q: "lp_queue p = e # es" and o: "lp_open p"
    by (auto split: if_splits list.splits)
  obtain s fx go where h: "lb_handle v e (lp_conn p) = (s, fx, go)" by (cases "lb_handle v e (lp_conn p)")
  obtain s' fx' where f: "lb_finish (en_http v) es s = (s', fx')" by fastforce
  have "bills fx'" by (rule bills_nothing [OF lb_finish_accounts_nothing [OF f]])
  with lb_handle_bills [OF h] LP_Handle assms q o h f show ?thesis
    by (auto simp: bills_append split: if_splits)
next
  case (LP_Expire now)
  have "bills (map (\<lambda>(_, rq). LE_Drop rq) xs)" for xs :: "(uuid \<times> request_state) list"
    by (rule bills_nothing) auto
  with LP_Expire assms show ?thesis
    by (auto simp: lb_clean_up_expired_def bills_append split: if_splits)
qed

lemma lp_run_bills: "lp_run ls p = Some p' \<Longrightarrow> bills (lp_log p) \<Longrightarrow> bills (lp_log p')"
  by (erule runs_invariant) (auto intro: lp_exec_bills)

section \<open>The properties\<close>

text \<open>C16: Every request that reaches the connection is settled exactly once. In every run of the event
  loop, under every order of arrivals, handled events, failing sends and expiry rounds, the requests
  that arrived are, counted with multiplicity, those answered (by the relay or by an error response),
  those whose sender was dropped (expired, replaced by a request with the same id, or arriving too
  late) and those still queued or in progress; and once the loop has ended none is pending.\<close>

theorem lb_requests_conserved:
  assumes "lp_run ls lp_start = Some p"
  shows "arrived ls = settled (lp_log p) + pending_requests p \<and>
    (\<not> lp_open p \<longrightarrow> pending_requests p = {#})"
  using lp_run_balance [OF assms]
  by (auto simp: process_ok_def pending_requests_def in_progress_def settle_simps)

definition demo_lb_env :: lb_env where
  "demo_lb_env = \<lparr>en_http = demo_http_lib, en_socket_open = True, en_now = 5, en_controller_alive = True,
     en_hydras = Some kex_demo_config, en_kex = kex_demo_env, en_strong = 2, en_listener_error = None,
     en_show_error = (\<lambda>_. ''error'')\<rparr>"

definition demo_rq :: "nat \<Rightarrow> u128 \<Rightarrow> request_state" where
  "demo_rq n k = \<lparr>rq_respond_to = n, rq_expires = 60000,
     rq_underlying = \<lparr>jq_id = Uuid k, jq_method = JGET, jq_path = ''/'', jq_query = None, jq_header = [],
                      jq_body_base64 = []\<rparr>,
     rq_is_health_check = False\<rparr>"

definition demo_answer :: "u128 \<Rightarrow> json_response" where
  "demo_answer k = \<lparr>jr_id = Uuid k, jr_code = 200, jr_header = [], jr_body_base64 = []\<rparr>"

text \<open>The key exchange, one request answered, one request cut off by the end of the connection.\<close>

definition demo_lp_steps :: "lb_step list" where
  "demo_lp_steps =
     [LP_Handle demo_lb_env,
      LP_Arrive (EV_Relay (RM_HydraKExRequest kex_demo_req)), LP_Handle demo_lb_env,
      LP_Arrive (EV_Relay (RM_HydraKExRequest (kex_demo_req\<lparr>kq_accepted_platform_h2h_port := Some 5001\<rparr>))),
      LP_Handle demo_lb_env,
      LP_Arrive (EV_New_Request (demo_rq 1 1)), LP_Handle demo_lb_env,
      LP_Arrive (EV_Relay (RM_Response (demo_answer 1))), LP_Handle demo_lb_env,
      LP_Arrive (EV_New_Request (demo_rq 2 2)), LP_Handle demo_lb_env,
      LP_Arrive (EV_Finish ''bye''), LP_Handle demo_lb_env]"

lemmas lb_run_defs = demo_lp_steps_def lp_start_def lb_conn_new_def demo_lb_env_def lb_on_ping_tick_def
  lb_send_def Let_def lb_on_kex_request_def lb_drop_controller_def lb_kex_reply_def
  initialize_key_exchange_def spawn_new_def kex_demo_env_def kex_demo_config_def
  kex_demo_req_def f64_of_u64_def MIN_FUEL_LOVELACE_def LB_EVENT_CAPACITY_def
  pass_on_request_def lb_on_response_def pass_on_response_def billable_code_def
  lb_finish_def fail_request_def demo_rq_def demo_answer_def hash_get_def hash_insert_def hash_remove_def

lemma demo_lp_run:
  "\<exists>p. lp_run demo_lp_steps lp_start = Some p \<and> \<not> lp_open p \<and> accounted (lp_log p) = 1 \<and>
     settled (lp_log p) = {#demo_rq 1 1, demo_rq 2 2#}"
  by (simp add: lb_run_defs accounted_def)

theorem lb_requests_conserved_witness:
  "\<exists>p. lp_run demo_lp_steps lp_start = Some p \<and> \<not> lp_open p \<and>
     arrived demo_lp_steps = {#demo_rq 1 1, demo_rq 2 2#} \<and> pending_requests p = {#}"
proof -
  obtain p where p: "lp_run demo_lp_steps lp_start = Some p" "\<not> lp_open p"
    and all: "settled (lp_log p) = {#demo_rq 1 1, demo_rq 2 2#}"
    using demo_lp_run by (elim exE conjE)
  from lb_requests_conserved [OF p(1)] p(2)
  have "pending_requests p = {#}" "arrived demo_lp_steps = settled (lp_log p)" by simp_all
  with p all show ?thesis by (intro exI conjI) simp_all
qed

text \<open>C17: Only answered user requests are accounted to the micropayments. In every run there are as many
  calls of account_one_request as answers that directly precede one, are not health checks and carry a
  code from 200 to 499; each of them answers a different request that arrived, so no request is accounted
  twice, and neither health checks nor responses to unknown requests are accounted.\<close>

theorem lb_billing:
  assumes "lp_run ls lp_start = Some p"
  shows "accounted (lp_log p) = length (billed_requests (lp_log p)) \<and>
    mset (billed_requests (lp_log p)) \<subseteq># arrived ls"
proof
  have "bills (lp_log lp_start)" by (simp add: lp_start_def bills_nothing)
  with lp_run_bills [OF assms] show "accounted (lp_log p) = length (billed_requests (lp_log p))"
    by (simp add: bills_def)
  from lp_run_balance [OF assms] billed_settled [of "lp_log p"] show "mset (billed_requests (lp_log p)) \<subseteq># arrived ls"
    by (simp add: subset_mset.add_increasing2)
qed

theorem lb_billing_witness:
  "\<exists>p. lp_run demo_lp_steps lp_start = Some p \<and> length (billed_requests (lp_log p)) = 1"
proof -
  obtain p where p: "lp_run demo_lp_steps lp_start = Some p" and one: "accounted (lp_log p) = 1"
    using demo_lp_run by (elim exE conjE)
  from lb_billing [OF p] one p show ?thesis by (intro exI conjI) simp_all
qed

section \<open>Liveness of the peer\<close>

interpretation lbw: ping_watchdog lb_handle "\<lambda>s. lc_last_ping_sent_at s \<noteq> None" lc_last_ping_id
  EV_Ping_Tick "\<lambda>k. EV_Relay (RM_Pong k)" "\<lambda>k. LE_Send (LM_Ping k)" en_socket_open
proof
  fix s s' :: lb_conn and v fx go
  assume "lb_handle v EV_Ping_Tick s = (s', fx, go)"
  then show "lc_last_ping_sent_at s \<noteq> None \<Longrightarrow> \<not> go"
    and "\<not> lc_last_ping_sent_at s \<noteq> None \<Longrightarrow>
      lc_last_ping_id s' = lc_last_ping_id s + 1 \<and> lc_last_ping_sent_at s' \<noteq> None \<and> go = en_socket_open v \<and>
      (en_socket_open v \<longrightarrow> LE_Send (LM_Ping (lc_last_ping_id s')) \<in> set fx)"
    by (auto simp: lb_on_ping_tick_def Let_def lb_send_def split: if_splits)
next
  fix s s' :: lb_conn and v fx go k
  assume "lb_handle v (EV_Relay (RM_Pong k)) s = (s', fx, go)"
  then show "go \<and> lc_last_ping_id s' = lc_last_ping_id s \<and>
      ((lc_last_ping_sent_at s' \<noteq> None) = (lc_last_ping_sent_at s \<noteq> None \<and> k \<noteq> lc_last_ping_id s))"
    by (auto simp: lb_on_pong_def split: option.splits if_splits)
next
  fix s s' :: lb_conn and v e fx go
  assume *: "e \<noteq> EV_Ping_Tick" "e \<notin> range (\<lambda>k. EV_Relay (RM_Pong k))" "lb_handle v e s = (s', fx, go)"
  have kex: "lc_last_ping_id s' = lc_last_ping_id s \<and> lc_last_ping_sent_at s' = lc_last_ping_sent_at s"
    if "lb_on_kex_request v req s = (s', fx, go)" for req
    using that by (auto simp: lb_on_kex_request_def lb_drop_controller_def lb_kex_reply_def Let_def lb_send_def
        split: option.splits sum.splits prod.splits if_splits)
  show "lc_last_ping_id s' = lc_last_ping_id s \<and>
      (lc_last_ping_sent_at s' \<noteq> None) = (lc_last_ping_sent_at s \<noteq> None)"
    using * kex by (cases "(v, e, s)" rule: lb_handle.cases)
      (auto simp: pass_on_request_def lb_on_response_def pass_on_response_def lb_send_def Let_def
        split: option.splits if_splits)
qed

text \<open>A relay that does not answer is disconnected, one that answers is not. After a ping tick with no
  ping outstanding, whatever else is handled before the next tick, that next tick keeps the connection
  exactly when a pong with the number of the new ping has arrived in between and the socket takes the next
  ping.\<close>

theorem lb_silent_relay:
  assumes "lc_last_ping_sent_at s = None" and "en_socket_open v" and "EV_Ping_Tick \<notin> snd ` set es"
    and "event_loop lb_handle ((v, EV_Ping_Tick) # es) s = (s', fx, True)"
    and "event_loop lb_handle ((v, EV_Ping_Tick) # es @ [(v', EV_Ping_Tick)]) s = (s'', fx', go)"
  shows "go \<longleftrightarrow> en_socket_open v' \<and> EV_Relay (RM_Pong (lc_last_ping_id s + 1)) \<in> snd ` set es"
  by (rule lbw.two_ticks [OF _ assms(2-5)]) (simp add: assms(1))

theorem lb_silent_relay_witness:
  "\<exists>s' fx' s'' fx''.
     event_loop lb_handle [(demo_lb_env, EV_Ping_Tick), (demo_lb_env, EV_Ping_Tick)] lb_conn_new = (s', fx', False) \<and>
     event_loop lb_handle [(demo_lb_env, EV_Ping_Tick), (demo_lb_env, EV_Relay (RM_Pong 1)),
       (demo_lb_env, EV_Ping_Tick)] lb_conn_new = (s'', fx'', True)"
proof -
  let ?T = "(demo_lb_env, EV_Ping_Tick)" and ?P = "(demo_lb_env, EV_Relay (RM_Pong 1))"
  have v: "lc_last_ping_sent_at lb_conn_new = None" "lc_last_ping_id lb_conn_new = 0" "en_socket_open demo_lb_env"
    by (simp_all add: lb_conn_new_def demo_lb_env_def)
  obtain s1 fx1 where 1: "event_loop lb_handle (?T # []) lb_conn_new = (s1, fx1, True)"
    by (simp add: lb_on_ping_tick_def lb_send_def v)
  obtain s2 fx2 where 2: "event_loop lb_handle (?T # [?P]) lb_conn_new = (s2, fx2, True)"
    by (simp add: lb_on_ping_tick_def lb_on_pong_def lb_send_def v)
  obtain s3 fx3 g3 where 3: "event_loop lb_handle (?T # [] @ [?T]) lb_conn_new = (s3, fx3, g3)"
    by (cases "event_loop lb_handle (?T # [] @ [?T]) lb_conn_new")
  obtain s4 fx4 g4 where 4: "event_loop lb_handle (?T # [?P] @ [?T]) lb_conn_new = (s4, fx4, g4)"
    by (cases "event_loop lb_handle (?T # [?P] @ [?T]) lb_conn_new")
  have "\<not> g3" using lb_silent_relay [OF v(1) v(3) _ 1 3] by simp
  moreover have "g4" using lb_silent_relay [OF v(1) v(3) _ 2 4] by (simp add: v)
  ultimately show ?thesis using 3 4 by simp
qed

end
