(* ===== verification/Tcp_Tunnel_Correct.thy ===== *)
theory Tcp_Tunnel_Correct
  imports Tcp_Tunnel
begin

unbundle bit_operations_syntax

text \<open>
  What the tunnel promises its streams when the two ends allocate ids from opposite halves, as
  its configuration asks for: each stream is a byte pipe, unless its first data come back while the
  end that opened it has not inserted its route yet. And what becomes of two streams when both ends
  set the prefix bit, as all callers do.
\<close>

section \<open>Stream ids\<close>

definition id_num :: "u64 \<Rightarrow> nat" where "id_num i = unat i mod 2 ^ 63"

lemma id_num_take_bit: "id_num i = unat (take_bit 63 i)"
  by (metis id_num_def unsigned_take_bit_eq take_bit_eq_mod)

lemma stream_id_eqI:
  assumes "id_num i = id_num j" and "bit i 63 = bit j 63"
  shows "i = j"
proof (rule bit_eqI)
  fix n :: nat
  assume "possible_bit TYPE(u64) n"
  then have n: "n < 64" by simp
  have "take_bit 63 i = take_bit 63 j"
    using assms(1) unfolding id_num_take_bit by (rule word_unat_eq_iff [THEN iffD2])
  then have "n < 63 \<Longrightarrow> bit i n = bit j n" by (metis bit_take_bit_iff)
  then show "bit i n = bit j n" using n assms(2) by (cases "n = 63") auto
qed

lemma id_num_Suc:
  assumes "id_num i < 2 ^ 63 - 1"
  shows "id_num (i + 1) = Suc (id_num i)"
proof -
  have "id_num (i + 1) = (unat i + 1) mod 2 ^ 63"
    by (simp add: id_num_def unat_word_ariths mod_mod_cancel)
  also have "\<dots> = (id_num i + 1) mod 2 ^ 63" by (simp add: id_num_def mod_simps)
  finally show ?thesis using assms by simp
qed

lemma bit_ID_PREFIX: "bit ID_PREFIX n \<longleftrightarrow> n = 63"
  unfolding ID_PREFIX_def bit_push_bit_iff bit_1_iff by auto

lemma alloc_local_id_num:
  assumes "alloc_local_id u = (i, u')"
  shows "id_num i = id_num (tu_next_id u)" "bit i 63 = tc_id_prefix_bit (tu_cfg u)"
    "u' = u\<lparr>tu_next_id := tu_next_id u + 1\<rparr>"
proof -
  have i: "i = (tu_next_id u AND NOT ID_PREFIX) OR id_prefix (tu_cfg u)"
    and u': "u' = u\<lparr>tu_next_id := tu_next_id u + 1\<rparr>"
    using assms by (auto simp: alloc_local_id_def Let_def)
  have "take_bit 63 i = take_bit 63 (tu_next_id u)"
    by (rule bit_eqI)
      (auto simp: i id_prefix_def bit_ID_PREFIX bit_take_bit_iff bit_or_iff bit_and_iff bit_not_iff)
  then show "id_num i = id_num (tu_next_id u)" by (simp add: id_num_take_bit)
  show "bit i 63 = tc_id_prefix_bit (tu_cfg u)"
    by (simp add: i id_prefix_def bit_ID_PREFIX bit_or_iff bit_and_iff bit_not_iff)
  show "u' = u\<lparr>tu_next_id := tu_next_id u + 1\<rparr>" by (rule u')
qed

section \<open>The bytes of a stream\<close>

fun datas :: "codec \<Rightarrow> u64 \<Rightarrow> tunnel_msg list \<Rightarrow> string" where
  "datas cd i [] = []"
| "datas cd i (TM_Data j b # ms) =
     (if i = j then (case cd_decode cd b of None \<Rightarrow> [] | Some s \<Rightarrow> s) else []) @ datas cd i ms"
| "datas cd i (_ # ms) = datas cd i ms"

fun opens :: "tunnel_msg list \<Rightarrow> u64 list" where
  "opens [] = []"
| "opens (TM_Open i # ms) = i # opens ms"
| "opens (_ # ms) = opens ms"

fun after_open :: "u64 \<Rightarrow> tunnel_msg list \<Rightarrow> tunnel_msg list" where
  "after_open i [] = []"
| "after_open i (TM_Open j # ms) = (if i = j then ms else after_open i ms)"
| "after_open i (_ # ms) = after_open i ms"

fun writes :: "conn_cmd list \<Rightarrow> string" where
  "writes [] = []"
| "writes (CC_Write s # q) = s @ writes q"
| "writes (CC_Close _ # q) = writes q"

text \<open>The ids an end knows: those of its tasks, and the one its listener is opening.\<close>

definition stream_ids :: "tunnel \<Rightarrow> u64 list" where
  "stream_ids u = map ct_id (tu_tasks u) @ (case tu_opening u of Some i \<Rightarrow> [i] | None \<Rightarrow> [])"

definition bytes_read :: "u64 \<Rightarrow> tunnel \<Rightarrow> string" where
  "bytes_read i u = concat (map ct_read (filter (\<lambda>k. ct_id k = i) (tu_tasks u)))"

lemma datas_append: "datas cd i (ms @ ns) = datas cd i ms @ datas cd i ns"
  by (induction cd i ms rule: datas.induct) auto

lemma opens_append: "opens (ms @ ns) = opens ms @ opens ns"
  by (induction ms rule: opens.induct) auto

lemma after_open_append:
  "after_open i (ms @ ns) = (if i \<in> set (opens ms) then after_open i ms @ ns else after_open i ns)"
  by (induction i ms rule: after_open.induct) auto

lemma writes_append: "writes (p @ q) = writes p @ writes q"
  by (induction p rule: writes.induct) auto

text \<open>Equal while the sender's channel is open; what a closed channel loses is at the end.\<close>

definition upto_closing :: "bool \<Rightarrow> string \<Rightarrow> string \<Rightarrow> bool" where
  "upto_closing shut s r \<longleftrightarrow> (if shut then prefix s r else s = r)"

lemma upto_closing_prefix: "upto_closing shut (s @ t) r \<Longrightarrow> prefix s r"
  by (auto simp: upto_closing_def intro: append_prefixD split: if_splits)

text \<open>A task of the receiving end, with its route or without; nothing is said of the streams in \<open>F\<close>.\<close>

definition task_ok :: "codec \<Rightarrow> u64 set \<Rightarrow> tunnel \<Rightarrow> bool \<Rightarrow> conn_task \<Rightarrow> bool" where
  "task_ok cd F s routed k \<longleftrightarrow> ct_id k \<notin> F \<longrightarrow>
     (if ct_phase k = Running
      then if routed
           then upto_closing (tu_out_closed s) (ct_written k @ writes (ct_queue k) @ datas cd (ct_id k) (tu_out s))
                  (bytes_read (ct_id k) s)
           else prefix (ct_written k @ writes (ct_queue k)) (bytes_read (ct_id k) s)
      else prefix (ct_written k) (bytes_read (ct_id k) s))"

definition routed :: "tunnel \<Rightarrow> nat \<Rightarrow> bool" where
  "routed u t \<longleftrightarrow> hash_get (ct_id (tu_tasks u ! t)) (tu_conns u) = Some t"

text \<open>What end \<open>r\<close> receives from \<open>s\<close>, but for the streams in \<open>F\<close>.\<close>

definition link_ok :: "codec \<Rightarrow> u64 set \<Rightarrow> tunnel \<Rightarrow> tunnel \<Rightarrow> bool" where
  "link_ok cd F r s \<longleftrightarrow>
     (\<forall>t < length (tu_tasks r). task_ok cd F s (routed r t) (tu_tasks r ! t)) \<and>
     (\<forall>i. tu_opening r = Some i \<and> i \<notin> F \<longrightarrow>
        upto_closing (tu_out_closed s) (datas cd i (tu_out s)) (bytes_read i s)) \<and>
     (\<forall>i \<in> set (opens (tu_out s)).
        upto_closing (tu_out_closed s) (datas cd i (after_open i (tu_out s))) (bytes_read i s))"

definition local_ok :: "tunnel \<Rightarrow> bool" where
  "local_ok u \<longleftrightarrow> hash_ok (tu_conns u) \<and> distinct (stream_ids u) \<and>
     (\<forall>i t. hash_get i (tu_conns u) = Some t \<longrightarrow>
        t < length (tu_tasks u) \<and> ct_id (tu_tasks u ! t) = i \<and> ct_phase (tu_tasks u ! t) \<noteq> Ended)"

text \<open>The ids of end \<open>u\<close>, seen with its peer \<open>v\<close>.\<close>

definition ids_ok :: "codec \<Rightarrow> bool \<Rightarrow> tunnel \<Rightarrow> tunnel \<Rightarrow> bool" where
  "ids_ok cd b u v \<longleftrightarrow>
     tc_id_prefix_bit (tu_cfg u) = b \<and> distinct (opens (tu_out u)) \<and>
     (\<forall>i. tu_opening u = Some i \<longrightarrow> bit i 63 = b) \<and>
     (\<forall>i \<in> set (opens (tu_out u)). bit i 63 = b \<and> i \<in> set (stream_ids u) \<and> i \<notin> set (stream_ids v)) \<and>
     (\<forall>i \<in> set (stream_ids u).
        if bit i 63 = b then id_num i < id_num (tu_next_id u) else i \<in> set (stream_ids v)) \<and>
     (\<forall>i. i \<notin> set (stream_ids u) \<longrightarrow> datas cd i (tu_out u) = [])"

definition tunnel_ok :: "codec \<Rightarrow> (bool \<Rightarrow> u64 set) \<Rightarrow> (bool \<Rightarrow> bool) \<Rightarrow> tunnel_pair \<Rightarrow> bool" where
  "tunnel_ok cd E b p \<longleftrightarrow>
     (\<forall>x. local_ok (p x) \<and> ids_ok cd (b x) (p x) (p (\<not> x)) \<and> link_ok cd (E x) (p x) (p (\<not> x)))"

lemma tunnel_okD:
  assumes "tunnel_ok cd E b p"
  shows "local_ok (p x)" "ids_ok cd (b x) (p x) (p (\<not> x))" "link_ok cd (E x) (p x) (p (\<not> x))"
    "ids_ok cd (b (\<not> x)) (p (\<not> x)) (p x)" "link_ok cd (E (\<not> x)) (p (\<not> x)) (p x)" "local_ok (p (\<not> x))"
proof -
  show "local_ok (p x)" "ids_ok cd (b x) (p x) (p (\<not> x))" "link_ok cd (E x) (p x) (p (\<not> x))" "local_ok (p (\<not> x))"
    using assms by (simp_all add: tunnel_ok_def)
  have "ids_ok cd (b (\<not> x)) (p (\<not> x)) (p (\<not> \<not> x)) \<and> link_ok cd (E (\<not> x)) (p (\<not> x)) (p (\<not> \<not> x))"
    using assms unfolding tunnel_ok_def by blast
  then show "ids_ok cd (b (\<not> x)) (p (\<not> x)) (p x)" "link_ok cd (E (\<not> x)) (p (\<not> x)) (p x)" by simp_all
qed

lemma tunnel_okI:
  assumes "local_ok u" "local_ok v" "ids_ok cd (b x) u v" "ids_ok cd (b (\<not> x)) v u"
    "link_ok cd (E x) u v" "link_ok cd (E (\<not> x)) v u"
  shows "tunnel_ok cd E b (p(x := u, (\<not> x) := v))"
  unfolding tunnel_ok_def
proof
  fix y
  show "local_ok ((p(x := u, (\<not> x) := v)) y) \<and>
    ids_ok cd (b y) ((p(x := u, (\<not> x) := v)) y) ((p(x := u, (\<not> x) := v)) (\<not> y)) \<and>
    link_ok cd (E y) ((p(x := u, (\<not> x) := v)) y) ((p(x := u, (\<not> x) := v)) (\<not> y))"
    using assms by (cases "y = x") (auto simp: fun_upd_def)
qed

section \<open>Steps that leave the bytes of the sending side alone\<close>

definition quiet :: "codec \<Rightarrow> tunnel \<Rightarrow> tunnel \<Rightarrow> bool" where
  "quiet cd u u' \<longleftrightarrow>
     stream_ids u' = stream_ids u \<and> tu_opening u' = tu_opening u \<and> (\<forall>i. bytes_read i u' = bytes_read i u) \<and>
     tu_next_id u' = tu_next_id u \<and> tu_cfg u' = tu_cfg u \<and> tu_out_closed u' = tu_out_closed u \<and>
     opens (tu_out u') = opens (tu_out u) \<and>
     (\<forall>i. datas cd i (tu_out u') = datas cd i (tu_out u)) \<and>
     (\<forall>i \<in> set (opens (tu_out u)).
        datas cd i (after_open i (tu_out u')) = datas cd i (after_open i (tu_out u)))"

lemma quiet_trans: "quiet cd u v \<Longrightarrow> quiet cd v w \<Longrightarrow> quiet cd u w"
  by (simp add: quiet_def)

lemma bytes_read_pairs:
  "bytes_read i u = concat (map snd (filter (\<lambda>(j, s). j = i) (map (\<lambda>k. (ct_id k, ct_read k)) (tu_tasks u))))"
  by (simp add: bytes_read_def filter_map o_def)

lemma map_update_same: "f y = f (xs ! t) \<Longrightarrow> map f (xs[t := y]) = map f xs"
  by (metis list_update_id map_update)

lemma nth_update_if: "k < length xs \<Longrightarrow> xs[t := y] ! k = (if k = t then y else xs ! k)"
  by simp

lemma quiet_at_task:
  assumes "ct_id (f (tu_tasks u ! t)) = ct_id (tu_tasks u ! t)"
    and "ct_read (f (tu_tasks u ! t)) = ct_read (tu_tasks u ! t)"
  shows "quiet cd u (at_task t f u)"
  using assms
  by (simp add: quiet_def at_task_def stream_ids_def bytes_read_pairs map_update_same)

lemma quiet_close: "quiet cd u (send_out (TM_Close i c m) u)"
  by (simp add: quiet_def send_out_def stream_ids_def bytes_read_def opens_append datas_append after_open_append)

lemma quiet_conns: "quiet cd u (u\<lparr>tu_conns := c\<rparr>)"
  by (simp add: quiet_def stream_ids_def bytes_read_def)

lemma quiet_cancel: "quiet cd u (u\<lparr>tu_cancelled := c\<rparr>)"
  by (simp add: quiet_def stream_ids_def bytes_read_def)

lemma quiet_ids: "quiet cd u u' \<Longrightarrow> ids_ok cd b u v \<Longrightarrow> ids_ok cd b u' v"
  by (simp add: quiet_def ids_ok_def)

lemma quiet_ids_peer: "quiet cd u u' \<Longrightarrow> ids_ok cd b v u \<Longrightarrow> ids_ok cd b v u'"
  by (simp add: quiet_def ids_ok_def)

lemma ids_ok_peer: "ids_ok cd b v u \<Longrightarrow> stream_ids u' = stream_ids u \<Longrightarrow> ids_ok cd b v u'"
  by (simp add: ids_ok_def)

lemma ids_ok_out:
  assumes "ids_ok cd b u v" and "stream_ids u' = stream_ids u" "tu_next_id u' = tu_next_id u" "tu_cfg u' = tu_cfg u"
      "tu_opening u' = tu_opening u"
    and "distinct (opens (tu_out u'))" "set (opens (tu_out u')) \<subseteq> set (opens (tu_out u))"
    and "\<And>i. i \<notin> set (stream_ids u) \<Longrightarrow> datas cd i (tu_out u) = [] \<Longrightarrow> datas cd i (tu_out u') = []"
  shows "ids_ok cd b u' v"
  using assms by (simp add: ids_ok_def subset_iff)

lemma quiet_link: "quiet cd u u' \<Longrightarrow> link_ok cd F v u \<Longrightarrow> link_ok cd F v u'"
  by (simp add: quiet_def link_ok_def task_ok_def)

lemma tunnel_ok_quiet:
  assumes "tunnel_ok cd E b p" and "quiet cd (p x) u" and "local_ok u" and "link_ok cd (E x) u (p (\<not> x))"
  shows "tunnel_ok cd E b (p(x := u))"
proof -
  have "p(x := u) = p(x := u, (\<not> x) := p (\<not> x))" by auto
  moreover have "tunnel_ok cd E b (p(x := u, (\<not> x) := p (\<not> x)))"
    using assms(3) tunnel_okD(6) [OF assms(1), of x] quiet_ids [OF assms(2) tunnel_okD(2) [OF assms(1), of x]]
      quiet_ids_peer [OF assms(2) tunnel_okD(4) [OF assms(1), of x]] assms(4)
      quiet_link [OF assms(2) tunnel_okD(5) [OF assms(1), of x]]
    by (rule tunnel_okI)
  ultimately show ?thesis by simp
qed

section \<open>The receiving side\<close>

lemma local_ok_at_task:
  assumes "local_ok u" and "ct_id (f (tu_tasks u ! t)) = ct_id (tu_tasks u ! t)"
    and "ct_phase (f (tu_tasks u ! t)) = Ended \<Longrightarrow> ct_phase (tu_tasks u ! t) = Ended \<or> \<not> routed u t"
  shows "local_ok (at_task t f u)"
proof -
  have "stream_ids (at_task t f u) = stream_ids u"
    using assms(2) by (simp add: at_task_def stream_ids_def map_update_same)
  with assms show ?thesis
    by (auto simp: local_ok_def at_task_def routed_def nth_update_if split: if_splits)
qed

lemma local_ok_remove: "local_ok u \<Longrightarrow> local_ok (u\<lparr>tu_conns := hash_remove i (tu_conns u)\<rparr>)"
  by (simp add: local_ok_def hash.ok_remove hash.get_remove stream_ids_def)

lemma local_ok_send_out: "local_ok u \<Longrightarrow> local_ok (send_out m u)"
  by (simp add: local_ok_def send_out_def stream_ids_def)

lemma task_ok_written: "task_ok cd F s b k \<Longrightarrow> ct_id k \<notin> F \<Longrightarrow> prefix (ct_written k) (bytes_read (ct_id k) s)"
  by (auto simp: task_ok_def dest: upto_closing_prefix append_prefixD split: if_splits)

lemma task_ok_queued:
  "task_ok cd F s b k \<Longrightarrow> ct_id k \<notin> F \<Longrightarrow> ct_phase k = Running \<Longrightarrow> prefix (ct_written k @ writes (ct_queue k)) (bytes_read (ct_id k) s)"
  using upto_closing_prefix [of _ "ct_written k @ writes (ct_queue k)"]
  by (auto simp: task_ok_def split: if_splits)

lemma task_ok_unroute: "task_ok cd F s b k \<Longrightarrow> task_ok cd F s False k"
  using task_ok_written task_ok_queued by (auto simp: task_ok_def [of cd F s False])

lemma task_ok_leave:
  "(ct_id k \<notin> F \<Longrightarrow> prefix (ct_written k) (bytes_read (ct_id k) s)) \<Longrightarrow> task_ok cd F s b (leave why k)"
  by (simp add: task_ok_def leave_def)

lemma task_ok_push_close: "task_ok cd F s b k \<Longrightarrow> task_ok cd F s b (push_cmd (CC_Close c) k)"
  by (simp add: task_ok_def push_cmd_def writes_append)

lemma link_ok_task: "link_ok cd F r s \<Longrightarrow> t < length (tu_tasks r) \<Longrightarrow> task_ok cd F s (routed r t) (tu_tasks r ! t)"
  by (simp add: link_ok_def)

lemma link_ok_at_task:
  assumes "link_ok cd F r s" and "ct_id (f (tu_tasks r ! t)) = ct_id (tu_tasks r ! t)"
    and "t < length (tu_tasks r) \<Longrightarrow> task_ok cd F s (routed r t) (f (tu_tasks r ! t))"
  shows "link_ok cd F (at_task t f r) s"
proof -
  have "routed (at_task t f r) k = routed r k" if "k < length (tu_tasks r)" for k
    using that assms(2) by (simp add: routed_def at_task_def nth_update_if)
  with assms show ?thesis
    by (auto simp: link_ok_def at_task_def nth_update_if)
qed

lemma link_ok_unroute:
  assumes "link_ok cd F r s" and "local_ok r"
  shows "link_ok cd F (r\<lparr>tu_conns := hash_remove i (tu_conns r)\<rparr>) s"
proof -
  have "routed (r\<lparr>tu_conns := hash_remove i (tu_conns r)\<rparr>) t =
      (if ct_id (tu_tasks r ! t) = i then False else routed r t)" for t
    using assms(2) by (simp add: routed_def local_ok_def hash.get_remove)
  with assms(1) show ?thesis
    by (auto simp: link_ok_def intro: task_ok_unroute)
qed

lemma link_ok_send_out: "link_ok cd F r s \<Longrightarrow> link_ok cd F (send_out m r) s"
  by (simp add: link_ok_def send_out_def routed_def)

text \<open>A step of one task that changes neither routes nor ids.\<close>

lemma tunnel_ok_at_task:
  assumes "tunnel_ok cd E b p" and "t < length (tu_tasks (p x))"
    and "ct_id (f (tu_tasks (p x) ! t)) = ct_id (tu_tasks (p x) ! t)"
    and "ct_read (f (tu_tasks (p x) ! t)) = ct_read (tu_tasks (p x) ! t)"
    and "ct_phase (f (tu_tasks (p x) ! t)) = Ended \<Longrightarrow> ct_phase (tu_tasks (p x) ! t) = Ended \<or> \<not> routed (p x) t"
    and "task_ok cd (E x) (p (\<not> x)) (routed (p x) t) (f (tu_tasks (p x) ! t))"
  shows "tunnel_ok cd E b (p(x := at_task t f (p x)))"
  using assms(1)
proof (rule tunnel_ok_quiet)
  show "quiet cd (p x) (at_task t f (p x))" using assms(3,4) by (rule quiet_at_task)
  show "local_ok (at_task t f (p x))"
    using tunnel_okD(1) [OF assms(1)] assms(3,5) by (rule local_ok_at_task)
  show "link_ok cd (E x) (at_task t f (p x)) (p (\<not> x))"
    using tunnel_okD(3) [OF assms(1)] assms(3,6) by (rule link_ok_at_task)
qed

lemma tunnel_ok_leave:
  assumes "tunnel_ok cd E b p" and "t < length (tu_tasks (p x))"
  shows "tunnel_ok cd E b (p(x := at_task t (leave why) (p x)))"
  using assms link_ok_task [OF tunnel_okD(3) [OF assms(1)] assms(2)]
  by (intro tunnel_ok_at_task task_ok_leave task_ok_written) (simp_all add: leave_def)

section \<open>Each step keeps the invariant\<close>

lemma filter_unique:
  assumes "distinct (map f xs)" and "t < length xs"
  shows "filter (\<lambda>k. f k = f (xs ! t)) xs = [xs ! t]"
  using assms
proof (induction xs arbitrary: t)
  case (Cons y xs)
  show ?case
  proof (cases t)
    case 0
    have "f x \<noteq> f y" if "x \<in> set xs" for x
      using Cons.prems(1) imageI [OF that, of f] by auto
    with 0 show ?thesis by (simp add: filter_empty_conv)
  next
    case (Suc n)
    with Cons.prems have "f y \<noteq> f (xs ! n)" by auto
    with Suc Cons show ?thesis by simp
  qed
qed simp

lemma filter_update_outside:
  "\<not> P (xs ! t) \<Longrightarrow> \<not> P y \<Longrightarrow> filter P (xs[t := y]) = filter P xs"
proof (induction xs arbitrary: t)
  case (Cons x xs)
  then show ?case by (cases t) auto
qed simp

lemma bytes_read_unique:
  "distinct (stream_ids u) \<Longrightarrow> t < length (tu_tasks u) \<Longrightarrow>
   bytes_read (ct_id (tu_tasks u ! t)) u = ct_read (tu_tasks u ! t)"
  by (simp add: bytes_read_def stream_ids_def filter_unique)

lemma bytes_read_send_out: "bytes_read i (send_out m u) = bytes_read i u"
  by (simp add: bytes_read_def send_out_def)

lemma bytes_read_absent: "i \<notin> set (stream_ids u) \<Longrightarrow> bytes_read i u = []"
  by (auto simp: bytes_read_def stream_ids_def)

lemma bytes_read_more:
  assumes "distinct (stream_ids u)" and "t < length (tu_tasks u)"
  shows "bytes_read j (at_task t (\<lambda>k. k\<lparr>ct_read := ct_read k @ c\<rparr>) u) =
    (if j = ct_id (tu_tasks u ! t) then bytes_read j u @ c else bytes_read j u)"
proof -
  let ?u = "at_task t (\<lambda>k. k\<lparr>ct_read := ct_read k @ c\<rparr>) u"
  have ids: "stream_ids ?u = stream_ids u" by (simp add: at_task_def stream_ids_def map_update_same)
  have t: "tu_tasks ?u ! t = (tu_tasks u ! t)\<lparr>ct_read := ct_read (tu_tasks u ! t) @ c\<rparr>"
    using assms(2) by (simp add: at_task_def)
  show ?thesis
  proof (cases "j = ct_id (tu_tasks u ! t)")
    case True
    have "bytes_read (ct_id (tu_tasks ?u ! t)) ?u = ct_read (tu_tasks ?u ! t)"
      by (rule bytes_read_unique) (use assms ids in \<open>simp_all add: at_task_def\<close>)
    with True t bytes_read_unique [OF assms] show ?thesis by simp
  next
    case False
    then show ?thesis by (simp add: bytes_read_def at_task_def filter_update_outside)
  qed
qed

lemma tunnel_ok_read:
  assumes "tunnel_ok cd E b p" and "read_step cd t r (p x) = Some u"
    and cd: "\<And>s. cd_decode cd (cd_encode cd s) = Some s"
  shows "tunnel_ok cd E b (p(x := u))"
proof -
  let ?k = "tu_tasks (p x) ! t"
  from assms(2) have t: "t < length (tu_tasks (p x))" "ct_phase ?k = Running"
    by (auto simp: read_step_def split: if_splits)
  show ?thesis
  proof (cases "\<exists>chunk. r = Read_Bytes chunk \<and> chunk \<noteq> [] \<and> \<not> tu_out_closed (p x)")
    case False
    with assms(2) t obtain why where "u = at_task t (leave why) (p x)"
      by (auto simp: read_step_def split: read_outcome.splits if_splits)
    with tunnel_ok_leave [OF assms(1) t(1)] show ?thesis by simp
  next
    case True
    then obtain chunk where c: "r = Read_Bytes chunk" "chunk \<noteq> []" "\<not> tu_out_closed (p x)" by blast
    let ?f = "\<lambda>k. k\<lparr>ct_read := ct_read k @ chunk\<rparr>"
    have u: "u = send_out (TM_Data (ct_id ?k) (cd_encode cd chunk)) (at_task t ?f (p x))"
      using assms(2) c t by (simp add: read_step_def)
    have out: "tu_out u = tu_out (p x) @ [TM_Data (ct_id ?k) (cd_encode cd chunk)]"
      and same: "stream_ids u = stream_ids (p x)" "tu_next_id u = tu_next_id (p x)" "tu_cfg u = tu_cfg (p x)"
        "tu_opening u = tu_opening (p x)" "\<not> tu_out_closed u"
      using c(3) by (simp_all add: u send_out_def at_task_def stream_ids_def map_update_same)
    have d: "datas cd i (tu_out u) = datas cd i (tu_out (p x)) @ (if i = ct_id ?k then chunk else [])" for i
      by (simp add: out datas_append cd)
    have rd: "bytes_read i u = bytes_read i (p x) @ (if i = ct_id ?k then chunk else [])" for i
      using bytes_read_more [of "p x" t i chunk] t(1) tunnel_okD(1) [OF assms(1), of x]
      by (simp add: u bytes_read_send_out local_ok_def)
    have "ct_id ?k \<in> set (stream_ids (p x))" using t(1) by (simp add: stream_ids_def)
    then have none: "datas cd i (tu_out u) = []" if "i \<notin> set (stream_ids (p x))" "datas cd i (tu_out (p x)) = []" for i
      using that by (auto simp: d)
    have op: "opens (tu_out u) = opens (tu_out (p x))" by (simp add: out opens_append)
    have "distinct (opens (tu_out u))" "set (opens (tu_out u)) \<subseteq> set (opens (tu_out (p x)))"
      unfolding op using tunnel_okD(2) [OF assms(1), of x] by (simp_all add: ids_ok_def)
    with tunnel_okD(2) [OF assms(1)] same(1-4) have "ids_ok cd (b x) u (p (\<not> x))"
      using none by (rule ids_ok_out)
    moreover have "ids_ok cd (b (\<not> x)) (p (\<not> x)) u"
      using tunnel_okD(4) [OF assms(1), of x] same(1) by (rule ids_ok_peer)
    ultimately have ids: "ids_ok cd (b x) u (p (\<not> x))" "ids_ok cd (b (\<not> x)) (p (\<not> x)) u" by simp_all
    have "task_ok cd (E (\<not> x)) u rt k" if "task_ok cd (E (\<not> x)) (p x) rt k" for rt k
    proof (cases "ct_id k = ct_id ?k")
      case True
      with that c(3) same(5) show ?thesis
        unfolding task_ok_def upto_closing_def d rd by (simp split: if_splits)
    next
      case False
      with that c(3) same(5) show ?thesis unfolding task_ok_def d rd by (simp split: if_splits)
    qed
    then have "link_ok cd (E (\<not> x)) (p (\<not> x)) u"
      using tunnel_okD(5) [OF assms(1), of x] c(3) same(5)
      by (auto simp: link_ok_def out opens_append after_open_append datas_append upto_closing_def rd cd)
    moreover have "link_ok cd (E x) u (p (\<not> x))"
      unfolding u using link_ok_task [OF tunnel_okD(3) [OF assms(1)] t(1)]
      by (intro link_ok_send_out link_ok_at_task tunnel_okD(3) [OF assms(1)]) (simp_all add: task_ok_def)
    moreover have "local_ok u"
      unfolding u using t(2)
      by (intro local_ok_send_out local_ok_at_task tunnel_okD(1) [OF assms(1)]) simp_all
    moreover have "p(x := u) = p(x := u, (\<not> x) := p (\<not> x))" by auto
    ultimately show ?thesis
      using ids tunnel_okD(6) [OF assms(1), of x] tunnel_okI [of u "p (\<not> x)" cd b x E p] by simp
  qed
qed

lemma tunnel_ok_cmd:
  assumes "tunnel_ok cd E b p" and "cmd_step t e (p x) = Some u"
  shows "tunnel_ok cd E b (p(x := u))"
proof -
  let ?k = "tu_tasks (p x) ! t"
  from assms(2) have t: "t < length (tu_tasks (p x))" "ct_phase ?k = Running"
    by (auto simp: cmd_step_def split: if_splits)
  note k = link_ok_task [OF tunnel_okD(3) [OF assms(1)] t(1)]
  from assms(2) t obtain c q where q: "ct_queue ?k = c # q"
    by (auto simp: cmd_step_def split: list.splits)
  show ?thesis
  proof (cases c)
    case (CC_Close n)
    with assms(2) t q obtain why where u: "u = at_task t (\<lambda>k. leave why (k\<lparr>ct_queue := q\<rparr>)) (p x)"
      by (auto simp: cmd_step_def)
    show ?thesis unfolding u
      using t(1) task_ok_written [OF k]
      by (intro tunnel_ok_at_task [OF assms(1)] task_ok_leave) (simp_all add: leave_def)
  next
    case (CC_Write chunk)
    show ?thesis
    proof (cases e)
      case None
      with CC_Write assms(2) t q have u: "u = at_task t (\<lambda>k. k\<lparr>ct_queue := q, ct_written := ct_written k @ chunk\<rparr>) (p x)"
        by (simp add: cmd_step_def)
      show ?thesis unfolding u
        using t k CC_Write q
        by (intro tunnel_ok_at_task [OF assms(1)]) (auto simp: task_ok_def split: if_splits)
    next
      case (Some ne)
      with CC_Write assms(2) t q obtain n why where
        u: "u = at_task t (\<lambda>k. leave why (k\<lparr>ct_queue := q, ct_written := ct_written k @ take n chunk\<rparr>)) (p x)"
        by (cases ne) (auto simp: cmd_step_def)
      have "prefix (ct_written ?k @ chunk @ writes q) (bytes_read (ct_id ?k) (p (\<not> x)))"
        if "ct_id ?k \<notin> E x"
        using task_ok_queued [OF k that t(2)] q CC_Write by simp
      then have "prefix (ct_written ?k @ take n chunk) (bytes_read (ct_id ?k) (p (\<not> x)))"
        if "ct_id ?k \<notin> E x"
        using that by (metis append_assoc append_prefixD append_take_drop_id)
      then show ?thesis unfolding u
        using t(1) by (intro tunnel_ok_at_task [OF assms(1)] task_ok_leave) (simp_all add: leave_def)
    qed
  qed
qed

lemma tunnel_ok_end:
  assumes "tunnel_ok cd E b p" and "end_step t (p x) = Some u"
  shows "tunnel_ok cd E b (p(x := u))"
proof -
  let ?k = "tu_tasks (p x) ! t" and ?f = "\<lambda>k :: conn_task. k\<lparr>ct_phase := Ended\<rparr>"
  let ?u1 = "(p x)\<lparr>tu_conns := hash_remove (ct_id ?k) (tu_conns (p x))\<rparr>"
  from assms(2) obtain why where t: "t < length (tu_tasks (p x))" and
    u: "u = at_task t ?f (case why of Some (code, msg) \<Rightarrow> send_out (TM_Close (ct_id ?k) code msg) ?u1 | None \<Rightarrow> ?u1)"
    by (auto simp: end_step_def Let_def split: if_splits task_phase.splits)
  let ?u2 = "case why of Some (code, msg) \<Rightarrow> send_out (TM_Close (ct_id ?k) code msg) ?u1 | None \<Rightarrow> ?u1"
  note ok = tunnel_okD [OF assms(1), of x]
  have q: "quiet cd (p x) ?u2"
    using quiet_trans [OF quiet_conns quiet_close] quiet_conns by (cases why) (auto split: prod.splits)
  have l: "local_ok ?u2" using local_ok_remove [OF ok(1)] local_ok_send_out by (auto split: option.splits)
  have k: "link_ok cd (E x) ?u2 (p (\<not> x))"
    using link_ok_unroute [OF ok(3) ok(1)] link_ok_send_out by (auto split: option.splits)
  have same: "tu_tasks ?u2 = tu_tasks (p x)" "\<not> routed ?u2 t"
    using ok(1) by (auto simp: routed_def send_out_def local_ok_def hash.get_remove split: option.splits)
  show ?thesis using assms(1)
  proof (rule tunnel_ok_quiet)
    show "quiet cd (p x) u" unfolding u by (rule quiet_trans [OF q quiet_at_task]) simp_all
    show "local_ok u" unfolding u by (rule local_ok_at_task [OF l]) (use same in simp_all)
    show "link_ok cd (E x) u (p (\<not> x))" unfolding u
      by (rule link_ok_at_task [OF k])
        (use same t task_ok_written [OF link_ok_task [OF ok(3) t]] in \<open>simp_all add: task_ok_def\<close>)
  qed
qed

lemma take_split:
  "datas cd i ms = datas cd i (take n ms) @ datas cd i (drop n ms)"
  "opens ms = opens (take n ms) @ opens (drop n ms)"
  "i \<in> set (opens (take n ms)) \<Longrightarrow> after_open i ms = after_open i (take n ms) @ drop n ms"
  using datas_append [of cd i "take n ms" "drop n ms"] opens_append [of "take n ms" "drop n ms"]
    after_open_append [of i "take n ms" "drop n ms"] by simp_all

lemma upto_closing_cut: "upto_closing shut (s @ t) r \<Longrightarrow> upto_closing True s r"
  using upto_closing_prefix by (simp add: upto_closing_def)

lemma tunnel_ok_close_out:
  assumes "tunnel_ok cd E b p"
  shows "tunnel_ok cd E b (p(x := (p x)\<lparr>tu_out := take n (tu_out (p x)), tu_out_closed := True\<rparr>))"
proof -
  let ?u = "(p x)\<lparr>tu_out := take n (tu_out (p x)), tu_out_closed := True\<rparr>"
  note ok = tunnel_okD [OF assms, of x]
  have ids: "stream_ids ?u = stream_ids (p x)" and rd: "bytes_read i ?u = bytes_read i (p x)" for i
    by (simp_all add: stream_ids_def bytes_read_def)
  have "local_ok ?u" using ok(1) by (simp add: local_ok_def stream_ids_def)
  moreover have "ids_ok cd (b x) ?u (p (\<not> x))"
    using ok(2) ids
  proof (rule ids_ok_out)
    show "distinct (opens (tu_out ?u))" "set (opens (tu_out ?u)) \<subseteq> set (opens (tu_out (p x)))"
      using ok(2) take_split(2) [of "tu_out (p x)" n] by (auto simp: ids_ok_def)
    show "datas cd i (tu_out ?u) = []" if "datas cd i (tu_out (p x)) = []" for i
      using that take_split(1) [of cd i "tu_out (p x)" n] by simp
  qed simp_all
  moreover have "ids_ok cd (b (\<not> x)) (p (\<not> x)) ?u" using ok(4) ids by (rule ids_ok_peer)
  moreover have "link_ok cd (E x) ?u (p (\<not> x))" using ok(3) by (simp add: link_ok_def routed_def)
  moreover have "link_ok cd (E (\<not> x)) (p (\<not> x)) ?u"
  proof -
    have "task_ok cd (E (\<not> x)) ?u rt k" if "task_ok cd (E (\<not> x)) (p x) rt k" for rt k
    proof -
      have "upto_closing True (ct_written k @ writes (ct_queue k) @ datas cd (ct_id k) (take n (tu_out (p x)))) r"
        if "upto_closing (tu_out_closed (p x)) (ct_written k @ writes (ct_queue k) @ datas cd (ct_id k) (tu_out (p x))) r" for r
        using that upto_closing_cut [of _ "ct_written k @ writes (ct_queue k) @ datas cd (ct_id k) (take n (tu_out (p x)))"]
        by (simp add: take_split(1) [of cd "ct_id k" "tu_out (p x)" n])
      with that show ?thesis unfolding task_ok_def rd by (simp split: if_splits)
    qed
    moreover have "upto_closing True (datas cd i (after_open i (take n (tu_out (p x))))) (bytes_read i ?u)"
      if i: "i \<in> set (opens (take n (tu_out (p x))))" for i
    proof -
      have "i \<in> set (opens (tu_out (p x)))" using i take_split(2) [of "tu_out (p x)" n] by auto
      with ok(5) have "upto_closing (tu_out_closed (p x)) (datas cd i (after_open i (tu_out (p x)))) (bytes_read i (p x))"
        by (simp add: link_ok_def)
      then show ?thesis unfolding take_split(3) [OF i] datas_append rd by (rule upto_closing_cut)
    qed
    moreover have "upto_closing True (datas cd i (take n (tu_out (p x)))) (bytes_read i ?u)"
      if "tu_opening (p (\<not> x)) = Some i" "i \<notin> E (\<not> x)" for i
    proof -
      from ok(5) that have "upto_closing (tu_out_closed (p x)) (datas cd i (tu_out (p x))) (bytes_read i (p x))"
        by (simp add: link_ok_def)
      then show ?thesis unfolding take_split(1) [of cd i "tu_out (p x)" n] rd by (rule upto_closing_cut)
    qed
    ultimately show ?thesis using ok(5) by (simp add: link_ok_def)
  qed
  moreover have "p(x := ?u) = p(x := ?u, (\<not> x) := p (\<not> x))" by auto
  ultimately show ?thesis using ok(6) tunnel_okI [of ?u "p (\<not> x)" cd b x E p] by simp
qed

section \<open>Attaching a stream\<close>

lemma id_in_stream_ids: "t < length (tu_tasks u) \<Longrightarrow> ct_id (tu_tasks u ! t) \<in> set (stream_ids u)"
  by (simp add: stream_ids_def)

lemma local_okD:
  assumes "local_ok u"
  shows "hash_ok (tu_conns u)" "distinct (stream_ids u)"
    "hash_get i (tu_conns u) = Some t \<Longrightarrow>
     t < length (tu_tasks u) \<and> ct_id (tu_tasks u ! t) = i \<and> ct_phase (tu_tasks u ! t) \<noteq> Ended"
    "i \<notin> set (stream_ids u) \<Longrightarrow> hash_get i (tu_conns u) = None"
proof -
  show "hash_ok (tu_conns u)" "distinct (stream_ids u)"
    and g: "hash_get i (tu_conns u) = Some t \<Longrightarrow>
     t < length (tu_tasks u) \<and> ct_id (tu_tasks u ! t) = i \<and> ct_phase (tu_tasks u ! t) \<noteq> Ended" for i t
    using assms by (simp_all add: local_ok_def)
  show "hash_get i (tu_conns u) = None" if "i \<notin> set (stream_ids u)"
    using that g id_in_stream_ids by (cases "hash_get i (tu_conns u)") blast+
qed

lemma attach_fresh:
  assumes "local_ok u" and "i \<notin> set (stream_ids u)"
  shows "attach_stream_with_id i u =
    u\<lparr>tu_conns := hash_insert i (length (tu_tasks u)) (tu_conns u),
      tu_tasks := tu_tasks u @ [\<lparr>ct_id = i, ct_queue = [], ct_phase = Running, ct_read = [], ct_written = []\<rparr>]\<rparr>"
  using local_okD(4) [OF assms] by (simp add: attach_stream_with_id_def Let_def)

lemma attach_facts:
  assumes "local_ok u" and "i \<notin> set (stream_ids u)"
  shows "set (stream_ids (attach_stream_with_id i u)) = insert i (set (stream_ids u))"
    "tu_opening (attach_stream_with_id i u) = tu_opening u"
    "bytes_read j (attach_stream_with_id i u) = bytes_read j u"
    "tu_next_id (attach_stream_with_id i u) = tu_next_id u"
    "tu_cfg (attach_stream_with_id i u) = tu_cfg u"
    "tu_out (attach_stream_with_id i u) = tu_out u"
    "tu_out_closed (attach_stream_with_id i u) = tu_out_closed u"
    "local_ok (attach_stream_with_id i u)"
proof -
  let ?u = "attach_stream_with_id i u"
  show ids: "set (stream_ids ?u) = insert i (set (stream_ids u))" "tu_opening ?u = tu_opening u"
    "bytes_read j ?u = bytes_read j u" "tu_next_id ?u = tu_next_id u" "tu_cfg ?u = tu_cfg u"
    "tu_out ?u = tu_out u" "tu_out_closed ?u = tu_out_closed u"
    by (simp_all add: attach_fresh [OF assms] stream_ids_def bytes_read_def)
  have "t < length (tu_tasks ?u) \<and> ct_id (tu_tasks ?u ! t) = j \<and> ct_phase (tu_tasks ?u ! t) \<noteq> Ended"
    if "hash_get j (tu_conns ?u) = Some t" for j t
  proof (cases "j = i")
    case True
    with that local_okD(1) [OF assms(1)] have "t = length (tu_tasks u)"
      by (simp add: attach_fresh [OF assms] hash.get_put)
    with True show ?thesis by (simp add: attach_fresh [OF assms])
  next
    case False
    with that local_okD(1) [OF assms(1)] have "hash_get j (tu_conns u) = Some t"
      by (simp add: attach_fresh [OF assms] hash.get_put)
    from local_okD(3) [OF assms(1) this] show ?thesis
      by (simp add: attach_fresh [OF assms] nth_append)
  qed
  moreover have "distinct (stream_ids ?u)"
    using local_okD(2) [OF assms(1)] assms(2) by (auto simp: attach_fresh [OF assms] stream_ids_def)
  moreover have "hash_ok (tu_conns ?u)"
    using local_okD(1) [OF assms(1)] by (simp add: attach_fresh [OF assms] hash.ok_put)
  ultimately show "local_ok ?u" by (simp add: local_ok_def)
qed

lemma link_ok_attach:
  assumes "link_ok cd F u s" and "local_ok u" and "i \<notin> set (stream_ids u)"
    and "i \<notin> F \<Longrightarrow> upto_closing (tu_out_closed s) (datas cd i (tu_out s)) (bytes_read i s)"
  shows "link_ok cd F (attach_stream_with_id i u) s"
proof -
  let ?u = "attach_stream_with_id i u"
  note f = attach_fresh [OF assms(2,3)]
  have "task_ok cd F s (routed ?u t) (tu_tasks ?u ! t)" if t: "t < length (tu_tasks ?u)" for t
  proof (cases "t < length (tu_tasks u)")
    case True
    then have "ct_id (tu_tasks u ! t) \<noteq> i" using id_in_stream_ids assms(3) by metis
    with True have "routed ?u t = routed u t" "tu_tasks ?u ! t = tu_tasks u ! t"
      using local_okD(1) [OF assms(2)] by (simp_all add: routed_def f nth_append hash.get_put)
    with link_ok_task [OF assms(1) True] show ?thesis by simp
  next
    case False
    with t have "t = length (tu_tasks u)" by (simp add: f)
    with assms(4) show ?thesis
      using local_okD(1) [OF assms(2)] by (simp add: routed_def f hash.get_put task_ok_def)
  qed
  moreover have "tu_opening ?u = tu_opening u" by (simp add: f)
  ultimately show ?thesis using assms(1) by (simp add: link_ok_def)
qed

lemma link_ok_sender:
  assumes "link_ok cd F r s" and "\<And>i. bytes_read i s' = bytes_read i s"
    and "\<And>i. datas cd i (tu_out s') = datas cd i (tu_out s)" and "tu_out_closed s' = tu_out_closed s"
    and "\<And>i. i \<in> set (opens (tu_out s')) \<Longrightarrow>
      upto_closing (tu_out_closed s) (datas cd i (after_open i (tu_out s'))) (bytes_read i s)"
  shows "link_ok cd F r s'"
  using assms(1) by (simp add: link_ok_def task_ok_def assms(2-5))

lemma link_ok_attach_sender:
  assumes "link_ok cd F r u" and "local_ok u" and "i \<notin> set (stream_ids u)"
  shows "link_ok cd F r (attach_stream_with_id i u)"
  using assms(1) attach_facts [OF assms(2,3)] by (intro link_ok_sender [OF assms(1)]) (simp_all add: link_ok_def)

lemma tunnel_ok_accept:
  assumes "tunnel_ok cd E b p" and "b (\<not> x) = (\<not> b x)" and "accept_step (p x) = Some u"
    and bound: "id_num (tu_next_id (p x)) < 2 ^ 63 - 1"
  shows "tunnel_ok cd E b (p(x := u))"
proof -
  note ok = tunnel_okD [OF assms(1), of x]
  obtain i u1 where a: "alloc_local_id (p x) = (i, u1)" by (cases "alloc_local_id (p x)")
  note al = alloc_local_id_num [OF a]
  have ib: "bit i 63 = b x" using al(2) ok(2) by (simp add: ids_ok_def)
  have nx: "id_num (tu_next_id (p x) + 1) = Suc (id_num (tu_next_id (p x)))" using bound by (rule id_num_Suc)
  have i1: "i \<notin> set (stream_ids (p x))" using ok(2) ib al(1) by (auto simp: ids_ok_def)
  then have i2: "i \<notin> set (stream_ids (p (\<not> x)))" using ok(4) ib assms(2) by (auto simp: ids_ok_def)
  have s1: "stream_ids u1 = stream_ids (p x)" by (simp add: al(3) stream_ids_def)
  have l1: "local_ok u1" using ok(1) by (simp add: al(3) local_ok_def stream_ids_def)
  have I1: "ids_ok cd (b x) u1 (p (\<not> x))"
    using ok(2) nx s1 by (auto simp: al(3) ids_ok_def less_Suc_eq)
  have I2: "ids_ok cd (b (\<not> x)) (p (\<not> x)) u1" using ok(4) s1 by (rule ids_ok_peer)
  have k1: "link_ok cd (E x) u1 (p (\<not> x))" using ok(3) by (simp add: al(3) link_ok_def routed_def)
  have rd: "bytes_read j u1 = bytes_read j (p x)" for j by (simp add: al(3) bytes_read_def)
  have k2: "link_ok cd (E (\<not> x)) (p (\<not> x)) u1"
    using ok(5) rd by (intro link_ok_sender [OF ok(5)]) (simp_all add: al(3) link_ok_def)
  have eq: "p(x := w) = p(x := w, (\<not> x) := p (\<not> x))" for w by auto
  show ?thesis
  proof (cases "tu_out_closed u1")
    case True
    with assms(3) a have "u = u1" by (auto simp: accept_step_def al(3) split: if_splits)
    then show ?thesis using l1 ok(6) I1 I2 k1 k2 tunnel_okI [of u1 "p (\<not> x)" cd b x E p] eq by simp
  next
    case False
    let ?v = "send_out (TM_Open i) u1"
    have none: "tu_opening (p x) = None" using assms(3) by (auto simp: accept_step_def split: if_splits)
    have u: "u = ?v\<lparr>tu_opening := Some i\<rparr>"
      using assms(3) a False by (auto simp: accept_step_def al(3) split: if_splits)
    have uf: "stream_ids u = stream_ids (p x) @ [i]" "tu_next_id u = tu_next_id (p x) + 1"
      "tu_cfg u = tu_cfg (p x)" "tu_out u = tu_out (p x) @ [TM_Open i]" "tu_out_closed u = tu_out_closed (p x)"
      "tu_opening u = Some i" "tu_tasks u = tu_tasks (p x)" "tu_conns u = tu_conns (p x)"
      "bytes_read j u = bytes_read j (p x)" for j
      using False none by (simp_all add: u al(3) send_out_def stream_ids_def bytes_read_def)
    have d1: "datas cd i (tu_out (p x)) = []" "datas cd i (tu_out (p (\<not> x))) = []"
      using ok(2,4) i1 i2 by (simp_all add: ids_ok_def)
    have o1: "i \<notin> set (opens (tu_out (p x)))" using ok(2) i1 by (auto simp: ids_ok_def)
    have "local_ok u" using ok(1) i1 by (simp add: local_ok_def uf)
    moreover have "ids_ok cd (b x) u (p (\<not> x))"
      using ok(2) i2 ib nx al(1) o1 by (auto simp: ids_ok_def uf opens_append datas_append less_Suc_eq)
    moreover have "ids_ok cd (b (\<not> x)) (p (\<not> x)) u"
      using ok(4) i2 ib assms(2) by (auto simp: ids_ok_def uf)
    moreover have "link_ok cd (E x) u (p (\<not> x))"
      using ok(3) d1(2) bytes_read_absent [OF i2]
      by (auto simp: link_ok_def uf routed_def upto_closing_def)
    moreover have "link_ok cd (E (\<not> x)) (p (\<not> x)) u"
    proof (rule link_ok_sender [OF ok(5)])
      show "upto_closing (tu_out_closed (p x)) (datas cd j (after_open j (tu_out u))) (bytes_read j (p x))"
        if "j \<in> set (opens (tu_out u))" for j
      proof (cases "j \<in> set (opens (tu_out (p x)))")
        case True
        with ok(5) show ?thesis by (simp add: uf after_open_append datas_append link_ok_def)
      next
        case False
        with that have "j = i" by (simp add: uf opens_append)
        with False bytes_read_absent [OF i1] show ?thesis
          by (simp add: uf after_open_append upto_closing_def)
      qed
    qed (simp_all add: uf datas_append)
    ultimately show ?thesis using ok(6) tunnel_okI [of u "p (\<not> x)" cd b x E p] eq by simp
  qed
qed

lemma tunnel_ok_attached:
  assumes "tunnel_ok cd E b p" and "attached_step (p x) = Some u"
  shows "tunnel_ok cd E b (p(x := u))"
proof -
  note ok = tunnel_okD [OF assms(1), of x]
  from assms(2) obtain i where i: "tu_opening (p x) = Some i"
    and u: "u = attach_stream_with_id i ((p x)\<lparr>tu_opening := None\<rparr>)"
    by (auto simp: attached_step_def split: option.splits)
  let ?w = "(p x)\<lparr>tu_opening := None\<rparr>"
  have w: "stream_ids (p x) = stream_ids ?w @ [i]" by (simp add: stream_ids_def i)
  have lw: "local_ok ?w" "i \<notin> set (stream_ids ?w)" using ok(1) w by (auto simp: local_ok_def)
  note f = attach_facts [OF lw, folded u]
  have rd: "bytes_read j u = bytes_read j (p x)" for j using f(3) [of j] by (simp add: bytes_read_def)
  have same: "set (stream_ids u) = set (stream_ids (p x))" "tu_opening u = None" "tu_next_id u = tu_next_id (p x)"
    "tu_cfg u = tu_cfg (p x)" "tu_out u = tu_out (p x)" "tu_out_closed u = tu_out_closed (p x)"
    using w by (auto simp: f)
  have "link_ok cd (E x) ?w (p (\<not> x))" using ok(3) by (simp add: link_ok_def routed_def)
  then have "link_ok cd (E x) u (p (\<not> x))"
    unfolding u using lw by (rule link_ok_attach) (use ok(3) i in \<open>simp add: link_ok_def\<close>)
  moreover have "link_ok cd (E (\<not> x)) (p (\<not> x)) u"
    using ok(5) by (intro link_ok_sender [OF ok(5)]) (simp_all add: same rd link_ok_def)
  moreover have "ids_ok cd (b x) u (p (\<not> x))" using ok(2) by (simp add: ids_ok_def same)
  moreover have "ids_ok cd (b (\<not> x)) (p (\<not> x)) u" using ok(4) by (simp add: ids_ok_def same)
  moreover have "p(x := w) = p(x := w, (\<not> x) := p (\<not> x))" for w by auto
  ultimately show ?thesis using f(8) ok(6) tunnel_okI [of u "p (\<not> x)" cd b x E p] by simp
qed

section \<open>Delivering a message\<close>

text \<open>Data that arrives between the \<open>Open\<close> of an accepted socket and its route has nowhere to go.\<close>

fun early_loss :: "bool \<times> tunnel_label \<Rightarrow> tunnel_pair \<Rightarrow> (bool \<times> u64) set" where
  "early_loss (x, TL_Deliver ce) p =
     (case tu_out (p (\<not> x)) of
        TM_Data i b64 # _ \<Rightarrow> if tu_opening (p x) = Some i then {(x, i)} else {}
      | _ \<Rightarrow> {})"
| "early_loss _ p = {}"

fun lost_early :: "codec \<Rightarrow> (bool \<times> tunnel_label) list \<Rightarrow> tunnel_pair \<Rightarrow> (bool \<times> u64) set" where
  "lost_early cd [] p = {}"
| "lost_early cd (l # ls) p =
     (case tunnel_exec cd l p of
        None \<Rightarrow> {}
      | Some q \<Rightarrow> early_loss l p \<union> lost_early cd ls q)"

lemma pop_ids:
  assumes "ids_ok cd b v u" and "tu_out v = m # ms"
  shows "ids_ok cd b (v\<lparr>tu_out := ms\<rparr>) u"
  using assms(1)
proof (rule ids_ok_out)
  show "distinct (opens (tu_out (v\<lparr>tu_out := ms\<rparr>)))"
    "set (opens (tu_out (v\<lparr>tu_out := ms\<rparr>))) \<subseteq> set (opens (tu_out v))"
    using assms by (cases m; auto simp: ids_ok_def)+
  show "datas cd i (tu_out (v\<lparr>tu_out := ms\<rparr>)) = []" if "datas cd i (tu_out v) = []" for i
    using that assms(2) by (cases m) auto
qed (simp_all add: stream_ids_def)

lemma pop_link:
  assumes "link_ok cd F u v" and "tu_out v = m # ms" and "distinct (opens (tu_out v))"
    and "\<And>i. datas cd i (m # ms) = datas cd i ms"
  shows "link_ok cd F u (v\<lparr>tu_out := ms\<rparr>)"
proof (rule link_ok_sender [OF assms(1)])
  fix i
  assume i: "i \<in> set (opens (tu_out (v\<lparr>tu_out := ms\<rparr>)))"
  then have "after_open i (m # ms) = after_open i ms"
    using assms(2,3) by (cases m) auto
  moreover have "i \<in> set (opens (tu_out v))" using i assms(2) by (cases m) auto
  with assms(1) have "upto_closing (tu_out_closed v) (datas cd i (after_open i (tu_out v))) (bytes_read i v)"
    unfolding link_ok_def by blast
  ultimately show "upto_closing (tu_out_closed v) (datas cd i (after_open i (tu_out (v\<lparr>tu_out := ms\<rparr>)))) (bytes_read i v)"
    using assms(2) by simp
qed (use assms(2,4) in \<open>simp_all add: bytes_read_def\<close>)

lemma link_ok_receiver_out: "link_ok cd F v u \<Longrightarrow> link_ok cd F (v\<lparr>tu_out := ms\<rparr>) u"
  by (simp add: link_ok_def routed_def)

lemma local_ok_out: "local_ok v \<Longrightarrow> local_ok (v\<lparr>tu_out := ms\<rparr>)"
  by (simp add: local_ok_def stream_ids_def)

text \<open>Data for a stream that has no route is dropped; for one that has, it joins the queue.\<close>

lemma pop_data_link:
  assumes "link_ok cd F u v" and "local_ok u" and out: "tu_out v = TM_Data i b64 # ms"
    and "cd_decode cd b64 = Some bytes" and "tu_opening u = Some i \<Longrightarrow> i \<in> F"
  shows "link_ok cd F (case hash_get i (tu_conns u) of None \<Rightarrow> u
            | Some t \<Rightarrow> at_task t (push_cmd (CC_Write bytes)) u) (v\<lparr>tu_out := ms\<rparr>)"
    (is "link_ok cd F ?u ?v")
proof -
  have rd: "bytes_read j ?v = bytes_read j v" for j by (simp add: bytes_read_def)
  have d: "datas cd j (tu_out v) = (if j = i then bytes else []) @ datas cd j ms" for j
    using assms(4) by (simp add: out)
  have other: "task_ok cd F ?v rt k" if "task_ok cd F v rt k" "ct_id k \<noteq> i \<or> \<not> rt" for k rt
    using that unfolding task_ok_def rd d by (simp split: if_splits)
  have same: "task_ok cd F ?v True (push_cmd (CC_Write bytes) k)"
    if "task_ok cd F v True k" "ct_id k = i" for k
    using that unfolding task_ok_def push_cmd_def rd d by (simp add: writes_append rd split: if_splits)
  have tasks: "task_ok cd F ?v (routed ?u t) (tu_tasks ?u ! t)" if t: "t < length (tu_tasks u)" for t
  proof (cases "routed u t \<and> ct_id (tu_tasks u ! t) = i")
    case True
    then have h: "hash_get i (tu_conns u) = Some t" by (auto simp: routed_def)
    then have "routed ?u t" "tu_tasks ?u ! t = push_cmd (CC_Write bytes) (tu_tasks u ! t)"
      using True t by (simp_all add: routed_def at_task_def push_cmd_def)
    with same [of "tu_tasks u ! t"] link_ok_task [OF assms(1) t] True show ?thesis by simp
  next
    case False
    have "tu_tasks ?u ! t = tu_tasks u ! t" "routed ?u t = routed u t"
    proof -
      have "t' \<noteq> t" if "hash_get i (tu_conns u) = Some t'" for t'
        using False local_okD(3) [OF assms(2) that] that by (auto simp: routed_def)
      then show "tu_tasks ?u ! t = tu_tasks u ! t" "routed ?u t = routed u t"
        by (auto simp: at_task_def routed_def split: option.splits)
    qed
    moreover have "ct_id (tu_tasks u ! t) \<noteq> i \<or> \<not> routed u t" using False by blast
    ultimately show ?thesis using other link_ok_task [OF assms(1) t] by simp
  qed
  moreover have "length (tu_tasks ?u) = length (tu_tasks u)" by (simp add: at_task_def split: option.splits)
  moreover have "\<forall>j \<in> set (opens (tu_out v)). upto_closing (tu_out_closed v) (datas cd j (after_open j (tu_out v))) (bytes_read j v)"
    using assms(1) by (simp add: link_ok_def)
  moreover have "tu_opening ?u = tu_opening u" by (simp add: at_task_def split: option.splits)
  moreover have "upto_closing (tu_out_closed v) (datas cd j ms) (bytes_read j v)"
    if "tu_opening u = Some j" "j \<notin> F" for j
    using assms(1,5) that d [of j] by (auto simp: link_ok_def split: if_splits)
  ultimately show ?thesis by (simp add: link_ok_def out rd)
qed

lemma quiet_on_msg:
  assumes "\<And>i. m = TM_Open i \<Longrightarrow> ce \<noteq> None"
  shows "quiet cd u (on_msg cd ce m u)"
proof -
  have r: "quiet cd u u" by (simp add: quiet_def)
  have p: "quiet cd w (at_task t (push_cmd c) w)" for t c w
    by (rule quiet_at_task) (simp_all add: push_cmd_def)
  show ?thesis
    using assms r p quiet_trans [OF quiet_conns p] quiet_close
    by (cases m) (auto split: option.splits)
qed

lemma local_ok_push: "local_ok u \<Longrightarrow> local_ok (at_task t (push_cmd c) u)"
  by (rule local_ok_at_task) (auto simp: push_cmd_def split: if_splits)

lemma local_ok_on_msg:
  assumes "local_ok u" and "\<And>i. m = TM_Open i \<Longrightarrow> i \<notin> set (stream_ids u)"
  shows "local_ok (on_msg cd ce m u)"
  using assms attach_facts(8) local_ok_send_out local_ok_push local_ok_push [OF local_ok_remove]
  by (cases m) (auto split: option.splits)

lemma tunnel_ok_deliver:
  assumes "tunnel_ok cd E b p" and "b (\<not> x) = (\<not> b x)" and out: "tu_out (p (\<not> x)) = m # ms"
    and early: "\<And>i b64. m = TM_Data i b64 \<Longrightarrow> tu_opening (p x) = Some i \<Longrightarrow> i \<in> E x"
  shows "tunnel_ok cd E b (p(x := on_msg cd ce m (p x), (\<not> x) := (p (\<not> x))\<lparr>tu_out := ms\<rparr>))"
proof -
  note ok = tunnel_okD [OF assms(1), of x]
  let ?u = "on_msg cd ce m (p x)" and ?v = "(p (\<not> x))\<lparr>tu_out := ms\<rparr>"
  have dist: "distinct (opens (tu_out (p (\<not> x))))" using ok(4) by (simp add: ids_ok_def)
  have fresh: "i \<notin> set (stream_ids (p x)) \<and> i \<in> set (stream_ids (p (\<not> x))) \<and> bit i 63 = b (\<not> x)"
    if "m = TM_Open i" for i
    using ok(4) that by (auto simp: ids_ok_def out)
  have l: "local_ok ?u" using ok(1) fresh by (intro local_ok_on_msg) auto
  have sv: "stream_ids ?v = stream_ids (p (\<not> x))" by (simp add: stream_ids_def)
  have k: "link_ok cd (E (\<not> x)) ?v (p x)" using ok(5) by (rule link_ok_receiver_out)
  have I: "ids_ok cd (b x) (p x) ?v" using ok(2) sv by (rule ids_ok_peer)
  have J: "ids_ok cd (b (\<not> x)) ?v (p x)" using ok(4) out by (rule pop_ids)
  have "ids_ok cd (b x) ?u ?v \<and> ids_ok cd (b (\<not> x)) ?v ?u \<and> link_ok cd (E x) ?u ?v \<and> link_ok cd (E (\<not> x)) ?v ?u"
  proof (cases "\<exists>i. m = TM_Open i \<and> ce = None")
    case True
    then obtain i where m: "m = TM_Open i" "ce = None" by blast
    note fr = fresh [OF m(1)] and f = attach_facts [OF ok(1), of i]
    have u: "?u = attach_stream_with_id i (p x)" using m by simp
    have "link_ok cd (E x) (p x) ?v" using ok(3) out dist by (rule pop_link) (simp add: m)
    moreover have "upto_closing (tu_out_closed ?v) (datas cd i (tu_out ?v)) (bytes_read i ?v)"
      using ok(3) by (simp add: link_ok_def out m bytes_read_def)
    ultimately have "link_ok cd (E x) ?u ?v" unfolding u using ok(1) fr by (intro link_ok_attach) simp_all
    moreover have "link_ok cd (E (\<not> x)) ?v ?u" unfolding u using k ok(1) fr by (intro link_ok_attach_sender) simp_all
    moreover have "ids_ok cd (b x) ?u ?v"
      unfolding u using I fr assms(2) sv by (auto simp: ids_ok_def f)
    moreover have "ids_ok cd (b (\<not> x)) ?v ?u"
      unfolding u using J fr dist by (auto simp: ids_ok_def f out m)
    ultimately show ?thesis by blast
  next
    case False
    then have q: "quiet cd (p x) ?u" by (intro quiet_on_msg) auto
    have "link_ok cd (E x) ?u ?v"
    proof (cases m)
      case (TM_Open i)
      with False obtain e where "?u = send_out (TM_Close i CLOSE_IO (Some e)) (p x)" by (cases ce) auto
      moreover have "link_ok cd (E x) (p x) ?v" using ok(3) out dist by (rule pop_link) (simp add: TM_Open)
      ultimately show ?thesis using link_ok_send_out by simp
    next
      case (TM_Data i b64)
      show ?thesis
      proof (cases "cd_decode cd b64")
        case None
        have "link_ok cd (E x) (p x) ?v" using ok(3) out dist by (rule pop_link) (simp add: TM_Data None)
        with None TM_Data link_ok_send_out show ?thesis by simp
      next
        case (Some bytes)
        with pop_data_link [OF ok(3) ok(1) _ Some early [OF TM_Data]] out TM_Data show ?thesis by simp
      qed
    next
      case (TM_Close i code why)
      have "link_ok cd (E x) (p x) ?v" using ok(3) out dist by (rule pop_link) (simp add: TM_Close)
      moreover from this have "link_ok cd (E x) ((p x)\<lparr>tu_conns := hash_remove i (tu_conns (p x))\<rparr>) ?v"
        using ok(1) by (rule link_ok_unroute)
      then have "link_ok cd (E x) (at_task t (push_cmd (CC_Close False)) ((p x)\<lparr>tu_conns := hash_remove i (tu_conns (p x))\<rparr>)) ?v" for t
      proof (rule link_ok_at_task)
        show "task_ok cd (E x) ?v (routed ((p x)\<lparr>tu_conns := hash_remove i (tu_conns (p x))\<rparr>) t)
            (push_cmd (CC_Close False) (tu_tasks ((p x)\<lparr>tu_conns := hash_remove i (tu_conns (p x))\<rparr>) ! t))"
          if "t < length (tu_tasks ((p x)\<lparr>tu_conns := hash_remove i (tu_conns (p x))\<rparr>))"
          using link_ok_task [OF \<open>link_ok cd (E x) ((p x)\<lparr>tu_conns := hash_remove i (tu_conns (p x))\<rparr>) ?v\<close> that]
          by (rule task_ok_push_close)
      qed (simp add: push_cmd_def)
      ultimately show ?thesis using TM_Close by (simp split: option.splits)
    qed
    with q I J k quiet_ids quiet_ids_peer quiet_link show ?thesis by blast
  qed
  with l ok(6) local_ok_out show ?thesis by (intro tunnel_okI) blast+
qed

section \<open>Every run\<close>

lemma on_msg_next_id: "tu_next_id (on_msg cd ce m u) = tu_next_id u"
  by (cases m) (auto simp: attach_stream_with_id_def send_out_def at_task_def Let_def split: option.splits)

lemma id_num_Suc_le: "id_num (i + 1) \<le> Suc (id_num i)"
proof (cases "id_num i < 2 ^ 63 - 1")
  case True
  then show ?thesis by (simp add: id_num_Suc)
next
  case False
  have "id_num (i + 1) < 2 ^ 63" by (simp add: id_num_def)
  with False show ?thesis by simp
qed

lemma tunnel_exec_next_id:
  assumes "tunnel_exec cd l p = Some q"
  shows "id_num (tu_next_id (q y)) \<le> Suc (id_num (tu_next_id (p y)))"
proof -
  obtain x a where l: "l = (x, a)" by (cases l)
  have acc: "id_num (tu_next_id u) \<le> Suc (id_num (tu_next_id (p x)))" if "accept_step (p x) = Some u" for u
    using that id_num_Suc_le [of "tu_next_id (p x)"]
    by (auto simp: accept_step_def alloc_local_id_def send_out_def Let_def split: if_splits)
  have att: "tu_next_id u = tu_next_id (p x)" if "attached_step (p x) = Some u" for u
    using that by (auto simp: attached_step_def attach_stream_with_id_def at_task_def Let_def split: option.splits)
  show ?thesis
    using assms acc att
    by (cases a)
      (auto simp: l read_step_def cmd_step_def no_sender_step_def cancelled_step_def end_step_def at_task_def
        send_out_def on_msg_next_id Let_def
        split: if_splits list.splits read_outcome.splits conn_cmd.splits option.splits task_phase.splits)
qed

lemma tunnel_ok_exec:
  assumes "tunnel_exec cd l p = Some q" and "tunnel_ok cd E b p"
    and "\<And>s. cd_decode cd (cd_encode cd s) = Some s" and "\<And>x. b (\<not> x) = (\<not> b x)"
    and "\<And>x. id_num (tu_next_id (p x)) < 2 ^ 63 - 1"
    and early: "\<And>x i. (x, i) \<in> early_loss l p \<Longrightarrow> i \<in> E x"
  shows "tunnel_ok cd E b q"
proof -
  obtain x a where l: "l = (x, a)" by (cases l)
  show ?thesis
  proof (cases a)
    case TL_Accept
    with assms(1) l show ?thesis using tunnel_ok_accept [OF assms(2,4) _ assms(5)] by auto
  next
    case (TL_Deliver ce)
    with assms(1) l obtain m ms where m: "tu_out (p (\<not> x)) = m # ms"
      "q = p(x := on_msg cd ce m (p x), (\<not> x) := (p (\<not> x))\<lparr>tu_out := ms\<rparr>)"
      by (auto split: list.splits)
    show ?thesis unfolding m(2)
      by (rule tunnel_ok_deliver [OF assms(2,4) m(1)]) (use early l TL_Deliver m(1) in auto)
  next
    case TL_Attached
    with assms(1) l show ?thesis using tunnel_ok_attached [OF assms(2)] by auto
  next
    case (TL_Read t r)
    with assms(1) l show ?thesis using tunnel_ok_read [OF assms(2) _ assms(3)] by auto
  next
    case (TL_Cmd t e)
    with assms(1) l show ?thesis using tunnel_ok_cmd [OF assms(2)] by auto
  next
    case (TL_No_Sender t)
    with assms(1) l show ?thesis
      using tunnel_ok_leave [OF assms(2)] by (auto simp: no_sender_step_def split: if_splits)
  next
    case (TL_Cancelled t)
    with assms(1) l show ?thesis
      using tunnel_ok_leave [OF assms(2)] by (auto simp: cancelled_step_def split: if_splits)
  next
    case (TL_End t)
    with assms(1) l show ?thesis using tunnel_ok_end [OF assms(2)] by auto
  next
    case TL_Cancel
    have "tunnel_ok cd E b (p(x := (p x)\<lparr>tu_cancelled := True\<rparr>))"
      using assms(2) quiet_cancel
      by (rule tunnel_ok_quiet)
        (use tunnel_okD(1,3) [OF assms(2), of x] in \<open>simp_all add: local_ok_def stream_ids_def link_ok_def routed_def\<close>)
    with TL_Cancel assms(1) l show ?thesis by simp
  next
    case (TL_Close_Out n)
    with assms(1) l show ?thesis using tunnel_ok_close_out [OF assms(2)] by auto
  qed
qed

lemma tunnel_ok_run:
  assumes "tunnel_run cd ls p = Some q" and "tunnel_ok cd E b p"
    and "\<And>s. cd_decode cd (cd_encode cd s) = Some s" and "\<And>x. b (\<not> x) = (\<not> b x)"
    and "\<And>x. id_num (tu_next_id (p x)) + length ls < 2 ^ 63"
    and "\<And>x i. (x, i) \<in> lost_early cd ls p \<Longrightarrow> i \<in> E x"
  shows "tunnel_ok cd E b q"
  using assms(1,2,5,6)
proof (induction ls arbitrary: p)
  case (Cons l ls)
  then obtain r where r: "tunnel_exec cd l p = Some r" "tunnel_run cd ls r = Some q"
    by (cases "tunnel_exec cd l p") auto
  have bound: "id_num (tu_next_id (p x)) + Suc (length ls) < 2 ^ 63" for x using Cons.prems(3) [of x] by simp
  then have "id_num (tu_next_id (p x)) < 2 ^ 63 - 1" for x by (metis add_lessD1 add_Suc_right less_diff_conv add.commute plus_1_eq_Suc add_Suc)
  with r(1) Cons.prems(2) assms(3,4) have "tunnel_ok cd E b r"
    by (rule tunnel_ok_exec) (use Cons.prems(4) r(1) in auto)
  moreover have "id_num (tu_next_id (r x)) + length ls < 2 ^ 63" for x
    using tunnel_exec_next_id [OF r(1), of x] bound [of x] by simp
  moreover have "i \<in> E x" if "(x, i) \<in> lost_early cd ls r" for x i
    using Cons.prems(4) r(1) that by auto
  ultimately show ?case using r(2) Cons.IH by blast
qed simp

lemma tunnel_ok_start: "tunnel_ok cd E (\<lambda>x. tc_id_prefix_bit (cfg x)) (tunnel_start cfg)"
  by (simp add: tunnel_ok_def tunnel_start_def tunnel_new_def local_ok_def ids_ok_def link_ok_def
      stream_ids_def hash_get_def hash_ok_def)

lemma id_num_start: "id_num (tu_next_id (tunnel_start cfg x)) = 1"
  by (simp add: tunnel_start_def tunnel_new_def id_prefix_def ID_PREFIX_def id_num_def)

text \<open>
  The contract of one stream in one direction is a byte pipe: what one socket receives is what
  the other socket has sent, in order, nothing lost, nothing twice, as far as it has come; when
  nothing is on its way any more, all of it. The streams in \<open>F\<close> are excepted.
\<close>

definition byte_pipes :: "u64 set \<Rightarrow> tunnel \<Rightarrow> tunnel \<Rightarrow> bool" where
  "byte_pipes F r s \<longleftrightarrow>
     (\<forall>t < length (tu_tasks r). \<forall>k' \<in> set (tu_tasks s).
        let k = tu_tasks r ! t
        in ct_id k = ct_id k' \<and> ct_id k \<notin> F \<longrightarrow>
             prefix (ct_written k) (ct_read k') \<and>
             (ct_phase k = Running \<and> routed r t \<and> ct_queue k = [] \<and> tu_out s = [] \<and> \<not> tu_out_closed s
                \<longrightarrow> ct_written k = ct_read k'))"

lemma byte_pipesI:
  assumes "link_ok cd F r s" and "local_ok s"
  shows "byte_pipes F r s"
  unfolding byte_pipes_def Let_def
proof (intro allI ballI impI)
  fix t k'
  assume t: "t < length (tu_tasks r)" and k': "k' \<in> set (tu_tasks s)"
    and i: "ct_id (tu_tasks r ! t) = ct_id k' \<and> ct_id (tu_tasks r ! t) \<notin> F"
  from k' obtain t' where t': "t' < length (tu_tasks s)" "k' = tu_tasks s ! t'" by (metis in_set_conv_nth)
  have rd: "bytes_read (ct_id k') s = ct_read k'"
    using bytes_read_unique [OF local_okD(2) [OF assms(2)] t'(1)] t'(2) by simp
  have k: "task_ok cd F s (routed r t) (tu_tasks r ! t)" using assms(1) t by (rule link_ok_task)
  show "prefix (ct_written (tu_tasks r ! t)) (ct_read k') \<and>
    (ct_phase (tu_tasks r ! t) = Running \<and> routed r t \<and> ct_queue (tu_tasks r ! t) = [] \<and> tu_out s = [] \<and>
     \<not> tu_out_closed s \<longrightarrow> ct_written (tu_tasks r ! t) = ct_read k')"
    using task_ok_written [OF k] k rd i by (auto simp: task_ok_def upto_closing_def)
qed

text \<open>Only streams that an end has opened itself can lose data early.\<close>

lemma early_loss_own:
  assumes "tunnel_ok cd E b p" and "(x, i) \<in> early_loss l p"
  shows "bit i 63 = b x"
proof -
  obtain y a where l: "l = (y, a)" by (cases l)
  have "tu_opening (p x) = Some i"
    using assms(2) unfolding l by (cases a) (auto split: list.splits tunnel_msg.splits if_splits)
  with tunnel_okD(2) [OF assms(1), of x] show ?thesis by (simp add: ids_ok_def)
qed

lemma lost_early_own:
  assumes "tunnel_run cd ls p = Some q" and "tunnel_ok cd E b p"
    and "\<And>s. cd_decode cd (cd_encode cd s) = Some s" and "\<And>x. b (\<not> x) = (\<not> b x)"
    and "\<And>x. id_num (tu_next_id (p x)) + length ls < 2 ^ 63"
    and "\<And>x i. (x, i) \<in> lost_early cd ls p \<Longrightarrow> i \<in> E x" and "(y, j) \<in> lost_early cd ls p"
  shows "bit j 63 = b y"
  using assms(1,2,5-7)
proof (induction ls arbitrary: p)
  case (Cons l ls)
  then obtain r where r: "tunnel_exec cd l p = Some r" "tunnel_run cd ls r = Some q"
    by (cases "tunnel_exec cd l p") auto
  have one: "tunnel_ok cd E b r"
  proof (rule tunnel_ok_run [of cd "[l]" p])
    show "id_num (tu_next_id (p x)) + length [l] < 2 ^ 63" for x using Cons.prems(3) [of x] by simp
  qed (use Cons.prems(2,4) r assms(3,4) in auto)
  have "id_num (tu_next_id (r x)) + length ls < 2 ^ 63" for x
    using tunnel_exec_next_id [OF r(1), of x] Cons.prems(3) [of x] by simp
  moreover have "i \<in> E x" if "(x, i) \<in> lost_early cd ls r" for x i
    using Cons.prems(4) r(1) that by auto
  moreover have "(y, j) \<in> early_loss l p \<or> (y, j) \<in> lost_early cd ls r" using Cons.prems(5) r(1) by auto
  ultimately show ?case using early_loss_own [OF Cons.prems(2)] Cons.IH [OF r(2) one] by blast
qed simp

text \<open>C20: When the two ends set opposite prefix bits, every stream of the tunnel is a byte pipe in both
  directions, whatever the interleaving of their tasks, failures and cancellations, as long as fewer
  than 2^63 - 1 steps are made, with one exception: a stream whose data arrived while the listener
  had sent its \<open>Open\<close> and not yet inserted its route. That can only happen to streams that the end
  has opened itself, and only in the direction to that end.\<close>

theorem tunnel_streams_are_pipes:
  assumes "tunnel_run cd ls (tunnel_start cfg) = Some p"
    and "tc_id_prefix_bit (cfg True) \<noteq> tc_id_prefix_bit (cfg False)"
    and "\<And>s. cd_decode cd (cd_encode cd s) = Some s" and "length ls < 2 ^ 63 - 1"
    and "lost = lost_early cd ls (tunnel_start cfg)"
  shows "byte_pipes {i. (True, i) \<in> lost} (p True) (p False) \<and>
    byte_pipes {i. (False, i) \<in> lost} (p False) (p True) \<and>
    (\<forall>(x, i) \<in> lost. bit i 63 = tc_id_prefix_bit (cfg x))"
proof -
  let ?E = "\<lambda>x. {i. (x, i) \<in> lost}" and ?b = "\<lambda>x. tc_id_prefix_bit (cfg x)"
  have b: "?b (\<not> x) = (\<not> ?b x)" for x using assms(2) by (cases x) auto
  have bound: "id_num (tu_next_id (tunnel_start cfg x)) + length ls < 2 ^ 63" for x
    using assms(4) by (simp add: id_num_start)
  have "tunnel_ok cd ?E ?b p"
    by (rule tunnel_ok_run [OF assms(1) tunnel_ok_start assms(3) b bound]) (simp add: assms(5))
  from tunnel_okD [OF this, of True]
  have "byte_pipes (?E True) (p True) (p False) \<and> byte_pipes (?E False) (p False) (p True)"
    using byte_pipesI by simp
  moreover have "bit i 63 = ?b x" if "(x, i) \<in> lost" for x i
    by (rule lost_early_own [OF assms(1) tunnel_ok_start [of cd ?E cfg] assms(3) b bound])
      (use that in \<open>simp_all add: assms(5)\<close>)
  ultimately show ?thesis by auto
qed

lemmas tunnel_eval = tunnel_step_defs tunnel_start_def tunnel_new_def id_prefix_def ID_PREFIX_def
  hash_get_def hash_insert_def hash_remove_def demo_codec_def demo_cfg_def Let_def

theorem tunnel_streams_are_pipes_witness:
  "\<exists>p. tunnel_run demo_codec
     [(True, TL_Accept), (False, TL_Deliver None), (True, TL_Attached), (True, TL_Read 0 (Read_Bytes ''hello'')),
      (False, TL_Deliver None), (False, TL_Cmd 0 None)] (tunnel_start demo_cfg) = Some p \<and>
     map ct_written (tu_tasks (p False)) = [''hello''] \<and> byte_pipes {} (p False) (p True)"
proof -
  let ?ls = "[(True, TL_Accept), (False, TL_Deliver None), (True, TL_Attached),
      (True, TL_Read 0 (Read_Bytes ''hello'')), (False, TL_Deliver None), (False, TL_Cmd 0 None)]"
  obtain p where p: "tunnel_run demo_codec ?ls (tunnel_start demo_cfg) = Some p"
    and w: "map ct_written (tu_tasks (p False)) = [''hello'']"
    by (simp add: tunnel_eval)
  have "lost_early demo_codec ?ls (tunnel_start demo_cfg) = {}" by (simp add: tunnel_eval)
  with tunnel_streams_are_pipes [OF p _ _ _ refl] have "byte_pipes {} (p False) (p True)"
    by (simp add: demo_cfg_def demo_codec_def)
  with p w show ?thesis by (intro exI [of _ p] conjI)
qed

text \<open>The exception happens: the peer's first bytes are dropped without a trace, and the accepted
  socket receives what follows them.\<close>

theorem tunnel_loses_early_data:
  "\<exists>p. tunnel_run demo_codec
     [(True, TL_Accept), (False, TL_Deliver None), (False, TL_Read 0 (Read_Bytes ''a'')), (True, TL_Deliver None),
      (True, TL_Attached), (False, TL_Read 0 (Read_Bytes ''b'')), (True, TL_Deliver None), (True, TL_Cmd 0 None)]
     (tunnel_start demo_cfg) = Some p \<and>
     map ct_read (tu_tasks (p False)) = [''ab''] \<and> map ct_written (tu_tasks (p True)) = [''b''] \<and>
     map ct_id (tu_tasks (p False)) = map ct_id (tu_tasks (p True)) \<and>
     map ct_phase (tu_tasks (p False)) = [Running] \<and> map ct_phase (tu_tasks (p True)) = [Running]"
  by (simp add: tunnel_eval)

lemma tunnel_start_pair:
  "tunnel_start cfg = (\<lambda>_. tunnel_new (cfg True))(True := tunnel_new (cfg True), False := tunnel_new (cfg False))"
  by (rule ext) (simp add: tunnel_start_def)

lemmas tunnel_eval_pair = tunnel_step_defs tunnel_start_pair tunnel_new_def id_prefix_def ID_PREFIX_def
  hash_get_def hash_insert_def hash_remove_def Let_def

text \<open>With the prefix bit set on both ends, as the gateway, the platform and the SDK bridge all
  set it, the first connections of the two ends get the same id: each end's \<open>Open\<close> replaces and
  closes the other end's own connection, and the replaced task then removes the route of its
  replacement; all four sockets are closed, although no peer closed, nothing failed and nothing
  was cancelled, and no \<open>Close\<close> is sent.\<close>

theorem tunnel_ids_collide:
  "\<exists>p. tunnel_run cd
     [(True, TL_Accept), (True, TL_Attached), (False, TL_Accept), (False, TL_Attached),
      (True, TL_Deliver None), (False, TL_Deliver None),
      (True, TL_Cmd 0 None), (True, TL_End 0), (True, TL_No_Sender 1), (True, TL_End 1),
      (False, TL_Cmd 0 None), (False, TL_End 0), (False, TL_No_Sender 1), (False, TL_End 1)]
     (tunnel_start (\<lambda>x. \<lparr>tc_expose_port = port x, tc_id_prefix_bit = True\<rparr>)) = Some p \<and>
     map ct_phase (tu_tasks (p True)) = [Ended, Ended] \<and> map ct_phase (tu_tasks (p False)) = [Ended, Ended] \<and>
     map ct_id (tu_tasks (p True)) = map ct_id (tu_tasks (p False)) \<and>
     tu_out (p True) = [] \<and> tu_out (p False) = []"
  by (simp add: tunnel_eval_pair)

end
