(* ===== verification/Hydra_Platform_Correct.thy ===== *)
theory Hydra_Platform_Correct
  imports Hydra_Platform_Server
begin

text \<open>
  Correctness of the gateway's controller for platforms: the running controller as an actor,
  the invariant of its payment cycle, when it pays, that it never gets stuck waiting, what
  a restart cancels, and where its queue and its backlog go wrong.
\<close>

section \<open>The payment cycle\<close>

text \<open>
  Most handlers leave the counters and flags of the payment cycle alone and pay nothing out.
\<close>

definition gp_frame :: "gp_state \<Rightarrow> gp_handled \<Rightarrow> bool" where
  "gp_frame s h \<longleftrightarrow> (case h of (s', fx, r) \<Rightarrow>
     gp_toml s' = gp_toml s \<and> gp_sent_microtransactions s' = gp_sent_microtransactions s \<and>
     gp_accounted_requests s' = gp_accounted_requests s \<and>
     gp_is_closing s' = gp_is_closing s \<and> gp_hydra_head_open s' = gp_hydra_head_open s \<and>
     gp_awaiting_l2_confirmation s' = gp_awaiting_l2_confirmation s \<and>
     (\<forall>a m. Do (Send_Tx a m) \<notin> set fx))"

lemma gp_frame_start: "gp_frame s (gp_start_hydra_node v s)"
  by (auto simp: gp_start_hydra_node_def gp_stop_hydra_node_def gp_frame_def Let_def
      split: sum.splits option.splits)

lemma gp_frame_terminate: "gp_frame s (gp_on_terminate s)"
  by (auto simp: gp_on_terminate_def gp_stop_hydra_node_def gp_frame_def split: option.splits)

lemma gp_frame_fund: "gp_frame s (gp_on_fund_commit_addr v s)"
  by (simp add: gp_on_fund_commit_addr_def gp_frame_def gp_send_delayed_def Let_def
      split: sum.split)

lemma gp_frame_init:
  "gp_frame s (gp_on_try_to_init_head v s)" "gp_frame s (gp_on_wait_for_initial v n s)"
  "gp_frame s (gp_on_try_to_commit v s)"
  by (auto simp: gp_on_try_to_init_head_def gp_on_wait_for_initial_def gp_on_try_to_commit_def
      gp_frame_def gp_send_delayed_def Let_def split: sum.splits)

lemma gp_frame_close:
  "gp_frame s (gp_on_wait_for_utxo_count v s)" "gp_frame s (gp_on_try_to_close v s)"
  "gp_frame s (gp_on_wait_for_closed v n s)" "gp_frame s (gp_on_wait_for_fanout_ready v s)"
  "gp_frame s (gp_on_do_fanout v s)"
  by (auto simp: gp_on_wait_for_utxo_count_def gp_on_try_to_close_def gp_on_wait_for_closed_def
      gp_on_wait_for_fanout_ready_def gp_on_do_fanout_def gp_frame_def gp_send_delayed_def Let_def
      split: sum.splits)

lemmas gp_frames = gp_frame_terminate gp_frame_fund gp_frame_init gp_frame_close

text \<open>The five events that touch the payment cycle.\<close>

fun gp_pays :: "gp_event \<Rightarrow> bool" where
  "gp_pays GP_Restart = True"
| "gp_pays GP_WaitForOpen = True"
| "gp_pays GP_AccountOneRequest = True"
| "gp_pays (GP_WaitForL2Tx i a m r) = True"
| "gp_pays (GP_WaitForIdleAfterClose n) = True"
| "gp_pays _ = False"

lemma gp_frame_others: "\<not> gp_pays e \<Longrightarrow> gp_frame s (gp_process_event v e s)"
  by (cases e) (simp_all add: gp_frames)

definition gp_wf :: "gp_state \<Rightarrow> bool" where
  "gp_wf s \<longleftrightarrow>
     (let k = max 1 (unat (ht_microtransactions_per_fanout (gp_toml s))) in
      unat (gp_sent_microtransactions s) \<le> k \<and>
      (gp_is_closing s \<longleftrightarrow> unat (gp_sent_microtransactions s) = k) \<and>
      (gp_is_closing s \<longrightarrow> gp_hydra_head_open s) \<and>
      (gp_awaiting_l2_confirmation s \<longrightarrow> 0 < gp_sent_microtransactions s))"

lemma gp_wf_frame: "gp_frame s (s', fx, r) \<Longrightarrow> gp_wf s \<Longrightarrow> gp_wf s'"
  by (simp add: gp_frame_def gp_wf_def Let_def)

lemma gp_restart_counters:
  assumes "gp_on_restart v s = (s', fx, r)"
  shows "gp_toml s' = gp_toml s \<and> gp_sent_microtransactions s' = 0 \<and>
     gp_accounted_requests s' = 0 \<and> \<not> gp_is_closing s' \<and> \<not> gp_hydra_head_open s' \<and>
     \<not> gp_awaiting_l2_confirmation s' \<and> (\<forall>a m. Do (Send_Tx a m) \<notin> set fx)"
proof -
  let ?s = "s\<lparr>gp_restart_gen := gp_restart_gen s + 1, gp_hydra_head_open := False,
    gp_hydra_peers_connected := False, gp_is_closing := False,
    gp_awaiting_l2_confirmation := False, gp_sent_microtransactions := 0,
    gp_accounted_requests := 0\<rparr>"
  from assms gp_frame_start [of ?s v] show ?thesis
    by (auto simp: gp_on_restart_def gp_frame_def gp_send_delayed_def Let_def
        split: prod.splits sum.splits)
qed

lemma gp_wf_reset:
  "gp_sent_microtransactions s = 0 \<Longrightarrow> \<not> gp_is_closing s \<Longrightarrow>
   \<not> gp_awaiting_l2_confirmation s \<Longrightarrow> gp_wf s"
  by (simp add: gp_wf_def Let_def)

text \<open>
  One accounted request either leaves the payment cycle alone, or sends the whole backlog as
  one microtransaction and waits for its confirmation.
\<close>

lemma gp_account_cases:
  assumes "gp_on_account_one_request v s = (s', fx, r)"
  obtains (idle) "gp_toml s' = gp_toml s" "gp_is_closing s' = gp_is_closing s"
      "gp_sent_microtransactions s' = gp_sent_microtransactions s"
      "gp_hydra_head_open s' = gp_hydra_head_open s"
      "gp_awaiting_l2_confirmation s' = gp_awaiting_l2_confirmation s"
      "r = Inr () \<Longrightarrow> (\<forall>a m. Do (Send_Tx a m) \<notin> set fx)"
  | (sent) inputs where "he_send_tx v = Inr inputs" "r = Inr ()"
      "gp_toml s' = gp_toml s" "gp_hydra_head_open s" "gp_hydra_head_open s'"
      "\<not> gp_is_closing s" "\<not> gp_awaiting_l2_confirmation s"
      "gp_sent_microtransactions s' = gp_sent_microtransactions s + 1"
      "gp_accounted_requests s' = 0" "gp_awaiting_l2_confirmation s'"
      "gp_is_closing s' \<longleftrightarrow>
         ht_microtransactions_per_fanout (gp_toml s) \<le> gp_sent_microtransactions s + 1"
      "Send (GP_WaitForL2Tx inputs 0
         ((gp_accounted_requests s + 1) * ht_lovelace_per_request (gp_toml s)) L2_TX_MAX_RETRIES)
         \<in> set fx"
      "gp_is_closing s' \<Longrightarrow> gp_send_delayed s' GP_WaitForUtxoCount 3000 \<in> set fx"
  using assms
  by (auto simp: gp_on_account_one_request_def gp_send_delayed_def Let_def
      split: if_splits sum.splits)

lemma gp_wf_account:
  assumes "gp_on_account_one_request v s = (s', fx, r)" and "gp_wf s"
  shows "gp_wf s'"
  using assms(1)
proof (cases rule: gp_account_cases)
  case idle
  with assms(2) show ?thesis by (simp add: gp_wf_def)
next
  case (sent inputs)
  let ?k = "max 1 (unat (ht_microtransactions_per_fanout (gp_toml s)))"
  from assms(2) sent(6) have lt: "unat (gp_sent_microtransactions s) < ?k"
    by (auto simp: gp_wf_def Let_def)
  then have "unat (gp_sent_microtransactions s) < 2 ^ 64 - 1"
    using unat_lt_2_64 [of "ht_microtransactions_per_fanout (gp_toml s)"] by simp
  then have u: "unat (gp_sent_microtransactions s') = Suc (unat (gp_sent_microtransactions s))"
    using sent(8) by (simp add: unat_Suc_no_wrap)
  then have "0 < gp_sent_microtransactions s'" by (simp add: word_less_nat_alt)
  with u lt sent(3,5,8,11) show ?thesis by (auto simp: gp_wf_def Let_def word_le_nat_alt)
qed

lemma gp_toml_step: "gp_process_event v e s = (s', fx, r) \<Longrightarrow> gp_toml s' = gp_toml s"
  using gp_frame_others [of e s v] gp_restart_counters [of v s s' fx r]
  by (cases "gp_pays e"; cases e)
    (auto simp: gp_frame_def gp_on_wait_for_open_def gp_on_account_one_request_def
      gp_on_wait_for_l2_tx_def gp_on_wait_for_idle_def Let_def split: if_splits sum.splits)

lemma gp_wf_step:
  assumes "gp_process_event v e s = (s', fx, r)" and "gp_wf s"
  shows "gp_wf s'"
proof (cases "gp_pays e")
  case False
  with gp_frame_others [of e s v] assms gp_wf_frame show ?thesis by simp
next
  case True
  then show ?thesis
  proof (cases e)
    case GP_Restart
    with assms show ?thesis by (auto intro!: gp_wf_reset dest: gp_restart_counters)
  next
    case GP_AccountOneRequest
    with assms gp_wf_account show ?thesis by simp
  qed (use assms in \<open>auto simp: gp_on_wait_for_open_def gp_on_wait_for_l2_tx_def
      gp_on_wait_for_idle_def gp_wf_def Let_def split: if_splits sum.splits\<close>)
qed

section \<open>The running controller\<close>

definition gp_boot :: "hydra_toml \<Rightarrow> string \<Rightarrow> string \<Rightarrow> string \<Rightarrow> kex_request \<Rightarrow> kex_response \<Rightarrow>
    (gp_state, gp_event, hydra_call) actor" where
  "gp_boot toml gw_addr reward dir req resp =
     actor_spawn GP_Restart (gp_init toml gw_addr reward dir req resp)"

definition gp_run :: "(hydra_env, gp_event) label list \<Rightarrow> (gp_state, gp_event, hydra_call) actor \<Rightarrow>
    (gp_state, gp_event, hydra_call) actor option" where
  "gp_run = actor_run gp_restart_gen gp_process_event GP_Restart gp_is_terminate"

definition gp_reachable :: "(gp_state, gp_event, hydra_call) actor \<Rightarrow>
    (gp_state, gp_event, hydra_call) actor \<Rightarrow> bool" where
  "gp_reachable = actor_reach gp_restart_gen gp_process_event GP_Restart gp_is_terminate"

lemma gp_run_reachable: "gp_run ls a = Some b \<Longrightarrow> gp_reachable a b"
  unfolding gp_run_def gp_reachable_def by (rule actor_run_reach [OF _ reach_refl])

lemma gp_run_append: "gp_run (ls @ ms) a = Option.bind (gp_run ls a) (gp_run ms)"
  by (simp add: gp_run_def actor_run_append)

text \<open>A concrete key exchange, for runs.\<close>

definition gp_demo_req :: kex_request where
  "gp_demo_req = \<lparr>kq_machine_id = ''p'', kq_platform_cardano_vkey = JStr ''pc'',
     kq_platform_hydra_vkey = JStr ''ph'', kq_accepted_platform_h2h_port = Some 5001\<rparr>"

definition gp_demo_resp :: kex_response where
  "gp_demo_resp = \<lparr>kr_machine_id = ''g'', kr_gateway_cardano_vkey = JStr ''gc'',
     kr_gateway_hydra_vkey = JStr ''gh'', kr_hydra_scripts_tx_id = ''tx'',
     kr_protocol_parameters = JNull, kr_contestation_secs = 60,
     kr_proposed_platform_h2h_port = 5001, kr_gateway_h2h_port = 5002, kr_kex_done = True\<rparr>"

definition gp_demo_state :: gp_state where
  "gp_demo_state = gp_init gp_demo_toml ''gw'' ''reward'' ''/cfg'' gp_demo_req gp_demo_resp"

definition gp_demo_boot :: "(gp_state, gp_event, hydra_call) actor" where
  "gp_demo_boot = gp_boot gp_demo_toml ''gw'' ''reward'' ''/cfg'' gp_demo_req gp_demo_resp"

text \<open>The schedule of a start that goes well, up to an open head.\<close>

lemma target_demo: "target_lovelace calm_env gp_demo_toml = 2000000"
  by (simp add: target_lovelace_def gp_demo_toml_def f64_round_def u64_saturate_def)

definition gp_calm_start :: "(hydra_env, gp_event) label list" where
  "gp_calm_start =
     (let turn = [Fire 0, Recv calm_env] in
      [Recv calm_env, Perform, Perform, Perform] @ turn @ [Perform] @ turn @
      [Perform, Perform] @ turn @ [Perform] @ turn)"

lemmas gp_eval =
  actor_run.simps actor_exec.simps perform_def recv_event_def fire_timer_def offer_def
  enqueue_def room_def event_capacity_def remove_nth_def gp_run_def gp_boot_def gp_init_def
  actor_spawn_def gp_demo_boot_def gp_demo_req_def gp_demo_resp_def gp_start_hydra_node_def
  gp_stop_hydra_node_def gp_send_delayed_def gp_hydra_node_args_def show_u16_def Let_def

section \<open>Properties\<close>

text \<open>C1: In every state the controller can reach, under any schedule and any behaviour of the
  outside world, it has sent at most the configured number of microtransactions since the head
  was set up, it is closing exactly when that number is reached, it closes only an open head,
  and it awaits a confirmation only after a payment.\<close>

theorem gp_payment_invariant:
  assumes "gp_reachable (gp_boot toml gw reward dir req resp) b"
  shows "gp_toml (ac_state b) = toml \<and> gp_wf (ac_state b)"
proof -
  let ?I = "\<lambda>s. gp_toml s = toml \<and> gp_wf s"
  have "?I (gp_init toml gw reward dir req resp)"
    by (simp add: gp_init_def gp_wf_def Let_def)
  then show ?thesis
    using assms [unfolded gp_reachable_def gp_boot_def] gp_wf_step gp_toml_step
    by - (rule gp.state_invariant [where I = ?I], auto)
qed

theorem gp_payment_invariant_witness:
  "\<exists>b. gp_reachable gp_demo_boot b \<and> gp_hydra_head_open (ac_state b) \<and>
     gp_is_closing (ac_state b) \<and> gp_wf (ac_state b)"
proof -
  let ?ls = "gp_calm_start @ [Deliver GP_AccountOneRequest, Recv calm_env]"
  have "\<exists>b. gp_run ?ls gp_demo_boot = Some b \<and> gp_hydra_head_open (ac_state b) \<and>
      gp_is_closing (ac_state b)"
    by (simp add: gp_eval target_demo gp_calm_start_def gp_handler_defs gp_is_terminate_def)
       (simp add: gp_demo_toml_def)
  then obtain b where b: "gp_run ?ls gp_demo_boot = Some b" "gp_hydra_head_open (ac_state b)"
      "gp_is_closing (ac_state b)" by blast
  from gp_run_reachable [OF b(1)] have r: "gp_reachable gp_demo_boot b" .
  with b gp_payment_invariant [of gp_demo_toml] show ?thesis
    unfolding gp_demo_boot_def by blast
qed

text \<open>C3: Every payment goes to the reward address, and is either the microtransaction for the
  accounted requests of an open head that is neither closing nor waiting for a confirmation,
  or the re-submission, for the same amount, of a payment whose inputs are still in the
  snapshot after all polls.\<close>

theorem gp_pays_only_when_due:
  assumes "gp_process_event v e s = (s', fx, r)" and "Do (Send_Tx a m) \<in> set fx"
  shows "a = gp_reward_addr s \<and>
    (e = GP_AccountOneRequest \<and> gp_hydra_head_open s \<and> \<not> gp_is_closing s \<and>
       \<not> gp_awaiting_l2_confirmation s \<and>
       ht_requests_per_microtransaction (gp_toml s) \<le> gp_accounted_requests s + 1 \<and>
       m = (gp_accounted_requests s + 1) * ht_lovelace_per_request (gp_toml s) \<or>
     (\<exists>inputs n left utxo. e = GP_WaitForL2Tx inputs n m left \<and> 15 \<le> n \<and> 0 < left \<and>
       he_snapshot v = Inr utxo \<and> still_present inputs utxo))"
proof (cases "gp_pays e")
  case False
  with gp_frame_others [of e s v] assms show ?thesis by (simp add: gp_frame_def)
next
  case True
  then show ?thesis
  proof (cases e)
    case GP_Restart
    with assms gp_restart_counters [of v s s' fx r] show ?thesis by auto
  next
    case (GP_WaitForL2Tx i n m' l)
    with assms show ?thesis
      by (auto simp: gp_on_wait_for_l2_tx_def gp_send_delayed_def Let_def
          L2_TX_MAX_POLL_ATTEMPTS_def split: if_splits sum.splits)
  qed (use assms in \<open>auto simp: gp_on_wait_for_open_def gp_on_account_one_request_def
      gp_on_wait_for_idle_def gp_send_delayed_def Let_def split: if_splits sum.splits\<close>)
qed

theorem gp_pays_only_when_due_witness:
  "let s = gp_demo_state\<lparr>gp_hydra_head_open := True\<rparr>;
       h = gp_process_event calm_env GP_AccountOneRequest s
   in Do (Send_Tx ''reward'' 840450) \<in> set (fst (snd h)) \<and> gp_hydra_head_open s"
proof -
  let ?s = "gp_demo_state\<lparr>gp_hydra_head_open := True\<rparr>"
  obtain s' fx r where h: "gp_process_event calm_env GP_AccountOneRequest ?s = (s', fx, r)"
    by (metis prod_cases3)
  then have d: "Do (Send_Tx ''reward'' 840450) \<in> set fx"
    by (auto simp: gp_on_account_one_request_def gp_demo_state_def gp_init_def gp_demo_toml_def
        Let_def)
  from gp_pays_only_when_due [OF h d] have "gp_hydra_head_open ?s" by auto
  with h d show ?thesis by (simp add: Let_def)
qed

fun gp_opens :: "gp_event \<Rightarrow> bool" where
  "gp_opens GP_Restart = True"
| "gp_opens GP_FundCommitAddr = True"
| "gp_opens GP_TryToInitHead = True"
| "gp_opens (GP_WaitForInitial n) = True"
| "gp_opens GP_TryToCommit = True"
| "gp_opens GP_WaitForOpen = True"
| "gp_opens _ = False"

fun gp_closes :: "gp_event \<Rightarrow> bool" where
  "gp_closes GP_Restart = True"
| "gp_closes GP_WaitForUtxoCount = True"
| "gp_closes GP_TryToClose = True"
| "gp_closes (GP_WaitForClosed n) = True"
| "gp_closes GP_WaitForFanoutReady = True"
| "gp_closes GP_DoFanout = True"
| "gp_closes (GP_WaitForIdleAfterClose n) = True"
| "gp_closes _ = False"

fun gp_confirms :: "gp_event \<Rightarrow> bool" where
  "gp_confirms GP_Restart = True"
| "gp_confirms (GP_WaitForL2Tx i n m r) = True"
| "gp_confirms _ = False"

text \<open>Outside the payment cycle each handler that returns \<open>Ok\<close> schedules its successor.\<close>

lemma gp_chain_restart: "continues gp_opens (gp_on_restart v s)"
  by (auto simp: continues_def gp_on_restart_def gp_send_delayed_def Let_def
      split: prod.splits sum.splits)

lemma gp_chain_fund: "continues gp_opens (gp_on_fund_commit_addr v s)"
  by (simp add: continues_def gp_on_fund_commit_addr_def gp_send_delayed_def Let_def
      split: sum.split)

lemma gp_chain_open:
  "continues gp_opens (gp_on_try_to_init_head v s)"
  "continues gp_opens (gp_on_wait_for_initial v n s)"
  "continues gp_opens (gp_on_try_to_commit v s)"
  by (simp_all add: continues_def gp_on_try_to_init_head_def gp_on_wait_for_initial_def
      gp_on_try_to_commit_def gp_send_delayed_def Let_def split: sum.split)

lemma gp_chain_close:
  "continues gp_closes (gp_on_wait_for_utxo_count v s)"
  "continues gp_closes (gp_on_try_to_close v s)"
  "continues gp_closes (gp_on_wait_for_closed v n s)"
  "continues gp_closes (gp_on_wait_for_fanout_ready v s)"
  "continues gp_closes (gp_on_do_fanout v s)"
  by (simp_all add: continues_def gp_on_wait_for_utxo_count_def gp_on_try_to_close_def
      gp_on_wait_for_closed_def gp_on_wait_for_fanout_ready_def gp_on_do_fanout_def
      gp_send_delayed_def Let_def split: sum.split)

lemma gp_chain_opens: "gp_opens e \<Longrightarrow> \<not> gp_pays e \<Longrightarrow> continues gp_opens (gp_process_event v e s)"
  by (cases e) (simp_all add: gp_chain_fund gp_chain_open)

lemma gp_chain_closes: "gp_closes e \<Longrightarrow> \<not> gp_pays e \<Longrightarrow> continues gp_closes (gp_process_event v e s)"
  by (cases e) (simp_all add: gp_chain_close)

lemma gp_opening_step:
  assumes "gp_process_event v e s = (s', fx, Inr ())" and "\<not> gp_hydra_head_open s'"
  shows "(\<exists>f\<in>set fx. emits gp_opens f) \<or> (\<not> gp_hydra_head_open s \<and> \<not> gp_opens e)"
proof (cases "gp_pays e")
  case False
  with gp_frame_others [of e s v] gp_chain_opens [of e v s] assms
  show ?thesis by (auto simp: gp_frame_def continues_def)
next
  case True
  then show ?thesis
  proof (cases e)
    case GP_Restart
    with gp_chain_restart [of v s] assms show ?thesis by (simp add: continues_def)
  next
    case GP_AccountOneRequest
    with assms(1) have "gp_on_account_one_request v s = (s', fx, Inr ())" by simp
    then show ?thesis by (cases rule: gp_account_cases) (use GP_AccountOneRequest assms in auto)
  qed (use assms in \<open>auto simp: gp_on_wait_for_open_def gp_on_wait_for_l2_tx_def
      gp_on_wait_for_idle_def gp_send_delayed_def Let_def split: if_splits sum.splits\<close>)
qed

lemma gp_closing_step:
  assumes "gp_process_event v e s = (s', fx, Inr ())" and "gp_is_closing s'"
  shows "(\<exists>f\<in>set fx. emits gp_closes f) \<or> (gp_is_closing s \<and> \<not> gp_closes e)"
proof (cases "gp_pays e")
  case False
  with gp_frame_others [of e s v] gp_chain_closes [of e v s] assms
  show ?thesis by (auto simp: gp_frame_def continues_def)
next
  case True
  then show ?thesis
  proof (cases e)
    case GP_Restart
    with gp_restart_counters [of v s s' fx "Inr ()"] assms show ?thesis by simp
  next
    case GP_AccountOneRequest
    with assms(1) have "gp_on_account_one_request v s = (s', fx, Inr ())" by simp
    then show ?thesis
      by (cases rule: gp_account_cases)
        (use GP_AccountOneRequest assms in \<open>auto simp: gp_send_delayed_def intro: bexI [rotated]\<close>)
  qed (use assms in \<open>auto simp: gp_on_wait_for_open_def gp_on_wait_for_l2_tx_def
      gp_on_wait_for_idle_def gp_send_delayed_def Let_def split: if_splits sum.splits\<close>)
qed

lemma gp_confirming_step:
  assumes "gp_process_event v e s = (s', fx, Inr ())" and "gp_awaiting_l2_confirmation s'"
  shows "(\<exists>f\<in>set fx. emits gp_confirms f) \<or> (gp_awaiting_l2_confirmation s \<and> \<not> gp_confirms e)"
proof (cases "gp_pays e")
  case False
  with gp_frame_others [of e s v] assms show ?thesis by (cases e) (auto simp: gp_frame_def)
next
  case True
  then show ?thesis
  proof (cases e)
    case GP_Restart
    with gp_restart_counters [of v s s' fx "Inr ()"] assms show ?thesis by simp
  next
    case GP_AccountOneRequest
    with assms(1) have "gp_on_account_one_request v s = (s', fx, Inr ())" by simp
    then show ?thesis
      by (cases rule: gp_account_cases) (use GP_AccountOneRequest assms in \<open>auto intro: bexI [rotated]\<close>)
  qed (use assms in \<open>auto simp: gp_on_wait_for_open_def gp_on_wait_for_l2_tx_def
      gp_on_wait_for_idle_def gp_send_delayed_def Let_def split: if_splits sum.splits\<close>)
qed

text \<open>C2: The controller never waits for something nobody will send: while the head is not open an
  event of the opening sequence is on its way, while it closes one of the closing sequence,
  and while it awaits a confirmation a poll of it, or a restart.\<close>

theorem gp_never_stuck:
  assumes "gp_reachable (gp_boot toml gw reward dir req resp) b" and "\<not> ac_stopped b"
  shows "(\<not> gp_hydra_head_open (ac_state b) \<longrightarrow> pending gp_restart_gen gp_opens b) \<and>
    (gp_is_closing (ac_state b) \<longrightarrow> pending gp_restart_gen gp_closes b) \<and>
    (gp_awaiting_l2_confirmation (ac_state b) \<longrightarrow> pending gp_restart_gen gp_confirms b)"
proof -
  note r = assms(1) [unfolded gp_reachable_def gp_boot_def]
  have "pending gp_restart_gen gp_opens b" if "\<not> gp_hydra_head_open (ac_state b)"
    by (rule gp.pending_reach [OF r, where Q = "\<lambda>s. \<not> gp_hydra_head_open s"])
      (use that assms(2) gp_opening_step in auto)
  moreover have "pending gp_restart_gen gp_closes b" if "gp_is_closing (ac_state b)"
    by (rule gp.pending_reach [OF r, where Q = gp_is_closing])
      (use that assms(2) gp_closing_step in auto)
  moreover have "pending gp_restart_gen gp_confirms b" if "gp_awaiting_l2_confirmation (ac_state b)"
    by (rule gp.pending_reach [OF r, where Q = gp_awaiting_l2_confirmation])
      (use that assms(2) gp_confirming_step in auto)
  ultimately show ?thesis by blast
qed

theorem gp_never_stuck_witness:
  "\<exists>b. gp_reachable gp_demo_boot b \<and> gp_awaiting_l2_confirmation (ac_state b) \<and>
     pending gp_restart_gen gp_confirms b \<and> pending gp_restart_gen gp_closes b"
proof -
  let ?ls = "gp_calm_start @ [Deliver GP_AccountOneRequest, Recv calm_env]"
  have "\<exists>b. gp_run ?ls gp_demo_boot = Some b \<and> gp_awaiting_l2_confirmation (ac_state b) \<and>
      gp_is_closing (ac_state b) \<and> \<not> ac_stopped b"
    by (simp add: gp_eval target_demo gp_calm_start_def gp_handler_defs gp_is_terminate_def)
       (simp add: gp_demo_toml_def)
  then obtain b where b: "gp_run ?ls gp_demo_boot = Some b"
    "gp_awaiting_l2_confirmation (ac_state b)" "gp_is_closing (ac_state b)" "\<not> ac_stopped b"
    by blast
  from gp_run_reachable [OF b(1)] have r: "gp_reachable gp_demo_boot b" .
  with b gp_never_stuck [of gp_demo_toml] show ?thesis
    unfolding gp_demo_boot_def by blast
qed

text \<open>A configuration that passes the validation, and a run in which 32 requests arrive while
  the controller sends a microtransaction: its own \<open>send\<close> of \<open>WaitForL2Tx\<close> waits for room in
  the channel only it drains, and nothing that can happen afterwards changes its state.\<close>

theorem gp_self_send_deadlock:
  "validate_toml id gp_demo_toml = Inr () \<and>
   (\<exists>ls b. gp_run ls gp_demo_boot = Some b \<and> wedged b \<and>
      {c. gp_reachable b c} \<subseteq>
         {c. wedged c \<and> ac_state c = ac_state b \<and> ac_queue c = ac_queue b \<and>
            ac_calls c = ac_calls b})"
proof
  show "validate_toml id gp_demo_toml = Inr ()"
    by (simp add: validate_toml_def minimal_commit_def gp_demo_toml_def Let_def
        MIN_LOVELACE_PER_TRANSACTION_def)
  let ?ls = "gp_calm_start @ [Deliver GP_AccountOneRequest, Recv calm_env, Perform]"
  have "\<exists>a f fx. gp_run ?ls gp_demo_boot = Some a \<and> \<not> ac_stopped a \<and> ac_queue a = [] \<and>
      ac_outbox a = Send f # fx"
    by (simp add: gp_eval target_demo gp_calm_start_def gp_handler_defs gp_is_terminate_def)
       (simp add: gp_demo_toml_def)
  then obtain a f fx where a: "gp_run ?ls gp_demo_boot = Some a" "\<not> ac_stopped a"
    "ac_queue a = []" "ac_outbox a = Send f # fx" by blast
  obtain b where "gp_run (replicate event_capacity (Deliver GP_AccountOneRequest)) a = Some b"
    "wedged b"
    using wedged_after_burst [OF a(2-4)] unfolding gp_run_def by metis
  then have b: "gp_run (?ls @ replicate event_capacity (Deliver GP_AccountOneRequest)) gp_demo_boot
     = Some b" "wedged b"
    by (simp_all only: gp_run_append [of ?ls] a(1) bind.simps)
  then have "{c. gp_reachable b c} \<subseteq> {c. wedged c \<and> ac_state c = ac_state b \<and>
      ac_queue c = ac_queue b \<and> ac_calls c = ac_calls b}"
    unfolding gp_reachable_def using wedged_forever [OF _ b(2)] by blast
  with b show "\<exists>ls b. gp_run ls gp_demo_boot = Some b \<and> wedged b \<and>
      {c. gp_reachable b c} \<subseteq> {c. wedged c \<and> ac_state c = ac_state b \<and>
         ac_queue c = ac_queue b \<and> ac_calls c = ac_calls b}"
    by (intro exI conjI)
qed

text \<open>A configuration that passes the validation, and a run in which requests accounted before
  the head is open are all paid by the first microtransaction, which is larger than everything
  committed to the head.\<close>

theorem gp_backlog_exceeds_commit:
  "validate_toml id gp_demo_toml = Inr () \<and>
   (\<exists>ls b m. gp_run ls gp_demo_boot = Some b \<and>
      ac_calls b = butlast (ac_calls b) @ [Send_Tx ''reward'' m] \<and>
      ht_commit_ada gp_demo_toml * 1000000 < real (unat m))"
proof
  show "validate_toml id gp_demo_toml = Inr ()"
    by (simp add: validate_toml_def minimal_commit_def gp_demo_toml_def Let_def
        MIN_LOVELACE_PER_TRANSACTION_def)
  let ?one = "[Deliver GP_AccountOneRequest, Recv calm_env]"
  let ?ls = "[Recv calm_env, Perform, Perform, Perform] @ ?one @ ?one @ tl (tl (tl (tl gp_calm_start)))
     @ ?one @ [Perform]"
  have "\<exists>b. gp_run ?ls gp_demo_boot = Some b \<and> last (ac_calls b) = Send_Tx ''reward'' 2521350 \<and>
    ac_calls b \<noteq> []"
    by (simp add: gp_eval target_demo gp_calm_start_def gp_handler_defs gp_is_terminate_def)
       (simp add: gp_demo_toml_def)
  then obtain b where b: "gp_run ?ls gp_demo_boot = Some b"
    "last (ac_calls b) = Send_Tx ''reward'' 2521350" "ac_calls b \<noteq> []" by blast
  then have "ac_calls b = butlast (ac_calls b) @ [Send_Tx ''reward'' 2521350]"
    by (metis append_butlast_last_id)
  moreover have "ht_commit_ada gp_demo_toml * 1000000 < real (unat (2521350 :: u64))"
    by (simp add: gp_demo_toml_def)
  ultimately show "\<exists>ls b m. gp_run ls gp_demo_boot = Some b \<and>
      ac_calls b = butlast (ac_calls b) @ [Send_Tx ''reward'' m] \<and>
      ht_commit_ada gp_demo_toml * 1000000 < real (unat m)" using b(1) by blast
qed

definition gp_fund_guard :: "gp_state \<Rightarrow> gp_handled \<Rightarrow> bool" where
  "gp_fund_guard s h \<longleftrightarrow> (case h of (s', fx, r) \<Rightarrow> gp_commit_fund_tx_sent s' = gp_commit_fund_tx_sent s \<and>
     (\<forall>a b m. Do (Fund_Address a b m) \<notin> set fx))"

lemma gp_fund_guard_start: "gp_fund_guard s (gp_start_hydra_node v s)"
  by (auto simp: gp_start_hydra_node_def gp_stop_hydra_node_def gp_fund_guard_def Let_def
      split: sum.splits option.splits)

lemma gp_fund_guard_restart: "gp_fund_guard s (gp_on_restart v s)"
proof -
  let ?s = "s\<lparr>gp_restart_gen := gp_restart_gen s + 1, gp_hydra_head_open := False,
    gp_hydra_peers_connected := False, gp_is_closing := False,
    gp_awaiting_l2_confirmation := False, gp_sent_microtransactions := 0,
    gp_accounted_requests := 0\<rparr>"
  from gp_fund_guard_start [of ?s v] show ?thesis
    by (auto simp: gp_on_restart_def gp_fund_guard_def gp_send_delayed_def Let_def
        split: prod.splits sum.splits)
qed

lemma gp_fund_guard_others:
  "e \<noteq> GP_FundCommitAddr \<Longrightarrow> gp_fund_guard s (gp_process_event v e s)"
proof (cases e)
  case GP_Restart
  then show ?thesis by (simp add: gp_fund_guard_restart)
next
  case GP_AccountOneRequest
  then show ?thesis
    by (simp add: gp_fund_guard_def gp_on_account_one_request_def gp_send_delayed_def Let_def
        split: sum.split)
qed (auto simp: gp_handler_defs gp_fund_guard_def gp_stop_hydra_node_def gp_send_delayed_def
      Let_def split: sum.splits option.splits)

text \<open>The commit wallet is topped up only when no top-up is outstanding, from the gateway's
  address, by at least the minimum and by enough to reach the target; the top-up stays
  outstanding until the wallet has been seen at the target.\<close>

theorem gp_funds_once:
  assumes "gp_process_event v e s = (s', fx, r)"
  shows "(gp_commit_fund_tx_sent s \<and> \<not> gp_commit_fund_tx_sent s' \<longrightarrow>
      (\<exists>cur. e = GP_FundCommitAddr \<and> he_lovelace_on_addr v (gp_commit_wallet_addr s') = Inr cur \<and>
         target_lovelace v (gp_toml s) \<le> cur)) \<and>
    (\<forall>src addr m. Do (Fund_Address src addr m) \<in> set fx \<longrightarrow>
      e = GP_FundCommitAddr \<and> \<not> gp_commit_fund_tx_sent s \<and> src = gp_gateway_cardano_addr s \<and>
      addr = gp_commit_wallet_addr s' \<and>
      MIN_LOVELACE_PER_TRANSACTION \<le> m \<and>
      (\<exists>cur. he_lovelace_on_addr v addr = Inr cur \<and> cur < target_lovelace v (gp_toml s) \<and>
         unat (target_lovelace v (gp_toml s)) \<le> unat cur + unat m) \<and>
      (r = Inr () \<longrightarrow> gp_commit_fund_tx_sent s'))"
proof (cases "e = GP_FundCommitAddr")
  case False
  with gp_fund_guard_others [OF this, of s v] assms show ?thesis by (auto simp: gp_fund_guard_def)
next
  case True
  have top: "unat t \<le> unat c + unat (max (t - c) m)" if "c < t" for t c m :: u64
  proof -
    have "unat (t - c) = unat t - unat c" using that by (intro unat_minus_le) simp
    moreover have "unat (t - c) \<le> unat (max (t - c) m)" by (simp add: max_def word_le_nat_alt)
    ultimately show ?thesis by simp
  qed
  from assms True show ?thesis
    by (auto simp: gp_on_fund_commit_addr_def gp_send_delayed_def Let_def top not_less
        split: sum.splits if_splits)
qed


text \<open>Once a restart has been handled, a delayed event that was asleep before it never reaches
  the channel again, whatever happens afterwards.\<close>

theorem gp_restart_cancels:
  assumes "gp_run ls (gp_boot toml gw reward dir req resp) = Some a"
    and "ac_queue a = GP_Restart # q" and "(g, e) \<in> set (ac_timers a)"
    and "gp_run (Recv v # ms) a = Some c"
    and "length ls + length ms + 2 < 2 ^ 64"
  shows "g \<noteq> gp_restart_gen (ac_state c) \<and>
    (\<forall>i d. ac_timers c ! i = (g, e) \<longrightarrow> fire_timer gp_restart_gen i c = Some d \<longrightarrow>
       ac_queue d = ac_queue c \<and> ac_blocked d = ac_blocked c)"
proof
  let ?a0 = "gp_boot toml gw reward dir req resp"
  have g0: "unat (gp_restart_gen (ac_state ?a0)) = 0"
    by (simp add: gp_boot_def actor_spawn_def gp_init_def)
  have tb: "gp.tags_bounded a"
    by (rule gp.tags_bounded_run [OF _ assms(1) [unfolded gp_run_def]])
      (use g0 assms(5) gp.tags_bounded_spawn in \<open>auto simp: gp_boot_def\<close>)
  have ga: "unat (gp_restart_gen (ac_state a)) \<le> length ls"
    using gp.run_gen_upper [OF assms(1) [unfolded gp_run_def]] g0 assms(5) by simp
  from assms(4) obtain b where b: "actor_exec gp_restart_gen gp_process_event GP_Restart
      gp_is_terminate (Recv v) a = Some b" "gp_run ms b = Some c"
    by (auto simp: gp_run_def split: option.splits)
  show ne: "g \<noteq> gp_restart_gen (ac_state c)"
    by (rule gp.restart_invalidates [OF tb assms(2) b(1) b(2) [unfolded gp_run_def] _ assms(3)])
      (use ga assms(5) in simp)
  show "\<forall>i d. ac_timers c ! i = (g, e) \<longrightarrow> fire_timer gp_restart_gen i c = Some d \<longrightarrow>
       ac_queue d = ac_queue c \<and> ac_blocked d = ac_blocked c"
    using ne by (auto simp: fire_timer_def Let_def split: if_splits)
qed

theorem gp_restart_cancels_witness:
  "\<exists>a b. gp_run [Recv calm_env, Perform, Perform, Perform, Deliver GP_Restart] gp_demo_boot = Some a \<and>
     ac_timers a = [(1, GP_FundCommitAddr)] \<and> gp_run [Recv calm_env] a = Some b \<and>
     1 \<noteq> gp_restart_gen (ac_state b)"
proof -
  let ?ls = "[Recv calm_env, Perform, Perform, Perform, Deliver GP_Restart]"
  have "\<exists>a. gp_run ?ls gp_demo_boot = Some a \<and> ac_timers a = [(1, GP_FundCommitAddr)] \<and>
      ac_queue a = [GP_Restart] \<and> ac_outbox a = [] \<and> \<not> ac_stopped a"
    by (simp add: gp_eval gp_handler_defs gp_is_terminate_def)
  then obtain a where a: "gp_run ?ls gp_demo_boot = Some a" "ac_timers a = [(1, GP_FundCommitAddr)]"
      "ac_queue a = [GP_Restart]" "ac_outbox a = []" "\<not> ac_stopped a" by blast
  then have "\<exists>b. gp_run [Recv calm_env] a = Some b"
    by (auto simp: gp_run_def recv_event_def split: prod.splits sum.splits)
  then obtain b where b: "gp_run [Recv calm_env] a = Some b" by blast
  from gp_restart_cancels [OF a(1) [unfolded gp_demo_boot_def] a(3) _ b, of 1 GP_FundCommitAddr]
  have "1 \<noteq> gp_restart_gen (ac_state b)" by (simp add: a(2))
  with a b show ?thesis by blast
qed

definition gp_serve_one :: "hydra_env \<Rightarrow> gp_state \<Rightarrow> gp_state \<times> hydra_call list" where
  "gp_serve_one v s =
     (case gp_process_event v GP_AccountOneRequest s of (s1, fx, r) \<Rightarrow>
        (fold (\<lambda>e s2. fst (gp_process_event v e s2))
           (concat (map (\<lambda>f. case f of Send e \<Rightarrow> [e] | _ \<Rightarrow> []) fx)) s1,
         concat (map (\<lambda>f. case f of Do x \<Rightarrow> [x] | _ \<Rightarrow> []) fx)))"

fun gp_serve :: "hydra_env \<Rightarrow> nat \<Rightarrow> gp_state \<Rightarrow> gp_state \<times> hydra_call list" where
  "gp_serve v 0 s = (s, [])"
| "gp_serve v (Suc n) s =
     (let (s1, xs) = gp_serve v n s; (s2, ys) = gp_serve_one v s1 in (s2, xs @ ys))"

definition gp_serving :: "gp_state \<Rightarrow> nat \<Rightarrow> gp_state \<Rightarrow> bool" where
  "gp_serving s n s' \<longleftrightarrow>
     (let R = unat (ht_requests_per_microtransaction (gp_toml s));
          K = unat (ht_microtransactions_per_fanout (gp_toml s))
      in gp_toml s' = gp_toml s \<and> gp_reward_addr s' = gp_reward_addr s \<and> gp_hydra_head_open s' \<and>
         \<not> gp_awaiting_l2_confirmation s' \<and>
         unat (gp_accounted_requests s') = n mod R \<and>
         unat (gp_sent_microtransactions s') = n div R \<and> (gp_is_closing s' \<longleftrightarrow> n = R * K))"

lemma gp_serve_one_step:
  assumes "gp_serving s n s'" and "he_send_tx v = Inr ins" and "he_snapshot v = Inr (JObj [])"
    and "0 < unat (ht_requests_per_microtransaction (gp_toml s))"
    and "n < unat (ht_requests_per_microtransaction (gp_toml s)) *
           unat (ht_microtransactions_per_fanout (gp_toml s))"
    and "gp_serve_one v s' = (s'', xs)"
  shows "gp_serving s (Suc n) s'' \<and>
    xs = (if Suc n mod unat (ht_requests_per_microtransaction (gp_toml s)) = 0
          then [Send_Tx (gp_reward_addr s)
                  (ht_requests_per_microtransaction (gp_toml s) * ht_lovelace_per_request (gp_toml s))]
          else [])"
proof -
  define R where "R = unat (ht_requests_per_microtransaction (gp_toml s))"
  define K where "K = unat (ht_microtransactions_per_fanout (gp_toml s))"
  note sv = assms(1) [unfolded gp_serving_def Let_def, folded R_def K_def]
  have R: "0 < R" "R < 2 ^ 64" and K: "K < 2 ^ 64" and n: "n < R * K"
    using assms(4,5) unat_lt_2_64 by (simp_all add: R_def K_def)
  have acc: "unat (gp_accounted_requests s' + 1) = Suc (n mod R)"
    using sv R mod_less_divisor [OF R(1), of n] by (simp add: unat_Suc_no_wrap)
  have nk: "n div R < K" using n R(1) by (simp add: div_less_iff_less_mult mult.commute)
  have sent: "unat (gp_sent_microtransactions s' + 1) = Suc (n div R)"
    using sv nk K by (simp add: unat_Suc_no_wrap)
  have cond: "ht_requests_per_microtransaction (gp_toml s) \<le> gp_accounted_requests s' + 1 \<longleftrightarrow>
      Suc n mod R = 0"
    using acc mod_less_divisor [OF R(1), of n] by (auto simp: word_le_nat_alt R_def [symmetric] mod_Suc)
  show ?thesis
  proof (cases "Suc n mod R = 0")
    case False
    then have "Suc n \<noteq> R * K" by auto
    with False sv acc cond n assms(6) show ?thesis
      unfolding R_def [symmetric]
      by (auto simp: gp_serve_one_def gp_on_account_one_request_def gp_serving_def Let_def mod_Suc div_Suc
          R_def [symmetric] K_def [symmetric] split: if_splits)
  next
    case True
    have eq: "gp_accounted_requests s' + 1 = ht_requests_per_microtransaction (gp_toml s)"
    proof (rule word_unat_eq_iff [THEN iffD2])
      show "unat (gp_accounted_requests s' + 1) = unat (ht_requests_per_microtransaction (gp_toml s))"
        using acc True R by (auto simp: mod_Suc R_def [symmetric] split: if_splits)
    qed
    have d: "Suc n div R = Suc (n div R)" using True by (simp add: div_Suc)
    have full: "ht_microtransactions_per_fanout (gp_toml s) \<le> gp_sent_microtransactions s' + 1 \<longleftrightarrow>
        Suc n = R * K"
    proof -
      have "ht_microtransactions_per_fanout (gp_toml s) \<le> gp_sent_microtransactions s' + 1 \<longleftrightarrow>
          K \<le> Suc n div R" using sent d by (simp add: word_le_nat_alt K_def)
      also have "\<dots> \<longleftrightarrow> K * R \<le> Suc n" using R(1) by (simp add: less_eq_div_iff_mult_less_eq)
      also have "\<dots> \<longleftrightarrow> Suc n = R * K" using n by (auto simp: mult.commute)
      finally show ?thesis .
    qed
    have nc: "\<not> gp_is_closing s'" using sv n by simp
    from sv nc eq cond True full sent d assms(2,3,6) show ?thesis
      unfolding R_def [symmetric]
      by (auto simp: gp_serve_one_def gp_on_account_one_request_def gp_serving_def Let_def
          gp_on_wait_for_l2_tx_def still_present_def gp_send_delayed_def
          R_def [symmetric] K_def [symmetric] split: if_splits)
  qed
qed

text \<open>C4: With an open head and every payment confirmed, \<open>n\<close> requests lead to one payment of
  \<open>requests_per_microtransaction * lovelace_per_request\<close> per full group of requests and to
  nothing else; the rest stays accounted, and the head starts closing exactly with the last
  payment of the cycle.\<close>

theorem gp_microtransaction_schedule:
  assumes "he_send_tx v = Inr ins" and "he_snapshot v = Inr (JObj [])"
    and "gp_hydra_head_open s" and "\<not> gp_is_closing s" and "\<not> gp_awaiting_l2_confirmation s"
    and "gp_accounted_requests s = 0" and "gp_sent_microtransactions s = 0"
    and "0 < ht_requests_per_microtransaction (gp_toml s)"
    and "0 < ht_microtransactions_per_fanout (gp_toml s)"
    and "n \<le> unat (ht_requests_per_microtransaction (gp_toml s)) *
           unat (ht_microtransactions_per_fanout (gp_toml s))"
    and "gp_serve v n s = (s', calls)"
  shows "gp_serving s n s' \<and>
    calls = replicate (n div unat (ht_requests_per_microtransaction (gp_toml s)))
      (Send_Tx (gp_reward_addr s)
         (ht_requests_per_microtransaction (gp_toml s) * ht_lovelace_per_request (gp_toml s)))"
  using assms(10,11)
proof (induction n arbitrary: s' calls)
  case 0
  have "0 < unat (ht_requests_per_microtransaction (gp_toml s))"
    "0 < unat (ht_microtransactions_per_fanout (gp_toml s))"
    using assms(8,9) by (simp_all add: word_less_nat_alt)
  with 0 assms show ?case by (simp add: gp_serving_def Let_def)
next
  case (Suc n)
  obtain s1 xs s2 ys where 1: "gp_serve v n s = (s1, xs)" and 2: "gp_serve_one v s1 = (s2, ys)"
    by (metis surj_pair)
  with Suc.prems have s': "s' = s2" "calls = xs @ ys" by (auto simp: Let_def)
  from assms(8) have R: "0 < unat (ht_requests_per_microtransaction (gp_toml s))"
    by (simp add: word_less_nat_alt)
  from Suc.IH [OF _ 1] Suc.prems(1) have ih: "gp_serving s n s1"
    "xs = replicate (n div unat (ht_requests_per_microtransaction (gp_toml s)))
      (Send_Tx (gp_reward_addr s)
         (ht_requests_per_microtransaction (gp_toml s) * ht_lovelace_per_request (gp_toml s)))"
    by simp_all
  from gp_serve_one_step [OF ih(1) assms(1,2) R _ 2] Suc.prems(1) ih(2) s' show ?case
    by (auto simp: div_Suc replicate_append_same)
qed

text \<open>The schedule for two requests per microtransaction.\<close>

definition gp_demo_serving :: gp_state where
  "gp_demo_serving = gp_demo_state\<lparr>gp_hydra_head_open := True,
     gp_toml := gp_demo_toml\<lparr>ht_requests_per_microtransaction := 2,
       ht_microtransactions_per_fanout := 2\<rparr>\<rparr>"

theorem gp_microtransaction_schedule_witness:
  "snd (gp_serve calm_env 3 gp_demo_serving) = [Send_Tx ''reward'' 1680900]"
proof -
  obtain s' calls where g: "gp_serve calm_env 3 gp_demo_serving = (s', calls)" by (metis surj_pair)
  have "calls = replicate (3 div 2) (Send_Tx ''reward'' (2 * 840450))"
    using gp_microtransaction_schedule [OF _ _ _ _ _ _ _ _ _ _ g, of "[''tx#0'']"]
    by (simp add: gp_demo_serving_def gp_demo_state_def gp_init_def gp_demo_toml_def)
  with g show ?thesis by simp
qed

theorem gp_funds_once_witness:
  "\<exists>s' fx. gp_process_event (calm_env\<lparr>he_lovelace_on_addr := (\<lambda>_. Inr 1500000)\<rparr>) GP_FundCommitAddr
      gp_demo_state = (s', fx, Inr ()) \<and>
    Do (Fund_Address ''gw'' ''addr'' 840450) \<in> set fx \<and> gp_commit_fund_tx_sent s'"
proof -
  let ?v = "calm_env\<lparr>he_lovelace_on_addr := (\<lambda>_. Inr 1500000)\<rparr>"
  have t: "target_lovelace ?v gp_demo_toml = 2000000"
    by (simp add: target_lovelace_def gp_demo_toml_def f64_round_def u64_saturate_def)
  have "\<exists>s' fx. gp_process_event ?v GP_FundCommitAddr gp_demo_state = (s', fx, Inr ()) \<and>
      Do (Fund_Address ''gw'' ''addr'' 840450) \<in> set fx"
    using t by (simp add: gp_on_fund_commit_addr_def gp_demo_state_def gp_init_def
        MIN_LOVELACE_PER_TRANSACTION_def max_def Let_def)
  then obtain s' fx where h: "gp_process_event ?v GP_FundCommitAddr gp_demo_state = (s', fx, Inr ())"
      and d: "Do (Fund_Address ''gw'' ''addr'' 840450) \<in> set fx" by blast
  from gp_funds_once [OF h] d have "gp_commit_fund_tx_sent s'" by blast
  with h d show ?thesis by blast
qed

end
