(* ===== verification/Prepaid_Account.thy ===== *)
theory Prepaid_Account
  imports Prelude
begin

text \<open>
  What both ends of a bridge promise about prepaid credits: a poll of the gateway's balance on
  the head turns what has arrived since the last poll into whole microtransactions, and each
  of them into the credits of one batch. The specification is one function on the pair of
  credits and last balance; the controllers of the gateway and of the SDK bridge both refine
  it, and what follows from it is proved once.
\<close>

section \<open>The specification\<close>

definition account_poll :: "u64 \<Rightarrow> u64 \<Rightarrow> u64 \<Rightarrow> u64 \<times> u64 \<Rightarrow> u64 \<times> u64" where
  "account_poll l r b a =
     (if b \<le> snd a then (fst a, b) else (fst a + (b - snd a) div (l * r) * r, b))"

text \<open>What arrived between consecutive polls, and whether it came in whole payments.\<close>

fun inflow :: "u64 \<Rightarrow> u64 list \<Rightarrow> nat" where
  "inflow b [] = 0"
| "inflow b (c # cs) = (unat c - unat b) + inflow c cs"

fun whole_payments :: "nat \<Rightarrow> u64 \<Rightarrow> u64 list \<Rightarrow> bool" where
  "whole_payments m b [] = True"
| "whole_payments m b (c # cs) = (m dvd (unat c - unat b) \<and> whole_payments m c cs)"

lemma account_poll_exact:
  fixes l r b c last :: u64
  defines "m \<equiv> unat l * unat r" and "d \<equiv> unat b - unat last"
  assumes m: "0 < m" "m < 2 ^ 64" and room: "unat c * unat l + d < 2 ^ 64"
  shows "unat (fst (account_poll l r b (c, last))) = unat c + d div m * unat r"
proof (cases "b \<le> last")
  case True
  then show ?thesis by (simp add: account_poll_def d_def word_le_nat_alt)
next
  case False
  have lr: "unat (l * r) = m" using m(2) by (simp add: m_def unat_mult_no_wrap)
  have d: "unat (b - last) = d" using False by (simp add: d_def unat_minus_le)
  have "0 < unat l" using m(1) by (simp add: m_def)
  then have grow: "k \<le> k * unat l" for k by simp
  have le: "d div m * unat r * unat l \<le> d" unfolding m_def by (rule whole_units_le)
  have "(unat c + d div m * unat r) * unat l < 2 ^ 64"
    using le room by (simp add: add_mult_distrib)
  with grow [of "unat c + d div m * unat r"] have small: "unat c + d div m * unat r < 2 ^ 64"
    by linarith
  have q: "unat ((b - last) div (l * r) * r) = d div m * unat r"
    using small by (simp add: unat_div d lr unat_mult_no_wrap)
  show ?thesis using False q small by (simp add: account_poll_def unat_add_no_wrap)
qed

text \<open>The credits that a poll adds do not depend on the credits there already were.\<close>

lemma fold_account_poll_shift:
  "fold (account_poll l r) bs (c + k, b0) =
     (fst (fold (account_poll l r) bs (c, b0)) + k, snd (fold (account_poll l r) bs (c, b0)))"
proof (induction bs arbitrary: c b0)
  case (Cons b bs)
  show ?case
  proof (cases "b \<le> b0")
    case True
    then show ?thesis using Cons [of c b] by (simp add: account_poll_def)
  next
    case False
    then show ?thesis using Cons [of "c + (b - b0) div (l * r) * r" b]
      by (simp add: account_poll_def ac_simps)
  qed
qed simp

section \<open>The interface\<close>

locale prepaid_account =
  fixes credits :: "'s \<Rightarrow> u64"
    and last_balance :: "'s \<Rightarrow> u64"
    and per_request :: "'s \<Rightarrow> u64"
    and per_batch :: "'s \<Rightarrow> u64"
    and poll :: "u64 \<Rightarrow> 's \<Rightarrow> 's"
  assumes poll_refines:
      "(credits (poll b s), last_balance (poll b s)) =
       account_poll (per_request s) (per_batch s) b (credits s, last_balance s)"
    and poll_terms: "per_request (poll b s) = per_request s" "per_batch (poll b s) = per_batch s"
begin

lemma fold_terms:
  "per_request (fold poll bs s) = per_request s \<and> per_batch (fold poll bs s) = per_batch s"
  by (induction bs arbitrary: s) (simp_all add: poll_terms)

lemma fold_refines:
  "(credits (fold poll bs s), last_balance (fold poll bs s)) =
   fold (account_poll (per_request s) (per_batch s)) bs (credits s, last_balance s)"
proof (induction bs arbitrary: s)
  case (Cons b bs)
  then show ?case using Cons [of "poll b s"] by (simp add: poll_terms poll_refines)
qed simp

lemma fold_increment:
  "credits (fold poll bs s) - credits s =
     fst (fold (account_poll (per_request s) (per_batch s)) bs (0, last_balance s))"
  "last_balance (fold poll bs s) =
     snd (fold (account_poll (per_request s) (per_batch s)) bs (0, last_balance s))"
  using fold_refines [of bs s]
    fold_account_poll_shift [of "per_request s" "per_batch s" bs 0 "credits s" "last_balance s"]
  by (simp_all add: prod_eq_iff)

lemma poll_balance: "last_balance (poll b s) = b"
  using poll_refines [of b s] by (simp add: account_poll_def split: if_splits)

lemma poll_credits:
  assumes "0 < unat (per_request s) * unat (per_batch s)"
    and "unat (per_request s) * unat (per_batch s) < 2 ^ 64"
    and "unat (credits s) * unat (per_request s) + (unat b - unat (last_balance s)) < 2 ^ 64"
  shows "unat (credits (poll b s)) = unat (credits s) +
    (unat b - unat (last_balance s)) div (unat (per_request s) * unat (per_batch s)) *
      unat (per_batch s)"
  using account_poll_exact [OF assms] poll_refines [of b s] by (metis fst_conv)

lemma credits_backed:
  assumes "0 < unat (per_request s) * unat (per_batch s)"
    and "unat (per_request s) * unat (per_batch s) < 2 ^ 64"
    and "unat (credits s) * unat (per_request s) + inflow (last_balance s) bs < 2 ^ 64"
  shows "unat (credits s) \<le> unat (credits (fold poll bs s)) \<and>
    unat (credits (fold poll bs s)) * unat (per_request s) \<le>
      unat (credits s) * unat (per_request s) + inflow (last_balance s) bs \<and>
    (whole_payments (unat (per_request s) * unat (per_batch s)) (last_balance s) bs \<longrightarrow>
      unat (credits (fold poll bs s)) * unat (per_request s) =
      unat (credits s) * unat (per_request s) + inflow (last_balance s) bs)"
  using assms
proof (induction bs arbitrary: s)
  case Nil
  then show ?case by simp
next
  case (Cons b bs)
  let ?l = "unat (per_request s)"
  let ?r = "unat (per_batch s)"
  let ?d = "unat b - unat (last_balance s)"
  define x where "x = unat (credits s)"
  define y where "y = unat (credits (poll b s))"
  define z where "z = unat (credits (fold poll bs (poll b s)))"
  define k where "k = ?d div (?l * ?r) * ?r"
  have step: "y = x + k"
    unfolding x_def y_def k_def by (rule poll_credits) (use Cons.prems in auto)
  have le: "k * ?l \<le> ?d" unfolding k_def by (rule whole_units_le)
  have eq: "?l * ?r dvd ?d \<Longrightarrow> k * ?l = ?d" unfolding k_def by (rule whole_units_eq)
  have yl: "y * ?l = x * ?l + k * ?l" using step by (simp add: add_mult_distrib)
  have "y * ?l + inflow b bs < 2 ^ 64"
    using yl le Cons.prems(3) by (simp add: x_def)
  then have "y \<le> z \<and> z * ?l \<le> y * ?l + inflow b bs \<and>
      (whole_payments (?l * ?r) b bs \<longrightarrow> z * ?l = y * ?l + inflow b bs)"
    using Cons.IH [of "poll b s"] Cons.prems(1,2)
    by (simp add: poll_terms poll_balance y_def z_def)
  with step yl le eq have "x \<le> z" "z * ?l \<le> x * ?l + (?d + inflow b bs)"
    "whole_payments (?l * ?r) b bs \<Longrightarrow> ?l * ?r dvd ?d \<Longrightarrow> z * ?l = x * ?l + (?d + inflow b bs)"
    by linarith+
  then show ?case by (simp add: x_def z_def)
qed

end

end
