(* ===== verification/Hydra_Bridge_Server.thy ===== *)
theory Hydra_Bridge_Server
  imports Hydra_Config Prepaid_Account
begin

text \<open>
  The gateway's Hydra controller for SDK bridges
  (\<open>crates/gateway/src/hydra_server_bridge/mod.rs\<close>): the bridge pays ahead in microtransactions
  on the head, the gateway turns what arrives at its address into request credits. The
  handlers mirror the arms of \<open>process_event\<close>; the event loop is that of \<open>Hydra_Actor\<close>.
  The credits are an \<open>AtomicU64\<close> shared with the request path; here they are a field of the
  state, and \<open>Credits\<close> has the concurrent view.
\<close>

section \<open>Data\<close>

record bkex_request =
  bq_machine_id :: string
  bq_bridge_cardano_vkey :: json
  bq_bridge_hydra_vkey :: json
  bq_accepted_bridge_h2h_port :: "u16 option"

record bkex_response =
  br_machine_id :: string
  br_gateway_cardano_vkey :: json
  br_gateway_hydra_vkey :: json
  br_hydra_scripts_tx_id :: string
  br_protocol_parameters :: json
  br_contestation_secs :: nat
  br_proposed_bridge_h2h_port :: u16
  br_gateway_h2h_port :: u16
  br_kex_done :: bool
  br_commit_ada :: real
  br_lovelace_per_request :: u64
  br_requests_per_microtransaction :: u64
  br_microtransactions_per_fanout :: u64

datatype gb_event =
    GB_Restart
  | GB_Terminate
  | GB_TryToInitHead
  | GB_TryToCommit
  | GB_WaitForOpen
  | GB_MonitorCredits
  | GB_TryToClose
  | GB_WaitForClosed u64
  | GB_WaitForFanoutReady
  | GB_DoFanout
  | GB_WaitForIdleAfterClose u64

record gb_state =
  gb_toml :: hydra_toml
  gb_gateway_cardano_addr :: string
  gb_config_dir :: string
  gb_kex_req :: bkex_request
  gb_kex_resp :: bkex_response
  gb_api_port :: u16
  gb_metrics_port :: u16
  gb_hydra_peers_connected :: bool
  gb_hydra_head_open :: bool
  gb_credits_available :: u64
  gb_credits_last_balance :: u64
  gb_received_microtransactions :: u64
  gb_is_closing :: bool
  gb_hydra_pid :: "u32 option"
  gb_hydra_watchdog :: bool
  gb_restart_gen :: u64

type_synonym gb_handled = "(gb_state, gb_event, hydra_call) handled"

definition gb_init :: "hydra_toml \<Rightarrow> string \<Rightarrow> string \<Rightarrow> bkex_request \<Rightarrow> bkex_response \<Rightarrow> gb_state" where
  "gb_init toml gw_addr dir req resp =
     \<lparr>gb_toml = toml, gb_gateway_cardano_addr = gw_addr, gb_config_dir = dir,
      gb_kex_req = req, gb_kex_resp = resp, gb_api_port = 0, gb_metrics_port = 0,
      gb_hydra_peers_connected = False, gb_hydra_head_open = False,
      gb_credits_available = 0, gb_credits_last_balance = 0,
      gb_received_microtransactions = 0, gb_is_closing = False, gb_hydra_pid = None,
      gb_hydra_watchdog = False, gb_restart_gen = 0\<rparr>"

definition gb_send_delayed :: "gb_state \<Rightarrow> gb_event \<Rightarrow> nat \<Rightarrow> (gb_event, hydra_call) effect" where
  "gb_send_delayed s e ms = Send_Delayed (gb_restart_gen s) e ms"

section \<open>Running the hydra-node\<close>

definition gb_stop_hydra_node :: "gb_state \<Rightarrow> gb_state \<times> (gb_event, hydra_call) effect list" where
  "gb_stop_hydra_node s =
     (s\<lparr>gb_hydra_watchdog := False, gb_hydra_pid := None\<rparr>,
      (if gb_hydra_watchdog s then [Abort_Watchdog] else []) @
      (case gb_hydra_pid s of Some pid \<Rightarrow> [Do (Kill_Group pid)] | None \<Rightarrow> []))"

definition gb_hydra_node_args :: "gb_state \<Rightarrow> string list" where
  "gb_hydra_node_args s =
     [''--node-id'', ''gateway-node'',
      ''--persistence-dir'', gb_config_dir s @ ''/persistence'',
      ''--cardano-signing-key'', ht_cardano_signing_key (gb_toml s),
      ''--hydra-signing-key'', gb_config_dir s @ ''/hydra.sk'',
      ''--hydra-scripts-tx-id'', br_hydra_scripts_tx_id (gb_kex_resp s),
      ''--ledger-protocol-parameters'', gb_config_dir s @ ''/protocol-parameters.json'',
      ''--contestation-period'', show_nat (br_contestation_secs (gb_kex_resp s)) @ ''s'',
      ''--blockfrost'', gb_config_dir s @ ''/blockfrost-project-id'',
      ''--api-port'', show_u16 (gb_api_port s),
      ''--api-host'', ''127.0.0.1'',
      ''--listen'', ''127.0.0.1:'' @ show_u16 (br_gateway_h2h_port (gb_kex_resp s)),
      ''--peer'', ''127.0.0.1:'' @ show_u16 (br_proposed_bridge_h2h_port (gb_kex_resp s)),
      ''--monitoring-port'', show_u16 (gb_metrics_port s),
      ''--hydra-verification-key'', gb_config_dir s @ ''/bridge-hydra.vk'',
      ''--cardano-verification-key'', gb_config_dir s @ ''/bridge-payment.vk'']"

definition gb_start_hydra_node :: "hydra_env \<Rightarrow> gb_state \<Rightarrow> gb_handled" where
  "gb_start_hydra_node v s0 =
     (let (s, fx) = gb_stop_hydra_node s0 in
      case he_free_port1 v of Inl e \<Rightarrow> hfail s fx e
      | Inr p1 \<Rightarrow>
        let s = s\<lparr>gb_api_port := p1\<rparr> in
        case he_free_port2 v of Inl e \<Rightarrow> hfail s fx e
        | Inr p2 \<Rightarrow>
          let s = s\<lparr>gb_metrics_port := p2\<rparr> in
          case he_write_params v of Inl e \<Rightarrow> hfail s fx e
          | Inr _ \<Rightarrow>
            case he_write_hydra_vk v of Inl e \<Rightarrow> hfail s fx e
            | Inr _ \<Rightarrow>
              case he_write_cardano_vk v of Inl e \<Rightarrow> hfail s fx e
              | Inr _ \<Rightarrow>
                case he_write_project_id v of Inl e \<Rightarrow> hfail s fx e
                | Inr _ \<Rightarrow>
                  case he_spawn v of Inl e \<Rightarrow> hfail s fx e
                  | Inr pid \<Rightarrow>
                    hdone (s\<lparr>gb_hydra_pid := pid, gb_hydra_watchdog := True\<rparr>)
                      (fx @ [Do (Spawn_Node (gb_hydra_node_args s) pid),
                             Start_Watchdog (gb_restart_gen s)]))"

section \<open>The handlers\<close>

definition gb_on_restart :: "hydra_env \<Rightarrow> gb_state \<Rightarrow> gb_handled" where
  "gb_on_restart v s0 =
     (let s = s0\<lparr>gb_restart_gen := gb_restart_gen s0 + 1,
                 gb_hydra_head_open := False,
                 gb_hydra_peers_connected := False,
                 gb_credits_available := 0,
                 gb_credits_last_balance := 0,
                 gb_received_microtransactions := 0,
                 gb_is_closing := False\<rparr>
      in case gb_start_hydra_node v s of
           (s', fx, Inl e) \<Rightarrow> hfail s' fx e
         | (s', fx, Inr _) \<Rightarrow> hdone s' (fx @ [gb_send_delayed s' GB_TryToInitHead 1000]))"

definition gb_on_terminate :: "gb_state \<Rightarrow> gb_handled" where
  "gb_on_terminate s = (let (s', fx) = gb_stop_hydra_node s in hdone s' fx)"

definition gb_on_try_to_init_head :: "hydra_env \<Rightarrow> gb_state \<Rightarrow> gb_handled" where
  "gb_on_try_to_init_head v s0 =
     (if he_peers_metric v = Inr True then
        let s = s0\<lparr>gb_hydra_peers_connected := True\<rparr>;
            fx = [Do (Ws_Send (gb_api_port s) ''Init'')] in
        case he_ws_send v of Inl e \<Rightarrow> hfail s fx e
        | Inr _ \<Rightarrow> hdone s (fx @ [gb_send_delayed s GB_TryToCommit 3000])
      else hdone s0 [gb_send_delayed s0 GB_TryToInitHead 1000])"

definition gb_on_try_to_commit :: "hydra_env \<Rightarrow> gb_state \<Rightarrow> gb_handled" where
  "gb_on_try_to_commit v s =
     (case fetch_head_tag (he_head v) of
        Inl _ \<Rightarrow> hdone s [gb_send_delayed s GB_TryToCommit 3000]
      | Inr status \<Rightarrow>
        if status = ''Initial'' then
          let fx = [Do (Empty_Commit (gb_api_port s))] in
          case he_commit v of
            Inr _ \<Rightarrow> hdone s (fx @ [gb_send_delayed s GB_WaitForOpen 3000])
          | Inl _ \<Rightarrow> hdone s (fx @ [gb_send_delayed s GB_TryToCommit 30000])
        else if status = ''Open'' then hdone s [gb_send_delayed s GB_WaitForOpen 3000]
        else hdone s [gb_send_delayed s GB_TryToCommit 3000])"

definition gb_on_wait_for_open :: "hydra_env \<Rightarrow> gb_state \<Rightarrow> gb_handled" where
  "gb_on_wait_for_open v s0 =
     (case fetch_head_tag (he_head v) of Inl e \<Rightarrow> hfail s0 [] e
      | Inr status \<Rightarrow>
        if status = ''Open'' then
          let initial_balance =
                (case lovelace_in_snapshot_for_address (he_snapshot v) (gb_gateway_cardano_addr s0) of
                   Inl _ \<Rightarrow> 0 | Inr b \<Rightarrow> b);
              s = s0\<lparr>gb_hydra_head_open := True,
                     gb_credits_last_balance := initial_balance,
                     gb_received_microtransactions := 0\<rparr> in
          hdone s [gb_send_delayed s GB_MonitorCredits CREDIT_POLL_INTERVAL]
        else hdone s0 [gb_send_delayed s0 GB_WaitForOpen 3000])"

text \<open>What a poll does with the balance it has read.\<close>

definition gb_credit_balance :: "u64 \<Rightarrow> gb_state \<Rightarrow> gb_state" where
  "gb_credit_balance current_balance s =
     (if current_balance < gb_credits_last_balance s then
        s\<lparr>gb_credits_last_balance := current_balance\<rparr>
      else
        let delta = current_balance - gb_credits_last_balance s in
        if 0 < delta then
          let microtransaction_lovelace =
                ht_lovelace_per_request (gb_toml s) * ht_requests_per_microtransaction (gb_toml s);
              s' = (if microtransaction_lovelace = 0 then s
                    else if microtransaction_lovelace \<le> delta then
                      let new_microtransactions = delta div microtransaction_lovelace;
                          new_credits = new_microtransactions
                            * ht_requests_per_microtransaction (gb_toml s)
                      in s\<lparr>gb_credits_available := gb_credits_available s + new_credits,
                           gb_received_microtransactions :=
                             gb_received_microtransactions s + new_microtransactions\<rparr>
                    else s)
          in s'\<lparr>gb_credits_last_balance := current_balance\<rparr>
        else s)"

definition gb_on_monitor_credits :: "hydra_env \<Rightarrow> gb_state \<Rightarrow> gb_handled" where
  "gb_on_monitor_credits v s0 =
     (if gb_hydra_head_open s0 \<and> \<not> gb_is_closing s0 then
        let (s, fx) =
          (case lovelace_in_snapshot_for_address (he_snapshot v) (gb_gateway_cardano_addr s0) of
             Inr current_balance \<Rightarrow>
               let s = gb_credit_balance current_balance s0 in
               if ht_microtransactions_per_fanout (gb_toml s) \<le> gb_received_microtransactions s
                  \<and> \<not> gb_is_closing s then
                 (s\<lparr>gb_is_closing := True\<rparr>, [gb_send_delayed s GB_TryToClose 1000])
               else (s, [])
           | Inl _ \<Rightarrow> (s0, []))
        in hdone s (fx @ [gb_send_delayed s GB_MonitorCredits CREDIT_POLL_INTERVAL])
      else hdone s0 [])"

definition gb_on_try_to_close :: "hydra_env \<Rightarrow> gb_state \<Rightarrow> gb_handled" where
  "gb_on_try_to_close v s0 =
     (let s = s0\<lparr>gb_hydra_head_open := False\<rparr>;
          fx = [Do (Ws_Send (gb_api_port s) ''Close'')] in
      case he_ws_send v of Inl e \<Rightarrow> hfail s fx e
      | Inr _ \<Rightarrow> hdone s (fx @ [gb_send_delayed s (GB_WaitForClosed 10) 3000]))"

definition gb_on_wait_for_closed :: "hydra_env \<Rightarrow> u64 \<Rightarrow> gb_state \<Rightarrow> gb_handled" where
  "gb_on_wait_for_closed v retries s =
     (case fetch_head_tag (he_head v) of Inl e \<Rightarrow> hfail s [] e
      | Inr status \<Rightarrow>
        if status = ''Closed'' then hdone s [gb_send_delayed s GB_WaitForFanoutReady 3000]
        else hdone s [gb_send_delayed s
          (if retries \<le> 1 then GB_TryToClose else GB_WaitForClosed (retries - 1)) 3000])"

definition gb_on_wait_for_fanout_ready :: "hydra_env \<Rightarrow> gb_state \<Rightarrow> gb_handled" where
  "gb_on_wait_for_fanout_ready v s =
     (case fetch_head_ready_to_fanout (he_head v) of Inl e \<Rightarrow> hfail s [] e
      | Inr ready \<Rightarrow>
        if ready then hdone s [gb_send_delayed s GB_DoFanout 1000]
        else hdone s [gb_send_delayed s GB_WaitForFanoutReady 3000])"

definition gb_on_do_fanout :: "hydra_env \<Rightarrow> gb_state \<Rightarrow> gb_handled" where
  "gb_on_do_fanout v s =
     (let fx = [Do (Ws_Send (gb_api_port s) ''Fanout'')] in
      case he_ws_send v of Inl e \<Rightarrow> hfail s fx e
      | Inr _ \<Rightarrow> hdone s (fx @ [gb_send_delayed s (GB_WaitForIdleAfterClose 10) 3000]))"

definition gb_on_wait_for_idle :: "hydra_env \<Rightarrow> u64 \<Rightarrow> gb_state \<Rightarrow> gb_handled" where
  "gb_on_wait_for_idle v retries s0 =
     (case fetch_head_tag (he_head v) of Inl e \<Rightarrow> hfail s0 [] e
      | Inr status \<Rightarrow>
        if status = ''Idle'' then
          let s = s0\<lparr>gb_is_closing := False,
                     gb_received_microtransactions := 0,
                     gb_credits_last_balance := 0\<rparr> in
          hdone s [gb_send_delayed s GB_TryToInitHead 3000]
        else if retries \<le> 1 then hdone s0 [gb_send_delayed s0 GB_DoFanout 1000]
        else hdone s0 [gb_send_delayed s0 (GB_WaitForIdleAfterClose (retries - 1)) 3000])"

fun gb_process_event :: "hydra_env \<Rightarrow> gb_event \<Rightarrow> gb_state \<Rightarrow> gb_handled" where
  "gb_process_event v GB_Restart s = gb_on_restart v s"
| "gb_process_event v GB_Terminate s = gb_on_terminate s"
| "gb_process_event v GB_TryToInitHead s = gb_on_try_to_init_head v s"
| "gb_process_event v GB_TryToCommit s = gb_on_try_to_commit v s"
| "gb_process_event v GB_WaitForOpen s = gb_on_wait_for_open v s"
| "gb_process_event v GB_MonitorCredits s = gb_on_monitor_credits v s"
| "gb_process_event v GB_TryToClose s = gb_on_try_to_close v s"
| "gb_process_event v (GB_WaitForClosed n) s = gb_on_wait_for_closed v n s"
| "gb_process_event v GB_WaitForFanoutReady s = gb_on_wait_for_fanout_ready v s"
| "gb_process_event v GB_DoFanout s = gb_on_do_fanout v s"
| "gb_process_event v (GB_WaitForIdleAfterClose n) s = gb_on_wait_for_idle v n s"

definition gb_is_terminate :: "gb_event \<Rightarrow> bool" where
  "gb_is_terminate e \<longleftrightarrow> e = GB_Terminate"

lemmas gb_handler_defs =
  gb_on_restart_def gb_on_terminate_def gb_on_try_to_init_head_def gb_on_try_to_commit_def
  gb_on_wait_for_open_def gb_on_monitor_credits_def gb_on_try_to_close_def
  gb_on_wait_for_closed_def gb_on_wait_for_fanout_ready_def gb_on_do_fanout_def
  gb_on_wait_for_idle_def

section \<open>The handlers keep the promises of the actor interface\<close>

lemma gb_start_hydra_node_tagged: "tagged gb_restart_gen (gb_restart_gen s) (gb_start_hydra_node v s)"
  by (auto simp: gb_start_hydra_node_def gb_stop_hydra_node_def tagged_def Let_def
      split: sum.splits option.splits)

lemma gb_credit_balance_gen: "gb_restart_gen (gb_credit_balance b s) = gb_restart_gen s"
  by (simp add: gb_credit_balance_def Let_def)

lemma gb_process_event_tagged:
  "tagged gb_restart_gen (if e = GB_Restart then gb_restart_gen s + 1 else gb_restart_gen s)
     (gb_process_event v e s)"
proof (cases e)
  case GB_Restart
  let ?s = "s\<lparr>gb_restart_gen := gb_restart_gen s + 1, gb_hydra_head_open := False,
    gb_hydra_peers_connected := False, gb_credits_available := 0, gb_credits_last_balance := 0,
    gb_received_microtransactions := 0, gb_is_closing := False\<rparr>"
  from gb_start_hydra_node_tagged [of ?s v] show ?thesis
    by (simp add: GB_Restart gb_on_restart_def tagged_def gb_send_delayed_def Let_def
        split: prod.splits sum.splits)
qed (auto simp: gb_handler_defs gb_stop_hydra_node_def tagged_def gb_send_delayed_def
      gb_credit_balance_gen Let_def split: sum.splits option.splits)

interpretation gb: hydra_actor gb_restart_gen gb_process_event GB_Restart gb_is_terminate
  by (rule hydra_actorI) (rule gb_process_event_tagged)

section \<open>The account refines its specification\<close>

definition gb_per_request :: "gb_state \<Rightarrow> u64" where
  "gb_per_request s = ht_lovelace_per_request (gb_toml s)"

definition gb_per_batch :: "gb_state \<Rightarrow> u64" where
  "gb_per_batch s = ht_requests_per_microtransaction (gb_toml s)"

interpretation gb_account: prepaid_account gb_credits_available gb_credits_last_balance
  gb_per_request gb_per_batch gb_credit_balance
proof
  fix b :: u64 and s :: gb_state
  show "(gb_credits_available (gb_credit_balance b s), gb_credits_last_balance (gb_credit_balance b s)) =
    account_poll (gb_per_request s) (gb_per_batch s) b
      (gb_credits_available s, gb_credits_last_balance s)"
    by (auto simp: gb_credit_balance_def account_poll_def gb_per_request_def gb_per_batch_def
        Let_def word_gt_0 not_le not_less div_word_less)
  show "gb_per_request (gb_credit_balance b s) = gb_per_request s"
    "gb_per_batch (gb_credit_balance b s) = gb_per_batch s"
    by (simp_all add: gb_credit_balance_def gb_per_request_def gb_per_batch_def Let_def)
qed

end
