(* ===== verification/Bridge_Manager.thy ===== *)
theory Bridge_Manager
  imports Hydra_Bridge_Server
begin

text \<open>
  \<open>HydrasManager\<close> of \<open>crates/gateway/src/hydra_server_bridge/mod.rs\<close>: the key exchange with an
  SDK bridge. Here the limit is a semaphore; a permit is taken at the start of the first round
  and lives until the exchange is given up or the last handle of the controller is dropped.
\<close>

section \<open>The key exchange\<close>

record bridge_config =
  bc_toml :: hydra_toml
  bc_gateway_cardano_vkey :: json
  bc_gateway_cardano_addr :: string
  bc_protocol_parameters :: json
  bc_hydra_scripts_tx_id :: string

record bkex_env =
  be_fl :: "real \<Rightarrow> real"
  be_lovelace_on_addr :: "string \<Rightarrow> u64 hres"
  be_config_dir :: "string \<Rightarrow> string hres"
  be_gen_hydra_keys :: "unit hres"
  be_this_host :: string
  be_read_hydra_vk :: "json hres"
  be_free_port1 :: "u16 hres"
  be_free_port2 :: "u16 hres"
  be_port_free :: "u16 \<Rightarrow> bool hres"

text \<open>\<open>available\<close> is the number of free permits; the result says how many remain.\<close>

definition bridge_initialize_key_exchange ::
  "bkex_env \<Rightarrow> bridge_config \<Rightarrow> nat \<Rightarrow> bkex_request \<Rightarrow> nat \<times> bkex_response hres" where
  "bridge_initialize_key_exchange v c available req =
     (if bq_accepted_bridge_h2h_port req \<noteq> None then
        (available, Inl (Bail ''accepted_bridge_h2h_port must not be set in initialize_key_exchange''))
      else if available = 0 then
        (available, Inl (Bail ''Too many concurrent Hydra sessions / in-flight key exchanges''))
      else
        let r =
          (case be_lovelace_on_addr v (bc_gateway_cardano_addr c) of Inl e \<Rightarrow> Inl e
           | Inr l \<Rightarrow>
             let have_funds = be_fl v (f64_of_u64 (be_fl v) l / 1000000);
                 required = be_fl v (f64_of_u64 (be_fl v) MIN_FUEL_LOVELACE / 1000000)
             in if have_funds < required then
                  Inl (Bail ''too little ADA on the enterprise address'')
                else case be_config_dir v (bq_machine_id req) of Inl e \<Rightarrow> Inl e
                | Inr _ \<Rightarrow>
                  case be_gen_hydra_keys v of Inl e \<Rightarrow> Inl e
                  | Inr _ \<Rightarrow>
                    case be_read_hydra_vk v of Inl e \<Rightarrow> Inl e
                    | Inr vk \<Rightarrow>
                      case be_free_port1 v of Inl e \<Rightarrow> Inl e
                      | Inr p1 \<Rightarrow>
                        case be_free_port2 v of Inl e \<Rightarrow> Inl e
                        | Inr p2 \<Rightarrow>
                          Inr \<lparr>br_machine_id = be_this_host v,
                               br_gateway_cardano_vkey = bc_gateway_cardano_vkey c,
                               br_gateway_hydra_vkey = vk,
                               br_hydra_scripts_tx_id = bc_hydra_scripts_tx_id c,
                               br_protocol_parameters = bc_protocol_parameters c,
                               br_contestation_secs = 60,
                               br_proposed_bridge_h2h_port = p1,
                               br_gateway_h2h_port = p2,
                               br_kex_done = False,
                               br_commit_ada = ht_commit_ada (bc_toml c),
                               br_lovelace_per_request = ht_lovelace_per_request (bc_toml c),
                               br_requests_per_microtransaction =
                                 ht_requests_per_microtransaction (bc_toml c),
                               br_microtransactions_per_fanout =
                                 ht_microtransactions_per_fanout (bc_toml c)\<rparr>)
        in ((case r of Inl _ \<Rightarrow> available | Inr _ \<Rightarrow> available - 1), r))"

text \<open>\<open>spawn_new\<close> consumes the permit: it goes to the controller, or is released on an error.\<close>

definition bridge_spawn_new ::
  "bkex_env \<Rightarrow> bkex_request \<times> bkex_response \<Rightarrow> bkex_request \<Rightarrow> (bkex_request \<times> bkex_response) hres" where
  "bridge_spawn_new v initial final_req =
     (if fst initial \<noteq> final_req\<lparr>bq_accepted_bridge_h2h_port := None\<rparr> then
        Inl (Bail ''The 2nd KeyExchangeRequest must be the same as the 1st one.'')
      else if bq_accepted_bridge_h2h_port final_req
                \<noteq> Some (br_proposed_bridge_h2h_port (snd initial)) then
        Inl (Bail ''The Bridge must accept the same port that was proposed to it.'')
      else if \<not> (be_port_free v (br_gateway_h2h_port (snd initial)) = Inr True \<and>
                 be_port_free v (br_proposed_bridge_h2h_port (snd initial)) = Inr True) then
        Inl (Bail ''The exchanged ports are no longer free on the gateway'')
      else case be_config_dir v (bq_machine_id final_req) of Inl e \<Rightarrow> Inl e
      | Inr _ \<Rightarrow> Inr (final_req, (snd initial)\<lparr>br_kex_done := True\<rparr>))"

section \<open>The permits over time\<close>

text \<open>
  \<open>bm_exchanges\<close> are the first rounds whose permit is held while the second is awaited,
  \<open>bm_controllers\<close> the live controllers.
\<close>

record bridge_manager =
  bm_available :: nat
  bm_exchanges :: "(bkex_request \<times> bkex_response) list"
  bm_controllers :: "(bkex_request \<times> bkex_response) list"

datatype bm_label =
    BM_Init bkex_env bkex_request
  | BM_Give_Up nat
  | BM_Spawn bkex_env nat bkex_request
  | BM_Drop nat

definition bm_new :: "hydra_toml \<Rightarrow> bridge_manager" where
  "bm_new toml = \<lparr>bm_available = unat (ht_max_concurrent_hydra_nodes toml), bm_exchanges = [],
     bm_controllers = []\<rparr>"

fun bm_exec :: "bridge_config \<Rightarrow> bm_label \<Rightarrow> bridge_manager \<Rightarrow> bridge_manager option" where
  "bm_exec c (BM_Init v req) m =
     (case bridge_initialize_key_exchange v c (bm_available m) req of
        (k, Inl _) \<Rightarrow> Some (m\<lparr>bm_available := k\<rparr>)
      | (k, Inr resp) \<Rightarrow>
          Some (m\<lparr>bm_available := k, bm_exchanges := bm_exchanges m @ [(req, resp)]\<rparr>))"
| "bm_exec c (BM_Give_Up i) m =
     (if i < length (bm_exchanges m) then
        Some (m\<lparr>bm_available := Suc (bm_available m), bm_exchanges := remove_nth i (bm_exchanges m)\<rparr>)
      else None)"
| "bm_exec c (BM_Spawn v i final_req) m =
     (if i < length (bm_exchanges m) then
        let m' = m\<lparr>bm_exchanges := remove_nth i (bm_exchanges m)\<rparr> in
        (case bridge_spawn_new v (bm_exchanges m ! i) final_req of
           Inl _ \<Rightarrow> Some (m'\<lparr>bm_available := Suc (bm_available m)\<rparr>)
         | Inr ctl \<Rightarrow> Some (m'\<lparr>bm_controllers := bm_controllers m @ [ctl]\<rparr>))
      else None)"
| "bm_exec c (BM_Drop i) m =
     (if i < length (bm_controllers m) then
        Some (m\<lparr>bm_available := Suc (bm_available m),
                bm_controllers := remove_nth i (bm_controllers m)\<rparr>)
      else None)"

fun bm_run :: "bridge_config \<Rightarrow> bm_label list \<Rightarrow> bridge_manager \<Rightarrow> bridge_manager option" where
  "bm_run c [] m = Some m"
| "bm_run c (l # ls) m = Option.bind (bm_exec c l m) (bm_run c ls)"

definition bm_capacity :: "bridge_manager \<Rightarrow> nat" where
  "bm_capacity m = bm_available m + length (bm_exchanges m) + length (bm_controllers m)"

text \<open>Every controller and every pending exchange has the terms of the configuration.\<close>

definition bkex_terms :: "bridge_config \<Rightarrow> bkex_request \<times> bkex_response \<Rightarrow> bool" where
  "bkex_terms c x \<longleftrightarrow> (case x of (req, resp) \<Rightarrow>
     br_commit_ada resp = ht_commit_ada (bc_toml c) \<and>
     br_lovelace_per_request resp = ht_lovelace_per_request (bc_toml c) \<and>
     br_requests_per_microtransaction resp = ht_requests_per_microtransaction (bc_toml c) \<and>
     br_microtransactions_per_fanout resp = ht_microtransactions_per_fanout (bc_toml c))"

definition bm_ok :: "bridge_config \<Rightarrow> nat \<Rightarrow> bridge_manager \<Rightarrow> bool" where
  "bm_ok c k m \<longleftrightarrow> bm_capacity m = k \<and>
     (\<forall>x\<in>set (bm_exchanges m). bkex_terms c x \<and> \<not> br_kex_done (snd x)) \<and>
     (\<forall>x\<in>set (bm_controllers m). bkex_terms c x \<and> br_kex_done (snd x) \<and>
        bq_accepted_bridge_h2h_port (fst x) = Some (br_proposed_bridge_h2h_port (snd x)))"

lemma length_remove_nth: "i < length xs \<Longrightarrow> length (remove_nth i xs) = length xs - 1"
  by (simp add: remove_nth_def min_def)

lemma bridge_initialize_cases:
  assumes "bridge_initialize_key_exchange v c k req = (k', r)"
  shows "case r of Inl _ \<Rightarrow> k' = k
    | Inr resp \<Rightarrow> 0 < k \<and> k' = k - 1 \<and> bkex_terms c (req, resp) \<and> \<not> br_kex_done resp"
  using assms
  by (auto simp: bridge_initialize_key_exchange_def bkex_terms_def Let_def split: if_splits sum.splits)

lemma bridge_spawn_new_done:
  "bridge_spawn_new v (req, resp) final = Inr ctl \<Longrightarrow>
     ctl = (final, resp\<lparr>br_kex_done := True\<rparr>) \<and>
     bq_accepted_bridge_h2h_port final = Some (br_proposed_bridge_h2h_port resp)"
  by (auto simp: bridge_spawn_new_def split: if_splits sum.splits)

lemma bm_exec_ok: "bm_exec c l m = Some m' \<Longrightarrow> bm_ok c k m \<Longrightarrow> bm_ok c k m'"
proof (cases l)
  case (BM_Init v req)
  obtain j r where "bridge_initialize_key_exchange v c (bm_available m) req = (j, r)" by fastforce
  with bridge_initialize_cases [OF this] BM_Init
  show "bm_exec c l m = Some m' \<Longrightarrow> bm_ok c k m \<Longrightarrow> bm_ok c k m'"
    by (auto simp: bm_ok_def bm_capacity_def split: sum.splits)
next
  case (BM_Give_Up i)
  then show "bm_exec c l m = Some m' \<Longrightarrow> bm_ok c k m \<Longrightarrow> bm_ok c k m'"
    using set_remove_nth [of i "bm_exchanges m"]
    by (auto simp: bm_ok_def bm_capacity_def length_remove_nth split: if_splits)
next
  case (BM_Spawn v i final)
  obtain req resp where x: "bm_exchanges m ! i = (req, resp)" by fastforce
  assume e: "bm_exec c l m = Some m'" and ok: "bm_ok c k m"
  then have i: "i < length (bm_exchanges m)" using BM_Spawn by (simp split: if_splits)
  then have "(req, resp) \<in> set (bm_exchanges m)" using x by (metis nth_mem)
  with ok have t: "bkex_terms c (req, resp)" by (auto simp: bm_ok_def)
  from e ok i x t show "bm_ok c k m'"
    using set_remove_nth [of i "bm_exchanges m"] bridge_spawn_new_done [of v req resp final] BM_Spawn
    by (auto simp: bm_ok_def bm_capacity_def length_remove_nth bkex_terms_def Let_def split: sum.splits)
next
  case (BM_Drop i)
  then show "bm_exec c l m = Some m' \<Longrightarrow> bm_ok c k m \<Longrightarrow> bm_ok c k m'"
    using set_remove_nth [of i "bm_controllers m"]
    by (auto simp: bm_ok_def bm_capacity_def length_remove_nth split: if_splits)
qed

lemma bm_run_ok: "bm_run c ls m = Some m' \<Longrightarrow> bm_ok c k m \<Longrightarrow> bm_ok c k m'"
proof (induction ls arbitrary: m)
  case (Cons l ls)
  then obtain n where "bm_exec c l m = Some n" "bm_run c ls n = Some m'"
    by (auto simp: bind_eq_Some_conv)
  with bm_exec_ok Cons show ?case by metis
qed simp

section \<open>Properties\<close>

text \<open>C14: No permit is lost or duplicated: free permits, pending key exchanges and live controllers always
  add up to the configured limit, every controller was agreed on at the proposed port, and
  all run under the configured terms.\<close>

theorem permits_conserved:
  assumes "bm_run c ls (bm_new (bc_toml c)) = Some m"
  shows "bm_available m + length (bm_exchanges m) + length (bm_controllers m) =
      unat (ht_max_concurrent_hydra_nodes (bc_toml c)) \<and>
    list_all (\<lambda>(req, resp). br_kex_done resp \<and>
      bq_accepted_bridge_h2h_port req = Some (br_proposed_bridge_h2h_port resp) \<and>
      br_lovelace_per_request resp = ht_lovelace_per_request (bc_toml c) \<and>
      br_requests_per_microtransaction resp = ht_requests_per_microtransaction (bc_toml c))
      (bm_controllers m)"
proof -
  have "bm_ok c (unat (ht_max_concurrent_hydra_nodes (bc_toml c))) (bm_new (bc_toml c))"
    by (simp add: bm_ok_def bm_new_def bm_capacity_def)
  from bm_run_ok [OF assms this] show ?thesis
    by (auto simp: bm_ok_def bm_capacity_def bkex_terms_def list_all_iff)
qed

text \<open>A concrete exchange.\<close>

definition bkex_demo_env :: bkex_env where
  "bkex_demo_env = \<lparr>be_fl = id, be_lovelace_on_addr = (\<lambda>_. Inr 50000000),
     be_config_dir = (\<lambda>_. Inr ''d''), be_gen_hydra_keys = Inr (), be_this_host = ''gw'',
     be_read_hydra_vk = Inr JNull, be_free_port1 = Inr 5001, be_free_port2 = Inr 5002,
     be_port_free = (\<lambda>_. Inr True)\<rparr>"

definition bkex_demo_config :: bridge_config where
  "bkex_demo_config = \<lparr>bc_toml = gp_demo_toml, bc_gateway_cardano_vkey = JNull,
     bc_gateway_cardano_addr = ''a'', bc_protocol_parameters = JNull,
     bc_hydra_scripts_tx_id = ''t''\<rparr>"

definition bkex_demo_req :: bkex_request where
  "bkex_demo_req = \<lparr>bq_machine_id = ''b'', bq_bridge_cardano_vkey = JNull,
     bq_bridge_hydra_vkey = JNull, bq_accepted_bridge_h2h_port = None\<rparr>"

theorem permits_conserved_witness:
  "\<exists>m. bm_run bkex_demo_config
      [BM_Init bkex_demo_env bkex_demo_req, BM_Init bkex_demo_env bkex_demo_req,
       BM_Spawn bkex_demo_env 0 (bkex_demo_req\<lparr>bq_accepted_bridge_h2h_port := Some 5001\<rparr>)]
      (bm_new (bc_toml bkex_demo_config)) = Some m \<and>
    length (bm_controllers m) = 1 \<and> bm_available m + length (bm_exchanges m) + 1 = 2"
proof -
  let ?ls = "[BM_Init bkex_demo_env bkex_demo_req, BM_Init bkex_demo_env bkex_demo_req,
       BM_Spawn bkex_demo_env 0 (bkex_demo_req\<lparr>bq_accepted_bridge_h2h_port := Some 5001\<rparr>)]"
  have k: "unat (ht_max_concurrent_hydra_nodes (bc_toml bkex_demo_config)) = 2"
    by (simp add: bkex_demo_config_def gp_demo_toml_def)
  have "\<exists>m. bm_run bkex_demo_config ?ls (bm_new (bc_toml bkex_demo_config)) = Some m \<and>
      length (bm_controllers m) = 1"
    by (simp add: bm_new_def k bridge_initialize_key_exchange_def bridge_spawn_new_def
        bkex_demo_env_def bkex_demo_req_def f64_of_u64_def MIN_FUEL_LOVELACE_def remove_nth_def)
  then obtain m where m: "bm_run bkex_demo_config ?ls (bm_new (bc_toml bkex_demo_config)) = Some m"
    "length (bm_controllers m) = 1" by blast
  from permits_conserved [OF m(1)] m k show ?thesis by auto
qed

end
