(* ===== verification/Hydra_Bridge_Correct.thy ===== *)
theory Hydra_Bridge_Correct
  imports Hydra_Bridge_Server
begin

text \<open>
  Correctness of the gateway's controller for SDK bridges: the credits it grants are backed by
  what arrived on the head, its life cycle never stops, and when the balance is seeded.
\<close>

section \<open>What the handlers change\<close>

text \<open>The fields of the credit account and the flags of the life cycle.\<close>

definition gb_frame :: "gb_state \<Rightarrow> gb_handled \<Rightarrow> bool" where
  "gb_frame s h \<longleftrightarrow> (case h of (s', fx, r) \<Rightarrow>
     gb_toml s' = gb_toml s \<and> gb_credits_available s' = gb_credits_available s \<and>
     gb_credits_last_balance s' = gb_credits_last_balance s \<and>
     gb_received_microtransactions s' = gb_received_microtransactions s \<and>
     gb_is_closing s' = gb_is_closing s \<and> gb_hydra_head_open s' = gb_hydra_head_open s)"

fun gb_account_event :: "gb_event \<Rightarrow> bool" where
  "gb_account_event GB_Restart = True"
| "gb_account_event GB_WaitForOpen = True"
| "gb_account_event GB_MonitorCredits = True"
| "gb_account_event GB_TryToClose = True"
| "gb_account_event (GB_WaitForIdleAfterClose n) = True"
| "gb_account_event _ = False"

lemma gb_frame_start: "gb_frame s (gb_start_hydra_node v s)"
  by (auto simp: gb_start_hydra_node_def gb_stop_hydra_node_def gb_frame_def Let_def
      split: sum.splits option.splits)

lemma gb_frame_others: "\<not> gb_account_event e \<Longrightarrow> gb_frame s (gb_process_event v e s)"
  by (cases e)
    (auto simp: gb_handler_defs gb_stop_hydra_node_def gb_frame_def gb_send_delayed_def Let_def
      split: sum.splits option.splits)

lemma gb_restart_resets:
  assumes "gb_on_restart v s = (s', fx, r)"
  shows "gb_toml s' = gb_toml s \<and> gb_credits_available s' = 0 \<and> gb_credits_last_balance s' = 0 \<and>
     gb_received_microtransactions s' = 0 \<and> \<not> gb_is_closing s' \<and> \<not> gb_hydra_head_open s'"
proof -
  let ?s = "s\<lparr>gb_restart_gen := gb_restart_gen s + 1, gb_hydra_head_open := False,
    gb_hydra_peers_connected := False, gb_credits_available := 0, gb_credits_last_balance := 0,
    gb_received_microtransactions := 0, gb_is_closing := False\<rparr>"
  from assms gb_frame_start [of ?s v] show ?thesis
    by (auto simp: gb_on_restart_def gb_frame_def Let_def split: prod.splits sum.splits)
qed

lemma gb_credit_balance_keeps:
  "gb_toml (gb_credit_balance b s) = gb_toml s"
  "gb_is_closing (gb_credit_balance b s) = gb_is_closing s"
  "gb_hydra_head_open (gb_credit_balance b s) = gb_hydra_head_open s"
  "gb_credits_last_balance (gb_credit_balance b s) = b"
  by (auto simp: gb_credit_balance_def Let_def word_gt_0)

section \<open>The life cycle\<close>

fun gb_cycle :: "gb_event \<Rightarrow> bool" where
  "gb_cycle GB_MonitorCredits = False"
| "gb_cycle GB_Terminate = False"
| "gb_cycle _ = True"

fun gb_closes :: "gb_event \<Rightarrow> bool" where
  "gb_closes GB_Restart = True"
| "gb_closes GB_TryToClose = True"
| "gb_closes (GB_WaitForClosed n) = True"
| "gb_closes GB_WaitForFanoutReady = True"
| "gb_closes GB_DoFanout = True"
| "gb_closes (GB_WaitForIdleAfterClose n) = True"
| "gb_closes _ = False"

fun gb_monitors :: "gb_event \<Rightarrow> bool" where
  "gb_monitors GB_Restart = True"
| "gb_monitors GB_TryToInitHead = True"
| "gb_monitors GB_TryToCommit = True"
| "gb_monitors GB_WaitForOpen = True"
| "gb_monitors GB_MonitorCredits = True"
| "gb_monitors _ = False"

text \<open>Each handler that returns \<open>Ok\<close> schedules its successor in the sequence.\<close>

lemma gb_chain_restart: "continues gb_monitors (gb_on_restart v s)" "continues gb_cycle (gb_on_restart v s)"
  by (auto simp: continues_def gb_on_restart_def gb_send_delayed_def Let_def
      split: prod.splits sum.splits)

lemma gb_chain_opening:
  "continues gb_monitors (gb_on_try_to_init_head v s)" "continues gb_cycle (gb_on_try_to_init_head v s)"
  "continues gb_monitors (gb_on_try_to_commit v s)" "continues gb_cycle (gb_on_try_to_commit v s)"
  by (simp_all add: continues_def gb_on_try_to_init_head_def gb_on_try_to_commit_def
      gb_send_delayed_def Let_def split: sum.split)

lemma gb_chain_closing:
  "continues gb_closes (gb_on_try_to_close v s)" "continues gb_cycle (gb_on_try_to_close v s)"
  "continues gb_closes (gb_on_wait_for_closed v n s)" "continues gb_cycle (gb_on_wait_for_closed v n s)"
  "continues gb_closes (gb_on_wait_for_fanout_ready v s)" "continues gb_cycle (gb_on_wait_for_fanout_ready v s)"
  "continues gb_closes (gb_on_do_fanout v s)" "continues gb_cycle (gb_on_do_fanout v s)"
  "continues gb_cycle (gb_on_wait_for_idle v n s)"
  by (simp_all add: continues_def gb_on_try_to_close_def gb_on_wait_for_closed_def
      gb_on_wait_for_fanout_ready_def gb_on_do_fanout_def gb_on_wait_for_idle_def
      gb_send_delayed_def Let_def split: sum.split)

lemma gb_cycle_chains:
  "gb_cycle e \<Longrightarrow> e \<noteq> GB_WaitForOpen \<Longrightarrow> continues gb_cycle (gb_process_event v e s)"
  by (cases e) (simp_all add: gb_chain_restart gb_chain_opening gb_chain_closing)

lemma gb_closes_chains:
  "gb_closes e \<Longrightarrow> \<not> gb_monitors e \<Longrightarrow> (\<And>n. e \<noteq> GB_WaitForIdleAfterClose n) \<Longrightarrow>
   continues gb_closes (gb_process_event v e s)"
  by (cases e) (auto simp: gb_chain_closing)

lemma gb_monitors_chains:
  "gb_monitors e \<Longrightarrow> \<not> gb_account_event e \<Longrightarrow> continues gb_monitors (gb_process_event v e s)"
  by (cases e) (simp_all add: gb_chain_opening)

lemmas gb_account_defs =
  gb_on_wait_for_open_def gb_on_monitor_credits_def gb_on_try_to_close_def gb_on_wait_for_idle_def
  gb_send_delayed_def gb_credit_balance_keeps Let_def

lemma gb_idle_step:
  assumes "gb_process_event v e s = (s', fx, Inr ())"
    and "\<not> gb_hydra_head_open s' \<and> \<not> gb_is_closing s'"
  shows "(\<exists>f\<in>set fx. emits gb_cycle f) \<or>
    ((\<not> gb_hydra_head_open s \<and> \<not> gb_is_closing s) \<and> \<not> gb_cycle e)"
proof (cases "gb_cycle e \<and> e \<noteq> GB_WaitForOpen")
  case True
  with gb_cycle_chains [of e v s] assms(1) show ?thesis by (simp add: continues_done)
next
  case False
  with assms gb_frame_others [of e s v] show ?thesis
    by (cases e) (auto simp: gb_frame_def gb_account_defs split: sum.splits if_splits)
qed

lemma gb_closing_step:
  assumes "gb_process_event v e s = (s', fx, Inr ())" and "gb_is_closing s'"
  shows "(\<exists>f\<in>set fx. emits gb_closes f) \<or> (gb_is_closing s \<and> \<not> gb_closes e)"
proof (cases "gb_closes e \<and> \<not> gb_monitors e \<and> (\<forall>n. e \<noteq> GB_WaitForIdleAfterClose n)")
  case True
  with gb_closes_chains [of e v s] assms(1) show ?thesis by (simp add: continues_done)
next
  case False
  with assms gb_frame_others [of e s v] gb_restart_resets [of v s s' fx "Inr ()"] show ?thesis
    by (cases e) (auto simp: gb_frame_def gb_account_defs split: sum.splits if_splits)
qed

lemma gb_open_step:
  assumes "gb_process_event v e s = (s', fx, Inr ())"
    and "gb_hydra_head_open s' \<and> \<not> gb_is_closing s'"
  shows "(\<exists>f\<in>set fx. emits gb_monitors f) \<or>
    ((gb_hydra_head_open s \<and> \<not> gb_is_closing s) \<and> \<not> gb_monitors e)"
proof (cases "gb_monitors e \<and> \<not> gb_account_event e")
  case True
  with gb_monitors_chains [of e v s] assms(1) show ?thesis by (simp add: continues_done)
next
  case False
  with assms gb_frame_others [of e s v] gb_restart_resets [of v s s' fx "Inr ()"] show ?thesis
    by (cases e) (auto simp: gb_frame_def gb_account_defs split: sum.splits if_splits)
qed

text \<open>A sequence of polled balances.\<close>

definition gb_poll_balances :: "u64 list \<Rightarrow> gb_state \<Rightarrow> gb_state" where
  "gb_poll_balances bs s = fold gb_credit_balance bs s"

section \<open>The running controller\<close>

definition gb_boot :: "hydra_toml \<Rightarrow> string \<Rightarrow> string \<Rightarrow> bkex_request \<Rightarrow> bkex_response \<Rightarrow>
    (gb_state, gb_event, hydra_call) actor" where
  "gb_boot toml gw_addr dir req resp = actor_spawn GB_Restart (gb_init toml gw_addr dir req resp)"

definition gb_run :: "(hydra_env, gb_event) label list \<Rightarrow> (gb_state, gb_event, hydra_call) actor \<Rightarrow>
    (gb_state, gb_event, hydra_call) actor option" where
  "gb_run = actor_run gb_restart_gen gb_process_event GB_Restart gb_is_terminate"

definition gb_reachable :: "(gb_state, gb_event, hydra_call) actor \<Rightarrow>
    (gb_state, gb_event, hydra_call) actor \<Rightarrow> bool" where
  "gb_reachable = actor_reach gb_restart_gen gb_process_event GB_Restart gb_is_terminate"

lemma gb_run_reachable: "gb_run ls a = Some b \<Longrightarrow> gb_reachable a b"
  unfolding gb_run_def gb_reachable_def by (rule actor_run_reach [OF _ reach_refl])

definition gb_demo_req :: bkex_request where
  "gb_demo_req = \<lparr>bq_machine_id = ''b'', bq_bridge_cardano_vkey = JStr ''bc'',
     bq_bridge_hydra_vkey = JStr ''bh'', bq_accepted_bridge_h2h_port = Some 5001\<rparr>"

definition gb_demo_resp :: bkex_response where
  "gb_demo_resp = \<lparr>br_machine_id = ''g'', br_gateway_cardano_vkey = JStr ''gc'',
     br_gateway_hydra_vkey = JStr ''gh'', br_hydra_scripts_tx_id = ''tx'',
     br_protocol_parameters = JNull, br_contestation_secs = 60,
     br_proposed_bridge_h2h_port = 5001, br_gateway_h2h_port = 5002, br_kex_done = True,
     br_commit_ada = 2, br_lovelace_per_request = 840450,
     br_requests_per_microtransaction = 1, br_microtransactions_per_fanout = 1\<rparr>"

definition gb_demo_boot :: "(gb_state, gb_event, hydra_call) actor" where
  "gb_demo_boot = gb_boot gp_demo_toml ''gw'' ''/cfg'' gb_demo_req gb_demo_resp"

definition gb_demo_state :: gb_state where
  "gb_demo_state = gb_init gp_demo_toml ''gw'' ''/cfg'' gb_demo_req gb_demo_resp"

text \<open>A snapshot with one output of the given value at the gateway's address.\<close>

definition paid_snapshot :: "u64 \<Rightarrow> json" where
  "paid_snapshot n = JObj [(''tx#0'', JObj [(''address'', JStr ''gw''),
     (''value'', JObj [(''lovelace'', JPosInt n)])])]"

lemma paid_snapshot_balance:
  "lovelace_in_snapshot_for_address (Inr (paid_snapshot n)) ''gw'' = Inr n"
proof -
  have "checked_add_u64 0 n = Some n" using unat_lt_2_64 [of n] by (simp add: checked_add_u64_def)
  then show ?thesis
    by (simp add: lovelace_in_snapshot_for_address_def paid_snapshot_def jget_def
        sum_lovelace_from_utxo_json_def utxo_entry_value_def json_as_u64_def)
qed

section \<open>Properties\<close>

text \<open>C9: Over any sequence of polled balances, the credits granted are worth at most what arrived at
  the gateway's address, and exactly that when every arrival is a number of whole payments.\<close>

theorem gb_credits_backed:
  fixes s :: gb_state and bs :: "u64 list"
  defines "l \<equiv> unat (ht_lovelace_per_request (gb_toml s))"
    and "r \<equiv> unat (ht_requests_per_microtransaction (gb_toml s))"
    and "old \<equiv> unat (gb_credits_available s)"
    and "new \<equiv> unat (gb_credits_available (gb_poll_balances bs s))"
    and "arrived \<equiv> inflow (gb_credits_last_balance s) bs"
  assumes "0 < l * r" and "l * r < 2 ^ 64" and "old * l + arrived < 2 ^ 64"
  shows "old \<le> new \<and> new * l \<le> old * l + arrived \<and>
    (whole_payments (l * r) (gb_credits_last_balance s) bs \<longrightarrow> new * l = old * l + arrived)"
  using gb_account.credits_backed [of s bs] assms(6-8)
  unfolding assms(1-5) gb_poll_balances_def gb_per_request_def gb_per_batch_def by blast

theorem gb_credits_backed_witness:
  "unat (gb_credits_available (gb_poll_balances [840450, 2521350, 0, 840450] gb_demo_state)) = 4"
proof -
  have l: "unat (ht_lovelace_per_request (gb_toml gb_demo_state)) = 840450"
    "unat (ht_requests_per_microtransaction (gb_toml gb_demo_state)) = 1"
    "gb_credits_available gb_demo_state = 0" "gb_credits_last_balance gb_demo_state = 0"
    by (simp_all add: gb_demo_state_def gb_init_def gp_demo_toml_def)
  show ?thesis
    using gb_credits_backed [of gb_demo_state "[840450, 2521350, 0, 840450]"] by (simp add: l)
qed

text \<open>C11: The controller never waits for something nobody will send: while no head is in use an event
  of the life cycle is on its way, while it closes an event of the closing sequence, and while
  the head is open the next poll of the balance, or what leads to it.\<close>

theorem gb_never_stuck:
  assumes "gb_reachable (gb_boot toml gw dir req resp) b" and "\<not> ac_stopped b"
  shows "(\<not> gb_hydra_head_open (ac_state b) \<and> \<not> gb_is_closing (ac_state b) \<longrightarrow>
      pending gb_restart_gen gb_cycle b) \<and>
    (gb_is_closing (ac_state b) \<longrightarrow> pending gb_restart_gen gb_closes b) \<and>
    (gb_hydra_head_open (ac_state b) \<and> \<not> gb_is_closing (ac_state b) \<longrightarrow>
      pending gb_restart_gen gb_monitors b)"
proof -
  note r = assms(1) [unfolded gb_reachable_def gb_boot_def]
  have "pending gb_restart_gen gb_cycle b"
    if "\<not> gb_hydra_head_open (ac_state b) \<and> \<not> gb_is_closing (ac_state b)"
    by (rule gb.pending_reach [OF r, where Q = "\<lambda>s. \<not> gb_hydra_head_open s \<and> \<not> gb_is_closing s"])
      (use that assms(2) gb_idle_step in simp_all)
  moreover have "pending gb_restart_gen gb_closes b" if "gb_is_closing (ac_state b)"
    by (rule gb.pending_reach [OF r, where Q = gb_is_closing])
      (use that assms(2) gb_closing_step in simp_all)
  moreover have "pending gb_restart_gen gb_monitors b"
    if "gb_hydra_head_open (ac_state b) \<and> \<not> gb_is_closing (ac_state b)"
    by (rule gb.pending_reach [OF r, where Q = "\<lambda>s. gb_hydra_head_open s \<and> \<not> gb_is_closing s"])
      (use that assms(2) gb_open_step in simp_all)
  ultimately show ?thesis by blast
qed

theorem gb_never_stuck_witness: "pending gb_restart_gen gb_cycle gb_demo_boot"
proof -
  have "gb_reachable gb_demo_boot gb_demo_boot"
    by (simp add: gb_reachable_def actor_reach.reach_refl)
  from gb_never_stuck [OF this [unfolded gb_demo_boot_def]] show ?thesis
    by (simp add: gb_demo_boot_def gb_boot_def actor_spawn_def gb_init_def)
qed

text \<open>Seeding the balance when the head opens prevents double counting: funds that were already in
  the snapshot earn no credits at the next poll. When the snapshot cannot be read at that
  moment the balance is seeded with zero, and the same funds are credited a second time.\<close>

theorem gb_rejoin_credits:
  assumes "gb_process_event v GB_WaitForOpen s = (s1, fx1, r1)"
    and "fetch_head_tag (he_head v) = Inr ''Open''"
    and "lovelace_in_snapshot_for_address (he_snapshot w) (gb_gateway_cardano_addr s) = Inr b"
    and "gb_process_event w GB_MonitorCredits s1 = (s2, fx2, r2)" and "\<not> gb_is_closing s"
  shows "(he_snapshot v = he_snapshot w \<longrightarrow> gb_credits_available s2 = gb_credits_available s) \<and>
    (he_snapshot v = Inl err \<longrightarrow>
       gb_credits_available s2 = gb_credits_available (gb_credit_balance b (s\<lparr>gb_credits_last_balance := 0\<rparr>)))"
proof -
  define c where "c = (case lovelace_in_snapshot_for_address (he_snapshot v) (gb_gateway_cardano_addr s) of
    Inl _ \<Rightarrow> 0 | Inr x \<Rightarrow> x)"
  have s1: "s1 = s\<lparr>gb_hydra_head_open := True, gb_credits_last_balance := c, gb_received_microtransactions := 0\<rparr>"
    using assms(1,2) by (simp add: gb_on_wait_for_open_def Let_def c_def)
  have s2: "gb_credits_available s2 = gb_credits_available (gb_credit_balance b s1)"
    using assms(3-5) s1 by (auto simp: gb_on_monitor_credits_def Let_def split: if_splits)
  have "gb_credits_available (gb_credit_balance b (s\<lparr>gb_hydra_head_open := True,
      gb_credits_last_balance := c, gb_received_microtransactions := 0\<rparr>)) =
    gb_credits_available (gb_credit_balance b (s\<lparr>gb_credits_last_balance := c\<rparr>))"
    by (simp add: gb_credit_balance_def Let_def)
  moreover have "gb_credits_available (gb_credit_balance b (s\<lparr>gb_credits_last_balance := b\<rparr>)) =
    gb_credits_available s"
    by (simp add: gb_credit_balance_def Let_def)
  moreover have "he_snapshot v = he_snapshot w \<Longrightarrow> c = b" using assms(3) by (simp add: c_def)
  moreover have "he_snapshot v = Inl err \<Longrightarrow> c = 0"
    by (simp add: c_def lovelace_in_snapshot_for_address_def)
  ultimately show ?thesis using s1 s2 by auto
qed

theorem gb_rejoin_credits_witness:
  "\<exists>s1 fx1 r1 s2 fx2 r2.
     gb_process_event (calm_env\<lparr>he_snapshot := Inl (Ext_Err ''timeout'')\<rparr>) GB_WaitForOpen gb_demo_state
       = (s1, fx1, r1) \<and>
     gb_process_event (calm_env\<lparr>he_snapshot := Inr (paid_snapshot 840450)\<rparr>) GB_MonitorCredits s1
       = (s2, fx2, r2) \<and> gb_credits_available s2 = 1"
proof -
  let ?v = "calm_env\<lparr>he_snapshot := Inl (Ext_Err ''timeout'')\<rparr>"
  let ?w = "calm_env\<lparr>he_snapshot := Inr (paid_snapshot 840450)\<rparr>"
  obtain s1 fx1 r1 where 1: "gb_process_event ?v GB_WaitForOpen gb_demo_state = (s1, fx1, r1)"
    by (metis prod_cases3)
  obtain s2 fx2 r2 where 2: "gb_process_event ?w GB_MonitorCredits s1 = (s2, fx2, r2)"
    by (metis prod_cases3)
  have "gb_credits_available s2 =
      gb_credits_available (gb_credit_balance 840450 (gb_demo_state\<lparr>gb_credits_last_balance := 0\<rparr>))"
    using gb_rejoin_credits [OF 1 _ _ 2, of 840450 "Ext_Err ''timeout''"] paid_snapshot_balance [of 840450]
    by (simp add: gb_demo_state_def gb_init_def)
  also have "\<dots> = 1"
    by (simp add: gb_credit_balance_def gb_demo_state_def gb_init_def gp_demo_toml_def)
  finally show ?thesis using 1 2 by blast
qed

end
