(* ===== verification/Hydra_Sdk_Client.thy ===== *)
theory Hydra_Sdk_Client
  imports Hydra_Bridge_Server
begin

text \<open>
  The Hydra controller of the SDK bridge (\<open>crates/sdk_bridge/src/hydra_client/mod.rs\<close>), the
  paying side of the head the gateway's controller for bridges serves. The key-exchange
  messages have the shape of the gateway's types and share their records. The event loop is
  that of \<open>Hydra_Actor\<close>; here \<open>Terminate\<close> does not leave it.
\<close>

section \<open>Data\<close>

definition MIN_COMMIT_TOPUP_LOVELACE :: u64 where "MIN_COMMIT_TOPUP_LOVELACE = 1000000"
definition PREPAY_DELAY :: nat where "PREPAY_DELAY = 15000"

record payment_params =
  pp_commit_ada :: real
  pp_lovelace_per_request :: u64
  pp_requests_per_microtransaction :: u64
  pp_microtransactions_per_fanout :: u64

datatype sb_event =
    SB_Restart
  | SB_Terminate
  | SB_KeyExchangeResponse bkex_response
  | SB_FundCommitAddr
  | SB_TryToCommit
  | SB_WaitForOpen
  | SB_MonitorStates
  | SB_AccountOneRequest
  | SB_SendPrepay
  | SB_MonitorCredits
  | SB_WaitForL2Tx "string list" u32 u64 u32

record sb_state =
  sb_cardano_signing_key :: string
  sb_config_dir :: string
  sb_bridge_cardano_vkey :: json
  sb_gateway_payment_addr :: string
  sb_payment_params :: "payment_params option"
  sb_api_port :: u16
  sb_metrics_port :: u16
  sb_last_hydra_head_state :: string
  sb_hydra_pid :: "u32 option"
  sb_hydra_watchdog :: bool
  sb_restart_gen :: u64
  sb_kex_restart_gen :: u64
  sb_hydra_head_open :: bool
  sb_head_open_initialized :: bool
  sb_credits_available :: u64
  sb_credits_last_balance :: u64
  sb_accounted_requests :: u64
  sb_sent_microtransactions :: u64
  sb_commit_wallet_skey :: string
  sb_commit_wallet_addr :: string
  sb_prepay_sent :: bool
  sb_awaiting_l2_confirmation :: bool

record sdk_env =
  se_fl :: "real \<Rightarrow> real"
  se_this_host :: string
  se_lovelace_on_skey :: "string \<Rightarrow> u64 hres"
  se_gen_hydra_keys :: "unit hres"
  se_read_hydra_vk :: "json hres"
  se_kex_send :: "unit hres"
  se_port_free :: "u16 \<Rightarrow> bool hres"
  se_address_of_vkey :: "json \<Rightarrow> string hres"
  se_address_of_skey :: "string \<Rightarrow> string hres"
  se_skey_exists :: bool
  se_new_keypair :: "unit hres"
  se_fund_address :: "unit hres"
  se_head :: "json hres"
  se_commit :: "unit hres"
  se_send_tx :: "string list hres"
  se_snapshot :: "json hres"
  se_free_port1 :: "u16 hres"
  se_free_port2 :: "u16 hres"
  se_write_params :: "unit hres"
  se_write_hydra_vk :: "unit hres"
  se_write_cardano_vk :: "unit hres"
  se_write_project_id :: "unit hres"
  se_spawn :: "u32 option hres"

datatype sdk_call =
    S_Kill_Group u32
  | S_Spawn_Node "string list" "u32 option"
  | S_Kex_Request bkex_request
  | S_New_Keypair string
  | S_Fund_Address string string u64
  | S_Commit_All string u16
  | S_Send_Tx string u64

type_synonym sb_handled = "(sb_state, sb_event, sdk_call) handled"
type_synonym sb_effect = "(sb_event, sdk_call) effect"

definition sb_init :: "string \<Rightarrow> string \<Rightarrow> json \<Rightarrow> sb_state" where
  "sb_init skey dir vkey =
     \<lparr>sb_cardano_signing_key = skey, sb_config_dir = dir, sb_bridge_cardano_vkey = vkey,
      sb_gateway_payment_addr = [], sb_payment_params = None, sb_api_port = 0,
      sb_metrics_port = 0, sb_last_hydra_head_state = [], sb_hydra_pid = None,
      sb_hydra_watchdog = False, sb_restart_gen = 0, sb_kex_restart_gen = 0,
      sb_hydra_head_open = False, sb_head_open_initialized = False,
      sb_credits_available = 0, sb_credits_last_balance = 0, sb_accounted_requests = 0,
      sb_sent_microtransactions = 0, sb_commit_wallet_skey = [], sb_commit_wallet_addr = [],
      sb_prepay_sent = False, sb_awaiting_l2_confirmation = False\<rparr>"

definition sb_send_delayed :: "sb_state \<Rightarrow> sb_event \<Rightarrow> nat \<Rightarrow> sb_effect" where
  "sb_send_delayed s e ms = Send_Delayed (sb_restart_gen s) e ms"

section \<open>Running the hydra-node\<close>

definition sb_stop_hydra_node :: "sb_state \<Rightarrow> sb_state \<times> sb_effect list" where
  "sb_stop_hydra_node s =
     (s\<lparr>sb_hydra_watchdog := False, sb_hydra_pid := None\<rparr>,
      (if sb_hydra_watchdog s then [Abort_Watchdog] else []) @
      (case sb_hydra_pid s of Some pid \<Rightarrow> [Do (S_Kill_Group pid)] | None \<Rightarrow> []))"

definition sb_hydra_node_args :: "sb_state \<Rightarrow> bkex_response \<Rightarrow> string list" where
  "sb_hydra_node_args s resp =
     [''--node-id'', ''bridge-node'',
      ''--persistence-dir'', sb_config_dir s @ ''/persistence'',
      ''--cardano-signing-key'', sb_cardano_signing_key s,
      ''--hydra-signing-key'', sb_config_dir s @ ''/hydra.sk'',
      ''--hydra-scripts-tx-id'', br_hydra_scripts_tx_id resp,
      ''--ledger-protocol-parameters'', sb_config_dir s @ ''/protocol-parameters.json'',
      ''--contestation-period'', show_nat (br_contestation_secs resp) @ ''s'',
      ''--blockfrost'', sb_config_dir s @ ''/blockfrost-project-id'',
      ''--api-port'', show_u16 (sb_api_port s),
      ''--api-host'', ''127.0.0.1'',
      ''--listen'', ''127.0.0.1:'' @ show_u16 (br_proposed_bridge_h2h_port resp),
      ''--peer'', ''127.0.0.1:'' @ show_u16 (br_gateway_h2h_port resp),
      ''--monitoring-port'', show_u16 (sb_metrics_port s),
      ''--hydra-verification-key'', sb_config_dir s @ ''/gateway-hydra.vk'',
      ''--cardano-verification-key'', sb_config_dir s @ ''/gateway-payment.vk'']"

definition sb_start_hydra_node :: "sdk_env \<Rightarrow> bkex_response \<Rightarrow> sb_state \<Rightarrow> sb_handled" where
  "sb_start_hydra_node v resp s0 =
     (let (s, fx) = sb_stop_hydra_node s0 in
      case se_free_port1 v of Inl e \<Rightarrow> hfail s fx e
      | Inr p1 \<Rightarrow>
        let s = s\<lparr>sb_api_port := p1\<rparr> in
        case se_free_port2 v of Inl e \<Rightarrow> hfail s fx e
        | Inr p2 \<Rightarrow>
          let s = s\<lparr>sb_metrics_port := p2\<rparr> in
          case se_write_params v of Inl e \<Rightarrow> hfail s fx e
          | Inr _ \<Rightarrow>
            case se_write_hydra_vk v of Inl e \<Rightarrow> hfail s fx e
            | Inr _ \<Rightarrow>
              case se_write_cardano_vk v of Inl e \<Rightarrow> hfail s fx e
              | Inr _ \<Rightarrow>
                case se_write_project_id v of Inl e \<Rightarrow> hfail s fx e
                | Inr _ \<Rightarrow>
                  case se_spawn v of Inl e \<Rightarrow> hfail s fx e
                  | Inr pid \<Rightarrow>
                    hdone (s\<lparr>sb_hydra_pid := pid, sb_hydra_watchdog := True\<rparr>)
                      (fx @ [Do (S_Spawn_Node (sb_hydra_node_args s resp) pid),
                             Start_Watchdog (sb_restart_gen s)]))"

section \<open>The handlers\<close>

definition sb_kex_request :: "sdk_env \<Rightarrow> sb_state \<Rightarrow> json \<Rightarrow> u16 option \<Rightarrow> bkex_request" where
  "sb_kex_request v s vk port =
     \<lparr>bq_machine_id = se_this_host v, bq_bridge_cardano_vkey = sb_bridge_cardano_vkey s,
      bq_bridge_hydra_vkey = vk, bq_accepted_bridge_h2h_port = port\<rparr>"

definition sb_on_restart :: "sdk_env \<Rightarrow> sb_state \<Rightarrow> sb_handled" where
  "sb_on_restart v s0 =
     (let s = s0\<lparr>sb_restart_gen := sb_restart_gen s0 + 1\<rparr>;
          s = s\<lparr>sb_kex_restart_gen := sb_restart_gen s\<rparr>;
          (s, fx) = sb_stop_hydra_node s in
      case se_lovelace_on_skey v (sb_cardano_signing_key s) of Inl e \<Rightarrow> hfail s fx e
      | Inr fuel \<Rightarrow>
        if fuel < MIN_FUEL_LOVELACE then
          hfail s fx (Bail ''too little ADA for the Hydra L1 fees on the enterprise address'')
        else case se_gen_hydra_keys v of Inl e \<Rightarrow> hfail s fx e
        | Inr _ \<Rightarrow>
          case se_read_hydra_vk v of Inl e \<Rightarrow> hfail s fx e
          | Inr vk \<Rightarrow>
            let fx = fx @ [Do (S_Kex_Request (sb_kex_request v s vk None))] in
            case se_kex_send v of Inl e \<Rightarrow> hfail s fx e
            | Inr _ \<Rightarrow>
              hdone (s\<lparr>sb_hydra_head_open := False,
                       sb_credits_available := 0,
                       sb_credits_last_balance := 0,
                       sb_accounted_requests := 0,
                       sb_sent_microtransactions := 0,
                       sb_prepay_sent := False,
                       sb_head_open_initialized := False,
                       sb_awaiting_l2_confirmation := False,
                       sb_last_hydra_head_state := []\<rparr>) fx)"

definition sb_on_terminate :: "sb_state \<Rightarrow> sb_handled" where
  "sb_on_terminate s = (let (s', fx) = sb_stop_hydra_node s in hdone s' fx)"

definition params_of :: "bkex_response \<Rightarrow> payment_params" where
  "params_of resp =
     \<lparr>pp_commit_ada = br_commit_ada resp,
      pp_lovelace_per_request = br_lovelace_per_request resp,
      pp_requests_per_microtransaction = br_requests_per_microtransaction resp,
      pp_microtransactions_per_fanout = br_microtransactions_per_fanout resp\<rparr>"

text \<open>The gateway's payment address is derived once and kept.\<close>

definition sb_learn_gateway_addr :: "sdk_env \<Rightarrow> bkex_response \<Rightarrow> sb_state \<Rightarrow> sb_state hres" where
  "sb_learn_gateway_addr v resp s =
     (if sb_gateway_payment_addr s = [] then
        (case se_address_of_vkey v (br_gateway_cardano_vkey resp) of
           Inl e \<Rightarrow> Inl e
         | Inr addr \<Rightarrow> Inr (s\<lparr>sb_gateway_payment_addr := addr\<rparr>))
      else Inr s)"

definition sb_on_kex_proposal :: "sdk_env \<Rightarrow> bkex_response \<Rightarrow> sb_state \<Rightarrow> sb_handled" where
  "sb_on_kex_proposal v resp s0 =
     (if sb_restart_gen s0 \<noteq> sb_kex_restart_gen s0 then hdone s0 []
      else
        let s = s0\<lparr>sb_payment_params := Some (params_of resp)\<rparr> in
        case sb_learn_gateway_addr v resp s of Inl e \<Rightarrow> hfail s [] e
        | Inr s \<Rightarrow>
          if \<not> (se_port_free v (br_gateway_h2h_port resp) = Inr True \<and>
                 se_port_free v (br_proposed_bridge_h2h_port resp) = Inr True) then
            hdone s [Send SB_Restart]
          else case se_read_hydra_vk v of Inl e \<Rightarrow> hfail s [] e
          | Inr vk \<Rightarrow>
            let fx = [Do (S_Kex_Request
                       (sb_kex_request v s vk (Some (br_proposed_bridge_h2h_port resp))))] in
            case se_kex_send v of Inl e \<Rightarrow> hfail s fx e
            | Inr _ \<Rightarrow> hdone s fx)"

definition sb_on_kex_done :: "sdk_env \<Rightarrow> bkex_response \<Rightarrow> sb_state \<Rightarrow> sb_handled" where
  "sb_on_kex_done v resp s0 =
     (if sb_restart_gen s0 \<noteq> sb_kex_restart_gen s0 then hdone s0 []
      else
        case sb_learn_gateway_addr v resp s0 of Inl e \<Rightarrow> hfail s0 [] e
        | Inr s \<Rightarrow>
          let s = (if sb_payment_params s = None
                   then s\<lparr>sb_payment_params := Some (params_of resp)\<rparr> else s) in
          case sb_start_hydra_node v resp s of
            (s, fx, Inl e) \<Rightarrow> hfail s fx e
          | (s, fx, Inr _) \<Rightarrow> hdone s (fx @ [sb_send_delayed s SB_FundCommitAddr 1000]))"

definition sb_target_lovelace :: "sdk_env \<Rightarrow> payment_params \<Rightarrow> u64" where
  "sb_target_lovelace v p = u64_saturate (f64_round (se_fl v (pp_commit_ada p * 1000000)))"

definition sb_on_fund_commit_addr :: "sdk_env \<Rightarrow> sb_state \<Rightarrow> sb_handled" where
  "sb_on_fund_commit_addr v s0 =
     (let commit_wallet = sb_config_dir s0 @ ''/commit-funds'';
          s = s0\<lparr>sb_commit_wallet_skey := commit_wallet @ ''.sk''\<rparr>;
          fx1 = (if se_skey_exists v then [] else [Do (S_New_Keypair commit_wallet)]) in
      case (if se_skey_exists v then Inr () else se_new_keypair v) of Inl e \<Rightarrow> hfail s fx1 e
      | Inr _ \<Rightarrow>
        case se_address_of_skey v (sb_commit_wallet_skey s) of Inl e \<Rightarrow> hfail s fx1 e
        | Inr addr \<Rightarrow>
          let s = s\<lparr>sb_commit_wallet_addr := addr\<rparr> in
          case sb_payment_params s of
            None \<Rightarrow> hfail s fx1 (Bail ''payment parameters not set before funding commit address'')
          | Some params \<Rightarrow>
            let tgt = sb_target_lovelace v params in
            case se_lovelace_on_skey v (sb_commit_wallet_skey s) of Inl e \<Rightarrow> hfail s fx1 e
            | Inr cur \<Rightarrow>
              if cur < tgt then
                let top_up = tgt - cur;
                    top_up = (if top_up < MIN_COMMIT_TOPUP_LOVELACE
                              then MIN_COMMIT_TOPUP_LOVELACE else top_up) in
                case se_address_of_skey v (sb_cardano_signing_key s) of Inl e \<Rightarrow> hfail s fx1 e
                | Inr src \<Rightarrow>
                  let fx2 = fx1 @ [Do (S_Fund_Address src addr top_up)] in
                  case se_fund_address v of Inl e \<Rightarrow> hfail s fx2 e
                  | Inr _ \<Rightarrow> hdone s (fx2 @ [sb_send_delayed s SB_TryToCommit 3000])
              else hdone s (fx1 @ [sb_send_delayed s SB_TryToCommit 3000]))"

definition sb_on_try_to_commit :: "sdk_env \<Rightarrow> sb_state \<Rightarrow> sb_handled" where
  "sb_on_try_to_commit v s =
     (case fetch_head_tag (se_head v) of
        Inl _ \<Rightarrow> hdone s [sb_send_delayed s SB_TryToCommit 3000]
      | Inr status \<Rightarrow>
        if status = ''Open'' then hdone s [sb_send_delayed s SB_WaitForOpen 1000]
        else if status = ''Initial'' then
          case se_lovelace_on_skey v (sb_commit_wallet_skey s) of Inl e \<Rightarrow> hfail s [] e
          | Inr have_lovelace \<Rightarrow>
            case sb_payment_params s of
              None \<Rightarrow> hfail s [] (Bail ''payment parameters not set before commit'')
            | Some params \<Rightarrow>
              let needed = se_fl v (se_fl v (se_fl v (99 / 100) * pp_commit_ada params) * 1000000) in
              if needed \<le> f64_of_u64 (se_fl v) have_lovelace then
                let fx = [Do (S_Commit_All (sb_commit_wallet_addr s) (sb_api_port s))] in
                case se_commit v of
                  Inr _ \<Rightarrow> hdone s (fx @ [sb_send_delayed s SB_WaitForOpen 3000])
                | Inl _ \<Rightarrow> hdone s (fx @ [sb_send_delayed s SB_TryToCommit 30000])
              else hdone s [sb_send_delayed s SB_TryToCommit 3000]
        else hdone s [sb_send_delayed s SB_TryToCommit 3000])"

definition sb_on_head_open :: "sb_state \<Rightarrow> sb_state \<times> sb_effect list" where
  "sb_on_head_open s0 =
     (if sb_head_open_initialized s0 then (s0\<lparr>sb_hydra_head_open := True\<rparr>, [])
      else
        let s = s0\<lparr>sb_head_open_initialized := True,
                   sb_hydra_head_open := True,
                   sb_credits_available := 0,
                   sb_credits_last_balance := 0,
                   sb_accounted_requests := 0,
                   sb_sent_microtransactions := 0,
                   sb_prepay_sent := False\<rparr> in
        (s, [sb_send_delayed s SB_MonitorCredits CREDIT_POLL_INTERVAL,
             sb_send_delayed s SB_SendPrepay PREPAY_DELAY]))"

definition sb_on_wait_for_open :: "sdk_env \<Rightarrow> sb_state \<Rightarrow> sb_handled" where
  "sb_on_wait_for_open v s0 =
     (case fetch_head_tag (se_head v) of Inl e \<Rightarrow> hfail s0 [] e
      | Inr status \<Rightarrow>
        if status = ''Open'' then
          let s = s0\<lparr>sb_last_hydra_head_state := status\<rparr>;
              fx = [sb_send_delayed s SB_MonitorStates 5000];
              (s, fx') = sb_on_head_open s in
          hdone s (fx @ fx')
        else hdone s0 [sb_send_delayed s0 SB_WaitForOpen 3000])"

definition sb_on_monitor_states :: "sdk_env \<Rightarrow> sb_state \<Rightarrow> sb_handled" where
  "sb_on_monitor_states v s0 =
     (case fetch_head_tag (se_head v) of Inl e \<Rightarrow> hfail s0 [] e
      | Inr new_status \<Rightarrow>
        let (s, fx) =
              (if new_status \<noteq> sb_last_hydra_head_state s0 then
                 let s = s0\<lparr>sb_last_hydra_head_state := new_status\<rparr> in
                 (s, if new_status = ''Initial''
                     then [sb_send_delayed s SB_FundCommitAddr 1000] else [])
               else (s0, []));
            (s, fx') =
              (if new_status = ''Open'' then sb_on_head_open s
               else (s\<lparr>sb_hydra_head_open := False,
                       sb_credits_available := 0,
                       sb_credits_last_balance := 0,
                       sb_head_open_initialized := False\<rparr>, []))
        in hdone s (fx @ fx' @ [sb_send_delayed s SB_MonitorStates 5000]))"

definition sb_credit_balance :: "payment_params \<Rightarrow> u64 \<Rightarrow> sb_state \<Rightarrow> sb_state" where
  "sb_credit_balance params current_balance s =
     (if current_balance < sb_credits_last_balance s then
        s\<lparr>sb_credits_last_balance := current_balance\<rparr>
      else
        let delta = current_balance - sb_credits_last_balance s in
        if 0 < delta then
          let microtransaction_lovelace =
                pp_lovelace_per_request params * pp_requests_per_microtransaction params;
              s' = (if microtransaction_lovelace = 0 then s
                    else if microtransaction_lovelace \<le> delta then
                      let new_microtransactions = delta div microtransaction_lovelace;
                          new_credits = new_microtransactions
                            * pp_requests_per_microtransaction params
                      in s\<lparr>sb_credits_available := sb_credits_available s + new_credits\<rparr>
                    else s)
          in s'\<lparr>sb_credits_last_balance := current_balance\<rparr>
        else s)"

definition sb_on_monitor_credits :: "sdk_env \<Rightarrow> sb_state \<Rightarrow> sb_handled" where
  "sb_on_monitor_credits v s0 =
     (if sb_hydra_head_open s0 then
        let s =
          (if sb_gateway_payment_addr s0 = [] then s0
           else case sb_payment_params s0 of
             None \<Rightarrow> s0
           | Some params \<Rightarrow>
               (case lovelace_in_snapshot_for_address (se_snapshot v) (sb_gateway_payment_addr s0) of
                  Inr current_balance \<Rightarrow> sb_credit_balance params current_balance s0
                | Inl _ \<Rightarrow> s0))
        in hdone s [sb_send_delayed s SB_MonitorCredits CREDIT_POLL_INTERVAL]
      else hdone s0 [])"

definition sb_on_account_one_request :: "sdk_env \<Rightarrow> sb_state \<Rightarrow> sb_handled" where
  "sb_on_account_one_request v s0 =
     (if sb_awaiting_l2_confirmation s0 then
        hdone s0 [sb_send_delayed s0 SB_AccountOneRequest 1000]
      else case sb_payment_params s0 of
        None \<Rightarrow> hdone s0 []
      | Some params \<Rightarrow>
        if \<not> sb_hydra_head_open s0 then
          hdone s0 [sb_send_delayed s0 SB_AccountOneRequest 500]
        else if sb_gateway_payment_addr s0 = [] then hdone s0 []
        else
          let s = s0\<lparr>sb_accounted_requests := sb_accounted_requests s0 + 1\<rparr> in
          if pp_requests_per_microtransaction params \<le> sb_accounted_requests s then
            let amount = sb_accounted_requests s * pp_lovelace_per_request params;
                fx = [Do (S_Send_Tx (sb_gateway_payment_addr s) amount)] in
            case se_send_tx v of Inl e \<Rightarrow> hfail s fx e
            | Inr spent_inputs \<Rightarrow>
              let s = s\<lparr>sb_accounted_requests := 0,
                        sb_sent_microtransactions := sb_sent_microtransactions s + 1,
                        sb_awaiting_l2_confirmation := True\<rparr> in
              hdone s (fx @ [Send (SB_WaitForL2Tx spent_inputs 0 amount L2_TX_MAX_RETRIES)])
          else hdone s [])"

definition sb_on_send_prepay :: "sdk_env \<Rightarrow> sb_state \<Rightarrow> sb_handled" where
  "sb_on_send_prepay v s0 =
     (if sb_prepay_sent s0 then hdone s0 []
      else case sb_payment_params s0 of
        None \<Rightarrow> hfail s0 [] (Bail ''payment parameters not set before prepay'')
      | Some params \<Rightarrow>
        if sb_gateway_payment_addr s0 = [] then hdone s0 []
        else
          let amount = pp_requests_per_microtransaction params * pp_lovelace_per_request params;
              fx = [Do (S_Send_Tx (sb_gateway_payment_addr s0) amount)] in
          case se_send_tx v of Inl e \<Rightarrow> hfail s0 fx e
          | Inr spent_inputs \<Rightarrow>
            let s = s0\<lparr>sb_sent_microtransactions := sb_sent_microtransactions s0 + 1,
                       sb_prepay_sent := True,
                       sb_awaiting_l2_confirmation := True\<rparr> in
            hdone s (fx @ [Send (SB_WaitForL2Tx spent_inputs 0 amount L2_TX_MAX_RETRIES)]))"

definition sb_on_wait_for_l2_tx ::
  "sdk_env \<Rightarrow> string list \<Rightarrow> u32 \<Rightarrow> u64 \<Rightarrow> u32 \<Rightarrow> sb_state \<Rightarrow> sb_handled" where
  "sb_on_wait_for_l2_tx v spent_inputs attempts amount retries_left s =
     (case se_snapshot v of Inl e \<Rightarrow> hfail s [] e
      | Inr utxo \<Rightarrow>
        if \<not> still_present spent_inputs utxo then
          hdone (s\<lparr>sb_awaiting_l2_confirmation := False\<rparr>) []
        else if L2_TX_MAX_POLL_ATTEMPTS \<le> attempts then
          if 0 < retries_left then
            let fx = [Do (S_Send_Tx (sb_gateway_payment_addr s) amount)] in
            case se_send_tx v of Inl e \<Rightarrow> hfail s fx e
            | Inr new_inputs \<Rightarrow>
              hdone s (fx @ [Send (SB_WaitForL2Tx new_inputs 0 amount (retries_left - 1))])
          else hdone (s\<lparr>sb_awaiting_l2_confirmation := False\<rparr>) []
        else
          hdone s [sb_send_delayed s
            (SB_WaitForL2Tx spent_inputs (attempts + 1) amount retries_left) L2_TX_POLL_INTERVAL])"

fun sb_process_event :: "sdk_env \<Rightarrow> sb_event \<Rightarrow> sb_state \<Rightarrow> sb_handled" where
  "sb_process_event v SB_Restart s = sb_on_restart v s"
| "sb_process_event v SB_Terminate s = sb_on_terminate s"
| "sb_process_event v (SB_KeyExchangeResponse resp) s =
     (if br_kex_done resp then sb_on_kex_done v resp s else sb_on_kex_proposal v resp s)"
| "sb_process_event v SB_FundCommitAddr s = sb_on_fund_commit_addr v s"
| "sb_process_event v SB_TryToCommit s = sb_on_try_to_commit v s"
| "sb_process_event v SB_WaitForOpen s = sb_on_wait_for_open v s"
| "sb_process_event v SB_MonitorStates s = sb_on_monitor_states v s"
| "sb_process_event v SB_AccountOneRequest s = sb_on_account_one_request v s"
| "sb_process_event v SB_SendPrepay s = sb_on_send_prepay v s"
| "sb_process_event v SB_MonitorCredits s = sb_on_monitor_credits v s"
| "sb_process_event v (SB_WaitForL2Tx i a m r) s = sb_on_wait_for_l2_tx v i a m r s"

definition sb_breaks :: "sb_event \<Rightarrow> bool" where
  "sb_breaks e \<longleftrightarrow> False"

lemmas sb_handler_defs =
  sb_on_restart_def sb_on_terminate_def sb_on_kex_proposal_def sb_on_kex_done_def
  sb_on_fund_commit_addr_def sb_on_try_to_commit_def sb_on_wait_for_open_def
  sb_on_monitor_states_def sb_on_monitor_credits_def sb_on_account_one_request_def
  sb_on_send_prepay_def sb_on_wait_for_l2_tx_def

section \<open>The handlers keep the promises of the actor interface\<close>

definition sb_frame :: "sb_state \<Rightarrow> sb_state \<Rightarrow> bool" where
  "sb_frame s s' \<longleftrightarrow>
     sb_restart_gen s' = sb_restart_gen s \<and> sb_kex_restart_gen s' = sb_kex_restart_gen s \<and>
     sb_hydra_head_open s' = sb_hydra_head_open s \<and>
     sb_head_open_initialized s' = sb_head_open_initialized s \<and>
     sb_credits_available s' = sb_credits_available s \<and>
     sb_credits_last_balance s' = sb_credits_last_balance s \<and>
     sb_accounted_requests s' = sb_accounted_requests s \<and>
     sb_prepay_sent s' = sb_prepay_sent s \<and>
     sb_awaiting_l2_confirmation s' = sb_awaiting_l2_confirmation s"

lemma sb_start_facts:
  assumes "sb_start_hydra_node v resp s = (s', fx, r)"
  shows "sb_frame s s' \<and> (\<forall>f\<in>set fx. effect_tags f \<subseteq> {sb_restart_gen s}) \<and>
    (\<forall>a m. Do (S_Send_Tx a m) \<notin> set fx)"
  using assms
  by (auto simp: sb_start_hydra_node_def sb_stop_hydra_node_def sb_frame_def Let_def
      split: sum.splits option.splits)

lemma sb_restart_tagged: "tagged sb_restart_gen (sb_restart_gen s + 1) (sb_on_restart v s)"
  by (auto simp: sb_on_restart_def sb_stop_hydra_node_def tagged_def Let_def
      split: sum.splits option.splits)

lemma sb_learn_frame: "sb_learn_gateway_addr v resp s = Inr s' \<Longrightarrow> sb_frame s s'"
  by (auto simp: sb_learn_gateway_addr_def sb_frame_def split: if_splits sum.splits)

text \<open>The two key-exchange handlers leave the account and the flags alone and pay nothing.\<close>

lemma sb_kex_proposal_facts:
  assumes "sb_on_kex_proposal v resp s = (s', fx, r)"
  shows "sb_frame s s' \<and> (\<forall>f\<in>set fx. effect_tags f = {}) \<and> (\<forall>a m. Do (S_Send_Tx a m) \<notin> set fx)"
  using assms
  by (auto simp: sb_on_kex_proposal_def sb_frame_def Let_def split: if_splits sum.splits
      dest!: sb_learn_frame)

lemma sb_kex_done_facts:
  assumes "sb_on_kex_done v resp s = (s', fx, r)"
  shows "sb_frame s s' \<and> (\<forall>f\<in>set fx. effect_tags f \<subseteq> {sb_restart_gen s}) \<and>
    (\<forall>a m. Do (S_Send_Tx a m) \<notin> set fx)"
proof (cases "sb_restart_gen s \<noteq> sb_kex_restart_gen s")
  case True
  with assms show ?thesis by (auto simp: sb_on_kex_done_def sb_frame_def)
next
  case False
  note fresh = this
  show ?thesis
  proof (cases "sb_learn_gateway_addr v resp s")
    case (Inl e)
    with fresh assms show ?thesis by (auto simp: sb_on_kex_done_def sb_frame_def)
  next
    case (Inr s1)
    define s2 where "s2 = (if sb_payment_params s1 = None
      then s1\<lparr>sb_payment_params := Some (params_of resp)\<rparr> else s1)"
    have f: "sb_frame s s2" using sb_learn_frame [OF Inr] by (simp add: s2_def sb_frame_def)
    obtain s3 gx q where g: "sb_start_hydra_node v resp s2 = (s3, gx, q)" by (metis prod_cases3)
    with fresh Inr assms have "s' = s3 \<and> (fx = gx \<or> fx = gx @ [sb_send_delayed s3 SB_FundCommitAddr 1000])"
      by (auto simp: sb_on_kex_done_def s2_def Let_def split: sum.splits)
    with sb_start_facts [OF g] f show ?thesis by (auto simp: sb_frame_def sb_send_delayed_def)
  qed
qed

lemma sb_kex_tagged:
  "tagged sb_restart_gen (sb_restart_gen s) (sb_on_kex_proposal v resp s)"
  "tagged sb_restart_gen (sb_restart_gen s) (sb_on_kex_done v resp s)"
  by (auto simp: tagged_def sb_frame_def dest!: sb_kex_proposal_facts sb_kex_done_facts
      split: prod.splits)

lemma sb_fund_tagged: "tagged sb_restart_gen (sb_restart_gen s) (sb_on_fund_commit_addr v s)"
  by (simp add: sb_on_fund_commit_addr_def tagged_def sb_send_delayed_def Let_def
      split: sum.split option.split)

lemma sb_commit_tagged: "tagged sb_restart_gen (sb_restart_gen s) (sb_on_try_to_commit v s)"
  by (simp add: sb_on_try_to_commit_def tagged_def sb_send_delayed_def Let_def
      split: sum.split option.split)

lemma sb_head_open_keeps:
  assumes "sb_on_head_open s = (s', fx)"
  shows "sb_restart_gen s' = sb_restart_gen s \<and> sb_kex_restart_gen s' = sb_kex_restart_gen s \<and>
    sb_awaiting_l2_confirmation s' = sb_awaiting_l2_confirmation s \<and>
    sb_hydra_head_open s' \<and> sb_head_open_initialized s' \<and>
    (\<forall>f\<in>set fx. effect_tags f \<subseteq> {sb_restart_gen s}) \<and> (\<forall>a m. Do (S_Send_Tx a m) \<notin> set fx)"
  using assms by (auto simp: sb_on_head_open_def sb_send_delayed_def Let_def split: if_splits)

lemma sb_monitor_tagged:
  "tagged sb_restart_gen (sb_restart_gen s) (sb_on_wait_for_open v s)"
  "tagged sb_restart_gen (sb_restart_gen s) (sb_on_monitor_states v s)"
  "tagged sb_restart_gen (sb_restart_gen s) (sb_on_monitor_credits v s)"
  by (auto simp: sb_on_wait_for_open_def sb_on_monitor_states_def sb_on_monitor_credits_def
      sb_on_head_open_def sb_credit_balance_def tagged_def sb_send_delayed_def Let_def
      split: sum.splits option.splits)

lemma sb_pay_tagged:
  "tagged sb_restart_gen (sb_restart_gen s) (sb_on_account_one_request v s)"
  "tagged sb_restart_gen (sb_restart_gen s) (sb_on_send_prepay v s)"
  "tagged sb_restart_gen (sb_restart_gen s) (sb_on_wait_for_l2_tx v i a m r s)"
  by (simp_all add: sb_on_account_one_request_def sb_on_send_prepay_def sb_on_wait_for_l2_tx_def
      tagged_def sb_send_delayed_def Let_def split: sum.split option.split)

lemma sb_process_event_tagged:
  "tagged sb_restart_gen (if e = SB_Restart then sb_restart_gen s + 1 else sb_restart_gen s)
     (sb_process_event v e s)"
proof (cases e)
  case SB_Terminate
  then show ?thesis
    by (auto simp: sb_on_terminate_def sb_stop_hydra_node_def tagged_def split: option.splits)
qed (simp_all add: sb_restart_tagged sb_kex_tagged sb_fund_tagged sb_commit_tagged
      sb_monitor_tagged sb_pay_tagged)

interpretation sb: hydra_actor sb_restart_gen sb_process_event SB_Restart sb_breaks
  by (rule hydra_actorI) (rule sb_process_event_tagged)

section \<open>The account refines its specification\<close>

interpretation sb_account: prepaid_account sb_credits_available sb_credits_last_balance
  "\<lambda>_. pp_lovelace_per_request p" "\<lambda>_. pp_requests_per_microtransaction p" "sb_credit_balance p"
  for p
proof
  fix b :: u64 and s :: sb_state
  show "(sb_credits_available (sb_credit_balance p b s), sb_credits_last_balance (sb_credit_balance p b s)) =
    account_poll (pp_lovelace_per_request p) (pp_requests_per_microtransaction p) b
      (sb_credits_available s, sb_credits_last_balance s)"
    by (auto simp: sb_credit_balance_def account_poll_def Let_def word_gt_0 not_le not_less div_word_less)
qed simp_all

end
