(* ===== verification/Hydra_Handlings.thy ===== *)
theory Hydra_Handlings
  imports Hydra_Actor
begin

text \<open>
  What an actor has handled along a run, and the rule that bounds how often it handles the
  events of one kind: no more than were scheduled, when nobody sends them from outside.
\<close>

section \<open>The handled events of a run\<close>

text \<open>One entry per turn of the event loop: the environment, the event and the state it was
  handled in.\<close>

definition turn_of :: "('v, 'e) label \<Rightarrow> ('s, 'e, 'x) actor \<Rightarrow> ('v \<times> 'e \<times> 's) list" where
  "turn_of l a =
     (case l of Recv v \<Rightarrow> (case ac_queue a of e # q \<Rightarrow> [(v, e, ac_state a)] | [] \<Rightarrow> []) | _ \<Rightarrow> [])"

fun turns ::
  "('s \<Rightarrow> u64) \<Rightarrow> ('v \<Rightarrow> 'e \<Rightarrow> 's \<Rightarrow> ('s, 'e, 'x) handled) \<Rightarrow> 'e \<Rightarrow> ('e \<Rightarrow> bool) \<Rightarrow>
   ('v, 'e) label list \<Rightarrow> ('s, 'e, 'x) actor \<Rightarrow> ('v \<times> 'e \<times> 's) list" where
  "turns gen handle restart breaks [] a = []"
| "turns gen handle restart breaks (l # ls) a =
     (case actor_exec gen handle restart breaks l a of
        None \<Rightarrow> []
      | Some b \<Rightarrow> turn_of l a @ turns gen handle restart breaks ls b)"

text \<open>How many events of a kind the actor holds, in its channel, in waiting and sleeping tasks
  and in effects still to be performed.\<close>

definition held_count :: "('e \<Rightarrow> bool) \<Rightarrow> ('s, 'e, 'x) actor \<Rightarrow> nat" where
  "held_count P a = length (filter P (ac_queue a)) + length (filter (\<lambda>(e, w). P e) (ac_blocked a)) +
     length (filter (\<lambda>(g, e). P e) (ac_timers a)) + length (filter (emits P) (ac_outbox a))"

definition turn_counts :: "('v \<times> 'e \<times> 's \<Rightarrow> bool) \<Rightarrow> ('v \<times> 'e \<times> 's) list \<Rightarrow> nat" where
  "turn_counts P ts = length (filter P ts)"

section \<open>No step but the handler multiplies an event\<close>

lemma filter_remove_nth:
  assumes "i < length xs"
  shows "length (filter P xs) = length (filter P (remove_nth i xs)) + (if P (xs ! i) then 1 else 0)"
proof -
  have "xs = take i xs @ xs ! i # drop (Suc i) xs" using assms by (rule id_take_nth_drop)
  then have "filter P xs = filter P (take i xs @ xs ! i # drop (Suc i) xs)" by simp
  then show ?thesis by (simp add: remove_nth_def)
qed

lemma held_count_offer: "held_count P (offer e w a) \<le> held_count P a + (if P e then 1 else 0)"
  by (simp add: offer_def held_count_def enqueue_def)

lemma held_count_fire:
  assumes "fire_timer gen i a = Some b"
  shows "held_count P b \<le> held_count P a"
proof -
  from assms obtain g e where i: "i < length (ac_timers a)" "ac_timers a ! i = (g, e)"
    and b: "b = (if g = gen (ac_state a) then offer e False (a\<lparr>ac_timers := remove_nth i (ac_timers a)\<rparr>)
        else a\<lparr>ac_timers := remove_nth i (ac_timers a)\<rparr>)"
    by (auto simp: fire_timer_def Let_def split: if_splits prod.splits)
  let ?a = "a\<lparr>ac_timers := remove_nth i (ac_timers a)\<rparr>"
  have "held_count P ?a + (if P e then 1 else 0) = held_count P a"
    using filter_remove_nth [OF i(1), of "\<lambda>(g, e). P e"] i(2) by (simp add: held_count_def)
  with held_count_offer [of P e False ?a] b show ?thesis by auto
qed

lemma held_count_unblock:
  assumes "unblock i a = Some b"
  shows "held_count P b \<le> held_count P a"
proof -
  from assms have i: "i < length (ac_blocked a)" by (auto simp: unblock_def split: if_splits)
  have "length (filter (\<lambda>(e, w). P e) (ac_blocked a)) =
      length (filter (\<lambda>(e, w). P e) (remove_nth i (ac_blocked a))) +
      (if P (fst (ac_blocked a ! i)) then 1 else 0)"
    using filter_remove_nth [OF i, of "\<lambda>(e, w). P e"] by (simp add: case_prod_beta)
  with assms i show ?thesis
    by (auto simp: unblock_def held_count_def enqueue_def Let_def split: if_splits)
qed

lemma held_count_perform:
  assumes "perform a = Some b"
  shows "held_count P b \<le> held_count P a"
proof -
  from assms obtain f fx where f: "ac_outbox a = f # fx"
    and p: "perform_effect f (a\<lparr>ac_outbox := fx\<rparr>) = Some b"
    by (auto simp: perform_def split: list.splits)
  have "length (filter (\<lambda>(e, w). P e) (filter (\<lambda>(e, w). \<not> w) xs)) \<le>
      length (filter (\<lambda>(e, w). P e) xs)" for xs :: "('b \<times> bool) list"
    by (induction xs) auto
  with f p show ?thesis
    by (cases f) (auto simp: held_count_def enqueue_def split: if_splits)
qed

lemma held_count_step:
  assumes "actor_exec gen handle restart breaks l a = Some b" and "\<And>v. l \<noteq> Recv v"
    and "\<And>e. l = Deliver e \<Longrightarrow> \<not> P e" and "\<not> P restart"
  shows "held_count P b \<le> held_count P a"
proof (cases l)
  case (Fire i)
  with assms(1) show ?thesis by (auto intro: held_count_fire)
next
  case (Unblock i)
  with assms(1) show ?thesis by (auto intro: held_count_unblock)
next
  case Perform
  with assms(1) show ?thesis by (auto intro: held_count_perform)
next
  case Node_Exit
  with assms(1,4) held_count_offer [of P restart True "a\<lparr>ac_watchdog := None\<rparr>"] show ?thesis
    by (auto simp: node_exit_def held_count_def Let_def split: option.splits if_splits)
qed (use assms in \<open>auto simp: held_count_def enqueue_def node_lost_def split: if_splits\<close>)

lemma held_count_recv:
  assumes "recv_event handle restart breaks v a = Some b" and "\<not> P restart"
  shows "\<exists>e s' fx r. turn_of (Recv v) a = [(v, e, ac_state a)] \<and>
    handle v e (ac_state a) = (s', fx, r) \<and> ac_state b = s' \<and>
    held_count P b + (if P e then 1 else 0) = held_count P a + length (filter (emits P) fx)"
  using assms
  by (auto simp: recv_event_def turn_of_def held_count_def split: list.splits bool.splits prod.splits sum.splits)

text \<open>The rule: when every handler schedules at most one event of the kind, and only where the
  state changes as \<open>open\<close> says, no more of them are handled than such changes happened.\<close>

lemma turns_bounded:
  assumes "actor_run gen handle restart breaks ls a = Some b"
    and "\<not> P restart" and "\<And>e. Deliver e \<in> set ls \<Longrightarrow> \<not> P e" and "I (ac_state a)"
    and I: "\<And>v e s s' fx r. handle v e s = (s', fx, r) \<Longrightarrow> I s \<Longrightarrow> I s'"
    and sched: "\<And>v e s s' fx r. handle v e s = (s', fx, r) \<Longrightarrow> I s \<Longrightarrow>
       length (filter (emits P) fx) \<le> (if opens s s' then 1 else 0)"
  shows "turn_counts (\<lambda>(v, e, s). P e) (turns gen handle restart breaks ls a) + held_count P b \<le>
    held_count P a + turn_counts (\<lambda>(v, e, s). opens s (fst (handle v e s))) (turns gen handle restart breaks ls a)"
  using assms(1,3,4)
proof (induction ls arbitrary: a)
  case Nil
  then show ?case by (simp add: turn_counts_def)
next
  case (Cons l ls)
  then obtain c where c: "actor_exec gen handle restart breaks l a = Some c"
    and r: "actor_run gen handle restart breaks ls c = Some b"
    by (auto split: option.splits)
  show ?case
  proof (cases "\<exists>v. l = Recv v")
    case True
    then obtain v where l: "l = Recv v" by blast
    with c held_count_recv [of handle restart breaks v a c P] assms(2)
    obtain e s' fx x where t: "turn_of l a = [(v, e, ac_state a)]"
      and h: "handle v e (ac_state a) = (s', fx, x)" "ac_state c = s'"
      and n: "held_count P c + (if P e then 1 else 0) = held_count P a + length (filter (emits P) fx)"
      by auto
    have "I (ac_state c)" using I [OF h(1)] h(2) Cons.prems(3) by simp
    with Cons.IH [OF r] Cons.prems(2) have "turn_counts (\<lambda>(v, e, s). P e) (turns gen handle restart breaks ls c) + held_count P b \<le>
        held_count P c + turn_counts (\<lambda>(v, e, s). opens s (fst (handle v e s))) (turns gen handle restart breaks ls c)"
      by simp
    with n sched [OF h(1) Cons.prems(3)] h show ?thesis
      by (auto simp: c t turn_counts_def split: if_splits)
  next
    case False
    then have "turn_of l a = []" by (cases l) (auto simp: turn_of_def)
    moreover have "held_count P c \<le> held_count P a"
      by (rule held_count_step [OF c]) (use False Cons.prems(2) assms(2) in auto)
    moreover have "ac_state c = ac_state a" using live_tags_step [OF c] False by auto
    ultimately show ?thesis using Cons.IH [OF r] Cons.prems(2,3) by (auto simp: c)
  qed
qed

text \<open>A state invariant holds in the state of every turn.\<close>

lemma turns_invariant:
  assumes "(v, e, s) \<in> set (turns gen handle restart breaks ls a)" and "I (ac_state a)"
    and I: "\<And>v e s s' fx r. handle v e s = (s', fx, r) \<Longrightarrow> I s \<Longrightarrow> I s'"
  shows "I s"
  using assms(1,2)
proof (induction ls arbitrary: a)
  case (Cons l ls)
  then obtain c where c: "actor_exec gen handle restart breaks l a = Some c"
    and m: "(v, e, s) \<in> set (turn_of l a) \<or> (v, e, s) \<in> set (turns gen handle restart breaks ls c)"
    by (cases "actor_exec gen handle restart breaks l a") auto
  have "I (ac_state c)"
  proof (cases "\<exists>v. l = Recv v")
    case True
    then obtain v where "recv_event handle restart breaks v a = Some c" using c by auto
    then obtain e fx r where "handle v e (ac_state a) = (ac_state c, fx, r)"
      by (auto simp: recv_event_def split: list.splits bool.splits prod.splits sum.splits)
    with I Cons.prems(2) show ?thesis by blast
  next
    case False
    then have "ac_state c = ac_state a" using live_tags_step [OF c] by auto
    with Cons.prems(2) show ?thesis by simp
  qed
  moreover have "s = ac_state a" if "(v, e, s) \<in> set (turn_of l a)"
    using that by (auto simp: turn_of_def split: label.splits list.splits)
  ultimately show ?case using m Cons.IH Cons.prems(2) by blast
qed simp

end
