(* ===== verification/Hydra_Sdk_Correct.thy ===== *)
theory Hydra_Sdk_Correct
  imports Hydra_Sdk_Client Hydra_Handlings
begin

text \<open>
  Correctness of the SDK bridge's controller: when it pays, that it keeps polling while it
  waits, and what a restart and a key-exchange response do to its account.
\<close>

section \<open>What the handlers change\<close>

fun sb_account_event :: "sb_event \<Rightarrow> bool" where
  "sb_account_event SB_Restart = True"
| "sb_account_event SB_WaitForOpen = True"
| "sb_account_event SB_MonitorStates = True"
| "sb_account_event SB_MonitorCredits = True"
| "sb_account_event SB_AccountOneRequest = True"
| "sb_account_event SB_SendPrepay = True"
| "sb_account_event (SB_WaitForL2Tx i n m r) = True"
| "sb_account_event _ = False"

definition sb_quiet :: "sb_state \<Rightarrow> sb_handled \<Rightarrow> bool" where
  "sb_quiet s h \<longleftrightarrow> (case h of (s', fx, r) \<Rightarrow>
     sb_frame s s' \<and> (\<forall>a m. Do (S_Send_Tx a m) \<notin> set fx))"

lemma sb_quiet_fund: "sb_quiet s (sb_on_fund_commit_addr v s)"
  by (simp add: sb_on_fund_commit_addr_def sb_quiet_def sb_frame_def sb_send_delayed_def Let_def
      split: sum.split option.split)

lemma sb_quiet_commit: "sb_quiet s (sb_on_try_to_commit v s)"
  by (simp add: sb_on_try_to_commit_def sb_quiet_def sb_frame_def sb_send_delayed_def Let_def
      split: sum.split option.split)

lemma sb_quiet_others: "\<not> sb_account_event e \<Longrightarrow> sb_quiet s (sb_process_event v e s)"
proof (cases e)
  case SB_Terminate
  then show ?thesis
    by (auto simp: sb_on_terminate_def sb_stop_hydra_node_def sb_quiet_def sb_frame_def
        split: option.splits)
next
  case (SB_KeyExchangeResponse resp)
  then show ?thesis
    by (auto simp: sb_quiet_def split: prod.splits
        dest: sb_kex_proposal_facts sb_kex_done_facts)
qed (simp_all add: sb_quiet_fund sb_quiet_commit)

text \<open>A restart bumps both generations; it resets the account only when it succeeds.\<close>

lemma sb_restart_facts:
  assumes "sb_on_restart v s = (s', fx, r)"
  shows "sb_restart_gen s' = sb_restart_gen s + 1 \<and> sb_kex_restart_gen s' = sb_restart_gen s + 1 \<and>
    (\<forall>a m. Do (S_Send_Tx a m) \<notin> set fx) \<and>
    (r = Inr () \<longrightarrow> \<not> sb_hydra_head_open s' \<and> \<not> sb_head_open_initialized s' \<and>
       sb_credits_available s' = 0 \<and> sb_accounted_requests s' = 0 \<and>
       \<not> sb_awaiting_l2_confirmation s' \<and> \<not> sb_prepay_sent s') \<and>
    (r \<noteq> Inr () \<longrightarrow> sb_hydra_head_open s' = sb_hydra_head_open s \<and>
       sb_head_open_initialized s' = sb_head_open_initialized s \<and>
       sb_credits_available s' = sb_credits_available s \<and>
       sb_awaiting_l2_confirmation s' = sb_awaiting_l2_confirmation s)"
  using assms
  by (auto simp: sb_on_restart_def sb_stop_hydra_node_def Let_def split: sum.splits if_splits option.splits)

definition sb_flags_ok :: "sb_state \<Rightarrow> bool" where
  "sb_flags_ok s \<longleftrightarrow> sb_restart_gen s = sb_kex_restart_gen s \<and>
     (sb_hydra_head_open s \<longleftrightarrow> sb_head_open_initialized s)"

lemma sb_credit_balance_keeps:
  "sb_restart_gen (sb_credit_balance p b s) = sb_restart_gen s"
  "sb_kex_restart_gen (sb_credit_balance p b s) = sb_kex_restart_gen s"
  "sb_hydra_head_open (sb_credit_balance p b s) = sb_hydra_head_open s"
  "sb_head_open_initialized (sb_credit_balance p b s) = sb_head_open_initialized s"
  "sb_awaiting_l2_confirmation (sb_credit_balance p b s) = sb_awaiting_l2_confirmation s"
  "sb_credits_last_balance (sb_credit_balance p b s) = b"
  by (auto simp: sb_credit_balance_def Let_def word_gt_0)

lemmas sb_account_defs =
  sb_on_wait_for_open_def sb_on_monitor_states_def sb_on_monitor_credits_def
  sb_on_account_one_request_def sb_on_send_prepay_def sb_on_wait_for_l2_tx_def
  sb_credit_balance_keeps sb_send_delayed_def Let_def

lemma sb_flags_step:
  assumes "sb_process_event v e s = (s', fx, r)" and "sb_flags_ok s"
  shows "sb_flags_ok s'"
proof (cases "sb_account_event e")
  case False
  with sb_quiet_others [of e s v] assms show ?thesis
    by (simp add: sb_quiet_def sb_frame_def sb_flags_ok_def)
next
  case True
  then show ?thesis
  proof (cases e)
    case SB_Restart
    with assms sb_restart_facts [of v s s' fx r] show ?thesis
      by (cases "r = Inr ()") (auto simp: sb_flags_ok_def)
  qed (use assms in \<open>auto simp: sb_account_defs sb_on_head_open_def sb_flags_ok_def
      split: if_splits sum.splits option.splits\<close>)
qed

section \<open>What is on its way\<close>

fun sb_confirms :: "sb_event \<Rightarrow> bool" where
  "sb_confirms SB_Restart = True"
| "sb_confirms (SB_WaitForL2Tx i n m r) = True"
| "sb_confirms _ = False"

fun sb_watches :: "sb_event \<Rightarrow> bool" where
  "sb_watches SB_Restart = True"
| "sb_watches SB_MonitorStates = True"
| "sb_watches _ = False"

fun sb_counts :: "sb_event \<Rightarrow> bool" where
  "sb_counts SB_Restart = True"
| "sb_counts SB_MonitorCredits = True"
| "sb_counts _ = False"

lemma sb_confirming_step:
  assumes "sb_process_event v e s = (s', fx, Inr ())" and "sb_awaiting_l2_confirmation s'"
  shows "(\<exists>f\<in>set fx. emits sb_confirms f) \<or> (sb_awaiting_l2_confirmation s \<and> \<not> sb_confirms e)"
proof (cases "sb_account_event e")
  case False
  with sb_quiet_others [of e s v] assms show ?thesis
    by (cases e) (auto simp: sb_quiet_def sb_frame_def)
next
  case True
  then show ?thesis
  proof (cases e)
    case SB_Restart
    with assms sb_restart_facts [of v s s' fx "Inr ()"] show ?thesis by simp
  qed (use assms in \<open>auto simp: sb_account_defs sb_on_head_open_def
      split: if_splits sum.splits option.splits\<close>)
qed

lemma sb_watching_step:
  assumes "sb_process_event v e s = (s', fx, Inr ())" and "sb_hydra_head_open s'"
  shows "(\<exists>f\<in>set fx. emits sb_watches f) \<or> (sb_hydra_head_open s \<and> \<not> sb_watches e)"
proof (cases "sb_account_event e")
  case False
  with sb_quiet_others [of e s v] assms show ?thesis
    by (cases e) (auto simp: sb_quiet_def sb_frame_def)
next
  case True
  then show ?thesis
  proof (cases e)
    case SB_Restart
    with assms sb_restart_facts [of v s s' fx "Inr ()"] show ?thesis by simp
  qed (use assms in \<open>auto simp: sb_account_defs sb_on_head_open_def
      split: if_splits sum.splits option.splits\<close>)
qed

lemma sb_counting_step:
  assumes "sb_process_event v e s = (s', fx, Inr ())" and "sb_flags_ok s" and "sb_hydra_head_open s'"
  shows "(\<exists>f\<in>set fx. emits sb_counts f) \<or> (sb_hydra_head_open s \<and> \<not> sb_counts e)"
proof (cases "sb_account_event e")
  case False
  with sb_quiet_others [of e s v] assms show ?thesis
    by (cases e) (auto simp: sb_quiet_def sb_frame_def)
next
  case True
  then show ?thesis
  proof (cases e)
    case SB_Restart
    with assms sb_restart_facts [of v s s' fx "Inr ()"] show ?thesis by simp
  qed (use assms in \<open>auto simp: sb_account_defs sb_on_head_open_def sb_flags_ok_def
      split: if_splits sum.splits option.splits\<close>)
qed

section \<open>The running controller\<close>

definition sb_boot :: "string \<Rightarrow> string \<Rightarrow> json \<Rightarrow> (sb_state, sb_event, sdk_call) actor" where
  "sb_boot skey dir vkey = actor_spawn SB_Restart (sb_init skey dir vkey)"

definition sb_run :: "(sdk_env, sb_event) label list \<Rightarrow> (sb_state, sb_event, sdk_call) actor \<Rightarrow>
    (sb_state, sb_event, sdk_call) actor option" where
  "sb_run = actor_run sb_restart_gen sb_process_event SB_Restart sb_breaks"

definition sb_reachable :: "(sb_state, sb_event, sdk_call) actor \<Rightarrow>
    (sb_state, sb_event, sdk_call) actor \<Rightarrow> bool" where
  "sb_reachable = actor_reach sb_restart_gen sb_process_event SB_Restart sb_breaks"

lemma sb_run_reachable: "sb_run ls a = Some b \<Longrightarrow> sb_reachable a b"
  unfolding sb_run_def sb_reachable_def by (rule actor_run_reach [OF _ reach_refl])

definition calm_sdk_env :: sdk_env where
  "calm_sdk_env =
     \<lparr>se_fl = id, se_this_host = ''b'', se_lovelace_on_skey = (\<lambda>_. Inr 1000000000),
      se_gen_hydra_keys = Inr (), se_read_hydra_vk = Inr JNull, se_kex_send = Inr (),
      se_port_free = (\<lambda>_. Inr True), se_address_of_vkey = (\<lambda>_. Inr ''gw''),
      se_address_of_skey = (\<lambda>_. Inr ''addr''), se_skey_exists = True, se_new_keypair = Inr (),
      se_fund_address = Inr (), se_head = Inr (JObj [(''tag'', JStr ''Open'')]),
      se_commit = Inr (), se_send_tx = Inr [''tx#0''], se_snapshot = Inr (JObj []),
      se_free_port1 = Inr 4001, se_free_port2 = Inr 4002, se_write_params = Inr (),
      se_write_hydra_vk = Inr (), se_write_cardano_vk = Inr (), se_write_project_id = Inr (),
      se_spawn = Inr (Some 77)\<rparr>"

lemma calm_sdk_env_simps [simp]:
  "se_lovelace_on_skey calm_sdk_env a = Inr 1000000000"
  "se_gen_hydra_keys calm_sdk_env = Inr ()" "se_read_hydra_vk calm_sdk_env = Inr JNull"
  "se_kex_send calm_sdk_env = Inr ()"
  "se_head calm_sdk_env = Inr (JObj [(''tag'', JStr ''Open'')])"
  "se_snapshot calm_sdk_env = Inr (JObj [])" "se_send_tx calm_sdk_env = Inr [''tx#0'']"
  by (simp_all add: calm_sdk_env_def)

definition sb_demo_boot :: "(sb_state, sb_event, sdk_call) actor" where
  "sb_demo_boot = sb_boot ''k'' ''/cfg'' JNull"

lemmas sb_eval =
  actor_run.simps actor_exec.simps perform_def recv_event_def fire_timer_def offer_def
  enqueue_def room_def event_capacity_def remove_nth_def sb_run_def sb_boot_def sb_init_def
  actor_spawn_def sb_demo_boot_def sb_stop_hydra_node_def sb_send_delayed_def sb_breaks_def Let_def

section \<open>Properties\<close>

text \<open>C12: The SDK bridge never waits for something nobody will send: while it awaits a confirmation a
  poll of it is on its way, and while the head is open both the next look at the head's state
  and the next poll of the balance, or a restart.\<close>

theorem sb_never_stuck:
  assumes "sb_reachable (sb_boot skey dir vkey) b"
  shows "\<not> ac_stopped b \<longrightarrow>
    (sb_awaiting_l2_confirmation (ac_state b) \<longrightarrow> pending sb_restart_gen sb_confirms b) \<and>
    (sb_hydra_head_open (ac_state b) \<longrightarrow> pending sb_restart_gen sb_watches b \<and>
       pending sb_restart_gen sb_counts b)"
proof -
  note r = assms(1) [unfolded sb_reachable_def sb_boot_def]
  have "pending sb_restart_gen sb_confirms b"
    if "sb_awaiting_l2_confirmation (ac_state b)" "\<not> ac_stopped b"
    by (rule sb.pending_reach [OF r, where Q = sb_awaiting_l2_confirmation])
      (use that sb_confirming_step in simp_all)
  moreover have "pending sb_restart_gen sb_watches b"
    if "sb_hydra_head_open (ac_state b)" "\<not> ac_stopped b"
    by (rule sb.pending_reach [OF r, where Q = sb_hydra_head_open])
      (use that sb_watching_step in simp_all)
  moreover have "pending sb_restart_gen sb_counts b"
    if "sb_hydra_head_open (ac_state b)" "\<not> ac_stopped b"
    by (rule sb.pending_reach_inv [OF r, where Q = sb_hydra_head_open and I = sb_flags_ok])
      (use that sb_counting_step sb_flags_step in \<open>simp_all add: sb_init_def sb_flags_ok_def\<close>)
  ultimately show ?thesis by blast
qed

theorem sb_never_stuck_witness:
  "\<exists>b. sb_reachable sb_demo_boot b \<and> pending sb_restart_gen sb_counts b \<and>
     sb_hydra_head_open (ac_state b)"
proof -
  let ?ls = "[Recv calm_sdk_env, Perform, Deliver SB_WaitForOpen, Recv calm_sdk_env]"
  have "\<exists>b. sb_run ?ls sb_demo_boot = Some b \<and> \<not> ac_stopped b \<and> sb_hydra_head_open (ac_state b)"
    by (simp add: sb_eval sb_on_restart_def sb_on_wait_for_open_def sb_on_head_open_def
        MIN_FUEL_LOVELACE_def)
  then obtain b where b: "sb_run ?ls sb_demo_boot = Some b" "\<not> ac_stopped b"
    "sb_hydra_head_open (ac_state b)" by blast
  from sb_run_reachable [OF b(1)] have r: "sb_reachable sb_demo_boot b" .
  with sb_never_stuck [of "''k''" "''/cfg''" JNull b] b show ?thesis by (auto simp: sb_demo_boot_def)
qed

text \<open>The check that discards key-exchange responses of an older round never fires: the captured
  generation is overwritten together with the generation itself, so in every reachable state
  the two agree, whatever round a response belongs to.\<close>

theorem sb_stale_kex_never_discarded:
  assumes "sb_reachable (sb_boot skey dir vkey) b"
  shows "sb_restart_gen (ac_state b) = sb_kex_restart_gen (ac_state b) \<and>
    sb_hydra_head_open (ac_state b) = sb_head_open_initialized (ac_state b)"
proof -
  have "sb_flags_ok (sb_init skey dir vkey)" by (simp add: sb_init_def sb_flags_ok_def)
  then have "sb_flags_ok (ac_state b)"
    using assms [unfolded sb_reachable_def sb_boot_def] sb_flags_step
    by - (rule sb.state_invariant [where I = sb_flags_ok], auto)
  then show ?thesis by (simp add: sb_flags_ok_def)
qed

theorem sb_stale_kex_never_discarded_witness:
  "\<exists>b. sb_run [Recv calm_sdk_env, Perform, Deliver SB_Restart, Recv calm_sdk_env] sb_demo_boot = Some b \<and>
     sb_restart_gen (ac_state b) = 2 \<and> sb_kex_restart_gen (ac_state b) = 2"
proof -
  let ?ls = "[Recv calm_sdk_env, Perform, Deliver SB_Restart, Recv calm_sdk_env]"
  have "\<exists>b. sb_run ?ls sb_demo_boot = Some b \<and> sb_restart_gen (ac_state b) = 2"
    by (simp add: sb_eval sb_on_restart_def MIN_FUEL_LOVELACE_def)
  then obtain b where b: "sb_run ?ls sb_demo_boot = Some b" "sb_restart_gen (ac_state b) = 2" by blast
  from sb_stale_kex_never_discarded [OF sb_run_reachable [OF b(1) [unfolded sb_demo_boot_def]]] b
  show ?thesis by auto
qed

text \<open>What a payment is due for, whatever the state.\<close>

lemma sb_payment_due:
  assumes "sb_process_event v e s = (s', fx, r)" and "Do (S_Send_Tx a m) \<in> set fx"
  shows "a = sb_gateway_payment_addr s \<and>
    ((\<exists>p. e = SB_AccountOneRequest \<and> sb_payment_params s = Some p \<and> sb_hydra_head_open s \<and>
        \<not> sb_awaiting_l2_confirmation s \<and>
        pp_requests_per_microtransaction p \<le> sb_accounted_requests s + 1 \<and>
        m = (sb_accounted_requests s + 1) * pp_lovelace_per_request p) \<or>
     (\<exists>p. e = SB_SendPrepay \<and> sb_payment_params s = Some p \<and> \<not> sb_prepay_sent s \<and>
        m = pp_requests_per_microtransaction p * pp_lovelace_per_request p \<and>
        (r = Inr () \<longrightarrow> sb_prepay_sent s')) \<or>
     (\<exists>inputs n left utxo. e = SB_WaitForL2Tx inputs n m left \<and> 15 \<le> n \<and> 0 < left \<and>
        se_snapshot v = Inr utxo \<and> still_present inputs utxo))"
proof (cases "sb_account_event e")
  case False
  with sb_quiet_others [of e s v] assms show ?thesis by (simp add: sb_quiet_def)
next
  case True
  then show ?thesis
  proof (cases e)
    case SB_Restart
    with assms sb_restart_facts [of v s s' fx r] show ?thesis by auto
  next
    case (SB_WaitForL2Tx i n m' l)
    with assms show ?thesis
      by (auto simp: sb_on_wait_for_l2_tx_def sb_send_delayed_def Let_def
          L2_TX_MAX_POLL_ATTEMPTS_def split: if_splits sum.splits)
  qed (use assms in \<open>auto simp: sb_account_defs sb_on_head_open_def
      split: if_splits sum.splits option.splits\<close>)
qed

text \<open>Prepayments are scheduled where the head opens, and nowhere else.\<close>

fun sb_prepays :: "sb_event \<Rightarrow> bool" where
  "sb_prepays SB_SendPrepay = True"
| "sb_prepays _ = False"

definition sb_opens :: "sb_state \<Rightarrow> sb_state \<Rightarrow> bool" where
  "sb_opens s s' \<longleftrightarrow> \<not> sb_hydra_head_open s \<and> sb_hydra_head_open s'"

lemma sb_start_no_prepay:
  "sb_start_hydra_node v resp s = (s', fx, r) \<Longrightarrow> f \<in> set fx \<Longrightarrow> \<not> emits sb_prepays f"
  by (auto simp: sb_start_hydra_node_def sb_stop_hydra_node_def Let_def filter_empty_conv
      split: sum.splits option.splits)

lemma sb_quiet_no_prepay:
  assumes "sb_process_event v e s = (s', fx, r)" and "\<not> sb_opens s s'" and "sb_flags_ok s"
  shows "filter (emits sb_prepays) fx = []"
proof (cases e)
  case (SB_KeyExchangeResponse resp)
  with assms(1) show ?thesis
    by (auto simp: sb_on_kex_proposal_def sb_on_kex_done_def Let_def filter_empty_conv
        sb_send_delayed_def split: sum.splits option.splits if_splits prod.splits
        dest: sb_start_no_prepay)
qed (use assms in \<open>auto simp: sb_account_defs sb_on_head_open_def sb_on_restart_def sb_on_terminate_def
      sb_stop_hydra_node_def sb_on_fund_commit_addr_def sb_on_try_to_commit_def sb_opens_def
      sb_flags_ok_def filter_empty_conv split: if_splits sum.splits option.splits\<close>)

lemma sb_opening:
  assumes "sb_process_event v e s = (s', fx, r)" and "sb_opens s s'"
  shows "(e = SB_WaitForOpen \<or> e = SB_MonitorStates) \<and> fetch_head_tag (se_head v) = Inr ''Open'' \<and>
    length (filter (emits sb_prepays) fx) \<le> 1"
proof (cases "sb_account_event e")
  case False
  with sb_quiet_others [of e s v] assms show ?thesis by (simp add: sb_quiet_def sb_frame_def sb_opens_def)
next
  case True
  then show ?thesis
  proof (cases e)
    case SB_Restart
    with assms sb_restart_facts [of v s s' fx r] show ?thesis
      by (cases "r = Inr ()") (auto simp: sb_opens_def)
  qed (use assms in \<open>auto simp: sb_account_defs sb_on_head_open_def sb_opens_def
      split: if_splits sum.splits option.splits\<close>)
qed

lemma sb_prepay_rearmed:
  assumes "sb_process_event v e s = (s', fx, r)" and "sb_flags_ok s"
    and "sb_prepay_sent s" and "\<not> sb_prepay_sent s'"
  shows "sb_opens s s' \<or> e = SB_Restart"
proof (cases "sb_account_event e")
  case False
  with sb_quiet_others [of e s v] assms show ?thesis by (simp add: sb_quiet_def sb_frame_def)
next
  case True
  then show ?thesis
    by (cases e) (use assms in \<open>auto simp: sb_account_defs sb_on_head_open_def sb_opens_def
      sb_flags_ok_def sb_credit_balance_def split: if_splits sum.splits option.splits\<close>)
qed

definition sb_turns :: "(sdk_env, sb_event) label list \<Rightarrow> (sb_state, sb_event, sdk_call) actor \<Rightarrow>
    (sdk_env \<times> sb_event \<times> sb_state) list" where
  "sb_turns = turns sb_restart_gen sb_process_event SB_Restart sb_breaks"

lemma sb_prepay_turns:
  assumes "sb_run ls (sb_boot skey dir vkey) = Some b" and "Deliver SB_SendPrepay \<notin> set ls"
  shows "turn_counts (\<lambda>(v, e, s). sb_prepays e) (sb_turns ls (sb_boot skey dir vkey)) \<le>
    turn_counts (\<lambda>(v, e, s). sb_opens s (fst (sb_process_event v e s))) (sb_turns ls (sb_boot skey dir vkey))"
proof -
  have 1: "held_count sb_prepays (sb_boot skey dir vkey) = 0"
    by (simp add: held_count_def sb_boot_def actor_spawn_def)
  have 2: "\<not> sb_prepays e" if "Deliver e \<in> set ls" for e
    using that assms(2) by (cases e) auto
  have 3: "sb_flags_ok (ac_state (sb_boot skey dir vkey))"
    by (simp add: sb_boot_def actor_spawn_def sb_init_def sb_flags_ok_def)
  have 4: "length (filter (emits sb_prepays) fx) \<le> (if sb_opens s s' then 1 else 0)"
    if "sb_process_event v e s = (s', fx, r)" "sb_flags_ok s" for v e s s' fx r
    using sb_quiet_no_prepay [OF that(1) _ that(2)] sb_opening [OF that(1)] by auto
  have "turn_counts (\<lambda>(v, e, s). sb_prepays e) (sb_turns ls (sb_boot skey dir vkey)) + held_count sb_prepays b \<le>
    held_count sb_prepays (sb_boot skey dir vkey) +
    turn_counts (\<lambda>(v, e, s). sb_opens s (fst (sb_process_event v e s))) (sb_turns ls (sb_boot skey dir vkey))"
    unfolding sb_turns_def
    by (rule turns_bounded [where I = sb_flags_ok, OF assms(1) [unfolded sb_run_def] _ 2 3])
      (use 4 sb_flags_step in simp_all)
  with 1 show ?thesis by simp
qed

text \<open>C13: In every run of the SDK bridge's controller, every payment goes to the gateway's address
  and is a full group of accounted requests of an open head with no payment outstanding, a
  prepayment that was not made yet, or the re-submission of an unconfirmed payment for the same
  amount. No more prepayments are made than the head was seen to open, as long as nobody else sends
  the actor's own event, and a prepayment that was made is forgotten only where the head opens
  again or the controller restarts.\<close>

theorem sb_pays_only_when_due:
  assumes "sb_run ls (sb_boot skey dir vkey) = Some b" and "Deliver SB_SendPrepay \<notin> set ls"
    and "ts = sb_turns ls (sb_boot skey dir vkey)"
  shows "(\<forall>v e s s' fx r a m. (v, e, s) \<in> set ts \<longrightarrow> sb_process_event v e s = (s', fx, r) \<longrightarrow>
      Do (S_Send_Tx a m) \<in> set fx \<longrightarrow>
      a = sb_gateway_payment_addr s \<and>
      ((\<exists>p. e = SB_AccountOneRequest \<and> sb_payment_params s = Some p \<and> sb_hydra_head_open s \<and>
          \<not> sb_awaiting_l2_confirmation s \<and>
          pp_requests_per_microtransaction p \<le> sb_accounted_requests s + 1 \<and>
          m = (sb_accounted_requests s + 1) * pp_lovelace_per_request p) \<or>
       (\<exists>p. e = SB_SendPrepay \<and> sb_payment_params s = Some p \<and> \<not> sb_prepay_sent s \<and>
          m = pp_requests_per_microtransaction p * pp_lovelace_per_request p \<and>
          (r = Inr () \<longrightarrow> sb_prepay_sent s')) \<or>
       (\<exists>inputs n left utxo. e = SB_WaitForL2Tx inputs n m left \<and> 15 \<le> n \<and> 0 < left \<and>
          se_snapshot v = Inr utxo \<and> still_present inputs utxo))) \<and>
    turn_counts (\<lambda>(v, e, s). e = SB_SendPrepay \<and>
        (\<exists>a m. Do (S_Send_Tx a m) \<in> set (fst (snd (sb_process_event v e s))))) ts
      \<le> turn_counts (\<lambda>(v, e, s). sb_opens s (fst (sb_process_event v e s))) ts \<and>
    (\<forall>v e s. (v, e, s) \<in> set ts \<longrightarrow> sb_opens s (fst (sb_process_event v e s)) \<longrightarrow>
      fetch_head_tag (se_head v) = Inr ''Open'') \<and>
    (\<forall>v e s. (v, e, s) \<in> set ts \<longrightarrow> sb_prepay_sent s \<longrightarrow>
      sb_prepay_sent (fst (sb_process_event v e s)) \<or>
      sb_opens s (fst (sb_process_event v e s)) \<or> e = SB_Restart)"
proof -
  have flags: "sb_flags_ok s" if "(v, e, s) \<in> set ts" for v e s
    by (rule turns_invariant [where I = sb_flags_ok, OF that [unfolded assms(3) sb_turns_def]])
      (use sb_flags_step in \<open>simp_all add: sb_boot_def actor_spawn_def sb_init_def sb_flags_ok_def\<close>)
  have le: "turn_counts P ts \<le> turn_counts Q ts" if "\<And>t. P t \<Longrightarrow> Q t" for P Q
    unfolding turn_counts_def using that by (induction ts) auto
  have "turn_counts (\<lambda>(v, e, s). e = SB_SendPrepay \<and>
        (\<exists>a m. Do (S_Send_Tx a m) \<in> set (fst (snd (sb_process_event v e s))))) ts
      \<le> turn_counts (\<lambda>(v, e, s). sb_prepays e) ts"
    by (rule le) auto
  moreover note sb_prepay_turns [OF assms(1,2), folded assms(3)]
  ultimately have count: "turn_counts (\<lambda>(v, e, s). e = SB_SendPrepay \<and>
        (\<exists>a m. Do (S_Send_Tx a m) \<in> set (fst (snd (sb_process_event v e s))))) ts
      \<le> turn_counts (\<lambda>(v, e, s). sb_opens s (fst (sb_process_event v e s))) ts" by linarith
  have opn: "fetch_head_tag (se_head v) = Inr ''Open''"
    if "sb_opens s (fst (sb_process_event v e s))" for v e s
    using sb_opening [of v e s] that by (metis prod_cases3 fst_conv)
  have armed: "sb_prepay_sent (fst (sb_process_event v e s)) \<or>
      sb_opens s (fst (sb_process_event v e s)) \<or> e = SB_Restart"
    if "(v, e, s) \<in> set ts" "sb_prepay_sent s" for v e s
    using sb_prepay_rearmed [of v e s, OF _ flags [OF that(1)] that(2)] by (metis prod_cases3 fst_conv)
  show ?thesis using sb_payment_due count opn armed by (intro conjI allI impI) blast+
qed

theorem sb_pays_only_when_due_witness:
  "\<exists>b ls. sb_run ls sb_demo_boot = Some b \<and> S_Send_Tx ''gw'' 900000 \<in> set (ac_calls b) \<and>
    turn_counts (\<lambda>(v, e, s). e = SB_SendPrepay \<and>
        (\<exists>a m. Do (S_Send_Tx a m) \<in> set (fst (snd (sb_process_event v e s))))) (sb_turns ls sb_demo_boot)
      \<le> turn_counts (\<lambda>(v, e, s). sb_opens s (fst (sb_process_event v e s))) (sb_turns ls sb_demo_boot) \<and>
    turn_counts (\<lambda>(v, e, s). e = SB_SendPrepay) (sb_turns ls sb_demo_boot) = 1 \<and>
    turn_counts (\<lambda>(v, e, s). sb_opens s (fst (sb_process_event v e s))) (sb_turns ls sb_demo_boot) = 1"
proof -
  let ?resp = "\<lparr>br_machine_id = ''g'', br_gateway_cardano_vkey = JStr ''gc'',
      br_gateway_hydra_vkey = JStr ''gh'', br_hydra_scripts_tx_id = ''s'', br_protocol_parameters = JNull,
      br_contestation_secs = 60, br_proposed_bridge_h2h_port = 5001, br_gateway_h2h_port = 5002,
      br_kex_done = False, br_commit_ada = 5, br_lovelace_per_request = 1000,
      br_requests_per_microtransaction = 900, br_microtransactions_per_fanout = 3\<rparr>"
  let ?ls = "[Recv calm_sdk_env, Perform, Deliver (SB_KeyExchangeResponse ?resp), Recv calm_sdk_env, Perform,
      Deliver SB_WaitForOpen, Recv calm_sdk_env, Perform, Perform, Perform,
      Fire 0, Recv calm_sdk_env, Perform, Fire 1, Recv calm_sdk_env, Perform]"
  have ev: "\<exists>b. sb_run ?ls sb_demo_boot = Some b \<and> S_Send_Tx ''gw'' 900000 \<in> set (ac_calls b)"
    by (simp add: sb_eval calm_sdk_env_def sb_on_restart_def sb_on_kex_proposal_def sb_learn_gateway_addr_def
        params_of_def sb_on_wait_for_open_def sb_on_monitor_states_def sb_on_head_open_def
        sb_on_send_prepay_def MIN_FUEL_LOVELACE_def)
  have n: "turn_counts (\<lambda>(v, e, s). e = SB_SendPrepay) (sb_turns ?ls sb_demo_boot) = 1"
    "turn_counts (\<lambda>(v, e, s). sb_opens s (fst (sb_process_event v e s))) (sb_turns ?ls sb_demo_boot) = 1"
    by (simp_all add: sb_turns_def turn_of_def turn_counts_def sb_opens_def
        sb_eval calm_sdk_env_def sb_on_restart_def sb_on_kex_proposal_def sb_learn_gateway_addr_def
        params_of_def sb_on_wait_for_open_def sb_on_monitor_states_def sb_on_head_open_def
        sb_on_send_prepay_def MIN_FUEL_LOVELACE_def)
  from ev obtain b where b: "sb_run ?ls sb_demo_boot = Some b" "S_Send_Tx ''gw'' 900000 \<in> set (ac_calls b)"
    by blast
  have nd: "Deliver SB_SendPrepay \<notin> set ?ls" by simp
  show ?thesis
    using sb_pays_only_when_due [OF b(1) [unfolded sb_demo_boot_def] nd refl] b n
    unfolding sb_demo_boot_def by blast
qed

text \<open>A restart that fails before its key-exchange request is sent has already stopped the
  hydra-node but leaves the credits and the open flag as they were, so requests are still let
  through against credits of a head nobody serves.\<close>

theorem sb_failed_restart_keeps_credits:
  assumes "sb_process_event v SB_Restart s = (s', fx, Inl err)"
  shows "sb_credits_available s' = sb_credits_available s \<and>
    sb_hydra_head_open s' = sb_hydra_head_open s \<and> sb_hydra_pid s' = None"
  using assms
  by (auto simp: sb_on_restart_def sb_stop_hydra_node_def Let_def split: sum.splits if_splits option.splits)

theorem sb_failed_restart_keeps_credits_witness:
  "\<exists>s' fx err. sb_process_event (calm_sdk_env\<lparr>se_lovelace_on_skey := (\<lambda>_. Inr 0)\<rparr>) SB_Restart
      ((sb_init ''k'' ''/cfg'' JNull)\<lparr>sb_credits_available := 7, sb_hydra_head_open := True,
         sb_hydra_pid := Some 9\<rparr>) = (s', fx, Inl err) \<and>
    sb_credits_available s' = 7 \<and> sb_hydra_head_open s' \<and> sb_hydra_pid s' = None"
proof -
  let ?s = "(sb_init ''k'' ''/cfg'' JNull)\<lparr>sb_credits_available := 7, sb_hydra_head_open := True,
         sb_hydra_pid := Some 9\<rparr>"
  let ?v = "calm_sdk_env\<lparr>se_lovelace_on_skey := (\<lambda>_. Inr 0)\<rparr>"
  have "\<exists>s' fx err. sb_process_event ?v SB_Restart ?s = (s', fx, Inl err)"
    by (simp add: sb_on_restart_def sb_stop_hydra_node_def MIN_FUEL_LOVELACE_def Let_def)
  then obtain s' fx err where "sb_process_event ?v SB_Restart ?s = (s', fx, Inl err)" by blast
  with sb_failed_restart_keeps_credits [OF this] show ?thesis by auto
qed

end
