(* ===== verification/Bridge_Protocol.thy ===== *)
theory Bridge_Protocol
  imports Bridge_Manager Hydra_Bridge_Correct Hydra_Sdk_Correct
begin

text \<open>
  The gateway and the SDK bridge against each other: the two hydra-nodes they start pair up,
  and the two accounts of prepaid credits they keep agree, except after re-joining a head.
\<close>

section \<open>Command lines\<close>

text \<open>The value a hydra-node reads for an option.\<close>

fun arg_of :: "string \<Rightarrow> string list \<Rightarrow> string option" where
  "arg_of k (a # b # rest) = (if a = k then Some b else arg_of k rest)"
| "arg_of k _ = None"

text \<open>The hydra-nodes of the gateway and of the SDK bridge pair up: each listens where the other
  expects its peer, and both run the same contracts with the same contestation period.\<close>

theorem bridge_nodes_pair_up:
  "let gw = gb_hydra_node_args g; br = sb_hydra_node_args s (gb_kex_resp g) in
     arg_of ''--listen'' gw = arg_of ''--peer'' br \<and>
     arg_of ''--peer'' gw = arg_of ''--listen'' br \<and>
     arg_of ''--hydra-scripts-tx-id'' gw = arg_of ''--hydra-scripts-tx-id'' br \<and>
     arg_of ''--contestation-period'' gw = arg_of ''--contestation-period'' br \<and>
     arg_of ''--listen'' gw = Some (''127.0.0.1:'' @ show_u16 (br_gateway_h2h_port (gb_kex_resp g)))"
  by (simp add: gb_hydra_node_args_def sb_hydra_node_args_def Let_def)

section \<open>The two accounts\<close>

definition sb_poll_balances :: "payment_params \<Rightarrow> u64 list \<Rightarrow> sb_state \<Rightarrow> sb_state" where
  "sb_poll_balances p bs s = fold (sb_credit_balance p) bs s"

text \<open>C10: Under the terms a key exchange agreed on, and whatever each end has counted before, the gateway
  and the SDK bridge add the same number of credits from the first balance that both poll on, and
  then remember the same balance. Counted from before that first poll, they add the same number if
  they remembered the same balance then (they need not, when one of them has restarted).\<close>

theorem bridge_accounts_agree:
  assumes "bm_run c ls (bm_new (bc_toml c)) = Some m"
    and "(req, resp) \<in> set (bm_controllers m)" and "gb_toml g = bc_toml c"
    and "g1 = gb_poll_balances [b] g" and "s1 = sb_poll_balances (params_of resp) [b] s"
    and "gn = gb_poll_balances (b # bs) g" and "sn = sb_poll_balances (params_of resp) (b # bs) s"
  shows "gb_credits_available gn - gb_credits_available g1 =
      sb_credits_available sn - sb_credits_available s1 \<and>
    gb_credits_last_balance gn = sb_credits_last_balance sn \<and>
    (gb_credits_last_balance g = sb_credits_last_balance s \<longrightarrow>
      gb_credits_available gn - gb_credits_available g =
        sb_credits_available sn - sb_credits_available s)"
proof -
  have "bm_ok c (unat (ht_max_concurrent_hydra_nodes (bc_toml c))) (bm_new (bc_toml c))"
    by (simp add: bm_ok_def bm_new_def bm_capacity_def)
  from bm_run_ok [OF assms(1) this] assms(2) have "bkex_terms c (req, resp)"
    by (auto simp: bm_ok_def)
  then have terms: "gb_per_request g = pp_lovelace_per_request (params_of resp)"
    "gb_per_batch g = pp_requests_per_microtransaction (params_of resp)"
    using assms(3) by (simp_all add: bkex_terms_def params_of_def gb_per_request_def gb_per_batch_def)
  have first: "gb_credits_last_balance g1 = b" "sb_credits_last_balance s1 = b"
    "gb_per_request g1 = gb_per_request g" "gb_per_batch g1 = gb_per_batch g"
    by (simp_all add: assms(4,5) gb_poll_balances_def sb_poll_balances_def gb_account.poll_balance
        sb_account.poll_balance gb_account.poll_terms)
  have rest: "gn = fold gb_credit_balance bs g1" "sn = fold (sb_credit_balance (params_of resp)) bs s1"
    "gn = fold gb_credit_balance (b # bs) g" "sn = fold (sb_credit_balance (params_of resp)) (b # bs) s"
    by (simp_all add: assms(4-7) gb_poll_balances_def sb_poll_balances_def)
  have "gb_credits_available gn - gb_credits_available g1 =
      sb_credits_available sn - sb_credits_available s1"
    unfolding rest(1,2) gb_account.fold_increment(1) sb_account.fold_increment(1)
    by (simp add: first terms)
  moreover have "gb_credits_last_balance gn = sb_credits_last_balance sn"
    unfolding rest(1,2) gb_account.fold_increment(2) sb_account.fold_increment(2)
    by (simp add: first terms)
  moreover have "gb_credits_available gn - gb_credits_available g =
      sb_credits_available sn - sb_credits_available s"
    if "gb_credits_last_balance g = sb_credits_last_balance s"
    unfolding rest(3,4) gb_account.fold_increment(1) sb_account.fold_increment(1)
    by (simp add: that terms)
  ultimately show ?thesis by blast
qed

theorem bridge_accounts_agree_witness:
  "\<exists>m req resp. bm_run bkex_demo_config
      [BM_Init bkex_demo_env bkex_demo_req,
       BM_Spawn bkex_demo_env 0 (bkex_demo_req\<lparr>bq_accepted_bridge_h2h_port := Some 5001\<rparr>)]
      (bm_new (bc_toml bkex_demo_config)) = Some m \<and> bm_controllers m = [(req, resp)] \<and>
    gb_credits_available (gb_poll_balances [840450, 3, 840453] gb_demo_state) -
      gb_credits_available (gb_poll_balances [840450] gb_demo_state) =
    sb_credits_available (sb_poll_balances (params_of resp) [840450, 3, 840453] (sb_init ''k'' ''/cfg'' JNull)) -
      sb_credits_available (sb_poll_balances (params_of resp) [840450] (sb_init ''k'' ''/cfg'' JNull)) \<and>
    gb_credits_available (gb_poll_balances [840450, 3, 840453] gb_demo_state) =
    sb_credits_available (sb_poll_balances (params_of resp) [840450, 3, 840453] (sb_init ''k'' ''/cfg'' JNull)) \<and>
    gb_credits_available (gb_poll_balances [840450, 3, 840453] gb_demo_state) = 2"
proof -
  let ?ls = "[BM_Init bkex_demo_env bkex_demo_req,
       BM_Spawn bkex_demo_env 0 (bkex_demo_req\<lparr>bq_accepted_bridge_h2h_port := Some 5001\<rparr>)]"
  have k: "unat (ht_max_concurrent_hydra_nodes (bc_toml bkex_demo_config)) = 2"
    by (simp add: bkex_demo_config_def gp_demo_toml_def)
  have "\<exists>m req resp. bm_run bkex_demo_config ?ls (bm_new (bc_toml bkex_demo_config)) = Some m \<and>
      bm_controllers m = [(req, resp)]"
    by (simp add: bm_new_def k bridge_initialize_key_exchange_def bridge_spawn_new_def
        bkex_demo_env_def bkex_demo_req_def f64_of_u64_def MIN_FUEL_LOVELACE_def remove_nth_def)
  then obtain m req resp where m: "bm_run bkex_demo_config ?ls (bm_new (bc_toml bkex_demo_config)) = Some m"
    "bm_controllers m = [(req, resp)]" by blast
  have g: "gb_toml gb_demo_state = bc_toml bkex_demo_config"
    "gb_credits_available gb_demo_state = 0" "sb_credits_available (sb_init ''k'' ''/cfg'' JNull) = 0"
    "gb_credits_last_balance gb_demo_state = sb_credits_last_balance (sb_init ''k'' ''/cfg'' JNull)"
    by (simp_all add: gb_demo_state_def gb_init_def sb_init_def bkex_demo_config_def)
  have two: "gb_credits_available (gb_poll_balances [840450, 3, 840453] gb_demo_state) = 2"
    by code_simp
  have "(req, resp) \<in> set (bm_controllers m)" using m(2) by simp
  from bridge_accounts_agree [OF m(1) this g(1) refl refl refl refl, of "840450" "[3, 840453]"
      "sb_init ''k'' ''/cfg'' JNull"] m g(2-4) two
  show ?thesis by auto
qed

text \<open>When both sides re-join a head that is already open, the gateway grants nothing for the funds
  it finds there, but the SDK bridge counts them again: it seeds its balance with zero.\<close>

theorem rejoin_accounts_diverge:
  assumes "gb_process_event vg GB_WaitForOpen g = (g1, fg1, rg1)"
    and "fetch_head_tag (he_head vg) = Inr ''Open''"
    and "lovelace_in_snapshot_for_address (he_snapshot vg) (gb_gateway_cardano_addr g) = Inr b"
    and "gb_process_event vg GB_MonitorCredits g1 = (g2, fg2, rg2)"
    and "gb_credits_available g = 0" and "\<not> gb_is_closing g"
    and "sb_process_event vs SB_WaitForOpen s = (s1, fs1, rs1)"
    and "fetch_head_tag (se_head vs) = Inr ''Open''"
    and "lovelace_in_snapshot_for_address (se_snapshot vs) (sb_gateway_payment_addr s) = Inr b"
    and "sb_process_event vs SB_MonitorCredits s1 = (s2, fs2, rs2)"
    and "\<not> sb_head_open_initialized s" and "sb_gateway_payment_addr s \<noteq> []"
    and "sb_payment_params s = Some p"
  shows "gb_credits_available g2 = 0 \<and>
    sb_credits_available s2 = b div (pp_lovelace_per_request p * pp_requests_per_microtransaction p) *
      pp_requests_per_microtransaction p"
proof
  have "g1 = g\<lparr>gb_hydra_head_open := True, gb_credits_last_balance := b, gb_received_microtransactions := 0\<rparr>"
    using assms(1-3) by (simp add: gb_on_wait_for_open_def Let_def)
  with assms(3-6) show "gb_credits_available g2 = 0"
    by (auto simp: gb_on_monitor_credits_def gb_credit_balance_def Let_def split: if_splits)
  have s1: "sb_hydra_head_open s1 \<and> sb_gateway_payment_addr s1 = sb_gateway_payment_addr s \<and>
      sb_payment_params s1 = Some p \<and> sb_credits_available s1 = 0 \<and> sb_credits_last_balance s1 = 0"
    using assms(7,8,11,13) by (auto simp: sb_on_wait_for_open_def sb_on_head_open_def Let_def)
  then have "s2 = sb_credit_balance p b s1"
    using assms(9,10,12) by (auto simp: sb_on_monitor_credits_def Let_def)
  moreover from s1 have "sb_credits_available (sb_credit_balance p b s1) =
      fst (account_poll (pp_lovelace_per_request p) (pp_requests_per_microtransaction p) b (0, 0))"
    using sb_account.poll_refines [of p b s1] by (metis fst_conv)
  ultimately show "sb_credits_available s2 =
      b div (pp_lovelace_per_request p * pp_requests_per_microtransaction p) *
      pp_requests_per_microtransaction p"
    by (simp add: account_poll_def)
qed

theorem rejoin_accounts_diverge_witness:
  "\<exists>g1 fg1 rg1 g2 fg2 rg2 s1 fs1 rs1 s2 fs2 rs2.
     gb_process_event (calm_env\<lparr>he_snapshot := Inr (paid_snapshot 840450)\<rparr>) GB_WaitForOpen gb_demo_state
       = (g1, fg1, rg1) \<and>
     gb_process_event (calm_env\<lparr>he_snapshot := Inr (paid_snapshot 840450)\<rparr>) GB_MonitorCredits g1
       = (g2, fg2, rg2) \<and> gb_credits_available g2 = 0 \<and>
     sb_process_event (calm_sdk_env\<lparr>se_snapshot := Inr (paid_snapshot 840450)\<rparr>) SB_WaitForOpen
       ((sb_init ''k'' ''/cfg'' JNull)\<lparr>sb_gateway_payment_addr := ''gw'',
         sb_payment_params := Some (params_of gb_demo_resp)\<rparr>) = (s1, fs1, rs1) \<and>
     sb_process_event (calm_sdk_env\<lparr>se_snapshot := Inr (paid_snapshot 840450)\<rparr>) SB_MonitorCredits s1
       = (s2, fs2, rs2) \<and> sb_credits_available s2 = 1"
proof -
  let ?v = "calm_env\<lparr>he_snapshot := Inr (paid_snapshot 840450)\<rparr>"
  let ?w = "calm_sdk_env\<lparr>se_snapshot := Inr (paid_snapshot 840450)\<rparr>"
  let ?s = "(sb_init ''k'' ''/cfg'' JNull)\<lparr>sb_gateway_payment_addr := ''gw'',
         sb_payment_params := Some (params_of gb_demo_resp)\<rparr>"
  obtain g1 fg1 rg1 where 1: "gb_process_event ?v GB_WaitForOpen gb_demo_state = (g1, fg1, rg1)"
    by (metis prod_cases3)
  obtain g2 fg2 rg2 where 2: "gb_process_event ?v GB_MonitorCredits g1 = (g2, fg2, rg2)"
    by (metis prod_cases3)
  obtain s1 fs1 rs1 where 3: "sb_process_event ?w SB_WaitForOpen ?s = (s1, fs1, rs1)"
    by (metis prod_cases3)
  obtain s2 fs2 rs2 where 4: "sb_process_event ?w SB_MonitorCredits s1 = (s2, fs2, rs2)"
    by (metis prod_cases3)
  have p: "pp_lovelace_per_request (params_of gb_demo_resp) = 840450"
    "pp_requests_per_microtransaction (params_of gb_demo_resp) = 1"
    by (simp_all add: params_of_def gb_demo_resp_def)
  have "gb_credits_available g2 = 0 \<and> sb_credits_available s2 = 840450 div (840450 * 1) * 1"
    using rejoin_accounts_diverge [OF 1 _ _ 2 _ _ 3 _ _ 4, of 840450 "params_of gb_demo_resp"]
    unfolding p by (simp add: gb_demo_state_def gb_init_def sb_init_def paid_snapshot_balance)
  with 1 2 3 4 show ?thesis by simp
qed

end
