(* ===== verification/Credits.thy ===== *)
theory Credits
  imports Prelude
begin

text \<open>
  The prepaid credits as the request path sees them: \<open>try_consume_credit\<close> of
  \<open>gateway/src/hydra_server_bridge/mod.rs\<close> and \<open>try_reserve_credit\<close> of
  \<open>sdk_bridge/src/hydra_client/mod.rs\<close>, the same compare-and-exchange loop over a shared
  \<open>AtomicU64\<close>. Any number of callers run concurrently with the controller, which adds credits
  (\<open>fetch_add\<close>) and resets them (\<open>store(0)\<close>). All accesses are sequentially consistent, so the
  system is an interleaving of atomic steps.
\<close>

section \<open>The system\<close>

datatype consumer =
    Starting
  | Holding u64       \<comment> \<open>the value of \<open>current\<close> at the head of the loop\<close>
  | Consumed          \<comment> \<open>returned \<open>Ok(())\<close>\<close>
  | Insufficient      \<comment> \<open>returned \<open>Err(InsufficientCredits)\<close>\<close>

record credit_system =
  cr_counter :: u64
  cr_consumers :: "consumer list"

datatype credit_label =
    CR_Call           \<comment> \<open>a new call\<close>
  | CR_Load nat       \<comment> \<open>\<open>load(SeqCst)\<close>\<close>
  | CR_Attempt nat    \<comment> \<open>one turn of the loop\<close>
  | CR_Grant u64      \<comment> \<open>\<open>fetch_add\<close>\<close>
  | CR_Reset          \<comment> \<open>\<open>store(0)\<close>\<close>

text \<open>One turn of the loop: give up on zero, else \<open>compare_exchange(current, current - 1)\<close>.\<close>

definition attempt :: "u64 \<Rightarrow> u64 \<Rightarrow> u64 \<times> consumer" where
  "attempt counter current =
     (if current = 0 then (counter, Insufficient)
      else if counter = current then (current - 1, Consumed)
      else (counter, Holding counter))"

fun credit_exec :: "credit_label \<Rightarrow> credit_system \<Rightarrow> credit_system option" where
  "credit_exec CR_Call c = Some (c\<lparr>cr_consumers := cr_consumers c @ [Starting]\<rparr>)"
| "credit_exec (CR_Load i) c =
     (if i < length (cr_consumers c) \<and> cr_consumers c ! i = Starting then
        Some (c\<lparr>cr_consumers := (cr_consumers c)[i := Holding (cr_counter c)]\<rparr>)
      else None)"
| "credit_exec (CR_Attempt i) c =
     (if i < length (cr_consumers c) then
        (case cr_consumers c ! i of
           Holding current \<Rightarrow>
             (let (n, t) = attempt (cr_counter c) current in
              Some (c\<lparr>cr_counter := n, cr_consumers := (cr_consumers c)[i := t]\<rparr>))
         | _ \<Rightarrow> None)
      else None)"
| "credit_exec (CR_Grant n) c = Some (c\<lparr>cr_counter := cr_counter c + n\<rparr>)"
| "credit_exec CR_Reset c = Some (c\<lparr>cr_counter := 0\<rparr>)"

fun credit_run :: "credit_label list \<Rightarrow> credit_system \<Rightarrow> credit_system option" where
  "credit_run [] c = Some c"
| "credit_run (l # ls) c = Option.bind (credit_exec l c) (credit_run ls)"

definition credit_start :: credit_system where
  "credit_start = \<lparr>cr_counter = 0, cr_consumers = []\<rparr>"

section \<open>Accounting\<close>

definition consumed :: "credit_system \<Rightarrow> nat" where
  "consumed c = length (filter (\<lambda>t. t = Consumed) (cr_consumers c))"

fun granted :: "credit_label list \<Rightarrow> nat" where
  "granted [] = 0"
| "granted (CR_Grant n # ls) = unat n + granted ls"
| "granted (_ # ls) = granted ls"

lemma length_filter_update:
  assumes "i < length xs"
  shows "length (filter P (xs[i := x])) + (if P (xs ! i) then 1 else 0) =
    length (filter P xs) + (if P x then 1 else 0)"
  using assms
proof (induction xs arbitrary: i)
  case (Cons y ys)
  then show ?case by (cases i) auto
qed simp

lemma consumed_update:
  "i < length (cr_consumers c) \<Longrightarrow> cr_consumers c ! i \<noteq> Consumed \<Longrightarrow>
   consumed (c\<lparr>cr_counter := n, cr_consumers := (cr_consumers c)[i := t]\<rparr>) =
   consumed c + (if t = Consumed then 1 else 0)"
  using length_filter_update [of i "cr_consumers c" "\<lambda>t. t = Consumed" t]
  by (simp add: consumed_def)

text \<open>No step but a reset loses a credit, and a caller gets at most one.\<close>

lemma credit_exec_balance:
  assumes "credit_exec l c = Some d" and "l \<noteq> CR_Reset"
    and "unat (cr_counter c) + granted [l] < 2 ^ 64"
  shows "unat (cr_counter d) + consumed d = unat (cr_counter c) + consumed c + granted [l]"
proof (cases l)
  case CR_Call
  with assms show ?thesis by (auto simp: consumed_def)
next
  case (CR_Load i)
  with assms consumed_update [where i = i and c = c and n = "cr_counter c" and t = "Holding (cr_counter c)"] show ?thesis
    by (auto split: if_splits)
next
  case (CR_Attempt i)
  with assms(1) obtain cur n t where i: "i < length (cr_consumers c)"
    "cr_consumers c ! i = Holding cur" "attempt (cr_counter c) cur = (n, t)"
    "d = c\<lparr>cr_counter := n, cr_consumers := (cr_consumers c)[i := t]\<rparr>"
    by (auto split: if_splits consumer.splits prod.splits)
  have "unat n + (if t = Consumed then 1 else 0) = unat (cr_counter c)"
  proof (cases "t = Consumed")
    case True
    with i(3) have nz: "cr_counter c \<noteq> 0" and n: "n = cr_counter c - 1"
      by (auto simp: attempt_def split: if_splits)
    have "0 < unat (cr_counter c)" using nz by (simp add: unat_gt_0)
    with True n unat_minus_one [OF nz] show ?thesis by simp
  next
    case False
    with i(3) show ?thesis by (auto simp: attempt_def split: if_splits)
  qed
  with consumed_update [where n = n and t = t, OF i(1)] i(2,4) CR_Attempt show ?thesis by simp
next
  case (CR_Grant n)
  with assms show ?thesis by (auto simp: consumed_def unat_add_no_wrap)
qed (use assms in simp)

text \<open>What the resets of a run wipe out.\<close>

fun wiped :: "credit_label list \<Rightarrow> credit_system \<Rightarrow> nat" where
  "wiped [] c = 0"
| "wiped (l # ls) c =
     (if l = CR_Reset then unat (cr_counter c) else 0) +
     (case credit_exec l c of Some d \<Rightarrow> wiped ls d | None \<Rightarrow> 0)"

lemma granted_Cons: "granted (l # ls) = granted [l] + granted ls"
  by (cases l) simp_all

text \<open>
  A grant that wraps around loses credits, so that the inequality needs no bound; below \<open>2 ^ 64\<close> it is
  an equation.
\<close>

lemma credit_exec_account:
  assumes "credit_exec l c = Some d"
  shows "unat (cr_counter d) + consumed d + wiped [l] c \<le> unat (cr_counter c) + consumed c + granted [l] \<and>
    (unat (cr_counter c) + granted [l] < 2 ^ 64 \<longrightarrow>
     unat (cr_counter d) + consumed d + wiped [l] c = unat (cr_counter c) + consumed c + granted [l])"
proof (cases "l = CR_Reset")
  case True
  with assms show ?thesis by (auto simp: consumed_def)
next
  case False
  show ?thesis
  proof (cases "unat (cr_counter c) + granted [l] < 2 ^ 64")
    case True
    with credit_exec_balance [OF assms False] assms False show ?thesis by simp
  next
    case wrap: False
    have "unat (cr_counter c) < 2 ^ 64" using unsigned_less [of "cr_counter c"] by simp
    with wrap obtain n where l: "l = CR_Grant n" by (cases l) auto
    have "unat (cr_counter c + n) \<le> unat (cr_counter c) + unat n" by (simp add: unat_word_ariths)
    with assms l wrap show ?thesis by (auto simp: consumed_def)
  qed
qed

lemma credit_run_account:
  assumes "credit_run ls c = Some d"
  shows "unat (cr_counter d) + consumed d + wiped ls c \<le> unat (cr_counter c) + consumed c + granted ls \<and>
    (unat (cr_counter c) + consumed c + granted ls < 2 ^ 64 \<longrightarrow>
     unat (cr_counter d) + consumed d + wiped ls c = unat (cr_counter c) + consumed c + granted ls)"
  using assms
proof (induction ls arbitrary: c)
  case (Cons l ls)
  then obtain e where e: "credit_exec l c = Some e" "credit_run ls e = Some d"
    by (auto simp: bind_eq_Some_conv)
  have "wiped (l # ls) c = wiped [l] c + wiped ls e" using e(1) by simp
  with Cons.IH [OF e(2)] credit_exec_account [OF e(1)] granted_Cons [of l ls] show ?case by auto
qed simp

section \<open>Progress\<close>

text \<open>A caller is stale when the value it holds is no longer the counter's.\<close>

fun active :: "consumer \<Rightarrow> bool" where
  "active (Holding n) = True"
| "active _ = False"

fun stale :: "u64 \<Rightarrow> consumer \<Rightarrow> bool" where
  "stale k (Holding n) = (n \<noteq> k)"
| "stale k _ = False"

definition attempts_left :: "credit_system \<Rightarrow> nat" where
  "attempts_left c =
     length (filter active (cr_consumers c)) * Suc (length (cr_consumers c)) +
     length (filter (stale (cr_counter c)) (cr_consumers c))"

lemma stale_le: "length (filter (stale k) ts) \<le> length (filter active ts)"
proof (induction ts)
  case (Cons t ts)
  then show ?case by (cases t) auto
qed simp

lemma attempt_decreases:
  assumes "credit_exec (CR_Attempt i) c = Some d"
  shows "attempts_left d < attempts_left c"
proof -
  let ?ts = "cr_consumers c"
  from assms obtain cur n t where i: "i < length ?ts"
    "?ts ! i = Holding cur" "attempt (cr_counter c) cur = (n, t)"
    "d = c\<lparr>cr_counter := n, cr_consumers := ?ts[i := t]\<rparr>"
    by (auto split: if_splits consumer.splits prod.splits)
  have act: "length (filter active (?ts[i := t])) + 1 = length (filter active ?ts) + (if active t then 1 else 0)"
    using length_filter_update [OF i(1), of active t] i(2) by simp
  show ?thesis
  proof (cases "active t")
    case False
    then have a: "length (filter active ?ts) = Suc (length (filter active (?ts[i := t])))" using act by simp
    have "length (filter (stale n) (?ts[i := t])) \<le> length (?ts[i := t])" by (rule length_filter_le)
    with a show ?thesis using i(4) by (simp add: attempts_left_def)
  next
    case True
    then have t: "t = Holding (cr_counter c)" "n = cr_counter c" "cur \<noteq> cr_counter c"
      using i(3) by (auto simp: attempt_def split: if_splits)
    have "length (filter (stale n) (?ts[i := t])) + 1 = length (filter (stale n) ?ts)"
      using length_filter_update [OF i(1), of "stale n" t] i(2) t by simp
    with act True t show ?thesis using i(4) by (simp add: attempts_left_def)
  qed
qed

lemma credit_run_Cons: "credit_run (l # ls) c = Some d \<longleftrightarrow> (\<exists>e. credit_exec l c = Some e \<and> credit_run ls e = Some d)"
  by (auto simp: bind_eq_Some_conv)

lemma attempts_bounded:
  assumes "credit_run (map CR_Attempt is) c = Some d"
  shows "length is + attempts_left d \<le> attempts_left c"
  using assms
proof (induction "is" arbitrary: c)
  case (Cons i "is")
  then obtain e where "credit_exec (CR_Attempt i) c = Some e" "credit_run (map CR_Attempt is) e = Some d"
    by (auto simp: bind_eq_Some_conv)
  with attempt_decreases [of i c e] Cons.IH [of e] show ?case by simp
qed simp

section \<open>Properties\<close>

text \<open>C8: No overdraft under any interleaving of calls, grants and resets: the calls that got a credit, the
  credits left and those that resets have wiped out are together never more than the credits granted, and,
  while less than \<open>2 ^ 64\<close> were granted, exactly as many.\<close>

theorem credits_never_overdrawn:
  assumes "credit_run ls credit_start = Some c"
  shows "consumed c + unat (cr_counter c) + wiped ls credit_start \<le> granted ls \<and>
    (granted ls < 2 ^ 64 \<longrightarrow> consumed c + unat (cr_counter c) + wiped ls credit_start = granted ls)"
proof -
  have "unat (cr_counter credit_start) = 0" "consumed credit_start = 0"
    by (simp_all add: credit_start_def consumed_def)
  with credit_run_account [OF assms] show ?thesis by linarith
qed

text \<open>Two calls race for one credit, and a reset then wipes out two of the next three.\<close>

theorem credits_never_overdrawn_witness:
  "\<exists>c. credit_run [CR_Grant 1, CR_Call, CR_Call, CR_Load 0, CR_Load 1, CR_Attempt 1, CR_Attempt 0,
      CR_Attempt 0, CR_Grant 2, CR_Reset, CR_Grant 1] credit_start = Some c \<and>
    cr_consumers c = [Insufficient, Consumed] \<and> consumed c + unat (cr_counter c) + 2 = 4"
proof -
  let ?ls = "[CR_Grant 1, CR_Call, CR_Call, CR_Load 0, CR_Load 1, CR_Attempt 1, CR_Attempt 0,
      CR_Attempt 0, CR_Grant 2, CR_Reset, CR_Grant 1]"
  have "\<exists>c. credit_run ?ls credit_start = Some c \<and> cr_consumers c = [Insufficient, Consumed]"
    and w: "wiped ?ls credit_start = 2"
    by (simp_all add: credit_start_def attempt_def)
  then obtain c where c: "credit_run ?ls credit_start = Some c" "cr_consumers c = [Insufficient, Consumed]"
    by blast
  from credits_never_overdrawn [OF c(1)] c w show ?thesis by auto
qed

text \<open>C15: The loop cannot go on for ever while the controller is quiet: with \<open>n\<close> calls in the loop out of
  \<open>k\<close>, at most \<open>n * (k + 1) + n\<close> turns are possible, and when none is left every call in the
  loop has returned.\<close>

theorem consume_loop_terminates:
  assumes "credit_run (map CR_Attempt is) c = Some d"
  shows "length is \<le> length (filter active (cr_consumers c)) * (length (cr_consumers c) + 2) \<and>
    ((\<exists>i. credit_exec (CR_Attempt i) d \<noteq> None) \<or> filter active (cr_consumers d) = [])"
proof
  have "length is \<le> attempts_left c" using attempts_bounded [OF assms] by simp
  also have "\<dots> \<le> length (filter active (cr_consumers c)) * (length (cr_consumers c) + 2)"
    using stale_le [of "cr_counter c" "cr_consumers c"] by (simp add: attempts_left_def)
  finally show "length is \<le> length (filter active (cr_consumers c)) * (length (cr_consumers c) + 2)" .
  show "(\<exists>i. credit_exec (CR_Attempt i) d \<noteq> None) \<or> filter active (cr_consumers d) = []"
  proof (cases "filter active (cr_consumers d)")
    case (Cons t ts)
    then have "t \<in> set (filter active (cr_consumers d))" by simp
    then have "t \<in> set (cr_consumers d) \<and> active t" by simp
    then obtain i n where "i < length (cr_consumers d)" "cr_consumers d ! i = Holding n"
      by (metis active.elims(2) in_set_conv_nth)
    then have "credit_exec (CR_Attempt i) d \<noteq> None" by (simp split: prod.splits)
    then show ?thesis by blast
  qed simp
qed

theorem consume_loop_terminates_witness:
  "\<exists>d. credit_run (map CR_Attempt [1, 0, 0]) \<lparr>cr_counter = 2, cr_consumers = [Holding 2, Holding 2]\<rparr> = Some d \<and>
     filter active (cr_consumers d) = [] \<and> (3::nat) \<le> 2 * (2 + 2)"
proof -
  let ?c = "\<lparr>cr_counter = 2, cr_consumers = [Holding 2, Holding 2]\<rparr>"
  have "\<exists>d. credit_run (map CR_Attempt [1, 0, 0]) ?c = Some d \<and> cr_consumers d = [Consumed, Consumed]"
    by (simp add: attempt_def)
  then obtain d where d: "credit_run (map CR_Attempt [1, 0, 0]) ?c = Some d" "cr_consumers d = [Consumed, Consumed]"
    by blast
  from consume_loop_terminates [OF d(1)] d show ?thesis by auto
qed

end
