(* ===== verification/Platform_Connection.thy ===== *)
theory Platform_Connection
  imports Lb_Connection
begin

text \<open>
  A platform's WebSocket connection with a gateway, \<open>event_loop::run\<close> of
  \<open>crates/platform/src/load_balancer.rs\<close>: the handler of each event, the clean-up after the loop,
  and the tasks that pass a request through the platform's own HTTP router and bring its response
  back as an event. The messages are those of \<open>Lb_Connection\<close>, whose JSON is the same.
\<close>

section \<open>State\<close>

datatype pf_event =
    PE_Gateway lb_message
  | PE_New_Response json_response
  | PE_Kex_Request kex_request
  | PE_Ping_Tick
  | PE_Socket_Error string

text \<open>\<open>pn_loop_error\<close> is the \<open>Err\<close> of \<open>loop_error\<close>, if any.\<close>

record pf_conn =
  pn_last_ping_sent_at :: "nat option"
  pn_last_ping_id :: u64
  pn_loop_error :: "string option"
  pn_tunnel_controller :: "tunnel_config option"

definition pf_conn_new :: pf_conn where
  "pf_conn_new = \<lparr>pn_last_ping_sent_at = None, pn_last_ping_id = 0, pn_loop_error = None,
     pn_tunnel_controller = None\<rparr>"

text \<open>Pings and tunnel messages are sent as messages of the gateway's type.\<close>

datatype pf_effect =
    PX_Send relay_message
  | PX_Send_As_Gateway lb_message
  | PX_Spawn_Handle_One json_request
  | PX_Kex_Response kex_response
  | PX_Schedule_Ping_Tick
  | PX_Spawn_Listener u16 tunnel_config
  | PX_Forward_Tunnel tunnel_config
  | PX_Tunnel_Msg tunnel_msg
  | PX_Terminate
  | PX_Cancel_Tunnel

record pf_env =
  pv_socket_open :: bool
  pv_now :: nat
  pv_this_host :: string
  pv_listener_error :: "string option"

text \<open>What a connection is started with: \<open>hydra_kex.is_some()\<close>.\<close>

type_synonym pf_handler = "pf_conn \<Rightarrow> (pf_conn, pf_effect) looped"

section \<open>The handlers\<close>

text \<open>\<open>send_json_msg\<close>: sent, or the error.\<close>

definition pf_send :: "pf_env \<Rightarrow> pf_effect \<Rightarrow> pf_effect list \<times> string option" where
  "pf_send v x =
     (if pv_socket_open v then ([x], None) else ([], Some ''broken connection with the load balancer''))"

text \<open>Most sends break the loop with their error.\<close>

definition pf_send_or_fail :: "pf_env \<Rightarrow> pf_effect \<Rightarrow> pf_handler" where
  "pf_send_or_fail v x s =
     (case pf_send v x of
        (fx, None) \<Rightarrow> (s, fx, True)
      | (fx, Some err) \<Rightarrow> (s\<lparr>pn_loop_error := Some err\<rparr>, fx, False))"

definition pf_on_kex_response :: "bool \<Rightarrow> pf_env \<Rightarrow> kex_response \<Rightarrow> pf_handler" where
  "pf_on_kex_response hydra_kex v resp s =
     (if \<not> hydra_kex then (s, [], True)
      else if kr_machine_id resp = pv_this_host v then (s, [PX_Kex_Response resp], True)
      else
        let cfg = \<lparr>tc_expose_port = kr_proposed_platform_h2h_port resp, tc_id_prefix_bit = True\<rparr>;
            fx = [PX_Spawn_Listener (kr_gateway_h2h_port resp) cfg]
        in case pv_listener_error v of
             Some err \<Rightarrow>
               (s\<lparr>pn_loop_error := Some (''hydra-tunnel: failed to bind listener on port '' @
                    show_u16 (kr_gateway_h2h_port resp) @ '': '' @ err)\<rparr>, fx, False)
           | None \<Rightarrow>
               (s\<lparr>pn_tunnel_controller := Some cfg\<rparr>,
                fx @ [PX_Forward_Tunnel cfg, PX_Kex_Response resp], True))"

definition pf_on_ping_tick :: "pf_env \<Rightarrow> pf_handler" where
  "pf_on_ping_tick v s =
     (case pn_last_ping_sent_at s of
        Some _ \<Rightarrow> (s\<lparr>pn_loop_error := Some ''ping timeout''\<rparr>, [], False)
      | None \<Rightarrow>
          (let s1 = s\<lparr>pn_last_ping_id := pn_last_ping_id s + 1, pn_last_ping_sent_at := Some (pv_now v)\<rparr>;
               (fx, err) = pf_send v (PX_Send_As_Gateway (LM_Ping (pn_last_ping_id s1)))
           in (s1, PX_Schedule_Ping_Tick # fx, err = None)))"

fun pf_handle :: "bool \<Rightarrow> pf_env \<Rightarrow> pf_event \<Rightarrow> pf_handler" where
  "pf_handle hydra_kex v (PE_Socket_Error err) s = (s\<lparr>pn_loop_error := Some err\<rparr>, [], False)"
| "pf_handle hydra_kex v (PE_Gateway (LM_HydraTunnel m)) s =
     (case pn_tunnel_controller s of
        Some _ \<Rightarrow> (s, [PX_Tunnel_Msg m], True)
      | None \<Rightarrow> (s, [], True))"
| "pf_handle hydra_kex v (PE_Gateway (LM_HydraKExResponse resp)) s = pf_on_kex_response hydra_kex v resp s"
| "pf_handle hydra_kex v (PE_Gateway (LM_Error code msg)) s = (s, [], True)"
| "pf_handle hydra_kex v (PE_Gateway (LM_Request q)) s = (s, [PX_Spawn_Handle_One q], True)"
| "pf_handle hydra_kex v (PE_New_Response r) s = pf_send_or_fail v (PX_Send (RM_Response r)) s"
| "pf_handle hydra_kex v (PE_Gateway (LM_Ping i)) s = pf_send_or_fail v (PX_Send (RM_Pong i)) s"
| "pf_handle hydra_kex v (PE_Gateway (LM_Pong i)) s =
     (s\<lparr>pn_last_ping_sent_at := (if i = pn_last_ping_id s then None else pn_last_ping_sent_at s)\<rparr>, [], True)"
| "pf_handle hydra_kex v PE_Ping_Tick s = pf_on_ping_tick v s"
| "pf_handle hydra_kex v (PE_Kex_Request req) s =
     (let (fx, err) = pf_send v (PX_Send (RM_HydraKExRequest req)) in (s, fx, err = None))"

definition pf_finish :: "bool \<Rightarrow> pf_effect list" where
  "pf_finish hydra_kex = (if hydra_kex then [PX_Terminate] else []) @ [PX_Cancel_Tunnel]"

section \<open>The connection as a process\<close>

text \<open>
  \<open>pp_tasks\<close> are the requests inside the router; \<open>pp_lost\<close> the ids of those that die with the
  connection, whose response nobody receives or that were still queued.
\<close>

record pf_process =
  pp_conn :: pf_conn
  pp_queue :: "pf_event list"
  pp_tasks :: "json_request list"
  pp_open :: bool
  pp_log :: "pf_effect list"
  pp_lost :: "uuid list"

datatype pf_step =
    PP_Arrive pf_event
  | PP_Answer nat "http_request \<Rightarrow> http_response option"   \<comment> \<open>the router answers a task, or times out\<close>
  | PP_Handle pf_env

text \<open>What the task of a request is started with.\<close>

record pf_config =
  pg_http :: http_lib
  pg_max_response_body_bytes :: nat
  pg_api_prefix :: "uuid option"
  pg_hydra_kex :: bool

definition ids_in :: "pf_event \<Rightarrow> uuid list" where
  "ids_in e = (case e of PE_Gateway (LM_Request q) \<Rightarrow> [jq_id q] | PE_New_Response r \<Rightarrow> [jr_id r] | _ \<Rightarrow> [])"

fun started :: "pf_effect list \<Rightarrow> json_request list" where
  "started [] = []"
| "started (PX_Spawn_Handle_One q # fx) = q # started fx"
| "started (_ # fx) = started fx"

fun pf_exec :: "pf_config \<Rightarrow> pf_step \<Rightarrow> pf_process \<Rightarrow> pf_process option" where
  "pf_exec c (PP_Arrive e) p =
     (if (case e of PE_New_Response _ \<Rightarrow> True | _ \<Rightarrow> False) then None
      else if \<not> pp_open p then Some (p\<lparr>pp_lost := pp_lost p @ ids_in e\<rparr>)
      else if length (pp_queue p) < LB_EVENT_CAPACITY then Some (p\<lparr>pp_queue := pp_queue p @ [e]\<rparr>)
      else None)"
| "pf_exec c (PP_Answer i router) p =
     (if i < length (pp_tasks p) then
        let q = pp_tasks p ! i;
            r = pf_handle_one (pg_http c) (pg_max_response_body_bytes c) (pg_api_prefix c) router q;
            p' = p\<lparr>pp_tasks := take i (pp_tasks p) @ drop (Suc i) (pp_tasks p)\<rparr>
        in if \<not> pp_open p then Some (p'\<lparr>pp_lost := pp_lost p @ [jr_id r]\<rparr>)
           else if length (pp_queue p) < LB_EVENT_CAPACITY then
             Some (p'\<lparr>pp_queue := pp_queue p @ [PE_New_Response r]\<rparr>)
           else None
      else None)"
| "pf_exec c (PP_Handle v) p =
     (if \<not> pp_open p then None
      else case pp_queue p of
             [] \<Rightarrow> None
           | e # es \<Rightarrow>
               (case pf_handle (pg_hydra_kex c) v e (pp_conn p) of (s, fx, go) \<Rightarrow>
                  if go then Some (p\<lparr>pp_conn := s, pp_queue := es, pp_tasks := pp_tasks p @ started fx,
                                     pp_log := pp_log p @ fx\<rparr>)
                  else Some (p\<lparr>pp_conn := s, pp_queue := [], pp_open := False,
                               pp_log := pp_log p @ fx @ pf_finish (pg_hydra_kex c),
                               pp_lost := pp_lost p @ ids_in e @ concat (map ids_in es)\<rparr>)))"

definition pf_start :: pf_process where
  "pf_start = \<lparr>pp_conn = pf_conn_new, pp_queue = [], pp_tasks = [], pp_open = True, pp_log = [], pp_lost = []\<rparr>"

end
