(* ===== verification/Hydra_Node.thy ===== *)
theory Hydra_Node
  imports Hydra_Actor
begin

text \<open>
  The hydra-node process a controller runs. Its state keeps the pid of the node it started; the
  locale extends the interface of the event loop by what the handlers promise about it, and proves
  that a controller never starts a second node before it has killed the group of the first one,
  and kills nothing else. The events and calls an actor holds at a moment are defined here, too.
\<close>

section \<open>Node calls\<close>

fun calls_of :: "('e, 'x) effect list \<Rightarrow> 'x list" where
  "calls_of [] = []"
| "calls_of (Do x # fx) = x # calls_of fx"
| "calls_of (_ # fx) = calls_of fx"

lemma calls_of_append [simp]: "calls_of (fx @ gx) = calls_of fx @ calls_of gx"
  by (induction fx rule: calls_of.induct) simp_all

text \<open>
  \<open>node_trace kills spawns xs n m\<close>: the calls \<open>xs\<close> are possible when the node \<open>n\<close> is running
  (none, or the one with this pid), and leave \<open>m\<close> running. A kill must name the pid that the runtime
  returned for the last start, and a start must find no node running and have got a pid.
\<close>

fun node_trace :: "('x \<Rightarrow> u32 option) \<Rightarrow> ('x \<Rightarrow> u32 option option) \<Rightarrow> 'x list \<Rightarrow> u32 option \<Rightarrow> u32 option \<Rightarrow> bool" where
  "node_trace kills spawns [] n m \<longleftrightarrow> m = n"
| "node_trace kills spawns (x # xs) n m \<longleftrightarrow>
     (case kills x of
        Some p \<Rightarrow> n = Some p \<and> node_trace kills spawns xs None m
      | None \<Rightarrow>
          (case spawns x of
             Some (Some p) \<Rightarrow> n = None \<and> node_trace kills spawns xs (Some p) m
           | Some None \<Rightarrow> False
           | None \<Rightarrow> node_trace kills spawns xs n m))"

lemma node_trace_append:
  "node_trace kills spawns (xs @ ys) n m \<longleftrightarrow>
     (\<exists>k. node_trace kills spawns xs n k \<and> node_trace kills spawns ys k m)"
  by (induction xs arbitrary: n) (auto split: option.splits)

lemma node_trace_quiet:
  "\<forall>x\<in>set xs. kills x = None \<and> spawns x = None \<Longrightarrow> node_trace kills spawns xs n m \<longleftrightarrow> m = n"
  by (induction xs) auto

section \<open>Events an actor holds\<close>

fun emitted :: "('e, 'x) effect \<Rightarrow> 'e set" where
  "emitted (Send e) = {e}"
| "emitted (Send_Delayed g e d) = {e}"
| "emitted _ = {}"

definition held :: "('s, 'e, 'x) actor \<Rightarrow> 'e set" where
  "held a = {e. e \<in> set (ac_queue a) \<or> (\<exists>wd. (e, wd) \<in> set (ac_blocked a)) \<or>
     (\<exists>g. (g, e) \<in> set (ac_timers a)) \<or> (\<exists>f\<in>set (ac_outbox a). e \<in> emitted f)}"

definition all_calls :: "('s, 'e, 'x) actor \<Rightarrow> 'x list" where
  "all_calls a = ac_calls a @ calls_of (ac_outbox a)"

lemma held_offer: "held (offer e wd a) \<subseteq> insert e (held a)"
  by (auto simp: held_def offer_def enqueue_def)

lemma held_perform:
  assumes "perform a = Some b"
  shows "held b \<subseteq> held a \<and> all_calls b = all_calls a"
proof -
  from assms obtain f fx where f: "ac_outbox a = f # fx"
    and p: "perform_effect f (a\<lparr>ac_outbox := fx\<rparr>) = Some b"
    by (auto simp: perform_def split: list.splits)
  then show ?thesis
    by (cases f) (auto simp: held_def all_calls_def enqueue_def split: if_splits)
qed

lemma held_fire:
  assumes "fire_timer gen i a = Some b"
  shows "held b \<subseteq> held a \<and> all_calls b = all_calls a"
proof -
  from assms have i: "i < length (ac_timers a)" by (auto simp: fire_timer_def split: if_splits)
  obtain g e where ge: "ac_timers a ! i = (g, e)" by fastforce
  with i have e: "(g, e) \<in> set (ac_timers a)" by (metis nth_mem)
  have "set (remove_nth i (ac_timers a)) \<subseteq> set (ac_timers a)" by (rule set_remove_nth)
  with assms i ge e show ?thesis
    by (auto simp: fire_timer_def held_def all_calls_def offer_def enqueue_def Let_def split: if_splits)
qed

lemma held_unblock:
  assumes "unblock i a = Some b"
  shows "held b \<subseteq> held a \<and> all_calls b = all_calls a"
proof -
  from assms have i: "i < length (ac_blocked a)" by (auto simp: unblock_def split: if_splits)
  obtain x wd where xw: "ac_blocked a ! i = (x, wd)" by fastforce
  with i have e: "(x, wd) \<in> set (ac_blocked a)" by (metis nth_mem)
  have "set (remove_nth i (ac_blocked a)) \<subseteq> set (ac_blocked a)" by (rule set_remove_nth)
  with assms i xw e show ?thesis
    by (auto simp: unblock_def held_def all_calls_def enqueue_def Let_def split: if_splits)
qed

text \<open>Only an outside send and the handler bring events in; only the handler brings calls in.\<close>

lemma held_step:
  assumes "actor_exec gen handle restart breaks l a = Some b" and "\<And>v. l \<noteq> Recv v"
  shows "held b \<subseteq> insert restart (held a) \<union> {e. l = Deliver e} \<and> all_calls b = all_calls a"
proof (cases l)
  case (Fire i)
  with assms held_fire [of gen i a b] show ?thesis by auto
next
  case (Unblock i)
  with assms held_unblock [of i a b] show ?thesis by auto
next
  case Perform
  with assms held_perform [of a b] show ?thesis by auto
next
  case Node_Exit
  with assms held_offer [of restart True "a\<lparr>ac_watchdog := None\<rparr>"] show ?thesis
    by (auto simp: node_exit_def Let_def held_def all_calls_def offer_def enqueue_def
        split: option.splits if_splits)
qed (use assms in \<open>auto simp: held_def all_calls_def node_lost_def enqueue_def split: if_splits\<close>)

lemma held_recv:
  assumes "actor_exec gen handle restart breaks (Recv v) a = Some b"
  obtains e s fx r where "handle v e (ac_state a) = (s, fx, r)" and "e \<in> held a"
    and "held b \<subseteq> insert restart (held a) \<union> (\<Union>f\<in>set fx. emitted f)"
    and "all_calls b = all_calls a @ calls_of fx"
proof -
  from assms obtain e q s fx r where h: "handle v e (ac_state a) = (s, fx, r)"
    and a: "ac_outbox a = []" "ac_queue a = e # q"
    and b: "ac_calls b = ac_calls a" "ac_queue b = q" "ac_blocked b = ac_blocked a"
      "ac_timers b = ac_timers a" "ac_outbox b = fx \<or> ac_outbox b = fx @ [Send restart]"
    by (auto simp: recv_event_def split: list.splits bool.splits prod.splits sum.splits)
  show thesis
  proof (rule that [OF h])
    show "e \<in> held a" using a by (simp add: held_def)
    show "held b \<subseteq> insert restart (held a) \<union> (\<Union>f\<in>set fx. emitted f)" using a b by (auto simp: held_def)
    show "all_calls b = all_calls a @ calls_of fx" using a b by (auto simp: all_calls_def)
  qed
qed

section \<open>The interface\<close>

locale hydra_node_actor = hydra_actor gen handle restart breaks
  for gen :: "'s \<Rightarrow> u64"
    and handle :: "'v \<Rightarrow> 'e \<Rightarrow> 's \<Rightarrow> ('s, 'e, 'x) handled"
    and restart :: 'e
    and breaks :: "'e \<Rightarrow> bool" +
  fixes node_of :: "'s \<Rightarrow> u32 option"
    and kills :: "'x \<Rightarrow> u32 option"
    and spawns :: "'x \<Rightarrow> u32 option option"
    and gives_pid :: "'v \<Rightarrow> bool"
  assumes node_calls: "gives_pid v \<Longrightarrow> handle v e s = (s', fx, r) \<Longrightarrow>
      node_trace kills spawns (calls_of fx) (node_of s) (node_of s')"
begin

definition node_sound :: "u32 option \<Rightarrow> ('s, 'e, 'x) actor \<Rightarrow> bool" where
  "node_sound n a \<longleftrightarrow> node_trace kills spawns (ac_calls a @ calls_of (ac_outbox a)) n (node_of (ac_state a))"

lemma node_sound_perform:
  assumes "perform a = Some b"
  shows "ac_calls b @ calls_of (ac_outbox b) = ac_calls a @ calls_of (ac_outbox a) \<and>
    ac_state b = ac_state a"
proof -
  from assms obtain f fx where f: "ac_outbox a = f # fx"
    and p: "perform_effect f (a\<lparr>ac_outbox := fx\<rparr>) = Some b"
    by (auto simp: perform_def split: list.splits)
  then show ?thesis by (cases f) (auto simp: enqueue_def split: if_splits)
qed

lemma node_sound_step:
  assumes "actor_exec gen handle restart breaks l a = Some b"
    and "case l of Recv v \<Rightarrow> gives_pid v | _ \<Rightarrow> True" and "node_sound n a"
  shows "node_sound n b"
proof (cases l)
  case (Recv v)
  with assms(1) obtain e q s fx r where h: "handle v e (ac_state a) = (s, fx, r)"
    and a: "ac_outbox a = []" "ac_queue a = e # q"
    and b: "ac_state b = s" "ac_calls b = ac_calls a"
      "ac_outbox b = fx \<or> ac_outbox b = fx @ [Send restart]"
    by (auto simp: recv_event_def split: list.splits bool.splits prod.splits sum.splits)
  have "node_trace kills spawns (calls_of fx) (node_of (ac_state a)) (node_of s)"
    using node_calls [OF _ h] assms(2) Recv by simp
  with assms(3) a b show ?thesis by (auto simp: node_sound_def node_trace_append)
next
  case Perform
  with assms node_sound_perform [of a b] show ?thesis by (simp add: node_sound_def)
qed (use assms in \<open>auto simp: node_sound_def fire_timer_def unblock_def node_exit_def node_lost_def
      offer_def enqueue_def Let_def split: if_splits option.splits prod.splits\<close>)

lemma node_sound_run:
  assumes "actor_run gen handle restart breaks ls a = Some b"
    and "\<And>v. Recv v \<in> set ls \<Longrightarrow> gives_pid v" and "node_sound n a"
  shows "node_sound n b"
  using assms
proof (induction ls arbitrary: a)
  case (Cons l ls)
  then obtain c where c: "actor_exec gen handle restart breaks l a = Some c"
    and r: "actor_run gen handle restart breaks ls c = Some b"
    by (auto split: option.splits)
  have "node_sound n c"
    by (rule node_sound_step [OF c _ Cons.prems(3)]) (use Cons.prems(2) in \<open>auto split: label.splits\<close>)
  with Cons.IH [OF r] Cons.prems(2) show ?case by auto
qed simp

lemma one_node:
  assumes "actor_run gen handle restart breaks ls (actor_spawn restart s0) = Some b"
    and "\<And>v. Recv v \<in> set ls \<Longrightarrow> gives_pid v" and "node_of s0 = None"
  shows "\<exists>m. node_trace kills spawns (ac_calls b) None m"
proof -
  have "node_sound None (actor_spawn restart s0)"
    using assms(3) by (simp add: node_sound_def actor_spawn_def)
  from node_sound_run [OF assms(1,2) this] show ?thesis by (auto simp: node_sound_def node_trace_append)
qed

end

end
