(* ===== verification/Hydra_Client.thy ===== *)
theory Hydra_Client
  imports Hydra_Platform_Server
begin

text \<open>
  The Hydra controller of a platform (\<open>crates/platform/src/hydra_client/mod.rs\<close>), the other side
  of the head that the gateway's controller for platforms runs. The key-exchange messages have the
  shape of the gateway's types and share their records. The event loop is that of
  \<open>Hydra_Actor\<close>; \<open>Terminate\<close> does not leave it.
\<close>

section \<open>Data\<close>

datatype pc_event =
    PC_Restart
  | PC_Terminate
  | PC_KeyExchangeResponse kex_response
  | PC_TryToCommit
  | PC_MonitorStates

record pc_state =
  pc_cardano_signing_key :: string
  pc_network_magic :: u32
  pc_node_socket_path :: string
  pc_platform_cardano_vkey :: json
  pc_api_port :: u16
  pc_config_dir :: string
  pc_last_hydra_head_state :: string
  pc_hydra_pid :: "u32 option"
  pc_hydra_watchdog :: bool
  pc_restart_gen :: u64
  pc_kex_restart_gen :: u64

text \<open>The result of each call the handlers make to the outside world.\<close>

record pc_env =
  pe_this_host :: string
  pe_gen_hydra_keys :: "unit hres"
  pe_read_hydra_vk :: "json hres"
  pe_kex_send :: "unit hres"
  pe_port_free :: "u16 \<Rightarrow> bool hres"
  pe_lovelace_on_skey :: "string \<Rightarrow> u64 hres"
  pe_free_port1 :: "u16 hres"
  pe_free_port2 :: "u16 hres"
  pe_write_params :: "unit hres"
  pe_write_hydra_vk :: "unit hres"
  pe_write_cardano_vk :: "unit hres"
  pe_spawn :: "u32 option hres"
  pe_head :: "json hres"
  pe_commit :: "unit hres"

datatype pc_call =
    P_Kill_Group u32
  | P_Spawn_Node "string list" "u32 option"
  | P_Kex_Request kex_request
  | P_Empty_Commit u16 string

type_synonym pc_handled = "(pc_state, pc_event, pc_call) handled"
type_synonym pc_effect = "(pc_event, pc_call) effect"

definition PC_MIN_FUEL_LOVELACE :: u64 where "PC_MIN_FUEL_LOVELACE = 15000000"

definition pc_init :: "string \<Rightarrow> u32 \<Rightarrow> string \<Rightarrow> json \<Rightarrow> string \<Rightarrow> pc_state" where
  "pc_init skey magic socket vkey dir =
     \<lparr>pc_cardano_signing_key = skey, pc_network_magic = magic, pc_node_socket_path = socket,
      pc_platform_cardano_vkey = vkey, pc_api_port = 0, pc_config_dir = dir,
      pc_last_hydra_head_state = [], pc_hydra_pid = None, pc_hydra_watchdog = False,
      pc_restart_gen = 0, pc_kex_restart_gen = 0\<rparr>"

definition pc_send_delayed :: "pc_state \<Rightarrow> pc_event \<Rightarrow> nat \<Rightarrow> pc_effect" where
  "pc_send_delayed s e ms = Send_Delayed (pc_restart_gen s) e ms"

section \<open>Running the hydra-node\<close>

definition pc_stop_hydra_node :: "pc_state \<Rightarrow> pc_state \<times> pc_effect list" where
  "pc_stop_hydra_node s =
     (s\<lparr>pc_hydra_watchdog := False, pc_hydra_pid := None\<rparr>,
      (if pc_hydra_watchdog s then [Abort_Watchdog] else []) @
      (case pc_hydra_pid s of Some pid \<Rightarrow> [Do (P_Kill_Group pid)] | None \<Rightarrow> []))"

definition pc_hydra_node_args :: "pc_state \<Rightarrow> u16 \<Rightarrow> kex_response \<Rightarrow> string list" where
  "pc_hydra_node_args s metrics_port resp =
     [''--node-id'', ''platform-node'',
      ''--persistence-dir'', pc_config_dir s @ ''/persistence'',
      ''--cardano-signing-key'', pc_cardano_signing_key s,
      ''--hydra-signing-key'', pc_config_dir s @ ''/hydra.sk'',
      ''--hydra-scripts-tx-id'', kr_hydra_scripts_tx_id resp,
      ''--ledger-protocol-parameters'', pc_config_dir s @ ''/protocol-parameters.json'',
      ''--contestation-period'', show_nat (kr_contestation_secs resp) @ ''s'',
      ''--testnet-magic'', show_nat (unat (pc_network_magic s)),
      ''--node-socket'', pc_node_socket_path s,
      ''--api-port'', show_u16 (pc_api_port s),
      ''--api-host'', ''127.0.0.1'',
      ''--listen'', ''127.0.0.1:'' @ show_u16 (kr_proposed_platform_h2h_port resp),
      ''--peer'', ''127.0.0.1:'' @ show_u16 (kr_gateway_h2h_port resp),
      ''--monitoring-port'', show_u16 metrics_port,
      ''--hydra-verification-key'', pc_config_dir s @ ''/gateway-hydra.vk'',
      ''--cardano-verification-key'', pc_config_dir s @ ''/gateway-payment.vk'']"

definition pc_start_hydra_node :: "pc_env \<Rightarrow> kex_response \<Rightarrow> pc_state \<Rightarrow> pc_handled" where
  "pc_start_hydra_node v resp s0 =
     (let (s, fx) = pc_stop_hydra_node s0 in
      case pe_free_port1 v of Inl e \<Rightarrow> hfail s fx e
      | Inr p1 \<Rightarrow>
        let s = s\<lparr>pc_api_port := p1\<rparr> in
        case pe_free_port2 v of Inl e \<Rightarrow> hfail s fx e
        | Inr metrics_port \<Rightarrow>
          case pe_write_params v of Inl e \<Rightarrow> hfail s fx e
          | Inr _ \<Rightarrow>
            case pe_write_hydra_vk v of Inl e \<Rightarrow> hfail s fx e
            | Inr _ \<Rightarrow>
              case pe_write_cardano_vk v of Inl e \<Rightarrow> hfail s fx e
              | Inr _ \<Rightarrow>
                case pe_spawn v of Inl e \<Rightarrow> hfail s fx e
                | Inr pid \<Rightarrow>
                  hdone (s\<lparr>pc_hydra_pid := pid, pc_hydra_watchdog := True\<rparr>)
                    (fx @ [Do (P_Spawn_Node (pc_hydra_node_args s metrics_port resp) pid),
                           Start_Watchdog (pc_restart_gen s)]))"

section \<open>The handlers\<close>

definition pc_kex_request :: "pc_env \<Rightarrow> pc_state \<Rightarrow> json \<Rightarrow> u16 option \<Rightarrow> kex_request" where
  "pc_kex_request v s vk port =
     \<lparr>kq_machine_id = pe_this_host v, kq_platform_cardano_vkey = pc_platform_cardano_vkey s,
      kq_platform_hydra_vkey = vk, kq_accepted_platform_h2h_port = port\<rparr>"

text \<open>The vkey is read, and the request sent.\<close>

definition pc_ask :: "pc_env \<Rightarrow> pc_state \<Rightarrow> pc_effect list \<Rightarrow> u16 option \<Rightarrow> pc_handled" where
  "pc_ask v s fx port =
     (case pe_read_hydra_vk v of Inl e \<Rightarrow> hfail s fx e
      | Inr vk \<Rightarrow>
        let fx = fx @ [Do (P_Kex_Request (pc_kex_request v s vk port))] in
        case pe_kex_send v of Inl e \<Rightarrow> hfail s fx e | Inr _ \<Rightarrow> hdone s fx)"

definition pc_on_restart :: "pc_env \<Rightarrow> pc_state \<Rightarrow> pc_handled" where
  "pc_on_restart v s0 =
     (let s = s0\<lparr>pc_restart_gen := pc_restart_gen s0 + 1\<rparr>;
          s = s\<lparr>pc_kex_restart_gen := pc_restart_gen s\<rparr>;
          (s, fx) = pc_stop_hydra_node s in
      case pe_gen_hydra_keys v of Inl e \<Rightarrow> hfail s fx e
      | Inr _ \<Rightarrow> pc_ask v s fx None)"

definition pc_on_terminate :: "pc_state \<Rightarrow> pc_handled" where
  "pc_on_terminate s = (let (s', fx) = pc_stop_hydra_node s in hdone s' fx)"

definition pc_on_kex_proposal :: "pc_env \<Rightarrow> kex_response \<Rightarrow> pc_state \<Rightarrow> pc_handled" where
  "pc_on_kex_proposal v resp s =
     (if pc_restart_gen s \<noteq> pc_kex_restart_gen s then hdone s []
      else if \<not> (pe_port_free v (kr_gateway_h2h_port resp) = Inr True \<and>
                 pe_port_free v (kr_proposed_platform_h2h_port resp) = Inr True) then
        hdone s [Send PC_Restart]
      else pc_ask v s [] (Some (kr_proposed_platform_h2h_port resp)))"

definition pc_on_kex_done :: "pc_env \<Rightarrow> kex_response \<Rightarrow> pc_state \<Rightarrow> pc_handled" where
  "pc_on_kex_done v resp s0 =
     (if pc_restart_gen s0 \<noteq> pc_kex_restart_gen s0 then hdone s0 []
      else case pe_lovelace_on_skey v (pc_cardano_signing_key s0) of Inl e \<Rightarrow> hfail s0 [] e
      | Inr potential_fuel \<Rightarrow>
        if potential_fuel < PC_MIN_FUEL_LOVELACE then
          hfail s0 [] (Bail ''too little ADA for the Hydra L1 fees on the enterprise address'')
        else case pc_start_hydra_node v resp s0 of
          (s, fx, Inl e) \<Rightarrow> hfail s fx e
        | (s, fx, Inr _) \<Rightarrow> hdone s (fx @ [pc_send_delayed s PC_TryToCommit 3000]))"

definition pc_on_try_to_commit :: "pc_env \<Rightarrow> pc_state \<Rightarrow> pc_handled" where
  "pc_on_try_to_commit v s0 =
     (case fetch_head_tag (pe_head v) of
        Inl _ \<Rightarrow> hdone s0 [pc_send_delayed s0 PC_TryToCommit 3000]
      | Inr status \<Rightarrow>
        let s = s0\<lparr>pc_last_hydra_head_state := status\<rparr> in
        if status = ''Initial'' then
          let fx = [Do (P_Empty_Commit (pc_api_port s) (pc_cardano_signing_key s))] in
          case pe_commit v of
            Inl e \<Rightarrow> hfail s fx e
          | Inr _ \<Rightarrow> hdone s (fx @ [pc_send_delayed s PC_MonitorStates 5000])
        else hdone s [pc_send_delayed s PC_MonitorStates 5000])"

definition pc_on_monitor_states :: "pc_env \<Rightarrow> pc_state \<Rightarrow> pc_handled" where
  "pc_on_monitor_states v s0 =
     (case fetch_head_tag (pe_head v) of Inl e \<Rightarrow> hfail s0 [] e
      | Inr new_status \<Rightarrow>
        if new_status \<noteq> pc_last_hydra_head_state s0 then
          let s = s0\<lparr>pc_last_hydra_head_state := new_status\<rparr> in
          if new_status = ''Initial'' then hdone s [pc_send_delayed s PC_TryToCommit 1000]
          else hdone s [pc_send_delayed s PC_MonitorStates 5000]
        else hdone s0 [pc_send_delayed s0 PC_MonitorStates 5000])"

fun pc_process_event :: "pc_env \<Rightarrow> pc_event \<Rightarrow> pc_state \<Rightarrow> pc_handled" where
  "pc_process_event v PC_Restart s = pc_on_restart v s"
| "pc_process_event v PC_Terminate s = pc_on_terminate s"
| "pc_process_event v (PC_KeyExchangeResponse resp) s =
     (if kr_kex_done resp then pc_on_kex_done v resp s else pc_on_kex_proposal v resp s)"
| "pc_process_event v PC_TryToCommit s = pc_on_try_to_commit v s"
| "pc_process_event v PC_MonitorStates s = pc_on_monitor_states v s"

definition pc_breaks :: "pc_event \<Rightarrow> bool" where
  "pc_breaks e \<longleftrightarrow> False"

lemmas pc_handler_defs =
  pc_on_restart_def pc_on_terminate_def pc_on_kex_proposal_def pc_on_kex_done_def
  pc_on_try_to_commit_def pc_on_monitor_states_def pc_ask_def

section \<open>The interface of the event loop\<close>

lemma pc_process_event_tagged:
  "tagged pc_restart_gen (if e = PC_Restart then pc_restart_gen s + 1 else pc_restart_gen s)
     (pc_process_event v e s)"
  by (cases e)
    (auto simp: pc_handler_defs pc_start_hydra_node_def pc_stop_hydra_node_def pc_send_delayed_def
      tagged_def Let_def split: sum.splits option.splits)

interpretation pc: hydra_actor pc_restart_gen pc_process_event PC_Restart pc_breaks
  by (rule hydra_actorI) (rule pc_process_event_tagged)

end
