(* ===== verification/Hydra_Nodes.thy ===== *)
theory Hydra_Nodes
  imports Hydra_Node Hydra_Bridge_Server Hydra_Sdk_Client Hydra_Client
begin

text \<open>
  The four controllers meet the interface of \<open>Hydra_Node\<close>: each keeps the pid of the hydra-node
  it runs, and only \<open>stop_hydra_node\<close> and \<open>start_hydra_node\<close> touch it.
\<close>

definition node_ok :: "('x \<Rightarrow> u32 option) \<Rightarrow> ('x \<Rightarrow> u32 option option) \<Rightarrow> ('s \<Rightarrow> u32 option) \<Rightarrow> 's \<Rightarrow>
    ('s, 'e, 'x) handled \<Rightarrow> bool" where
  "node_ok kills spawns node_of s h \<longleftrightarrow>
     (case h of (s', fx, r) \<Rightarrow> node_trace kills spawns (calls_of fx) (node_of s) (node_of s'))"

lemma node_okD:
  "node_ok kills spawns node_of s h \<Longrightarrow> h = (s', fx, r) \<Longrightarrow>
    node_trace kills spawns (calls_of fx) (node_of s) (node_of s')"
  by (simp add: node_ok_def)

section \<open>The calls that concern the node\<close>

fun call_kills :: "hydra_call \<Rightarrow> u32 option" where
  "call_kills (Kill_Group p) = Some p"
| "call_kills _ = None"

fun call_spawns :: "hydra_call \<Rightarrow> u32 option option" where
  "call_spawns (Spawn_Node args pid) = Some pid"
| "call_spawns _ = None"

fun sdk_call_kills :: "sdk_call \<Rightarrow> u32 option" where
  "sdk_call_kills (S_Kill_Group p) = Some p"
| "sdk_call_kills _ = None"

fun sdk_call_spawns :: "sdk_call \<Rightarrow> u32 option option" where
  "sdk_call_spawns (S_Spawn_Node args pid) = Some pid"
| "sdk_call_spawns _ = None"

fun pc_call_kills :: "pc_call \<Rightarrow> u32 option" where
  "pc_call_kills (P_Kill_Group p) = Some p"
| "pc_call_kills _ = None"

fun pc_call_spawns :: "pc_call \<Rightarrow> u32 option option" where
  "pc_call_spawns (P_Spawn_Node args pid) = Some pid"
| "pc_call_spawns _ = None"

text \<open>\<open>child.id()\<close> is there right after the child was spawned.\<close>

definition gives_pid :: "hydra_env \<Rightarrow> bool" where
  "gives_pid v \<longleftrightarrow> he_spawn v \<noteq> Inr None"

definition sdk_gives_pid :: "sdk_env \<Rightarrow> bool" where
  "sdk_gives_pid v \<longleftrightarrow> se_spawn v \<noteq> Inr None"

definition pc_gives_pid :: "pc_env \<Rightarrow> bool" where
  "pc_gives_pid v \<longleftrightarrow> pe_spawn v \<noteq> Inr None"

section \<open>The gateway's controller for platforms\<close>

lemma gp_start_node:
  "gives_pid v \<Longrightarrow> node_ok call_kills call_spawns gp_hydra_pid s (gp_start_hydra_node v s)"
  by (auto simp: gp_start_hydra_node_def gp_stop_hydra_node_def node_ok_def gives_pid_def Let_def
      split: sum.splits option.splits)

lemma gp_process_node:
  assumes "gives_pid v"
  shows "node_ok call_kills call_spawns gp_hydra_pid s (gp_process_event v e s)"
proof (cases e)
  case GP_Restart
  let ?s = "s\<lparr>gp_restart_gen := gp_restart_gen s + 1, gp_hydra_head_open := False,
    gp_hydra_peers_connected := False, gp_is_closing := False,
    gp_awaiting_l2_confirmation := False, gp_sent_microtransactions := 0,
    gp_accounted_requests := 0\<rparr>"
  from gp_start_node [OF assms, of ?s] show ?thesis
    by (simp add: GP_Restart gp_on_restart_def node_ok_def gp_send_delayed_def Let_def
        split: prod.splits sum.splits)
qed (auto simp: gp_handler_defs gp_stop_hydra_node_def node_ok_def gp_send_delayed_def
      Let_def split: sum.splits option.splits)

interpretation gpn: hydra_node_actor gp_restart_gen gp_process_event GP_Restart gp_is_terminate
    gp_hydra_pid call_kills call_spawns gives_pid
  by unfold_locales (rule node_okD [OF gp_process_node])

section \<open>The gateway's controller for SDK bridges\<close>

lemma gb_start_node:
  "gives_pid v \<Longrightarrow> node_ok call_kills call_spawns gb_hydra_pid s (gb_start_hydra_node v s)"
  by (auto simp: gb_start_hydra_node_def gb_stop_hydra_node_def node_ok_def gives_pid_def Let_def
      split: sum.splits option.splits)

lemma gb_credit_balance_pid: "gb_hydra_pid (gb_credit_balance b s) = gb_hydra_pid s"
  by (simp add: gb_credit_balance_def Let_def)

lemma gb_process_node:
  assumes "gives_pid v"
  shows "node_ok call_kills call_spawns gb_hydra_pid s (gb_process_event v e s)"
proof (cases e)
  case GB_Restart
  let ?s = "s\<lparr>gb_restart_gen := gb_restart_gen s + 1, gb_hydra_head_open := False,
    gb_hydra_peers_connected := False, gb_credits_available := 0, gb_credits_last_balance := 0,
    gb_received_microtransactions := 0, gb_is_closing := False\<rparr>"
  from gb_start_node [OF assms, of ?s] show ?thesis
    by (simp add: GB_Restart gb_on_restart_def node_ok_def gb_send_delayed_def Let_def
        split: prod.splits sum.splits)
qed (auto simp: gb_handler_defs gb_stop_hydra_node_def node_ok_def gb_send_delayed_def
      gb_credit_balance_pid Let_def split: sum.splits option.splits)

interpretation gbn: hydra_node_actor gb_restart_gen gb_process_event GB_Restart gb_is_terminate
    gb_hydra_pid call_kills call_spawns gives_pid
  by unfold_locales (rule node_okD [OF gb_process_node])

section \<open>The controller of the SDK bridge\<close>

lemma sb_start_node:
  "sdk_gives_pid v \<Longrightarrow> node_ok sdk_call_kills sdk_call_spawns sb_hydra_pid s (sb_start_hydra_node v resp s)"
  by (auto simp: sb_start_hydra_node_def sb_stop_hydra_node_def node_ok_def sdk_gives_pid_def Let_def
      split: sum.splits option.splits)

lemma sb_learn_pid: "sb_learn_gateway_addr v resp s = Inr s' \<Longrightarrow> sb_hydra_pid s' = sb_hydra_pid s"
  by (auto simp: sb_learn_gateway_addr_def split: if_splits sum.splits)

lemma sb_done_node:
  assumes "sdk_gives_pid v"
  shows "node_ok sdk_call_kills sdk_call_spawns sb_hydra_pid s (sb_on_kex_done v resp s)"
proof (cases "sb_learn_gateway_addr v resp s")
  case (Inl e)
  then show ?thesis by (simp add: sb_on_kex_done_def node_ok_def)
next
  case (Inr t)
  let ?t = "if sb_payment_params t = None then t\<lparr>sb_payment_params := Some (params_of resp)\<rparr> else t"
  have "sb_hydra_pid ?t = sb_hydra_pid s" using sb_learn_pid [OF Inr] by simp
  with sb_start_node [OF assms, of ?t resp] Inr show ?thesis
    by (auto simp: sb_on_kex_done_def node_ok_def sb_send_delayed_def Let_def node_trace_append
        split: prod.splits sum.splits)
qed

lemma sb_credit_balance_pid: "sb_hydra_pid (sb_credit_balance p b s) = sb_hydra_pid s"
  by (simp add: sb_credit_balance_def Let_def)

lemma sb_process_node:
  assumes "sdk_gives_pid v"
  shows "node_ok sdk_call_kills sdk_call_spawns sb_hydra_pid s (sb_process_event v e s)"
proof (cases e)
  case (SB_KeyExchangeResponse resp)
  with sb_done_node [OF assms] sb_learn_pid show ?thesis
    by (auto simp: sb_on_kex_proposal_def node_ok_def Let_def split: sum.splits dest!: sb_learn_pid)
next
  case SB_FundCommitAddr
  then show ?thesis
    by (simp add: sb_on_fund_commit_addr_def node_ok_def sb_send_delayed_def Let_def split: sum.split option.split)
next
  case SB_TryToCommit
  then show ?thesis
    by (simp add: sb_on_try_to_commit_def node_ok_def sb_send_delayed_def Let_def split: sum.split option.split)
qed (auto simp: sb_handler_defs sb_stop_hydra_node_def node_ok_def sb_send_delayed_def sb_on_head_open_def
      sb_credit_balance_pid Let_def split: sum.splits option.splits)

interpretation sbn: hydra_node_actor sb_restart_gen sb_process_event SB_Restart sb_breaks
    sb_hydra_pid sdk_call_kills sdk_call_spawns sdk_gives_pid
  by unfold_locales (rule node_okD [OF sb_process_node])

section \<open>The controller of a platform\<close>

lemma pc_process_node:
  "pc_gives_pid v \<Longrightarrow> node_ok pc_call_kills pc_call_spawns pc_hydra_pid s (pc_process_event v e s)"
  by (cases e)
    (auto simp: pc_handler_defs pc_start_hydra_node_def pc_stop_hydra_node_def pc_send_delayed_def
      pc_gives_pid_def node_ok_def Let_def split: sum.splits option.splits)

interpretation pcn: hydra_node_actor pc_restart_gen pc_process_event PC_Restart pc_breaks
    pc_hydra_pid pc_call_kills pc_call_spawns pc_gives_pid
  by unfold_locales (rule node_okD [OF pc_process_node])

section \<open>One node at a time\<close>

definition one_node_at_a_time ::
  "('s \<Rightarrow> u64) \<Rightarrow> ('v \<Rightarrow> 'e \<Rightarrow> 's \<Rightarrow> ('s, 'e, 'x) handled) \<Rightarrow> 'e \<Rightarrow> ('e \<Rightarrow> bool) \<Rightarrow>
   ('s \<Rightarrow> u32 option) \<Rightarrow> ('x \<Rightarrow> u32 option) \<Rightarrow> ('x \<Rightarrow> u32 option option) \<Rightarrow> ('v \<Rightarrow> bool) \<Rightarrow> bool" where
  "one_node_at_a_time gen handle restart breaks node_of kills spawns pid_given \<longleftrightarrow>
     (\<forall>ls s0 b. node_of s0 = None \<longrightarrow> (\<forall>v. Recv v \<in> set ls \<longrightarrow> pid_given v) \<longrightarrow>
        actor_run gen handle restart breaks ls (actor_spawn restart s0) = Some b \<longrightarrow>
        (\<exists>m. node_trace kills spawns (ac_calls b) None m))"

text \<open>An environment in which every call succeeds, for a run that starts a node and kills it.\<close>

definition calm_pc_env :: pc_env where
  "calm_pc_env =
     \<lparr>pe_this_host = ''p'', pe_gen_hydra_keys = Inr (), pe_read_hydra_vk = Inr JNull, pe_kex_send = Inr (),
      pe_port_free = (\<lambda>_. Inr True), pe_lovelace_on_skey = (\<lambda>_. Inr 1000000000),
      pe_free_port1 = Inr 4001, pe_free_port2 = Inr 4002, pe_write_params = Inr (),
      pe_write_hydra_vk = Inr (), pe_write_cardano_vk = Inr (), pe_spawn = Inr (Some 77),
      pe_head = Inr (JObj [(''tag'', JStr ''Open'')]), pe_commit = Inr ()\<rparr>"

definition pc_demo_boot :: "(pc_state, pc_event, pc_call) actor" where
  "pc_demo_boot = actor_spawn PC_Restart (pc_init ''k'' 1 ''s'' JNull ''/cfg'')"

definition demo_kex_done :: kex_response where
  "demo_kex_done =
     \<lparr>kr_machine_id = ''g'', kr_gateway_cardano_vkey = JNull, kr_gateway_hydra_vkey = JNull,
      kr_hydra_scripts_tx_id = ''t'', kr_protocol_parameters = JNull, kr_contestation_secs = 60,
      kr_proposed_platform_h2h_port = 5001, kr_gateway_h2h_port = 5002, kr_kex_done = True\<rparr>"

lemmas pc_eval =
  actor_run.simps actor_exec.simps perform_def recv_event_def fire_timer_def offer_def
  enqueue_def room_def event_capacity_def remove_nth_def actor_spawn_def pc_demo_boot_def pc_init_def
  calm_pc_env_def pc_stop_hydra_node_def pc_start_hydra_node_def pc_send_delayed_def pc_breaks_def
  PC_MIN_FUEL_LOVELACE_def demo_kex_done_def pc_handler_defs Let_def

text \<open>C24: None of the four controllers (gateway for platforms, gateway for SDK bridges, SDK bridge,
  platform) ever starts a hydra-node before it has killed the process group of the one it started
  before, and none kills a group other than that one: for every schedule of the controller, the calls
  it has made are a sequence of starts, each followed by the kill of exactly the pid that the runtime
  returned for it before the next start, as long as the runtime reports the pid of a spawned child.\<close>

theorem one_hydra_node:
  "one_node_at_a_time gp_restart_gen gp_process_event GP_Restart gp_is_terminate
     gp_hydra_pid call_kills call_spawns gives_pid \<and>
   one_node_at_a_time gb_restart_gen gb_process_event GB_Restart gb_is_terminate
     gb_hydra_pid call_kills call_spawns gives_pid \<and>
   one_node_at_a_time sb_restart_gen sb_process_event SB_Restart sb_breaks
     sb_hydra_pid sdk_call_kills sdk_call_spawns sdk_gives_pid \<and>
   one_node_at_a_time pc_restart_gen pc_process_event PC_Restart pc_breaks
     pc_hydra_pid pc_call_kills pc_call_spawns pc_gives_pid"
  unfolding one_node_at_a_time_def
  using gpn.one_node gbn.one_node sbn.one_node pcn.one_node by blast

definition node_demo_labels :: "(pc_env, pc_event) label list" where
  "node_demo_labels =
     [Recv calm_pc_env, Perform, Deliver (PC_KeyExchangeResponse demo_kex_done), Recv calm_pc_env,
      Perform, Perform, Perform, Deliver PC_Terminate, Recv calm_pc_env, Perform, Perform]"

lemma node_demo_run:
  "\<exists>b. actor_run pc_restart_gen pc_process_event PC_Restart pc_breaks node_demo_labels pc_demo_boot = Some b \<and>
     map pc_call_spawns (ac_calls b) = [None, Some (Some 77), None] \<and>
     map pc_call_kills (ac_calls b) = [None, None, Some 77]"
  by (simp add: pc_eval node_demo_labels_def)

theorem one_hydra_node_witness:
  "\<exists>b. actor_run pc_restart_gen pc_process_event PC_Restart pc_breaks node_demo_labels pc_demo_boot = Some b \<and>
     map pc_call_spawns (ac_calls b) = [None, Some (Some 77), None] \<and>
     map pc_call_kills (ac_calls b) = [None, None, Some 77] \<and>
     (\<exists>m. node_trace pc_call_kills pc_call_spawns (ac_calls b) None m)"
proof -
  from node_demo_run obtain b where
    b: "actor_run pc_restart_gen pc_process_event PC_Restart pc_breaks node_demo_labels pc_demo_boot = Some b \<and>
      map pc_call_spawns (ac_calls b) = [None, Some (Some 77), None] \<and>
      map pc_call_kills (ac_calls b) = [None, None, Some 77]" by (rule exE)
  have n: "pc_hydra_pid (pc_init ''k'' 1 ''s'' JNull ''/cfg'') = None" by (simp add: pc_init_def)
  have "pc_gives_pid calm_pc_env" by (simp add: pc_gives_pid_def calm_pc_env_def)
  then have g: "pc_gives_pid v" if "Recv v \<in> set node_demo_labels" for v
    using that by (auto simp: node_demo_labels_def)
  have "one_node_at_a_time pc_restart_gen pc_process_event PC_Restart pc_breaks
     pc_hydra_pid pc_call_kills pc_call_spawns pc_gives_pid"
    using one_hydra_node by (elim conjE)
  from this [unfolded one_node_at_a_time_def, rule_format, OF n g b [THEN conjunct1, unfolded pc_demo_boot_def]]
  have "\<exists>m. node_trace pc_call_kills pc_call_spawns (ac_calls b) None m" .
  with b show ?thesis by (intro exI [of _ b]) (elim conjE, intro conjI)
qed

section \<open>The platform's client keeps polling\<close>

fun pc_polls :: "pc_event \<Rightarrow> bool" where
  "pc_polls PC_Restart = True"
| "pc_polls PC_TryToCommit = True"
| "pc_polls PC_MonitorStates = True"
| "pc_polls _ = False"

lemma pc_polling_step:
  assumes "pc_process_event v e s = (s', fx, Inr ())" and "pc_hydra_watchdog s'"
  shows "(\<exists>f\<in>set fx. emits pc_polls f) \<or> (pc_hydra_watchdog s \<and> \<not> pc_polls e)"
  using assms
  by (cases e)
    (auto simp: pc_handler_defs pc_start_hydra_node_def pc_stop_hydra_node_def pc_send_delayed_def Let_def
      split: sum.splits if_splits option.splits)

lemma pc_keeps_polling:
  assumes "actor_reach pc_restart_gen pc_process_event PC_Restart pc_breaks (actor_spawn PC_Restart s0) b"
    and "pc_hydra_watchdog (ac_state b)" and "\<not> ac_stopped b"
  shows "pending pc_restart_gen pc_polls b"
  by (rule pc.pending_reach [OF assms(1), where Q = pc_hydra_watchdog])
    (use assms pc_polling_step in simp_all)

end
