(* ===== verification/Remote_Key_Exchange.thy ===== *)
theory Remote_Key_Exchange
  imports Platform_Connection Hydra_Nodes
begin

text \<open>
  A platform's connection and its Hydra controller together, during the key exchange with a gateway
  on another machine. The connection binds the listener of the tunnel on the gateway's port before
  it passes the response on, and the controller then checks that the same port is free.
\<close>

section \<open>The connection, the channel between them, the controller\<close>

text \<open>\<open>kx_bound\<close> are the ports the listeners of the connection's tunnels hold.\<close>

record kx_system =
  kx_conn :: pf_conn
  kx_bound :: "u16 list"
  kx_channel :: "kex_response list"
  kx_client :: "(pc_state, pc_event, pc_call) actor"

datatype kx_step =
    KX_Connection pf_env pf_event            \<comment> \<open>the connection handles an event and goes on\<close>
  | KX_Pass                                  \<comment> \<open>the next response reaches the controller's channel\<close>
  | KX_Client "(pc_env, pc_event) label"     \<comment> \<open>a step of the controller\<close>

fun listening :: "pf_effect list \<Rightarrow> u16 list" where
  "listening [] = []"
| "listening (PX_Spawn_Listener port cfg # fx) = port # listening fx"
| "listening (_ # fx) = listening fx"

fun responses_passed :: "pf_effect list \<Rightarrow> kex_response list" where
  "responses_passed [] = []"
| "responses_passed (PX_Kex_Response resp # fx) = resp # responses_passed fx"
| "responses_passed (_ # fx) = responses_passed fx"

definition sees_bound :: "u16 list \<Rightarrow> pc_env \<Rightarrow> bool" where
  "sees_bound ports w \<longleftrightarrow> (\<forall>port\<in>set ports. pe_port_free w port = Inr False)"

definition pc_exec :: "(pc_env, pc_event) label \<Rightarrow> (pc_state, pc_event, pc_call) actor \<Rightarrow>
    (pc_state, pc_event, pc_call) actor option" where
  "pc_exec = actor_exec pc_restart_gen pc_process_event PC_Restart pc_breaks"

text \<open>Key-exchange responses come from the connection only; the port check sees the bound ports.\<close>

definition kx_client_may :: "u16 list \<Rightarrow> (pc_env, pc_event) label \<Rightarrow> bool" where
  "kx_client_may ports l \<longleftrightarrow>
     (case l of Deliver e \<Rightarrow> e = PC_Terminate | Recv w \<Rightarrow> sees_bound ports w | _ \<Rightarrow> True)"

fun kx_exec :: "kx_step \<Rightarrow> kx_system \<Rightarrow> kx_system option" where
  "kx_exec (KX_Connection v e) y =
     (case pf_handle True v e (kx_conn y) of (s, fx, go) \<Rightarrow>
        if go then Some (y\<lparr>kx_conn := s, kx_bound := kx_bound y @ listening fx,
                           kx_channel := kx_channel y @ responses_passed fx\<rparr>)
        else None)"
| "kx_exec KX_Pass y =
     (case kx_channel y of
        [] \<Rightarrow> None
      | resp # rest \<Rightarrow>
          map_option (\<lambda>a. y\<lparr>kx_channel := rest, kx_client := a\<rparr>)
            (pc_exec (Deliver (PC_KeyExchangeResponse resp)) (kx_client y)))"
| "kx_exec (KX_Client l) y =
     (if kx_client_may (kx_bound y) l then map_option (\<lambda>a. y\<lparr>kx_client := a\<rparr>) (pc_exec l (kx_client y))
      else None)"

definition kx_start :: "pc_state \<Rightarrow> kx_system" where
  "kx_start s0 = \<lparr>kx_conn = pf_conn_new, kx_bound = [], kx_channel = [],
     kx_client = actor_spawn PC_Restart s0\<rparr>"

section \<open>The invariant\<close>

text \<open>Every response on its way has its gateway port bound; no request accepts a port.\<close>

fun asks_only :: "pc_call \<Rightarrow> bool" where
  "asks_only (P_Kex_Request q) = (kq_accepted_platform_h2h_port q = None)"
| "asks_only _ = True"

definition bound_ok :: "u16 list \<Rightarrow> pc_event \<Rightarrow> bool" where
  "bound_ok ports e \<longleftrightarrow> (case e of PC_KeyExchangeResponse resp \<Rightarrow> kr_gateway_h2h_port resp \<in> set ports | _ \<Rightarrow> True)"

definition client_ok :: "u16 list \<Rightarrow> (pc_state, pc_event, pc_call) actor \<Rightarrow> bool" where
  "client_ok ports a \<longleftrightarrow> Ball (held a) (bound_ok ports) \<and> list_all asks_only (all_calls a)"

definition kx_ok :: "kx_system \<Rightarrow> bool" where
  "kx_ok y \<longleftrightarrow> (\<forall>resp\<in>set (kx_channel y). kr_gateway_h2h_port resp \<in> set (kx_bound y)) \<and>
     client_ok (kx_bound y) (kx_client y)"

lemma bound_ok_restart: "bound_ok ports PC_Restart" "bound_ok ports PC_Terminate"
  by (simp_all add: bound_ok_def)

lemma bound_proposal_restarts:
  assumes "sees_bound ports w" and "kr_gateway_h2h_port resp \<in> set ports"
  shows "pc_on_kex_proposal w resp s = (if pc_restart_gen s \<noteq> pc_kex_restart_gen s then hdone s [] else hdone s [Send PC_Restart])"
  using assms by (simp add: pc_on_kex_proposal_def sees_bound_def)

lemma pc_handle_asks:
  assumes h: "pc_process_event w e s = (s', fx, r)" and "sees_bound ports w" and "bound_ok ports e"
  shows "list_all asks_only (calls_of fx) \<and> (\<forall>f\<in>set fx. Ball (emitted f) (bound_ok ports))"
proof (cases e)
  case (PC_KeyExchangeResponse resp)
  then have "kr_gateway_h2h_port resp \<in> set ports" using assms(3) by (simp add: bound_ok_def)
  note p = bound_proposal_restarts [OF assms(2) this]
  show ?thesis
  proof (cases "kr_kex_done resp")
    case True
    with h PC_KeyExchangeResponse show ?thesis
      by (auto simp: pc_on_kex_done_def pc_start_hydra_node_def pc_stop_hydra_node_def pc_send_delayed_def
          bound_ok_def Let_def split: sum.splits if_splits option.splits)
  next
    case False
    with h PC_KeyExchangeResponse p show ?thesis by (auto simp: bound_ok_def split: if_splits)
  qed
qed (use h in \<open>auto simp: pc_on_restart_def pc_on_terminate_def pc_on_try_to_commit_def pc_on_monitor_states_def
      pc_ask_def pc_stop_hydra_node_def pc_send_delayed_def pc_kex_request_def bound_ok_def Let_def
      split: sum.splits if_splits option.splits\<close>)

lemma client_ok_step:
  assumes "client_ok ports a" and "pc_exec l a = Some b" and "kx_client_may ports l"
  shows "client_ok ports b"
proof (cases "\<exists>w. l = Recv w")
  case True
  then obtain w where l: "l = Recv w" by blast
  from held_recv [OF assms(2) [unfolded pc_exec_def l]] obtain e s fx r
    where h: "pc_process_event w e (ac_state a) = (s, fx, r)" and e: "e \<in> held a"
      and b: "held b \<subseteq> insert PC_Restart (held a) \<union> (\<Union>f\<in>set fx. emitted f)"
        "all_calls b = all_calls a @ calls_of fx" by blast
  have "bound_ok ports e" using assms(1) e by (auto simp: client_ok_def)
  from pc_handle_asks [OF h _ this] assms(3) l
  have x: "list_all asks_only (calls_of fx)" "\<forall>f\<in>set fx. Ball (emitted f) (bound_ok ports)"
    by (simp_all add: kx_client_may_def)
  have "Ball (held b) (bound_ok ports)"
    using b(1) x(2) assms(1) bound_ok_restart by (auto simp: client_ok_def)
  with x(1) b(2) assms(1) show ?thesis by (simp add: client_ok_def)
next
  case False
  then have "held b \<subseteq> insert PC_Restart (held a) \<union> {e. l = Deliver e} \<and> all_calls b = all_calls a"
    using held_step [OF assms(2) [unfolded pc_exec_def]] by blast
  with assms(1,3) bound_ok_restart show ?thesis
    by (auto simp: client_ok_def kx_client_may_def)
qed

lemma client_ok_pass:
  assumes "client_ok ports a" and "pc_exec (Deliver (PC_KeyExchangeResponse resp)) a = Some b"
    and "kr_gateway_h2h_port resp \<in> set ports"
  shows "client_ok ports b"
proof -
  have "held b \<subseteq> insert PC_Restart (held a) \<union> {PC_KeyExchangeResponse resp} \<and> all_calls b = all_calls a"
    using held_step [OF assms(2) [unfolded pc_exec_def]] by auto
  with assms(1,3) bound_ok_restart show ?thesis by (auto simp: client_ok_def bound_ok_def)
qed

lemma client_ok_mono: "client_ok ports a \<Longrightarrow> client_ok (ports @ others) a"
  by (auto simp: client_ok_def bound_ok_def split: pc_event.splits)

text \<open>A response from another machine is passed on only after its gateway port was bound.\<close>

lemma pf_binds_first:
  assumes "pf_handle True v e s = (s', fx, True)"
    and "\<And>resp. e = PE_Gateway (LM_HydraKExResponse resp) \<Longrightarrow> kr_machine_id resp \<noteq> pv_this_host v"
    and "resp \<in> set (responses_passed fx)"
  shows "kr_gateway_h2h_port resp \<in> set (listening fx)"
  using assms
  by (cases "(True, v, e, s)" rule: pf_handle.cases)
    (auto simp: pf_send_or_fail_def pf_send_def pf_on_kex_response_def pf_on_ping_tick_def Let_def
      split: if_splits option.splits)

definition kx_remote :: "kx_step \<Rightarrow> bool" where
  "kx_remote l \<longleftrightarrow>
     (case l of KX_Connection v (PE_Gateway (LM_HydraKExResponse resp)) \<Rightarrow> kr_machine_id resp \<noteq> pv_this_host v
      | _ \<Rightarrow> True)"

lemma kx_ok_step:
  assumes "kx_ok y" and "kx_exec l y = Some y'" and "kx_remote l"
  shows "kx_ok y'"
proof (cases l)
  case (KX_Connection v e)
  obtain s fx go where h: "pf_handle True v e (kx_conn y) = (s, fx, go)" by (cases "pf_handle True v e (kx_conn y)")
  with assms(2) KX_Connection have go: "go"
    and y': "y' = y\<lparr>kx_conn := s, kx_bound := kx_bound y @ listening fx,
      kx_channel := kx_channel y @ responses_passed fx\<rparr>" by (auto split: if_splits)
  have "\<And>resp. e = PE_Gateway (LM_HydraKExResponse resp) \<Longrightarrow> kr_machine_id resp \<noteq> pv_this_host v"
    using assms(3) KX_Connection by (simp add: kx_remote_def)
  note remote = this
  have ht: "pf_handle True v e (kx_conn y) = (s, fx, True)" using h go by simp
  have "kr_gateway_h2h_port resp \<in> set (listening fx)" if "resp \<in> set (responses_passed fx)" for resp
    by (rule pf_binds_first [OF ht _ that]) (rule remote)
  with assms(1) client_ok_mono show ?thesis by (auto simp: kx_ok_def y')
next
  case KX_Pass
  with assms client_ok_pass [of "kx_bound y" "kx_client y"] show ?thesis
    by (auto simp: kx_ok_def split: list.splits)
next
  case (KX_Client k)
  with assms client_ok_step [of "kx_bound y" "kx_client y" k] show ?thesis
    by (auto simp: kx_ok_def split: if_splits)
qed

lemma kx_ok_run:
  "runs kx_exec ls y = Some y' \<Longrightarrow> kx_ok y \<Longrightarrow> list_all kx_remote ls \<Longrightarrow> kx_ok y'"
  by (induction ls arbitrary: y) (auto simp: bind_eq_Some_conv dest: kx_ok_step)

section \<open>The property\<close>

text \<open>Between two machines the key exchange never gets past its first round. As long as the connection
  lasts and its gateway is on another machine, in every interleaving of the connection, the channel and
  the controller, the controller never sends a request that accepts a port: the connection has already
  bound the gateway's port for the tunnel when the controller checks that it is free, so that every
  proposal it handles only sends it back to a restart.\<close>

theorem remote_key_exchange_restarts:
  assumes "runs kx_exec ls (kx_start s0) = Some y" and "list_all kx_remote ls"
  shows "list_all asks_only (ac_calls (kx_client y)) \<and>
    (\<forall>resp w s. PC_KeyExchangeResponse resp \<in> set (ac_queue (kx_client y)) \<longrightarrow> sees_bound (kx_bound y) w \<longrightarrow>
       \<not> kr_kex_done resp \<longrightarrow>
       pc_process_event w (PC_KeyExchangeResponse resp) s =
         (s, if pc_restart_gen s = pc_kex_restart_gen s then [Send PC_Restart] else [], Inr ()))"
proof -
  have "kx_ok (kx_start s0)"
    by (simp add: kx_ok_def kx_start_def client_ok_def held_def all_calls_def actor_spawn_def bound_ok_restart)
  from kx_ok_run [OF assms(1) this assms(2)] have ok: "client_ok (kx_bound y) (kx_client y)" by (simp add: kx_ok_def)
  have "kr_gateway_h2h_port resp \<in> set (kx_bound y)"
    if "PC_KeyExchangeResponse resp \<in> set (ac_queue (kx_client y))" for resp
    using ok that by (force simp: client_ok_def held_def bound_ok_def)
  with ok bound_proposal_restarts show ?thesis by (auto simp: client_ok_def all_calls_def)
qed

definition demo_kex_proposal :: kex_response where
  "demo_kex_proposal = demo_kex_done\<lparr>kr_kex_done := False\<rparr>"

definition busy_pc_env :: pc_env where
  "busy_pc_env = calm_pc_env\<lparr>pe_port_free := (\<lambda>port. Inr (port \<noteq> 5002))\<rparr>"

definition demo_remote_env :: pf_env where
  "demo_remote_env = \<lparr>pv_socket_open = True, pv_now = 0, pv_this_host = ''p'', pv_listener_error = None\<rparr>"

theorem remote_key_exchange_restarts_witness:
  "\<exists>y. runs kx_exec
     [KX_Client (Recv busy_pc_env), KX_Client Perform,
      KX_Connection demo_remote_env (PE_Gateway (LM_HydraKExResponse demo_kex_proposal)), KX_Pass,
      KX_Client (Recv busy_pc_env), KX_Client Perform] (kx_start (pc_init ''k'' 1 ''s'' JNull ''/cfg'')) = Some y \<and>
     ac_queue (kx_client y) = [PC_Restart] \<and> kx_bound y = [5002] \<and> list_all asks_only (ac_calls (kx_client y))"
proof -
  let ?ls = "[KX_Client (Recv busy_pc_env), KX_Client Perform,
      KX_Connection demo_remote_env (PE_Gateway (LM_HydraKExResponse demo_kex_proposal)), KX_Pass,
      KX_Client (Recv busy_pc_env), KX_Client Perform]"
  obtain y where y: "runs kx_exec ?ls (kx_start (pc_init ''k'' 1 ''s'' JNull ''/cfg'')) = Some y"
    and q: "ac_queue (kx_client y) = [PC_Restart]" "kx_bound y = [5002]"
    by (simp add: kx_start_def pf_conn_new_def kx_client_may_def sees_bound_def pc_exec_def pc_eval
        busy_pc_env_def demo_kex_proposal_def pf_on_kex_response_def demo_remote_env_def pc_kex_request_def)
  have "list_all kx_remote ?ls" by (simp add: kx_remote_def demo_kex_proposal_def demo_kex_done_def demo_remote_env_def)
  with remote_key_exchange_restarts [OF y] y q show ?thesis by (intro exI [of _ y] conjI) simp_all
qed

end
