(* ===== verification/Platform_Connection_Correct.thy ===== *)
theory Platform_Connection_Correct
  imports Platform_Connection
begin

text \<open>
  What a platform's connection promises: every request of the gateway is answered at most once, by
  what the platform's own router gave, none is lost while the connection lasts, and a silent
  gateway is disconnected.
\<close>

section \<open>Requests and answers\<close>

fun answered :: "pf_effect list \<Rightarrow> json_response list" where
  "answered [] = []"
| "answered (PX_Send (RM_Response r) # fx) = r # answered fx"
| "answered (_ # fx) = answered fx"

definition pf_request_of :: "pf_event \<Rightarrow> json_request list" where
  "pf_request_of e = (case e of PE_Gateway (LM_Request q) \<Rightarrow> [q] | _ \<Rightarrow> [])"

definition pf_received :: "pf_step \<Rightarrow> json_request list" where
  "pf_received l = (case l of PP_Arrive e \<Rightarrow> pf_request_of e | _ \<Rightarrow> [])"

definition pf_taken_in :: "pf_step \<Rightarrow> uuid multiset" where
  "pf_taken_in l = mset (map jq_id (pf_received l))"

definition pf_settled :: "pf_process \<Rightarrow> uuid multiset" where
  "pf_settled p = mset (map jr_id (answered (pp_log p))) + mset (pp_lost p)"

definition pf_pending :: "pf_process \<Rightarrow> uuid multiset" where
  "pf_pending p = mset (map jq_id (pp_tasks p)) + mset (concat (map ids_in (pp_queue p)))"

definition pf_process_ok :: "pf_process \<Rightarrow> bool" where
  "pf_process_ok p \<longleftrightarrow> (if pp_open p then pp_lost p = [] else pp_queue p = [])"

lemma answered_append [simp]: "answered (fx @ gx) = answered fx @ answered gx"
  by (induction fx rule: answered.induct) simp_all

lemma started_append [simp]: "started (fx @ gx) = started fx @ started gx"
  by (induction fx rule: started.induct) simp_all

lemma finish_simps [simp]: "answered (pf_finish k) = []" "started (pf_finish k) = []"
  by (simp_all add: pf_finish_def)

lemma error_json_id: "jr_id (error_json L i code err) = i"
  by (simp add: error_json_def)

lemma pf_handle_one_id [simp]: "jr_id (pf_handle_one L k pre router q) = jq_id q"
  by (auto simp: pf_handle_one_def pf_response_to_json_def error_json_id Let_def
      split: sum.splits option.splits)

text \<open>An event's ids go to the router, to the gateway, or are lost with the connection.\<close>

lemma pf_handle_ids:
  assumes "pf_handle k v e s = (s', fx, go)"
  shows "if go then mset (ids_in e) = mset (map jq_id (started fx)) + mset (map jr_id (answered fx))
     else started fx = [] \<and> answered fx = []"
  using assms
  by (cases "(k, v, e, s)" rule: pf_handle.cases)
    (auto simp: ids_in_def pf_send_or_fail_def pf_send_def pf_on_kex_response_def pf_on_ping_tick_def Let_def
      split: if_splits option.splits)

lemma pf_handle_requests:
  assumes "pf_handle k v e s = (s', fx, go)"
  shows "started fx = (if go then pf_request_of e else [])"
  using assms
  by (cases "(k, v, e, s)" rule: pf_handle.cases)
    (auto simp: pf_request_of_def pf_send_or_fail_def pf_send_def pf_on_kex_response_def pf_on_ping_tick_def
      Let_def split: if_splits option.splits)

lemma pf_exec_conserves:
  assumes "pf_process_ok p" and "pf_exec c l p = Some p'"
  shows "pf_process_ok p' \<and> pf_settled p + pf_pending p + pf_taken_in l = pf_settled p' + pf_pending p'"
proof (cases l)
  case (PP_Arrive e)
  have "ids_in e = map jq_id (pf_request_of e)" if "case e of PE_New_Response _ \<Rightarrow> False | _ \<Rightarrow> True"
    using that by (auto simp: ids_in_def pf_request_of_def split: pf_event.splits lb_message.splits)
  with assms PP_Arrive show ?thesis
    by (auto simp: pf_process_ok_def pf_settled_def pf_pending_def pf_taken_in_def pf_received_def
        split: if_splits pf_event.splits)
next
  case (PP_Answer i router)
  with assms mset_remove_index [of i "pp_tasks p" jq_id] show ?thesis
    by (auto simp: pf_process_ok_def pf_settled_def pf_pending_def pf_taken_in_def pf_received_def ids_in_def
        Let_def split: if_splits)
next
  case (PP_Handle v)
  with assms obtain e es where q: "pp_queue p = e # es" and o: "pp_open p"
    by (auto split: if_splits list.splits)
  obtain s fx go where h: "pf_handle (pg_hydra_kex c) v e (pp_conn p) = (s, fx, go)"
    by (cases "pf_handle (pg_hydra_kex c) v e (pp_conn p)")
  from pf_handle_ids [OF h] assms PP_Handle q o h show ?thesis
    by (auto simp: pf_process_ok_def pf_settled_def pf_pending_def pf_taken_in_def pf_received_def
        split: if_splits)
qed

interpretation pfp: settling_process "pf_exec c" pf_process_ok pf_settled pf_pending pf_taken_in for c
  by unfold_locales (use pf_exec_conserves in blast)+

text \<open>Whatever is sent as a response, or waits to be, is what the router gave for a received request.\<close>

definition router_answers :: "pf_config \<Rightarrow> json_request set \<Rightarrow> json_response set" where
  "router_answers c Q =
     {pf_handle_one (pg_http c) (pg_max_response_body_bytes c) (pg_api_prefix c) router q | router q. q \<in> Q}"

text \<open>The same with the routers that answered in a run.\<close>

definition answers_by :: "pf_config \<Rightarrow> (http_request \<Rightarrow> http_response option) set \<Rightarrow> json_request set \<Rightarrow>
    json_response set" where
  "answers_by c RS Q =
     {pf_handle_one (pg_http c) (pg_max_response_body_bytes c) (pg_api_prefix c) router q | router q.
        router \<in> RS \<and> q \<in> Q}"

lemma answers_by_any: "answers_by c UNIV Q = router_answers c Q"
  by (auto simp: answers_by_def router_answers_def)

definition routers_of :: "pf_step list \<Rightarrow> (http_request \<Rightarrow> http_response option) set" where
  "routers_of ms = {router. \<exists>i. PP_Answer i router \<in> set ms}"

definition pf_origin_ok ::
  "pf_config \<Rightarrow> (http_request \<Rightarrow> http_response option) set \<Rightarrow> json_request set \<Rightarrow> pf_process \<Rightarrow> bool" where
  "pf_origin_ok c RS Q p \<longleftrightarrow> set (pp_tasks p) \<subseteq> Q \<and> set (answered (pp_log p)) \<subseteq> answers_by c RS Q \<and>
     (\<forall>e\<in>set (pp_queue p). set (pf_request_of e) \<subseteq> Q \<and>
        (\<forall>r. e = PE_New_Response r \<longrightarrow> r \<in> answers_by c RS Q))"

lemma pf_handle_answered:
  "pf_handle k v e s = (s', fx, go) \<Longrightarrow> set (answered fx) \<subseteq> {r. e = PE_New_Response r}"
  by (cases "(k, v, e, s)" rule: pf_handle.cases)
    (auto simp: pf_send_or_fail_def pf_send_def pf_on_kex_response_def pf_on_ping_tick_def Let_def
      split: if_splits option.splits)

lemma pf_origin_step:
  assumes "pf_exec c l p = Some p'" and "pf_origin_ok c RS Q p" and "set (pf_received l) \<subseteq> Q"
    and "\<And>i router. l = PP_Answer i router \<Longrightarrow> router \<in> RS"
  shows "pf_origin_ok c RS Q p'"
proof (cases l)
  case (PP_Arrive e)
  with assms show ?thesis
    by (auto simp: pf_origin_ok_def pf_received_def split: if_splits pf_event.splits) blast+
next
  case (PP_Answer i router)
  with assms(1) have i: "i < length (pp_tasks p)" by (auto split: if_splits)
  then have "pp_tasks p ! i \<in> Q" using assms(2) by (auto simp: pf_origin_ok_def)
  then have r: "pf_handle_one (pg_http c) (pg_max_response_body_bytes c) (pg_api_prefix c) router (pp_tasks p ! i)
      \<in> answers_by c RS Q" using assms(4) PP_Answer by (auto simp: answers_by_def)
  from assms PP_Answer i r show ?thesis
    by (auto simp: pf_origin_ok_def pf_request_of_def Let_def split: if_splits)
      (blast dest: in_set_takeD in_set_dropD)+
next
  case (PP_Handle v)
  with assms obtain e es where q: "pp_queue p = e # es" and o: "pp_open p"
    by (auto split: if_splits list.splits)
  obtain s fx go where h: "pf_handle (pg_hydra_kex c) v e (pp_conn p) = (s, fx, go)"
    by (cases "pf_handle (pg_hydra_kex c) v e (pp_conn p)")
  from pf_handle_answered [OF h] pf_handle_requests [OF h] assms PP_Handle q o h show ?thesis
    by (auto simp: pf_origin_ok_def split: if_splits) blast+
qed

lemma pf_origin_run:
  assumes "runs (pf_exec c) ls p = Some p'" and "pf_origin_ok c RS Q p" and "\<forall>l\<in>set ls. set (pf_received l) \<subseteq> Q"
    and "routers_of ls \<subseteq> RS"
  shows "pf_origin_ok c RS Q p'"
  using assms
proof (induction ls arbitrary: p)
  case (Cons l ls)
  then obtain q where "pf_exec c l p = Some q" "runs (pf_exec c) ls q = Some p'"
    by (auto simp: bind_eq_Some_conv)
  moreover have "pf_origin_ok c RS Q q"
    by (rule pf_origin_step [OF calculation(1) Cons.prems(2)]) (use Cons.prems(3,4) in \<open>auto simp: routers_of_def\<close>)
  ultimately show ?case using Cons by (auto simp: routers_of_def)
qed simp

section \<open>Liveness of the peer\<close>

interpretation pfw: ping_watchdog "pf_handle k" "\<lambda>s. pn_last_ping_sent_at s \<noteq> None" pn_last_ping_id
  PE_Ping_Tick "\<lambda>i. PE_Gateway (LM_Pong i)" "\<lambda>i. PX_Send_As_Gateway (LM_Ping i)" pv_socket_open for k
proof
  fix s s' :: pf_conn and v fx go
  assume "pf_handle k v PE_Ping_Tick s = (s', fx, go)"
  then show "pn_last_ping_sent_at s \<noteq> None \<Longrightarrow> \<not> go"
    and "\<not> pn_last_ping_sent_at s \<noteq> None \<Longrightarrow>
      pn_last_ping_id s' = pn_last_ping_id s + 1 \<and> pn_last_ping_sent_at s' \<noteq> None \<and> go = pv_socket_open v \<and>
      (pv_socket_open v \<longrightarrow> PX_Send_As_Gateway (LM_Ping (pn_last_ping_id s')) \<in> set fx)"
    by (auto simp: pf_on_ping_tick_def Let_def pf_send_def split: if_splits)
next
  fix s s' :: pf_conn and v fx go i
  assume "pf_handle k v (PE_Gateway (LM_Pong i)) s = (s', fx, go)"
  then show "go \<and> pn_last_ping_id s' = pn_last_ping_id s \<and>
      ((pn_last_ping_sent_at s' \<noteq> None) = (pn_last_ping_sent_at s \<noteq> None \<and> i \<noteq> pn_last_ping_id s))"
    by (auto split: if_splits)
next
  fix s s' :: pf_conn and v e fx go
  assume "e \<noteq> PE_Ping_Tick" "e \<notin> range (\<lambda>i. PE_Gateway (LM_Pong i))" "pf_handle k v e s = (s', fx, go)"
  then show "pn_last_ping_id s' = pn_last_ping_id s \<and>
      (pn_last_ping_sent_at s' \<noteq> None) = (pn_last_ping_sent_at s \<noteq> None)"
    by (cases "(k, v, e, s)" rule: pf_handle.cases)
      (auto simp: pf_send_or_fail_def pf_send_def pf_on_kex_response_def Let_def split: option.splits if_splits)
qed

section \<open>The properties\<close>

text \<open>C25: A platform answers every request of the gateway at most once, with what its own router gave for
  it. In every run of a connection, the ids of the requests that arrived are, counted with multiplicity,
  those of the responses sent, those in the router or in the queue, and those that died with the
  connection; while the connection lasts none dies; and each response sent is the router's answer, or
  the error that stands for it, to a request that arrived.\<close>

theorem platform_answers_requests:
  assumes "runs (pf_exec c) ls pf_start = Some p"
  shows "sum_list (map pf_taken_in ls) =
      mset (map jr_id (answered (pp_log p))) + mset (pp_lost p) + pf_pending p \<and>
    (pp_open p \<longrightarrow> pp_lost p = []) \<and>
    set (answered (pp_log p)) \<subseteq> router_answers c (set (concat (map pf_received ls)))"
proof -
  have start: "pf_process_ok pf_start" "pf_settled pf_start = {#}" "pf_pending pf_start = {#}"
    by (simp_all add: pf_process_ok_def pf_settled_def pf_pending_def pf_start_def)
  have "pf_origin_ok c UNIV (set (concat (map pf_received ls))) p"
    by (rule pf_origin_run [OF assms]) (auto simp: pf_origin_ok_def pf_start_def)
  moreover have "pf_process_ok p" using pfp.run_settles [OF start(1) assms] by simp
  ultimately show ?thesis
    using pfp.run_from_nothing [OF start assms]
    by (simp add: pf_settled_def pf_origin_ok_def pf_process_ok_def answers_by_any)
qed

definition demo_pf_config :: pf_config where
  "demo_pf_config = \<lparr>pg_http = demo_http_lib, pg_max_response_body_bytes = 100, pg_api_prefix = None,
     pg_hydra_kex = False\<rparr>"

definition demo_pf_env :: pf_env where
  "demo_pf_env = \<lparr>pv_socket_open = True, pv_now = 0, pv_this_host = ''p'', pv_listener_error = None\<rparr>"

definition demo_json_request :: json_request where
  "demo_json_request = \<lparr>jq_id = Uuid 7, jq_method = JGET, jq_path = ''/'', jq_query = None, jq_header = [],
     jq_body_base64 = []\<rparr>"

theorem platform_answers_requests_witness:
  "\<exists>p. runs (pf_exec demo_pf_config)
     [PP_Arrive (PE_Gateway (LM_Request demo_json_request)), PP_Handle demo_pf_env,
      PP_Answer 0 (\<lambda>_. None), PP_Handle demo_pf_env] pf_start = Some p \<and>
     map jr_code (answered (pp_log p)) = [504] \<and> pp_lost p = [] \<and> pf_pending p = {#}"
proof -
  let ?ls = "[PP_Arrive (PE_Gateway (LM_Request demo_json_request)), PP_Handle demo_pf_env,
      PP_Answer 0 (\<lambda>_. None), PP_Handle demo_pf_env]"
  obtain p where p: "runs (pf_exec demo_pf_config) ?ls pf_start = Some p"
    and a: "map jr_code (answered (pp_log p)) = [504]" "map jr_id (answered (pp_log p)) = [Uuid 7]"
      "pp_open p"
    by (simp add: pf_start_def LB_EVENT_CAPACITY_def pf_send_or_fail_def pf_send_def demo_pf_env_def
        demo_pf_config_def pf_handle_one_def pf_json_to_request_def demo_json_request_def demo_http_lib_def
        build_request_def headers_ok_def show_api_prefix_def error_json_def decode_body_def Let_def)
  from platform_answers_requests [OF p] a
  have "pp_lost p = []" "add_mset (Uuid 7) {#} = add_mset (Uuid 7) (pf_pending p)"
    by (simp_all add: pf_taken_in_def pf_received_def pf_request_of_def demo_json_request_def)
  with p a show ?thesis by (intro exI [of _ p] conjI) simp_all
qed

end
