(* ===== verification/Gateway_Connections.thy ===== *)
theory Gateway_Connections
  imports Settling_Process
begin

text \<open>
  The supervisor of a platform's connections (\<open>run_all\<close>, \<open>reconcile_connections\<close> and
  \<open>run_one_with_reconnect\<close> of \<open>crates/platform/src/load_balancer.rs\<close>): it registers, keeps one
  self-reconnecting task per gateway that the registration names, and re-registers from time to
  time. The registration and the connections themselves are the environment's.
\<close>

section \<open>State\<close>

record gateway_config =
  gw_uri :: string
  gw_access_token :: string

datatype task_status = Task_Running | Task_Finished | Task_Aborted

record gateway_task =
  gt_config :: gateway_config
  gt_hydra_kex :: bool
  gt_status :: task_status

text \<open>
  \<open>sv_active\<close> maps a URI to its \<open>JoinHandle\<close>, a position in \<open>sv_tasks\<close>, where every task ever
  spawned is kept; \<open>sv_hydra_kex\<close> is \<open>hydra_kex.is_some()\<close>.
\<close>

record supervisor =
  sv_active :: "(string, nat) hash_map"
  sv_tasks :: "gateway_task list"
  sv_hydra_kex :: bool
  sv_health_errors :: "string list"

definition INITIAL_REGISTER_RETRY :: nat where "INITIAL_REGISTER_RETRY = 10"
definition PERIODIC_REREGISTER :: nat where "PERIODIC_REREGISTER = 30 * 60"

section \<open>Operations\<close>

definition is_finished :: "supervisor \<Rightarrow> nat \<Rightarrow> bool" where
  "is_finished sv h \<longleftrightarrow> gt_status (sv_tasks sv ! h) \<noteq> Task_Running"

definition set_task :: "nat \<Rightarrow> (gateway_task \<Rightarrow> gateway_task) \<Rightarrow> supervisor \<Rightarrow> supervisor" where
  "set_task h f sv = sv\<lparr>sv_tasks := (sv_tasks sv)[h := f (sv_tasks sv ! h)]\<rparr>"

text \<open>\<open>abort\<close> ends a task that is still running.\<close>

definition abort_task :: "nat \<Rightarrow> supervisor \<Rightarrow> supervisor" where
  "abort_task h =
     set_task h (\<lambda>t. if gt_status t = Task_Running then t\<lparr>gt_status := Task_Aborted\<rparr> else t)"

fun remove_gateways :: "string list \<Rightarrow> supervisor \<Rightarrow> supervisor" where
  "remove_gateways [] sv = sv"
| "remove_gateways (uri # uris) sv =
     (case hash_get uri (sv_active sv) of
        None \<Rightarrow> remove_gateways uris sv
      | Some h \<Rightarrow>
          remove_gateways uris (abort_task h (sv\<lparr>sv_active := hash_remove uri (sv_active sv)\<rparr>)))"

definition spawn_gateway :: "gateway_config \<Rightarrow> bool \<Rightarrow> supervisor \<Rightarrow> supervisor" where
  "spawn_gateway c takes_kex sv =
     sv\<lparr>sv_active := hash_insert (gw_uri c) (length (sv_tasks sv)) (sv_active sv),
        sv_tasks := sv_tasks sv @
          [\<lparr>gt_config = c, gt_hydra_kex = (takes_kex \<and> sv_hydra_kex sv), gt_status = Task_Running\<rparr>],
        sv_hydra_kex := (sv_hydra_kex sv \<and> \<not> takes_kex)\<rparr>"

fun spawn_gateways :: "bool \<Rightarrow> nat \<Rightarrow> gateway_config list \<Rightarrow> supervisor \<Rightarrow> supervisor" where
  "spawn_gateways first_batch idx [] sv = sv"
| "spawn_gateways first_batch idx (c # cs) sv =
     spawn_gateways first_batch (Suc idx) cs
       (if hash_get (gw_uri c) (sv_active sv) = None
        then spawn_gateway c (first_batch \<and> idx = 0) sv else sv)"

definition reconcile_connections :: "gateway_config list \<Rightarrow> supervisor \<Rightarrow> supervisor" where
  "reconcile_connections new_configs sv =
     (let sv1 = sv\<lparr>sv_active := hash_retain (\<lambda>uri h. \<not> is_finished sv h) (sv_active sv)\<rparr>;
          new_uris = map gw_uri new_configs;
          removed = filter (\<lambda>uri. uri \<notin> set new_uris) (map fst (sv_active sv1));
          sv2 = remove_gateways removed sv1;
          first_batch = (sv_active sv2 = [])
      in spawn_gateways first_batch 0 new_configs sv2)"

text \<open>
  One round of \<open>run_all\<close>, with the seconds until the next one. A registration fails, or names a
  list of gateways, or none.
\<close>

definition run_all_round ::
  "string + gateway_config list option \<Rightarrow> supervisor \<Rightarrow> supervisor \<times> nat" where
  "run_all_round registration sv =
     (let sv' = (case registration of
          Inr load_balancers \<Rightarrow>
            (let sv1 = sv\<lparr>sv_health_errors := []\<rparr>;
                 new_configs = (case load_balancers of None \<Rightarrow> [] | Some cs \<Rightarrow> cs)
             in if new_configs = [] then sv1 else reconcile_connections new_configs sv1)
        | Inl err \<Rightarrow>
            if sv_active sv = [] then sv\<lparr>sv_health_errors := [err]\<rparr> else sv)
      in (sv', if sv_active sv' = [] then INITIAL_REGISTER_RETRY else PERIODIC_REREGISTER))"

text \<open>
  \<open>run_one_with_reconnect\<close>: what a task does after its connection ended; \<open>None\<close> leaves its loop.
\<close>

definition reconnect_config ::
  "string + gateway_config list option \<Rightarrow> gateway_config \<Rightarrow> gateway_config option" where
  "reconnect_config registration c =
     (case registration of
        Inl err \<Rightarrow> Some c
      | Inr load_balancers \<Rightarrow>
          (let new_configs = (case load_balancers of None \<Rightarrow> [] | Some cs \<Rightarrow> cs)
           in if new_configs = [] then Some c
              else case find (\<lambda>c'. gw_uri c' = gw_uri c) new_configs of
                     Some c' \<Rightarrow> Some (c\<lparr>gw_access_token := gw_access_token c'\<rparr>)
                   | None \<Rightarrow> None))"

section \<open>The supervisor and its tasks\<close>

datatype supervisor_step =
    SV_Round "string + gateway_config list option"
  | SV_Reconnect nat "string + gateway_config list option"  \<comment> \<open>the connection of a task ended\<close>

fun sv_exec :: "supervisor_step \<Rightarrow> supervisor \<Rightarrow> supervisor option" where
  "sv_exec (SV_Round registration) sv = Some (fst (run_all_round registration sv))"
| "sv_exec (SV_Reconnect h registration) sv =
     (if h < length (sv_tasks sv) \<and> gt_status (sv_tasks sv ! h) = Task_Running then
        Some (set_task h (\<lambda>t. case reconnect_config registration (gt_config t) of
                               Some c \<Rightarrow> t\<lparr>gt_config := c\<rparr>
                             | None \<Rightarrow> t\<lparr>gt_status := Task_Finished\<rparr>) sv)
      else None)"

definition sv_start :: "bool \<Rightarrow> supervisor" where
  "sv_start hydra_kex = \<lparr>sv_active = [], sv_tasks = [], sv_hydra_kex = hydra_kex, sv_health_errors = []\<rparr>"

section \<open>The invariant\<close>

text \<open>
  Every running task is the active one of its URI, every active handle is a task of that URI, and
  the Hydra exchange is in one place: still with the supervisor or in one task.
\<close>

definition task_uri :: "supervisor \<Rightarrow> nat \<Rightarrow> string" where
  "task_uri sv h = gw_uri (gt_config (sv_tasks sv ! h))"

definition kex_places :: "supervisor \<Rightarrow> nat" where
  "kex_places sv = length (filter gt_hydra_kex (sv_tasks sv)) + (if sv_hydra_kex sv then 1 else 0)"

definition sv_ok :: "supervisor \<Rightarrow> bool" where
  "sv_ok sv \<longleftrightarrow> hash_ok (sv_active sv) \<and>
     (\<forall>uri h. hash_get uri (sv_active sv) = Some h \<longrightarrow> h < length (sv_tasks sv) \<and> task_uri sv h = uri) \<and>
     (\<forall>h < length (sv_tasks sv). gt_status (sv_tasks sv ! h) = Task_Running \<longrightarrow>
        hash_get (task_uri sv h) (sv_active sv) = Some h)"

lemma sv_okD:
  assumes "sv_ok sv"
  shows "hash_ok (sv_active sv)"
    and "hash_get uri (sv_active sv) = Some h \<Longrightarrow> h < length (sv_tasks sv) \<and> task_uri sv h = uri"
    and "h < length (sv_tasks sv) \<Longrightarrow> gt_status (sv_tasks sv ! h) = Task_Running \<Longrightarrow>
      hash_get (task_uri sv h) (sv_active sv) = Some h"
  using assms by (simp_all add: sv_ok_def)

lemma sv_ok_start: "sv_ok (sv_start k)"
  by (simp add: sv_ok_def sv_start_def hash.ok_empty hash_get_def)

lemma sv_ok_errors [simp]: "sv_ok (sv\<lparr>sv_health_errors := es\<rparr>) = sv_ok sv"
  by (simp add: sv_ok_def task_uri_def)

lemma set_task_simps:
  "sv_active (set_task h f sv) = sv_active sv" "length (sv_tasks (set_task h f sv)) = length (sv_tasks sv)"
  "sv_hydra_kex (set_task h f sv) = sv_hydra_kex sv"
  "j < length (sv_tasks sv) \<Longrightarrow>
     sv_tasks (set_task h f sv) ! j = (if j = h then f (sv_tasks sv ! j) else sv_tasks sv ! j)"
  by (simp_all add: set_task_def nth_list_update)

lemma sv_ok_set_task:
  assumes "sv_ok sv" and "\<And>t. gw_uri (gt_config (f t)) = gw_uri (gt_config t)"
    and "\<And>t. gt_status (f t) = Task_Running \<Longrightarrow> gt_status t = Task_Running"
  shows "sv_ok (set_task h f sv)"
  using assms by (auto simp: sv_ok_def set_task_simps task_uri_def)

lemma sv_ok_drop_finished:
  assumes "sv_ok sv"
  shows "sv_ok (sv\<lparr>sv_active := hash_retain (\<lambda>uri h. \<not> is_finished sv h) (sv_active sv)\<rparr>)"
  using assms
  by (auto simp: sv_ok_def task_uri_def is_finished_def hash.ok_retain hash.get_retain)

lemma sv_ok_remove_one:
  assumes "sv_ok sv" and "hash_get uri (sv_active sv) = Some h"
  shows "sv_ok (abort_task h (sv\<lparr>sv_active := hash_remove uri (sv_active sv)\<rparr>))"
  using assms
  by (auto simp: sv_ok_def abort_task_def set_task_simps task_uri_def hash.ok_remove
      hash.get_remove split: if_splits)

lemma sv_ok_remove: "sv_ok sv \<Longrightarrow> sv_ok (remove_gateways uris sv)"
  by (induction uris sv rule: remove_gateways.induct) (auto simp: sv_ok_remove_one split: option.splits)

lemma sv_ok_spawn_one:
  assumes "sv_ok sv" and "hash_get (gw_uri c) (sv_active sv) = None"
  shows "sv_ok (spawn_gateway c k sv)"
proof -
  have "task_uri sv h \<noteq> gw_uri c" if "h < length (sv_tasks sv)" "gt_status (sv_tasks sv ! h) = Task_Running" for h
    using sv_okD(3) [OF assms(1) that] assms(2) by auto
  with assms show ?thesis
    by (auto simp: sv_ok_def spawn_gateway_def task_uri_def nth_append hash.ok_put hash.get_put less_Suc_eq)
qed

lemma sv_ok_spawn: "sv_ok sv \<Longrightarrow> sv_ok (spawn_gateways b i cs sv)"
  by (induction b i cs sv rule: spawn_gateways.induct) (simp_all add: sv_ok_spawn_one)

lemma sv_ok_reconcile: "sv_ok sv \<Longrightarrow> sv_ok (reconcile_connections cs sv)"
  by (simp add: reconcile_connections_def Let_def sv_ok_spawn sv_ok_remove sv_ok_drop_finished)

lemma reconnect_same_uri: "reconnect_config registration c = Some c' \<Longrightarrow> gw_uri c' = gw_uri c"
  by (auto simp: reconnect_config_def Let_def split: sum.splits if_splits option.splits)

lemma sv_ok_step: "sv_exec l sv = Some sv' \<Longrightarrow> sv_ok sv \<Longrightarrow> sv_ok sv'"
proof (cases l)
  case (SV_Round registration)
  assume "sv_exec l sv = Some sv'" "sv_ok sv"
  with SV_Round show ?thesis
    by (auto simp: run_all_round_def Let_def sv_ok_reconcile split: sum.splits)
next
  case (SV_Reconnect h registration)
  assume "sv_exec l sv = Some sv'" "sv_ok sv"
  with SV_Reconnect show ?thesis
    by (auto split: if_splits intro!: sv_ok_set_task split: option.splits dest: reconnect_same_uri)
qed

section \<open>What a reconciliation does\<close>

lemma remove_gateways_active:
  "sv_ok sv \<Longrightarrow> hash_get uri (sv_active (remove_gateways uris sv)) =
     (if uri \<in> set uris then None else hash_get uri (sv_active sv))"
proof (induction uris sv rule: remove_gateways.induct)
  case (2 u uris sv)
  show ?case
  proof (cases "hash_get u (sv_active sv)")
    case None
    with 2 show ?thesis by simp
  next
    case (Some h)
    have "sv_active (abort_task h (sv\<lparr>sv_active := hash_remove u (sv_active sv)\<rparr>)) = hash_remove u (sv_active sv)"
      by (simp add: abort_task_def set_task_simps)
    with 2(2) [OF Some sv_ok_remove_one [OF 2(3) Some]] Some 2(3) show ?thesis
      by (auto simp: hash.get_remove sv_okD)
  qed
qed simp

lemma remove_gateways_tasks:
  "sv_ok sv \<Longrightarrow> hash_get uri (sv_active sv) = Some h \<Longrightarrow> uri \<notin> set uris \<Longrightarrow>
     sv_tasks (remove_gateways uris sv) ! h = sv_tasks sv ! h"
proof (induction uris sv rule: remove_gateways.induct)
  case (2 u uris sv)
  show ?case
  proof (cases "hash_get u (sv_active sv)")
    case None
    with 2 show ?thesis by simp
  next
    case (Some g)
    let ?sv = "abort_task g (sv\<lparr>sv_active := hash_remove u (sv_active sv)\<rparr>)"
    have ne: "g \<noteq> h" using sv_okD(2) [OF 2(3)] Some 2(4,5) by auto
    have h: "h < length (sv_tasks sv)" using sv_okD(2) [OF 2(3,4)] by simp
    have "hash_get uri (sv_active ?sv) = Some h"
      using 2(3-5) by (simp add: abort_task_def set_task_simps hash.get_remove sv_okD)
    with 2(2) [OF Some sv_ok_remove_one [OF 2(3) Some]] 2(5)
    have "sv_tasks (remove_gateways uris ?sv) ! h = sv_tasks ?sv ! h" by simp
    then show ?thesis using Some ne h by (simp add: abort_task_def set_task_simps)
  qed
qed simp

lemma remove_gateways_length [simp]: "length (sv_tasks (remove_gateways uris sv)) = length (sv_tasks sv)"
  by (induction uris sv rule: remove_gateways.induct)
    (auto simp: abort_task_def set_task_simps split: option.splits)

lemma spawn_gateways_tasks:
  "\<exists>new. sv_tasks (spawn_gateways b i cs sv) = sv_tasks sv @ new \<and> (\<forall>t\<in>set new. gt_status t = Task_Running)"
proof (induction b i cs sv rule: spawn_gateways.induct)
  case (2 b i c cs sv)
  then show ?case by (cases "hash_get (gw_uri c) (sv_active sv) = None") (auto simp: spawn_gateway_def)
qed simp

lemma spawn_gateways_active:
  "sv_ok sv \<Longrightarrow>
     (hash_get uri (sv_active (spawn_gateways b i cs sv)) \<noteq> None \<longleftrightarrow>
        hash_get uri (sv_active sv) \<noteq> None \<or> uri \<in> set (map gw_uri cs)) \<and>
     (\<forall>h. hash_get uri (sv_active (spawn_gateways b i cs sv)) = Some h \<longrightarrow>
        hash_get uri (sv_active sv) = Some h \<or> hash_get uri (sv_active sv) = None \<and> length (sv_tasks sv) \<le> h)"
proof (induction b i cs sv rule: spawn_gateways.induct)
  case (2 b i c cs sv)
  show ?case
  proof (cases "hash_get (gw_uri c) (sv_active sv) = None")
    case True
    let ?sv = "spawn_gateway c (b \<and> i = 0) sv"
    have ok: "sv_ok ?sv" by (rule sv_ok_spawn_one [OF 2(2) True])
    have get: "hash_get uri (sv_active ?sv) = (if uri = gw_uri c then Some (length (sv_tasks sv)) else hash_get uri (sv_active sv))"
      by (simp add: spawn_gateway_def hash.get_put sv_okD(1) [OF 2(2)])
    have len: "length (sv_tasks ?sv) = Suc (length (sv_tasks sv))" by (simp add: spawn_gateway_def)
    have IH: "(hash_get uri (sv_active (spawn_gateways b (Suc i) cs ?sv)) \<noteq> None \<longleftrightarrow>
        hash_get uri (sv_active ?sv) \<noteq> None \<or> uri \<in> set (map gw_uri cs)) \<and>
     (\<forall>h. hash_get uri (sv_active (spawn_gateways b (Suc i) cs ?sv)) = Some h \<longrightarrow>
        hash_get uri (sv_active ?sv) = Some h \<or> hash_get uri (sv_active ?sv) = None \<and> length (sv_tasks ?sv) \<le> h)"
      using 2(1) ok True by simp
    show ?thesis
    proof (cases "uri = gw_uri c")
      case True
      with IH get \<open>hash_get (gw_uri c) (sv_active sv) = None\<close> show ?thesis by auto
    next
      case False
      with IH get len \<open>hash_get (gw_uri c) (sv_active sv) = None\<close> show ?thesis by auto
    qed
  next
    case False
    with 2 show ?thesis by auto
  qed
qed simp

lemma reconcile_facts:
  assumes "sv_ok sv"
  shows "(hash_get uri (sv_active (reconcile_connections cs sv)) \<noteq> None \<longleftrightarrow> uri \<in> set (map gw_uri cs))"
    and "hash_get uri (sv_active (reconcile_connections cs sv)) = Some h \<Longrightarrow>
      gt_status (sv_tasks (reconcile_connections cs sv) ! h) = Task_Running"
    and "hash_get uri (sv_active sv) = Some h \<Longrightarrow> gt_status (sv_tasks sv ! h) = Task_Running \<Longrightarrow>
      uri \<in> set (map gw_uri cs) \<Longrightarrow>
      hash_get uri (sv_active (reconcile_connections cs sv)) = Some h \<and>
      sv_tasks (reconcile_connections cs sv) ! h = sv_tasks sv ! h"
proof -
  define sv1 where "sv1 = sv\<lparr>sv_active := hash_retain (\<lambda>uri h. \<not> is_finished sv h) (sv_active sv)\<rparr>"
  define removed where "removed = filter (\<lambda>uri. uri \<notin> set (map gw_uri cs)) (map fst (sv_active sv1))"
  define sv2 where "sv2 = remove_gateways removed sv1"
  define sv3 where "sv3 = spawn_gateways (sv_active sv2 = []) 0 cs sv2"
  have r: "reconcile_connections cs sv = sv3"
    by (simp add: reconcile_connections_def Let_def sv3_def sv2_def removed_def sv1_def)
  have ok1: "sv_ok sv1" unfolding sv1_def by (rule sv_ok_drop_finished [OF assms])
  have ok2: "sv_ok sv2" unfolding sv2_def by (rule sv_ok_remove [OF ok1])
  have get1: "hash_get uri (sv_active sv1) = Some h \<longleftrightarrow>
      hash_get uri (sv_active sv) = Some h \<and> gt_status (sv_tasks sv ! h) = Task_Running" for uri h
    using sv_okD(1) [OF assms] by (simp add: sv1_def hash.get_retain is_finished_def)
  have keys1: "hash_get uri (sv_active sv1) \<noteq> None \<longleftrightarrow> uri \<in> set (map fst (sv_active sv1))" for uri
    by (force simp: hash_get_def map_of_eq_None_iff)
  have get2: "hash_get uri (sv_active sv2) = (if uri \<in> set (map gw_uri cs) then hash_get uri (sv_active sv1) else None)" for uri
    using remove_gateways_active [OF ok1, of uri removed] keys1 [of uri]
    by (auto simp: sv2_def removed_def)
  have task2: "sv_tasks sv2 ! h = sv_tasks sv ! h" if "hash_get uri (sv_active sv2) = Some h" for uri h
  proof -
    from that get2 [of uri] have "uri \<in> set (map gw_uri cs)" "hash_get uri (sv_active sv1) = Some h"
      by (auto split: if_splits)
    moreover then have "uri \<notin> set removed" by (simp add: removed_def)
    ultimately show ?thesis using remove_gateways_tasks [OF ok1] by (simp add: sv2_def sv1_def)
  qed
  obtain new where new: "sv_tasks sv3 = sv_tasks sv2 @ new" "\<forall>t\<in>set new. gt_status t = Task_Running"
    using spawn_gateways_tasks [of "sv_active sv2 = []" 0 cs sv2] by (auto simp: sv3_def)
  note sp = spawn_gateways_active [OF ok2, of _ "sv_active sv2 = []" 0 cs, folded sv3_def]
  have ok3: "sv_ok sv3" using ok2 by (simp add: sv3_def sv_ok_spawn)
  show "hash_get uri (sv_active (reconcile_connections cs sv)) \<noteq> None \<longleftrightarrow> uri \<in> set (map gw_uri cs)"
    using sp [of uri] get2 [of uri] unfolding r by (auto split: if_splits)
  {
    assume "hash_get uri (sv_active (reconcile_connections cs sv)) = Some h"
    then have g: "hash_get uri (sv_active sv3) = Some h" by (simp add: r)
    then have len: "h < length (sv_tasks sv3)" using sv_okD(2) [OF ok3] by blast
    from sp [of uri] g consider "hash_get uri (sv_active sv2) = Some h" | "length (sv_tasks sv2) \<le> h" by blast
    then show "gt_status (sv_tasks (reconcile_connections cs sv) ! h) = Task_Running"
    proof cases
      case 1
      then have "h < length (sv_tasks sv2)" using sv_okD(2) [OF ok2] by blast
      moreover have "gt_status (sv_tasks sv ! h) = Task_Running"
        using 1 get1 [of uri h] get2 [of uri] by (auto split: if_splits)
      ultimately show ?thesis using task2 [OF 1] by (simp add: r new nth_append)
    next
      case 2
      with len new show ?thesis by (simp add: r nth_append)
    qed
  }
  assume a: "hash_get uri (sv_active sv) = Some h" "gt_status (sv_tasks sv ! h) = Task_Running"
    "uri \<in> set (map gw_uri cs)"
  then have g2: "hash_get uri (sv_active sv2) = Some h" using get1 get2 by simp
  then have "hash_get uri (sv_active sv3) = Some h" using sp [of uri] by fastforce
  moreover have "h < length (sv_tasks sv2)" using g2 sv_okD(2) [OF ok2] by blast
  ultimately show "hash_get uri (sv_active (reconcile_connections cs sv)) = Some h \<and>
      sv_tasks (reconcile_connections cs sv) ! h = sv_tasks sv ! h"
    using task2 [OF g2] by (simp add: r new nth_append)
qed

section \<open>The Hydra exchange is handed out once\<close>

lemma length_filter_map: "length (filter P xs) = length (filter id (map P xs))"
  by (simp add: filter_map)

lemma kex_places_remove [simp]: "kex_places (remove_gateways uris sv) = kex_places sv"
proof (induction uris sv rule: remove_gateways.induct)
  case (2 u uris sv)
  have "map gt_hydra_kex (sv_tasks (abort_task h sv')) = map gt_hydra_kex (sv_tasks sv')" for h sv'
    by (rule nth_equalityI) (auto simp: abort_task_def set_task_simps)
  then have "length (filter gt_hydra_kex (sv_tasks (abort_task h sv'))) = length (filter gt_hydra_kex (sv_tasks sv'))" for h sv'
    by (metis length_filter_map)
  with 2 show ?case by (auto simp: kex_places_def abort_task_def set_task_simps split: option.splits)
qed simp

lemma kex_places_spawn [simp]: "kex_places (spawn_gateways b i cs sv) = kex_places sv"
  by (induction b i cs sv rule: spawn_gateways.induct) (auto simp: kex_places_def spawn_gateway_def)

lemma kex_places_set_task:
  assumes "\<And>t. gt_hydra_kex (f t) = gt_hydra_kex t"
  shows "kex_places (set_task h f sv) = kex_places sv"
proof -
  have "map gt_hydra_kex (sv_tasks (set_task h f sv)) = map gt_hydra_kex (sv_tasks sv)"
    by (rule nth_equalityI) (auto simp: set_task_simps assms)
  then have "length (filter id (map gt_hydra_kex (sv_tasks (set_task h f sv)))) =
      length (filter id (map gt_hydra_kex (sv_tasks sv)))" by simp
  then show ?thesis by (simp add: kex_places_def set_task_simps filter_map comp_def)
qed

lemma kex_places_step: "sv_exec l sv = Some sv' \<Longrightarrow> kex_places sv' = kex_places sv"
proof (cases l)
  case (SV_Round registration)
  assume "sv_exec l sv = Some sv'"
  moreover have "kex_places (sv\<lparr>sv_health_errors := es\<rparr>) = kex_places sv"
    "kex_places (sv\<lparr>sv_active := m\<rparr>) = kex_places sv" for sv es m by (simp_all add: kex_places_def)
  ultimately show ?thesis using SV_Round
    by (auto simp: run_all_round_def reconcile_connections_def Let_def split: sum.splits)
next
  case (SV_Reconnect h registration)
  assume "sv_exec l sv = Some sv'"
  with SV_Reconnect show ?thesis
    by (auto split: if_splits intro!: kex_places_set_task split: option.splits)
qed

section \<open>The property\<close>

definition running :: "gateway_task \<Rightarrow> bool" where
  "running t \<longleftrightarrow> gt_status t = Task_Running"

definition connected_uris :: "supervisor \<Rightarrow> string list" where
  "connected_uris sv = map (\<lambda>t. gw_uri (gt_config t)) (filter running (sv_tasks sv))"

lemma distinct_map_filter_nth:
  "(\<And>i j. i < length xs \<Longrightarrow> j < length xs \<Longrightarrow> P (xs ! i) \<Longrightarrow> P (xs ! j) \<Longrightarrow> f (xs ! i) = f (xs ! j) \<Longrightarrow> i = j) \<Longrightarrow>
    distinct (map f (filter P xs))"
proof (induction xs)
  case (Cons x xs)
  have "distinct (map f (filter P xs))"
  proof (rule Cons.IH)
    fix i j
    assume "i < length xs" "j < length xs" "P (xs ! i)" "P (xs ! j)" "f (xs ! i) = f (xs ! j)"
    with Cons.prems [of "Suc i" "Suc j"] show "i = j" by simp
  qed
  moreover have "f x \<notin> f ` {y \<in> set xs. P y}" if "P x"
  proof
    assume "f x \<in> f ` {y \<in> set xs. P y}"
    then obtain j where "j < length xs" "P (xs ! j)" "f x = f (xs ! j)" by (auto simp: in_set_conv_nth)
    with Cons.prems [of 0 "Suc j"] that show False by simp
  qed
  ultimately show ?case by simp
qed simp

lemma connected_distinct: "sv_ok sv \<Longrightarrow> distinct (connected_uris sv)"
  unfolding connected_uris_def
  by (rule distinct_map_filter_nth) (metis sv_okD(3) running_def task_uri_def option.inject)

lemma connected_set:
  assumes "sv_ok sv"
  shows "uri \<in> set (connected_uris sv) \<longleftrightarrow>
    (\<exists>h. hash_get uri (sv_active sv) = Some h \<and> gt_status (sv_tasks sv ! h) = Task_Running)"
proof
  assume "uri \<in> set (connected_uris sv)"
  then obtain h where "h < length (sv_tasks sv)" "gt_status (sv_tasks sv ! h) = Task_Running" "task_uri sv h = uri"
    by (auto simp: connected_uris_def running_def task_uri_def in_set_conv_nth)
  with sv_okD(3) [OF assms] show "\<exists>h. hash_get uri (sv_active sv) = Some h \<and> gt_status (sv_tasks sv ! h) = Task_Running"
    by blast
next
  assume "\<exists>h. hash_get uri (sv_active sv) = Some h \<and> gt_status (sv_tasks sv ! h) = Task_Running"
  then obtain h where "hash_get uri (sv_active sv) = Some h" "gt_status (sv_tasks sv ! h) = Task_Running" by blast
  with sv_okD(2) [OF assms] show "uri \<in> set (connected_uris sv)"
    by (force simp: connected_uris_def running_def task_uri_def)
qed

text \<open>C26: The supervisor of a platform keeps exactly one connection per gateway. In every reachable state no
  two running tasks are for the same URI and at most one task ever got the Hydra key exchange; after a
  round whose registration names some gateways, the running tasks are for exactly their URIs, and those
  that were already running and are still named have not been touched.\<close>

theorem supervisor_tracks_gateways:
  assumes "runs sv_exec ls (sv_start k) = Some sv"
  shows "distinct (connected_uris sv) \<and> length (filter gt_hydra_kex (sv_tasks sv)) \<le> 1 \<and>
    (\<forall>cs. cs \<noteq> [] \<longrightarrow>
       (let sv' = fst (run_all_round (Inr (Some cs)) sv)
        in set (connected_uris sv') = set (map gw_uri cs) \<and> distinct (connected_uris sv') \<and>
           (\<forall>h < length (sv_tasks sv). running (sv_tasks sv ! h) \<longrightarrow>
              gw_uri (gt_config (sv_tasks sv ! h)) \<in> set (map gw_uri cs) \<longrightarrow>
              sv_tasks sv' ! h = sv_tasks sv ! h)))"
proof -
  have ok: "sv_ok sv"
    by (rule runs_invariant [where I = sv_ok, OF assms sv_ok_start]) (rule sv_ok_step)
  have "kex_places sv = kex_places (sv_start k)"
    by (rule runs_invariant [where I = "\<lambda>sv. kex_places sv = kex_places (sv_start k)", OF assms])
      (auto dest: kex_places_step)
  then have "length (filter gt_hydra_kex (sv_tasks sv)) \<le> 1"
    by (auto simp: kex_places_def sv_start_def split: if_splits)
  moreover have "let sv' = fst (run_all_round (Inr (Some cs)) sv)
        in set (connected_uris sv') = set (map gw_uri cs) \<and> distinct (connected_uris sv') \<and>
           (\<forall>h < length (sv_tasks sv). running (sv_tasks sv ! h) \<longrightarrow>
              gw_uri (gt_config (sv_tasks sv ! h)) \<in> set (map gw_uri cs) \<longrightarrow>
              sv_tasks sv' ! h = sv_tasks sv ! h)" if "cs \<noteq> []" for cs
  proof -
    let ?sv = "sv\<lparr>sv_health_errors := []\<rparr>"
    have eq: "fst (run_all_round (Inr (Some cs)) sv) = reconcile_connections cs ?sv"
      using that by (simp add: run_all_round_def Let_def)
    have ok': "sv_ok ?sv" using ok by simp
    note facts = reconcile_facts [OF ok']
    have ok2: "sv_ok (reconcile_connections cs ?sv)" by (rule sv_ok_reconcile [OF ok'])
    have "set (connected_uris (reconcile_connections cs ?sv)) = set (map gw_uri cs)"
    proof (intro set_eqI)
      show "uri \<in> set (connected_uris (reconcile_connections cs ?sv)) \<longleftrightarrow> uri \<in> set (map gw_uri cs)" for uri
        unfolding connected_set [OF ok2] using facts(1) [of uri cs] facts(2) [of uri cs] by blast
    qed
    moreover have "sv_tasks (reconcile_connections cs ?sv) ! h = sv_tasks sv ! h"
      if "h < length (sv_tasks sv)" "running (sv_tasks sv ! h)"
        "gw_uri (gt_config (sv_tasks sv ! h)) \<in> set (map gw_uri cs)" for h
      using facts(3) [of "task_uri sv h" h] sv_okD(3) [OF ok that(1)] that by (simp add: running_def task_uri_def)
    ultimately show ?thesis using connected_distinct [OF ok2] by (simp add: eq Let_def)
  qed
  ultimately show ?thesis using connected_distinct [OF ok] by blast
qed

theorem supervisor_tracks_gateways_witness:
  "\<exists>sv. runs sv_exec
     [SV_Round (Inr (Some [\<lparr>gw_uri = ''a'', gw_access_token = ''1''\<rparr>, \<lparr>gw_uri = ''b'', gw_access_token = ''1''\<rparr>])),
      SV_Reconnect 0 (Inr (Some [\<lparr>gw_uri = ''a'', gw_access_token = ''2''\<rparr>]))] (sv_start True) = Some sv \<and>
     connected_uris sv = [''a'', ''b''] \<and> distinct (connected_uris sv) \<and>
     map gt_hydra_kex (sv_tasks sv) = [True, False]"
proof -
  let ?ls = "[SV_Round (Inr (Some [\<lparr>gw_uri = ''a'', gw_access_token = ''1''\<rparr>, \<lparr>gw_uri = ''b'', gw_access_token = ''1''\<rparr>])),
      SV_Reconnect 0 (Inr (Some [\<lparr>gw_uri = ''a'', gw_access_token = ''2''\<rparr>]))]"
  obtain sv where sv: "runs sv_exec ?ls (sv_start True) = Some sv"
    and u: "connected_uris sv = [''a'', ''b'']" "map gt_hydra_kex (sv_tasks sv) = [True, False]"
    by (simp add: sv_start_def run_all_round_def reconcile_connections_def hash_retain_def hash_get_def
        hash_insert_def spawn_gateway_def set_task_def reconnect_config_def connected_uris_def running_def Let_def)
  from supervisor_tracks_gateways [OF sv] sv u show ?thesis by (intro exI [of _ sv] conjI) simp_all
qed

end
