(* ===== verification/Sdk_Bridge_Connection.thy ===== *)
theory Sdk_Bridge_Connection
  imports Lb_Connection Bridge_Manager Credits
begin

text \<open>
  One WebSocket connection of the gateway with an SDK bridge, \<open>event_loop::run\<close> of
  \<open>crates/gateway/src/sdk_bridge_ws.rs\<close>: the handler of each event, what happens after the loop, and
  the tasks that pass a request through the gateway's own HTTP router and bring its response back as
  an event. Requests are paid with the credits of the connection's Hydra controller; a key exchange
  or a controller holds one of the permits that all connections share.
\<close>

section \<open>State\<close>

datatype gateway_message =
    GM_Response json_response
  | GM_HydraKExResponse bkex_response
  | GM_HydraTunnel tunnel_msg
  | GM_Ping u64
  | GM_Pong u64
  | GM_Error u64 string

datatype bridge_message =
    BM_Request sdk_json_request
  | BM_HydraKExRequest bkex_request
  | BM_HydraTunnel tunnel_msg
  | BM_Ping u64
  | BM_Pong u64

datatype bridge_event =
    BE_Bridge bridge_message
  | BE_New_Response json_response
  | BE_Ping_Tick
  | BE_Finish string

text \<open>
  The permits of an exchange or a controller are not written out: whoever holds one is \<open>Some\<close>.
  \<open>bs_available\<close> is the semaphore \<open>HydrasManager::capacity\<close>, shared with the other connections, and
  \<open>bs_credits_available\<close> the counter of the present controller, shared with its event loop.
\<close>

record bs_conn =
  bs_last_ping_sent_at :: "nat option"
  bs_last_ping_id :: u64
  bs_disconnection_reason :: "string option"
  bs_initial_hydra_kex :: "(bkex_request \<times> bkex_response) option"
  bs_hydra_controller :: "(bkex_request \<times> bkex_response) option"
  bs_tunnel_cancellation :: nat
  bs_tunnel_controller :: "(nat \<times> tunnel_config) option"
  bs_available :: nat
  bs_credits_available :: u64

definition bs_conn_new :: "nat \<Rightarrow> bs_conn" where
  "bs_conn_new available =
     \<lparr>bs_last_ping_sent_at = None, bs_last_ping_id = 0, bs_disconnection_reason = None,
      bs_initial_hydra_kex = None, bs_hydra_controller = None, bs_tunnel_cancellation = 0,
      bs_tunnel_controller = None, bs_available = available, bs_credits_available = 0\<rparr>"

datatype bs_effect =
    BX_Send gateway_message
  | BX_Spawn_Handle_One sdk_json_request
  | BX_Schedule_Ping_Tick
  | BX_Spawn_Controller
  | BX_Terminate_Controller
  | BX_Controller_Dead                         \<comment> \<open>\<open>is_alive\<close> is false, the controller is dropped as it is\<close>
  | BX_Cancel_Tunnel nat
  | BX_Spawn_Listener u16 nat tunnel_config
  | BX_Forward_Tunnel nat
  | BX_Tunnel_Msg nat tunnel_msg
  | BX_Close "string option"
  | BX_Panic

record bs_env =
  bv_http :: http_lib
  bv_socket_open :: bool
  bv_now :: nat
  bv_controller_alive :: bool
  bv_hydras :: "bridge_config option"
  bv_kex :: bkex_env
  bv_listener_error :: "string option"
  bv_show_error :: "hydra_err \<Rightarrow> string"

type_synonym bs_handler = "bs_conn \<Rightarrow> (bs_conn, bs_effect) looped"

text \<open>\<open>websocket_route\<close>: the status that refuses the connection, if any.\<close>

definition bs_websocket_route :: "bridge_config option \<Rightarrow> u16 option" where
  "bs_websocket_route hydras = (if hydras = None then Some 404 else None)"

definition bs_send :: "bs_env \<Rightarrow> gateway_message \<Rightarrow> bs_effect list \<times> bool" where
  "bs_send v m = (if bv_socket_open v then ([BX_Send m], True) else ([], False))"

section \<open>The key exchange\<close>

definition bs_setup_error :: "string \<Rightarrow> gateway_message" where
  "bs_setup_error why = GM_Error 537 (''Hydra micropayments setup error: '' @ why)"

definition bs_drop_controller :: "bs_env \<Rightarrow> bs_conn \<Rightarrow> bs_conn \<times> bs_effect list" where
  "bs_drop_controller v s =
     (case bs_hydra_controller s of
        None \<Rightarrow> (s, [])
      | Some ctl \<Rightarrow>
          (s\<lparr>bs_hydra_controller := None, bs_available := Suc (bs_available s),
             bs_tunnel_cancellation := Suc (bs_tunnel_cancellation s), bs_tunnel_controller := None\<rparr>,
           [if bv_controller_alive v then BX_Terminate_Controller else BX_Controller_Dead,
            BX_Cancel_Tunnel (bs_tunnel_cancellation s)]))"

text \<open>
  The permit of the exchange goes to \<open>spawn_new\<close>, which gives it to the controller or drops it. A new
  exchange takes its permit before the one it replaces gives back its own. No reply: the \<open>expect\<close> on
  the listener has panicked.
\<close>

definition bs_kex_reply ::
  "bs_env \<Rightarrow> bkex_request \<Rightarrow> bs_conn \<Rightarrow> bs_conn \<times> bs_effect list \<times> gateway_message option" where
  "bs_kex_reply v req s =
     (case (bv_hydras v, bq_accepted_bridge_h2h_port req, bs_initial_hydra_kex s) of
        (None, _, _) \<Rightarrow> (s, [], Some (GM_Error 536 ''Hydra micropayments not supported''))
      | (Some c, Some _, Some initial_kex) \<Rightarrow>
          (let s0 = s\<lparr>bs_initial_hydra_kex := None\<rparr>
           in case bridge_spawn_new (bv_kex v) initial_kex req of
                Inl err \<Rightarrow>
                  (s0\<lparr>bs_available := Suc (bs_available s)\<rparr>, [], Some (bs_setup_error (bv_show_error v err)))
              | Inr (final_req, resp) \<Rightarrow>
                  let s1 = s0\<lparr>bs_hydra_controller := Some (final_req, resp), bs_credits_available := 0\<rparr>
                  in if bq_machine_id req = br_machine_id resp then
                       (s1, [BX_Spawn_Controller], Some (GM_HydraKExResponse resp))
                     else
                       let cfg = \<lparr>tc_expose_port = br_gateway_h2h_port resp, tc_id_prefix_bit = True\<rparr>;
                           token = bs_tunnel_cancellation s1;
                           fx = [BX_Spawn_Controller,
                                 BX_Spawn_Listener (br_proposed_bridge_h2h_port resp) token cfg]
                       in case bv_listener_error v of
                            Some _ \<Rightarrow> (s1, fx @ [BX_Panic], None)
                          | None \<Rightarrow>
                              (s1\<lparr>bs_tunnel_controller := Some (token, cfg)\<rparr>, fx @ [BX_Forward_Tunnel token],
                               Some (GM_HydraKExResponse resp)))
      | (Some c, Some _, None) \<Rightarrow>
          (s, [], Some (bs_setup_error ''no pending key exchange; please re-initiate''))
      | (Some c, None, underway) \<Rightarrow>
          (case bridge_initialize_key_exchange (bv_kex v) c (bs_available s) req of
             (k, Inl err) \<Rightarrow> (s\<lparr>bs_available := k\<rparr>, [], Some (bs_setup_error (bv_show_error v err)))
           | (k, Inr resp) \<Rightarrow>
               (s\<lparr>bs_initial_hydra_kex := Some (req, resp),
                  bs_available := (if underway = None then k else Suc k)\<rparr>,
                [], Some (GM_HydraKExResponse resp))))"

definition bs_on_kex_request :: "bs_env \<Rightarrow> bkex_request \<Rightarrow> bs_handler" where
  "bs_on_kex_request v req s =
     (let (s1, fx1) = bs_drop_controller v s;
          (s2, fx2, reply) = bs_kex_reply v req s1
      in case reply of
           None \<Rightarrow> (s2, fx1 @ fx2, False)
         | Some m \<Rightarrow> (let (fx3, ok) = bs_send v m in (s2, fx1 @ fx2 @ fx3, ok)))"

section \<open>Requests\<close>

definition bs_error_response :: "http_lib \<Rightarrow> uuid \<Rightarrow> u16 \<Rightarrow> string \<Rightarrow> json_response" where
  "bs_error_response L request_id code why =
     \<lparr>jr_id = request_id, jr_code = code, jr_header = [], jr_body_base64 = hl_b64_encode L why\<rparr>"

text \<open>
  \<open>try_consume_credit\<close>: only this loop takes credits of its controller, and a concurrent grant only
  makes the compare-and-exchange load again, so that one attempt with the present value decides.
\<close>

definition bs_try_consume_credit :: "bs_conn \<Rightarrow> bs_conn option" where
  "bs_try_consume_credit s =
     (case attempt (bs_credits_available s) (bs_credits_available s) of
        (left, Consumed) \<Rightarrow> Some (s\<lparr>bs_credits_available := left\<rparr>)
      | _ \<Rightarrow> None)"

definition bs_on_request :: "bs_env \<Rightarrow> sdk_json_request \<Rightarrow> bs_handler" where
  "bs_on_request v q s =
     (let refuse = (\<lambda>code why.
            let (fx, ok) = bs_send v (GM_Response (bs_error_response (bv_http v) (sq_id q) code why))
            in (s, fx, ok))
      in if bs_hydra_controller s = None then refuse 503 ''Hydra head is not ready''
         else if \<not> bv_controller_alive v then refuse 503 ''Hydra controller is not running''
         else case bs_try_consume_credit s of
                None \<Rightarrow> refuse 402 ''Prepaid credits exhausted''
              | Some s1 \<Rightarrow> (s1, [BX_Spawn_Handle_One q], True))"

section \<open>The loop\<close>

definition bs_on_ping_tick :: "bs_env \<Rightarrow> bs_handler" where
  "bs_on_ping_tick v s =
     (case bs_last_ping_sent_at s of
        Some _ \<Rightarrow> (s\<lparr>bs_disconnection_reason := Some ''ping timeout''\<rparr>, [], False)
      | None \<Rightarrow>
          (let s1 = s\<lparr>bs_last_ping_id := bs_last_ping_id s + 1, bs_last_ping_sent_at := Some (bv_now v)\<rparr>;
               (fx, ok) = bs_send v (GM_Ping (bs_last_ping_id s1))
           in (s1, BX_Schedule_Ping_Tick # fx, ok)))"

fun bs_handle :: "bs_env \<Rightarrow> bridge_event \<Rightarrow> bs_handler" where
  "bs_handle v (BE_Finish reason) s = (s\<lparr>bs_disconnection_reason := Some reason\<rparr>, [], False)"
| "bs_handle v (BE_Bridge (BM_HydraTunnel m)) s =
     (case bs_tunnel_controller s of
        Some (token, _) \<Rightarrow> (s, [BX_Tunnel_Msg token m], True)
      | None \<Rightarrow> (s, [], True))"
| "bs_handle v (BE_Bridge (BM_HydraKExRequest req)) s = bs_on_kex_request v req s"
| "bs_handle v (BE_Bridge (BM_Request q)) s = bs_on_request v q s"
| "bs_handle v (BE_New_Response r) s = (let (fx, ok) = bs_send v (GM_Response r) in (s, fx, ok))"
| "bs_handle v (BE_Bridge (BM_Ping i)) s = (let (fx, ok) = bs_send v (GM_Pong i) in (s, fx, ok))"
| "bs_handle v (BE_Bridge (BM_Pong i)) s =
     (s\<lparr>bs_last_ping_sent_at := (if i = bs_last_ping_id s then None else bs_last_ping_sent_at s)\<rparr>, [], True)"
| "bs_handle v BE_Ping_Tick s = bs_on_ping_tick v s"

text \<open>What \<open>run\<close> gives back when it ends, or when it unwinds.\<close>

definition bs_drop_all :: "bs_conn \<Rightarrow> bs_conn" where
  "bs_drop_all s =
     s\<lparr>bs_available := bs_available s + (if bs_hydra_controller s = None then 0 else 1) +
                         (if bs_initial_hydra_kex s = None then 0 else 1),
       bs_hydra_controller := None, bs_initial_hydra_kex := None\<rparr>"

definition bs_finish :: "bs_conn \<Rightarrow> bs_effect list" where
  "bs_finish s =
     (if bs_hydra_controller s \<noteq> None then [BX_Terminate_Controller] else []) @
     [BX_Cancel_Tunnel (bs_tunnel_cancellation s), BX_Close (bs_disconnection_reason s)]"

section \<open>The connection as a process\<close>

record bs_process =
  bp_conn :: bs_conn
  bp_queue :: "bridge_event list"
  bp_tasks :: "sdk_json_request list"
  bp_open :: bool
  bp_log :: "bs_effect list"
  bp_lost :: "uuid list"

text \<open>
  Besides its own events, the controller's event loop grants or resets credits, and the other
  connections take and give back permits.
\<close>

datatype bs_step =
    BP_Arrive bridge_event
  | BP_Answer nat "http_request \<Rightarrow> http_response option"   \<comment> \<open>the router answers a task, or times out\<close>
  | BP_Handle bs_env
  | BP_Grant u64
  | BP_Reset_Credits
  | BP_Others_Take
  | BP_Others_Give

definition bs_ids_in :: "bridge_event \<Rightarrow> uuid list" where
  "bs_ids_in e = (case e of BE_Bridge (BM_Request q) \<Rightarrow> [sq_id q] | BE_New_Response r \<Rightarrow> [jr_id r] | _ \<Rightarrow> [])"

fun bs_started :: "bs_effect list \<Rightarrow> sdk_json_request list" where
  "bs_started [] = []"
| "bs_started (BX_Spawn_Handle_One q # fx) = q # bs_started fx"
| "bs_started (_ # fx) = bs_started fx"

definition bs_at_conn :: "(bs_conn \<Rightarrow> bs_conn) \<Rightarrow> bs_process \<Rightarrow> bs_process" where
  "bs_at_conn f p = p\<lparr>bp_conn := f (bp_conn p)\<rparr>"

fun bs_exec :: "http_lib \<Rightarrow> bs_step \<Rightarrow> bs_process \<Rightarrow> bs_process option" where
  "bs_exec L (BP_Arrive e) p =
     (if (case e of BE_New_Response _ \<Rightarrow> True | _ \<Rightarrow> False) then None
      else if \<not> bp_open p then Some (p\<lparr>bp_lost := bp_lost p @ bs_ids_in e\<rparr>)
      else if length (bp_queue p) < LB_EVENT_CAPACITY then Some (p\<lparr>bp_queue := bp_queue p @ [e]\<rparr>)
      else None)"
| "bs_exec L (BP_Answer i router) p =
     (if i < length (bp_tasks p) then
        let r = bw_handle_one L router (bp_tasks p ! i);
            p' = p\<lparr>bp_tasks := take i (bp_tasks p) @ drop (Suc i) (bp_tasks p)\<rparr>
        in if \<not> bp_open p then Some (p'\<lparr>bp_lost := bp_lost p @ [jr_id r]\<rparr>)
           else if length (bp_queue p) < LB_EVENT_CAPACITY then
             Some (p'\<lparr>bp_queue := bp_queue p @ [BE_New_Response r]\<rparr>)
           else None
      else None)"
| "bs_exec L (BP_Handle v) p =
     (if \<not> bp_open p \<or> bv_http v \<noteq> L then None
      else case bp_queue p of
             [] \<Rightarrow> None
           | e # es \<Rightarrow>
               (case bs_handle v e (bp_conn p) of (s, fx, go) \<Rightarrow>
                  if go then Some (p\<lparr>bp_conn := s, bp_queue := es, bp_tasks := bp_tasks p @ bs_started fx,
                                     bp_log := bp_log p @ fx\<rparr>)
                  else Some (p\<lparr>bp_conn := bs_drop_all s, bp_queue := [], bp_open := False,
                               bp_log := bp_log p @ fx @ (if BX_Panic \<in> set fx then [] else bs_finish s),
                               bp_lost := bp_lost p @ bs_ids_in e @ concat (map bs_ids_in es)\<rparr>)))"
| "bs_exec L (BP_Grant n) p =
     (if bs_hydra_controller (bp_conn p) = None then None
      else Some (bs_at_conn (\<lambda>s. s\<lparr>bs_credits_available := bs_credits_available s + n\<rparr>) p))"
| "bs_exec L BP_Reset_Credits p =
     (if bs_hydra_controller (bp_conn p) = None then None
      else Some (bs_at_conn (\<lambda>s. s\<lparr>bs_credits_available := 0\<rparr>) p))"
| "bs_exec L BP_Others_Take p =
     (if bs_available (bp_conn p) = 0 then None
      else Some (bs_at_conn (\<lambda>s. s\<lparr>bs_available := bs_available s - 1\<rparr>) p))"
| "bs_exec L BP_Others_Give p =
     Some (bs_at_conn (\<lambda>s. s\<lparr>bs_available := Suc (bs_available s)\<rparr>) p)"

definition bs_start :: "nat \<Rightarrow> bs_process" where
  "bs_start available =
     \<lparr>bp_conn = bs_conn_new available, bp_queue = [BE_Ping_Tick], bp_tasks = [], bp_open = True,
      bp_log = [], bp_lost = []\<rparr>"

end
