(* ===== verification/Sdk_Bridge_Connection_Correct.thy ===== *)
theory Sdk_Bridge_Connection_Correct
  imports Sdk_Bridge_Connection
begin

text \<open>
  What a connection with an SDK bridge promises: every request is settled exactly once, no more of them
  reach the router than credits were granted, a controller never outlives its successor or the loop
  (unless the loop panics), the permits are kept in balance, and a silent bridge is disconnected.
\<close>

section \<open>Requests and answers\<close>

fun bs_answered :: "bs_effect list \<Rightarrow> json_response list" where
  "bs_answered [] = []"
| "bs_answered (BX_Send (GM_Response r) # fx) = r # bs_answered fx"
| "bs_answered (_ # fx) = bs_answered fx"

definition bs_request_of :: "bridge_event \<Rightarrow> sdk_json_request list" where
  "bs_request_of e = (case e of BE_Bridge (BM_Request q) \<Rightarrow> [q] | _ \<Rightarrow> [])"

definition bs_received :: "bs_step \<Rightarrow> sdk_json_request list" where
  "bs_received l = (case l of BP_Arrive e \<Rightarrow> bs_request_of e | _ \<Rightarrow> [])"

definition bs_taken_in :: "bs_step \<Rightarrow> uuid multiset" where
  "bs_taken_in l = mset (map sq_id (bs_received l))"

definition bs_settled :: "bs_process \<Rightarrow> uuid multiset" where
  "bs_settled p = mset (map jr_id (bs_answered (bp_log p))) + mset (bp_lost p)"

definition bs_pending :: "bs_process \<Rightarrow> uuid multiset" where
  "bs_pending p = mset (map sq_id (bp_tasks p)) + mset (concat (map bs_ids_in (bp_queue p)))"

definition bs_process_ok :: "bs_process \<Rightarrow> bool" where
  "bs_process_ok p \<longleftrightarrow> (if bp_open p then bp_lost p = [] else bp_queue p = [])"

lemma bs_answered_append [simp]: "bs_answered (fx @ gx) = bs_answered fx @ bs_answered gx"
  by (induction fx rule: bs_answered.induct) simp_all

lemma bs_started_append [simp]: "bs_started (fx @ gx) = bs_started fx @ bs_started gx"
  by (induction fx rule: bs_started.induct) simp_all

lemma bs_finish_simps [simp]: "bs_answered (bs_finish s) = []" "bs_started (bs_finish s) = []"
  by (simp_all add: bs_finish_def)

lemma bw_handle_one_id [simp]: "jr_id (bw_handle_one L router q) = sq_id q"
  by (auto simp: bw_handle_one_def bw_response_to_json_def error_json_def Let_def
      split: sum.splits option.splits)

text \<open>The key exchange has nothing to do with requests.\<close>

lemma bs_kex_no_requests:
  assumes "bs_on_kex_request v req s = (s', fx, go)"
  shows "bs_started fx = [] \<and> bs_answered fx = []"
  using assms
  by (auto simp: bs_on_kex_request_def bs_drop_controller_def bs_kex_reply_def bs_setup_error_def bs_send_def
      Let_def split: option.splits sum.splits prod.splits if_splits)

lemmas bs_handler_defs = bs_on_request_def bs_send_def bs_on_ping_tick_def bs_try_consume_credit_def attempt_def

text \<open>The refusals of the connection itself.\<close>

definition bs_refusals :: "http_lib \<Rightarrow> sdk_json_request \<Rightarrow> json_response list" where
  "bs_refusals L q =
     [bs_error_response L (sq_id q) 503 ''Hydra head is not ready'',
      bs_error_response L (sq_id q) 503 ''Hydra controller is not running'',
      bs_error_response L (sq_id q) 402 ''Prepaid credits exhausted'']"

text \<open>An event's ids go to the router, to the bridge, or are lost with the connection.\<close>

lemma bs_handle_ids:
  assumes "bs_handle v e s = (s', fx, go)"
  shows "if go then mset (bs_ids_in e) = mset (map sq_id (bs_started fx)) + mset (map jr_id (bs_answered fx))
     else bs_started fx = [] \<and> bs_answered fx = []"
  using assms
proof (cases "(v, e, s)" rule: bs_handle.cases)
  case (3 v req s)
  with assms bs_kex_no_requests show ?thesis by (auto simp: bs_ids_in_def)
qed (auto simp: bs_ids_in_def bs_handler_defs bs_error_response_def Let_def split: if_splits option.splits)

lemma bs_handle_requests:
  assumes "bs_handle v e s = (s', fx, go)"
  shows "set (bs_started fx) \<subseteq> set (bs_request_of e) \<and>
    set (bs_answered fx) \<subseteq>
      {r. e = BE_New_Response r} \<union> (\<Union>q\<in>set (bs_request_of e). set (bs_refusals (bv_http v) q))"
  using assms
proof (cases "(v, e, s)" rule: bs_handle.cases)
  case (3 v req s)
  with assms bs_kex_no_requests show ?thesis by (auto simp: bs_ids_in_def)
qed (auto simp: bs_request_of_def bs_refusals_def bs_handler_defs Let_def split: if_splits option.splits)

lemma bs_exec_conserves:
  assumes "bs_process_ok p" and "bs_exec L l p = Some p'"
  shows "bs_process_ok p' \<and> bs_settled p + bs_pending p + bs_taken_in l = bs_settled p' + bs_pending p'"
proof (cases l)
  case (BP_Arrive e)
  have "bs_ids_in e = map sq_id (bs_request_of e)" if "case e of BE_New_Response _ \<Rightarrow> False | _ \<Rightarrow> True"
    using that by (auto simp: bs_ids_in_def bs_request_of_def split: bridge_event.splits bridge_message.splits)
  with assms BP_Arrive show ?thesis
    by (auto simp: bs_process_ok_def bs_settled_def bs_pending_def bs_taken_in_def bs_received_def
        split: if_splits bridge_event.splits)
next
  case (BP_Answer i router)
  with assms mset_remove_index [of i "bp_tasks p" sq_id] show ?thesis
    by (auto simp: bs_process_ok_def bs_settled_def bs_pending_def bs_taken_in_def bs_received_def bs_ids_in_def
        Let_def split: if_splits)
next
  case (BP_Handle v)
  with assms obtain e es where q: "bp_queue p = e # es" and o: "bp_open p"
    by (auto split: if_splits list.splits)
  obtain s fx go where h: "bs_handle v e (bp_conn p) = (s, fx, go)"
    by (cases "bs_handle v e (bp_conn p)")
  from bs_handle_ids [OF h] assms BP_Handle q o h show ?thesis
    by (auto simp: bs_process_ok_def bs_settled_def bs_pending_def bs_taken_in_def bs_received_def
        split: if_splits)
qed (use assms in \<open>auto simp: bs_process_ok_def bs_settled_def bs_pending_def bs_taken_in_def bs_received_def
      bs_at_conn_def split: if_splits\<close>)

interpretation bsp: settling_process "bs_exec L" bs_process_ok bs_settled bs_pending bs_taken_in for L
  by unfold_locales (use bs_exec_conserves in blast)+

section \<open>Where the answers come from\<close>

definition bs_answers :: "http_lib \<Rightarrow> sdk_json_request set \<Rightarrow> json_response set" where
  "bs_answers L Q = {bw_handle_one L router q | router q. q \<in> Q} \<union> (\<Union>q\<in>Q. set (bs_refusals L q))"

definition bs_origin_ok :: "http_lib \<Rightarrow> sdk_json_request set \<Rightarrow> bs_process \<Rightarrow> bool" where
  "bs_origin_ok L Q p \<longleftrightarrow> set (bp_tasks p) \<subseteq> Q \<and> set (bs_answered (bp_log p)) \<subseteq> bs_answers L Q \<and>
     (\<forall>e\<in>set (bp_queue p). set (bs_request_of e) \<subseteq> Q \<and>
        (\<forall>r. e = BE_New_Response r \<longrightarrow> r \<in> bs_answers L Q))"

lemma bs_origin_step:
  assumes "bs_exec L l p = Some p'" and "bs_origin_ok L Q p" and "set (bs_received l) \<subseteq> Q"
  shows "bs_origin_ok L Q p'"
proof (cases l)
  case (BP_Arrive e)
  with assms show ?thesis
    by (auto simp: bs_origin_ok_def bs_received_def split: if_splits bridge_event.splits) blast+
next
  case (BP_Answer i router)
  with assms(1) have i: "i < length (bp_tasks p)" by (auto split: if_splits)
  then have "bp_tasks p ! i \<in> Q" using assms(2) by (auto simp: bs_origin_ok_def)
  then have r: "bw_handle_one L router (bp_tasks p ! i) \<in> bs_answers L Q" by (auto simp: bs_answers_def)
  from assms BP_Answer i r show ?thesis
    by (auto simp: bs_origin_ok_def bs_request_of_def Let_def split: if_splits)
      (blast dest: in_set_takeD in_set_dropD)+
next
  case (BP_Handle v)
  with assms obtain e es where q: "bp_queue p = e # es" and o: "bp_open p" and L: "bv_http v = L"
    by (auto split: if_splits list.splits)
  obtain s fx go where h: "bs_handle v e (bp_conn p) = (s, fx, go)"
    by (cases "bs_handle v e (bp_conn p)")
  have e: "set (bs_request_of e) \<subseteq> Q" "\<And>r. e = BE_New_Response r \<Longrightarrow> r \<in> bs_answers L Q"
    using assms(2) q by (auto simp: bs_origin_ok_def)
  have "set (bs_answered fx) \<subseteq> bs_answers L Q"
    using bs_handle_requests [OF h] e L by (fastforce simp: bs_answers_def)
  moreover have "set (bs_started fx) \<subseteq> Q" using bs_handle_requests [OF h] e(1) by blast
  ultimately show ?thesis using assms BP_Handle q o h
    by (auto simp: bs_origin_ok_def split: if_splits)
qed (use assms in \<open>auto simp: bs_origin_ok_def bs_at_conn_def split: if_splits\<close>)

lemma bs_origin_run:
  assumes "runs (bs_exec L) ls p = Some p'" and "bs_origin_ok L Q p" and "\<forall>l\<in>set ls. set (bs_received l) \<subseteq> Q"
  shows "bs_origin_ok L Q p'"
  using assms
proof (induction ls arbitrary: p)
  case (Cons l ls)
  then obtain q where "bs_exec L l p = Some q" "runs (bs_exec L) ls q = Some p'"
    by (auto simp: bind_eq_Some_conv)
  with Cons bs_origin_step show ?case by (metis list.set_intros(1,2))
qed simp

section \<open>Credits\<close>

definition granted_by :: "bs_step \<Rightarrow> nat" where
  "granted_by l = (case l of BP_Grant n \<Rightarrow> unat n | _ \<Rightarrow> 0)"

lemma bs_kex_credits:
  assumes "bs_on_kex_request v req s = (s', fx, go)"
  shows "bs_credits_available s' = bs_credits_available s \<or> bs_credits_available s' = 0"
  using assms
  by (auto simp: bs_on_kex_request_def bs_drop_controller_def bs_kex_reply_def Let_def
      split: option.splits sum.splits prod.splits if_splits)

lemma bs_handle_pays:
  assumes "bs_handle v e s = (s', fx, go)"
  shows "length (bs_started fx) + unat (bs_credits_available s') \<le> unat (bs_credits_available s)"
  using assms
proof (cases "(v, e, s)" rule: bs_handle.cases)
  case (3 v req s)
  with assms bs_kex_no_requests bs_kex_credits show ?thesis by fastforce
next
  case (4 v q s)
  have "unat (c - 1) < unat c" if "c \<noteq> 0" for c :: u64
    using that by (simp add: unat_minus_one unat_gt_0)
  with 4 assms show ?thesis
    by (fastforce simp: bs_handler_defs Let_def Suc_le_eq split: if_splits option.splits)
qed (auto simp: bs_handler_defs Let_def split: if_splits option.splits)

definition paid_up :: "nat \<Rightarrow> bs_process \<Rightarrow> bool" where
  "paid_up n p \<longleftrightarrow> length (bs_started (bp_log p)) + unat (bs_credits_available (bp_conn p)) \<le> n"

lemma bs_exec_pays:
  assumes "bs_exec L l p = Some p'" and "paid_up n p"
  shows "paid_up (n + granted_by l) p'"
proof (cases l)
  case (BP_Handle v)
  with assms obtain e es where q: "bp_queue p = e # es" by (auto split: if_splits list.splits)
  obtain s fx go where h: "bs_handle v e (bp_conn p) = (s, fx, go)"
    by (cases "bs_handle v e (bp_conn p)")
  from bs_handle_pays [OF h] assms BP_Handle q h show ?thesis
    by (auto simp: paid_up_def granted_by_def bs_drop_all_def split: if_splits)
next
  case (BP_Grant x)
  have "unat (bs_credits_available (bp_conn p) + x) \<le> unat (bs_credits_available (bp_conn p)) + unat x"
    by (simp add: unat_word_ariths)
  with assms BP_Grant show ?thesis
    by (auto simp: paid_up_def granted_by_def bs_at_conn_def split: if_splits)
qed (use assms in \<open>auto simp: paid_up_def granted_by_def bs_at_conn_def Let_def split: if_splits\<close>)

lemma bs_run_pays:
  "runs (bs_exec L) ls p = Some p' \<Longrightarrow> paid_up n p \<Longrightarrow> paid_up (n + sum_list (map granted_by ls)) p'"
proof (induction ls arbitrary: p n)
  case (Cons l ls)
  then obtain q where "bs_exec L l p = Some q" "runs (bs_exec L) ls q = Some p'"
    by (auto simp: bind_eq_Some_conv)
  with Cons.IH [of q "n + granted_by l"] bs_exec_pays Cons.prems(2) show ?case by (simp add: add.assoc)
qed simp

section \<open>Controllers and permits\<close>

text \<open>Whether a controller is left running after the effects: one is started only when none runs.\<close>

fun controller_after :: "bs_effect list \<Rightarrow> bool \<Rightarrow> bool option" where
  "controller_after [] live = Some live"
| "controller_after (x # fx) live =
     (if x = BX_Spawn_Controller then (if live then None else controller_after fx True)
      else if x = BX_Terminate_Controller \<or> x = BX_Controller_Dead then
        (if live then controller_after fx False else None)
      else controller_after fx live)"

lemma controller_after_append:
  "controller_after (fx @ gx) live = Option.bind (controller_after fx live) (controller_after gx)"
  by (induction fx live rule: controller_after.induct) auto

definition held_permits :: "bs_conn \<Rightarrow> nat" where
  "held_permits s = (if bs_hydra_controller s = None then 0 else 1) + (if bs_initial_hydra_kex s = None then 0 else 1)"

lemma bs_drop_controller_facts:
  assumes "bs_drop_controller v s = (s', fx)"
  shows "bs_hydra_controller s' = None \<and> bs_initial_hydra_kex s' = bs_initial_hydra_kex s \<and>
    controller_after fx (bs_hydra_controller s \<noteq> None) = Some False \<and> BX_Panic \<notin> set fx \<and>
    bs_available s' + held_permits s' = bs_available s + held_permits s"
  using assms by (auto simp: bs_drop_controller_def held_permits_def split: option.splits if_splits)

lemma bs_kex_reply_facts:
  assumes "bs_kex_reply v req s = (s', fx, reply)" and "bs_hydra_controller s = None"
  shows "controller_after fx False = Some (bs_hydra_controller s' \<noteq> None) \<and>
    (BX_Panic \<in> set fx \<longleftrightarrow> reply = None) \<and> (reply = None \<longrightarrow> bs_hydra_controller s' \<noteq> None) \<and>
    bs_available s' + held_permits s' = bs_available s + held_permits s"
proof -
  have permit: "k + (case r of Inl _ \<Rightarrow> 0 | Inr _ \<Rightarrow> 1) = bs_available s"
    if "bridge_initialize_key_exchange w c (bs_available s) req = (k, r)" for w c k r
    using that by (auto simp: bridge_initialize_key_exchange_def Let_def split: if_splits sum.splits)
  show ?thesis
    using assms permit
    by (fastforce simp: bs_kex_reply_def held_permits_def bs_setup_error_def Let_def
        split: option.splits sum.splits prod.splits if_splits)
qed

lemma bs_handle_life:
  assumes "bs_handle v e s = (s', fx, go)"
  shows "controller_after fx (bs_hydra_controller s \<noteq> None) = Some (bs_hydra_controller s' \<noteq> None) \<and>
    (BX_Panic \<in> set fx \<longrightarrow> \<not> go \<and> bs_hydra_controller s' \<noteq> None) \<and>
    bs_available s' + held_permits s' = bs_available s + held_permits s"
  using assms
proof (cases "(v, e, s)" rule: bs_handle.cases)
  case (3 v req s)
  obtain s1 fx1 where d: "bs_drop_controller v s = (s1, fx1)" by (cases "bs_drop_controller v s")
  obtain s2 fx2 reply where r: "bs_kex_reply v req s1 = (s2, fx2, reply)" by (cases "bs_kex_reply v req s1")
  note facts = bs_drop_controller_facts [OF d]
  note facts2 = bs_kex_reply_facts [OF r]
  from 3 assms d r facts facts2 show ?thesis
    by (auto simp: bs_on_kex_request_def bs_send_def controller_after_append split: option.splits if_splits)
qed (auto simp: bs_handler_defs held_permits_def Let_def split: if_splits option.splits)

definition lifecycle_ok :: "bs_process \<Rightarrow> bool" where
  "lifecycle_ok p \<longleftrightarrow>
     (if bp_open p then BX_Panic \<notin> set (bp_log p) \<and>
        controller_after (bp_log p) False = Some (bs_hydra_controller (bp_conn p) \<noteq> None)
      else held_permits (bp_conn p) = 0 \<and>
        controller_after (bp_log p) False = Some (BX_Panic \<in> set (bp_log p)))"

lemma lifecycle_step:
  assumes "lifecycle_ok p" and "bs_exec L l p = Some p'"
  shows "lifecycle_ok p'"
proof (cases l)
  case (BP_Handle v)
  with assms obtain e es where q: "bp_queue p = e # es" and o: "bp_open p"
    by (auto split: if_splits list.splits)
  obtain s fx go where h: "bs_handle v e (bp_conn p) = (s, fx, go)"
    by (cases "bs_handle v e (bp_conn p)")
  from bs_handle_life [OF h] assms BP_Handle q o h show ?thesis
    by (auto simp: lifecycle_ok_def bs_drop_all_def bs_finish_def held_permits_def controller_after_append
        split: if_splits)
qed (use assms in \<open>auto simp: lifecycle_ok_def bs_at_conn_def held_permits_def Let_def split: if_splits\<close>)

text \<open>The permits, with those that others took (negative) and gave back.\<close>

definition others :: "bs_step \<Rightarrow> int" where
  "others l = (case l of BP_Others_Take \<Rightarrow> - 1 | BP_Others_Give \<Rightarrow> 1 | _ \<Rightarrow> 0)"

lemma bs_exec_permits:
  assumes "bs_exec L l p = Some p'"
  shows "int (bs_available (bp_conn p') + held_permits (bp_conn p')) =
    int (bs_available (bp_conn p) + held_permits (bp_conn p)) + others l"
proof (cases l)
  case (BP_Handle v)
  with assms obtain e es where q: "bp_queue p = e # es" by (auto split: if_splits list.splits)
  obtain s fx go where h: "bs_handle v e (bp_conn p) = (s, fx, go)"
    by (cases "bs_handle v e (bp_conn p)")
  have "bs_available (bs_drop_all s) + held_permits (bs_drop_all s) = bs_available s + held_permits s"
    by (simp add: bs_drop_all_def held_permits_def)
  with bs_handle_life [OF h] assms BP_Handle q h show ?thesis
    by (auto simp: others_def split: if_splits)
qed (use assms in \<open>auto simp: others_def bs_at_conn_def held_permits_def Let_def split: if_splits\<close>)

lemma bs_run_permits:
  "runs (bs_exec L) ls p = Some p' \<Longrightarrow>
    int (bs_available (bp_conn p') + held_permits (bp_conn p')) =
    int (bs_available (bp_conn p) + held_permits (bp_conn p)) + sum_list (map others ls)"
proof (induction ls arbitrary: p)
  case (Cons l ls)
  then obtain q where "bs_exec L l p = Some q" "runs (bs_exec L) ls q = Some p'"
    by (auto simp: bind_eq_Some_conv)
  with Cons.IH bs_exec_permits show ?case by fastforce
qed simp

section \<open>Liveness of the peer\<close>

lemma bs_kex_keeps_ping:
  assumes "bs_on_kex_request v req s = (s', fx, go)"
  shows "bs_last_ping_id s' = bs_last_ping_id s \<and> bs_last_ping_sent_at s' = bs_last_ping_sent_at s"
  using assms
  by (auto simp: bs_on_kex_request_def bs_drop_controller_def bs_kex_reply_def Let_def
      split: option.splits sum.splits prod.splits if_splits)

interpretation bsw: ping_watchdog bs_handle "\<lambda>s. bs_last_ping_sent_at s \<noteq> None" bs_last_ping_id
  BE_Ping_Tick "\<lambda>i. BE_Bridge (BM_Pong i)" "\<lambda>i. BX_Send (GM_Ping i)" bv_socket_open
proof
  fix s s' :: bs_conn and v fx go
  assume "bs_handle v BE_Ping_Tick s = (s', fx, go)"
  then show "bs_last_ping_sent_at s \<noteq> None \<Longrightarrow> \<not> go"
    and "\<not> bs_last_ping_sent_at s \<noteq> None \<Longrightarrow>
      bs_last_ping_id s' = bs_last_ping_id s + 1 \<and> bs_last_ping_sent_at s' \<noteq> None \<and> go = bv_socket_open v \<and>
      (bv_socket_open v \<longrightarrow> BX_Send (GM_Ping (bs_last_ping_id s')) \<in> set fx)"
    by (auto simp: bs_on_ping_tick_def Let_def bs_send_def split: if_splits)
next
  fix s s' :: bs_conn and v fx go i
  assume "bs_handle v (BE_Bridge (BM_Pong i)) s = (s', fx, go)"
  then show "go \<and> bs_last_ping_id s' = bs_last_ping_id s \<and>
      ((bs_last_ping_sent_at s' \<noteq> None) = (bs_last_ping_sent_at s \<noteq> None \<and> i \<noteq> bs_last_ping_id s))"
    by (auto split: if_splits)
next
  fix s s' :: bs_conn and v e fx go
  assume a: "e \<noteq> BE_Ping_Tick" "e \<notin> range (\<lambda>i. BE_Bridge (BM_Pong i))" "bs_handle v e s = (s', fx, go)"
  then show "bs_last_ping_id s' = bs_last_ping_id s \<and>
      (bs_last_ping_sent_at s' \<noteq> None) = (bs_last_ping_sent_at s \<noteq> None)"
  proof (cases "(v, e, s)" rule: bs_handle.cases)
    case (3 v req s)
    with a bs_kex_keeps_ping show ?thesis by auto
  qed (auto simp: bs_handler_defs Let_def split: option.splits if_splits)
qed

section \<open>The properties\<close>

text \<open>C27: Every request of an SDK bridge is settled exactly once and paid before it is served. In every run
  of a connection, the ids of the requests that arrived are, counted with multiplicity, those of the
  responses sent, those in the router or in the queue, and those that died with the connection, of which
  there are none while it lasts; each response is the router's answer, or the error that stands for it,
  or one of the three refusals, to a request that arrived; and no more requests ever reached the router
  than the controllers of the connection granted credits.\<close>

theorem bridge_requests_paid:
  assumes "runs (bs_exec L) ls (bs_start k) = Some p"
  shows "sum_list (map bs_taken_in ls) =
      mset (map jr_id (bs_answered (bp_log p))) + mset (bp_lost p) + bs_pending p \<and>
    (bp_open p \<longrightarrow> bp_lost p = []) \<and>
    set (bs_answered (bp_log p)) \<subseteq> bs_answers L (set (concat (map bs_received ls))) \<and>
    length (bs_started (bp_log p)) \<le> sum_list (map granted_by ls)"
proof -
  have start: "bs_process_ok (bs_start k)" "bs_settled (bs_start k) = {#}" "bs_pending (bs_start k) = {#}"
    by (simp_all add: bs_process_ok_def bs_settled_def bs_pending_def bs_start_def bs_ids_in_def)
  have "bs_origin_ok L (set (concat (map bs_received ls))) p"
    by (rule bs_origin_run [OF assms]) (auto simp: bs_origin_ok_def bs_start_def bs_request_of_def)
  moreover have "bs_process_ok p" using bsp.run_settles [OF start(1) assms] by simp
  moreover have "paid_up 0 (bs_start k)" by (simp add: paid_up_def bs_start_def bs_conn_new_def)
  from bs_run_pays [OF assms this] have "paid_up (sum_list (map granted_by ls)) p" by simp
  ultimately show ?thesis
    using bsp.run_from_nothing [OF start assms]
    by (simp add: bs_settled_def bs_origin_ok_def bs_process_ok_def paid_up_def)
qed

definition bs_demo_env :: bs_env where
  "bs_demo_env = \<lparr>bv_http = demo_http_lib, bv_socket_open = True, bv_now = 0, bv_controller_alive = True,
     bv_hydras = Some bkex_demo_config, bv_kex = bkex_demo_env, bv_listener_error = None,
     bv_show_error = (\<lambda>_. ''error'')\<rparr>"

definition demo_sdk_request :: sdk_json_request where
  "demo_sdk_request = \<lparr>sq_id = Uuid 7, sq_method = JGET, sq_path = ''/'', sq_header = [], sq_body_base64 = []\<rparr>"

text \<open>A tick, then the two requests of a key exchange; the port is the one that was proposed.\<close>

definition bs_demo_setup :: "bs_env \<Rightarrow> bs_step list" where
  "bs_demo_setup v =
     [BP_Handle v, BP_Arrive (BE_Bridge (BM_HydraKExRequest bkex_demo_req)), BP_Handle v,
      BP_Arrive (BE_Bridge (BM_HydraKExRequest
        (bkex_demo_req\<lparr>bq_accepted_bridge_h2h_port := Some 5001\<rparr>))), BP_Handle v]"

lemmas bs_demo_defs = bs_demo_setup_def bs_start_def bs_conn_new_def LB_EVENT_CAPACITY_def bs_on_ping_tick_def
  bs_send_def bs_on_kex_request_def bs_drop_controller_def bs_kex_reply_def bs_demo_env_def
  bridge_initialize_key_exchange_def bridge_spawn_new_def bkex_demo_env_def bkex_demo_config_def
  bkex_demo_req_def f64_of_u64_def MIN_FUEL_LOVELACE_def

theorem bridge_requests_paid_witness:
  "\<exists>p. runs (bs_exec demo_http_lib)
     (bs_demo_setup bs_demo_env @
      [BP_Grant 1, BP_Arrive (BE_Bridge (BM_Request demo_sdk_request)), BP_Handle bs_demo_env,
       BP_Arrive (BE_Bridge (BM_Request (demo_sdk_request\<lparr>sq_id := Uuid 8\<rparr>))), BP_Handle bs_demo_env,
       BP_Answer 0 (\<lambda>_. None), BP_Handle bs_demo_env]) (bs_start 1) = Some p \<and>
     map jr_code (bs_answered (bp_log p)) = [402, 504] \<and> bp_lost p = [] \<and> bs_pending p = {#}"
proof -
  let ?ls = "bs_demo_setup bs_demo_env @
      [BP_Grant 1, BP_Arrive (BE_Bridge (BM_Request demo_sdk_request)), BP_Handle bs_demo_env,
       BP_Arrive (BE_Bridge (BM_Request (demo_sdk_request\<lparr>sq_id := Uuid 8\<rparr>))), BP_Handle bs_demo_env,
       BP_Answer 0 (\<lambda>_. None), BP_Handle bs_demo_env]"
  obtain p where p: "runs (bs_exec demo_http_lib) ?ls (bs_start 1) = Some p"
    and a: "map jr_code (bs_answered (bp_log p)) = [402, 504]"
      "map jr_id (bs_answered (bp_log p)) = [Uuid 8, Uuid 7]" "bp_open p"
    by (simp add: bs_demo_defs bs_on_request_def bs_try_consume_credit_def attempt_def bs_at_conn_def
        bs_error_response_def demo_sdk_request_def bw_handle_one_def bw_json_to_request_def demo_http_lib_def
        build_request_def headers_ok_def error_json_def decode_body_def Let_def)
  from bridge_requests_paid [OF p] a
  have "bp_lost p = []" "{#Uuid 7, Uuid 8#} = {#Uuid 8, Uuid 7#} + bs_pending p"
    by (simp_all add: bs_taken_in_def bs_received_def bs_request_of_def demo_sdk_request_def bs_demo_setup_def)
  with p a show ?thesis by (intro exI [of _ p] conjI) simp_all
qed

text \<open>C28: A connection with an SDK bridge never leaves a Hydra controller behind, unless it panics. In every
  run a controller is only started when the previous one was terminated or is dead; once the loop has
  ended the last one was told to terminate, except after the panic over a tunnel port that cannot be
  bound, which leaves its controller running; and the permits it holds and the free ones always add up to
  those at the start and those that other connections gave back or took, with none held at the end.\<close>

theorem bridge_controllers_cleaned_up:
  assumes "runs (bs_exec L) ls (bs_start k) = Some p"
  shows "\<exists>live. controller_after (bp_log p) False = Some live \<and>
    (bp_open p \<longrightarrow> (live \<longleftrightarrow> bs_hydra_controller (bp_conn p) \<noteq> None)) \<and>
    (\<not> bp_open p \<longrightarrow> (live \<longleftrightarrow> BX_Panic \<in> set (bp_log p)) \<and> held_permits (bp_conn p) = 0) \<and>
    int (bs_available (bp_conn p) + held_permits (bp_conn p)) = int k + sum_list (map others ls)"
proof -
  have "lifecycle_ok p"
  proof (rule runs_invariant [where I = lifecycle_ok, OF assms])
    show "lifecycle_ok (bs_start k)" by (simp add: lifecycle_ok_def bs_start_def bs_conn_new_def)
  qed (rule lifecycle_step)
  moreover have "int (bs_available (bp_conn p) + held_permits (bp_conn p)) = int k + sum_list (map others ls)"
    using bs_run_permits [OF assms] by (simp add: bs_start_def bs_conn_new_def held_permits_def)
  ultimately show ?thesis by (simp add: lifecycle_ok_def split: if_splits)
qed

text \<open>The panic: the port of the tunnel is taken, the permit is free again, the controller still runs.\<close>

theorem bridge_controllers_cleaned_up_witness:
  "\<exists>p. runs (bs_exec demo_http_lib) (bs_demo_setup (bs_demo_env\<lparr>bv_listener_error := Some ''busy''\<rparr>)) (bs_start 1) =
      Some p \<and>
     \<not> bp_open p \<and> controller_after (bp_log p) False = Some True \<and> bs_available (bp_conn p) = 1"
proof -
  obtain p where p: "runs (bs_exec demo_http_lib)
      (bs_demo_setup (bs_demo_env\<lparr>bv_listener_error := Some ''busy''\<rparr>)) (bs_start 1) = Some p"
    and a: "\<not> bp_open p" "BX_Panic \<in> set (bp_log p)"
    by (simp add: bs_demo_defs Let_def)
  from bridge_controllers_cleaned_up [OF p] a
  have "controller_after (bp_log p) False = Some True" "bs_available (bp_conn p) = 1"
    by (auto simp: others_def bs_demo_setup_def)
  with p a show ?thesis by blast
qed

text \<open>
  An exchange that was proposed but not accepted holds its permit until the next one has taken
  another: with a single permit, a bridge that starts over on the same connection is refused.
\<close>

lemma bridge_cannot_start_over:
  assumes "bs_hydra_controller s = None" and "bs_available s = 0" and "bs_initial_hydra_kex s \<noteq> None"
    and "bv_hydras v \<noteq> None" and "bq_accepted_bridge_h2h_port req = None"
  shows "\<exists>why. bs_kex_reply v req s = (s, [], Some (GM_Error 537 why))"
  using assms by (auto simp: bs_kex_reply_def bridge_initialize_key_exchange_def bs_setup_error_def)

end
