(* ===== verification/Sdk_Session.thy ===== *)
theory Sdk_Session
  imports Sdk_Bridge_Connection
begin

text \<open>
  The SDK bridge between its HTTP clients and the gateway: \<open>proxy_route\<close> of
  \<open>crates/sdk_bridge/src/http_proxy.rs\<close> and the WebSocket sessions of
  \<open>crates/sdk_bridge/src/ws_client.rs\<close> (\<open>run_ws_session\<close>, \<open>run_ws_loop\<close>). A call waits for the one-shot
  answer to its request; requests wait in a channel that outlives the sessions, which take them from
  there into their event queue and then into the table of requests in flight. The messages are those of
  \<open>Sdk_Bridge_Connection\<close>, whose JSON is the same.
\<close>

section \<open>State of a session\<close>

text \<open>\<open>wr_respond_to\<close> numbers the one-shot channel, by the call that waits for it.\<close>

record ws_request =
  wr_request :: sdk_json_request
  wr_respond_to :: nat

datatype ws_event =
    WE_Gateway gateway_message
  | WE_New_Request ws_request
  | WE_Kex_Request bkex_request
  | WE_Ping_Tick
  | WE_Socket_Error string
  | WE_Shutdown

record ws_conn =
  ws_inflight :: "(uuid, nat) hash_map"
  ws_last_ping_sent_at :: "nat option"
  ws_last_ping_id :: u64
  ws_loop_error :: "string option"
  ws_shutdown :: bool
  ws_tunnel_controller :: "tunnel_config option"

definition ws_conn_new :: ws_conn where
  "ws_conn_new = \<lparr>ws_inflight = [], ws_last_ping_sent_at = None, ws_last_ping_id = 0, ws_loop_error = None,
     ws_shutdown = False, ws_tunnel_controller = None\<rparr>"

datatype session_outcome =
    Connection_Failed string
  | Disconnected string
  | Shutdown

datatype ws_effect =
    WX_Send bridge_message
  | WX_Respond nat json_response
  | WX_Drop nat                       \<comment> \<open>the one-shot sender is dropped unused\<close>
  | WX_Kex_Response bkex_response
  | WX_Schedule_Ping_Tick
  | WX_Spawn_Listener u16 tunnel_config
  | WX_Forward_Tunnel tunnel_config
  | WX_Tunnel_Msg tunnel_msg
  | WX_Cancel_Tunnel
  | WX_Terminate                      \<comment> \<open>to the Hydra controller\<close>

record ws_env =
  wv_socket_open :: bool
  wv_now :: nat
  wv_this_host :: string
  wv_listener_error :: "string option"

type_synonym ws_handler = "ws_conn \<Rightarrow> (ws_conn, ws_effect) looped"

section \<open>The handlers\<close>

text \<open>\<open>send_json_msg\<close>: sent, or the error.\<close>

definition ws_send :: "ws_env \<Rightarrow> bridge_message \<Rightarrow> ws_effect list \<times> string option" where
  "ws_send v m = (if wv_socket_open v then ([WX_Send m], None) else ([], Some ''broken connection with the gateway''))"

text \<open>Most sends break the loop with their error.\<close>

definition ws_send_or_fail :: "ws_env \<Rightarrow> bridge_message \<Rightarrow> ws_handler" where
  "ws_send_or_fail v m s =
     (case ws_send v m of
        (fx, None) \<Rightarrow> (s, fx, True)
      | (fx, Some err) \<Rightarrow> (s\<lparr>ws_loop_error := Some err\<rparr>, fx, False))"

text \<open>A listener that cannot be bound is only logged; the response is passed on in any case.\<close>

definition ws_on_kex_response :: "ws_env \<Rightarrow> bkex_response \<Rightarrow> ws_handler" where
  "ws_on_kex_response v resp s =
     (if br_machine_id resp = wv_this_host v then (s, [WX_Kex_Response resp], True)
      else
        let cfg = \<lparr>tc_expose_port = br_proposed_bridge_h2h_port resp, tc_id_prefix_bit = True\<rparr>;
            fx = [WX_Spawn_Listener (br_gateway_h2h_port resp) cfg]
        in if wv_listener_error v \<noteq> None then (s, fx @ [WX_Kex_Response resp], True)
           else (s\<lparr>ws_tunnel_controller := Some cfg\<rparr>,
                 fx @ [WX_Forward_Tunnel cfg, WX_Kex_Response resp], True))"

definition ws_on_response :: "json_response \<Rightarrow> ws_handler" where
  "ws_on_response r s =
     (case hash_get (jr_id r) (ws_inflight s) of
        None \<Rightarrow> (s, [], True)
      | Some sender \<Rightarrow>
          (s\<lparr>ws_inflight := hash_remove (jr_id r) (ws_inflight s)\<rparr>, [WX_Respond sender r], True))"

definition ws_on_ping_tick :: "ws_env \<Rightarrow> ws_handler" where
  "ws_on_ping_tick v s =
     (case ws_last_ping_sent_at s of
        Some _ \<Rightarrow> (s\<lparr>ws_loop_error := Some ''ping timeout''\<rparr>, [], False)
      | None \<Rightarrow>
          (let s1 = s\<lparr>ws_last_ping_id := ws_last_ping_id s + 1, ws_last_ping_sent_at := Some (wv_now v)\<rparr>;
               (s2, fx, go) = ws_send_or_fail v (BM_Ping (ws_last_ping_id s1)) s1
           in (s2, WX_Schedule_Ping_Tick # fx, go)))"

text \<open>A request with the id of one in flight takes its place, whose sender is dropped.\<close>

definition ws_on_new_request :: "ws_env \<Rightarrow> ws_request \<Rightarrow> ws_handler" where
  "ws_on_new_request v rq s =
     (let request_id = sq_id (wr_request rq);
          replaced = (case hash_get request_id (ws_inflight s) of None \<Rightarrow> [] | Some old \<Rightarrow> [WX_Drop old]);
          (s1, fx, go) = ws_send_or_fail v (BM_Request (wr_request rq))
            (s\<lparr>ws_inflight := hash_insert request_id (wr_respond_to rq) (ws_inflight s)\<rparr>)
      in (s1, replaced @ fx, go))"

fun ws_handle :: "ws_env \<Rightarrow> ws_event \<Rightarrow> ws_handler" where
  "ws_handle v WE_Shutdown s = (s\<lparr>ws_shutdown := True\<rparr>, [], False)"
| "ws_handle v (WE_Socket_Error err) s = (s\<lparr>ws_loop_error := Some err\<rparr>, [], False)"
| "ws_handle v (WE_Gateway (GM_HydraTunnel m)) s =
     (case ws_tunnel_controller s of
        Some _ \<Rightarrow> (s, [WX_Tunnel_Msg m], True)
      | None \<Rightarrow> (s, [], True))"
| "ws_handle v (WE_Gateway (GM_HydraKExResponse resp)) s = ws_on_kex_response v resp s"
| "ws_handle v (WE_Gateway (GM_Response r)) s = ws_on_response r s"
| "ws_handle v (WE_Gateway (GM_Error code msg)) s = (s, [], True)"
| "ws_handle v (WE_Gateway (GM_Ping i)) s = ws_send_or_fail v (BM_Pong i) s"
| "ws_handle v (WE_Gateway (GM_Pong i)) s =
     (s\<lparr>ws_last_ping_sent_at := (if i = ws_last_ping_id s then None else ws_last_ping_sent_at s)\<rparr>, [], True)"
| "ws_handle v WE_Ping_Tick s = ws_on_ping_tick v s"
| "ws_handle v (WE_Kex_Request req) s =
     (let (fx, err) = ws_send v (BM_HydraKExRequest req) in (s, fx, err = None))"
| "ws_handle v (WE_New_Request rq) s = ws_on_new_request v rq s"

definition ws_error_response :: "http_lib \<Rightarrow> uuid \<Rightarrow> u16 \<Rightarrow> string \<Rightarrow> json_response" where
  "ws_error_response L request_id code msg =
     \<lparr>jr_id = request_id, jr_code = code, jr_header = [], jr_body_base64 = hl_b64_encode L msg\<rparr>"

text \<open>After the loop: the requests in flight are failed, and the queue is dropped with its senders.\<close>

definition ws_finish :: "http_lib \<Rightarrow> ws_event list \<Rightarrow> ws_conn \<Rightarrow> ws_effect list \<times> session_outcome" where
  "ws_finish L queued s =
     ((if ws_tunnel_controller s \<noteq> None then [WX_Cancel_Tunnel] else []) @ [WX_Cancel_Tunnel] @
      map (\<lambda>(i, sender). WX_Respond sender (ws_error_response L i 503 ''gateway WebSocket disconnected''))
        (ws_inflight s) @
      concat (map (\<lambda>e. case e of WE_New_Request rq \<Rightarrow> [WX_Drop (wr_respond_to rq)] | _ \<Rightarrow> []) queued),
      if ws_shutdown s then Shutdown
      else Disconnected (case ws_loop_error s of Some err \<Rightarrow> err | None \<Rightarrow> ''unknown''))"

text \<open>\<open>clean_up_expired_requests_periodically\<close>: those whose call no longer waits.\<close>

definition ws_clean_up_expired :: "(nat \<Rightarrow> bool) \<Rightarrow> ws_conn \<Rightarrow> ws_conn" where
  "ws_clean_up_expired is_closed s =
     s\<lparr>ws_inflight := hash_retain (\<lambda>_ sender. \<not> is_closed sender) (ws_inflight s)\<rparr>"

section \<open>Reconnecting\<close>

definition RECONNECT_INITIAL_BACKOFF :: nat where "RECONNECT_INITIAL_BACKOFF = 1"
definition RECONNECT_MAX_BACKOFF :: nat where "RECONNECT_MAX_BACKOFF = 60"

text \<open>\<open>run_ws_loop\<close> over the outcomes of its sessions: how long it sleeps after each, until a shutdown.\<close>

fun ws_loop :: "nat \<Rightarrow> session_outcome list \<Rightarrow> nat list" where
  "ws_loop backoff [] = []"
| "ws_loop backoff (outcome # outcomes) =
     (case outcome of
        Shutdown \<Rightarrow> []
      | Disconnected _ \<Rightarrow>
          RECONNECT_INITIAL_BACKOFF #
          ws_loop (min (RECONNECT_INITIAL_BACKOFF * 2) RECONNECT_MAX_BACKOFF) outcomes
      | Connection_Failed _ \<Rightarrow> backoff # ws_loop (min (backoff * 2) RECONNECT_MAX_BACKOFF) outcomes)"

section \<open>The HTTP side\<close>

datatype bridge_error = Connection_Closed | Timeout | Response_Dropped

fun bridge_error_to_response :: "bridge_error \<Rightarrow> u16 \<times> string" where
  "bridge_error_to_response Connection_Closed = (503, ''Gateway WebSocket is not available'')"
| "bridge_error_to_response Timeout = (504, ''Gateway WebSocket request timed out'')"
| "bridge_error_to_response Response_Dropped = (502, ''Gateway WebSocket dropped the response'')"

text \<open>\<open>try_reserve_credit\<close>, the outcome of its loop when no other call interferes.\<close>

definition ws_try_reserve_credit :: "u64 \<Rightarrow> u64 option" where
  "ws_try_reserve_credit credits =
     (case attempt credits credits of (left, Consumed) \<Rightarrow> Some left | _ \<Rightarrow> None)"

text \<open>\<open>proxy_route\<close> up to the forwarding: the reply, or the credits left and the request.\<close>

definition proxy_begin ::
  "http_lib \<Rightarrow> uuid \<Rightarrow> http_request \<Rightarrow> u64 \<Rightarrow> (u16 \<times> string) + u64 \<times> sdk_json_request" where
  "proxy_begin L new_id q credits =
     (case sp_request_to_json L new_id q of
        Inl err \<Rightarrow> Inl err
      | Inr json_req \<Rightarrow>
          (case ws_try_reserve_credit credits of
             None \<Rightarrow> Inl (402, ''Prepaid credits exhausted'')
           | Some left \<Rightarrow> Inr (left, json_req)))"

text \<open>And after it: the reply, and whether the request is accounted.\<close>

definition proxy_end ::
  "http_lib \<Rightarrow> bridge_error + json_response \<Rightarrow> ((u16 \<times> string) + http_response) \<times> bool" where
  "proxy_end L forwarded =
     (case forwarded of
        Inl err \<Rightarrow> (Inl (bridge_error_to_response err), False)
      | Inr response \<Rightarrow> (sp_json_to_response L response, 200 \<le> jr_code response \<and> jr_code response < 500))"

section \<open>The bridge as a process\<close>

text \<open>
  Calls are numbered in the order they come in; \<open>wp_ids\<close> are the ids their requests got. \<open>wp_requests\<close>
  is the channel to the sessions, \<open>wp_in_hand\<close> the request that the session's forwarding task has taken
  from it. \<open>wp_waiting\<close> are the calls that wait in \<open>forward_request\<close>.
\<close>

record ws_process =
  wp_credits :: u64
  wp_ids :: "uuid list"
  wp_waiting :: "nat list"
  wp_replies :: "(nat \<times> ((u16 \<times> string) + http_response)) list"
  wp_accounted :: "nat list"
  wp_requests :: "ws_request list"
  wp_in_hand :: "ws_request option"
  wp_conn :: ws_conn
  wp_queue :: "ws_event list"
  wp_open :: bool
  wp_stopped :: bool
  wp_log :: "ws_effect list"

datatype ws_step =
    WS_Call uuid http_request
  | WS_Timeout nat
  | WS_Take
  | WS_Put
  | WS_Arrive ws_event
  | WS_Handle ws_env
  | WS_Clean_Up
  | WS_Connect
  | WS_Grant u64
  | WS_Reset_Credits

text \<open>A call leaves \<open>forward_request\<close>.\<close>

definition end_call :: "http_lib \<Rightarrow> nat \<Rightarrow> bridge_error + json_response \<Rightarrow> ws_process \<Rightarrow> ws_process" where
  "end_call L t forwarded p =
     (if t \<in> set (wp_waiting p) then
        (let (reply, account) = proxy_end L forwarded
         in p\<lparr>wp_waiting := filter (\<lambda>u. u \<noteq> t) (wp_waiting p), wp_replies := wp_replies p @ [(t, reply)],
              wp_accounted := wp_accounted p @ (if account then [t] else [])\<rparr>)
      else p)"

fun deliver :: "http_lib \<Rightarrow> ws_effect list \<Rightarrow> ws_process \<Rightarrow> ws_process" where
  "deliver L [] p = p"
| "deliver L (WX_Respond t r # fx) p = deliver L fx (end_call L t (Inr r) p)"
| "deliver L (WX_Drop t # fx) p = deliver L fx (end_call L t (Inl Response_Dropped) p)"
| "deliver L (_ # fx) p = deliver L fx p"

definition ws_emit :: "http_lib \<Rightarrow> ws_effect list \<Rightarrow> ws_process \<Rightarrow> ws_process" where
  "ws_emit L fx p = deliver L fx (p\<lparr>wp_log := wp_log p @ fx\<rparr>)"

definition REQUEST_CAPACITY :: nat where "REQUEST_CAPACITY = 64"

definition drop_requests :: "ws_request list \<Rightarrow> ws_effect list" where
  "drop_requests rqs = map (\<lambda>rq. WX_Drop (wr_respond_to rq)) rqs"

text \<open>
  A session ends: what its forwarding task holds is dropped, and after a shutdown the channel as well.
\<close>

definition ws_end_session :: "http_lib \<Rightarrow> ws_effect list \<Rightarrow> ws_conn \<Rightarrow> ws_event list \<Rightarrow> ws_process \<Rightarrow> ws_process" where
  "ws_end_session L fx s queued p =
     (let (fx', outcome) = ws_finish L queued s;
          stopped = (outcome = Shutdown)
      in ws_emit L
           (fx @ fx' @ drop_requests (case wp_in_hand p of None \<Rightarrow> [] | Some rq \<Rightarrow> [rq]) @
            (if stopped then WX_Terminate # drop_requests (wp_requests p) else []))
           (p\<lparr>wp_conn := s\<lparr>ws_inflight := []\<rparr>, wp_queue := [], wp_in_hand := None, wp_open := False,
              wp_stopped := stopped, wp_requests := (if stopped then [] else wp_requests p)\<rparr>))"

fun ws_exec :: "http_lib \<Rightarrow> ws_step \<Rightarrow> ws_process \<Rightarrow> ws_process option" where
  "ws_exec L (WS_Call new_id q) p =
     (let t = length (wp_ids p);
          p1 = p\<lparr>wp_ids := wp_ids p @ [new_id]\<rparr>
      in case proxy_begin L new_id q (wp_credits p) of
           Inl err \<Rightarrow> Some (p1\<lparr>wp_replies := wp_replies p @ [(t, Inl err)]\<rparr>)
         | Inr (left, json_req) \<Rightarrow>
             let p2 = p1\<lparr>wp_credits := left, wp_waiting := wp_waiting p @ [t]\<rparr>
             in if wp_stopped p then Some (end_call L t (Inl Connection_Closed) p2)
                else if length (wp_requests p) < REQUEST_CAPACITY then
                  Some (p2\<lparr>wp_requests := wp_requests p @ [\<lparr>wr_request = json_req, wr_respond_to = t\<rparr>]\<rparr>)
                else None)"
| "ws_exec L (WS_Timeout t) p = (if t \<in> set (wp_waiting p) then Some (end_call L t (Inl Timeout) p) else None)"
| "ws_exec L WS_Take p =
     (if \<not> wp_open p \<or> wp_in_hand p \<noteq> None then None
      else case wp_requests p of
             [] \<Rightarrow> None
           | rq # rqs \<Rightarrow> Some (p\<lparr>wp_requests := rqs, wp_in_hand := Some rq\<rparr>))"
| "ws_exec L WS_Put p =
     (case wp_in_hand p of
        Some rq \<Rightarrow>
          if wp_open p \<and> length (wp_queue p) < LB_EVENT_CAPACITY then
            Some (p\<lparr>wp_queue := wp_queue p @ [WE_New_Request rq], wp_in_hand := None\<rparr>)
          else None
      | None \<Rightarrow> None)"
| "ws_exec L (WS_Arrive e) p =
     (if (case e of WE_New_Request _ \<Rightarrow> True | _ \<Rightarrow> False) then None
      else if wp_open p \<and> length (wp_queue p) < LB_EVENT_CAPACITY then
        Some (p\<lparr>wp_queue := wp_queue p @ [e]\<rparr>)
      else None)"
| "ws_exec L (WS_Handle v) p =
     (if \<not> wp_open p then None
      else case wp_queue p of
             [] \<Rightarrow> None
           | e # es \<Rightarrow>
               (case ws_handle v e (wp_conn p) of (s, fx, go) \<Rightarrow>
                  if go then Some (ws_emit L fx (p\<lparr>wp_conn := s, wp_queue := es\<rparr>))
                  else Some (ws_end_session L fx s es p)))"
| "ws_exec L WS_Clean_Up p =
     Some (p\<lparr>wp_conn := ws_clean_up_expired (\<lambda>t. t \<notin> set (wp_waiting p)) (wp_conn p)\<rparr>)"
| "ws_exec L WS_Connect p =
     (if wp_open p \<or> wp_stopped p then None
      else Some (p\<lparr>wp_conn := ws_conn_new, wp_queue := [], wp_in_hand := None, wp_open := True\<rparr>))"
| "ws_exec L (WS_Grant n) p = Some (p\<lparr>wp_credits := wp_credits p + n\<rparr>)"
| "ws_exec L WS_Reset_Credits p = Some (p\<lparr>wp_credits := 0\<rparr>)"

definition ws_start :: ws_process where
  "ws_start = \<lparr>wp_credits = 0, wp_ids = [], wp_waiting = [], wp_replies = [], wp_accounted = [],
     wp_requests = [], wp_in_hand = None, wp_conn = ws_conn_new, wp_queue = [], wp_open = False,
     wp_stopped = False, wp_log = []\<rparr>"

end
