(* ===== verification/Sdk_Session_Correct.thy ===== *)
theory Sdk_Session_Correct
  imports Sdk_Session
begin

text \<open>
  What the SDK bridge promises to its HTTP clients over any number of sessions: every call gets exactly
  one reply, none waits for a request that is no longer anywhere, each answer belongs to the call it is
  given to, and no more calls are accounted than credits were granted. Also the delays between sessions.
\<close>

section \<open>Requests in a session\<close>

fun ws_settled :: "ws_effect list \<Rightarrow> nat multiset" where
  "ws_settled [] = {#}"
| "ws_settled (WX_Respond t r # fx) = add_mset t (ws_settled fx)"
| "ws_settled (WX_Drop t # fx) = add_mset t (ws_settled fx)"
| "ws_settled (_ # fx) = ws_settled fx"

definition ws_new :: "ws_event \<Rightarrow> ws_request list" where
  "ws_new e = (case e of WE_New_Request rq \<Rightarrow> [rq] | _ \<Rightarrow> [])"

definition ws_queued :: "ws_event list \<Rightarrow> ws_request list" where
  "ws_queued es = concat (map ws_new es)"

definition calls_of_requests :: "ws_request list \<Rightarrow> nat multiset" where
  "calls_of_requests rqs = mset (map wr_respond_to rqs)"

lemma ws_settled_append [simp]: "ws_settled (fx @ gx) = ws_settled fx + ws_settled gx"
  by (induction fx rule: ws_settled.induct) simp_all

lemma ws_settled_drops [simp]: "ws_settled (drop_requests rqs) = calls_of_requests rqs"
  by (induction rqs) (simp_all add: drop_requests_def calls_of_requests_def)

lemma ws_queued_simps [simp]: "ws_queued [] = []" "ws_queued (e # es) = ws_new e @ ws_queued es"
  "ws_queued (es @ fs) = ws_queued es @ ws_queued fs"
  by (simp_all add: ws_queued_def)

lemma ws_new_simps [simp]: "ws_new (WE_New_Request rq) = [rq]" "ws_new (WE_Gateway m) = []"
  "ws_new (WE_Kex_Request k) = []" "ws_new WE_Ping_Tick = []" "ws_new (WE_Socket_Error err) = []"
  "ws_new WE_Shutdown = []"
  by (simp_all add: ws_new_def)

lemma calls_of_requests_simps [simp]: "calls_of_requests [] = {#}"
  "calls_of_requests (rq # rqs) = add_mset (wr_respond_to rq) (calls_of_requests rqs)"
  "calls_of_requests (rqs @ rqs') = calls_of_requests rqs + calls_of_requests rqs'"
  by (simp_all add: calls_of_requests_def)

lemmas ws_handler_defs = ws_send_def ws_send_or_fail_def ws_on_kex_response_def ws_on_ping_tick_def Let_def

lemma ws_handle_balance:
  assumes "ws_handle v e s = (s', fx, go)" and "hash_ok (ws_inflight s)"
  shows "hash_ok (ws_inflight s') \<and>
    calls_of_requests (ws_new e) + hash_values (ws_inflight s) = ws_settled fx + hash_values (ws_inflight s')"
  using assms
proof (cases "(v, e, s)" rule: ws_handle.cases)
  case (5 v r s)
  with assms show ?thesis
    by (auto simp: ws_on_response_def hash.ok_remove hash_values_remove split: option.splits)
next
  case (11 v rq s)
  note ins = hash_values_insert [OF assms(2), of "sq_id (wr_request rq)" "wr_respond_to rq"]
  from 11 assms ins hash.ok_put [OF assms(2)] show ?thesis
    by (auto simp: ws_on_new_request_def ws_handler_defs split: option.splits if_splits)
qed (auto simp: ws_handler_defs split: if_splits option.splits)

lemma ws_finish_settles:
  "ws_settled (fst (ws_finish L queued s)) = hash_values (ws_inflight s) + calls_of_requests (ws_queued queued)"
proof -
  have "ws_settled (map (\<lambda>(i, sender). WX_Respond sender (f i)) m) = hash_values m" for f and m :: "(uuid, nat) hash_map"
    by (induction m) (auto simp: hash_values_def)
  moreover have "ws_settled (concat (map (\<lambda>e. case e of WE_New_Request rq \<Rightarrow> [WX_Drop (wr_respond_to rq)] | _ \<Rightarrow> []) es)) =
      calls_of_requests (ws_queued es)" for es
    by (induction es) (auto simp: ws_new_def split: ws_event.splits)
  ultimately show ?thesis by (simp add: ws_finish_def)
qed

section \<open>Calls and replies\<close>

lemma end_call_fields [simp]:
  "wp_ids (end_call L t f p) = wp_ids p" "wp_credits (end_call L t f p) = wp_credits p"
  "wp_requests (end_call L t f p) = wp_requests p" "wp_in_hand (end_call L t f p) = wp_in_hand p"
  "wp_conn (end_call L t f p) = wp_conn p" "wp_queue (end_call L t f p) = wp_queue p"
  "wp_open (end_call L t f p) = wp_open p" "wp_stopped (end_call L t f p) = wp_stopped p"
  "wp_log (end_call L t f p) = wp_log p"
  "wp_waiting (end_call L t f p) = filter (\<lambda>u. u \<noteq> t) (wp_waiting p)"
  by (auto simp: end_call_def Let_def split: prod.splits) (metis (mono_tags, lifting) filter_True)

lemma deliver_fields [simp]:
  "wp_ids (deliver L fx p) = wp_ids p" "wp_credits (deliver L fx p) = wp_credits p"
  "wp_requests (deliver L fx p) = wp_requests p" "wp_in_hand (deliver L fx p) = wp_in_hand p"
  "wp_conn (deliver L fx p) = wp_conn p" "wp_queue (deliver L fx p) = wp_queue p"
  "wp_open (deliver L fx p) = wp_open p" "wp_stopped (deliver L fx p) = wp_stopped p"
  "wp_log (deliver L fx p) = wp_log p"
  by (induction L fx p rule: deliver.induct) simp_all

lemma deliver_waiting [simp]:
  "wp_waiting (deliver L fx p) = filter (\<lambda>t. t \<notin># ws_settled fx) (wp_waiting p)"
  by (induction L fx p rule: deliver.induct) (auto intro: filter_cong)

lemma ws_emit_fields [simp]:
  "wp_ids (ws_emit L fx p) = wp_ids p" "wp_credits (ws_emit L fx p) = wp_credits p"
  "wp_requests (ws_emit L fx p) = wp_requests p" "wp_in_hand (ws_emit L fx p) = wp_in_hand p"
  "wp_conn (ws_emit L fx p) = wp_conn p" "wp_queue (ws_emit L fx p) = wp_queue p"
  "wp_open (ws_emit L fx p) = wp_open p" "wp_stopped (ws_emit L fx p) = wp_stopped p"
  "wp_log (ws_emit L fx p) = wp_log p @ fx"
  "wp_waiting (ws_emit L fx p) = filter (\<lambda>t. t \<notin># ws_settled fx) (wp_waiting p)"
  by (simp_all add: ws_emit_def)

text \<open>What only \<open>end_call\<close> changes: replies, accounts, and who waits.\<close>

definition replied :: "ws_process \<Rightarrow> nat multiset" where
  "replied p = mset (map fst (wp_replies p)) + mset (wp_waiting p)"

definition paid_for :: "ws_process \<Rightarrow> nat" where
  "paid_for p = length (wp_accounted p) + length (wp_waiting p)"

definition books :: "ws_process \<Rightarrow> ws_process \<Rightarrow> bool" where
  "books p p' \<longleftrightarrow> distinct (wp_waiting p') \<and> replied p' = replied p \<and> paid_for p' \<le> paid_for p"

lemma books_end_call: "distinct (wp_waiting p) \<Longrightarrow> books p (end_call L t f p)"
proof (cases "t \<in> set (wp_waiting p)")
  case True
  assume d: "distinct (wp_waiting p)"
  have f: "mset (wp_waiting p) = add_mset t (mset (filter (\<lambda>u. u \<noteq> t) (wp_waiting p)))"
  proof -
    have "filter (\<lambda>u. u \<noteq> t) (wp_waiting p) = remove1 t (wp_waiting p)"
      using d by (simp add: distinct_remove1_removeAll removeAll_filter_not_eq) (rule filter_cong; auto)
    with True show ?thesis by simp
  qed
  then have "length (wp_waiting p) = Suc (length (filter (\<lambda>u. u \<noteq> t) (wp_waiting p)))"
    by (metis size_add_mset size_mset)
  with f d show ?thesis
    by (auto simp: books_def replied_def paid_for_def end_call_def Let_def split: prod.splits)
qed (auto simp: books_def end_call_def)

lemma books_trans: "books p q \<Longrightarrow> books q r \<Longrightarrow> books p r"
  by (auto simp: books_def)

lemma books_step:
  assumes "distinct (wp_waiting p)" and "\<And>q. distinct (wp_waiting q) \<Longrightarrow> q = end_call L t f p \<Longrightarrow> books q (deliver L fx q)"
  shows "books p (deliver L fx (end_call L t f p))"
proof -
  have b: "books p (end_call L t f p)" by (rule books_end_call [OF assms(1)])
  then have "distinct (wp_waiting (end_call L t f p))" by (simp only: books_def)
  from books_trans [OF b assms(2) [OF this refl]] show ?thesis .
qed

lemma books_deliver: "distinct (wp_waiting p) \<Longrightarrow> books p (deliver L fx p)"
proof (induction L fx p rule: deliver.induct)
  case (2 L t r fx p)
  then show ?case using books_step by simp
next
  case (3 L t fx p)
  then show ?case using books_step by simp
qed (auto simp: books_def)

lemma books_emit:
  assumes "distinct (wp_waiting p)"
  shows "replied (ws_emit L fx p) = replied p" and "paid_for (ws_emit L fx p) \<le> paid_for p"
  using books_deliver [of "p\<lparr>wp_log := wp_log p @ fx\<rparr>" L fx] assms
  by (auto simp: books_def ws_emit_def replied_def paid_for_def)

section \<open>The invariant\<close>

definition call_numbers :: "nat \<Rightarrow> nat multiset" where
  "call_numbers n = mset [0..<n]"

lemma call_numbers_simps [simp]: "call_numbers 0 = {#}" "call_numbers (Suc n) = add_mset n (call_numbers n)"
  "t \<in># call_numbers n \<longleftrightarrow> t < n"
  by (simp_all add: call_numbers_def del: mset_upt)

text \<open>Where the requests of the calls are.\<close>

definition in_hand :: "ws_process \<Rightarrow> ws_request list" where
  "in_hand p = (case wp_in_hand p of None \<Rightarrow> [] | Some rq \<Rightarrow> [rq])"

definition on_the_way :: "ws_process \<Rightarrow> nat multiset" where
  "on_the_way p = calls_of_requests (wp_requests p @ in_hand p @ ws_queued (wp_queue p)) +
     hash_values (ws_inflight (wp_conn p))"

definition calls_ok :: "ws_process \<Rightarrow> bool" where
  "calls_ok p \<longleftrightarrow> distinct (wp_waiting p) \<and> replied p = call_numbers (length (wp_ids p)) \<and>
     set (wp_waiting p) \<subseteq> set_mset (on_the_way p) \<and> hash_ok (ws_inflight (wp_conn p)) \<and>
     (wp_open p \<or> wp_queue p = [] \<and> wp_in_hand p = None \<and> ws_inflight (wp_conn p) = []) \<and>
     (wp_stopped p \<longrightarrow> \<not> wp_open p \<and> wp_requests p = [])"

lemma in_hand_simps [simp]:
  "wp_in_hand p = None \<Longrightarrow> in_hand p = []" "wp_in_hand p = Some rq \<Longrightarrow> in_hand p = [rq]"
  by (simp_all add: in_hand_def)

lemma waiting_lt:
  assumes "calls_ok p" and "t \<in> set (wp_waiting p)"
  shows "t < length (wp_ids p)"
proof -
  have "t \<in># replied p" using assms(2) by (simp add: replied_def)
  with assms(1) show ?thesis by (simp add: calls_ok_def)
qed

lemma calls_ok_call:
  assumes "calls_ok p" and "ws_exec L (WS_Call i q) p = Some p'"
  shows "calls_ok p'"
proof -
  have fresh: "length (wp_ids p) \<notin> set (wp_waiting p)" using waiting_lt [OF assms(1)] by blast
  then have "filter (\<lambda>u. u \<noteq> length (wp_ids p)) (wp_waiting p) = wp_waiting p" by (auto simp: filter_id_conv)
  with assms fresh show ?thesis
    by (auto simp: calls_ok_def replied_def on_the_way_def in_hand_def end_call_def proxy_end_def Let_def
        split: sum.splits prod.splits if_splits)
qed

lemma calls_ok_end_call:
  assumes "calls_ok p"
  shows "calls_ok (end_call L t f p)"
  using assms books_end_call [of p L t f]
  by (auto simp: calls_ok_def books_def on_the_way_def in_hand_def)

lemma calls_ok_handle:
  assumes "calls_ok p" and "ws_exec L (WS_Handle v) p = Some p'"
  shows "calls_ok p'"
proof -
  from assms(2) obtain e es where q: "wp_queue p = e # es" and o: "wp_open p"
    by (auto split: if_splits list.splits)
  obtain s fx go where h: "ws_handle v e (wp_conn p) = (s, fx, go)" by (cases "ws_handle v e (wp_conn p)")
  obtain fx' outcome where f: "ws_finish L es s = (fx', outcome)" by (cases "ws_finish L es s")
  have ok: "hash_ok (ws_inflight (wp_conn p))" using assms(1) by (simp add: calls_ok_def)
  note b = ws_handle_balance [OF h ok]
  have way: "on_the_way p = calls_of_requests (wp_requests p) + calls_of_requests (in_hand p) +
      calls_of_requests (ws_queued es) + ws_settled fx + hash_values (ws_inflight s)"
    using b by (simp add: on_the_way_def q add_ac)
  have w: "t \<in># on_the_way p" if "t \<in> set (wp_waiting p)" for t
    using assms(1) that by (auto simp: calls_ok_def)
  note w' = w [unfolded way]
  show ?thesis
  proof (cases go)
    case True
    with assms q o h have p': "p' = ws_emit L fx (p\<lparr>wp_conn := s, wp_queue := es\<rparr>)" by simp
    have "replied p' = replied p"
      unfolding p' using books_emit(1) [of "p\<lparr>wp_conn := s, wp_queue := es\<rparr>"] assms(1)
      by (simp add: calls_ok_def replied_def)
    moreover have "set (wp_waiting p') \<subseteq> set_mset (on_the_way p')"
      using w' by (auto simp: p' on_the_way_def in_hand_def)
    ultimately show ?thesis using assms(1) o b
      by (auto simp: p' calls_ok_def)
  next
    case False
    define gx where "gx = fx @ fx' @ drop_requests (in_hand p) @
      (if outcome = Shutdown then WX_Terminate # drop_requests (wp_requests p) else [])"
    define r where "r = p\<lparr>wp_conn := s\<lparr>ws_inflight := []\<rparr>, wp_queue := [], wp_in_hand := None, wp_open := False,
      wp_stopped := (outcome = Shutdown), wp_requests := (if outcome = Shutdown then [] else wp_requests p)\<rparr>"
    from False assms q o h f have p': "p' = ws_emit L gx r"
      by (simp add: ws_end_session_def gx_def r_def in_hand_def Let_def)
    have "replied p' = replied p"
      unfolding p' using books_emit(1) [of r] assms(1) by (simp add: calls_ok_def replied_def r_def)
    moreover have "ws_settled gx + calls_of_requests (wp_requests r) = on_the_way p"
      using ws_finish_settles [of L es s] by (simp add: gx_def way f r_def add_ac)
    with w have "set (wp_waiting p') \<subseteq> set_mset (on_the_way p')"
      by (auto simp: p' r_def on_the_way_def in_hand_def split: if_splits)
    ultimately show ?thesis using assms(1)
      by (auto simp: p' calls_ok_def r_def hash.ok_empty)
  qed
qed

lemma calls_ok_step:
  assumes "calls_ok p" and "ws_exec L l p = Some p'"
  shows "calls_ok p'"
proof (cases l)
  case (WS_Call i q)
  with assms calls_ok_call show ?thesis by blast
next
  case (WS_Timeout t)
  with assms calls_ok_end_call show ?thesis by (auto split: if_splits)
next
  case (WS_Handle v)
  with assms calls_ok_handle show ?thesis by blast
next
  case WS_Clean_Up
  let ?m = "ws_inflight (wp_conn p)" and ?P = "\<lambda>_ t. t \<in> set (wp_waiting p)"
  have "set (wp_waiting p) \<inter> set_mset (hash_values ?m) \<subseteq> set_mset (hash_values (hash_retain ?P ?m))"
  proof
    fix t
    assume t: "t \<in> set (wp_waiting p) \<inter> set_mset (hash_values ?m)"
    have "t \<in># hash_values (hash_retain ?P ?m) + image_mset snd (mset (filter (\<lambda>(k, v). \<not> ?P k v) ?m))"
      using t hash_values_retain [of ?m ?P] by simp
    with t show "t \<in> set_mset (hash_values (hash_retain ?P ?m))" by auto
  qed
  with WS_Clean_Up assms show ?thesis
    by (auto simp: calls_ok_def replied_def on_the_way_def in_hand_def ws_clean_up_expired_def hash.ok_retain)
      (auto simp: hash_retain_def)
qed (use assms in \<open>auto simp: calls_ok_def replied_def on_the_way_def in_hand_def ws_conn_new_def hash.ok_empty
      split: if_splits list.splits option.splits ws_event.splits\<close>)

section \<open>Answers belong to their calls\<close>

definition call_has_id :: "uuid list \<Rightarrow> uuid \<Rightarrow> nat \<Rightarrow> bool" where
  "call_has_id ids i t \<longleftrightarrow> t < length ids \<and> ids ! t = i"

definition request_has_id :: "uuid list \<Rightarrow> ws_request \<Rightarrow> bool" where
  "request_has_id ids rq \<longleftrightarrow> call_has_id ids (sq_id (wr_request rq)) (wr_respond_to rq)"

definition answers_match :: "uuid list \<Rightarrow> ws_effect list \<Rightarrow> bool" where
  "answers_match ids fx \<longleftrightarrow> (\<forall>t r. WX_Respond t r \<in> set fx \<longrightarrow> call_has_id ids (jr_id r) t)"

definition inflight_match :: "uuid list \<Rightarrow> ws_conn \<Rightarrow> bool" where
  "inflight_match ids s \<longleftrightarrow> hash_ok (ws_inflight s) \<and> (\<forall>(i, t)\<in>set (ws_inflight s). call_has_id ids i t)"

lemma ws_handle_matches:
  assumes "ws_handle v e s = (s', fx, go)" and "inflight_match ids s" and "list_all (request_has_id ids) (ws_new e)"
  shows "inflight_match ids s' \<and> answers_match ids fx"
  using assms
proof (cases "(v, e, s)" rule: ws_handle.cases)
  case (5 v r s)
  have ok: "hash_ok (ws_inflight s)" using assms 5 by (simp add: inflight_match_def)
  show ?thesis
  proof (cases "hash_get (jr_id r) (ws_inflight s)")
    case (Some t)
    then have "(jr_id r, t) \<in> set (ws_inflight s)" by (simp add: hash_get_def map_of_SomeD)
    with 5 assms Some ok show ?thesis
      by (auto simp: ws_on_response_def inflight_match_def answers_match_def hash.ok_remove hash.set_entries_remove)
  qed (use 5 assms in \<open>auto simp: ws_on_response_def answers_match_def\<close>)
next
  case (11 v rq s)
  have ok: "hash_ok (ws_inflight s)" using assms 11 by (simp add: inflight_match_def)
  with 11 assms show ?thesis
    by (auto simp: ws_on_new_request_def ws_handler_defs inflight_match_def answers_match_def request_has_id_def
        hash.ok_put hash.set_entries_put split: if_splits option.splits)
qed (auto simp: ws_handler_defs inflight_match_def answers_match_def split: if_splits option.splits)

definition ids_ok :: "ws_process \<Rightarrow> bool" where
  "ids_ok p \<longleftrightarrow> list_all (request_has_id (wp_ids p)) (wp_requests p @ in_hand p @ ws_queued (wp_queue p)) \<and>
     inflight_match (wp_ids p) (wp_conn p) \<and> answers_match (wp_ids p) (wp_log p)"

lemma answers_match_append [simp]:
  "answers_match ids (fx @ gx) \<longleftrightarrow> answers_match ids fx \<and> answers_match ids gx"
  by (auto simp: answers_match_def)

lemma answers_match_drops [simp]: "answers_match ids (drop_requests rqs)"
  "answers_match ids (WX_Terminate # fx) = answers_match ids fx"
  by (auto simp: answers_match_def drop_requests_def)

lemma call_has_id_more: "call_has_id ids i t \<Longrightarrow> call_has_id (ids @ js) i t"
  by (simp add: call_has_id_def nth_append)

lemma ids_ok_more:
  assumes "ids_ok p" and "wp_ids p' = wp_ids p @ js" and "wp_conn p' = wp_conn p" and "wp_queue p' = wp_queue p"
    and "wp_in_hand p' = wp_in_hand p" and "wp_log p' = wp_log p"
    and "\<And>rq. rq \<in> set (wp_requests p') \<Longrightarrow> rq \<in> set (wp_requests p) \<or> request_has_id (wp_ids p') rq"
  shows "ids_ok p'"
proof -
  have rq: "request_has_id (wp_ids p) rq \<Longrightarrow> request_has_id (wp_ids p') rq" for rq
    by (simp add: assms(2) request_has_id_def call_has_id_more)
  have "inflight_match (wp_ids p') (wp_conn p')" "answers_match (wp_ids p') (wp_log p')"
    using assms(1) by (auto simp: ids_ok_def inflight_match_def answers_match_def assms(2-6) call_has_id_more)
  moreover have "list_all (request_has_id (wp_ids p')) (wp_requests p' @ in_hand p' @ ws_queued (wp_queue p'))"
    using assms(1) rq assms(7) by (auto simp: ids_ok_def in_hand_def assms(4,5) list_all_iff)
  ultimately show ?thesis by (simp add: ids_ok_def)
qed

lemma proxy_begin_id: "proxy_begin L i q credits = Inr (left, r) \<Longrightarrow> sq_id r = i"
  by (auto simp: proxy_begin_def sp_request_to_json_def Let_def split: sum.splits option.splits)

lemma ws_finish_matches:
  "inflight_match ids s \<Longrightarrow> answers_match ids (fst (ws_finish L queued s))"
  by (auto simp: ws_finish_def answers_match_def inflight_match_def ws_error_response_def split: ws_event.splits)

lemma ids_ok_step:
  assumes "ids_ok p" and "ws_exec L l p = Some p'"
  shows "ids_ok p'"
proof (cases l)
  case (WS_Call i q)
  have "call_has_id (wp_ids p @ [i]) i (length (wp_ids p))" by (simp add: call_has_id_def)
  with WS_Call assms proxy_begin_id [of L i q "wp_credits p"] show ?thesis
    by (intro ids_ok_more [OF assms(1), of p' "[i]"])
      (auto simp: Let_def request_has_id_def split: sum.splits prod.splits if_splits)
next
  case (WS_Handle v)
  with assms(2) obtain e es where q: "wp_queue p = e # es" and o: "wp_open p"
    by (auto split: if_splits list.splits)
  obtain s fx go where h: "ws_handle v e (wp_conn p) = (s, fx, go)" by (cases "ws_handle v e (wp_conn p)")
  obtain fx' outcome where f: "ws_finish L es s = (fx', outcome)" by (cases "ws_finish L es s")
  have m: "inflight_match (wp_ids p) s \<and> answers_match (wp_ids p) fx"
    by (rule ws_handle_matches [OF h]) (use assms(1) q in \<open>auto simp: ids_ok_def\<close>)
  have "answers_match (wp_ids p) fx'" using ws_finish_matches [of "wp_ids p" s L es] m f by simp
  with WS_Handle assms q o h f m show ?thesis
    by (auto simp: ids_ok_def in_hand_def ws_end_session_def Let_def inflight_match_def hash.ok_empty split: if_splits)
next
  case WS_Clean_Up
  with assms show ?thesis
    by (auto simp: ids_ok_def in_hand_def inflight_match_def ws_clean_up_expired_def hash.ok_retain)
      (auto simp: hash_retain_def)
qed (use assms in \<open>auto simp: ids_ok_def in_hand_def inflight_match_def ws_conn_new_def hash.ok_empty
      split: if_splits list.splits option.splits ws_event.splits\<close>)

section \<open>Credits\<close>

definition credits_granted :: "ws_step \<Rightarrow> nat" where
  "credits_granted l = (case l of WS_Grant n \<Rightarrow> unat n | _ \<Rightarrow> 0)"

definition solvent :: "nat \<Rightarrow> ws_process \<Rightarrow> bool" where
  "solvent n p \<longleftrightarrow> paid_for p + unat (wp_credits p) \<le> n"

lemma solvent_end_call:
  "distinct (wp_waiting p) \<Longrightarrow> solvent n p \<Longrightarrow> solvent n (end_call L t f p)"
  using books_end_call [of p L t f] by (simp add: solvent_def books_def)

lemma solvent_emit:
  assumes "distinct (wp_waiting p)" and "solvent n p"
  shows "solvent n (ws_emit L fx p)"
  using books_emit(2) [OF assms(1), of L fx] assms(2) by (simp add: solvent_def)

lemma reserve_credit_less:
  "ws_try_reserve_credit credits = Some left \<Longrightarrow> Suc (unat left) = unat credits"
  by (auto simp: ws_try_reserve_credit_def attempt_def unat_minus_one unat_gt_0 split: if_splits)

lemma solvent_step:
  assumes "ws_exec L l p = Some p'" and "calls_ok p" and "solvent n p"
  shows "solvent (n + credits_granted l) p'"
proof (cases l)
  case (WS_Call i q)
  have fresh: "length (wp_ids p) \<notin> set (wp_waiting p)" using waiting_lt [OF assms(2)] by blast
  have d: "distinct (wp_waiting p)" using assms(2) by (simp add: calls_ok_def)
  have pay: "Suc (unat left) = unat (wp_credits p)"
    if "proxy_begin L i q (wp_credits p) = Inr (left, r)" for left r
    using that by (auto simp: proxy_begin_def split: sum.splits option.splits dest: reserve_credit_less)
  show ?thesis
  proof (cases "proxy_begin L i q (wp_credits p)")
    case (Inl err)
    with WS_Call assms show ?thesis by (auto simp: Let_def solvent_def paid_for_def credits_granted_def)
  next
    case (Inr lr)
    obtain left r where lr: "lr = (left, r)" by (cases lr)
    let ?p2 = "p\<lparr>wp_ids := wp_ids p @ [i], wp_credits := left, wp_waiting := wp_waiting p @ [length (wp_ids p)]\<rparr>"
    have s2: "solvent n ?p2" using pay [OF Inr [unfolded lr]] assms(3) by (simp add: solvent_def paid_for_def)
    have "solvent n (end_call L (length (wp_ids p)) (Inl Connection_Closed) ?p2)"
      by (rule solvent_end_call) (use d fresh s2 in simp_all)
    with WS_Call assms Inr lr s2 show ?thesis
      by (auto simp: Let_def solvent_def paid_for_def credits_granted_def split: if_splits)
  qed
next
  case (WS_Timeout t)
  with assms solvent_end_call show ?thesis by (auto simp: credits_granted_def calls_ok_def split: if_splits)
next
  case (WS_Handle v)
  with assms(1) obtain e es where q: "wp_queue p = e # es" and o: "wp_open p"
    by (auto split: if_splits list.splits)
  have any: "solvent n (ws_emit L fx r)" if "wp_waiting r = wp_waiting p" "wp_accounted r = wp_accounted p"
    "wp_credits r = wp_credits p" for fx r
    by (rule solvent_emit) (use that assms in \<open>auto simp: calls_ok_def solvent_def paid_for_def\<close>)
  from WS_Handle assms q o any show ?thesis
    by (auto simp: ws_end_session_def Let_def credits_granted_def split: prod.splits if_splits)
next
  case (WS_Grant x)
  have "unat (wp_credits p + x) \<le> unat (wp_credits p) + unat x" by (simp add: unat_word_ariths)
  with assms WS_Grant show ?thesis by (auto simp: solvent_def paid_for_def credits_granted_def)
qed (use assms in \<open>auto simp: solvent_def paid_for_def credits_granted_def split: if_splits list.splits option.splits\<close>)

lemma ws_run_ok:
  "runs (ws_exec L) ls p = Some p' \<Longrightarrow> calls_ok p \<Longrightarrow> ids_ok p \<Longrightarrow> solvent n p \<Longrightarrow>
    calls_ok p' \<and> ids_ok p' \<and> solvent (n + sum_list (map credits_granted ls)) p'"
proof (induction ls arbitrary: p n)
  case (Cons l ls)
  then obtain q where q: "ws_exec L l p = Some q" "runs (ws_exec L) ls q = Some p'"
    by (auto simp: bind_eq_Some_conv)
  from Cons.IH [OF q(2) calls_ok_step [OF Cons.prems(2) q(1)] ids_ok_step [OF Cons.prems(3) q(1)]
      solvent_step [OF q(1) Cons.prems(2,4)]] show ?case by (simp add: add.assoc)
qed simp

section \<open>Delays between sessions\<close>

text \<open>The backoff that a session leaves for the next one.\<close>

definition next_backoff :: "nat \<Rightarrow> session_outcome \<Rightarrow> nat" where
  "next_backoff b outcome =
     min ((case outcome of Disconnected _ \<Rightarrow> RECONNECT_INITIAL_BACKOFF | _ \<Rightarrow> b) * 2) RECONNECT_MAX_BACKOFF"

lemma ws_loop_nth:
  "i < length outcomes \<Longrightarrow> Shutdown \<notin> set (take (Suc i) outcomes) \<Longrightarrow>
    ws_loop b outcomes ! i =
      (case outcomes ! i of Disconnected _ \<Rightarrow> RECONNECT_INITIAL_BACKOFF
                          | _ \<Rightarrow> foldl next_backoff b (take i outcomes))"
proof (induction outcomes arbitrary: b i)
  case (Cons outcome os)
  then show ?case
    by (cases i; cases outcome) (auto simp: next_backoff_def split: session_outcome.split)
qed simp

lemma nth_in_take: "k \<le> i \<Longrightarrow> i < length xs \<Longrightarrow> xs ! k \<in> set (take (Suc i) xs)"
  using nth_mem [of k "take (Suc i) xs"] by simp

lemma min_double: "min (min m (b * 2 ^ n) * 2) m = min m (b * 2 ^ Suc n)" for m b n :: nat
  by (auto simp: min_def)

lemma failures_double:
  "\<forall>outcome\<in>set os. \<exists>why. outcome = Connection_Failed why \<Longrightarrow> b \<le> RECONNECT_MAX_BACKOFF \<Longrightarrow>
    foldl next_backoff b os = min RECONNECT_MAX_BACKOFF (b * 2 ^ length os)"
proof (induction os rule: rev_induct)
  case (snoc outcome os)
  then show ?case using min_double [of RECONNECT_MAX_BACKOFF b "length os"]
    by (auto simp: next_backoff_def)
qed (simp add: min_def)

section \<open>The properties\<close>

text \<open>C29: Every HTTP call of an SDK bridge gets exactly one reply. In every interleaving of calls, sessions,
  time-outs and reconnections, the calls so far are, each once, those that were replied to and those that
  wait; the request of a call that waits is in the channel, in a session's queue or in flight, and after a
  shutdown no call waits; an answer is only ever given to the call whose request had its id; and the
  accounted calls and the waiting ones are never more than the credits that were granted.\<close>

theorem sdk_calls_answered:
  assumes "runs (ws_exec L) ls ws_start = Some p"
  shows "mset (map fst (wp_replies p)) + mset (wp_waiting p) = mset [0..<length (wp_ids p)] \<and>
    set (wp_waiting p) \<subseteq> set_mset (on_the_way p) \<and> (wp_stopped p \<longrightarrow> wp_waiting p = []) \<and>
    (\<forall>t r. WX_Respond t r \<in> set (wp_log p) \<longrightarrow> t < length (wp_ids p) \<and> wp_ids p ! t = jr_id r) \<and>
    length (wp_accounted p) + length (wp_waiting p) \<le> sum_list (map credits_granted ls)"
proof -
  have "calls_ok ws_start" "ids_ok ws_start" "solvent 0 ws_start"
    by (simp_all add: calls_ok_def ids_ok_def solvent_def replied_def paid_for_def on_the_way_def in_hand_def
        inflight_match_def answers_match_def ws_start_def ws_conn_new_def hash.ok_empty)
  from ws_run_ok [OF assms this] have ok: "calls_ok p" "ids_ok p"
    "solvent (sum_list (map credits_granted ls)) p" by simp_all
  have "wp_waiting p = []" if "wp_stopped p"
    using ok(1) that by (auto simp: calls_ok_def on_the_way_def)
  with ok show ?thesis
    by (auto simp: calls_ok_def ids_ok_def solvent_def replied_def paid_for_def call_numbers_def
        answers_match_def call_has_id_def simp del: mset_upt)
qed

definition ws_demo_env :: ws_env where
  "ws_demo_env = \<lparr>wv_socket_open = True, wv_now = 0, wv_this_host = ''b'', wv_listener_error = None\<rparr>"

text \<open>Two calls with two credits; the first is answered, the second lost with its session.\<close>

definition ws_demo_steps :: "http_request \<Rightarrow> ws_step list" where
  "ws_demo_steps q =
     [WS_Grant 2, WS_Call (Uuid 7) q, WS_Call (Uuid 8) q, WS_Connect, WS_Take, WS_Put, WS_Handle ws_demo_env,
      WS_Arrive (WE_Gateway (GM_Response \<lparr>jr_id = Uuid 7, jr_code = 200, jr_header = [], jr_body_base64 = []\<rparr>)),
      WS_Handle ws_demo_env, WS_Take, WS_Arrive (WE_Socket_Error ''gone''), WS_Handle ws_demo_env]"

theorem sdk_calls_answered_witness:
  "\<exists>p. runs (ws_exec demo_http_lib) (ws_demo_steps demo_request) ws_start = Some p \<and>
     map fst (wp_replies p) = [0, 1] \<and> wp_accounted p = [0] \<and> wp_waiting p = []"
proof -
  obtain p where p: "runs (ws_exec demo_http_lib) (ws_demo_steps demo_request) ws_start = Some p"
    and a: "map fst (wp_replies p) = [0, 1]" "wp_accounted p = [0]" "length (wp_ids p) = 2"
    by (simp add: ws_demo_steps_def ws_start_def ws_conn_new_def proxy_begin_def proxy_end_def end_call_def
        ws_try_reserve_credit_def attempt_def REQUEST_CAPACITY_def LB_EVENT_CAPACITY_def ws_emit_def
        ws_on_new_request_def ws_on_response_def ws_handler_defs ws_demo_env_def ws_end_session_def ws_finish_def
        drop_requests_def hash_get_def hash_insert_def hash_remove_def sp_request_to_json_def
        demo_request_def demo_http_lib_def text_headers_def to_bytes_def DEFAULT_MAX_BODY_BYTES_def)
  have n: "[0..<2] = [0, 1::nat]" by (simp add: upt_conv_Cons)
  from sdk_calls_answered [OF p] a have "mset (wp_waiting p) = {#}" by (auto simp: n simp del: mset_upt)
  with p a show ?thesis by auto
qed

text \<open>The delay before the SDK bridge reconnects doubles from one second up to a minute. After session i
  it is the i - j-th power of two, at most 60 seconds, where j is the last session before it that was
  connected, or the first session of all if none was; so after every lost connection it starts again.\<close>

theorem ws_backoff_doubles:
  assumes "i < length outcomes" and "j \<le> i" and "Shutdown \<notin> set (take (Suc i) outcomes)"
    and "j = 0 \<or> (\<exists>why. outcomes ! j = Disconnected why)"
    and "\<forall>k. j < k \<and> k \<le> i \<longrightarrow> (\<nexists>why. outcomes ! k = Disconnected why)"
  shows "ws_loop RECONNECT_INITIAL_BACKOFF outcomes ! i = min RECONNECT_MAX_BACKOFF (2 ^ (i - j))"
proof -
  have init: "RECONNECT_INITIAL_BACKOFF = 1" "RECONNECT_MAX_BACKOFF = 60"
    by (simp_all add: RECONNECT_INITIAL_BACKOFF_def RECONNECT_MAX_BACKOFF_def)
  have failed: "\<exists>why. outcomes ! k = Connection_Failed why" if "j < k" "k \<le> i" for k
  proof -
    have "outcomes ! k \<in> set (take (Suc i) outcomes)" using that assms(1) by (simp add: nth_in_take)
    with assms(3,5) that show ?thesis by (cases "outcomes ! k") auto
  qed
  note nth = ws_loop_nth [OF assms(1,3), of RECONNECT_INITIAL_BACKOFF]
  show ?thesis
  proof (cases "\<exists>why. outcomes ! j = Disconnected why")
    case True
    show ?thesis
    proof (cases "i = j")
      case False
      then have ji: "j < i" using assms(2) by simp
      have split: "take i outcomes = take j outcomes @ outcomes ! j # take (i - Suc j) (drop (Suc j) outcomes)"
        using ji assms(1) by (metis Cons_nth_drop_Suc Suc_diff_Suc add_diff_inverse_nat less_imp_not_less
            less_trans take_Suc_Cons take_add)
      have "\<exists>why. outcome = Connection_Failed why" if "outcome \<in> set (take (i - Suc j) (drop (Suc j) outcomes))" for outcome
        using that failed ji assms(1) by (fastforce simp: in_set_conv_nth)
      then have "foldl next_backoff RECONNECT_INITIAL_BACKOFF (take i outcomes) =
          min RECONNECT_MAX_BACKOFF (2 * 2 ^ (i - Suc j))"
        using True ji assms(1) by (auto simp: split next_backoff_def init failures_double)
      moreover have "(2::nat) * 2 ^ (i - Suc j) = 2 ^ (i - j)" using ji by (metis Suc_diff_Suc power_Suc)
      ultimately show ?thesis using nth failed [of i] ji by auto
    qed (use True nth init in auto)
  next
    case False
    then have j: "j = 0" using assms(4) by blast
    have first: "\<exists>why. outcomes ! k = Connection_Failed why" if "k \<le> i" for k
    proof (cases "k = 0")
      case True
      have "outcomes ! 0 \<in> set (take (Suc i) outcomes)" using assms(1) by (simp add: nth_in_take)
      with False j assms(3) True show ?thesis by (cases "outcomes ! 0") auto
    qed (use failed j that in auto)
    then have "foldl next_backoff RECONNECT_INITIAL_BACKOFF (take i outcomes) = min RECONNECT_MAX_BACKOFF (2 ^ i)"
      using assms(1) failures_double [of "take i outcomes" RECONNECT_INITIAL_BACKOFF]
      by (fastforce simp: init in_set_conv_nth)
    with nth first [of i] j show ?thesis by auto
  qed
qed

theorem ws_backoff_doubles_witness:
  "ws_loop RECONNECT_INITIAL_BACKOFF (replicate 7 (Connection_Failed ''refused'')) ! 6 = 60 \<and>
   ws_loop RECONNECT_INITIAL_BACKOFF
     [Connection_Failed ''refused'', Disconnected ''gone'', Connection_Failed ''refused''] ! 2 = 2"
proof -
  let ?os = "[Connection_Failed ''refused'', Disconnected ''gone'', Connection_Failed ''refused'']"
  have "\<forall>k. 1 < k \<and> k \<le> 2 \<longrightarrow> (\<nexists>why. ?os ! k = Disconnected why)"
  proof (intro allI impI)
    fix k :: nat
    assume "1 < k \<and> k \<le> 2"
    then have "k = 2" by simp
    then show "\<nexists>why. ?os ! k = Disconnected why" by simp
  qed
  then show ?thesis
    using ws_backoff_doubles [of 6 "replicate 7 (Connection_Failed ''refused'')" 0] ws_backoff_doubles [of 2 ?os 1]
    by (simp add: RECONNECT_MAX_BACKOFF_def)
qed

end
