(* ===== verification/Platform_Errors.thy ===== *)
theory Platform_Errors
  imports Http_Relay
begin

text \<open>
  The errors of the platform's API, \<open>BlockfrostError\<close> of \<open>crates/common/src/errors.rs\<close> with its
  constructors and its response, the middleware of \<open>crates/platform/src/middlewares/errors.rs\<close> that
  rewrites the responses of the handlers.
\<close>

section \<open>The error\<close>

record blockfrost_error =
  bf_error :: string
  bf_message :: string
  bf_status_code :: u16

definition not_found :: blockfrost_error where
  "not_found = \<lparr>bf_error = ''Not Found'', bf_message = ''The requested component has not been found.'',
     bf_status_code = 404\<rparr>"

definition custom_400 :: "string \<Rightarrow> blockfrost_error" where
  "custom_400 message = \<lparr>bf_error = ''Bad Request'', bf_message = message, bf_status_code = 400\<rparr>"

definition invalid_asset_name :: blockfrost_error where
  "invalid_asset_name = custom_400 ''Invalid or malformed asset format.''"

definition invalid_pool_id :: blockfrost_error where
  "invalid_pool_id = custom_400 ''Invalid or malformed pool id format.''"

definition invalid_epoch_number :: blockfrost_error where
  "invalid_epoch_number = custom_400 ''params/number must be integer''"

definition invalid_epoch_missing_or_malformed :: blockfrost_error where
  "invalid_epoch_missing_or_malformed = custom_400 ''Missing, out of range or malformed epoch_number.''"

definition invalid_stake_address :: blockfrost_error where
  "invalid_stake_address = custom_400 ''Invalid or malformed stake address format.''"

definition invalid_address :: blockfrost_error where
  "invalid_address = custom_400 ''Invalid address for this network or malformed address format.''"

definition method_not_allowed :: blockfrost_error where
  "method_not_allowed = custom_400 ''Invalid path. Please check https://docs.blockfrost.io/''"

definition malformed_range_param :: blockfrost_error where
  "malformed_range_param = \<lparr>bf_error = ''Bad Request'',
     bf_message = ''Invalid (malformed or out of range) from/to parameter(s).'', bf_status_code = 400\<rparr>"

definition internal_server_error :: "string \<Rightarrow> blockfrost_error" where
  "internal_server_error err =
     \<lparr>bf_error = ''Internal Server Error'', bf_message = err, bf_status_code = 500\<rparr>"

definition timeout_error :: "string \<Rightarrow> blockfrost_error" where
  "timeout_error message = \<lparr>bf_error = ''Request Timeout'', bf_message = message, bf_status_code = 408\<rparr>"

definition internal_server_error_user :: blockfrost_error where
  "internal_server_error_user = \<lparr>bf_error = ''Internal Server Error'',
     bf_message = ''An unexpected response was received from the backend.'', bf_status_code = 500\<rparr>"

definition show_blockfrost_error :: "blockfrost_error \<Rightarrow> string" where
  "show_blockfrost_error e = ''BlockfrostError: '' @ bf_message e"

lemmas blockfrost_error_defs = not_found_def custom_400_def invalid_asset_name_def invalid_pool_id_def
  invalid_epoch_number_def invalid_epoch_missing_or_malformed_def invalid_stake_address_def
  invalid_address_def method_not_allowed_def malformed_range_param_def internal_server_error_def
  timeout_error_def internal_server_error_user_def

section \<open>Errors of the parts of the platform\<close>

datatype app_error =
    AE_Node string
  | AE_Registration string
  | AE_Server string
  | AE_Load_Balancer string
  | AE_Data_Node string

fun error_of_app_error :: "app_error \<Rightarrow> blockfrost_error" where
  "error_of_app_error (AE_Node e) = internal_server_error e"
| "error_of_app_error (AE_Registration e) = internal_server_error e"
| "error_of_app_error (AE_Server e) = internal_server_error e"
| "error_of_app_error (AE_Load_Balancer e) = internal_server_error e"
| "error_of_app_error (AE_Data_Node e) = internal_server_error e"

definition error_of_localstate :: "string \<Rightarrow> blockfrost_error" where
  "error_of_localstate err = internal_server_error (''localstate::ClientError: '' @ err)"

section \<open>Responses\<close>

text \<open>The JSON text of an error is the serializer's.\<close>

definition error_status :: "u16 \<Rightarrow> u16" where
  "error_status code =
     (if code = 400 then 400 else if code = 404 then 404 else if code = 405 then 405
      else if code = 500 then 500 else 500)"

definition error_response :: "(blockfrost_error \<Rightarrow> string) \<Rightarrow> blockfrost_error \<Rightarrow> http_response" where
  "error_response json e =
     \<lparr>hr_status = error_status (bf_status_code e),
      hr_headers = [(''content-type'', ''application/json'')], hr_body = Inr (json e)\<rparr>"

definition is_server_error :: "u16 \<Rightarrow> bool" where
  "is_server_error code \<longleftrightarrow> 500 \<le> code \<and> code \<le> 599"

definition is_client_error :: "u16 \<Rightarrow> bool" where
  "is_client_error code \<longleftrightarrow> 400 \<le> code \<and> code \<le> 499"

text \<open>\<open>log_client_error\<close> reads the body in order to log it, and puts it back.\<close>

definition log_client_error :: "(blockfrost_error \<Rightarrow> string) \<Rightarrow> http_response \<Rightarrow> http_response" where
  "log_client_error json r =
     (case hr_body r of
        Inr bytes \<Rightarrow> r\<lparr>hr_body := Inr bytes\<rparr>
      | Inl _ \<Rightarrow> error_response json internal_server_error_user)"

definition error_middleware :: "(blockfrost_error \<Rightarrow> string) \<Rightarrow> http_response \<Rightarrow> http_response" where
  "error_middleware json r =
     (if hr_status r = 408 then error_response json internal_server_error_user
      else if hr_status r = 405 then error_response json method_not_allowed
      else if is_server_error (hr_status r) \<and> hr_status r \<noteq> 503 then
        error_response json internal_server_error_user
      else if is_client_error (hr_status r) then log_client_error json r
      else r)"

text \<open>What the client of a handler sees.\<close>

definition respond :: "(blockfrost_error \<Rightarrow> string) \<Rightarrow> ('a \<Rightarrow> http_response) \<Rightarrow> blockfrost_error + 'a \<Rightarrow> http_response" where
  "respond json ok r =
     error_middleware json (case r of Inl e \<Rightarrow> error_response json e | Inr a \<Rightarrow> ok a)"

text \<open>The platform's clients never see an internal error. Of the responses that pass the middleware, those
  with a server error are the generic one, except for a 503 of the root route, which is left as it was; an
  error of a handler reaches the client with its own message exactly when its status is 400 or 404, and
  otherwise as the generic error, or, for a method that is not allowed, as the error about the path; and
  every other response is passed on unchanged, unless its body cannot be read.\<close>

lemma internal_errors_hidden:
  "(is_server_error (hr_status (error_middleware json r)) \<longrightarrow>
      error_middleware json r = error_response json internal_server_error_user \<or>
      hr_status r = 503 \<and> error_middleware json r = r) \<and>
   respond json ok (Inl e) =
     error_response json
       (if bf_status_code e = 400 \<or> bf_status_code e = 404 then e
        else if bf_status_code e = 405 then method_not_allowed
        else internal_server_error_user) \<and>
   (\<not> is_server_error (hr_status r) \<and> hr_status r \<notin> {405, 408} \<and> hr_body r = Inr bytes \<longrightarrow>
      error_middleware json r = r)"
  by (auto simp: error_middleware_def respond_def error_response_def error_status_def log_client_error_def
      is_server_error_def is_client_error_def blockfrost_error_defs split: sum.splits)

end
