(* ===== verification/Platform_Input.thy ===== *)
theory Platform_Input
  imports Platform_Errors Rust_Text
begin

text \<open>
  What the platform accepts in the paths and queries of its API: \<open>pagination.rs\<close> of \<open>crates/common\<close>, and
  \<open>accounts.rs\<close>, \<open>addresses.rs\<close>, \<open>payment_cred.rs\<close>, \<open>assets.rs\<close>, \<open>blocks.rs\<close>, \<open>epochs.rs\<close>, \<open>pools.rs\<close>,
  \<open>dreps.rs\<close>, \<open>validation.rs\<close> and \<open>api/tx/submit.rs\<close> of \<open>crates/platform\<close>. The codecs (hex, bech32,
  base58) are libraries: their functions are parameters, with what they document as \<open>codecs_ok\<close>.
  Strings are byte strings.
\<close>

section \<open>Pagination\<close>

datatype order = Asc | Desc

record pagination_query =
  pq_page :: "string option"
  pq_count :: "string option"
  pq_order :: "string option"
  pq_from :: "string option"
  pq_to :: "string option"

record param_parts =
  pp_height :: "int option"
  pp_index :: "int option"

record pagination =
  pg_page :: int
  pg_count :: int
  pg_order :: order
  pg_from :: param_parts
  pg_to :: param_parts

definition unwrap_or :: "'a \<Rightarrow> 'a option \<Rightarrow> 'a" where
  "unwrap_or d x = (case x of None \<Rightarrow> d | Some a \<Rightarrow> a)"

definition order_from_string :: "string option \<Rightarrow> string + order" where
  "order_from_string order0 =
     (let s = unwrap_or ''asc'' order0
      in if s \<noteq> ''asc'' \<and> s \<noteq> ''desc'' then
           Inl ''querystring/order must be equal to one of the allowed values''
         else if s = ''asc'' then Inr Asc else if s = ''desc'' then Inr Desc else Inr Asc)"

fun order_as_str :: "order \<Rightarrow> string" where
  "order_as_str Asc = ''asc''"
| "order_as_str Desc = ''desc''"

definition get_order_param :: "string option \<Rightarrow> string + order" where
  "get_order_param param =
     (let s = unwrap_or ''asc'' param
      in if s \<noteq> ''asc'' \<and> s \<noteq> ''desc'' then
           Inl ''querystring/order must be equal to one of the allowed values''
         else order_from_string (Some s))"

definition get_page_param :: "string option \<Rightarrow> string + int" where
  "get_page_param param =
     (let page = unwrap_or ''1'' param
      in if \<not> list_all is_ascii_digit page then Inl ''querystring/page must be integer''
         else case parse_i32 page of
                None \<Rightarrow> Inl ''querystring/page must be <= 21474836''
              | Some n \<Rightarrow>
                  if n < 1 then Inl ''querystring/page must be >= 1''
                  else if n > 21474836 then Inl ''querystring/page must be <= 21474836''
                  else Inr n)"

definition get_count_param :: "string option \<Rightarrow> string + int" where
  "get_count_param param =
     (let count = unwrap_or ''100'' param
      in case parse_i64 count of
           None \<Rightarrow> Inl ''querystring/count must be integer''
         | Some n \<Rightarrow>
             if n < 1 then Inl ''querystring/count must be >= 1''
             else if n > 100 then Inl ''querystring/count must be <= 100''
             else if - (2 ^ 31) \<le> n \<and> n \<le> 2 ^ 31 - 1 then Inr n
             else Inl ''querystring/count must be integer'')"

definition valid_value :: "int \<Rightarrow> bool" where
  "valid_value v \<longleftrightarrow> 0 \<le> v \<and> v \<le> 2 ^ 31 - 1"

definition get_range_param :: "string option \<Rightarrow> blockfrost_error + param_parts" where
  "get_range_param param =
     (case param of
        None \<Rightarrow> Inr \<lparr>pp_height = None, pp_index = None\<rparr>
      | Some param_str \<Rightarrow>
          (let parts = split_char CHR '':'' param_str
           in case parse_i32 (hd parts) of
                None \<Rightarrow> Inl malformed_range_param
              | Some parsed_height \<Rightarrow>
                  if \<not> valid_value parsed_height then Inl malformed_range_param
                  else if length parts = 1 then Inr \<lparr>pp_height = Some parsed_height, pp_index = None\<rparr>
                  else if length parts = 2 then
                    (case parse_i32 (parts ! 1) of
                       None \<Rightarrow> Inl malformed_range_param
                     | Some parsed_index \<Rightarrow>
                         if \<not> valid_value parsed_index then Inl malformed_range_param
                         else Inr \<lparr>pp_height = Some parsed_height, pp_index = Some parsed_index\<rparr>)
                  else Inl malformed_range_param))"

definition pagination_from_query :: "pagination_query \<Rightarrow> blockfrost_error + pagination" where
  "pagination_from_query q =
     and_then (map_error custom_400 (get_count_param (pq_count q))) (\<lambda>count.
     and_then (map_error custom_400 (get_page_param (pq_page q))) (\<lambda>page.
     and_then (map_error custom_400 (get_order_param (pq_order q))) (\<lambda>ord.
     and_then (map_error (\<lambda>_. malformed_range_param) (get_range_param (pq_from q))) (\<lambda>from_part.
     and_then (map_error (\<lambda>_. malformed_range_param) (get_range_param (pq_to q))) (\<lambda>to_part.
       if (case (pp_height to_part, pp_height from_part) of
             (Some t, Some f) \<Rightarrow> f > t
           | _ \<Rightarrow> False) then Inl malformed_range_param
       else Inr \<lparr>pg_page = page, pg_count = count, pg_order = ord, pg_from = from_part,
                 pg_to = to_part\<rparr>)))))"

definition show_parts :: "param_parts \<Rightarrow> string option" where
  "show_parts p =
     (case pp_height p of
        None \<Rightarrow> None
      | Some h \<Rightarrow>
          Some (case pp_index p of Some i \<Rightarrow> show_int h @ '':'' @ show_int i | None \<Rightarrow> show_int h))"

text \<open>\<open>apply_pagination\<close>: the pairs appended to the query of a URL.\<close>

definition apply_pagination :: "pagination \<Rightarrow> (string \<times> string) list" where
  "apply_pagination p =
     [(''page'', show_int (pg_page p)), (''count'', show_int (pg_count p)),
      (''order'', order_as_str (pg_order p))] @
     (case show_parts (pg_from p) of None \<Rightarrow> [] | Some v \<Rightarrow> [(''from'', v)]) @
     (case show_parts (pg_to p) of None \<Rightarrow> [] | Some v \<Rightarrow> [(''to'', v)])"

section \<open>Codecs\<close>

text \<open>An error of bech32 is its text; the first component of what it decodes is the prefix.\<close>

record codecs =
  cd_hex_decode :: "string \<Rightarrow> string option"
  cd_hex_encode :: "string \<Rightarrow> string"
  cd_bech32_decode :: "string \<Rightarrow> string + string \<times> string"
  cd_bech32_encode :: "string \<Rightarrow> string \<Rightarrow> string + string"
  cd_hrp_parse :: "string \<Rightarrow> string + unit"
  cd_byron_base58 :: "string \<Rightarrow> bool"
  cd_pub_key_hash :: "string \<Rightarrow> string option"

definition is_alnum :: "char \<Rightarrow> bool" where
  "is_alnum c \<longleftrightarrow> is_ascii_digit c \<or> 65 \<le> (of_char c :: nat) \<and> of_char c \<le> (90 :: nat) \<or>
     97 \<le> (of_char c :: nat) \<and> of_char c \<le> (122 :: nat)"

definition is_hex_digit :: "char \<Rightarrow> bool" where
  "is_hex_digit c \<longleftrightarrow> is_ascii_digit c \<or> 65 \<le> (of_char c :: nat) \<and> of_char c \<le> (70 :: nat) \<or>
     97 \<le> (of_char c :: nat) \<and> of_char c \<le> (102 :: nat)"

definition bech32_text :: "string \<Rightarrow> string \<Rightarrow> bool" where
  "bech32_text hrp s \<longleftrightarrow> (\<exists>t. s = hrp @ ''1'' @ t \<and> list_all is_alnum t)"

definition codecs_ok :: "codecs \<Rightarrow> bool" where
  "codecs_ok C \<longleftrightarrow>
     (\<forall>s. cd_hex_decode C s \<noteq> None \<longleftrightarrow> even (length s) \<and> list_all is_hex_digit s) \<and>
     (\<forall>b. cd_hex_decode C (cd_hex_encode C b) = Some b) \<and>
     (\<forall>s hrp b. cd_bech32_decode C s = Inr (hrp, b) \<longrightarrow> bech32_text hrp s) \<and>
     (\<forall>hrp b s. cd_bech32_encode C hrp b = Inr s \<longrightarrow> bech32_text hrp s \<and> cd_bech32_decode C s = Inr (hrp, b)) \<and>
     (\<forall>s. cd_byron_base58 C s \<longrightarrow> s \<noteq> [] \<and> list_all is_alnum s)"

section \<open>Networks and addresses\<close>

datatype network = Mainnet | Preprod | Preview | Custom

fun default_gateway_url :: "network \<Rightarrow> string" where
  "default_gateway_url Preprod = ''https://api-dev.icebreakers.blockfrost.io''"
| "default_gateway_url Preview = ''https://api-dev.icebreakers.blockfrost.io''"
| "default_gateway_url Mainnet = ''https://icebreakers-mainnet.blockfrost.io''"
| "default_gateway_url Custom = ''http://localhost:3001''"

datatype address_type = AT_Invalid | AT_Byron | AT_Shelley

datatype payment_cred_prefix = Pre_Addr_Vkh | Pre_Addr_Vk | Pre_Script | Pre_Invalid

record payment_cred =
  pc_payload :: "string option"
  pc_prefix :: payment_cred_prefix

text \<open>The text \<open>\x\<close> before a payload in hex.\<close>

definition payload_mark :: string where
  "payload_mark = [CHR 0x5C, CHR ''x'']"

definition payment_cred_from_bech_32 :: "codecs \<Rightarrow> string \<Rightarrow> payment_cred" where
  "payment_cred_from_bech_32 C address =
     (let empty_result = \<lparr>pc_payload = None, pc_prefix = Pre_Invalid\<rparr>
      in case cd_bech32_decode C address of
           Inl _ \<Rightarrow> empty_result
         | Inr (hrp, payload) \<Rightarrow>
             if hrp = ''addr_vkh'' then
               \<lparr>pc_payload = Some (payload_mark @ cd_hex_encode C payload), pc_prefix = Pre_Addr_Vkh\<rparr>
             else if hrp = ''addr_vk'' then
               (case cd_pub_key_hash C (cd_hex_encode C payload) of
                  Some hash \<Rightarrow> \<lparr>pc_payload = Some (payload_mark @ hash), pc_prefix = Pre_Addr_Vk\<rparr>
                | None \<Rightarrow> empty_result)
             else if hrp = ''script'' then
               \<lparr>pc_payload = Some (payload_mark @ cd_hex_encode C payload), pc_prefix = Pre_Script\<rparr>
             else empty_result)"

definition payment_cred_to_bytes :: "codecs \<Rightarrow> payment_cred \<Rightarrow> string option" where
  "payment_cred_to_bytes C p =
     Option.bind (pc_payload p) (\<lambda>payload.
       Option.bind (if starts_with payload_mark payload then strip_prefix payload_mark payload else Some payload)
         (cd_hex_decode C))"

text \<open>The errors that name their cause differ in their text only.\<close>

definition payment_cred_to_bech_32 ::
  "codecs \<Rightarrow> string \<Rightarrow> payment_cred_prefix \<Rightarrow> blockfrost_error + string" where
  "payment_cred_to_bech_32 C address prefix0 =
     (case cd_hex_decode C address of
        None \<Rightarrow> Inl (internal_server_error ''get_bech32_from_payment_cred cannot decode hex'')
      | Some bytes \<Rightarrow>
          if prefix0 = Pre_Addr_Vkh \<or> prefix0 = Pre_Script then
            (let prefix_str = (if prefix0 = Pre_Addr_Vkh then ''addr_vkh'' else ''script'')
             in and_then (map_error (\<lambda>e. internal_server_error
                    (''get_bech32_from_payment_cred hrp parse error: '' @ e)) (cd_hrp_parse C prefix_str)) (\<lambda>_.
                map_error (\<lambda>e. internal_server_error
                    (''get_bech32_from_payment_cred encode error: '' @ e)) (cd_bech32_encode C prefix_str bytes)))
          else Inl (internal_server_error
                 (''get_bech32_from_payment_cred hex decode error: '' @
                    (if prefix0 = Pre_Addr_Vk then ''AddrVk'' else ''Invalid''))))"

definition get_address_type :: "codecs \<Rightarrow> string \<Rightarrow> network \<Rightarrow> address_type" where
  "get_address_type C address net =
     (if cd_byron_base58 C address then AT_Byron
      else case cd_bech32_decode C address of
             Inl _ \<Rightarrow> AT_Invalid
           | Inr (hrp, _) \<Rightarrow>
               if hrp = ''addr'' \<and> net = Mainnet then AT_Shelley
               else if hrp = ''addr_test'' \<and> net \<noteq> Mainnet then AT_Shelley
               else if hrp = ''addr_vkh'' \<or> hrp = ''script'' then AT_Shelley
               else AT_Invalid)"

record address_info =
  ai_address_type :: address_type
  ai_payment_cred :: payment_cred
  ai_address :: string

definition address_from :: "codecs \<Rightarrow> network \<Rightarrow> string \<Rightarrow> blockfrost_error + address_info" where
  "address_from C net address =
     (if get_address_type C address net = AT_Invalid then Inl invalid_address
      else Inr \<lparr>ai_address_type = get_address_type C address net,
                ai_payment_cred = payment_cred_from_bech_32 C address, ai_address = address\<rparr>)"

definition is_stake_address_valid :: "codecs \<Rightarrow> network \<Rightarrow> string \<Rightarrow> blockfrost_error + bool" where
  "is_stake_address_valid C net input =
     and_then (map_error (\<lambda>_. invalid_stake_address) (cd_bech32_decode C input)) (\<lambda>(hrp, _).
       if hrp \<noteq> ''stake'' \<and> hrp \<noteq> ''stake_test'' then Inl invalid_stake_address
       else if net = Mainnet \<and> hrp = ''stake'' then Inr True
       else if net \<noteq> Mainnet \<and> hrp = ''stake_test'' then Inr True
       else Inr False)"

definition account_from_path :: "codecs \<Rightarrow> network \<Rightarrow> string \<Rightarrow> blockfrost_error + string" where
  "account_from_path C net stake_address =
     and_then (is_stake_address_valid C net stake_address) (\<lambda>is_valid.
       if \<not> is_valid then Inl invalid_stake_address else Inr stake_address)"

section \<open>Assets, blocks, epochs, pools and dreps\<close>

definition validate_asset_name :: "codecs \<Rightarrow> string \<Rightarrow> bool" where
  "validate_asset_name C asset_name \<longleftrightarrow>
     (if asset_name = ''lovelace'' then True
      else if cd_hex_decode C asset_name \<noteq> None then 56 \<le> length asset_name \<and> length asset_name \<le> 120
      else False)"

definition asset_from_query :: "codecs \<Rightarrow> string \<Rightarrow> blockfrost_error + string" where
  "asset_from_query C asset = (if \<not> validate_asset_name C asset then Inl invalid_asset_name else Inr asset)"

text \<open>What \<open>str::parse::<f64>\<close> accepts.\<close>

definition exponent_text :: "string \<Rightarrow> bool" where
  "exponent_text s \<longleftrightarrow>
     (case s of
        [] \<Rightarrow> True
      | c # t \<Rightarrow>
          (c = CHR ''e'' \<or> c = CHR ''E'') \<and>
          (let t' = (case t of [] \<Rightarrow> [] | d # u \<Rightarrow> if d = CHR ''+'' \<or> d = CHR ''-'' then u else t)
           in t' \<noteq> [] \<and> list_all is_ascii_digit t'))"

definition decimal_text :: "string \<Rightarrow> bool" where
  "decimal_text s \<longleftrightarrow>
     (let whole = takeWhile is_ascii_digit s; rest = dropWhile is_ascii_digit s
      in case rest of
           [] \<Rightarrow> whole \<noteq> []
         | c # t \<Rightarrow>
             if c = CHR ''.'' then
               (whole \<noteq> [] \<or> takeWhile is_ascii_digit t \<noteq> []) \<and> exponent_text (dropWhile is_ascii_digit t)
             else whole \<noteq> [] \<and> exponent_text rest)"

definition f64_text :: "string \<Rightarrow> bool" where
  "f64_text s \<longleftrightarrow>
     (let body = (case s of [] \<Rightarrow> [] | c # t \<Rightarrow> if c = CHR ''+'' \<or> c = CHR ''-'' then t else s)
      in map ascii_lower body \<in> {''inf'', ''infinity'', ''nan''} \<or> decimal_text body)"

definition is_number :: "string \<Rightarrow> bool" where
  "is_number v \<longleftrightarrow> v \<noteq> [] \<and> f64_text v"

definition MAX_SIGNED_INT :: int where "MAX_SIGNED_INT = 2147483647"

definition validate_positive_in_range_signed_int :: "string \<Rightarrow> bool" where
  "validate_positive_in_range_signed_int s \<longleftrightarrow>
     (if s = [] then False
      else case parse_i64 s of Some n \<Rightarrow> n > 0 \<and> n \<le> MAX_SIGNED_INT | None \<Rightarrow> False)"

definition validate_block_hash :: "codecs \<Rightarrow> string \<Rightarrow> bool" where
  "validate_block_hash C input \<longleftrightarrow> (if length input \<noteq> 64 then False else cd_hex_decode C input \<noteq> None)"

definition validate_hash_or_number :: "codecs \<Rightarrow> string \<Rightarrow> string + unit" where
  "validate_hash_or_number C s =
     (if is_number s then
        (if validate_positive_in_range_signed_int s then Inr ()
         else Inl ''Missing, out of range or malformed block number.'')
      else if validate_block_hash C s then Inr ()
      else Inl ''Missing or malformed block hash.'')"

definition block_from_string :: "codecs \<Rightarrow> string \<Rightarrow> blockfrost_error + string" where
  "block_from_string C s = and_then (map_error custom_400 (validate_hash_or_number C s)) (\<lambda>_. Inr s)"

definition is_positive_int :: "string option \<Rightarrow> bool" where
  "is_positive_int s =
     (case s of
        Some t \<Rightarrow> (case parse_i32 t of Some v \<Rightarrow> 0 \<le> v \<and> v \<le> 2 ^ 31 - 1 | None \<Rightarrow> False)
      | None \<Rightarrow> False)"

text \<open>The length of an epoch is looked up, too; the callers use the number only.\<close>

definition epoch_from_path :: "string \<Rightarrow> blockfrost_error + int" where
  "epoch_from_path epoch_number =
     (if \<not> list_all is_ascii_digit epoch_number then Inl invalid_epoch_number
      else if \<not> is_positive_int (Some epoch_number) then Inl invalid_epoch_missing_or_malformed
      else case parse_i32 epoch_number of
             Some n \<Rightarrow> Inr n
           | None \<Rightarrow> Inl invalid_epoch_number)"

definition validate_and_convert_pool :: "codecs \<Rightarrow> string \<Rightarrow> string option" where
  "validate_and_convert_pool C input =
     (case cd_hex_decode C input of
        Some bytes \<Rightarrow>
          (case cd_hrp_parse C ''pool'' of
             Inl _ \<Rightarrow> None
           | Inr _ \<Rightarrow> (case cd_bech32_encode C ''pool'' bytes of Inr pool_id \<Rightarrow> Some pool_id | Inl _ \<Rightarrow> None))
      | None \<Rightarrow>
          (case cd_bech32_decode C input of
             Inl _ \<Rightarrow> None
           | Inr (hrp, _) \<Rightarrow> if hrp = ''pool'' then Some input else None))"

definition pool_from_path :: "codecs \<Rightarrow> string \<Rightarrow> blockfrost_error + string" where
  "pool_from_path C pool_id =
     (case validate_and_convert_pool C pool_id of Some p \<Rightarrow> Inr p | None \<Rightarrow> Inl invalid_pool_id)"

definition special_drep_ids :: "string list" where
  "special_drep_ids = [''drep_always_abstain'', ''drep_always_no_confidence'']"

definition drep_to_cip129 :: "codecs \<Rightarrow> string \<Rightarrow> blockfrost_error + string" where
  "drep_to_cip129 C drep_id =
     (if drep_id \<in> set special_drep_ids then Inr drep_id
      else
        and_then (map_error (\<lambda>e. internal_server_error (''Bech32 decode error: '' @ e)) (cd_bech32_decode C drep_id))
        (\<lambda>(hrp, raw_bytes).
          if hrp \<noteq> ''drep'' \<and> hrp \<noteq> ''drep_script'' then
            Inl (internal_server_error ''Invalid drep id prefix'')
          else if length raw_bytes = 28 then
            (let header = char_of ((2 * 16 + (if hrp = ''drep_script'' then 3 else 2)) :: nat)
             in and_then (map_error (\<lambda>e. internal_server_error (''Bech32 HRP error: '' @ e)) (cd_hrp_parse C ''drep''))
                (\<lambda>_. map_error (\<lambda>e. internal_server_error (''Bech32 encode error: '' @ e))
                       (cd_bech32_encode C ''drep'' (header # raw_bytes))))
          else if length raw_bytes = 29 then Inr drep_id
          else Inl (internal_server_error ''Invalid DRep ID length'')))"

definition POLICY_ID_SIZE :: nat where "POLICY_ID_SIZE = 56"

text \<open>\<open>None\<close>: \<open>split_at\<close> panics, inside a character of several bytes.\<close>

definition parse_asset :: "string \<Rightarrow> (blockfrost_error + string \<times> string) option" where
  "parse_asset hex =
     (if length hex < POLICY_ID_SIZE then
        Some (Inl (internal_server_error (''Asset name is too short: '' @ hex)))
      else if POLICY_ID_SIZE < length hex \<and> 128 \<le> (of_char (hex ! POLICY_ID_SIZE) :: nat) \<and>
          of_char (hex ! POLICY_ID_SIZE) < (192 :: nat) then None
      else Some (Inr (take POLICY_ID_SIZE hex, drop POLICY_ID_SIZE hex)))"

section \<open>Submitted transactions\<close>

text \<open>The debug texts of a string and of a list of strings are parameters.\<close>

definition validate_content_type ::
  "(string \<Rightarrow> string) \<Rightarrow> (string list \<Rightarrow> string) \<Rightarrow> string option \<Rightarrow> string list \<Rightarrow> blockfrost_error + bool" where
  "validate_content_type debug_one debug content_type allowed =
     (case content_type of
        None \<Rightarrow> Inr True
      | Some ct \<Rightarrow>
          if ct \<notin> set allowed then
            Inl (custom_400 (if length allowed = 1 then ''Content-Type must be: '' @ debug_one (hd allowed)
                             else ''Content-Type must be one of: '' @ debug allowed))
          else Inr True)"

definition binary_or_hex_heuristic :: "codecs \<Rightarrow> string \<Rightarrow> string" where
  "binary_or_hex_heuristic C xs =
     (if odd (length xs) \<or> \<not> list_all is_hex_digit xs then xs
      else case cd_hex_decode C xs of Some bytes \<Rightarrow> bytes | None \<Rightarrow> xs)"

end
