(* ===== verification/Platform_Rest.thy ===== *)
theory Platform_Rest
  imports Platform_Input
begin

text \<open>
  The REST API of the platform under its prefix: the requests to the data node
  (\<open>crates/data_node/src/api\<close>), the handlers (\<open>crates/platform/src/api\<close>), the table that routes a path to
  its handler (\<open>server/routes/hidden.rs\<close>) and the client that fetches the answer
  (\<open>crates/common/src/json_client.rs\<close>). A handler validates its input, in the order of the code, and gives
  either an error or the path and the pagination of one request to the data node.
\<close>

section \<open>State and replies\<close>

type_synonym dn_request = "string \<times> pagination option"

record genesis_response =
  ge_active_slots_coefficient :: real
  ge_update_quorum :: int
  ge_max_lovelace_supply :: string
  ge_network_magic :: int
  ge_epoch_length :: int
  ge_system_start :: int
  ge_slots_per_kes_period :: int
  ge_slot_length :: int
  ge_max_kes_evolutions :: int
  ge_security_param :: int

text \<open>The health is that of \<open>HealthMonitor\<close>, the time that of the system clock.\<close>

record rest_state =
  rs_codecs :: codecs
  rs_network :: network
  rs_genesis :: "(network \<times> genesis_response) list"
  rs_data_node :: bool
  rs_healthy :: bool
  rs_server_time :: int

datatype rest_reply =
    RR_Data_Node dn_request
  | RR_Health bool
  | RR_Clock int
  | RR_Genesis "genesis_response option"      \<comment> \<open>\<open>None\<close>: \<open>by_network\<close> panics\<close>
  | RR_Path_Rejection                         \<comment> \<open>axum's 400 with a text, before the handler runs\<close>

type_synonym rest_result = "blockfrost_error + rest_reply"

definition data_node :: "rest_state \<Rightarrow> blockfrost_error + unit" where
  "data_node st =
     (if rs_data_node st then Inr () else Inl (internal_server_error ''Data node is not configured''))"

definition genesis_by_network :: "(network \<times> genesis_response) list \<Rightarrow> network \<Rightarrow> genesis_response option" where
  "genesis_by_network genesis net = map_option snd (find (\<lambda>(n, _). n = net) genesis)"

definition genesis_add ::
  "network \<Rightarrow> genesis_response \<Rightarrow> (network \<times> genesis_response) list \<Rightarrow> (network \<times> genesis_response) list" where
  "genesis_add net g genesis =
     (case List.extract (\<lambda>(n, _). n = net) genesis of
        Some (before, (n, _), after) \<Rightarrow> before @ (n, g) # after
      | None \<Rightarrow> (net, g) # genesis)"

text \<open>The casts to \<open>u64\<close> of the magic numbers, which are \<open>i32\<close>, sign-extend.\<close>

definition magic_u64 :: "genesis_response \<Rightarrow> u64" where
  "magic_u64 g = word_of_int (ge_network_magic g)"

definition genesis_by_magic :: "(network \<times> genesis_response) list \<Rightarrow> u64 \<Rightarrow> genesis_response option" where
  "genesis_by_magic genesis magic = map_option snd (find (\<lambda>(_, g). magic_u64 g = magic) genesis)"

definition genesis_all_magics :: "(network \<times> genesis_response) list \<Rightarrow> u64 list" where
  "genesis_all_magics genesis = map (\<lambda>(_, g). magic_u64 g) genesis"

definition network_by_magic :: "(network \<times> genesis_response) list \<Rightarrow> u64 \<Rightarrow> network option" where
  "network_by_magic genesis magic = map_option fst (find (\<lambda>(_, g). magic_u64 g = magic) genesis)"

section \<open>Requests to the data node\<close>

definition dn_accounts_stake_address :: "string \<Rightarrow> dn_request" where
  "dn_accounts_stake_address stake_address = (''accounts/'' @ stake_address, None)"

definition dn_accounts_rewards :: "string \<Rightarrow> pagination \<Rightarrow> dn_request" where
  "dn_accounts_rewards stake_address pagination = (''accounts/'' @ stake_address @ ''/rewards'', Some pagination)"

definition dn_accounts_addresses :: "string \<Rightarrow> pagination \<Rightarrow> dn_request" where
  "dn_accounts_addresses stake_address pagination = (''accounts/'' @ stake_address @ ''/addresses'', Some pagination)"

definition dn_accounts_delegations :: "string \<Rightarrow> pagination \<Rightarrow> dn_request" where
  "dn_accounts_delegations stake_address pagination = (''accounts/'' @ stake_address @ ''/delegations'', Some pagination)"

definition dn_accounts_registrations :: "string \<Rightarrow> pagination \<Rightarrow> dn_request" where
  "dn_accounts_registrations stake_address pagination = (''accounts/'' @ stake_address @ ''/registrations'', Some pagination)"

definition dn_accounts_withdrawals :: "string \<Rightarrow> pagination \<Rightarrow> dn_request" where
  "dn_accounts_withdrawals stake_address pagination = (''accounts/'' @ stake_address @ ''/withdrawals'', Some pagination)"

definition dn_accounts_utxos :: "string \<Rightarrow> pagination \<Rightarrow> dn_request" where
  "dn_accounts_utxos stake_address pagination = (''accounts/'' @ stake_address @ ''/utxos'', Some pagination)"

definition dn_addresses_address :: "string \<Rightarrow> dn_request" where
  "dn_addresses_address address = (''addresses/'' @ address, None)"

definition dn_addresses_utxos :: "string \<Rightarrow> pagination \<Rightarrow> dn_request" where
  "dn_addresses_utxos address pagination = (''addresses/'' @ address @ ''/utxos'', Some pagination)"

definition dn_addresses_utxos_asset :: "string \<Rightarrow> string \<Rightarrow> pagination \<Rightarrow> dn_request" where
  "dn_addresses_utxos_asset address asset pagination = (''addresses/'' @ address @ ''/utxos/'' @ asset, Some pagination)"

definition dn_addresses_transactions :: "string \<Rightarrow> pagination \<Rightarrow> dn_request" where
  "dn_addresses_transactions address pagination = (''addresses/'' @ address @ ''/transactions'', Some pagination)"

definition dn_addresses_txs :: "string \<Rightarrow> pagination \<Rightarrow> dn_request" where
  "dn_addresses_txs address pagination = (''addresses/'' @ address @ ''/txs'', Some pagination)"

definition dn_assets_asset :: "string \<Rightarrow> dn_request" where
  "dn_assets_asset asset_id = (''assets/'' @ asset_id, None)"

definition dn_assets_addresses :: "string \<Rightarrow> pagination \<Rightarrow> dn_request" where
  "dn_assets_addresses asset_id pagination = (''assets/'' @ asset_id @ ''/addresses'', Some pagination)"

definition dn_assets_transactions :: "string \<Rightarrow> pagination \<Rightarrow> dn_request" where
  "dn_assets_transactions asset_id pagination = (''assets/'' @ asset_id @ ''/transactions'', Some pagination)"

definition dn_blocks_latest :: dn_request where
  "dn_blocks_latest = (''blocks/latest'', None)"

definition dn_blocks_latest_txs :: dn_request where
  "dn_blocks_latest_txs = (''blocks/latest/txs'', None)"

definition dn_blocks_by :: "string \<Rightarrow> dn_request" where
  "dn_blocks_by hash_or_number = (''blocks/'' @ hash_or_number, None)"

definition dn_blocks_txs :: "string \<Rightarrow> pagination \<Rightarrow> dn_request" where
  "dn_blocks_txs hash_or_number pagination = (''blocks/'' @ hash_or_number @ ''/txs'', Some pagination)"

definition dn_blocks_previous :: "string \<Rightarrow> pagination \<Rightarrow> dn_request" where
  "dn_blocks_previous hash_or_number pagination = (''blocks/'' @ hash_or_number @ ''/previous'', Some pagination)"

definition dn_blocks_next :: "string \<Rightarrow> pagination \<Rightarrow> dn_request" where
  "dn_blocks_next hash_or_number pagination = (''blocks/'' @ hash_or_number @ ''/next'', Some pagination)"

definition dn_blocks_by_slot :: "string \<Rightarrow> dn_request" where
  "dn_blocks_by_slot slot = (''blocks/slot/'' @ slot, None)"

definition dn_epochs_parameters :: "int \<Rightarrow> dn_request" where
  "dn_epochs_parameters n = (''epochs/'' @ show_int n @ ''/parameters'', None)"

definition dn_epochs_latest_parameters :: dn_request where
  "dn_epochs_latest_parameters = (''epochs/latest/parameters'', None)"

definition dn_epochs_blocks :: "int \<Rightarrow> pagination \<Rightarrow> dn_request" where
  "dn_epochs_blocks n pagination = (''epochs/'' @ show_int n @ ''/blocks'', Some pagination)"

definition dn_genesis_get :: dn_request where
  "dn_genesis_get = (''genesis'', None)"

definition dn_governance_drep :: "string \<Rightarrow> dn_request" where
  "dn_governance_drep drep_id = (''governance/dreps/'' @ drep_id, None)"

definition dn_health_get :: dn_request where
  "dn_health_get = (''health'', None)"

definition dn_metadata_labels :: "pagination \<Rightarrow> dn_request" where
  "dn_metadata_labels pagination = (''metadata/txs/labels'', Some pagination)"

definition dn_metadata_label_json :: "string \<Rightarrow> pagination \<Rightarrow> dn_request" where
  "dn_metadata_label_json label pagination = (''metadata/txs/labels/'' @ label, Some pagination)"

definition dn_metadata_label_cbor :: "string \<Rightarrow> pagination \<Rightarrow> dn_request" where
  "dn_metadata_label_cbor label pagination = (''metadata/txs/labels/'' @ label @ ''/cbor'', Some pagination)"

definition dn_network_get :: dn_request where
  "dn_network_get = (''network'', None)"

definition dn_network_eras :: dn_request where
  "dn_network_eras = (''network/eras'', None)"

definition dn_pools_extended :: "pagination \<Rightarrow> dn_request" where
  "dn_pools_extended pagination = (''pools/extended'', Some pagination)"

definition dn_pools_delegators :: "string \<Rightarrow> pagination \<Rightarrow> dn_request" where
  "dn_pools_delegators pool_id pagination = (''pools/'' @ pool_id @ ''/delegators'', Some pagination)"

definition dn_pools_by_id :: "string \<Rightarrow> dn_request" where
  "dn_pools_by_id pool_id = (''pools/'' @ pool_id, None)"

definition dn_pools_metadata :: "string \<Rightarrow> dn_request" where
  "dn_pools_metadata pool_id = (''pools/'' @ pool_id @ ''/metadata'', None)"

definition dn_pools_history :: "string \<Rightarrow> pagination \<Rightarrow> dn_request" where
  "dn_pools_history pool_id pagination = (''pools/'' @ pool_id @ ''/history'', Some pagination)"

definition dn_scripts_by :: "string \<Rightarrow> dn_request" where
  "dn_scripts_by script_hash = (''scripts/'' @ script_hash, None)"

definition dn_scripts_json :: "string \<Rightarrow> dn_request" where
  "dn_scripts_json script_hash = (''scripts/'' @ script_hash @ ''/json'', None)"

definition dn_scripts_cbor :: "string \<Rightarrow> dn_request" where
  "dn_scripts_cbor script_hash = (''scripts/'' @ script_hash @ ''/cbor'', None)"

definition dn_scripts_datum :: "string \<Rightarrow> dn_request" where
  "dn_scripts_datum datum_hash = (''scripts/datum/'' @ datum_hash, None)"

definition dn_scripts_datum_cbor :: "string \<Rightarrow> dn_request" where
  "dn_scripts_datum_cbor datum_hash = (''scripts/datum/'' @ datum_hash @ ''/cbor'', None)"

definition dn_txs_by_hash :: "string \<Rightarrow> dn_request" where
  "dn_txs_by_hash hash = (''txs/'' @ hash, None)"

definition dn_txs_cbor :: "string \<Rightarrow> dn_request" where
  "dn_txs_cbor hash = (''txs/'' @ hash @ ''/cbor'', None)"

definition dn_txs_utxos :: "string \<Rightarrow> pagination \<Rightarrow> dn_request" where
  "dn_txs_utxos hash pagination = (''txs/'' @ hash @ ''/utxos'', Some pagination)"

definition dn_txs_metadata :: "string \<Rightarrow> pagination \<Rightarrow> dn_request" where
  "dn_txs_metadata hash pagination = (''txs/'' @ hash @ ''/metadata'', Some pagination)"

definition dn_txs_metadata_cbor :: "string \<Rightarrow> pagination \<Rightarrow> dn_request" where
  "dn_txs_metadata_cbor hash pagination = (''txs/'' @ hash @ ''/metadata/cbor'', Some pagination)"

definition dn_txs_withdrawals :: "string \<Rightarrow> pagination \<Rightarrow> dn_request" where
  "dn_txs_withdrawals hash pagination = (''txs/'' @ hash @ ''/withdrawals'', Some pagination)"

definition dn_txs_delegations :: "string \<Rightarrow> pagination \<Rightarrow> dn_request" where
  "dn_txs_delegations hash pagination = (''txs/'' @ hash @ ''/delegations'', Some pagination)"

definition dn_txs_mirs :: "string \<Rightarrow> pagination \<Rightarrow> dn_request" where
  "dn_txs_mirs hash pagination = (''txs/'' @ hash @ ''/mirs'', Some pagination)"

definition dn_txs_redeemers :: "string \<Rightarrow> pagination \<Rightarrow> dn_request" where
  "dn_txs_redeemers hash pagination = (''txs/'' @ hash @ ''/redeemers'', Some pagination)"

definition dn_txs_pool_updates :: "string \<Rightarrow> pagination \<Rightarrow> dn_request" where
  "dn_txs_pool_updates hash pagination = (''txs/'' @ hash @ ''/pool_updates'', Some pagination)"

definition dn_txs_pool_retires :: "string \<Rightarrow> pagination \<Rightarrow> dn_request" where
  "dn_txs_pool_retires hash pagination = (''txs/'' @ hash @ ''/pool_retires'', Some pagination)"

definition dn_txs_stakes :: "string \<Rightarrow> pagination \<Rightarrow> dn_request" where
  "dn_txs_stakes hash pagination = (''txs/'' @ hash @ ''/stakes'', Some pagination)"

section \<open>The handlers\<close>

text \<open>The handlers of the endpoints that the platform does not support.\<close>

definition rt_unsupported :: rest_result where
  "rt_unsupported = Inl not_found"

text \<open>The handler of \<open>governance/dreps\<close> extracts a parameter that its route does not have.\<close>

definition rt_governance_dreps :: rest_result where
  "rt_governance_dreps = Inr RR_Path_Rejection"

definition rt_accounts_delegations :: "rest_state \<Rightarrow> string \<Rightarrow> pagination_query \<Rightarrow> rest_result" where
  "rt_accounts_delegations st stake_address q =
     and_then (account_from_path (rs_codecs st) (rs_network st) stake_address) (\<lambda>account.
     and_then (pagination_from_query q) (\<lambda>pagination.
     and_then (data_node st) (\<lambda>_.
       Inr (RR_Data_Node (dn_accounts_delegations account pagination)))))"

definition rt_accounts_history :: "rest_state \<Rightarrow> string \<Rightarrow> pagination_query \<Rightarrow> rest_result" where
  "rt_accounts_history st stake_address q =
     and_then (account_from_path (rs_codecs st) (rs_network st) stake_address) (\<lambda>_.
     and_then (pagination_from_query q) (\<lambda>_.
       Inl not_found))"

definition rt_accounts_mirs :: "rest_state \<Rightarrow> string \<Rightarrow> pagination_query \<Rightarrow> rest_result" where
  "rt_accounts_mirs st stake_address q =
     and_then (account_from_path (rs_codecs st) (rs_network st) stake_address) (\<lambda>_.
     and_then (pagination_from_query q) (\<lambda>_.
       Inl not_found))"

definition rt_accounts_registrations :: "rest_state \<Rightarrow> string \<Rightarrow> pagination_query \<Rightarrow> rest_result" where
  "rt_accounts_registrations st stake_address q =
     and_then (account_from_path (rs_codecs st) (rs_network st) stake_address) (\<lambda>account.
     and_then (pagination_from_query q) (\<lambda>pagination.
     and_then (data_node st) (\<lambda>_.
       Inr (RR_Data_Node (dn_accounts_registrations account pagination)))))"

definition rt_accounts_rewards :: "rest_state \<Rightarrow> string \<Rightarrow> pagination_query \<Rightarrow> rest_result" where
  "rt_accounts_rewards st stake_address q =
     and_then (account_from_path (rs_codecs st) (rs_network st) stake_address) (\<lambda>account.
     and_then (pagination_from_query q) (\<lambda>pagination.
     and_then (data_node st) (\<lambda>_.
       Inr (RR_Data_Node (dn_accounts_rewards account pagination)))))"

definition rt_accounts :: "rest_state \<Rightarrow> string \<Rightarrow> rest_result" where
  "rt_accounts st stake_address =
     and_then (account_from_path (rs_codecs st) (rs_network st) stake_address) (\<lambda>account.
     and_then (data_node st) (\<lambda>_.
       Inr (RR_Data_Node (dn_accounts_stake_address account))))"

definition rt_accounts_utxos :: "rest_state \<Rightarrow> string \<Rightarrow> pagination_query \<Rightarrow> rest_result" where
  "rt_accounts_utxos st stake_address q =
     and_then (account_from_path (rs_codecs st) (rs_network st) stake_address) (\<lambda>account.
     and_then (pagination_from_query q) (\<lambda>pagination.
     and_then (data_node st) (\<lambda>_.
       Inr (RR_Data_Node (dn_accounts_utxos account pagination)))))"

definition rt_accounts_withdrawals :: "rest_state \<Rightarrow> string \<Rightarrow> pagination_query \<Rightarrow> rest_result" where
  "rt_accounts_withdrawals st stake_address q =
     and_then (account_from_path (rs_codecs st) (rs_network st) stake_address) (\<lambda>account.
     and_then (pagination_from_query q) (\<lambda>pagination.
     and_then (data_node st) (\<lambda>_.
       Inr (RR_Data_Node (dn_accounts_withdrawals account pagination)))))"

definition rt_accounts_addresses_assets :: "rest_state \<Rightarrow> string \<Rightarrow> pagination_query \<Rightarrow> rest_result" where
  "rt_accounts_addresses_assets st stake_address q =
     and_then (account_from_path (rs_codecs st) (rs_network st) stake_address) (\<lambda>_.
     and_then (pagination_from_query q) (\<lambda>_.
       Inl not_found))"

definition rt_accounts_addresses :: "rest_state \<Rightarrow> string \<Rightarrow> pagination_query \<Rightarrow> rest_result" where
  "rt_accounts_addresses st stake_address q =
     and_then (account_from_path (rs_codecs st) (rs_network st) stake_address) (\<lambda>account.
     and_then (pagination_from_query q) (\<lambda>pagination.
     and_then (data_node st) (\<lambda>_.
       Inr (RR_Data_Node (dn_accounts_addresses account pagination)))))"

definition rt_accounts_addresses_total :: "rest_state \<Rightarrow> string \<Rightarrow> rest_result" where
  "rt_accounts_addresses_total st stake_address =
     and_then (account_from_path (rs_codecs st) (rs_network st) stake_address) (\<lambda>_.
       Inl not_found)"

definition rt_addresses_extended :: "rest_state \<Rightarrow> string \<Rightarrow> rest_result" where
  "rt_addresses_extended st address =
     and_then (address_from (rs_codecs st) (rs_network st) address) (\<lambda>_.
       Inl not_found)"

definition rt_addresses :: "rest_state \<Rightarrow> string \<Rightarrow> rest_result" where
  "rt_addresses st address =
     and_then (address_from (rs_codecs st) (rs_network st) address) (\<lambda>address_info.
     and_then (data_node st) (\<lambda>_.
       Inr (RR_Data_Node (dn_addresses_address (ai_address address_info)))))"

definition rt_addresses_total :: "rest_state \<Rightarrow> string \<Rightarrow> rest_result" where
  "rt_addresses_total st address =
     and_then (address_from (rs_codecs st) (rs_network st) address) (\<lambda>_.
       Inl not_found)"

definition rt_addresses_transactions :: "rest_state \<Rightarrow> string \<Rightarrow> pagination_query \<Rightarrow> rest_result" where
  "rt_addresses_transactions st address q =
     and_then (pagination_from_query q) (\<lambda>pagination.
     and_then (address_from (rs_codecs st) (rs_network st) address) (\<lambda>address_info.
     and_then (data_node st) (\<lambda>_.
       Inr (RR_Data_Node (dn_addresses_transactions (ai_address address_info) pagination)))))"

definition rt_addresses_txs :: "rest_state \<Rightarrow> string \<Rightarrow> pagination_query \<Rightarrow> rest_result" where
  "rt_addresses_txs st address q =
     and_then (pagination_from_query q) (\<lambda>pagination.
     and_then (address_from (rs_codecs st) (rs_network st) address) (\<lambda>address_info.
     and_then (data_node st) (\<lambda>_.
       Inr (RR_Data_Node (dn_addresses_txs (ai_address address_info) pagination)))))"

definition rt_addresses_utxos_asset :: "rest_state \<Rightarrow> string \<Rightarrow> string \<Rightarrow> pagination_query \<Rightarrow> rest_result" where
  "rt_addresses_utxos_asset st address asset q =
     and_then (pagination_from_query q) (\<lambda>pagination.
     and_then (address_from (rs_codecs st) (rs_network st) address) (\<lambda>address_info.
     and_then (data_node st) (\<lambda>_.
     and_then (asset_from_query (rs_codecs st) asset) (\<lambda>asset_data.
       Inr (RR_Data_Node (dn_addresses_utxos_asset (ai_address address_info) asset_data pagination))))))"

definition rt_addresses_utxos :: "rest_state \<Rightarrow> string \<Rightarrow> pagination_query \<Rightarrow> rest_result" where
  "rt_addresses_utxos st address q =
     and_then (pagination_from_query q) (\<lambda>pagination.
     and_then (address_from (rs_codecs st) (rs_network st) address) (\<lambda>address_info.
     and_then (data_node st) (\<lambda>_.
       Inr (RR_Data_Node (dn_addresses_utxos (ai_address address_info) pagination)))))"

definition rt_assets_list :: "pagination_query \<Rightarrow> rest_result" where
  "rt_assets_list q =
     and_then (pagination_from_query q) (\<lambda>_.
       Inl not_found)"

definition rt_assets_addresses :: "rest_state \<Rightarrow> string \<Rightarrow> pagination_query \<Rightarrow> rest_result" where
  "rt_assets_addresses st asset q =
     and_then (asset_from_query (rs_codecs st) asset) (\<lambda>asset_data.
     and_then (pagination_from_query q) (\<lambda>pagination.
     and_then (data_node st) (\<lambda>_.
       Inr (RR_Data_Node (dn_assets_addresses asset_data pagination)))))"

definition rt_assets_history :: "rest_state \<Rightarrow> string \<Rightarrow> pagination_query \<Rightarrow> rest_result" where
  "rt_assets_history st asset q =
     and_then (asset_from_query (rs_codecs st) asset) (\<lambda>_.
     and_then (pagination_from_query q) (\<lambda>_.
       Inl not_found))"

definition rt_assets_asset :: "rest_state \<Rightarrow> string \<Rightarrow> rest_result" where
  "rt_assets_asset st asset =
     and_then (asset_from_query (rs_codecs st) asset) (\<lambda>asset_data.
     and_then (data_node st) (\<lambda>_.
       Inr (RR_Data_Node (dn_assets_asset asset_data))))"

definition rt_assets_transactions :: "rest_state \<Rightarrow> string \<Rightarrow> pagination_query \<Rightarrow> rest_result" where
  "rt_assets_transactions st asset q =
     and_then (asset_from_query (rs_codecs st) asset) (\<lambda>asset_data.
     and_then (pagination_from_query q) (\<lambda>pagination.
     and_then (data_node st) (\<lambda>_.
       Inr (RR_Data_Node (dn_assets_transactions asset_data pagination)))))"

definition rt_assets_policy :: "pagination_query \<Rightarrow> rest_result" where
  "rt_assets_policy q =
     and_then (pagination_from_query q) (\<lambda>_.
       Inl not_found)"

definition rt_blocks_addresses :: "rest_state \<Rightarrow> string \<Rightarrow> rest_result" where
  "rt_blocks_addresses st hash_or_number =
     and_then (block_from_string (rs_codecs st) hash_or_number) (\<lambda>_.
       Inl not_found)"

definition rt_blocks_next :: "rest_state \<Rightarrow> string \<Rightarrow> pagination_query \<Rightarrow> rest_result" where
  "rt_blocks_next st hash_or_number q =
     and_then (block_from_string (rs_codecs st) hash_or_number) (\<lambda>block_data.
     and_then (pagination_from_query q) (\<lambda>pagination.
     and_then (data_node st) (\<lambda>_.
       Inr (RR_Data_Node (dn_blocks_next block_data pagination)))))"

definition rt_blocks_previous :: "rest_state \<Rightarrow> string \<Rightarrow> pagination_query \<Rightarrow> rest_result" where
  "rt_blocks_previous st hash_or_number q =
     and_then (block_from_string (rs_codecs st) hash_or_number) (\<lambda>block_data.
     and_then (pagination_from_query q) (\<lambda>pagination.
     and_then (data_node st) (\<lambda>_.
       Inr (RR_Data_Node (dn_blocks_previous block_data pagination)))))"

definition rt_blocks :: "rest_state \<Rightarrow> string \<Rightarrow> rest_result" where
  "rt_blocks st hash_or_number =
     and_then (block_from_string (rs_codecs st) hash_or_number) (\<lambda>block_data.
     and_then (data_node st) (\<lambda>_.
       Inr (RR_Data_Node (dn_blocks_by block_data))))"

definition rt_blocks_txs :: "rest_state \<Rightarrow> string \<Rightarrow> pagination_query \<Rightarrow> rest_result" where
  "rt_blocks_txs st hash_or_number q =
     and_then (block_from_string (rs_codecs st) hash_or_number) (\<lambda>block_data.
     and_then (pagination_from_query q) (\<lambda>pagination.
     and_then (data_node st) (\<lambda>_.
       Inr (RR_Data_Node (dn_blocks_txs block_data pagination)))))"

definition rt_blocks_latest :: "rest_state \<Rightarrow> rest_result" where
  "rt_blocks_latest st =
     and_then (data_node st) (\<lambda>_.
       Inr (RR_Data_Node dn_blocks_latest))"

definition rt_blocks_latest_txs :: "rest_state \<Rightarrow> rest_result" where
  "rt_blocks_latest_txs st =
     and_then (data_node st) (\<lambda>_.
       Inr (RR_Data_Node dn_blocks_latest_txs))"

definition rt_blocks_slot :: "rest_state \<Rightarrow> string \<Rightarrow> rest_result" where
  "rt_blocks_slot st slot_number =
     and_then (data_node st) (\<lambda>_.
       Inr (RR_Data_Node (dn_blocks_by_slot slot_number)))"

definition rt_epochs_latest_parameters :: "rest_state \<Rightarrow> rest_result" where
  "rt_epochs_latest_parameters st =
     and_then (data_node st) (\<lambda>_.
       Inr (RR_Data_Node dn_epochs_latest_parameters))"

definition rt_epochs_parameters :: "rest_state \<Rightarrow> string \<Rightarrow> rest_result" where
  "rt_epochs_parameters st epoch_number =
     and_then (epoch_from_path epoch_number) (\<lambda>epoch_data.
     and_then (data_node st) (\<lambda>_.
       Inr (RR_Data_Node (dn_epochs_parameters epoch_data))))"

definition rt_epochs_blocks :: "rest_state \<Rightarrow> string \<Rightarrow> pagination_query \<Rightarrow> rest_result" where
  "rt_epochs_blocks st epoch_number q =
     and_then (epoch_from_path epoch_number) (\<lambda>epoch_data.
     and_then (pagination_from_query q) (\<lambda>pagination.
     and_then (data_node st) (\<lambda>_.
       Inr (RR_Data_Node (dn_epochs_blocks epoch_data pagination)))))"

definition rt_drep :: "rest_state \<Rightarrow> string \<Rightarrow> rest_result" where
  "rt_drep st drep_id =
     and_then (data_node st) (\<lambda>_.
       Inr (RR_Data_Node (dn_governance_drep drep_id)))"

definition rt_health_clock :: "rest_state \<Rightarrow> rest_result" where
  "rt_health_clock st = Inr (RR_Clock (rs_server_time st))"

definition rt_health :: "rest_state \<Rightarrow> rest_result" where
  "rt_health st = Inr (RR_Health (if \<not> rs_healthy st then False else True))"

definition rt_ledger_genesis :: "rest_state \<Rightarrow> rest_result" where
  "rt_ledger_genesis st = Inr (RR_Genesis (genesis_by_network (rs_genesis st) (rs_network st)))"

definition rt_metadata_txs_labels :: "rest_state \<Rightarrow> pagination_query \<Rightarrow> rest_result" where
  "rt_metadata_txs_labels st q =
     and_then (pagination_from_query q) (\<lambda>pagination.
     and_then (data_node st) (\<lambda>_.
       Inr (RR_Data_Node (dn_metadata_labels pagination))))"

definition rt_metadata_txs_label_cbor :: "rest_state \<Rightarrow> string \<Rightarrow> pagination_query \<Rightarrow> rest_result" where
  "rt_metadata_txs_label_cbor st label q =
     and_then (pagination_from_query q) (\<lambda>pagination.
     and_then (data_node st) (\<lambda>_.
       Inr (RR_Data_Node (dn_metadata_label_cbor label pagination))))"

definition rt_metadata_txs_label :: "rest_state \<Rightarrow> string \<Rightarrow> pagination_query \<Rightarrow> rest_result" where
  "rt_metadata_txs_label st label q =
     and_then (pagination_from_query q) (\<lambda>pagination.
     and_then (data_node st) (\<lambda>_.
       Inr (RR_Data_Node (dn_metadata_label_json label pagination))))"

definition rt_network_eras :: "rest_state \<Rightarrow> rest_result" where
  "rt_network_eras st =
     and_then (data_node st) (\<lambda>_.
       Inr (RR_Data_Node dn_network_eras))"

definition rt_network :: "rest_state \<Rightarrow> rest_result" where
  "rt_network st =
     and_then (data_node st) (\<lambda>_.
       Inr (RR_Data_Node dn_network_get))"

definition rt_pools_extended :: "rest_state \<Rightarrow> pagination_query \<Rightarrow> rest_result" where
  "rt_pools_extended st q =
     and_then (data_node st) (\<lambda>_.
     and_then (pagination_from_query q) (\<lambda>pagination.
       Inr (RR_Data_Node (dn_pools_extended pagination))))"

definition rt_pool_delegators :: "rest_state \<Rightarrow> string \<Rightarrow> pagination_query \<Rightarrow> rest_result" where
  "rt_pool_delegators st pool_id q =
     and_then (pool_from_path (rs_codecs st) pool_id) (\<lambda>pool_data.
     and_then (pagination_from_query q) (\<lambda>pagination.
     and_then (data_node st) (\<lambda>_.
       Inr (RR_Data_Node (dn_pools_delegators pool_data pagination)))))"

definition rt_pool_history :: "rest_state \<Rightarrow> string \<Rightarrow> pagination_query \<Rightarrow> rest_result" where
  "rt_pool_history st pool_id q =
     and_then (pool_from_path (rs_codecs st) pool_id) (\<lambda>pool_data.
     and_then (pagination_from_query q) (\<lambda>pagination.
     and_then (data_node st) (\<lambda>_.
       Inr (RR_Data_Node (dn_pools_history pool_data pagination)))))"

definition rt_pool_metadata :: "rest_state \<Rightarrow> string \<Rightarrow> rest_result" where
  "rt_pool_metadata st pool_id =
     and_then (pool_from_path (rs_codecs st) pool_id) (\<lambda>pool_data.
     and_then (data_node st) (\<lambda>_.
       Inr (RR_Data_Node (dn_pools_metadata pool_data))))"

definition rt_pool :: "rest_state \<Rightarrow> string \<Rightarrow> rest_result" where
  "rt_pool st pool_id =
     and_then (pool_from_path (rs_codecs st) pool_id) (\<lambda>pool_data.
     and_then (data_node st) (\<lambda>_.
       Inr (RR_Data_Node (dn_pools_by_id pool_data))))"

definition rt_scripts_datum_cbor :: "rest_state \<Rightarrow> string \<Rightarrow> rest_result" where
  "rt_scripts_datum_cbor st datum_hash =
     and_then (data_node st) (\<lambda>_.
       Inr (RR_Data_Node (dn_scripts_datum_cbor datum_hash)))"

definition rt_scripts_datum :: "rest_state \<Rightarrow> string \<Rightarrow> rest_result" where
  "rt_scripts_datum st datum_hash =
     and_then (data_node st) (\<lambda>_.
       Inr (RR_Data_Node (dn_scripts_datum datum_hash)))"

definition rt_script_cbor :: "rest_state \<Rightarrow> string \<Rightarrow> rest_result" where
  "rt_script_cbor st script_hash =
     and_then (data_node st) (\<lambda>_.
       Inr (RR_Data_Node (dn_scripts_cbor script_hash)))"

definition rt_script_json :: "rest_state \<Rightarrow> string \<Rightarrow> rest_result" where
  "rt_script_json st script_hash =
     and_then (data_node st) (\<lambda>_.
       Inr (RR_Data_Node (dn_scripts_json script_hash)))"

definition rt_script :: "rest_state \<Rightarrow> string \<Rightarrow> rest_result" where
  "rt_script st script_hash =
     and_then (data_node st) (\<lambda>_.
       Inr (RR_Data_Node (dn_scripts_by script_hash)))"

definition rt_tx_cbor :: "rest_state \<Rightarrow> string \<Rightarrow> rest_result" where
  "rt_tx_cbor st tx_hash =
     and_then (data_node st) (\<lambda>_.
       Inr (RR_Data_Node (dn_txs_cbor tx_hash)))"

definition rt_tx_delegations :: "rest_state \<Rightarrow> string \<Rightarrow> pagination_query \<Rightarrow> rest_result" where
  "rt_tx_delegations st tx_hash q =
     and_then (pagination_from_query q) (\<lambda>pagination.
     and_then (data_node st) (\<lambda>_.
       Inr (RR_Data_Node (dn_txs_delegations tx_hash pagination))))"

definition rt_tx_mirs :: "rest_state \<Rightarrow> string \<Rightarrow> pagination_query \<Rightarrow> rest_result" where
  "rt_tx_mirs st tx_hash q =
     and_then (pagination_from_query q) (\<lambda>pagination.
     and_then (data_node st) (\<lambda>_.
       Inr (RR_Data_Node (dn_txs_mirs tx_hash pagination))))"

definition rt_tx_pool_retires :: "rest_state \<Rightarrow> string \<Rightarrow> pagination_query \<Rightarrow> rest_result" where
  "rt_tx_pool_retires st tx_hash q =
     and_then (pagination_from_query q) (\<lambda>pagination.
     and_then (data_node st) (\<lambda>_.
       Inr (RR_Data_Node (dn_txs_pool_retires tx_hash pagination))))"

definition rt_tx_pool_updates :: "rest_state \<Rightarrow> string \<Rightarrow> pagination_query \<Rightarrow> rest_result" where
  "rt_tx_pool_updates st tx_hash q =
     and_then (pagination_from_query q) (\<lambda>pagination.
     and_then (data_node st) (\<lambda>_.
       Inr (RR_Data_Node (dn_txs_pool_updates tx_hash pagination))))"

definition rt_tx_redeemers :: "rest_state \<Rightarrow> string \<Rightarrow> pagination_query \<Rightarrow> rest_result" where
  "rt_tx_redeemers st tx_hash q =
     and_then (pagination_from_query q) (\<lambda>pagination.
     and_then (data_node st) (\<lambda>_.
       Inr (RR_Data_Node (dn_txs_redeemers tx_hash pagination))))"

definition rt_tx :: "rest_state \<Rightarrow> string \<Rightarrow> rest_result" where
  "rt_tx st tx_hash =
     and_then (data_node st) (\<lambda>_.
       Inr (RR_Data_Node (dn_txs_by_hash tx_hash)))"

definition rt_tx_stakes :: "rest_state \<Rightarrow> string \<Rightarrow> pagination_query \<Rightarrow> rest_result" where
  "rt_tx_stakes st tx_hash q =
     and_then (pagination_from_query q) (\<lambda>pagination.
     and_then (data_node st) (\<lambda>_.
       Inr (RR_Data_Node (dn_txs_stakes tx_hash pagination))))"

definition rt_tx_utxos :: "rest_state \<Rightarrow> string \<Rightarrow> pagination_query \<Rightarrow> rest_result" where
  "rt_tx_utxos st tx_hash q =
     and_then (pagination_from_query q) (\<lambda>pagination.
     and_then (data_node st) (\<lambda>_.
       Inr (RR_Data_Node (dn_txs_utxos tx_hash pagination))))"

definition rt_tx_withdrawals :: "rest_state \<Rightarrow> string \<Rightarrow> pagination_query \<Rightarrow> rest_result" where
  "rt_tx_withdrawals st tx_hash q =
     and_then (pagination_from_query q) (\<lambda>pagination.
     and_then (data_node st) (\<lambda>_.
       Inr (RR_Data_Node (dn_txs_withdrawals tx_hash pagination))))"

definition rt_tx_metadata_cbor :: "rest_state \<Rightarrow> string \<Rightarrow> pagination_query \<Rightarrow> rest_result" where
  "rt_tx_metadata_cbor st tx_hash q =
     and_then (pagination_from_query q) (\<lambda>pagination.
     and_then (data_node st) (\<lambda>_.
       Inr (RR_Data_Node (dn_txs_metadata_cbor tx_hash pagination))))"

definition rt_tx_metadata :: "rest_state \<Rightarrow> string \<Rightarrow> pagination_query \<Rightarrow> rest_result" where
  "rt_tx_metadata st tx_hash q =
     and_then (pagination_from_query q) (\<lambda>pagination.
     and_then (data_node st) (\<lambda>_.
       Inr (RR_Data_Node (dn_txs_metadata tx_hash pagination))))"


section \<open>The routes\<close>

datatype pattern_segment = Lit string | Param

type_synonym handler = "string list \<Rightarrow> pagination_query \<Rightarrow> rest_result"

text \<open>\<open>get_hidden_api_routes\<close>, the routes for \<open>GET\<close>. A handler gets the segments at its parameters.\<close>

definition hidden_routes :: "rest_state \<Rightarrow> (pattern_segment list \<times> handler) list" where
  "hidden_routes st = [
     ([Lit ''accounts'', Param], \<lambda>ps _. rt_accounts st (ps ! 0)),
     ([Lit ''accounts'', Param, Lit ''rewards''], \<lambda>ps q. rt_accounts_rewards st (ps ! 0) q),
     ([Lit ''accounts'', Param, Lit ''history''], \<lambda>ps q. rt_accounts_history st (ps ! 0) q),
     ([Lit ''accounts'', Param, Lit ''delegations''], \<lambda>ps q. rt_accounts_delegations st (ps ! 0) q),
     ([Lit ''accounts'', Param, Lit ''registrations''], \<lambda>ps q. rt_accounts_registrations st (ps ! 0) q),
     ([Lit ''accounts'', Param, Lit ''withdrawals''], \<lambda>ps q. rt_accounts_withdrawals st (ps ! 0) q),
     ([Lit ''accounts'', Param, Lit ''mirs''], \<lambda>ps q. rt_accounts_mirs st (ps ! 0) q),
     ([Lit ''accounts'', Param, Lit ''addresses''], \<lambda>ps q. rt_accounts_addresses st (ps ! 0) q),
     ([Lit ''accounts'', Param, Lit ''addresses'', Lit ''assets''], \<lambda>ps q. rt_accounts_addresses_assets st (ps ! 0) q),
     ([Lit ''accounts'', Param, Lit ''addresses'', Lit ''total''], \<lambda>ps _. rt_accounts_addresses_total st (ps ! 0)),
     ([Lit ''accounts'', Param, Lit ''utxos''], \<lambda>ps q. rt_accounts_utxos st (ps ! 0) q),
     ([Lit ''addresses'', Param], \<lambda>ps _. rt_addresses st (ps ! 0)),
     ([Lit ''addresses'', Param, Lit ''extended''], \<lambda>ps _. rt_addresses_extended st (ps ! 0)),
     ([Lit ''addresses'', Param, Lit ''total''], \<lambda>ps _. rt_addresses_total st (ps ! 0)),
     ([Lit ''addresses'', Param, Lit ''utxos''], \<lambda>ps q. rt_addresses_utxos st (ps ! 0) q),
     ([Lit ''addresses'', Param, Lit ''utxos'', Param], \<lambda>ps q. rt_addresses_utxos_asset st (ps ! 0) (ps ! 1) q),
     ([Lit ''addresses'', Param, Lit ''transactions''], \<lambda>ps q. rt_addresses_transactions st (ps ! 0) q),
     ([Lit ''addresses'', Param, Lit ''txs''], \<lambda>ps q. rt_addresses_txs st (ps ! 0) q),
     ([Lit ''assets''], \<lambda>_ q. rt_assets_list q),
     ([Lit ''assets'', Param], \<lambda>ps _. rt_assets_asset st (ps ! 0)),
     ([Lit ''assets'', Param, Lit ''history''], \<lambda>ps q. rt_assets_history st (ps ! 0) q),
     ([Lit ''assets'', Param, Lit ''transactions''], \<lambda>ps q. rt_assets_transactions st (ps ! 0) q),
     ([Lit ''assets'', Param, Lit ''addresses''], \<lambda>ps q. rt_assets_addresses st (ps ! 0) q),
     ([Lit ''assets'', Lit ''policy'', Param], \<lambda>_ q. rt_assets_policy q),
     ([Lit ''blocks'', Lit ''epoch'', Param, Lit ''slot'', Param], \<lambda>_ _. rt_unsupported),
     ([Lit ''blocks'', Lit ''slot'', Param], \<lambda>ps _. rt_blocks_slot st (ps ! 0)),
     ([Lit ''blocks'', Lit ''latest''], \<lambda>_ _. rt_blocks_latest st),
     ([Lit ''blocks'', Lit ''latest'', Lit ''txs''], \<lambda>_ _. rt_blocks_latest_txs st),
     ([Lit ''blocks'', Param], \<lambda>ps _. rt_blocks st (ps ! 0)),
     ([Lit ''blocks'', Param, Lit ''addresses''], \<lambda>ps _. rt_blocks_addresses st (ps ! 0)),
     ([Lit ''blocks'', Param, Lit ''next''], \<lambda>ps q. rt_blocks_next st (ps ! 0) q),
     ([Lit ''blocks'', Param, Lit ''previous''], \<lambda>ps q. rt_blocks_previous st (ps ! 0) q),
     ([Lit ''blocks'', Param, Lit ''txs''], \<lambda>ps q. rt_blocks_txs st (ps ! 0) q),
     ([Lit ''epochs'', Lit ''latest''], \<lambda>_ _. rt_unsupported),
     ([Lit ''epochs'', Lit ''latest'', Lit ''parameters''], \<lambda>_ _. rt_epochs_latest_parameters st),
     ([Lit ''epochs'', Param], \<lambda>_ _. rt_unsupported),
     ([Lit ''epochs'', Param, Lit ''next''], \<lambda>_ _. rt_unsupported),
     ([Lit ''epochs'', Param, Lit ''previous''], \<lambda>_ _. rt_unsupported),
     ([Lit ''epochs'', Param, Lit ''stakes''], \<lambda>_ _. rt_unsupported),
     ([Lit ''epochs'', Param, Lit ''stakes'', Param], \<lambda>_ _. rt_unsupported),
     ([Lit ''epochs'', Param, Lit ''blocks''], \<lambda>ps q. rt_epochs_blocks st (ps ! 0) q),
     ([Lit ''epochs'', Param, Lit ''blocks'', Param], \<lambda>_ _. rt_unsupported),
     ([Lit ''epochs'', Param, Lit ''parameters''], \<lambda>ps _. rt_epochs_parameters st (ps ! 0)),
     ([Lit ''health''], \<lambda>_ _. rt_health st),
     ([Lit ''health'', Lit ''clock''], \<lambda>_ _. rt_health_clock st),
     ([Lit ''genesis''], \<lambda>_ _. rt_ledger_genesis st),
     ([Lit ''governance'', Lit ''dreps''], \<lambda>_ _. rt_governance_dreps),
     ([Lit ''governance'', Lit ''dreps'', Param], \<lambda>ps _. rt_drep st (ps ! 0)),
     ([Lit ''governance'', Lit ''dreps'', Param, Lit ''delegators''], \<lambda>_ _. rt_unsupported),
     ([Lit ''governance'', Lit ''dreps'', Param, Lit ''metadata''], \<lambda>_ _. rt_unsupported),
     ([Lit ''governance'', Lit ''dreps'', Param, Lit ''updates''], \<lambda>_ _. rt_unsupported),
     ([Lit ''governance'', Lit ''dreps'', Param, Lit ''votes''], \<lambda>_ _. rt_unsupported),
     ([Lit ''governance'', Lit ''proposals''], \<lambda>_ _. rt_unsupported),
     ([Lit ''governance'', Lit ''proposals'', Param, Param], \<lambda>_ _. rt_unsupported),
     ([Lit ''governance'', Lit ''proposals'', Param, Param, Lit ''parameters''], \<lambda>_ _. rt_unsupported),
     ([Lit ''governance'', Lit ''proposals'', Param, Param, Lit ''withdrawals''], \<lambda>_ _. rt_unsupported),
     ([Lit ''governance'', Lit ''proposals'', Param, Param, Lit ''votes''], \<lambda>_ _. rt_unsupported),
     ([Lit ''governance'', Lit ''proposals'', Param, Param, Lit ''metadata''], \<lambda>_ _. rt_unsupported),
     ([Lit ''metadata'', Lit ''txs'', Lit ''labels''], \<lambda>_ q. rt_metadata_txs_labels st q),
     ([Lit ''metadata'', Lit ''txs'', Lit ''labels'', Param], \<lambda>ps q. rt_metadata_txs_label st (ps ! 0) q),
     ([Lit ''metadata'', Lit ''txs'', Lit ''labels'', Param, Lit ''cbor''], \<lambda>ps q. rt_metadata_txs_label_cbor st (ps ! 0) q),
     ([Lit ''network''], \<lambda>_ _. rt_network st),
     ([Lit ''network'', Lit ''eras''], \<lambda>_ _. rt_network_eras st),
     ([Lit ''pools''], \<lambda>_ _. rt_unsupported),
     ([Lit ''pools'', Lit ''extended''], \<lambda>_ q. rt_pools_extended st q),
     ([Lit ''pools'', Lit ''retired''], \<lambda>_ _. rt_unsupported),
     ([Lit ''pools'', Lit ''retiring''], \<lambda>_ _. rt_unsupported),
     ([Lit ''pools'', Param], \<lambda>ps _. rt_pool st (ps ! 0)),
     ([Lit ''pools'', Param, Lit ''history''], \<lambda>ps q. rt_pool_history st (ps ! 0) q),
     ([Lit ''pools'', Param, Lit ''metadata''], \<lambda>ps _. rt_pool_metadata st (ps ! 0)),
     ([Lit ''pools'', Param, Lit ''relays''], \<lambda>_ _. rt_unsupported),
     ([Lit ''pools'', Param, Lit ''delegators''], \<lambda>ps q. rt_pool_delegators st (ps ! 0) q),
     ([Lit ''pools'', Param, Lit ''blocks''], \<lambda>_ _. rt_unsupported),
     ([Lit ''pools'', Param, Lit ''updates''], \<lambda>_ _. rt_unsupported),
     ([Lit ''pools'', Param, Lit ''votes''], \<lambda>_ _. rt_unsupported),
     ([Lit ''scripts''], \<lambda>_ _. rt_unsupported),
     ([Lit ''scripts'', Param], \<lambda>ps _. rt_script st (ps ! 0)),
     ([Lit ''scripts'', Param, Lit ''json''], \<lambda>ps _. rt_script_json st (ps ! 0)),
     ([Lit ''scripts'', Param, Lit ''cbor''], \<lambda>ps _. rt_script_cbor st (ps ! 0)),
     ([Lit ''scripts'', Param, Lit ''redeemers''], \<lambda>_ _. rt_unsupported),
     ([Lit ''scripts'', Lit ''datum'', Param], \<lambda>ps _. rt_scripts_datum st (ps ! 0)),
     ([Lit ''scripts'', Lit ''datum'', Param, Lit ''cbor''], \<lambda>ps _. rt_scripts_datum_cbor st (ps ! 0)),
     ([Lit ''txs'', Param], \<lambda>ps _. rt_tx st (ps ! 0)),
     ([Lit ''txs'', Param, Lit ''utxos''], \<lambda>ps q. rt_tx_utxos st (ps ! 0) q),
     ([Lit ''txs'', Param, Lit ''stakes''], \<lambda>ps q. rt_tx_stakes st (ps ! 0) q),
     ([Lit ''txs'', Param, Lit ''delegations''], \<lambda>ps q. rt_tx_delegations st (ps ! 0) q),
     ([Lit ''txs'', Param, Lit ''withdrawals''], \<lambda>ps q. rt_tx_withdrawals st (ps ! 0) q),
     ([Lit ''txs'', Param, Lit ''mirs''], \<lambda>ps q. rt_tx_mirs st (ps ! 0) q),
     ([Lit ''txs'', Param, Lit ''pool_updates''], \<lambda>ps q. rt_tx_pool_updates st (ps ! 0) q),
     ([Lit ''txs'', Param, Lit ''pool_retires''], \<lambda>ps q. rt_tx_pool_retires st (ps ! 0) q),
     ([Lit ''txs'', Param, Lit ''metadata''], \<lambda>ps q. rt_tx_metadata st (ps ! 0) q),
     ([Lit ''txs'', Param, Lit ''metadata'', Lit ''cbor''], \<lambda>ps q. rt_tx_metadata_cbor st (ps ! 0) q),
     ([Lit ''txs'', Param, Lit ''redeemers''], \<lambda>ps q. rt_tx_redeemers st (ps ! 0) q),
     ([Lit ''txs'', Param, Lit ''required_signers''], \<lambda>_ _. rt_unsupported),
     ([Lit ''txs'', Param, Lit ''cbor''], \<lambda>ps _. rt_tx_cbor st (ps ! 0))]"

text \<open>A parameter matches a segment that is not empty.\<close>

fun match_pattern :: "pattern_segment list \<Rightarrow> string list \<Rightarrow> string list option" where
  "match_pattern [] [] = Some []"
| "match_pattern (Lit l # ps) (s # ss) = (if l = s then match_pattern ps ss else None)"
| "match_pattern (Param # ps) (s # ss) = (if s = [] then None else map_option ((#) s) (match_pattern ps ss))"
| "match_pattern _ _ = None"

text \<open>The router prefers a literal segment to a parameter, from the left.\<close>

fun more_specific :: "pattern_segment list \<Rightarrow> pattern_segment list \<Rightarrow> bool" where
  "more_specific (Lit _ # _) (Param # _) = True"
| "more_specific (Param # _) (Lit _ # _) = False"
| "more_specific (_ # ps) (_ # qs) = more_specific ps qs"
| "more_specific _ _ = False"

fun best_match ::
  "(pattern_segment list \<times> 'h) list \<Rightarrow> string list \<Rightarrow> (pattern_segment list \<times> 'h \<times> string list) option" where
  "best_match [] segs = None"
| "best_match ((pat, h) # rs) segs =
     (case match_pattern pat segs of
        None \<Rightarrow> best_match rs segs
      | Some ps \<Rightarrow>
          (case best_match rs segs of
             None \<Rightarrow> Some (pat, h, ps)
           | Some (pat', h', ps') \<Rightarrow>
               if more_specific pat' pat then Some (pat', h', ps') else Some (pat, h, ps)))"

text \<open>The segments are those of the path, decoded; a path without a route is not found.\<close>

definition rest_route :: "rest_state \<Rightarrow> string list \<Rightarrow> pagination_query \<Rightarrow> rest_result" where
  "rest_route st segs q =
     (case best_match (hidden_routes st) segs of
        None \<Rightarrow> Inl not_found
      | Some (_, h, ps) \<Rightarrow> h ps q)"

section \<open>Submission of transactions\<close>

text \<open>
  The only \<open>POST\<close> route that is not unsupported, \<open>tx/submit\<close>: what the node answers to the bytes is a
  parameter, as is the parser of a header's value; a success is the value of the header
  \<open>blockfrost-platform-response\<close> and the body. A panic of the node's task is not modelled.
\<close>

definition tx_submit ::
  "(string \<Rightarrow> string) \<Rightarrow> (string list \<Rightarrow> string) \<Rightarrow> codecs \<Rightarrow> (string \<Rightarrow> blockfrost_error + string) \<Rightarrow> (string \<Rightarrow> string + string) \<Rightarrow>
     string option \<Rightarrow> string \<Rightarrow> blockfrost_error + string \<times> string" where
  "tx_submit debug_one debug C submit_transaction header_value content_type body =
     and_then (validate_content_type debug_one debug content_type [''application/cbor'']) (\<lambda>_.
       let binary_tx = binary_or_hex_heuristic C body
       in and_then (submit_transaction binary_tx) (\<lambda>response_body.
          and_then (map_error (\<lambda>e. internal_server_error (''Invalid header value: '' @ e)) (header_value response_body)) (\<lambda>h.
            Inr (h, response_body))))"

section \<open>The answer of the data node\<close>

text \<open>
  \<open>JsonClient::get\<close> with the outcome of the request: an error of the transport, or a status and a body;
  the parser of the body is the deserializer of the endpoint's type. Joining the base URL and the path, an
  error of its own in the code, cannot fail for the relative paths of the endpoints and is left out.
\<close>

definition json_client_get ::
  "(string \<Rightarrow> string + 'a) \<Rightarrow> string + u16 \<times> string \<Rightarrow> blockfrost_error + 'a" where
  "json_client_get from_str outcome =
     and_then (map_error (\<lambda>e. internal_server_error (''HTTP error: '' @ e)) outcome) (\<lambda>(status, body_text).
       if status = 404 then Inl not_found
       else case from_str body_text of
              Inr body \<Rightarrow> Inr body
            | Inl e \<Rightarrow>
                if body_text = [] then Inl (internal_server_error ''Empty response from data node'')
                else Inl (internal_server_error (''JSON error: '' @ e)))"

end
