(* ===== verification/Platform_Input_Correct.thy ===== *)
theory Platform_Input_Correct
  imports Platform_Input
begin

text \<open>
  What the validators of the platform's API guarantee: bounds and a normal form of the pagination, and
  texts that are plain path segments for the identifiers that pass.
\<close>

section \<open>Pagination\<close>

definition parts_ok :: "param_parts \<Rightarrow> bool" where
  "parts_ok p \<longleftrightarrow>
     (\<forall>h. pp_height p = Some h \<longrightarrow> 0 \<le> h \<and> h < 2 ^ 31) \<and>
     (\<forall>i. pp_index p = Some i \<longrightarrow> 0 \<le> i \<and> i < 2 ^ 31 \<and> pp_height p \<noteq> None)"

definition pagination_ok :: "pagination \<Rightarrow> bool" where
  "pagination_ok p \<longleftrightarrow>
     1 \<le> pg_page p \<and> pg_page p \<le> 21474836 \<and> 1 \<le> pg_count p \<and> pg_count p \<le> 100 \<and>
     parts_ok (pg_from p) \<and> parts_ok (pg_to p) \<and>
     (\<forall>f t. pp_height (pg_from p) = Some f \<longrightarrow> pp_height (pg_to p) = Some t \<longrightarrow> f \<le> t)"

lemma valid_value_iff: "valid_value v \<longleftrightarrow> 0 \<le> v \<and> v < 2 ^ 31"
  by (auto simp: valid_value_def)

lemma get_page_param_Inr: "get_page_param q = Inr n \<Longrightarrow> 1 \<le> n \<and> n \<le> 21474836"
  by (auto simp: get_page_param_def Let_def split: if_splits option.splits)

lemma get_count_param_Inr: "get_count_param q = Inr n \<Longrightarrow> 1 \<le> n \<and> n \<le> 100"
  by (auto simp: get_count_param_def Let_def split: if_splits option.splits)

lemma get_range_param_Inr: "get_range_param q = Inr p \<Longrightarrow> parts_ok p"
  by (auto simp: get_range_param_def Let_def parts_ok_def valid_value_iff split: if_splits option.splits)

lemma pagination_from_query_ok: "pagination_from_query q = Inr p \<Longrightarrow> pagination_ok p"
  by (auto simp: pagination_from_query_def result_iff pagination_ok_def split: if_splits option.splits
      dest: get_page_param_Inr get_count_param_Inr get_range_param_Inr)

lemma show_int_nonneg: "0 \<le> z \<Longrightarrow> show_int z = show_nat (nat z)"
  by (simp add: show_int_def)

lemma colon_not_in_show_int: "0 \<le> z \<Longrightarrow> CHR '':'' \<notin> set (show_int z)"
  using list_all_show_nat [of "nat z"] sign_not_digit by (auto simp: show_int_nonneg list_all_iff)

lemma get_page_param_show:
  "1 \<le> n \<Longrightarrow> n \<le> 21474836 \<Longrightarrow> get_page_param (Some (show_int n)) = Inr n"
  using parse_signed_show_int [of "- (2 ^ 31)" n "2 ^ 31 - 1"]
  by (simp add: get_page_param_def unwrap_or_def parse_i32_def show_int_nonneg list_all_show_nat)

lemma get_count_param_show:
  "1 \<le> n \<Longrightarrow> n \<le> 100 \<Longrightarrow> get_count_param (Some (show_int n)) = Inr n"
  by (simp add: get_count_param_def unwrap_or_def parse_i64_def parse_signed_show_int)

lemma get_order_param_show: "get_order_param (Some (order_as_str d)) = Inr d"
  by (cases d) (simp_all add: get_order_param_def order_from_string_def unwrap_or_def)

lemma get_range_param_show:
  assumes "parts_ok p"
  shows "get_range_param (show_parts p) = Inr p"
proof (cases "pp_height p")
  case None
  with assms show ?thesis
    by (cases p) (auto simp: get_range_param_def show_parts_def parts_ok_def)
next
  case (Some h)
  with assms have h: "0 \<le> h" "h < 2 ^ 31" by (auto simp: parts_ok_def)
  then have ph: "parse_i32 (show_int h) = Some h" by (simp add: parse_i32_def parse_signed_show_int)
  show ?thesis
  proof (cases "pp_index p")
    case None
    with Some h ph show ?thesis
      by (cases p) (simp add: get_range_param_def show_parts_def split_char_single colon_not_in_show_int
          valid_value_iff)
  next
    case i: (Some i)
    with assms have "0 \<le> i" "i < 2 ^ 31" by (auto simp: parts_ok_def)
    then have "parse_i32 (show_int i) = Some i" by (simp add: parse_i32_def parse_signed_show_int)
    with Some i h ph \<open>0 \<le> i\<close> \<open>i < 2 ^ 31\<close> show ?thesis
      by (cases p) (simp add: get_range_param_def show_parts_def split_char_two colon_not_in_show_int
          valid_value_iff)
  qed
qed

text \<open>The query that a URL's pairs stand for: each key is read once.\<close>

definition query_of_pairs :: "(string \<times> string) list \<Rightarrow> pagination_query" where
  "query_of_pairs kvs =
     \<lparr>pq_page = map_of kvs ''page'', pq_count = map_of kvs ''count'', pq_order = map_of kvs ''order'',
      pq_from = map_of kvs ''from'', pq_to = map_of kvs ''to''\<rparr>"

lemma query_of_apply_pagination:
  "query_of_pairs (apply_pagination p) =
     \<lparr>pq_page = Some (show_int (pg_page p)), pq_count = Some (show_int (pg_count p)),
      pq_order = Some (order_as_str (pg_order p)), pq_from = show_parts (pg_from p),
      pq_to = show_parts (pg_to p)\<rparr>"
  by (simp add: query_of_pairs_def apply_pagination_def split: option.splits)

text \<open>C32: The pagination that the platform passes to the data node is the one its client asked for. Whatever
  query a client sends, if the platform accepts it then page, count, heights and indices are in their ranges
  and the range of heights is not reversed; and the pairs it appends to the data node's URL are accepted
  again and mean the same pagination.\<close>

theorem pagination_roundtrip:
  assumes "pagination_from_query q = Inr p"
  shows "pagination_ok p \<and> pagination_from_query (query_of_pairs (apply_pagination p)) = Inr p"
proof -
  have ok: "pagination_ok p" by (rule pagination_from_query_ok [OF assms])
  then show ?thesis
    by (cases p) (auto simp: pagination_from_query_def query_of_apply_pagination pagination_ok_def
        get_page_param_show get_count_param_show get_order_param_show get_range_param_show
        split: option.splits)
qed

theorem pagination_roundtrip_witness:
  "\<exists>p. pagination_from_query \<lparr>pq_page = Some ''007'', pq_count = None, pq_order = Some ''desc'',
      pq_from = Some ''+12:3'', pq_to = Some ''12''\<rparr> = Inr p \<and>
    apply_pagination p = [(''page'', ''7''), (''count'', ''100''), (''order'', ''desc''),
      (''from'', ''12:3''), (''to'', ''12'')] \<and>
    pagination_from_query (query_of_pairs (apply_pagination p)) = Inr p"
proof -
  let ?q = "\<lparr>pq_page = Some ''007'', pq_count = None, pq_order = Some ''desc'',
      pq_from = Some ''+12:3'', pq_to = Some ''12''\<rparr>"
  let ?p = "\<lparr>pg_page = 7, pg_count = 100, pg_order = Desc,
      pg_from = \<lparr>pp_height = Some 12, pp_index = Some 3\<rparr>, pg_to = \<lparr>pp_height = Some 12, pp_index = None\<rparr>\<rparr>"
  have "pagination_from_query ?q = Inr ?p" by code_simp
  moreover have "apply_pagination ?p = [(''page'', ''7''), (''count'', ''100''), (''order'', ''desc''),
      (''from'', ''12:3''), (''to'', ''12'')]"
    by code_simp
  ultimately show ?thesis using pagination_roundtrip by blast
qed

section \<open>Plain segments\<close>

definition plain_char :: "char \<Rightarrow> bool" where
  "plain_char c \<longleftrightarrow> is_alnum c \<or> c = CHR ''_'' \<or> c = CHR ''+''"

definition plain_segment :: "string \<Rightarrow> bool" where
  "plain_segment s \<longleftrightarrow> s \<noteq> [] \<and> list_all plain_char s"

definition confined :: "string \<Rightarrow> bool" where
  "confined path \<longleftrightarrow> list_all plain_segment (split_char CHR ''/'' path)"

lemma slash_not_plain: "\<not> plain_char CHR ''/''"
  by (simp add: plain_char_def is_alnum_def is_ascii_digit_def)

lemma split_char_plain: "plain_segment s \<Longrightarrow> split_char CHR ''/'' s = [s]"
  by (rule split_char_single) (use slash_not_plain in \<open>auto simp: plain_segment_def list_all_iff\<close>)

lemma split_char_append: "d \<notin> set l \<Longrightarrow> split_char d (l @ d # r) = l # split_char d r"
  by (induction l) (auto split: list.splits)

lemma confined_segment: "plain_segment s \<Longrightarrow> confined s"
  by (simp add: confined_def split_char_plain)

lemma confined_Cons: "plain_segment s \<Longrightarrow> confined p \<Longrightarrow> confined (s @ CHR ''/'' # p)"
  using slash_not_plain
  by (subst confined_def, subst split_char_append) (auto simp: plain_segment_def list_all_iff confined_def)

lemma digit_plain: "is_ascii_digit c \<Longrightarrow> plain_char c"
  by (simp add: plain_char_def is_alnum_def)

lemma hex_plain: "is_hex_digit c \<Longrightarrow> plain_char c"
  by (auto simp: plain_char_def is_alnum_def is_hex_digit_def)

lemma alnum_plain: "is_alnum c \<Longrightarrow> plain_char c"
  by (simp add: plain_char_def)

lemma plain_list: "s \<noteq> [] \<Longrightarrow> list_all P s \<Longrightarrow> (\<And>c. P c \<Longrightarrow> plain_char c) \<Longrightarrow> plain_segment s"
  by (auto simp: plain_segment_def list_all_iff)

lemma show_int_plain: "0 \<le> n \<Longrightarrow> plain_segment (show_int n)"
  by (simp add: show_int_nonneg plain_list [OF show_nat_not_Nil list_all_show_nat digit_plain])

text \<open>The prefixes of the bech32 texts that are accepted.\<close>

lemma bech32_plain:
  assumes "bech32_text hrp s" and "plain_segment hrp"
  shows "plain_segment s"
proof -
  from assms(1) obtain t where s: "s = hrp @ ''1'' @ t" "list_all is_alnum t"
    by (auto simp: bech32_text_def)
  have "plain_char CHR ''1''" by (simp add: plain_char_def is_alnum_def is_ascii_digit_def)
  with s assms(2) alnum_plain show ?thesis by (auto simp: plain_segment_def list_all_iff)
qed

lemma hrps_plain [simp]:
  "plain_segment ''stake''" "plain_segment ''stake_test''" "plain_segment ''addr''" "plain_segment ''addr_test''"
  "plain_segment ''addr_vkh''" "plain_segment ''script''" "plain_segment ''pool''" "plain_segment ''lovelace''"
  by code_simp+

lemma codecs_okD:
  assumes "codecs_ok C"
  shows "cd_hex_decode C s = Some b \<Longrightarrow> list_all is_hex_digit s"
    and "cd_hex_decode C s = None \<longleftrightarrow> odd (length s) \<or> \<not> list_all is_hex_digit s"
    and "cd_bech32_decode C s = Inr (hrp, b) \<Longrightarrow> bech32_text hrp s"
    and "cd_bech32_encode C hrp b = Inr s \<Longrightarrow> bech32_text hrp s"
    and "cd_bech32_encode C hrp b = Inr s \<Longrightarrow> cd_bech32_decode C s = Inr (hrp, b)"
    and "cd_byron_base58 C s \<Longrightarrow> s \<noteq> [] \<and> list_all is_alnum s"
    and "cd_hex_decode C (cd_hex_encode C b) = Some b"
  using assms unfolding codecs_ok_def by (blast, metis not_None_eq, blast, blast, blast, blast, blast)

lemma hex_segment: "codecs_ok C \<Longrightarrow> cd_hex_decode C s = Some b \<Longrightarrow> s \<noteq> [] \<Longrightarrow> plain_segment s"
  using codecs_okD(1) plain_list hex_plain by blast

text \<open>A text that decodes to one of the accepted prefixes.\<close>

lemma bech32_decode_plain:
  "codecs_ok C \<Longrightarrow> cd_bech32_decode C s = Inr (hrp, b) \<Longrightarrow> plain_segment hrp \<Longrightarrow> plain_segment s"
  by (rule bech32_plain) (rule codecs_okD)

lemma is_stake_address_valid_Inr:
  assumes "is_stake_address_valid C net a = Inr v"
  shows "\<exists>hrp b. cd_bech32_decode C a = Inr (hrp, b) \<and> (hrp = ''stake'' \<or> hrp = ''stake_test'') \<and>
    v = ((hrp = ''stake'') = (net = Mainnet))"
  using assms by (auto simp: is_stake_address_valid_def result_iff split: if_splits)

lemma account_plain:
  assumes "codecs_ok C" and "account_from_path C net a = Inr x"
  shows "plain_segment x"
proof -
  from assms(2) have "is_stake_address_valid C net a = Inr True" "x = a"
    by (auto simp: account_from_path_def result_iff split: if_splits)
  with is_stake_address_valid_Inr obtain hrp b where
    "cd_bech32_decode C x = Inr (hrp, b)" "hrp = ''stake'' \<or> hrp = ''stake_test''"
    by blast
  moreover from this(2) have "plain_segment hrp" using hrps_plain(1,2) by blast
  ultimately show ?thesis using bech32_decode_plain [OF assms(1)] by blast
qed

lemma get_address_type_Shelley:
  assumes "get_address_type C a net = AT_Shelley"
  shows "\<exists>hrp b. cd_bech32_decode C a = Inr (hrp, b) \<and>
    (hrp = ''addr'' \<and> net = Mainnet \<or> hrp = ''addr_test'' \<and> net \<noteq> Mainnet \<or> hrp = ''addr_vkh'' \<or> hrp = ''script'')"
  using assms by (auto simp: get_address_type_def split: sum.splits if_splits prod.splits)

lemma address_plain:
  assumes C: "codecs_ok C" and "address_from C net a = Inr x"
  shows "plain_segment (ai_address x)"
proof -
  from assms(2) have x: "ai_address x = a" "get_address_type C a net \<noteq> AT_Invalid"
    by (auto simp: address_from_def split: if_splits)
  show ?thesis
  proof (cases "get_address_type C a net")
    case AT_Byron
    then have "cd_byron_base58 C a" by (auto simp: get_address_type_def split: if_splits sum.splits prod.splits)
    with codecs_okD(6) [OF C] plain_list alnum_plain x show ?thesis by auto
  next
    case AT_Shelley
    with get_address_type_Shelley obtain hrp b where
      "cd_bech32_decode C a = Inr (hrp, b)"
      "hrp = ''addr'' \<or> hrp = ''addr_test'' \<or> hrp = ''addr_vkh'' \<or> hrp = ''script''"
      by blast
    moreover from this(2) have "plain_segment hrp" using hrps_plain(3-6) by blast
    ultimately show ?thesis using bech32_decode_plain [OF C] x(1) by metis
  qed (use x in simp)
qed

lemma asset_plain: "codecs_ok C \<Longrightarrow> asset_from_query C a = Inr x \<Longrightarrow> plain_segment x"
  by (auto simp: asset_from_query_def validate_asset_name_def split: if_splits intro: hex_segment)

lemma parse_signed_plain:
  assumes "parse_signed lo hi s = Some n" and "0 < n"
  shows "plain_segment s"
  using assms
  by (auto simp: parse_signed_def parse_magnitude_def Let_def plain_segment_def list_all_iff
      split: list.splits if_splits dest: digit_plain) (simp add: plain_char_def)

lemma block_plain:
  assumes "codecs_ok C" and "block_from_string C s = Inr x"
  shows "plain_segment x"
proof -
  from assms(2) have x: "x = s" "validate_hash_or_number C s = Inr ()"
    by (auto simp: block_from_string_def result_iff)
  show ?thesis
  proof (cases "is_number s")
    case True
    with x(2) obtain n where "parse_i64 s = Some n" "n > 0"
      by (auto simp: validate_hash_or_number_def validate_positive_in_range_signed_int_def
          split: if_splits option.splits)
    with x(1) show ?thesis unfolding parse_i64_def by (metis parse_signed_plain)
  next
    case False
    with x(2) have "cd_hex_decode C s \<noteq> None" "length s = 64"
      by (simp_all add: validate_hash_or_number_def validate_block_hash_def split: if_splits)
    with assms(1) x(1) show ?thesis by (auto intro: hex_segment)
  qed
qed

lemma epoch_nonneg: "epoch_from_path e = Inr n \<Longrightarrow> 0 \<le> n \<and> n < 2 ^ 31"
  by (auto simp: epoch_from_path_def is_positive_int_def split: if_splits option.splits)

lemma validate_and_convert_pool_Some:
  assumes "codecs_ok C" and "validate_and_convert_pool C p = Some x"
  shows "\<exists>b. cd_bech32_decode C x = Inr (''pool'', b)"
  using assms(2) codecs_okD(5) [OF assms(1)]
  by (auto simp: validate_and_convert_pool_def split: option.splits sum.splits if_splits)

lemma pool_plain:
  assumes "codecs_ok C" and "pool_from_path C p = Inr x"
  shows "plain_segment x"
proof -
  from assms(2) have "validate_and_convert_pool C p = Some x"
    by (auto simp: pool_from_path_def split: option.splits)
  from validate_and_convert_pool_Some [OF assms(1) this] show ?thesis
    using bech32_decode_plain [OF assms(1)] hrps_plain(7) by blast
qed

lemma plain_texts [simp]:
  "plain_segment ''accounts''" "plain_segment ''rewards''" "plain_segment ''addresses''"
  "plain_segment ''delegations''" "plain_segment ''registrations''" "plain_segment ''withdrawals''"
  "plain_segment ''utxos''" "plain_segment ''transactions''" "plain_segment ''txs''" "plain_segment ''assets''"
  "plain_segment ''blocks''" "plain_segment ''latest''" "plain_segment ''previous''" "plain_segment ''next''"
  "plain_segment ''epochs''" "plain_segment ''parameters''" "plain_segment ''genesis''" "plain_segment ''network''"
  "plain_segment ''eras''" "plain_segment ''pools''" "plain_segment ''extended''" "plain_segment ''delegators''"
  "plain_segment ''metadata''" "plain_segment ''history''"
  by code_simp+

end
