(* ===== verification/Platform_Rest_Correct.thy ===== *)
theory Platform_Rest_Correct
  imports Platform_Rest Platform_Input_Correct
begin

text \<open>
  What the platform's REST API guarantees: which requests reach the data node, which errors the handlers
  give and what the clients see of them.
\<close>

section \<open>The contract of a handler\<close>

definition client_error :: "blockfrost_error \<Rightarrow> bool" where
  "client_error e \<longleftrightarrow> bf_status_code e = 400 \<or> e = not_found"

text \<open>
  An error is one of the client, or the data node is not configured; a request goes to a configured data
  node with a pagination in its bounds, and, where the handler checks its input, to a path of plain
  segments.
\<close>

definition handler_ok :: "bool \<Rightarrow> rest_state \<Rightarrow> rest_result \<Rightarrow> bool" where
  "handler_ok checked st r \<longleftrightarrow>
     (\<forall>e. r = Inl e \<longrightarrow> client_error e \<or>
        \<not> rs_data_node st \<and> e = internal_server_error ''Data node is not configured'') \<and>
     (\<forall>path pg. r = Inr (RR_Data_Node (path, pg)) \<longrightarrow>
        rs_data_node st \<and> (\<forall>p. pg = Some p \<longrightarrow> pagination_ok p) \<and> (checked \<longrightarrow> confined path))"

named_theorems handler_ok_intros

lemma handler_ok_not_found [handler_ok_intros]: "handler_ok c st (Inl not_found)"
  by (simp add: handler_ok_def client_error_def)

lemma handler_ok_validated:
  assumes "\<And>e. r = Inl e \<Longrightarrow> client_error e" and "\<And>a. r = Inr a \<Longrightarrow> handler_ok c st (f a)"
  shows "handler_ok c st (and_then r f)"
  using assms by (cases r) (auto simp: handler_ok_def)

lemma client_error_400: "client_error (custom_400 m)" "client_error malformed_range_param"
  by (simp_all add: client_error_def blockfrost_error_defs)

lemma client_errors:
  "client_error invalid_asset_name" "client_error invalid_pool_id" "client_error invalid_epoch_number"
  "client_error invalid_epoch_missing_or_malformed" "client_error invalid_stake_address"
  "client_error invalid_address"
  by (simp_all add: client_error_def blockfrost_error_defs)

lemma pagination_error: "pagination_from_query q = Inl e \<Longrightarrow> client_error e"
  by (auto simp: pagination_from_query_def result_iff client_error_400 split: if_splits option.splits)

lemma account_error: "account_from_path C net a = Inl e \<Longrightarrow> client_error e"
  by (auto simp: account_from_path_def is_stake_address_valid_def result_iff client_errors split: if_splits)

lemma address_error: "address_from C net a = Inl e \<Longrightarrow> client_error e"
  by (auto simp: address_from_def client_errors split: if_splits)

lemma asset_error: "asset_from_query C a = Inl e \<Longrightarrow> client_error e"
  by (auto simp: asset_from_query_def client_errors split: if_splits)

lemma block_error: "block_from_string C a = Inl e \<Longrightarrow> client_error e"
  by (auto simp: block_from_string_def result_iff client_error_400)

lemma epoch_error: "epoch_from_path a = Inl e \<Longrightarrow> client_error e"
  by (auto simp: epoch_from_path_def client_errors split: if_splits option.splits)

lemma pool_error: "pool_from_path C a = Inl e \<Longrightarrow> client_error e"
  by (auto simp: pool_from_path_def client_errors split: option.splits)

lemma handler_ok_pagination [handler_ok_intros]:
  "(\<And>p. pagination_ok p \<Longrightarrow> handler_ok c st (f p)) \<Longrightarrow> handler_ok c st (and_then (pagination_from_query q) f)"
  by (rule handler_ok_validated) (auto dest: pagination_error pagination_from_query_ok)

lemma handler_ok_data_node [handler_ok_intros]:
  "(rs_data_node st \<Longrightarrow> handler_ok c st (f ())) \<Longrightarrow> handler_ok c st (and_then (data_node st) f)"
  by (auto simp: data_node_def handler_ok_def)

lemma handler_ok_account [handler_ok_intros]:
  "codecs_ok C \<Longrightarrow> (\<And>a. plain_segment a \<Longrightarrow> handler_ok c st (f a)) \<Longrightarrow>
     handler_ok c st (and_then (account_from_path C net s) f)"
  by (rule handler_ok_validated) (auto dest: account_error account_plain)

lemma handler_ok_address [handler_ok_intros]:
  "codecs_ok C \<Longrightarrow> (\<And>a. plain_segment (ai_address a) \<Longrightarrow> handler_ok c st (f a)) \<Longrightarrow>
     handler_ok c st (and_then (address_from C net s) f)"
  by (rule handler_ok_validated) (auto dest: address_error address_plain)

lemma handler_ok_asset [handler_ok_intros]:
  "codecs_ok C \<Longrightarrow> (\<And>a. plain_segment a \<Longrightarrow> handler_ok c st (f a)) \<Longrightarrow>
     handler_ok c st (and_then (asset_from_query C s) f)"
  by (rule handler_ok_validated) (auto dest: asset_error asset_plain)

lemma handler_ok_block [handler_ok_intros]:
  "codecs_ok C \<Longrightarrow> (\<And>a. plain_segment a \<Longrightarrow> handler_ok c st (f a)) \<Longrightarrow>
     handler_ok c st (and_then (block_from_string C s) f)"
  by (rule handler_ok_validated) (auto dest: block_error block_plain)

lemma handler_ok_epoch [handler_ok_intros]:
  "(\<And>n. plain_segment (show_int n) \<Longrightarrow> handler_ok c st (f n)) \<Longrightarrow>
     handler_ok c st (and_then (epoch_from_path s) f)"
  by (rule handler_ok_validated) (auto dest: epoch_error epoch_nonneg show_int_plain)

lemma handler_ok_pool [handler_ok_intros]:
  "codecs_ok C \<Longrightarrow> (\<And>a. plain_segment a \<Longrightarrow> handler_ok c st (f a)) \<Longrightarrow>
     handler_ok c st (and_then (pool_from_path C s) f)"
  by (rule handler_ok_validated) (auto dest: pool_error pool_plain)

lemma handler_ok_request:
  "rs_data_node st \<Longrightarrow> (\<And>p. snd rq = Some p \<Longrightarrow> pagination_ok p) \<Longrightarrow> (c \<Longrightarrow> confined (fst rq)) \<Longrightarrow>
     handler_ok c st (Inr (RR_Data_Node rq))"
  by (cases rq) (auto simp: handler_ok_def)

lemma handler_ok_local [handler_ok_intros]:
  "handler_ok c st (Inr (RR_Health b))" "handler_ok c st (Inr (RR_Clock t))" "handler_ok c st (Inr (RR_Genesis g))"
  "handler_ok c st (Inr RR_Path_Rejection)"
  by (simp_all add: handler_ok_def)

section \<open>The paths of the requests\<close>

text \<open>Confinement, read from the left; the flag says that the current segment is not empty.\<close>

fun confined_from :: "bool \<Rightarrow> string \<Rightarrow> bool" where
  "confined_from b [] = b"
| "confined_from b (c # cs) =
     (if c = CHR ''/'' then b \<and> confined_from False cs else plain_char c \<and> confined_from True cs)"

lemma confined_from_split:
  "confined_from b s \<longleftrightarrow>
     (case split_char CHR ''/'' s of [] \<Rightarrow> False
      | w # ws \<Rightarrow> list_all plain_char w \<and> (b \<or> w \<noteq> []) \<and> list_all plain_segment ws)"
  by (induction b s rule: confined_from.induct)
    (use split_char_not_Nil in \<open>auto simp: plain_segment_def [abs_def] split: list.splits\<close>)

lemma confined_iff: "confined s \<longleftrightarrow> confined_from False s"
  using split_char_not_Nil [of "CHR ''/''" s]
  by (auto simp: confined_def confined_from_split plain_segment_def split: list.splits)

lemma confined_from_plain: "list_all plain_char s \<Longrightarrow> confined_from b (s @ t) = confined_from (b \<or> s \<noteq> []) t"
  using slash_not_plain by (induction s arbitrary: b) auto

lemma confined_from_segment [simp]:
  "plain_segment s \<Longrightarrow> confined_from b (s @ t) = confined_from True t"
  "plain_segment s \<Longrightarrow> confined_from b s"
  using confined_from_plain [of s] confined_from_plain [of s b "[]"] by (auto simp: plain_segment_def)

lemmas path_eval = confined_iff plain_char_def is_alnum_def is_ascii_digit_def

section \<open>The handlers\<close>

lemmas dn_defs =
  dn_accounts_stake_address_def dn_accounts_rewards_def dn_accounts_addresses_def
  dn_accounts_delegations_def dn_accounts_registrations_def dn_accounts_withdrawals_def
  dn_accounts_utxos_def dn_addresses_address_def dn_addresses_utxos_def dn_addresses_utxos_asset_def
  dn_addresses_transactions_def dn_addresses_txs_def dn_assets_asset_def dn_assets_addresses_def
  dn_assets_transactions_def dn_blocks_latest_def dn_blocks_latest_txs_def dn_blocks_by_def
  dn_blocks_txs_def dn_blocks_previous_def dn_blocks_next_def dn_blocks_by_slot_def
  dn_epochs_parameters_def dn_epochs_latest_parameters_def dn_epochs_blocks_def dn_genesis_get_def
  dn_governance_drep_def dn_health_get_def dn_metadata_labels_def dn_metadata_label_json_def
  dn_metadata_label_cbor_def dn_network_get_def dn_network_eras_def dn_pools_extended_def
  dn_pools_delegators_def dn_pools_by_id_def dn_pools_metadata_def dn_pools_history_def dn_scripts_by_def
  dn_scripts_json_def dn_scripts_cbor_def dn_scripts_datum_def dn_scripts_datum_cbor_def dn_txs_by_hash_def
  dn_txs_cbor_def dn_txs_utxos_def dn_txs_metadata_def dn_txs_metadata_cbor_def dn_txs_withdrawals_def
  dn_txs_delegations_def dn_txs_mirs_def dn_txs_redeemers_def dn_txs_pool_updates_def
  dn_txs_pool_retires_def dn_txs_stakes_def

lemma handlers_accounts:
  assumes "codecs_ok (rs_codecs st)"
  shows "handler_ok c st (rt_accounts_delegations st a q)"
    "handler_ok c st (rt_accounts_history st a q)"
    "handler_ok c st (rt_accounts_mirs st a q)"
    "handler_ok c st (rt_accounts_registrations st a q)"
    "handler_ok c st (rt_accounts_rewards st a q)"
    "handler_ok c st (rt_accounts st a)"
    "handler_ok c st (rt_accounts_utxos st a q)"
    "handler_ok c st (rt_accounts_withdrawals st a q)"
    "handler_ok c st (rt_accounts_addresses_assets st a q)"
    "handler_ok c st (rt_accounts_addresses st a q)"
    "handler_ok c st (rt_accounts_addresses_total st a)"
  unfolding rt_accounts_delegations_def rt_accounts_history_def rt_accounts_mirs_def rt_accounts_registrations_def
    rt_accounts_rewards_def rt_accounts_def rt_accounts_utxos_def rt_accounts_withdrawals_def
    rt_accounts_addresses_assets_def rt_accounts_addresses_def rt_accounts_addresses_total_def
  using assms
  by ((intro handler_ok_intros handler_ok_request; simp add: dn_defs path_eval)+)

lemma handlers_addresses:
  assumes "codecs_ok (rs_codecs st)"
  shows "handler_ok c st (rt_addresses_extended st a)"
    "handler_ok c st (rt_addresses st a)"
    "handler_ok c st (rt_addresses_total st a)"
    "handler_ok c st (rt_addresses_transactions st a q)"
    "handler_ok c st (rt_addresses_txs st a q)"
    "handler_ok c st (rt_addresses_utxos_asset st a b q)"
    "handler_ok c st (rt_addresses_utxos st a q)"
  unfolding rt_addresses_extended_def rt_addresses_def rt_addresses_total_def rt_addresses_transactions_def
    rt_addresses_txs_def rt_addresses_utxos_asset_def rt_addresses_utxos_def
  using assms
  by ((intro handler_ok_intros handler_ok_request; simp add: dn_defs path_eval)+)

lemma handlers_assets:
  assumes "codecs_ok (rs_codecs st)"
  shows "handler_ok c st (rt_assets_list q)"
    "handler_ok c st (rt_assets_addresses st a q)"
    "handler_ok c st (rt_assets_history st a q)"
    "handler_ok c st (rt_assets_asset st a)"
    "handler_ok c st (rt_assets_transactions st a q)"
    "handler_ok c st (rt_assets_policy q)"
  unfolding rt_assets_list_def rt_assets_addresses_def rt_assets_history_def rt_assets_asset_def
    rt_assets_transactions_def rt_assets_policy_def
  using assms
  by ((intro handler_ok_intros handler_ok_request; simp add: dn_defs path_eval)+)

lemma handlers_blocks:
  assumes "codecs_ok (rs_codecs st)"
  shows "handler_ok c st (rt_blocks_addresses st a)"
    "handler_ok c st (rt_blocks_next st a q)"
    "handler_ok c st (rt_blocks_previous st a q)"
    "handler_ok c st (rt_blocks st a)"
    "handler_ok c st (rt_blocks_txs st a q)"
    "handler_ok c st (rt_blocks_latest st)"
    "handler_ok c st (rt_blocks_latest_txs st)"
  unfolding rt_blocks_addresses_def rt_blocks_next_def rt_blocks_previous_def rt_blocks_def rt_blocks_txs_def
    rt_blocks_latest_def rt_blocks_latest_txs_def
  using assms
  by ((intro handler_ok_intros handler_ok_request; simp add: dn_defs path_eval)+)

lemma unchecked_blocks:
  "handler_ok False st (rt_blocks_slot st a)"
  unfolding rt_blocks_slot_def
  by ((intro handler_ok_intros handler_ok_request; simp add: dn_defs path_eval)+)

lemma handlers_epochs:
  "handler_ok c st (rt_epochs_latest_parameters st)"
    "handler_ok c st (rt_epochs_parameters st a)"
    "handler_ok c st (rt_epochs_blocks st a q)"
  unfolding rt_epochs_latest_parameters_def rt_epochs_parameters_def rt_epochs_blocks_def
  by ((intro handler_ok_intros handler_ok_request; simp add: dn_defs path_eval)+)

lemma unchecked_governance:
  "handler_ok False st (rt_drep st a)"
  unfolding rt_drep_def
  by ((intro handler_ok_intros handler_ok_request; simp add: dn_defs path_eval)+)

lemma handlers_other:
  "handler_ok c st (rt_health_clock st)"
    "handler_ok c st (rt_health st)"
    "handler_ok c st (rt_ledger_genesis st)"
  unfolding rt_health_clock_def rt_health_def rt_ledger_genesis_def
  by ((intro handler_ok_intros handler_ok_request; simp add: dn_defs path_eval)+)

lemma handlers_metadata:
  "handler_ok c st (rt_metadata_txs_labels st q)"
  unfolding rt_metadata_txs_labels_def
  by ((intro handler_ok_intros handler_ok_request; simp add: dn_defs path_eval)+)

lemma unchecked_metadata:
  "handler_ok False st (rt_metadata_txs_label_cbor st a q)"
    "handler_ok False st (rt_metadata_txs_label st a q)"
  unfolding rt_metadata_txs_label_cbor_def rt_metadata_txs_label_def
  by ((intro handler_ok_intros handler_ok_request; simp add: dn_defs path_eval)+)

lemma handlers_network:
  "handler_ok c st (rt_network_eras st)"
    "handler_ok c st (rt_network st)"
  unfolding rt_network_eras_def rt_network_def
  by ((intro handler_ok_intros handler_ok_request; simp add: dn_defs path_eval)+)

lemma handlers_pools:
  assumes "codecs_ok (rs_codecs st)"
  shows "handler_ok c st (rt_pools_extended st q)"
    "handler_ok c st (rt_pool_delegators st a q)"
    "handler_ok c st (rt_pool_history st a q)"
    "handler_ok c st (rt_pool_metadata st a)"
    "handler_ok c st (rt_pool st a)"
  unfolding rt_pools_extended_def rt_pool_delegators_def rt_pool_history_def rt_pool_metadata_def rt_pool_def
  using assms
  by ((intro handler_ok_intros handler_ok_request; simp add: dn_defs path_eval)+)

lemma unchecked_scripts:
  "handler_ok False st (rt_scripts_datum_cbor st a)"
    "handler_ok False st (rt_scripts_datum st a)"
    "handler_ok False st (rt_script_cbor st a)"
    "handler_ok False st (rt_script_json st a)"
    "handler_ok False st (rt_script st a)"
  unfolding rt_scripts_datum_cbor_def rt_scripts_datum_def rt_script_cbor_def rt_script_json_def rt_script_def
  by ((intro handler_ok_intros handler_ok_request; simp add: dn_defs path_eval)+)

lemma unchecked_txs:
  "handler_ok False st (rt_tx_cbor st a)"
    "handler_ok False st (rt_tx_delegations st a q)"
    "handler_ok False st (rt_tx_mirs st a q)"
    "handler_ok False st (rt_tx_pool_retires st a q)"
    "handler_ok False st (rt_tx_pool_updates st a q)"
    "handler_ok False st (rt_tx_redeemers st a q)"
    "handler_ok False st (rt_tx st a)"
    "handler_ok False st (rt_tx_stakes st a q)"
    "handler_ok False st (rt_tx_utxos st a q)"
    "handler_ok False st (rt_tx_withdrawals st a q)"
    "handler_ok False st (rt_tx_metadata_cbor st a q)"
    "handler_ok False st (rt_tx_metadata st a q)"
  unfolding rt_tx_cbor_def rt_tx_delegations_def rt_tx_mirs_def rt_tx_pool_retires_def rt_tx_pool_updates_def
    rt_tx_redeemers_def rt_tx_def rt_tx_stakes_def rt_tx_utxos_def rt_tx_withdrawals_def
    rt_tx_metadata_cbor_def rt_tx_metadata_def
  by ((intro handler_ok_intros handler_ok_request; simp add: dn_defs path_eval)+)

section \<open>The router\<close>

lemma best_match_SomeD:
  "best_match rs segs = Some (pat, h, ps) \<Longrightarrow> (pat, h) \<in> set rs \<and> match_pattern pat segs = Some ps"
proof (induction rs arbitrary: pat h ps)
  case (Cons r rs)
  obtain pat1 h1 where r: "r = (pat1, h1)" by (cases r)
  show ?case
  proof (cases "match_pattern pat1 segs")
    case None
    with Cons r show ?thesis by simp
  next
    case (Some ps1)
    show ?thesis
    proof (cases "best_match rs segs")
      case None
      with Cons.prems r Some show ?thesis by simp
    next
      case m: (Some m)
      obtain pat2 h2 ps2 where "m = (pat2, h2, ps2)" by (metis prod_cases3)
      with m Cons.IH [of pat2 h2 ps2] Cons.prems r Some show ?thesis by (simp split: if_splits)
    qed
  qed
qed simp

text \<open>The endpoints whose parameter goes to the data node as it came.\<close>

definition unchecked_prefixes :: "string list list" where
  "unchecked_prefixes = [[''scripts''], [''txs''], [''metadata'', ''txs''], [''blocks'', ''slot''],
     [''governance'', ''dreps'']]"

definition unchecked_pattern :: "pattern_segment list \<Rightarrow> bool" where
  "unchecked_pattern pat \<longleftrightarrow> list_ex (\<lambda>p. take (length p) pat = map Lit p) unchecked_prefixes"

definition unchecked_route :: "string list \<Rightarrow> bool" where
  "unchecked_route segs \<longleftrightarrow> list_ex (\<lambda>p. take (length p) segs = p) unchecked_prefixes"

lemma match_pattern_take:
  "match_pattern pat segs = Some ps \<Longrightarrow> take n pat = map Lit ls \<Longrightarrow> take n segs = ls"
proof (induction pat segs arbitrary: n ls ps rule: match_pattern.induct)
  case (2 l pat s segs)
  then show ?case by (cases n; cases ls) (auto split: if_splits)
next
  case (3 pat s segs)
  then show ?case by (cases n; cases ls) (auto split: if_splits)
qed auto

lemma unchecked_pattern_route:
  "match_pattern pat segs = Some ps \<Longrightarrow> unchecked_pattern pat \<Longrightarrow> unchecked_route segs"
  unfolding unchecked_pattern_def unchecked_route_def list_ex_iff using match_pattern_take by blast

lemma handler_ok_mono: "handler_ok c st r \<Longrightarrow> (d \<Longrightarrow> c) \<Longrightarrow> handler_ok d st r"
  by (auto simp: handler_ok_def)

lemma hidden_routes_ok:
  assumes "codecs_ok (rs_codecs st)"
  shows "list_all (\<lambda>(pat, h). \<forall>ps q. handler_ok (\<not> unchecked_pattern pat) st (h ps q)) (hidden_routes st)"
  using assms
  by (simp add: hidden_routes_def unchecked_pattern_def unchecked_prefixes_def handlers_accounts handlers_addresses handlers_assets
      handlers_blocks unchecked_blocks handlers_epochs unchecked_governance handlers_other handlers_metadata
      unchecked_metadata handlers_network handlers_pools unchecked_scripts unchecked_txs
      rt_unsupported_def handler_ok_not_found rt_governance_dreps_def handler_ok_local)

lemma rest_route_ok:
  assumes "codecs_ok (rs_codecs st)"
  shows "handler_ok (\<not> unchecked_route segs) st (rest_route st segs q)"
proof (cases "best_match (hidden_routes st) segs")
  case None
  then show ?thesis by (simp add: rest_route_def handler_ok_not_found)
next
  case (Some m)
  obtain pat h ps where m: "m = (pat, h, ps)" by (metis prod_cases3)
  with Some best_match_SomeD have "(pat, h) \<in> set (hidden_routes st)" "match_pattern pat segs = Some ps"
    by metis+
  with hidden_routes_ok [OF assms] unchecked_pattern_route
  have "handler_ok (\<not> unchecked_pattern pat) st (h ps q)" "unchecked_pattern pat \<Longrightarrow> unchecked_route segs"
    by (auto simp: list_all_iff)
  with Some m show ?thesis by (auto simp: rest_route_def intro: handler_ok_mono)
qed

text \<open>Only the routes that begin with the first segment matter.\<close>

definition begins_with :: "string \<Rightarrow> pattern_segment list \<times> 'h \<Rightarrow> bool" where
  "begins_with s r = (case fst r of Lit l # _ \<Rightarrow> l = s | _ \<Rightarrow> True)"

lemma best_match_begins_with:
  "best_match rs (s # segs) = best_match (filter (begins_with s) rs) (s # segs)"
proof (induction rs)
  case (Cons r rs)
  obtain pat h where r: "r = (pat, h)" by (cases r)
  show ?case
  proof (cases "begins_with s r")
    case False
    then have "match_pattern pat (s # segs) = None"
      by (auto simp: begins_with_def r split: list.splits pattern_segment.splits)
    with Cons r False show ?thesis by simp
  next
    case True
    with r Cons show ?thesis by (simp only: filter.simps if_True best_match.simps)
  qed
qed simp

lemma block_routes:
  "filter (begins_with ''blocks'') (hidden_routes st) =
    [([Lit ''blocks'', Lit ''epoch'', Param, Lit ''slot'', Param], \<lambda>_ _. rt_unsupported),
     ([Lit ''blocks'', Lit ''slot'', Param], \<lambda>ps _. rt_blocks_slot st (ps ! 0)),
     ([Lit ''blocks'', Lit ''latest''], \<lambda>_ _. rt_blocks_latest st),
     ([Lit ''blocks'', Lit ''latest'', Lit ''txs''], \<lambda>_ _. rt_blocks_latest_txs st),
     ([Lit ''blocks'', Param], \<lambda>ps _. rt_blocks st (ps ! 0)),
     ([Lit ''blocks'', Param, Lit ''addresses''], \<lambda>ps _. rt_blocks_addresses st (ps ! 0)),
     ([Lit ''blocks'', Param, Lit ''next''], \<lambda>ps q. rt_blocks_next st (ps ! 0) q),
     ([Lit ''blocks'', Param, Lit ''previous''], \<lambda>ps q. rt_blocks_previous st (ps ! 0) q),
     ([Lit ''blocks'', Param, Lit ''txs''], \<lambda>ps q. rt_blocks_txs st (ps ! 0) q)]"
  by (simp add: hidden_routes_def begins_with_def)

lemma rest_route_slot:
  "rest_route st [''blocks'', ''slot'', []] q = Inl not_found"
  "rs_data_node st \<Longrightarrow> s \<noteq> [] \<Longrightarrow>
     rest_route st [''blocks'', ''slot'', s] q = Inr (RR_Data_Node (''blocks/slot/'' @ s, None))"
  unfolding rest_route_def best_match_begins_with [of "hidden_routes st"] block_routes
  by (simp_all add: rt_blocks_slot_def data_node_def dn_blocks_by_slot_def)

section \<open>Codecs for the examples\<close>

text \<open>Hex digits, and bech32 without its checksum: the prefix, \<open>1\<close> and the data in hex.\<close>

definition nibble_char :: "nat \<Rightarrow> char" where
  "nibble_char n = (if n < 10 then char_of (n + 48) else char_of (n + 87))"

definition nibble_value :: "char \<Rightarrow> nat" where
  "nibble_value c =
     (if is_ascii_digit c then of_char c - 48
      else if (of_char c :: nat) \<le> 70 then of_char c - 55 else of_char c - 87)"

definition demo_hex_encode :: "string \<Rightarrow> string" where
  "demo_hex_encode b = concat (map (\<lambda>c. [nibble_char (of_char c div 16), nibble_char (of_char c mod 16)]) b)"

fun hex_pairs :: "string \<Rightarrow> string" where
  "hex_pairs (c # d # cs) = char_of (16 * nibble_value c + nibble_value d) # hex_pairs cs"
| "hex_pairs _ = []"

definition demo_hex_decode :: "string \<Rightarrow> string option" where
  "demo_hex_decode s = (if even (length s) \<and> list_all is_hex_digit s then Some (hex_pairs s) else None)"

definition demo_codecs :: codecs where
  "demo_codecs =
     \<lparr>cd_hex_decode = demo_hex_decode, cd_hex_encode = demo_hex_encode,
      cd_bech32_decode = (\<lambda>s.
        case split_once CHR ''1'' s of
          None \<Rightarrow> Inl ''missing separator''
        | Some (hrp, t) \<Rightarrow> (case demo_hex_decode t of None \<Rightarrow> Inl ''invalid character'' | Some b \<Rightarrow> Inr (hrp, b))),
      cd_bech32_encode = (\<lambda>hrp b.
        if CHR ''1'' \<in> set hrp then Inl ''invalid prefix'' else Inr (hrp @ ''1'' @ demo_hex_encode b)),
      cd_hrp_parse = (\<lambda>_. Inr ()), cd_byron_base58 = (\<lambda>s. starts_with ''Ddz'' s \<and> list_all is_alnum s),
      cd_pub_key_hash = (\<lambda>_. None)\<rparr>"

lemma nibble_char:
  assumes "n < 16"
  shows "is_hex_digit (nibble_char n)" "nibble_value (nibble_char n) = n"
  using assms by (auto simp: nibble_char_def nibble_value_def is_hex_digit_def is_ascii_digit_def)

lemma demo_hex_roundtrip: "demo_hex_decode (demo_hex_encode b) = Some b"
proof -
  have of_char: "(of_char c :: nat) div 16 < 16" "(of_char c :: nat) mod 16 < 16" for c
    using nat_of_char_less_256 [of c] by (auto intro: less_mult_imp_div_less)
  have "list_all is_hex_digit (demo_hex_encode b) \<and> even (length (demo_hex_encode b)) \<and>
      hex_pairs (demo_hex_encode b) = b"
    by (induction b) (auto simp: demo_hex_encode_def nibble_char of_char)
  then show ?thesis by (simp add: demo_hex_decode_def)
qed

lemma hex_alnum: "is_hex_digit c \<Longrightarrow> is_alnum c"
  by (auto simp: is_hex_digit_def is_alnum_def)

lemma demo_codecs_ok: "codecs_ok demo_codecs"
proof -
  have hex: "demo_hex_decode s = Some b \<Longrightarrow> list_all is_alnum s" for s b
    using hex_alnum by (auto simp: demo_hex_decode_def list_all_iff split: if_splits)
  have hex_iff: "cd_hex_decode demo_codecs s \<noteq> None \<longleftrightarrow> even (length s) \<and> list_all is_hex_digit s" for s
    by (simp add: demo_codecs_def demo_hex_decode_def)
  have round: "cd_hex_decode demo_codecs (cd_hex_encode demo_codecs b) = Some b" for b
    by (simp add: demo_codecs_def demo_hex_roundtrip)
  have dec: "cd_bech32_decode demo_codecs s = Inr (hrp, b) \<Longrightarrow> bech32_text hrp s" for s hrp b
    using hex by (auto simp: demo_codecs_def bech32_text_def split: option.splits prod.splits
        dest!: split_once_SomeD)
  have enc: "cd_bech32_encode demo_codecs hrp b = Inr s \<Longrightarrow>
      bech32_text hrp s \<and> cd_bech32_decode demo_codecs s = Inr (hrp, b)" for s hrp b
    using hex [OF demo_hex_roundtrip]
    by (auto simp: demo_codecs_def bech32_text_def split_once_append demo_hex_roundtrip split: if_splits)
  have byron: "cd_byron_base58 demo_codecs s \<Longrightarrow> s \<noteq> [] \<and> list_all is_alnum s" for s
    by (auto simp: demo_codecs_def starts_with_def)
  show ?thesis
    unfolding codecs_ok_def by (intro conjI allI impI hex_iff round dec enc byron; (simp only:)?)
qed

text \<open>A platform on the main network with a data node.\<close>

definition demo_rest_state :: rest_state where
  "demo_rest_state =
     \<lparr>rs_codecs = demo_codecs, rs_network = Mainnet, rs_genesis = [], rs_data_node = True, rs_healthy = True,
      rs_server_time = 0\<rparr>"

definition no_query :: pagination_query where
  "no_query = \<lparr>pq_page = None, pq_count = None, pq_order = None, pq_from = None, pq_to = None\<rparr>"

section \<open>Properties\<close>

text \<open>C30: A client of the platform reaches only the data node's endpoints. Whatever path and query a client
  sends, a request that the handlers pass on goes to a configured data node, with a pagination in its bounds,
  and, unless the path is under scripts, txs, metadata/txs, blocks/slot or governance/dreps, to a path whose
  segments between slashes are all non-empty and of letters, digits, underscores and plus signs: no segment
  of the client's can climb out of its place. Under blocks/slot the client's text, when there is any, is passed on as it is.\<close>

theorem rest_requests_confined:
  assumes "codecs_ok (rs_codecs st)"
  shows "(rest_route st segs q = Inr (RR_Data_Node (path, pg)) \<longrightarrow>
      rs_data_node st \<and> (\<forall>p. pg = Some p \<longrightarrow> pagination_ok p) \<and>
      (\<not> unchecked_route segs \<longrightarrow> list_all plain_segment (split_char CHR ''/'' path))) \<and>
    (rs_data_node st \<longrightarrow>
      rest_route st [''blocks'', ''slot'', s] q =
        (if s = [] then Inl not_found else Inr (RR_Data_Node (''blocks/slot/'' @ s, None))))"
  using rest_route_ok [OF assms, of segs q] rest_route_slot [of st]
  by (auto simp: handler_ok_def confined_def)

theorem rest_requests_confined_witness:
  "rest_route demo_rest_state [''accounts'', ''stake1ab''] no_query =
     Inr (RR_Data_Node (''accounts/stake1ab'', None)) \<and>
   list_all plain_segment (split_char CHR ''/'' ''accounts/stake1ab'') \<and>
   rest_route demo_rest_state [''blocks'', ''slot'', ''../../health''] no_query =
     Inr (RR_Data_Node (''blocks/slot/../../health'', None)) \<and>
   \<not> list_all plain_segment (split_char CHR ''/'' ''blocks/slot/../../health'')"
proof -
  have ok: "codecs_ok (rs_codecs demo_rest_state)" "rs_data_node demo_rest_state"
    by (simp_all add: demo_rest_state_def demo_codecs_ok)
  have "rest_route demo_rest_state [''accounts'', ''stake1ab''] no_query =
     Inr (RR_Data_Node (''accounts/stake1ab'', None))"
    by code_simp
  moreover have "\<not> unchecked_route [''accounts'', ''stake1ab'']" by code_simp
  moreover have "\<not> list_all plain_segment (split_char CHR ''/'' ''blocks/slot/../../health'')" by code_simp
  ultimately show ?thesis
    using rest_requests_confined [OF ok(1), of "[''accounts'', ''stake1ab'']" no_query "''accounts/stake1ab''"
        None "''../../health''"] ok(2) by simp
qed

section \<open>The answers\<close>

text \<open>A value of the data node, or what the platform answers on its own.\<close>

datatype 'a rest_answer = RA_Value 'a | RA_Local rest_reply

definition rest_serve ::
  "(dn_request \<Rightarrow> string \<Rightarrow> string + 'a) \<Rightarrow> (dn_request \<Rightarrow> string + u16 \<times> string) \<Rightarrow> rest_state \<Rightarrow>
     string list \<Rightarrow> pagination_query \<Rightarrow> blockfrost_error + 'a rest_answer" where
  "rest_serve parse node st segs q =
     and_then (rest_route st segs q) (\<lambda>reply.
       case reply of
         RR_Data_Node rq \<Rightarrow> and_then (json_client_get (parse rq) (node rq)) (\<lambda>v. Inr (RA_Value v))
       | _ \<Rightarrow> Inr (RA_Local reply))"

text \<open>The data node failed: no answer, or one that is not found to be missing and does not parse.\<close>

definition node_failure :: "(string \<Rightarrow> string + 'a) \<Rightarrow> string + u16 \<times> string \<Rightarrow> bool" where
  "node_failure parse outcome =
     (case outcome of Inl _ \<Rightarrow> True
      | Inr (status, body) \<Rightarrow> status \<noteq> 404 \<and> (case parse body of Inl _ \<Rightarrow> True | Inr _ \<Rightarrow> False))"

lemma json_client_get_Inl:
  "json_client_get parse outcome = Inl e \<Longrightarrow>
     e = not_found \<and> (\<exists>body. outcome = Inr (404, body)) \<or> bf_status_code e = 500 \<and> node_failure parse outcome"
  by (auto simp: json_client_get_def node_failure_def result_iff internal_server_error_def
      split: if_splits sum.splits)

lemma rest_serve_Inl:
  assumes "rest_serve parse node st segs q = Inl e"
  shows "rest_route st segs q = Inl e \<or>
    (\<exists>rq. rest_route st segs q = Inr (RR_Data_Node rq) \<and> json_client_get (parse rq) (node rq) = Inl e)"
proof (cases "rest_route st segs q")
  case (Inr reply)
  with assms show ?thesis by (cases reply) (auto simp: rest_serve_def result_iff)
qed (use assms in \<open>simp add: rest_serve_def\<close>)

text \<open>C31: What the clients see of the errors. An error of the REST API is a fault of the client, status 400
  or 404, and then reaches it as it is; or an internal one, and then the client sees the generic message
  and nothing of its cause. Internal errors come from a data node that is not configured, that cannot be
  reached, or whose answer, not a 404, does not parse; the platform's own checks never cause one.\<close>

theorem rest_errors_reach_clients:
  assumes "codecs_ok (rs_codecs st)" and "rest_serve parse node st segs q = Inl e"
  shows "(bf_status_code e = 400 \<or> e = not_found) \<and> respond json ok (Inl e) = error_response json e \<or>
    bf_status_code e = 500 \<and> respond json ok (Inl e) = error_response json internal_server_error_user \<and>
    (\<not> rs_data_node st \<or>
     (\<exists>rq. rest_route st segs q = Inr (RR_Data_Node rq) \<and> node_failure (parse rq) (node rq)))"
proof -
  have nf: "bf_status_code not_found = 404" by (simp add: not_found_def)
  have ise: "bf_status_code (internal_server_error m) = 500" for m by (simp add: internal_server_error_def)
  from rest_route_ok [OF assms(1), of segs q]
  have "client_error e \<or> bf_status_code e = 500 \<and> (\<not> rs_data_node st \<or>
     (\<exists>rq. rest_route st segs q = Inr (RR_Data_Node rq) \<and> node_failure (parse rq) (node rq)))"
    using rest_serve_Inl [OF assms(2)] ise
    by (auto simp: handler_ok_def client_error_def dest: json_client_get_Inl)
  then show ?thesis using nf by (auto simp: internal_errors_hidden client_error_def)
qed

theorem rest_errors_reach_clients_witness:
  "\<exists>e. rest_serve (\<lambda>_ body. Inl ''no JSON'' :: string + unit) (\<lambda>_. Inr (200, ''<html>'')) demo_rest_state
       [''network''] no_query = Inl e \<and>
     respond bf_message (\<lambda>_. \<lparr>hr_status = 200, hr_headers = [], hr_body = Inr []\<rparr>) (Inl e :: _ + unit) =
       error_response bf_message internal_server_error_user \<and>
     bf_message e = ''JSON error: no JSON''"
proof -
  let ?e = "internal_server_error ''JSON error: no JSON''"
  let ?ok = "\<lambda>_ :: unit. \<lparr>hr_status = 200, hr_headers = [], hr_body = Inr []\<rparr>"
  have serve: "rest_serve (\<lambda>_ body. Inl ''no JSON'' :: string + unit) (\<lambda>_. Inr (200, ''<html>'')) demo_rest_state
       [''network''] no_query = Inl ?e"
    by code_simp
  have "codecs_ok (rs_codecs demo_rest_state)" by (simp add: demo_rest_state_def demo_codecs_ok)
  from rest_errors_reach_clients [OF this serve, of bf_message ?ok]
  have "respond bf_message ?ok (Inl ?e) = error_response bf_message internal_server_error_user"
    by (rule disjE) (simp_all add: internal_server_error_def not_found_def)
  moreover have "bf_message ?e = ''JSON error: no JSON''" by (simp add: internal_server_error_def)
  ultimately show ?thesis using serve by blast
qed

end
