(* ===== verification/Hydra_L2_Payment.thy ===== *)
theory Hydra_L2_Payment
  imports Hydra_Json "HOL-Library.Multiset"
begin

text \<open>
  Payments in a Hydra head: \<open>send_hydra_transaction\<close> of \<open>hydra_server_platform/verifications.rs\<close>, which
  both the gateway and the SDK bridge use, with the choice of the inputs, the body of the transaction
  and the message that submits it. The snapshot, the parsers of hashes and addresses, the signature
  and the outcomes of the socket are parameters.
\<close>

section \<open>The sender's funds\<close>

definition MIN_OUTPUT_LOVELACE :: u64 where "MIN_OUTPUT_LOVELACE = 840450"

text \<open>A number, or a string: \<open>None\<close> for neither, \<open>Some None\<close> for a string that does not parse.\<close>

definition lovelace_of :: "json \<Rightarrow> u64 option option" where
  "lovelace_of v =
     (case as_u64 v of
        Some n \<Rightarrow> Some (Some n)
      | None \<Rightarrow> (case as_str v of Some s \<Rightarrow> Some (parse_u64 s) | None \<Rightarrow> None))"

fun amounts_lovelace :: "json list \<Rightarrow> u64 option" where
  "amounts_lovelace [] = None"
| "amounts_lovelace (item # items) =
     (if Option.bind (jget ''unit'' item) as_str = Some ''lovelace'' then
        (case Option.bind (jget ''quantity'' item) lovelace_of of
           Some r \<Rightarrow> r
         | None \<Rightarrow> amounts_lovelace items)
      else amounts_lovelace items)"

definition utxo_lovelace :: "json \<Rightarrow> u64 option" where
  "utxo_lovelace entry =
     (case Option.bind (jpointer ''value'' ''lovelace'' entry) lovelace_of of
        Some r \<Rightarrow> r
      | None \<Rightarrow>
          (case Option.bind (jget ''amount'' entry) as_array of
             Some amounts \<Rightarrow> amounts_lovelace amounts
           | None \<Rightarrow> None))"

definition utxos_of :: "string \<Rightarrow> (string \<times> json) list \<Rightarrow> (string \<times> json) list" where
  "utxos_of sender m = filter (\<lambda>(k, v). Option.bind (jget ''address'' v) as_str = Some sender) m"

fun collect_candidates :: "(string \<times> json) list \<Rightarrow> (string \<times> u64) list hres" where
  "collect_candidates [] = Inr []"
| "collect_candidates ((k, v) # rest) =
     (case utxo_lovelace v of
        None \<Rightarrow> Inl (Bail ''utxo entry: expected lovelace value'')
      | Some n \<Rightarrow> and_then (collect_candidates rest) (\<lambda>cs. Inr ((k, n) # cs)))"

section \<open>The choice of the inputs\<close>

text \<open>Smallest first until the sum is exact or leaves enough for the change; it may end short.\<close>

fun aggregate_inputs ::
  "u64 \<Rightarrow> u64 \<Rightarrow> string list \<Rightarrow> u64 \<Rightarrow> (string \<times> u64) list \<Rightarrow> (string list \<times> u64) hres" where
  "aggregate_inputs amount min_total selected tot [] = Inr (selected, tot)"
| "aggregate_inputs amount min_total selected tot ((tx_in, v) # cs) =
     (case checked_add_u64 tot v of
        None \<Rightarrow> Inl (Bail ''utxo sum overflow'')
      | Some tot' \<Rightarrow>
          if tot' = amount \<or> min_total \<le> tot' then Inr (selected @ [tx_in], tot')
          else aggregate_inputs amount min_total (selected @ [tx_in]) tot' cs)"

definition choose_inputs :: "u64 \<Rightarrow> u64 \<Rightarrow> (string \<times> u64) list \<Rightarrow> (string list \<times> u64) hres" where
  "choose_inputs amount min_total candidates =
     (case find (\<lambda>(_, tot). tot = amount) candidates of
        Some (tx_in, tot) \<Rightarrow> Inr ([tx_in], tot)
      | None \<Rightarrow>
          (case find (\<lambda>(_, tot). amount < tot \<and> min_total \<le> tot) candidates of
             Some (tx_in, tot) \<Rightarrow> Inr ([tx_in], tot)
           | None \<Rightarrow> aggregate_inputs amount min_total [] 0 candidates))"

text \<open>The inputs and the change.\<close>

definition select_inputs :: "u64 \<Rightarrow> (string \<times> json) list \<Rightarrow> (string list \<times> u64) hres" where
  "select_inputs amount filtered =
     (if amount < MIN_OUTPUT_LOVELACE then Inl (Bail ''amount_lovelace is below minimum output lovelace'')
      else
        and_then (collect_candidates filtered) (\<lambda>unsorted.
          if unsorted = [] then Inl (Bail ''no UTxO found for sender address'')
          else
            let candidates = sort_key snd unsorted
            in case checked_add_u64 amount MIN_OUTPUT_LOVELACE of
                 None \<Rightarrow> Inl (Bail ''amount_lovelace overflow'')
               | Some min_total \<Rightarrow>
                   and_then (choose_inputs amount min_total candidates) (\<lambda>(selected, selected_total).
                     if selected_total < amount then Inl (Bail ''insufficient lovelace in available UTxOs'')
                     else
                       let change = selected_total - amount
                       in if 0 < change \<and> change < MIN_OUTPUT_LOVELACE then
                            Inl (Bail ''change output is below minimum output lovelace'')
                          else Inr (selected, change))))"

section \<open>The transaction\<close>

record 'addr l2_tx =
  l2_inputs :: "(string \<times> u32) list"
  l2_outputs :: "('addr \<times> u64) list"
  l2_fee :: u64
  l2_ttl :: "u64 option"

definition parse_tx_in :: "(string \<Rightarrow> string hres) \<Rightarrow> string \<Rightarrow> (string \<times> u32) hres" where
  "parse_tx_in parse_hash tx_in_str =
     (let parts = split_char CHR ''#'' tx_in_str
      in if length parts \<noteq> 2 then Inl (Bail ''invalid tx_in format'')
         else and_then (parse_hash (parts ! 0)) (\<lambda>tx_hash.
           case parse_unsigned (2 ^ 32 - 1) (parts ! 1) of
             None \<Rightarrow> Inl (Ext_Err ''ParseIntError'')
           | Some index \<Rightarrow> Inr (tx_hash, of_nat index)))"

fun parse_inputs :: "(string \<Rightarrow> string hres) \<Rightarrow> string list \<Rightarrow> (string \<times> u32) list hres" where
  "parse_inputs parse_hash [] = Inr []"
| "parse_inputs parse_hash (s # ss) =
     and_then (parse_tx_in parse_hash s) (\<lambda>i.
     and_then (parse_inputs parse_hash ss) (\<lambda>is. Inr (i # is)))"

definition build_hydra_transaction ::
  "u64 option \<Rightarrow> json hres \<Rightarrow> 'key hres \<Rightarrow> (string \<Rightarrow> string hres) \<Rightarrow> (string \<Rightarrow> 'addr hres) \<Rightarrow> string \<Rightarrow> string \<Rightarrow> u64 \<Rightarrow>
     ('key \<times> string list \<times> 'addr l2_tx) hres" where
  "build_hydra_transaction ttl snapshot load_key parse_hash parse_addr sender_addr receiver_addr amount =
     and_then snapshot (\<lambda>utxo.
       case as_object utxo of
         None \<Rightarrow> Inl (Bail ''snapshot/utxo: expected top-level JSON object'')
       | Some m \<Rightarrow>
           and_then (select_inputs amount (utxos_of sender_addr m)) (\<lambda>(selected, change).
           and_then load_key (\<lambda>key.
           and_then (parse_addr receiver_addr) (\<lambda>receiver.
           and_then (parse_addr sender_addr) (\<lambda>sender.
           and_then (parse_inputs parse_hash selected) (\<lambda>inputs.
             Inr (key, selected,
               \<lparr>l2_inputs = inputs,
                l2_outputs = (receiver, amount) # (if 0 < change then [(sender, change)] else []),
                l2_fee = 0, l2_ttl = ttl\<rparr>)))))))"

text \<open>The signed transaction in hex is wrapped as the \<open>cardano-cli\<close> does.\<close>

definition new_tx_payload :: "string \<Rightarrow> json" where
  "new_tx_payload cbor_hex =
     JObj [(''tag'', JStr ''NewTx''),
       (''transaction'', JObj [(''type'', JStr ''Witnessed Tx ConwayEra''), (''description'', JStr ''''),
          (''cborHex'', JStr cbor_hex)])]"

text \<open>
  \<open>send_one_websocket_msg\<close>: the outcomes of the connection, of the message and of the close frame.
  The payloads that left are part of the result; what follows the close frame is bounded by a time-out
  and does not matter.
\<close>

definition send_one_websocket_msg ::
  "unit hres \<Rightarrow> unit hres \<Rightarrow> unit hres \<Rightarrow> json \<Rightarrow> unit hres \<times> json list" where
  "send_one_websocket_msg connect sent close payload =
     (case connect of
        Inl e \<Rightarrow> (Inl e, [])
      | Inr _ \<Rightarrow>
          (case sent of
             Inl e \<Rightarrow> (Inl e, [])
           | Inr _ \<Rightarrow> (case close of Inl e \<Rightarrow> (Inl e, [payload]) | Inr _ \<Rightarrow> (Inr (), [payload]))))"

definition send_hydra_transaction ::
  "u64 option \<Rightarrow> json hres \<Rightarrow> 'key hres \<Rightarrow> (string \<Rightarrow> string hres) \<Rightarrow> (string \<Rightarrow> 'addr hres) \<Rightarrow>
     ('key \<Rightarrow> 'addr l2_tx \<Rightarrow> string hres) \<Rightarrow> unit hres \<Rightarrow> unit hres \<Rightarrow> unit hres \<Rightarrow>
     string \<Rightarrow> string \<Rightarrow> u64 \<Rightarrow> string list hres \<times> json list" where
  "send_hydra_transaction ttl snapshot load_key parse_hash parse_addr sign connect sent close
       sender_addr receiver_addr amount =
     (case build_hydra_transaction ttl snapshot load_key parse_hash parse_addr sender_addr receiver_addr amount of
        Inl e \<Rightarrow> (Inl e, [])
      | Inr (key, selected, tx) \<Rightarrow>
          (case sign key tx of
             Inl e \<Rightarrow> (Inl e, [])
           | Inr cbor_hex \<Rightarrow>
               (case send_one_websocket_msg connect sent close (new_tx_payload cbor_hex) of
                  (Inl e, out) \<Rightarrow> (Inl e, out)
                | (Inr _, out) \<Rightarrow> (Inr selected, out))))"

text \<open>The gateway sets a time to live, "just in case"; the SDK bridge sets none.\<close>

definition gateway_send_hydra_transaction ::
  "json hres \<Rightarrow> 'key hres \<Rightarrow> (string \<Rightarrow> string hres) \<Rightarrow> (string \<Rightarrow> 'addr hres) \<Rightarrow>
     ('key \<Rightarrow> 'addr l2_tx \<Rightarrow> string hres) \<Rightarrow> unit hres \<Rightarrow> unit hres \<Rightarrow> unit hres \<Rightarrow>
     string \<Rightarrow> string \<Rightarrow> u64 \<Rightarrow> string list hres \<times> json list" where
  "gateway_send_hydra_transaction = send_hydra_transaction (Some 99999999999)"

definition sdk_send_hydra_transaction ::
  "json hres \<Rightarrow> 'key hres \<Rightarrow> (string \<Rightarrow> string hres) \<Rightarrow> (string \<Rightarrow> 'addr hres) \<Rightarrow>
     ('key \<Rightarrow> 'addr l2_tx \<Rightarrow> string hres) \<Rightarrow> unit hres \<Rightarrow> unit hres \<Rightarrow> unit hres \<Rightarrow>
     string \<Rightarrow> string \<Rightarrow> u64 \<Rightarrow> string list hres \<times> json list" where
  "sdk_send_hydra_transaction = send_hydra_transaction None"

section \<open>What is selected\<close>

definition total_of :: "(string \<times> u64) list \<Rightarrow> nat" where
  "total_of cs = (\<Sum>(_, v)\<leftarrow>cs. unat v)"

lemma total_of_simps [simp]: "total_of [] = 0" "total_of ((k, v) # cs) = unat v + total_of cs"
  "total_of (cs @ ds) = total_of cs + total_of ds"
  by (simp_all add: total_of_def)

lemma total_of_sort: "total_of (sort_key f cs) = total_of cs"
proof -
  have "mset (map (\<lambda>(_, v). unat v) (sort_key f cs)) = mset (map (\<lambda>(_, v). unat v) cs)"
    by simp
  then show ?thesis unfolding total_of_def by (metis sum_mset_sum_list)
qed

text \<open>A selection: some of the candidates, each once, with their sum.\<close>

definition selection :: "(string \<times> u64) list \<Rightarrow> string list \<Rightarrow> u64 \<Rightarrow> bool" where
  "selection candidates selected tot \<longleftrightarrow>
     (\<exists>cs. mset cs \<subseteq># mset candidates \<and> selected = map fst cs \<and> unat tot = total_of cs)"

lemma find_selection:
  assumes "find P candidates = Some (k, v)"
  shows "selection candidates [k] v"
proof -
  from find_SomeD [OF assms] have "mset [(k, v)] \<subseteq># mset candidates" by simp
  then show ?thesis unfolding selection_def by (intro exI [of _ "[(k, v)]"]) simp
qed

lemma aggregate_inputs_Inr:
  assumes "aggregate_inputs amount min_total (map fst pre) tot cs = Inr (selected, r)"
    and "unat tot = total_of pre"
  shows "\<exists>ds es. cs = ds @ es \<and> selected = map fst (pre @ ds) \<and> unat r = total_of (pre @ ds) \<and>
    (r = amount \<or> min_total \<le> r \<or> es = [])"
  using assms
proof (induction cs arbitrary: pre tot)
  case Nil
  then show ?case by auto
next
  case (Cons c cs)
  obtain k v where c: "c = (k, v)" by (cases c)
  from Cons.prems c obtain tot' where tot': "checked_add_u64 tot v = Some tot'"
    by (auto split: option.splits)
  with Cons.prems(2) c have sum: "unat tot' = total_of (pre @ [c])"
    by (simp add: checked_add_u64_Some)
  show ?case
  proof (cases "tot' = amount \<or> min_total \<le> tot'")
    case True
    with Cons.prems(1) c tot' have "selected = map fst (pre @ [c])" "r = tot'" by auto
    with sum True show ?thesis by (intro exI [of _ "[c]"] exI [of _ cs]) auto
  next
    case False
    with Cons.prems(1) c tot'
    have "aggregate_inputs amount min_total (map fst (pre @ [c])) tot' cs = Inr (selected, r)" by simp
    from Cons.IH [OF this sum] obtain ds es where "cs = ds @ es"
      "selected = map fst ((pre @ [c]) @ ds)" "unat r = total_of ((pre @ [c]) @ ds)"
      "r = amount \<or> min_total \<le> r \<or> es = []" by blast
    then show ?thesis by (intro exI [of _ "c # ds"] exI [of _ es]) (cases c, auto)
  qed
qed

lemma choose_inputs_selection:
  assumes "choose_inputs amount min_total candidates = Inr (selected, tot)"
  shows "selection candidates selected tot"
proof (cases "find (\<lambda>(_, tot). tot = amount) candidates")
  case (Some p)
  with assms show ?thesis by (cases p) (auto simp: choose_inputs_def intro: find_selection)
next
  case exact: None
  show ?thesis
  proof (cases "find (\<lambda>(_, tot). amount < tot \<and> min_total \<le> tot) candidates")
    case (Some p)
    with assms exact show ?thesis by (cases p) (auto simp: choose_inputs_def intro: find_selection)
  next
    case None
    with assms exact have "aggregate_inputs amount min_total (map fst []) 0 candidates = Inr (selected, tot)"
      by (simp add: choose_inputs_def)
    from aggregate_inputs_Inr [OF this] obtain ds es where
      "candidates = ds @ es" "selected = map fst ds" "unat tot = total_of ds"
      by auto
    then show ?thesis unfolding selection_def by (intro exI [of _ ds]) simp
  qed
qed

lemma collect_candidates_Inr:
  "collect_candidates fs = Inr cs \<longleftrightarrow>
     list_all (\<lambda>(_, v). utxo_lovelace v \<noteq> None) fs \<and>
     cs = map (\<lambda>(k, v). (k, the (utxo_lovelace v))) fs"
proof (induction fs arbitrary: cs)
  case (Cons f fs)
  obtain k v where f: "f = (k, v)" by (cases f)
  show ?case
  proof (cases "utxo_lovelace v")
    case (Some n)
    with f Cons show ?thesis by (auto simp: result_iff)
  qed (simp add: f)
qed auto

text \<open>What the snapshot says of an entry.\<close>

definition lovelace_at :: "(string \<times> json) list \<Rightarrow> string \<Rightarrow> nat" where
  "lovelace_at m k = (case Option.bind (map_of m k) utxo_lovelace of Some n \<Rightarrow> unat n | None \<Rightarrow> 0)"

definition owned_by :: "string \<Rightarrow> (string \<times> json) list \<Rightarrow> string \<Rightarrow> bool" where
  "owned_by sender m k \<longleftrightarrow>
     (\<exists>v. map_of m k = Some v \<and> Option.bind (jget ''address'' v) as_str = Some sender \<and> utxo_lovelace v \<noteq> None)"

lemma distinct_map_subseteq:
  assumes "mset cs \<subseteq># mset ds" and "distinct (map f ds)"
  shows "distinct (map f cs)"
proof -
  have "mset (map f cs) \<subseteq># mset (map f ds)" using image_mset_subseteq_mono [OF assms(1), of f] by simp
  then have "count (mset (map f cs)) a \<le> count (mset (map f ds)) a" for a by (rule mset_subset_eq_count)
  moreover have "count (mset (map f ds)) a \<le> 1" for a
    using assms(2) by (simp add: distinct_count_atmost_1)
  ultimately have le: "count (mset (map f cs)) a \<le> 1" for a by (meson le_trans)
  have "count (mset (map f cs)) a = (if a \<in> set (map f cs) then 1 else 0)" for a
  proof (cases "a \<in> set (map f cs)")
    case True
    then have "a \<in># mset (map f cs)" by (simp only: set_mset_mset)
    then have "0 < count (mset (map f cs)) a" by (simp only: count_greater_zero_iff)
    with le [of a] True show ?thesis by (simp only: if_True)
  next
    case False
    then have "a \<notin># mset (map f cs)" by (simp only: set_mset_mset not_False_eq_True)
    then show ?thesis unfolding if_not_P [OF False] by (simp only: not_in_iff)
  qed
  then show ?thesis unfolding distinct_count_atmost_1 by blast
qed

lemma selection_of_snapshot:
  assumes m: "distinct (map fst m)" and cs: "collect_candidates (utxos_of sender m) = Inr cs"
    and sel: "selection (sort_key snd cs) selected tot"
  shows "distinct selected" "list_all (owned_by sender m) selected"
    "unat tot = (\<Sum>k\<leftarrow>selected. lovelace_at m k)"
proof -
  from sel obtain ds where ds: "mset ds \<subseteq># mset cs" "selected = map fst ds" "unat tot = total_of ds"
    by (auto simp: selection_def)
  from cs
  have cs': "cs = map (\<lambda>(k, v). (k, the (utxo_lovelace v))) (utxos_of sender m)"
    "\<And>k v. (k, v) \<in> set (utxos_of sender m) \<Longrightarrow> utxo_lovelace v \<noteq> None"
    unfolding collect_candidates_Inr list_all_iff by auto
  have keys: "map fst cs = map fst (utxos_of sender m)" by (simp add: cs'(1) case_prod_unfold comp_def)
  have "distinct (map fst cs)" unfolding keys utxos_of_def using m by (rule distinct_map_filter)
  with ds show "distinct selected" by (auto intro: distinct_map_subseteq)
  have entry: "owned_by sender m k \<and> lovelace_at m k = unat n" if "(k, n) \<in> set ds" for k n
  proof -
    from that ds(1) have "(k, n) \<in> set cs" using mset_subset_eqD by fastforce
    with cs' obtain v where v: "(k, v) \<in> set m" "utxo_lovelace v = Some n"
      "Option.bind (jget ''address'' v) as_str = Some sender"
      by (auto simp: utxos_of_def)
    from v(1) m have "map_of m k = Some v" by simp
    with v show ?thesis by (simp add: owned_by_def lovelace_at_def)
  qed
  then show "list_all (owned_by sender m) selected" by (auto simp: ds(2) list_all_iff)
  have "map (lovelace_at m) (map fst ds) = map (\<lambda>(_, v). unat v) ds" using entry by auto
  then show "unat tot = (\<Sum>k\<leftarrow>selected. lovelace_at m k)"
    by (simp only: ds(2,3) total_of_def)
qed

lemma select_inputs_Inr:
  assumes "select_inputs amount fs = Inr (selected, change)"
  obtains cs tot where "collect_candidates fs = Inr cs" "selection (sort_key snd cs) selected tot"
    "amount \<le> tot" "change = tot - amount" "MIN_OUTPUT_LOVELACE \<le> amount"
    "change = 0 \<or> MIN_OUTPUT_LOVELACE \<le> change"
proof -
  from assms obtain cs min_total tot where
    cs: "collect_candidates fs = Inr cs" and
    choice: "choose_inputs amount min_total (sort_key snd cs) = Inr (selected, tot)" and
    rest: "amount \<le> tot" "change = tot - amount" "MIN_OUTPUT_LOVELACE \<le> amount"
      "\<not> (0 < change \<and> change < MIN_OUTPUT_LOVELACE)"
    by (auto simp: select_inputs_def result_iff Let_def split: if_splits option.splits)
  from rest(4) have "change = 0 \<or> MIN_OUTPUT_LOVELACE \<le> change"
    using word_gt_0 [of change] by (simp add: not_less) 
  with that [OF cs choose_inputs_selection [OF choice] rest(1-3)] show ?thesis by blast
qed

text \<open>An input is the output that its key in the snapshot names: the hash before the number sign, the
  index after it.\<close>

definition names_input :: "(string \<Rightarrow> string hres) \<Rightarrow> string \<Rightarrow> string \<times> u32 \<Rightarrow> bool" where
  "names_input parse_hash k i \<longleftrightarrow>
     (\<exists>hash_str index_str. k = hash_str @ CHR ''#'' # index_str \<and>
        CHR ''#'' \<notin> set hash_str \<and> CHR ''#'' \<notin> set index_str \<and>
        parse_hash hash_str = Inr (fst i) \<and> parse_unsigned (2 ^ 32 - 1) index_str = Some (unat (snd i)))"

text \<open>The way a hydra-node writes the keys: the hash in a fixed notation, the index in plain decimal.\<close>

definition canonical_key :: "(string \<Rightarrow> string hres) \<Rightarrow> (string \<Rightarrow> string) \<Rightarrow> string \<Rightarrow> bool" where
  "canonical_key parse_hash hex k \<longleftrightarrow>
     (\<exists>h n. k = hex h @ CHR ''#'' # show_nat n \<and> CHR ''#'' \<notin> set (hex h) \<and> parse_hash (hex h) = Inr h)"

lemma split_char_join2:
  "split_char d s = [a, b] \<Longrightarrow> s = a @ d # b \<and> d \<notin> set a \<and> d \<notin> set b"
proof (induction s arbitrary: a)
  case (Cons c cs)
  have one: "s = w \<and> d \<notin> set w" if "split_char d s = [w]" for s w
    using that by (induction s arbitrary: w) (auto simp: split_char_not_Nil split: if_splits list.splits)
  show ?case
  proof (cases "c = d")
    case True
    with Cons.prems one [of cs b] show ?thesis by auto
  next
    case False
    with Cons.prems obtain a' where "a = c # a'" "split_char d cs = [a', b]"
      by (auto split: list.splits)
    with Cons.IH [of a'] False show ?thesis by auto
  qed
qed simp

lemma parse_tx_in_names: "parse_tx_in parse_hash k = Inr i \<Longrightarrow> names_input parse_hash k i"
proof -
  assume p: "parse_tx_in parse_hash k = Inr i"
  from p have "length (split_char CHR ''#'' k) = 2" by (auto simp: parse_tx_in_def Let_def split: if_splits)
  then obtain a b where ab: "split_char CHR ''#'' k = [a, b]" by (auto simp: numeral_2_eq_2 length_Suc_conv)
  from p ab obtain n where h: "parse_hash a = Inr (fst i)"
    and n: "parse_unsigned (2 ^ 32 - 1) b = Some n" "snd i = of_nat n"
    by (auto simp: parse_tx_in_def result_iff simp del: parse_unsigned.simps split: option.splits)
  from n(1) have "n < 2 ^ 32" by (auto split: option.splits if_splits)
  with n(2) have "unat (snd i) = n" by (simp add: unsigned_of_nat take_bit_nat_eq_self)
  with h n(1) split_char_join2 [OF ab] show ?thesis unfolding names_input_def by blast
qed

lemma parse_inputs_names:
  "parse_inputs parse_hash ks = Inr is \<Longrightarrow> list_all2 (names_input parse_hash) ks is"
  by (induction ks arbitrary: "is") (auto simp: result_iff parse_tx_in_names)

lemma canonical_key_of:
  assumes "names_input parse_hash k i" and "canonical_key parse_hash hex k"
  shows "k = hex (fst i) @ CHR ''#'' # show_nat (unat (snd i))"
proof -
  from assms(1) obtain a b where k: "k = a @ CHR ''#'' # b" "CHR ''#'' \<notin> set a" "CHR ''#'' \<notin> set b"
    and p: "parse_hash a = Inr (fst i)" "parse_unsigned (2 ^ 32 - 1) b = Some (unat (snd i))"
    by (auto simp: names_input_def simp del: parse_unsigned.simps)
  from assms(2) obtain h n where c: "k = hex h @ CHR ''#'' # show_nat n" "CHR ''#'' \<notin> set (hex h)"
    "parse_hash (hex h) = Inr h" by (auto simp: canonical_key_def)
  from k c have ab: "a = hex h" "b = show_nat n"
    using append_Cons_eq_iff [of "CHR ''#''" a b "hex h" "show_nat n"] by auto
  obtain d ds where "show_nat n = d # ds" using show_nat_not_Nil by (cases "show_nat n") auto
  moreover from this hd_show_nat [of n] sign_not_digit have "d \<noteq> CHR ''+''" by auto
  ultimately have "unat (snd i) = n"
    using p(2) parse_magnitude_show_nat [of n] by (simp add: ab split: if_splits)
  with p(1) ab c show ?thesis by simp
qed

lemma distinct_inputs:
  assumes "list_all2 (names_input parse_hash) ks is" and "list_all (canonical_key parse_hash hex) ks"
    and "distinct ks"
  shows "distinct is"
proof -
  from assms(1,2) have "ks = map (\<lambda>i. hex (fst i) @ CHR ''#'' # show_nat (unat (snd i))) is"
  proof (induction rule: list_all2_induct)
    case (Cons k ks i "is")
    then have "k = hex (fst i) @ CHR ''#'' # show_nat (unat (snd i))"
      by (intro canonical_key_of [where parse_hash = parse_hash]) simp_all
    with Cons show ?case by simp
  qed simp
  with assms(3) have "distinct (map (\<lambda>i. hex (fst i) @ CHR ''#'' # show_nat (unat (snd i))) is)" by (simp only:)
  then show ?thesis by (simp add: distinct_map)
qed

section \<open>Properties\<close>

text \<open>C33: A payment in a head neither makes nor loses money. Whenever a transaction is built, from a snapshot
  without duplicate keys, its inputs are, one by one, the outputs named by the keys of distinct entries of the
  sender's (and so distinct themselves, when the keys are written the way a hydra-node writes them), its first
  output is exactly the amount for the receiver, what is left goes back to the sender, the outputs add up to
  the inputs, without wrap-around and with fee 0, and no output is below the minimum.\<close>

theorem l2_payment_balanced:
  assumes "distinct (map fst m)"
    and "build_hydra_transaction ttl (Inr (JObj m)) load_key parse_hash parse_addr sender receiver amount =
      Inr (key, selected, tx)"
  shows "distinct selected \<and> list_all (owned_by sender m) selected \<and>
    list_all2 (names_input parse_hash) selected (l2_inputs tx) \<and>
    (list_all (canonical_key parse_hash hex) selected \<longrightarrow> distinct (l2_inputs tx)) \<and> l2_fee tx = 0 \<and>
    (\<exists>r s change. parse_addr receiver = Inr r \<and> parse_addr sender = Inr s \<and>
      l2_outputs tx = (r, amount) # (if change = 0 then [] else [(s, change)])) \<and>
    (\<Sum>(_, v)\<leftarrow>l2_outputs tx. unat v) = (\<Sum>k\<leftarrow>selected. lovelace_at m k) \<and>
    list_all (\<lambda>(_, v). MIN_OUTPUT_LOVELACE \<le> v) (l2_outputs tx)"
proof -
  from assms(2) obtain change r s inputs where
    sel: "select_inputs amount (utxos_of sender m) = Inr (selected, change)" and
    addr: "parse_addr receiver = Inr r" "parse_addr sender = Inr s" and
    inputs: "parse_inputs parse_hash selected = Inr inputs" and
    tx: "tx = \<lparr>l2_inputs = inputs, l2_outputs = (r, amount) # (if 0 < change then [(s, change)] else []),
      l2_fee = 0, l2_ttl = ttl\<rparr>"
    by (auto simp: build_hydra_transaction_def result_iff)
  from sel obtain cs tot where cs: "collect_candidates (utxos_of sender m) = Inr cs"
    "selection (sort_key snd cs) selected tot" and amounts: "amount \<le> tot" "change = tot - amount"
    "MIN_OUTPUT_LOVELACE \<le> amount" "change = 0 \<or> MIN_OUTPUT_LOVELACE \<le> change"
    by (rule select_inputs_Inr)
  have outputs: "l2_outputs tx = (r, amount) # (if change = 0 then [] else [(s, change)])"
    by (simp add: tx word_gt_0)
  have "unat amount + unat change = unat tot"
    using amounts(1,2) by (simp add: unat_minus_le word_le_nat_alt)
  then have "(\<Sum>(_, v)\<leftarrow>l2_outputs tx. unat v) = (\<Sum>k\<leftarrow>selected. lovelace_at m k)"
    using selection_of_snapshot(3) [OF assms(1) cs] by (auto simp: outputs)
  moreover have "list_all (\<lambda>(_, v). MIN_OUTPUT_LOVELACE \<le> v) (l2_outputs tx)"
    using amounts(3,4) by (auto simp: outputs)
  moreover have "l2_fee tx = 0" "list_all2 (names_input parse_hash) selected (l2_inputs tx)"
    using parse_inputs_names [OF inputs] by (simp_all add: tx)
  moreover note distinct_inputs [OF this(2) _ selection_of_snapshot(1) [OF assms(1) cs]]
  ultimately show ?thesis
    using selection_of_snapshot(1,2) [OF assms(1) cs] addr outputs by blast
qed

text \<open>A head with two entries of the sender's and one of the receiver's.\<close>

definition demo_entry :: "string \<Rightarrow> u64 \<Rightarrow> json" where
  "demo_entry address n = JObj [(''address'', JStr address), (''value'', JObj [(''lovelace'', JPosInt n)])]"

definition demo_head :: "(string \<times> json) list" where
  "demo_head = [(''aa#0'', demo_entry ''alice'' 2000000), (''aa#1'', demo_entry ''bob'' 9000000),
     (''aa#2'', demo_entry ''alice'' 1000000)]"

theorem l2_payment_balanced_witness:
  "\<exists>tx. build_hydra_transaction None (Inr (JObj demo_head)) (Inr ()) Inr Inr ''alice'' ''bob'' 2100000 =
      Inr ((), [''aa#2'', ''aa#0''], tx) \<and>
    l2_inputs tx = [(''aa'', 2), (''aa'', 0)] \<and> distinct (l2_inputs tx) \<and>
    l2_outputs tx = [(''bob'', 2100000), (''alice'', 900000)] \<and>
    (\<Sum>(_, v)\<leftarrow>l2_outputs tx. unat v) = (\<Sum>k\<leftarrow>[''aa#2'', ''aa#0'']. lovelace_at demo_head k)"
proof -
  let ?tx = "\<lparr>l2_inputs = [(''aa'', 2), (''aa'', 0)],
      l2_outputs = [(''bob'', 2100000), (''alice'', 900000)], l2_fee = 0, l2_ttl = None\<rparr>"
  have build: "build_hydra_transaction None (Inr (JObj demo_head)) (Inr ()) Inr Inr ''alice'' ''bob'' 2100000 =
      Inr ((), [''aa#2'', ''aa#0''], ?tx)"
    by (simp add: build_hydra_transaction_def utxos_of_def demo_head_def demo_entry_def jget_def
        jpointer_def utxo_lovelace_def lovelace_of_def select_inputs_def MIN_OUTPUT_LOVELACE_def
        checked_add_u64_def choose_inputs_def parse_tx_in_def parse_magnitude_def is_ascii_digit_def
        digit_value_def)
  have "distinct (map fst demo_head)" by code_simp
  note l2_payment_balanced [OF this build, of id]
  moreover have "list_all (canonical_key Inr id) [''aa#2'', ''aa#0'']"
  proof -
    have digits: "show_nat 2 = ''2''" "show_nat 0 = ''0''" by code_simp+
    have "canonical_key Inr id (''aa'' @ CHR ''#'' # show_nat n)" for n
      unfolding canonical_key_def by (intro exI [of _ "''aa''"] exI [of _ n]) simp
    from this [of 2] this [of 0] have "canonical_key Inr id ''aa#2''" "canonical_key Inr id ''aa#0''"
      by (simp_all add: digits)
    then show ?thesis by simp
  qed
  ultimately show ?thesis using build by (intro exI [of _ ?tx]) auto
qed

lemma aggregate_inputs_ok:
  "unat tot + total_of cs < 2 ^ 64 \<Longrightarrow>
     \<exists>selected r. aggregate_inputs amount min_total sel tot cs = Inr (selected, r)"
proof (induction cs arbitrary: sel tot)
  case (Cons c cs)
  obtain k v where c: "c = (k, v)" by (cases c)
  with Cons.prems have "unat tot + unat v < 2 ^ 64" by simp
  then have "checked_add_u64 tot v = Some (tot + v)" "unat (tot + v) = unat tot + unat v"
    by (simp_all add: checked_add_u64_def unat_add_no_wrap)
  with c Cons show ?case by auto
qed simp

lemma choose_inputs_enough:
  assumes "unat min_total \<le> total_of cs" and "total_of cs < 2 ^ 64"
  shows "\<exists>selected tot. choose_inputs amount min_total cs = Inr (selected, tot) \<and>
    (tot = amount \<or> min_total \<le> tot)"
proof (cases "find (\<lambda>(_, tot). tot = amount) cs")
  case (Some p)
  with find_SomeD [OF Some] show ?thesis by (cases p) (auto simp: choose_inputs_def)
next
  case exact: None
  show ?thesis
  proof (cases "find (\<lambda>(_, tot). amount < tot \<and> min_total \<le> tot) cs")
    case (Some p)
    with find_SomeD [OF Some] exact show ?thesis by (cases p) (auto simp: choose_inputs_def)
  next
    case None
    have "unat (0 :: u64) + total_of cs < 2 ^ 64" using assms(2) by simp
    from aggregate_inputs_ok [OF this] obtain selected tot where
      agg: "aggregate_inputs amount min_total [] 0 cs = Inr (selected, tot)" by blast
    then have "aggregate_inputs amount min_total (map fst []) 0 cs = Inr (selected, tot)" by simp
    from aggregate_inputs_Inr [OF this] have "tot = amount \<or> min_total \<le> tot \<or> unat tot = total_of cs"
      by auto
    with assms(1) have "tot = amount \<or> min_total \<le> tot" by (auto simp: word_le_nat_alt)
    with agg exact None show ?thesis by (simp add: choose_inputs_def)
  qed
qed

text \<open>C34: A payment that the sender can afford is made. When every entry of the sender's has a readable value,
  the amount is at least the minimum, and the sender's funds fit into a \<open>u64\<close> and exceed the amount by at
  least the minimum for the change, inputs are found, however the funds are split over the entries; and
  when an entry has exactly the amount, that entry alone is spent and nothing comes back.\<close>

theorem l2_payment_affordable:
  assumes "list_all (\<lambda>(_, v). utxo_lovelace v \<noteq> None) (utxos_of sender m)"
    and "MIN_OUTPUT_LOVELACE \<le> amount"
    and "unat amount + 840450 \<le> (\<Sum>(_, v)\<leftarrow>utxos_of sender m. unat (the (utxo_lovelace v)))"
    and "(\<Sum>(_, v)\<leftarrow>utxos_of sender m. unat (the (utxo_lovelace v))) < 2 ^ 64"
  shows "\<exists>selected change. select_inputs amount (utxos_of sender m) = Inr (selected, change) \<and>
    ((\<exists>k v. (k, v) \<in> set (utxos_of sender m) \<and> utxo_lovelace v = Some amount) \<longrightarrow>
      length selected = 1 \<and> change = 0)"
proof -
  let ?fs = "utxos_of sender m"
  let ?cs = "map (\<lambda>(k, v). (k, the (utxo_lovelace v))) ?fs"
  have cs: "collect_candidates ?fs = Inr ?cs" using assms(1) by (simp add: collect_candidates_Inr)
  have total: "total_of (sort_key snd ?cs) = (\<Sum>(_, v)\<leftarrow>?fs. unat (the (utxo_lovelace v)))"
    unfolding total_of_sort by (simp add: total_of_def comp_def case_prod_unfold)
  have nonempty: "?cs \<noteq> []" using assms(3) by auto
  have min: "checked_add_u64 amount MIN_OUTPUT_LOVELACE = Some (amount + MIN_OUTPUT_LOVELACE)"
    "unat (amount + MIN_OUTPUT_LOVELACE) = unat amount + 840450"
    using assms(3,4) by (simp_all add: checked_add_u64_def MIN_OUTPUT_LOVELACE_def unat_add_no_wrap)
  with choose_inputs_enough [of "amount + MIN_OUTPUT_LOVELACE" "sort_key snd ?cs" amount] total assms(3,4)
  obtain selected tot where
    choice: "choose_inputs amount (amount + MIN_OUTPUT_LOVELACE) (sort_key snd ?cs) = Inr (selected, tot)" and
    tot: "tot = amount \<or> amount + MIN_OUTPUT_LOVELACE \<le> tot"
    by auto
  have "amount \<le> tot \<and> \<not> (0 < tot - amount \<and> tot - amount < MIN_OUTPUT_LOVELACE)"
  proof (cases "tot = amount")
    case False
    with tot min(2) have "unat amount + 840450 \<le> unat tot" by (simp add: word_le_nat_alt)
    then show ?thesis
      by (simp add: word_le_nat_alt word_less_nat_alt unat_minus_le MIN_OUTPUT_LOVELACE_def)
  qed simp
  then have ok: "select_inputs amount ?fs = Inr (selected, tot - amount)"
    using cs nonempty min(1) choice assms(2) by (simp add: select_inputs_def Let_def not_less)
  have "length selected = 1 \<and> tot = amount" if "(k, v) \<in> set ?fs" "utxo_lovelace v = Some amount" for k v
  proof -
    from that have "(k, amount) \<in> set (sort_key snd ?cs)" by force
    then obtain p where p: "find (\<lambda>(_, tot). tot = amount) (sort_key snd ?cs) = Some p"
      by (cases "find (\<lambda>(_, tot). tot = amount) (sort_key snd ?cs)") (auto simp: find_None_iff)
    with find_SomeD [OF p] choice show ?thesis by (cases p) (auto simp: choose_inputs_def)
  qed
  with ok show ?thesis by auto
qed

theorem l2_payment_affordable_witness:
  "\<exists>selected change. select_inputs 1000000 (utxos_of ''alice'' demo_head) = Inr (selected, change) \<and>
     length selected = 1 \<and> change = 0"
proof -
  have u: "utxos_of ''alice'' demo_head =
      [(''aa#0'', demo_entry ''alice'' 2000000), (''aa#2'', demo_entry ''alice'' 1000000)]"
    by code_simp
  have v: "utxo_lovelace (demo_entry ''alice'' 2000000) = Some 2000000"
    "utxo_lovelace (demo_entry ''alice'' 1000000) = Some 1000000"
    by code_simp+
  have min: "MIN_OUTPUT_LOVELACE \<le> 1000000" by (simp add: MIN_OUTPUT_LOVELACE_def)
  have "list_all (\<lambda>(_, v). utxo_lovelace v \<noteq> None) (utxos_of ''alice'' demo_head)"
    "unat (1000000 :: u64) + 840450 \<le> (\<Sum>(_, v)\<leftarrow>utxos_of ''alice'' demo_head. unat (the (utxo_lovelace v)))"
    "(\<Sum>(_, v)\<leftarrow>utxos_of ''alice'' demo_head. unat (the (utxo_lovelace v))) < 2 ^ 64"
    by (simp_all add: u v)
  note l2_payment_affordable [OF this(1) min this(2,3)]
  moreover have "(''aa#2'', demo_entry ''alice'' 1000000) \<in> set (utxos_of ''alice'' demo_head)"
    by (simp add: u)
  ultimately show ?thesis using v(2) by blast
qed

end
