(* ===== verification/Hydra_L1_Funds.thy ===== *)
theory Hydra_L1_Funds
  imports Hydra_L2_Payment
begin

text \<open>
  The calls of the controllers to the main chain and to the hydra-node's HTTP interface, in
  \<open>verifications.rs\<close> and \<open>cardano_keys.rs\<close>: the funds of an address, the UTxOs in the shape the
  hydra-node expects, the inputs of a top-up, the commit and the protocol parameters of the head. The
  answers of Blockfrost and of the hydra-node, the builder of transactions and the signature are
  parameters.
\<close>

section \<open>UTxOs of an address\<close>

record bf_amount =
  ba_unit :: string
  ba_quantity :: string

record bf_utxo =
  bu_tx_hash :: string
  bu_output_index :: int
  bu_amount :: "bf_amount list"

definition lovelace_quantities :: "bf_utxo \<Rightarrow> string list" where
  "lovelace_quantities u = map ba_quantity (filter (\<lambda>a. ba_unit a = ''lovelace'') (bu_amount u))"

text \<open>The sum of the texts that parse; \<open>sum\<close> wraps in a release build.\<close>

definition sum_lovelace_from_blockfrost_utxos :: "bf_utxo list \<Rightarrow> u64" where
  "sum_lovelace_from_blockfrost_utxos utxos =
     sum_list (List.map_filter parse_u64 (concat (map lovelace_quantities utxos)))"

fun contains_text :: "string \<Rightarrow> string \<Rightarrow> bool" where
  "contains_text p [] = starts_with p []"
| "contains_text p (c # cs) = (starts_with p (c # cs) \<or> contains_text p cs)"

text \<open>The error of Blockfrost is known by its text only.\<close>

definition lovelace_on_addr :: "string + bf_utxo list \<Rightarrow> u64 hres" where
  "lovelace_on_addr utxos =
     (case utxos of
        Inr us \<Rightarrow> Inr (sum_lovelace_from_blockfrost_utxos us)
      | Inl msg \<Rightarrow>
          if contains_text ''404'' msg then Inr 0
          else Inl (Bail (''blockfrost addresses_utxos failed: '' @ msg)))"

section \<open>UTxOs for the commit\<close>

definition utxo_key :: "bf_utxo \<Rightarrow> string" where
  "utxo_key u = bu_tx_hash u @ ''#'' @ show_int (bu_output_index u)"

fun json_insert :: "string \<Rightarrow> json \<Rightarrow> (string \<times> json) list \<Rightarrow> (string \<times> json) list" where
  "json_insert k v [] = [(k, v)]"
| "json_insert k v ((k', v') # m) = (if k = k' then (k, v) # m else (k', v') # json_insert k v m)"

text \<open>\<open>&unit[..56]\<close> does not panic.\<close>

definition slice_56_ok :: "string \<Rightarrow> bool" where
  "slice_56_ok s \<longleftrightarrow>
     56 \<le> length s \<and> (length s = 56 \<or> \<not> (128 \<le> (of_char (s ! 56) :: nat) \<and> of_char (s ! 56) < (192 :: nat)))"

text \<open>\<open>None\<close>: a panic.\<close>

fun add_assets :: "bf_amount list \<Rightarrow> (string \<times> json) list \<Rightarrow> (string \<times> json) list hres option" where
  "add_assets [] value_map = Some (Inr value_map)"
| "add_assets (asset # rest) value_map =
     (if ba_unit asset = ''lovelace'' then add_assets rest value_map
      else if \<not> slice_56_ok (ba_unit asset) then None
      else
        let policy_id = take 56 (ba_unit asset);
            asset_name = drop 56 (ba_unit asset);
            with_entry = (if map_of value_map policy_id = None then json_insert policy_id (JObj []) value_map
                          else value_map)
        in case Option.bind (map_of with_entry policy_id) as_object of
             None \<Rightarrow> add_assets rest with_entry
           | Some policy_obj \<Rightarrow>
               (case parse_u64 (ba_quantity asset) of
                  None \<Rightarrow> Some (Inl (Bail ''bad asset quantity''))
                | Some asset_qty \<Rightarrow>
                    add_assets rest
                      (json_insert policy_id (JObj (json_insert asset_name (JPosInt asset_qty) policy_obj))
                        with_entry)))"

definition commit_entry :: "string \<Rightarrow> (string \<times> json) list \<Rightarrow> json" where
  "commit_entry address value_map =
     JObj [(''address'', JStr address), (''datum'', JNull), (''datumhash'', JNull), (''inlineDatum'', JNull),
       (''referenceScript'', JNull), (''value'', JObj value_map)]"

definition commit_lovelace :: "bf_utxo \<Rightarrow> string" where
  "commit_lovelace u = (case lovelace_quantities u of [] \<Rightarrow> ''0'' | q # _ \<Rightarrow> q)"

fun commit_entries :: "string \<Rightarrow> bf_utxo list \<Rightarrow> (string \<times> json) list \<Rightarrow> (string \<times> json) list hres option" where
  "commit_entries address [] obj = Some (Inr obj)"
| "commit_entries address (u # us) obj =
     (case parse_u64 (commit_lovelace u) of
        None \<Rightarrow> Some (Inl (Bail ''bad lovelace quantity''))
      | Some n \<Rightarrow>
          (case add_assets (bu_amount u) [(''lovelace'', JPosInt n)] of
             None \<Rightarrow> None
           | Some (Inl e) \<Rightarrow> Some (Inl e)
           | Some (Inr value_map) \<Rightarrow>
               commit_entries address us (json_insert (utxo_key u) (commit_entry address value_map) obj)))"

definition query_utxo_json :: "string \<Rightarrow> string + bf_utxo list \<Rightarrow> json hres option" where
  "query_utxo_json address utxos =
     (case utxos of
        Inl msg \<Rightarrow>
          Some (if contains_text ''404'' msg then Inr (JObj [])
                else Inl (Bail (''blockfrost addresses_utxos failed: '' @ msg)))
      | Inr us \<Rightarrow>
          (case commit_entries address us [] of
             None \<Rightarrow> None
           | Some (Inl e) \<Rightarrow> Some (Inl e)
           | Some (Inr obj) \<Rightarrow> Some (Inr (JObj obj))))"

section \<open>Top-ups\<close>

text \<open>
  What \<open>fund_address\<close> hands to the builder of transactions: the time to live, the output and at most 200
  UTxOs that hold nothing but lovelace. The parser of a hash is a parameter.
\<close>

record 'addr fund_plan =
  fp_ttl :: u64
  fp_output :: "'addr \<times> u64"
  fp_inputs :: "((string \<times> u32) \<times> u64) list"
  fp_change :: 'addr

definition lovelace_only :: "bf_utxo \<Rightarrow> bool" where
  "lovelace_only u \<longleftrightarrow> list_all (\<lambda>a. ba_unit a = ''lovelace'') (bu_amount u)"

fun fund_inputs :: "(string \<Rightarrow> string hres) \<Rightarrow> bf_utxo list \<Rightarrow> ((string \<times> u32) \<times> u64) list hres" where
  "fund_inputs parse_hash [] = Inr []"
| "fund_inputs parse_hash (u # us) =
     (if \<not> lovelace_only u \<or> bu_amount u = [] then fund_inputs parse_hash us
      else
        case parse_u64 (ba_quantity (hd (bu_amount u))) of
          None \<Rightarrow> Inl (Ext_Err ''BigNum::from_str'')
        | Some n \<Rightarrow>
            and_then (parse_hash (bu_tx_hash u)) (\<lambda>tx_hash.
              if bu_output_index u < 0 \<or> 2 ^ 32 \<le> bu_output_index u then Inl (Ext_Err ''TryFromIntError'')
              else and_then (fund_inputs parse_hash us) (\<lambda>is.
                Inr (((tx_hash, word_of_int (bu_output_index u)), n) # is))))"

definition fund_address_plan ::
  "'key hres \<Rightarrow> bf_utxo list hres \<Rightarrow> 'config hres \<Rightarrow> int option hres \<Rightarrow> (string \<Rightarrow> string hres) \<Rightarrow>
     (string \<Rightarrow> 'addr hres) \<Rightarrow> string \<Rightarrow> string \<Rightarrow> u64 \<Rightarrow> ('key \<times> 'config \<times> 'addr fund_plan) hres" where
  "fund_address_plan load_key utxos builder_config latest_slot parse_hash parse_addr addr_from addr_to amount =
     and_then load_key (\<lambda>priv_key.
     and_then utxos (\<lambda>us.
       if us = [] then Inl (Bail ''no UTxOs found for addr_from'')
       else
         and_then builder_config (\<lambda>config.
         and_then latest_slot (\<lambda>slot.
           case slot of
             None \<Rightarrow> Inl (Bail ''latest block missing slot'')
           | Some current_slot \<Rightarrow>
               and_then (parse_addr addr_to) (\<lambda>output_addr.
               and_then (parse_addr addr_from) (\<lambda>change_addr.
               and_then (fund_inputs parse_hash (take 200 us)) (\<lambda>inputs.
                 Inr (priv_key, config,
                   \<lparr>fp_ttl = word_of_int current_slot + 7200, fp_output = (output_addr, amount),
                    fp_inputs = inputs, fp_change = change_addr\<rparr>))))))))"

text \<open>The builder chooses among the inputs, largest first, and adds the change; the result has what was submitted.\<close>

definition fund_address ::
  "('key \<Rightarrow> 'config \<Rightarrow> 'addr fund_plan \<Rightarrow> string hres) \<Rightarrow> (string \<Rightarrow> unit hres) \<Rightarrow>
     ('key \<times> 'config \<times> 'addr fund_plan) hres \<Rightarrow> unit hres \<times> string list" where
  "fund_address build_and_sign submit plan =
     (case and_then plan (\<lambda>(priv_key, config, p). build_and_sign priv_key config p) of
        Inl e \<Rightarrow> (Inl e, [])
      | Inr tx_cbor \<Rightarrow> (submit tx_cbor, [tx_cbor]))"

section \<open>The commit\<close>

text \<open>
  \<open>commit_all_utxo_to_hydra\<close> and \<open>empty_commit_to_hydra\<close>: the hydra-node answers the UTxOs to commit with a
  transaction, which is signed and submitted. The result has the transaction that was submitted.
\<close>

definition signed_commit ::
  "(json \<Rightarrow> (u16 \<times> string) hres) \<Rightarrow> (string \<Rightarrow> json hres) \<Rightarrow> (json \<Rightarrow> json hres) \<Rightarrow>
     (string \<Rightarrow> string hres) \<Rightarrow> json \<Rightarrow> string hres" where
  "signed_commit post from_slice sign_tx_envelope hex_decode body =
     and_then (post body) (\<lambda>(status, text).
       if \<not> (200 \<le> status \<and> status < 300) then Inl (Bail ''hydra /commit failed'')
       else
         and_then (from_slice text) (\<lambda>tx_envelope.
         and_then (sign_tx_envelope tx_envelope) (\<lambda>signed_tx.
           case Option.bind (jget ''cborHex'' signed_tx) as_str of
             None \<Rightarrow> Inl (Bail ''signed tx missing cborHex'')
           | Some signed_cbor_hex \<Rightarrow> hex_decode signed_cbor_hex)))"

definition submit_commit :: "(string \<Rightarrow> unit hres) \<Rightarrow> string hres \<Rightarrow> unit hres \<times> string list" where
  "submit_commit submit signed_tx =
     (case signed_tx of Inl e \<Rightarrow> (Inl e, []) | Inr signed_cbor \<Rightarrow> (submit signed_cbor, [signed_cbor]))"

definition empty_commit_to_hydra ::
  "(json \<Rightarrow> (u16 \<times> string) hres) \<Rightarrow> (string \<Rightarrow> json hres) \<Rightarrow> (json \<Rightarrow> json hres) \<Rightarrow>
     (string \<Rightarrow> string hres) \<Rightarrow> (string \<Rightarrow> unit hres) \<Rightarrow> unit hres \<times> string list" where
  "empty_commit_to_hydra post from_slice sign_tx_envelope hex_decode submit =
     submit_commit submit (signed_commit post from_slice sign_tx_envelope hex_decode (JObj []))"

text \<open>\<open>None\<close>: the panic of \<open>query_utxo_json\<close>.\<close>

definition commit_all_utxo_to_hydra ::
  "(json \<Rightarrow> (u16 \<times> string) hres) \<Rightarrow> (string \<Rightarrow> json hres) \<Rightarrow> (json \<Rightarrow> json hres) \<Rightarrow>
     (string \<Rightarrow> string hres) \<Rightarrow> (string \<Rightarrow> unit hres) \<Rightarrow> string \<Rightarrow> string + bf_utxo list \<Rightarrow>
     (unit hres \<times> string list) option" where
  "commit_all_utxo_to_hydra post from_slice sign_tx_envelope hex_decode submit from_addr utxos =
     map_option (\<lambda>utxo_json. submit_commit submit
         (and_then utxo_json (signed_commit post from_slice sign_tx_envelope hex_decode)))
       (query_utxo_json from_addr utxos)"

text \<open>\<open>sign_tx_envelope_with_key\<close> of \<open>cardano_keys.rs\<close>\<close>

definition sign_tx_envelope_with_key ::
  "(string \<Rightarrow> string hres) \<Rightarrow> (string \<Rightarrow> string hres) \<Rightarrow> (string \<Rightarrow> string) \<Rightarrow> json \<Rightarrow> json hres" where
  "sign_tx_envelope_with_key hex_decode sign_bytes hex_encode tx_envelope =
     (case Option.bind (jget ''cborHex'' tx_envelope) as_str of
        None \<Rightarrow> Inl (Bail ''tx envelope missing cborHex field'')
      | Some cbor_hex \<Rightarrow>
          and_then (hex_decode cbor_hex) (\<lambda>tx_bytes.
          and_then (sign_bytes tx_bytes) (\<lambda>signed_bytes.
            Inr (JObj [(''type'', JStr ''Witnessed Tx ConwayEra''), (''description'', JStr ''''),
              (''cborHex'', JStr (hex_encode signed_bytes))]))))"

text \<open>\<open>derive_enterprise_address_from_vkey_json\<close> of the SDK bridge: the key's bytes follow the prefix of a
  CBOR string of 32 bytes.\<close>

definition CBOR_32_PREFIX :: string where "CBOR_32_PREFIX = ''5820''"

definition derive_enterprise_address_from_vkey_json ::
  "(string \<Rightarrow> string hres) \<Rightarrow> (string \<Rightarrow> 'pub hres) \<Rightarrow> ('pub \<Rightarrow> string hres) \<Rightarrow> json \<Rightarrow> string hres" where
  "derive_enterprise_address_from_vkey_json hex_decode pub_key_of enterprise_address vkey_json =
     (case Option.bind (jget ''cborHex'' vkey_json) as_str of
        None \<Rightarrow> Inl (Bail ''vkey envelope missing cborHex field'')
      | Some cbor_hex \<Rightarrow>
          (case strip_prefix CBOR_32_PREFIX cbor_hex of
             None \<Rightarrow> Inl (Bail ''vkey cborHex does not start with 5820'')
           | Some raw_hex \<Rightarrow>
               and_then (hex_decode raw_hex) (\<lambda>pub_key_bytes.
               and_then (pub_key_of pub_key_bytes) enterprise_address)))"

section \<open>Protocol parameters of the head\<close>

definition params_int :: "json option \<Rightarrow> json" where
  "params_int v =
     (case v of
        Some (JStr s) \<Rightarrow> (case parse_u64 s of Some n \<Rightarrow> JPosInt n | None \<Rightarrow> JNull)
      | Some (JPosInt n) \<Rightarrow> JPosInt n
      | Some (JNegInt n) \<Rightarrow> JNegInt n
      | Some (JFloat x) \<Rightarrow> JFloat x
      | _ \<Rightarrow> JNull)"

definition params_get :: "(string \<times> json) list \<Rightarrow> string \<Rightarrow> json" where
  "params_get obj k = (case map_of obj k of Some v \<Rightarrow> v | None \<Rightarrow> JNull)"

definition non_null :: "json option \<Rightarrow> json option" where
  "non_null v = (case v of Some JNull \<Rightarrow> None | _ \<Rightarrow> v)"

definition cost_models_of :: "(string \<times> json) list \<Rightarrow> json" where
  "cost_models_of obj =
     (case non_null (map_of obj ''cost_models_raw'') of
        Some v \<Rightarrow> v
      | None \<Rightarrow> (case non_null (map_of obj ''cost_models'') of Some v \<Rightarrow> v | None \<Rightarrow> JObj []))"

definition shelley_fields :: "(string \<times> json) list \<Rightarrow> (string \<times> json) list" where
  "shelley_fields obj =
    (let get = params_get obj; int_of = (\<lambda>k. params_int (map_of obj k)) in
    [(''txFeePerByte'', get ''min_fee_a''),
     (''txFeeFixed'', get ''min_fee_b''),
     (''maxBlockBodySize'', get ''max_block_size''),
     (''maxTxSize'', get ''max_tx_size''),
     (''maxBlockHeaderSize'', get ''max_block_header_size''),
     (''stakeAddressDeposit'', int_of ''key_deposit''),
     (''stakePoolDeposit'', int_of ''pool_deposit''),
     (''poolRetireMaxEpoch'', get ''e_max''),
     (''stakePoolTargetNum'', get ''n_opt''),
     (''poolPledgeInfluence'', get ''a0''),
     (''monetaryExpansion'', get ''rho''),
     (''treasuryCut'', get ''tau''),
     (''protocolVersion'', JObj [(''major'', get ''protocol_major_ver''), (''minor'', get ''protocol_minor_ver'')]),
     (''minPoolCost'', int_of ''min_pool_cost''),
     (''executionUnitPrices'', JObj [(''priceMemory'', get ''price_mem''), (''priceSteps'', get ''price_step'')]),
     (''maxTxExecutionUnits'', JObj [(''memory'', int_of ''max_tx_ex_mem''), (''steps'', int_of ''max_tx_ex_steps'')]),
     (''maxBlockExecutionUnits'', JObj [(''memory'', int_of ''max_block_ex_mem''), (''steps'', int_of ''max_block_ex_steps'')]),
     (''maxValueSize'', int_of ''max_val_size''),
     (''collateralPercentage'', get ''collateral_percent''),
     (''maxCollateralInputs'', get ''max_collateral_inputs''),
     (''utxoCostPerByte'', int_of ''coins_per_utxo_size''),
     (''costModels'', cost_models_of obj),
     (''poolVotingThresholds'', JObj [
        (''motionNoConfidence'', get ''pvt_motion_no_confidence''),
        (''committeeNormal'', get ''pvt_committee_normal''),
        (''committeeNoConfidence'', get ''pvt_committee_no_confidence''),
        (''hardForkInitiation'', get ''pvt_hard_fork_initiation''),
        (''ppSecurityGroup'', get ''pvt_p_p_security_group'')]),
     (''dRepVotingThresholds'', JObj [
        (''motionNoConfidence'', get ''dvt_motion_no_confidence''),
        (''committeeNormal'', get ''dvt_committee_normal''),
        (''committeeNoConfidence'', get ''dvt_committee_no_confidence''),
        (''updateToConstitution'', get ''dvt_update_to_constitution''),
        (''hardForkInitiation'', get ''dvt_hard_fork_initiation''),
        (''ppNetworkGroup'', get ''dvt_p_p_network_group''),
        (''ppEconomicGroup'', get ''dvt_p_p_economic_group''),
        (''ppTechnicalGroup'', get ''dvt_p_p_technical_group''),
        (''ppGovGroup'', get ''dvt_p_p_gov_group''),
        (''treasuryWithdrawal'', get ''dvt_treasury_withdrawal'')]),
     (''committeeMinSize'', int_of ''committee_min_size''),
     (''committeeMaxTermLength'', int_of ''committee_max_term_length''),
     (''govActionLifetime'', int_of ''gov_action_lifetime''),
     (''govActionDeposit'', int_of ''gov_action_deposit''),
     (''dRepDeposit'', int_of ''drep_deposit''),
     (''dRepActivity'', int_of ''drep_activity''),
     (''minFeeRefScriptCostPerByte'', get ''min_fee_ref_script_cost_per_byte'')])"

text \<open>The fields that are null are left out.\<close>

definition blockfrost_params_to_shelley :: "json \<Rightarrow> json hres" where
  "blockfrost_params_to_shelley bf =
     (case as_object bf of
        None \<Rightarrow> Inl (Bail ''expected JSON object for epoch parameters'')
      | Some obj \<Rightarrow> Inr (JObj (filter (\<lambda>(_, v). v \<noteq> JNull) (shelley_fields obj))))"

definition gen_protocol_parameters :: "json hres \<Rightarrow> json hres" where
  "gen_protocol_parameters params =
     and_then params (\<lambda>bf.
     and_then (blockfrost_params_to_shelley bf) (\<lambda>json.
       case as_object json of
         None \<Rightarrow> Inr json
       | Some obj0 \<Rightarrow>
           let obj1 = json_insert ''txFeeFixed'' (JPosInt 0) obj0;
               obj2 = json_insert ''txFeePerByte'' (JPosInt 0) obj1
           in Inr (JObj (case Option.bind (map_of obj2 ''executionUnitPrices'') as_object of
                None \<Rightarrow> obj2
              | Some exec_prices \<Rightarrow>
                  json_insert ''executionUnitPrices''
                    (JObj (json_insert ''priceSteps'' (JPosInt 0) (json_insert ''priceMemory'' (JPosInt 0) exec_prices)))
                    obj2))))"

section \<open>Files and metrics\<close>

text \<open>Equality of JSON values: the members of objects in any order.\<close>

primrec json_same :: "json \<Rightarrow> json \<Rightarrow> bool" where
  "json_same JNull j = (j = JNull)"
| "json_same (JBool b) j = (j = JBool b)"
| "json_same (JPosInt n) j = (j = JPosInt n)"
| "json_same (JNegInt n) j = (j = JNegInt n)"
| "json_same (JFloat r) j = (j = JFloat r)"
| "json_same (JStr s) j = (j = JStr s)"
| "json_same (JArr xs) j =
     (case j of
        JArr ys \<Rightarrow> list_all2 (\<lambda>same y. same y) (map json_same xs) ys
      | _ \<Rightarrow> False)"
| "json_same (JObj m) j =
     (case j of
        JObj n \<Rightarrow> length m = length n \<and>
          list_all (\<lambda>(k, same). case map_of n k of Some v \<Rightarrow> same v | None \<Rightarrow> False)
            (map (map_prod id json_same) m)
      | _ \<Rightarrow> False)"

text \<open>
  \<open>write_json_if_changed\<close>: the content of the file as parsed, if it exists and parses, and the
  outcome of creating and writing it; the result says what was written.
\<close>

definition write_json_if_changed :: "json option \<Rightarrow> unit hres \<Rightarrow> json \<Rightarrow> bool hres \<times> json option" where
  "write_json_if_changed existing write json =
     (if (case existing of Some j \<Rightarrow> json_same j json | None \<Rightarrow> False) then (Inr False, None)
      else case write of Inl e \<Rightarrow> (Inl e, None) | Inr _ \<Rightarrow> (Inr True, Some json))"

text \<open>The values of the metrics, with the comparison and \<open>f64::max\<close> of IEEE 754.\<close>

datatype metric_value = MV_NaN | MV_Neg_Inf | MV_Fin real | MV_Pos_Inf

fun mv_ge :: "metric_value \<Rightarrow> metric_value \<Rightarrow> bool" where
  "mv_ge MV_NaN _ = False"
| "mv_ge _ MV_NaN = False"
| "mv_ge MV_Pos_Inf _ = True"
| "mv_ge _ MV_Neg_Inf = True"
| "mv_ge (MV_Fin x) (MV_Fin y) = (y \<le> x)"
| "mv_ge _ _ = False"

definition mv_max :: "metric_value \<Rightarrow> metric_value \<Rightarrow> metric_value" where
  "mv_max a b = (if a = MV_NaN then b else if b = MV_NaN then a else if mv_ge a b then a else b)"

definition is_white :: "char \<Rightarrow> bool" where
  "is_white c \<longleftrightarrow> (of_char c :: nat) \<in> {9, 10, 11, 12, 13, 32}"

fun words_from :: "string \<Rightarrow> string \<Rightarrow> string list" where
  "words_from w [] = (if w = [] then [] else [rev w])"
| "words_from w (c # cs) =
     (if is_white c then (if w = [] then words_from [] cs else rev w # words_from [] cs)
      else words_from (c # w) cs)"

definition split_whitespace :: "string \<Rightarrow> string list" where
  "split_whitespace s = words_from [] s"

text \<open>The value of the metric on one line: \<open>Inr None\<close> where the line is not a sample of it.\<close>

definition metric_on_line :: "(string \<Rightarrow> metric_value hres) \<Rightarrow> string \<Rightarrow> string \<Rightarrow> metric_value option hres" where
  "metric_on_line parse metric line =
     (case split_whitespace line of
        [] \<Rightarrow> Inr None
      | name_and_labels # parts \<Rightarrow>
          if hd name_and_labels = CHR ''#'' then Inr None
          else if hd (split_char CHR ''{'' name_and_labels) \<noteq> metric then Inr None
          else case parts of
                 [] \<Rightarrow> Inr None
               | value_str # _ \<Rightarrow> and_then (parse value_str) (\<lambda>v. Inr (Some v)))"

fun max_metric :: "(string \<Rightarrow> metric_value hres) \<Rightarrow> string \<Rightarrow> string list \<Rightarrow> metric_value option \<Rightarrow> metric_value option hres" where
  "max_metric parse metric [] acc = Inr acc"
| "max_metric parse metric (line # lines) acc =
     and_then (metric_on_line parse metric line) (\<lambda>sample.
       max_metric parse metric lines
         (case sample of None \<Rightarrow> acc
          | Some v \<Rightarrow> Some (case acc of None \<Rightarrow> v | Some m \<Rightarrow> mv_max m v)))"

definition prometheus_metric_at_least ::
  "(string \<Rightarrow> metric_value hres) \<Rightarrow> string hres \<Rightarrow> string \<Rightarrow> metric_value \<Rightarrow> bool hres" where
  "prometheus_metric_at_least parse body metric threshold =
     and_then body (\<lambda>text.
     and_then (max_metric parse metric (split_char (char_of (10 :: nat)) text) None) (\<lambda>found.
       case found of
         None \<Rightarrow> Inl (Bail ''metric not found in /metrics output'')
       | Some v \<Rightarrow> Inr (mv_ge v threshold)))"

section \<open>What the committed UTxOs are worth\<close>

lemma map_of_json_insert: "map_of (json_insert k v m) k' = (if k' = k then Some v else map_of m k')"
  by (induction k v m rule: json_insert.induct) auto

lemma json_insert_new: "k \<notin> fst ` set m \<Longrightarrow> json_insert k v m = m @ [(k, v)]"
  by (induction k v m rule: json_insert.induct) auto

lemma add_assets_lovelace:
  "add_assets as m = Some (Inr m') \<Longrightarrow> map_of m' ''lovelace'' = map_of m ''lovelace''"
proof (induction as arbitrary: m)
  case (Cons a as)
  show ?case
  proof (cases "ba_unit a = ''lovelace''")
    case True
    with Cons show ?thesis by simp
  next
    case False
    with Cons.prems have ok: "slice_56_ok (ba_unit a)" by (auto split: if_splits)
    then have "length (take 56 (ba_unit a)) = 56" by (simp add: slice_56_ok_def)
    moreover have "length ''lovelace'' \<noteq> 56" by simp
    ultimately have other: "take 56 (ba_unit a) \<noteq> ''lovelace''" by metis
    let ?m = "if map_of m (take 56 (ba_unit a)) = None then json_insert (take 56 (ba_unit a)) (JObj []) m else m"
    have m: "map_of ?m ''lovelace'' = map_of m ''lovelace''" using other by (simp add: map_of_json_insert)
    show ?thesis
    proof (cases "Option.bind (map_of ?m (take 56 (ba_unit a))) as_object")
      case None
      with Cons.prems False ok have "add_assets as ?m = Some (Inr m')" by (simp add: Let_def del: bind_eq_None_conv)
      with Cons.IH m show ?thesis by metis
    next
      case (Some pol)
      with Cons.prems False ok obtain n where "add_assets as
          (json_insert (take 56 (ba_unit a)) (JObj (json_insert (drop 56 (ba_unit a)) (JPosInt n) pol)) ?m) =
          Some (Inr m')"
        by (simp add: Let_def del: bind_eq_Some_conv split: option.splits)
      from Cons.IH [OF this] m other show ?thesis by (simp add: map_of_json_insert)
    qed
  qed
qed simp

text \<open>The lovelace of one UTxO, as it goes into the commit.\<close>

definition committed :: "bf_utxo \<Rightarrow> nat" where
  "committed u = (case parse_u64 (commit_lovelace u) of Some n \<Rightarrow> unat n | None \<Rightarrow> 0)"

lemma commit_entry_value:
  "map_of m ''lovelace'' = Some v \<Longrightarrow> utxo_entry_value (commit_entry address m) = Some v"
  by (simp add: utxo_entry_value_def commit_entry_def jget_def)

lemma entries_total_append:
  "entries_total (m @ n) = (case (entries_total m, entries_total n) of (Some a, Some b) \<Rightarrow> Some (a + b) | _ \<Rightarrow> None)"
  by (induction m rule: entries_total.induct) (auto split: option.splits sum.splits)

lemma commit_entries_total:
  assumes "commit_entries address us obj = Some (Inr obj')" and "entries_total obj = Some t"
    and "distinct (map utxo_key us)" and "fst ` set obj \<inter> utxo_key ` set us = {}"
  shows "entries_total obj' = Some (t + (\<Sum>u\<leftarrow>us. committed u)) \<and>
    (\<forall>u \<in> set us. parse_u64 (commit_lovelace u) \<noteq> None)"
  using assms
proof (induction us arbitrary: obj t)
  case (Cons u us)
  from Cons.prems(1) obtain n m where n: "parse_u64 (commit_lovelace u) = Some n" and
    m: "add_assets (bu_amount u) [(''lovelace'', JPosInt n)] = Some (Inr m)" and
    rest: "commit_entries address us (json_insert (utxo_key u) (commit_entry address m) obj) = Some (Inr obj')"
    by (auto split: option.splits sum.splits)
  have new: "json_insert (utxo_key u) (commit_entry address m) obj = obj @ [(utxo_key u, commit_entry address m)]"
    by (rule json_insert_new) (use Cons.prems(4) in auto)
  from add_assets_lovelace [OF m] have "utxo_entry_value (commit_entry address m) = Some (JPosInt n)"
    by (intro commit_entry_value) simp
  then have "entries_total [(utxo_key u, commit_entry address m)] = Some (committed u)"
    by (simp add: json_as_u64_def committed_def n)
  with Cons.prems(2) have "entries_total (obj @ [(utxo_key u, commit_entry address m)]) = Some (t + committed u)"
    by (simp add: entries_total_append)
  moreover have "fst ` set (obj @ [(utxo_key u, commit_entry address m)]) \<inter> utxo_key ` set us = {}"
    using Cons.prems(3,4) by auto
  ultimately show ?case using Cons.IH rest Cons.prems(3) n by (simp add: new add.assoc)
qed simp

text \<open>The sum of what Blockfrost reports, without wrap-around.\<close>

lemma sum_list_no_wrap:
  "(\<Sum>n\<leftarrow>ns. unat (n :: u64)) < 2 ^ 64 \<Longrightarrow> unat (sum_list ns) = (\<Sum>n\<leftarrow>ns. unat n)"
  by (induction ns) (simp_all add: unat_add_no_wrap)

lemma one_lovelace_sum:
  assumes "length (lovelace_quantities u) \<le> 1" and "parse_u64 (commit_lovelace u) \<noteq> None"
  shows "(\<Sum>n\<leftarrow>List.map_filter parse_u64 (lovelace_quantities u). unat n) = committed u"
proof (cases "lovelace_quantities u")
  case Nil
  have "parse_u64 ''0'' = Some 0" by (simp add: parse_u64_def parse_magnitude_def is_ascii_digit_def digit_value_def)
  with Nil show ?thesis by (simp add: committed_def commit_lovelace_def map_filter_simps)
next
  case (Cons q qs)
  with assms show ?thesis by (auto simp: committed_def commit_lovelace_def map_filter_simps)
qed

lemma map_filter_append: "List.map_filter f (xs @ ys) = List.map_filter f xs @ List.map_filter f ys"
  by (simp add: List.map_filter_def)

lemma blockfrost_sum:
  assumes "\<And>u. u \<in> set us \<Longrightarrow> length (lovelace_quantities u) \<le> 1 \<and> parse_u64 (commit_lovelace u) \<noteq> None"
  shows "(\<Sum>n\<leftarrow>List.map_filter parse_u64 (concat (map lovelace_quantities us)). unat n) = (\<Sum>u\<leftarrow>us. committed u)"
  using assms by (induction us) (simp_all add: map_filter_append one_lovelace_sum map_filter_simps)

text \<open>C35: What is committed to a head is what was counted before. For UTxOs with distinct references and at
  most one lovelace amount each, whose sum fits into a \<open>u64\<close>: the object that goes to the hydra-node, if it
  can be built, is worth, in the count of \<open>sum_lovelace_from_utxo_json\<close>, exactly what \<open>lovelace_on_addr\<close> reports
  of the same UTxOs, native assets or not.\<close>

theorem commit_worth_what_was_counted:
  assumes "query_utxo_json address (Inr us) = Some (Inr j)"
    and "distinct (map utxo_key us)" and "list_all (\<lambda>u. length (lovelace_quantities u) \<le> 1) us"
    and "(\<Sum>u\<leftarrow>us. committed u) < 2 ^ 64"
  shows "sum_lovelace_from_utxo_json j = lovelace_on_addr (Inr us)"
proof -
  from assms(1) obtain obj where obj: "commit_entries address us [] = Some (Inr obj)" "j = JObj obj"
    by (auto simp: query_utxo_json_def split: option.splits sum.splits)
  from commit_entries_total [OF obj(1)] assms(2)
  have total: "entries_total obj = Some (\<Sum>u\<leftarrow>us. committed u)"
    and parsed: "\<And>u. u \<in> set us \<Longrightarrow> parse_u64 (commit_lovelace u) \<noteq> None" by simp_all
  from parsed assms(3) have one: "\<And>u. u \<in> set us \<Longrightarrow>
      length (lovelace_quantities u) \<le> 1 \<and> parse_u64 (commit_lovelace u) \<noteq> None"
    by (auto simp: list_all_iff)
  have sum: "(\<Sum>n\<leftarrow>List.map_filter parse_u64 (concat (map lovelace_quantities us)). unat n) = (\<Sum>u\<leftarrow>us. committed u)"
    by (rule blockfrost_sum) (rule one)
  have "unat (sum_lovelace_from_blockfrost_utxos us) = (\<Sum>u\<leftarrow>us. committed u)"
    unfolding sum_lovelace_from_blockfrost_utxos_def sum [symmetric]
    by (rule sum_list_no_wrap) (use assms(4) sum in simp)
  with total assms(4) have "sum_utxo_entries 0 obj = Inr (sum_lovelace_from_blockfrost_utxos us)"
    by (simp add: sum_utxo_entries_spec)
  then show ?thesis by (simp add: obj(2) sum_lovelace_from_utxo_json_def lovelace_on_addr_def)
qed

text \<open>Two UTxOs, one with a native asset.\<close>

definition demo_utxos :: "bf_utxo list" where
  "demo_utxos =
     [\<lparr>bu_tx_hash = ''aa'', bu_output_index = 0, bu_amount =
         [\<lparr>ba_unit = ''lovelace'', ba_quantity = ''2000000''\<rparr>,
          \<lparr>ba_unit = replicate 56 (CHR ''a'') @ ''ff'', ba_quantity = ''7''\<rparr>]\<rparr>,
      \<lparr>bu_tx_hash = ''aa'', bu_output_index = 1, bu_amount =
         [\<lparr>ba_unit = ''lovelace'', ba_quantity = ''500000''\<rparr>]\<rparr>]"

theorem commit_worth_what_was_counted_witness:
  "\<exists>j. query_utxo_json ''addr'' (Inr demo_utxos) = Some (Inr j) \<and>
     sum_lovelace_from_utxo_json j = lovelace_on_addr (Inr demo_utxos)"
proof -
  have parse: "parse_u64 ''2000000'' = Some 2000000" "parse_u64 ''500000'' = Some 500000" "parse_u64 ''7'' = Some 7"
    by (simp_all add: parse_u64_def parse_magnitude_def is_ascii_digit_def digit_value_def)
  have keys: "utxo_key (demo_utxos ! 0) = ''aa#0''" "utxo_key (demo_utxos ! 1) = ''aa#1''"
    by code_simp+
  have unit: "replicate 56 (CHR ''a'') @ ''ff'' \<noteq> ''lovelace''" by (simp add: numeral_eq_Suc)
  have slice: "slice_56_ok (replicate 56 (CHR ''a'') @ ''ff'')" by (simp add: slice_56_ok_def nth_append)
  have pol: "replicate 56 (CHR ''a'') \<noteq> ''lovelace''" by (simp add: numeral_eq_Suc)
  have "\<exists>j. query_utxo_json ''addr'' (Inr demo_utxos) = Some (Inr j)"
    using keys unit slice pol
    by (simp add: query_utxo_json_def demo_utxos_def commit_lovelace_def lovelace_quantities_def parse Let_def)
  then obtain j where j: "query_utxo_json ''addr'' (Inr demo_utxos) = Some (Inr j)" ..
  have "distinct (map utxo_key demo_utxos)" using keys by (simp add: demo_utxos_def)
  moreover have "list_all (\<lambda>u. length (lovelace_quantities u) \<le> 1) demo_utxos"
    using unit by (simp add: demo_utxos_def lovelace_quantities_def)
  moreover have "(\<Sum>u\<leftarrow>demo_utxos. committed u) < 2 ^ 64"
    using unit by (simp add: demo_utxos_def committed_def commit_lovelace_def lovelace_quantities_def parse)
  ultimately show ?thesis using commit_worth_what_was_counted [OF j] j by blast
qed

section \<open>What the head charges\<close>

lemma map_of_non_null:
  "map_of m k = Some v \<Longrightarrow> v \<noteq> JNull \<Longrightarrow> map_of (filter (\<lambda>(_, v). v \<noteq> JNull) m) k = Some v"
  by (induction m) (auto split: if_splits)

lemma json_insert_values: "JNull \<notin> snd ` set m \<Longrightarrow> v \<noteq> JNull \<Longrightarrow> JNull \<notin> snd ` set (json_insert k v m)"
  by (induction k v m rule: json_insert.induct) auto

lemma shelley_prices:
  "map_of (shelley_fields obj) ''executionUnitPrices'' =
     Some (JObj [(''priceMemory'', params_get obj ''price_mem''), (''priceSteps'', params_get obj ''price_step'')])"
  by (simp add: shelley_fields_def Let_def)

text \<open>Transactions in a head are free. Whatever parameters Blockfrost reports, as long as they are an object,
  the parameters for the head have fee 0, per transaction and per byte, and price 0 for memory and steps,
  and no field of them is null.\<close>

lemma head_charges_nothing:
  "\<exists>r. gen_protocol_parameters (Inr (JObj params)) = Inr (JObj r) \<and>
     map_of r ''txFeeFixed'' = Some (JPosInt 0) \<and> map_of r ''txFeePerByte'' = Some (JPosInt 0) \<and>
     jpointer ''executionUnitPrices'' ''priceMemory'' (JObj r) = Some (JPosInt 0) \<and>
     jpointer ''executionUnitPrices'' ''priceSteps'' (JObj r) = Some (JPosInt 0) \<and>
     JNull \<notin> snd ` set r"
proof -
  let ?o0 = "filter (\<lambda>(_, v). v \<noteq> JNull) (shelley_fields params)"
  let ?o2 = "json_insert ''txFeePerByte'' (JPosInt 0) (json_insert ''txFeeFixed'' (JPosInt 0) ?o0)"
  let ?p = "json_insert ''priceSteps'' (JPosInt 0) (json_insert ''priceMemory'' (JPosInt 0)
      [(''priceMemory'', params_get params ''price_mem''), (''priceSteps'', params_get params ''price_step'')])"
  let ?r = "json_insert ''executionUnitPrices'' (JObj ?p) ?o2"
  have "map_of ?o0 ''executionUnitPrices'' =
      Some (JObj [(''priceMemory'', params_get params ''price_mem''), (''priceSteps'', params_get params ''price_step'')])"
    by (rule map_of_non_null [OF shelley_prices]) simp
  then have "gen_protocol_parameters (Inr (JObj params)) = Inr (JObj ?r)"
    by (simp add: gen_protocol_parameters_def blockfrost_params_to_shelley_def map_of_json_insert Let_def)
  moreover have "JNull \<notin> snd ` set ?r"
    by (intro json_insert_values) auto
  ultimately show ?thesis
    by (intro exI [of _ ?r]) (simp add: map_of_json_insert jpointer_def jget_def)
qed

section \<open>Thresholds\<close>

lemma mv_ge_max: "mv_ge (mv_max a b) t \<longleftrightarrow> mv_ge a t \<or> mv_ge b t"
  by (cases a; cases b; cases t) (auto simp: mv_max_def)

lemma max_metric_ge:
  assumes "max_metric parse metric lines acc = Inr (Some v)"
  shows "mv_ge v t \<longleftrightarrow> (case acc of None \<Rightarrow> False | Some m \<Rightarrow> mv_ge m t) \<or>
    (\<exists>line \<in> set lines. \<exists>w. metric_on_line parse metric line = Inr (Some w) \<and> mv_ge w t)"
  using assms
proof (induction lines arbitrary: acc)
  case (Cons line lines)
  from Cons.prems obtain sample where sample: "metric_on_line parse metric line = Inr sample"
    and rest: "max_metric parse metric lines
      (case sample of None \<Rightarrow> acc | Some v \<Rightarrow> Some (case acc of None \<Rightarrow> v | Some m \<Rightarrow> mv_max m v)) = Inr (Some v)"
    by (auto simp: result_iff)
  from Cons.IH [OF rest] sample show ?case by (cases sample; cases acc) (auto simp: mv_ge_max)
qed simp

text \<open>The threshold is met exactly when some sample of the metric meets it; NaN never does.\<close>

lemma prometheus_metric_at_least_iff:
  assumes "prometheus_metric_at_least parse (Inr text) metric threshold = Inr b"
  shows "b \<longleftrightarrow> (\<exists>line \<in> set (split_char (char_of (10 :: nat)) text). \<exists>v.
    metric_on_line parse metric line = Inr (Some v) \<and> mv_ge v threshold)"
  using assms max_metric_ge [of parse metric _ None _ threshold]
  by (auto simp: prometheus_metric_at_least_def result_iff split: option.splits)

end
