(* ===== verification/Lb_Routes.thy ===== *)
theory Lb_Routes
  imports Lb_Registry Http_Relay
begin

text \<open>
  The HTTP routes of the gateway's load balancer, module \<open>api\<close> of \<open>gateway/src/load_balancer.rs\<close>: requests
  for a relay by its prefix or for any relay, the statistics, and the periodic check of a relay's
  platform. What happens to a request in the session of a relay (\<open>Lb_Connection\<close>) is an outcome here.
\<close>

section \<open>Requests\<close>

text \<open>The request could not be handed over, was answered, was dropped, or was not answered in time.\<close>

datatype relay_outcome =
    RO_Channel_Closed
  | RO_Answered json_response
  | RO_Sender_Dropped
  | RO_Timed_Out

definition forward_request ::
  "http_lib \<Rightarrow> uuid \<Rightarrow> (json_request \<Rightarrow> relay_outcome) \<Rightarrow> string \<Rightarrow> string \<Rightarrow> http_request \<Rightarrow>
     (u16 \<times> string) + http_response" where
  "forward_request L new_id relay relay_name rest req =
     and_then (lb_request_to_json L new_id rest (hl_uri_query L (hq_uri req)) relay_name req) (\<lambda>json_req.
       case relay json_req of
         RO_Channel_Closed \<Rightarrow> Inl (502, ''receiver '' @ relay_name @ '' dropped; request: '' @ rest)
       | RO_Answered response \<Rightarrow> lb_json_to_response L relay_name response
       | RO_Sender_Dropped \<Rightarrow>
           Inl (502, ''relay '' @ relay_name @ '' dropped while awaiting response for: '' @ rest)
       | RO_Timed_Out \<Rightarrow> Inl (504, ''relay '' @ relay_name @ '' timed out for: '' @ rest))"

text \<open>Errors become plain responses. Sessions are looked up by their number.\<close>

definition route_response :: "(u16 \<times> string) + http_response \<Rightarrow> http_response" where
  "route_response rv = (case rv of Inr resp \<Rightarrow> resp | Inl (code, reason) \<Rightarrow> plain_response code reason)"

definition handle_prefix_route ::
  "http_lib \<Rightarrow> uuid \<Rightarrow> (nat \<Rightarrow> json_request \<Rightarrow> relay_outcome) \<Rightarrow> load_balancer \<Rightarrow> string \<Rightarrow> string \<Rightarrow>
     http_request \<Rightarrow> http_response" where
  "handle_prefix_route L new_id sessions lb uuid rest req =
     route_response
       (case hl_uuid_parse L uuid of
          None \<Rightarrow> Inl (404, ''unparsable UUID prefix: '' @ uuid)
        | Some api_prefix \<Rightarrow>
            and_then (relay_for_prefix (hl_show_uuid L) lb api_prefix rest) (\<lambda>(session, relay_name).
              forward_request L new_id (sessions session) relay_name rest req))"

text \<open>\<open>None\<close>: a panic in \<open>relay_for_any\<close>.\<close>

definition handle_any_route ::
  "http_lib \<Rightarrow> uuid \<Rightarrow> (nat \<Rightarrow> json_request \<Rightarrow> relay_outcome) \<Rightarrow> load_balancer \<Rightarrow> string \<Rightarrow>
     http_request \<Rightarrow> (http_response \<times> load_balancer) option" where
  "handle_any_route L new_id sessions lb rest req =
     map_option (\<lambda>(choice, lb').
         (route_response (and_then choice (\<lambda>(session, relay_name).
            forward_request L new_id (sessions session) relay_name rest req)), lb'))
       (relay_for_any lb rest)"

text \<open>The four routes, with the parameters of the path as axum has decoded them.\<close>

definition prefix_route_root where
  "prefix_route_root L new_id sessions lb uuid req = handle_prefix_route L new_id sessions lb uuid ''/'' req"

definition any_route_root where
  "any_route_root L new_id sessions lb req = handle_any_route L new_id sessions lb ''/'' req"

definition prefix_route where
  "prefix_route L new_id sessions lb uuid rest req =
     handle_prefix_route L new_id sessions lb uuid (CHR ''/'' # rest) req"

definition any_route where
  "any_route L new_id sessions lb rest req = handle_any_route L new_id sessions lb (CHR ''/'' # rest) req"

section \<open>The health of a platform\<close>

record platform_health =
  ph_healthy :: bool
  ph_version :: "string option"
  ph_has_data_node :: "bool option"

definition health_unreachable :: platform_health where
  "health_unreachable = \<lparr>ph_healthy = False, ph_version = None, ph_has_data_node = None\<rparr>"

text \<open>The parser of the body gives the version and whether there is a data node.\<close>

definition interpret_health_response ::
  "http_lib \<Rightarrow> (string \<Rightarrow> (string option \<times> bool) option) \<Rightarrow> json_response \<Rightarrow> platform_health" where
  "interpret_health_response L from_slice response =
     (let body = (case hl_b64_decode L (jr_body_base64 response) of Inl _ \<Rightarrow> None | Inr bytes \<Rightarrow> from_slice bytes)
      in \<lparr>ph_healthy = (jr_code response = 200), ph_version = Option.bind body fst,
          ph_has_data_node = map_option snd body\<rparr>)"

definition health_request :: "uuid \<Rightarrow> json_request" where
  "health_request new_id =
     \<lparr>jq_id = new_id, jq_method = JGET, jq_path = ''/'', jq_query = None, jq_header = [], jq_body_base64 = []\<rparr>"

definition check_platform_health ::
  "http_lib \<Rightarrow> (string \<Rightarrow> (string option \<times> bool) option) \<Rightarrow> uuid \<Rightarrow> (json_request \<Rightarrow> relay_outcome) \<Rightarrow>
     platform_health" where
  "check_platform_health L from_slice new_id relay =
     (case relay (health_request new_id) of
        RO_Answered response \<Rightarrow> interpret_health_response L from_slice response
      | _ \<Rightarrow> health_unreachable)"

section \<open>Statistics\<close>

text \<open>The fields of a relay's statistics that are counters or come from its health.\<close>

record relay_stats =
  st_api_prefix :: uuid
  st_network_rtt :: "nat option"
  st_requests_sent :: u64
  st_responses_received :: u64
  st_requests_in_progress :: nat
  st_healthy :: "bool option"
  st_version :: "string option"
  st_has_data_node :: "bool option"

text \<open>What a session's shared counters say: round-trip time, sent, received, in progress, health.\<close>

type_synonym session_counters = "nat option \<times> u64 \<times> u64 \<times> nat \<times> platform_health option"

definition relay_stats_of :: "uuid \<Rightarrow> session_counters \<Rightarrow> relay_stats" where
  "relay_stats_of api_prefix counters =
     (case counters of (rtt, sent, received, in_progress, health) \<Rightarrow>
        \<lparr>st_api_prefix = api_prefix, st_network_rtt = rtt, st_requests_sent = sent,
         st_responses_received = received, st_requests_in_progress = in_progress,
         st_healthy = map_option ph_healthy health, st_version = Option.bind health ph_version,
         st_has_data_node = Option.bind health ph_has_data_node\<rparr>)"

text \<open>A map by the relay's name: of two relays with one name, the later prefix stays.\<close>

definition stats_route :: "(nat \<Rightarrow> session_counters) \<Rightarrow> load_balancer \<Rightarrow> string \<Rightarrow> relay_stats option" where
  "stats_route counters lb =
     fold (\<lambda>(api_prefix, rs) rv. rv(rs_name rs \<mapsto> relay_stats_of api_prefix (counters (rs_session rs))))
       (lb_active_relays lb) Map.empty"

end
