(* ===== verification/Registration.thy ===== *)
theory Registration
  imports Lb_Token
begin

text \<open>
  The registration of platforms, \<open>gateway/src/api/register.rs\<close>, with the validation of its payload
  (\<open>payload.rs\<close>) and the check of the license (\<open>blockfrost.rs\<close>). The rate limiter, the database,
  Blockfrost, the parsers and the clock are parameters; the texts of assets are ASCII.
\<close>

section \<open>The payload\<close>

record register_payload =
  rp_mode :: string
  rp_port :: int
  rp_secret :: string
  rp_reward_address :: string
  rp_api_prefix :: uuid

definition validate_payload :: "register_payload \<Rightarrow> api_error + unit" where
  "validate_payload p =
     (if rp_mode p = [] then Inl (Validation ''Mode cannot be empty'')
      else if rp_mode p \<notin> {''compact'', ''light'', ''full''} then
        Inl (Validation (''Mode must be one of 'compact', 'light', or 'full'' @ [CHR 0x27]))
      else if rp_port p \<le> 0 \<or> rp_port p > 65535 then Inl (Validation ''Port must be between 1 and 65535'')
      else if length (rp_secret p) < 8 then
        Inl (Validation ''Secret must be at least 8 characters long'')
      else if rp_reward_address p = [] then Inl (Validation ''reward_address is empty'')
      else Inr ())"

section \<open>The address of the client\<close>

text \<open>\<open>header\<close> is \<open>HeaderMap::get\<close>; a value that is not text is as no header at all.\<close>

definition or_else :: "'a option \<Rightarrow> 'a option \<Rightarrow> 'a option" where
  "or_else a b = (case a of Some _ \<Rightarrow> a | None \<Rightarrow> b)"

definition trim_spaces :: "string \<Rightarrow> string" where
  "trim_spaces s =
     (let white = (\<lambda>c. (of_char c :: nat) \<in> {9, 10, 11, 12, 13, 32})
      in rev (dropWhile white (rev (dropWhile white s))))"

definition client_ip ::
  "(string \<Rightarrow> string option) \<Rightarrow> (string \<Rightarrow> string option) \<Rightarrow> (string \<Rightarrow> 'ip option) \<Rightarrow> 'ip \<Rightarrow> api_error + 'ip" where
  "client_ip header to_str parse_ip socket_ip =
     (case Option.bind
         (or_else (or_else (or_else (header ''HTTP_DO_CONNECTING_IP'') (header ''CF-Connecting-IP''))
            (header ''X-Forwarded-For'')) (header ''X-Real-IP'')) to_str of
        None \<Rightarrow> Inr socket_ip
      | Some ip_header_value \<Rightarrow>
          (let ip_string = trim_spaces (hd (split_char CHR '','' ip_header_value))
           in case parse_ip ip_string of
                Some ip \<Rightarrow> Inr ip
              | None \<Rightarrow> Inl (Validation (''Invalid IP address: '' @ ip_string))))"

section \<open>The license\<close>

definition policy_id_size :: nat where "policy_id_size = 56"

definition gw_parse_asset :: "(string \<Rightarrow> string + string) \<Rightarrow> (string \<Rightarrow> string) \<Rightarrow> string \<Rightarrow> api_error + string" where
  "gw_parse_asset hex_decode utf8_lossy unit =
     (if length unit < policy_id_size then
        Inl (License ''Unit is too short to contain a valid policy ID'')
      else and_then (map_error (\<lambda>err. License (''Hex decoding failed: '' @ err)) (hex_decode (drop policy_id_size unit)))
        (\<lambda>decoded. Inr (utf8_lossy decoded)))"

text \<open>The amounts at an address are pairs of a unit and a quantity.\<close>

definition holds_nft :: "string \<Rightarrow> string \<times> string \<Rightarrow> bool" where
  "holds_nft asset a \<longleftrightarrow>
     (case a of (unit, quantity) \<Rightarrow>
        policy_id_size \<le> length unit \<and> take policy_id_size unit = asset \<and>
        (case parse_i64 quantity of Some n \<Rightarrow> n > 0 | None \<Rightarrow> False))"

definition nft_exists ::
  "(string \<Rightarrow> string + string) \<Rightarrow> (string \<Rightarrow> string) \<Rightarrow> string + (string \<times> string) list \<Rightarrow> string \<Rightarrow> api_error + string" where
  "nft_exists hex_decode utf8_lossy amounts asset =
     and_then (map_error License amounts) (\<lambda>amount.
       case find (holds_nft asset) (filter (\<lambda>(unit, _). unit \<noteq> ''lovelace'') amount) of
         Some (unit, _) \<Rightarrow> gw_parse_asset hex_decode utf8_lossy unit
       | None \<Rightarrow> Inl (License ''Asset not found''))"

section \<open>Registration\<close>

text \<open>A URL is a scheme and an authority here; path, query and fragment are replaced.\<close>

record base_url =
  bu_scheme :: string
  bu_authority :: string

definition url_to_ws :: "base_url \<Rightarrow> string" where
  "url_to_ws url = (if bu_scheme url = ''https'' then ''wss'' else ''ws'') @ ''://'' @ bu_authority url @ ''/ws''"

record request_new_item =
  ri_user_id :: int
  ri_mode :: string
  ri_ip_address :: string
  ri_port :: int
  ri_route :: uuid
  ri_reward_address :: string
  ri_asset_name :: string

record 'ip register_env =
  re_parse_ip :: "string \<Rightarrow> 'ip option"
  re_show_ip :: "'ip \<Rightarrow> string"
  re_to_str :: "string \<Rightarrow> string option"
  re_rate_ok :: "'ip \<Rightarrow> bool"
  re_from_slice :: "string \<Rightarrow> string + register_payload"
  re_is_testnet :: bool
  re_peer_urls :: "base_url list"
  re_url :: "base_url option"
  re_nft_asset :: string
  re_authorize_user :: "string \<Rightarrow> api_error + int"
  re_amounts :: "string \<Rightarrow> string + (string \<times> string) list"
  re_hex_decode :: "string \<Rightarrow> string + string"
  re_utf8_lossy :: "string \<Rightarrow> string"
  re_insert_request :: "request_new_item \<Rightarrow> api_error + unit"
  re_token_lib :: token_lib
  re_peer_secret :: string
  re_now :: u64

record response_success =
  su_route :: uuid
  su_load_balancers :: "(string \<times> string) list"      \<comment> \<open>URI and access token\<close>

definition load_balancer_uris ::
  "'ip register_env \<Rightarrow> (string \<Rightarrow> string option) \<Rightarrow> api_error + string list" where
  "load_balancer_uris v header =
     (if re_peer_urls v \<noteq> [] then Inr (map url_to_ws (re_peer_urls v))
      else case re_url v of
             Some url \<Rightarrow> Inr [url_to_ws url]
           | None \<Rightarrow>
               (case Option.bind (header ''Host'') (re_to_str v) of
                  Some host \<Rightarrow> Inr [''//'' @ host @ ''/ws'']
                | None \<Rightarrow> Inl (Validation ''The request didn't set the Host: header field.'')))"

definition register_route ::
  "'ip register_env \<Rightarrow> (string \<Rightarrow> string option) \<Rightarrow> 'ip \<Rightarrow> string \<Rightarrow> api_error + response_success" where
  "register_route v header socket_ip body =
     and_then (client_ip header (re_to_str v) (re_parse_ip v) socket_ip) (\<lambda>ip_address.
     if \<not> re_rate_ok v ip_address then Inl RateLimited
     else
       and_then (map_error Validation (re_from_slice v body)) (\<lambda>payload.
       and_then (validate_payload payload) (\<lambda>_.
         let is_testnet_address = starts_with ''addr_test'' (rp_reward_address payload)
         in if re_is_testnet v \<and> \<not> is_testnet_address then
              Inl (Validation ''Network and address mismatch: mainnet address provided on testnet'')
            else if \<not> re_is_testnet v \<and> is_testnet_address then
              Inl (Validation ''Network and address mismatch: testnet address provided on mainnet'')
            else
              and_then (load_balancer_uris v header) (\<lambda>ws_uris.
              and_then (re_authorize_user v (rp_secret payload)) (\<lambda>user_id.
              and_then (map_error (\<lambda>_. License (rp_reward_address payload))
                  (nft_exists (re_hex_decode v) (re_utf8_lossy v) (re_amounts v (rp_reward_address payload))
                    (re_nft_asset v))) (\<lambda>asset_name.
                let token = new_access_token (re_token_lib v) (re_peer_secret v) (re_now v) asset_name
                      (rp_api_prefix payload) (rp_reward_address payload)
                in and_then
                  (re_insert_request v
                    \<lparr>ri_user_id = user_id, ri_mode = rp_mode payload, ri_ip_address = re_show_ip v ip_address,
                     ri_port = rp_port payload, ri_route = rp_api_prefix payload,
                     ri_reward_address = rp_reward_address payload, ri_asset_name = asset_name\<rparr>) (\<lambda>_.
                  Inr \<lparr>su_route = rp_api_prefix payload,
                       su_load_balancers = map (\<lambda>uri. (uri, token)) ws_uris\<rparr>)))))))"

section \<open>Properties\<close>

lemma validate_payload_Inr:
  "validate_payload p = Inr u \<longleftrightarrow>
     rp_mode p \<in> {''compact'', ''light'', ''full''} \<and> 0 < rp_port p \<and> rp_port p \<le> 65535 \<and>
     8 \<le> length (rp_secret p) \<and> rp_reward_address p \<noteq> []"
  by (auto simp: validate_payload_def)

lemma nft_exists_Inr:
  assumes "nft_exists hex lossy (Inr amounts) asset = Inr name"
  shows "\<exists>unit quantity n bytes. (unit, quantity) \<in> set amounts \<and> take 56 unit = asset \<and>
    parse_i64 quantity = Some n \<and> 0 < n \<and> hex (drop 56 unit) = Inr bytes \<and> name = lossy bytes"
  using assms
  by (auto simp: nft_exists_def holds_nft_def gw_parse_asset_def result_iff policy_id_size_def
      split: option.splits if_splits dest!: find_SomeD) blast

text \<open>A registration that succeeded has passed every check.\<close>

lemma register_route_Inr:
  assumes "register_route v header socket_ip body = Inr r"
  obtains ip p uris user name item where
    "client_ip header (re_to_str v) (re_parse_ip v) socket_ip = Inr ip" "re_rate_ok v ip"
    "re_from_slice v body = Inr p" "validate_payload p = Inr ()"
    "starts_with ''addr_test'' (rp_reward_address p) \<longleftrightarrow> re_is_testnet v"
    "load_balancer_uris v header = Inr uris" "re_authorize_user v (rp_secret p) = Inr user"
    "nft_exists (re_hex_decode v) (re_utf8_lossy v) (re_amounts v (rp_reward_address p)) (re_nft_asset v) = Inr name"
    "item = \<lparr>ri_user_id = user, ri_mode = rp_mode p, ri_ip_address = re_show_ip v ip, ri_port = rp_port p,
      ri_route = rp_api_prefix p, ri_reward_address = rp_reward_address p, ri_asset_name = name\<rparr>"
    "re_insert_request v item = Inr ()"
    "r = \<lparr>su_route = rp_api_prefix p, su_load_balancers =
      map (\<lambda>uri. (uri, new_access_token (re_token_lib v) (re_peer_secret v) (re_now v) name (rp_api_prefix p) (rp_reward_address p))) uris\<rparr>"
proof -
  from assms obtain ip where ip: "client_ip header (re_to_str v) (re_parse_ip v) socket_ip = Inr ip" "re_rate_ok v ip"
    by (auto simp: register_route_def result_iff split: if_splits)
  with assms obtain p where p: "re_from_slice v body = Inr p" "validate_payload p = Inr ()"
    by (auto simp: register_route_def result_iff)
  from assms ip p have net: "starts_with ''addr_test'' (rp_reward_address p) \<longleftrightarrow> re_is_testnet v"
    by (auto simp: register_route_def Let_def split: if_splits)
  from assms ip p net obtain uris user name item where
    uris: "load_balancer_uris v header = Inr uris" and
    user: "re_authorize_user v (rp_secret p) = Inr user" and
    name: "nft_exists (re_hex_decode v) (re_utf8_lossy v) (re_amounts v (rp_reward_address p)) (re_nft_asset v) = Inr name" and
    item: "item = \<lparr>ri_user_id = user, ri_mode = rp_mode p, ri_ip_address = re_show_ip v ip, ri_port = rp_port p,
      ri_route = rp_api_prefix p, ri_reward_address = rp_reward_address p, ri_asset_name = name\<rparr>"
      "re_insert_request v item = Inr ()" and
    r: "r = \<lparr>su_route = rp_api_prefix p, su_load_balancers =
      map (\<lambda>uri. (uri, new_access_token (re_token_lib v) (re_peer_secret v) (re_now v) name (rp_api_prefix p) (rp_reward_address p))) uris\<rparr>"
    unfolding register_route_def by (simp add: Let_def result_iff) blast
  with ip p net user show thesis by (intro that)
qed

text \<open>C37: Only a licensed user is registered, and what it gets is what it needs. A registration succeeds only for
  a client within the rate limit whose payload is valid, whose reward address is of the gateway's network and
  holds, in a positive quantity, an asset of the license's policy, and whose secret the database knows; it is
  recorded under the name of that asset, the decoded rest of its unit after the policy; and the access token
  that goes with every address of a load balancer opens, until five minutes later and with every gateway that
  has the same key, a connection with that name, that reward address and that prefix.\<close>

theorem registration_grants_access:
  assumes "register_route v header socket_ip body = Inr r"
    and "token_lib_ok (re_token_lib v)" and "unat (re_now v) + 300 < 2 ^ 64"
  shows "\<exists>ip p user amounts name item.
    client_ip header (re_to_str v) (re_parse_ip v) socket_ip = Inr ip \<and> re_rate_ok v ip \<and>
    re_from_slice v body = Inr p \<and> validate_payload p = Inr () \<and>
    (starts_with ''addr_test'' (rp_reward_address p) \<longleftrightarrow> re_is_testnet v) \<and>
    re_authorize_user v (rp_secret p) = Inr user \<and>
    re_amounts v (rp_reward_address p) = Inr amounts \<and>
    (\<exists>unit quantity n bytes. (unit, quantity) \<in> set amounts \<and> take 56 unit = re_nft_asset v \<and>
       parse_i64 quantity = Some n \<and> 0 < n \<and> re_hex_decode v (drop 56 unit) = Inr bytes \<and>
       name = re_utf8_lossy v bytes) \<and>
    ri_user_id item = user \<and> ri_reward_address item = rp_reward_address p \<and> ri_asset_name item = name \<and>
    ri_route item = rp_api_prefix p \<and> re_insert_request v item = Inr () \<and>
    su_route r = rp_api_prefix p \<and> su_load_balancers r \<noteq> [] \<and>
    (\<forall>(uri, token) \<in> set (su_load_balancers r). \<forall>now. unat now \<le> unat (re_now v) + 300 \<longrightarrow>
       websocket_route (re_token_lib v) (re_peer_secret v) now (Some (''Bearer '' @ token)) =
         Inr \<lparr>at_name = name, at_reward_addr = rp_reward_address p, at_api_prefix = rp_api_prefix p\<rparr>)"
proof -
  from register_route_Inr [OF assms(1)] obtain ip p uris user name item where
    ip: "client_ip header (re_to_str v) (re_parse_ip v) socket_ip = Inr ip" "re_rate_ok v ip" and
    p: "re_from_slice v body = Inr p" "validate_payload p = Inr ()" and
    net: "starts_with ''addr_test'' (rp_reward_address p) \<longleftrightarrow> re_is_testnet v" and
    uris: "load_balancer_uris v header = Inr uris" and
    user: "re_authorize_user v (rp_secret p) = Inr user" and
    name: "nft_exists (re_hex_decode v) (re_utf8_lossy v) (re_amounts v (rp_reward_address p)) (re_nft_asset v) = Inr name" and
    item: "item = \<lparr>ri_user_id = user, ri_mode = rp_mode p, ri_ip_address = re_show_ip v ip, ri_port = rp_port p,
      ri_route = rp_api_prefix p, ri_reward_address = rp_reward_address p, ri_asset_name = name\<rparr>"
      "re_insert_request v item = Inr ()" and
    r: "r = \<lparr>su_route = rp_api_prefix p, su_load_balancers =
      map (\<lambda>uri. (uri, new_access_token (re_token_lib v) (re_peer_secret v) (re_now v) name (rp_api_prefix p) (rp_reward_address p))) uris\<rparr>"
    by blast
  from name obtain amounts where amounts: "re_amounts v (rp_reward_address p) = Inr amounts"
    by (auto simp: nft_exists_def result_iff)
  have nft: "\<exists>unit quantity n bytes. (unit, quantity) \<in> set amounts \<and> take 56 unit = re_nft_asset v \<and>
      parse_i64 quantity = Some n \<and> 0 < n \<and> re_hex_decode v (drop 56 unit) = Inr bytes \<and> name = re_utf8_lossy v bytes"
    by (rule nft_exists_Inr [OF name [unfolded amounts]])
  have "uris \<noteq> []" using uris by (auto simp: load_balancer_uris_def split: if_splits option.splits)
  moreover have "websocket_route (re_token_lib v) (re_peer_secret v) now (Some (''Bearer '' @ token)) =
      Inr \<lparr>at_name = name, at_reward_addr = rp_reward_address p, at_api_prefix = rp_api_prefix p\<rparr>"
    if "(uri, token) \<in> set (su_load_balancers r)" "unat now \<le> unat (re_now v) + 300" for uri token now
    using that token_roundtrip [OF assms(2,3)] by (auto simp: r)
  ultimately show ?thesis
    using ip p net user amounts nft item
    by (intro exI [of _ ip] exI [of _ p] exI [of _ user] exI [of _ amounts] exI [of _ name] exI [of _ item])
      (auto simp: r)
qed

text \<open>A gateway with one peer, and a registration.\<close>

definition demo_payload :: register_payload where
  "demo_payload = \<lparr>rp_mode = ''full'', rp_port = 3000, rp_secret = ''12345678'',
     rp_reward_address = ''addr1q'', rp_api_prefix = Uuid 7\<rparr>"

definition demo_register_env :: "nat register_env" where
  "demo_register_env =
     \<lparr>re_parse_ip = (\<lambda>_. Some 1), re_show_ip = (\<lambda>_. ''1''), re_to_str = Some, re_rate_ok = (\<lambda>_. True),
      re_from_slice = (\<lambda>_. Inr demo_payload), re_is_testnet = False,
      re_peer_urls = [\<lparr>bu_scheme = ''https'', bu_authority = ''gw''\<rparr>], re_url = None,
      re_nft_asset = replicate 56 (CHR ''a''), re_authorize_user = (\<lambda>_. Inr 1),
      re_amounts = (\<lambda>_. Inr [(''lovelace'', ''5''), (replicate 56 (CHR ''a'') @ ''ff'', ''1'')]),
      re_hex_decode = Inr, re_utf8_lossy = (\<lambda>s. s), re_insert_request = (\<lambda>_. Inr ()),
      re_token_lib = demo_token_lib, re_peer_secret = ''k'', re_now = 1000\<rparr>"

theorem registration_grants_access_witness:
  "\<exists>r token. register_route demo_register_env (\<lambda>_. None) 1 ''{}'' = Inr r \<and>
     su_load_balancers r = [(''wss://gw/ws'', token)] \<and>
     websocket_route demo_token_lib ''k'' 1060 (Some (''Bearer '' @ token)) =
       Inr \<lparr>at_name = ''ff'', at_reward_addr = ''addr1q'', at_api_prefix = Uuid 7\<rparr>"
proof -
  let ?v = demo_register_env
  have unit: "replicate 56 (CHR ''a'') @ ''ff'' \<noteq> ''lovelace''" by (simp add: numeral_eq_Suc)
  have one: "parse_i64 ''1'' = Some 1"
    by (simp add: parse_i64_def parse_signed_def parse_magnitude_def is_ascii_digit_def digit_value_def)
  have nft: "nft_exists Inr (\<lambda>s. s) (Inr [(''lovelace'', ''5''), (replicate 56 (CHR ''a'') @ ''ff'', ''1'')])
      (replicate 56 (CHR ''a'')) = Inr ''ff''"
    using unit by (simp add: nft_exists_def holds_nft_def one policy_id_size_def gw_parse_asset_def)
  let ?t = "new_access_token demo_token_lib ''k'' 1000 ''ff'' (Uuid 7) ''addr1q''"
  let ?r = "\<lparr>su_route = Uuid 7, su_load_balancers = [(''wss://gw/ws'', ?t)]\<rparr>"
  have reg: "register_route ?v (\<lambda>_. None) 1 ''{}'' = Inr ?r"
    using nft
    by (simp add: register_route_def demo_register_env_def client_ip_def or_else_def validate_payload_def
        demo_payload_def starts_with_def load_balancer_uris_def url_to_ws_def Let_def)
  have env: "re_token_lib ?v = demo_token_lib" "re_peer_secret ?v = ''k''" "re_now ?v = 1000"
      "re_from_slice ?v ''{}'' = Inr demo_payload"
    by (simp_all add: demo_register_env_def)
  have lib: "token_lib_ok (re_token_lib ?v)" "unat (re_now ?v) + 300 < 2 ^ 64"
    by (simp_all add: env demo_token_lib_ok)
  obtain p name where p: "re_from_slice ?v ''{}'' = Inr p" and
    all: "\<forall>(uri, token) \<in> set (su_load_balancers ?r). \<forall>now. unat now \<le> unat (re_now ?v) + 300 \<longrightarrow>
       websocket_route (re_token_lib ?v) (re_peer_secret ?v) now (Some (''Bearer '' @ token)) =
         Inr \<lparr>at_name = name, at_reward_addr = rp_reward_address p, at_api_prefix = rp_api_prefix p\<rparr>"
    using registration_grants_access [OF reg lib] by blast
  from all have "websocket_route demo_token_lib ''k'' 1060 (Some (''Bearer '' @ ?t)) =
      Inr \<lparr>at_name = name, at_reward_addr = ''addr1q'', at_api_prefix = Uuid 7\<rparr>"
    using p by (auto simp: env demo_payload_def)
  moreover have "name = ''ff''"
    using calculation token_roundtrip [OF demo_token_lib_ok, of 1000 "''k''" 1060 "''ff''" "Uuid 7" "''addr1q''"] by simp
  ultimately show ?thesis using reg by auto
qed

end
