(* ===== verification/Platform_Config.thy ===== *)
theory Platform_Config
  imports Platform_Rest
begin

text \<open>
  The configuration of a platform: the arguments (\<open>platform/src/cli.rs\<close>) with the questions that write a
  configuration file, and what \<open>Config::from_args\<close> (\<open>platform/src/config.rs\<close>) makes of them. How the
  layers of arguments are merged and how a file is parsed or written is the libraries' matter.
\<close>

section \<open>Data\<close>

datatype mode = Mode_Compact | Mode_Light | Mode_Full

datatype log_level = LL_Debug | LL_Info | LL_Warn | LL_Error | LL_Trace

record args =
  ar_server_address :: string
  ar_server_port :: u16
  ar_server_concurrency_limit :: u64
  ar_max_response_body_bytes :: u64
  ar_log_level :: log_level
  ar_node_socket_path :: "string option"
  ar_mode :: mode
  ar_init :: bool
  ar_config :: "string option"
  ar_solitary :: bool
  ar_secret :: "string option"
  ar_reward_address :: "string option"
  ar_no_metrics :: bool
  ar_custom_genesis_config :: "string option"
  ar_data_node :: "string option"
  ar_data_node_timeout :: "u64 option"
  ar_gateway_url :: "string option"
  ar_hydra_cardano_signing_key :: "string option"

record data_node_config =
  dc_endpoint :: string
  dc_request_timeout :: u64      \<comment> \<open>seconds\<close>

record icebreakers_config =
  ic_reward_address :: string
  ic_secret :: string
  ic_gateway_url :: "string option"

record config =
  cf_server_address :: string
  cf_server_port :: u16
  cf_server_concurrency_limit :: u64
  cf_max_response_body_bytes :: u64
  cf_log_level :: log_level
  cf_node_socket_path :: string
  cf_mode :: mode
  cf_icebreakers_config :: "icebreakers_config option"
  cf_max_pool_connections :: nat
  cf_no_metrics :: bool
  cf_network :: network
  cf_custom_genesis_config :: "string option"
  cf_genesis :: "(network \<times> genesis_response) list"
  cf_data_node :: "data_node_config option"
  cf_hydra :: "string option"    \<comment> \<open>\<open>HydraConfig\<close>, the path of the signing key\<close>

text \<open>
  The world of the start-up: files, the two parsers of a genesis file, whether a node answers at a socket
  for a magic number, the \<open>Display\<close> of an \<open>f64\<close>, and \<open>IpAddr\<close>'s parser, which gives the address back.
\<close>

record config_env =
  ce_read_to_string :: "string \<Rightarrow> string + string"
  ce_parse_json :: "string \<Rightarrow> string + genesis_response"
  ce_parse_toml :: "string \<Rightarrow> string + genesis_response"
  ce_connect :: "string \<Rightarrow> u64 \<Rightarrow> bool"
  ce_show_f64 :: "real \<Rightarrow> string"
  ce_parse_ip :: "string \<Rightarrow> string option"

section \<open>Genesis\<close>

definition builtin_genesis :: "(network \<times> genesis_response) list" where
  "builtin_genesis =
     (let common = \<lambda>magic epoch start param.
          \<lparr>ge_active_slots_coefficient = 5 / 100, ge_update_quorum = 5,
           ge_max_lovelace_supply = ''45000000000000000'', ge_network_magic = magic,
           ge_epoch_length = epoch, ge_system_start = start, ge_slots_per_kes_period = 129600,
           ge_slot_length = 1, ge_max_kes_evolutions = 62, ge_security_param = param\<rparr>
      in [(Mainnet, common 764824073 432000 1506203091 2160),
          (Preprod, common 1 432000 1654041600 2160),
          (Preview, common 2 86400 1666656000 432)])"

fun first_negative :: "(string \<times> int) list \<Rightarrow> (string \<times> int) option" where
  "first_negative [] = None"
| "first_negative ((field, z) # fs) = (if z < 0 then Some (field, z) else first_negative fs)"

definition validate_genesis :: "config_env \<Rightarrow> genesis_response \<Rightarrow> string + unit" where
  "validate_genesis env g =
     (case first_negative
         [(''network_magic'', ge_network_magic g), (''epoch_length'', ge_epoch_length g),
          (''system_start'', ge_system_start g), (''slots_per_kes_period'', ge_slots_per_kes_period g),
          (''slot_length'', ge_slot_length g), (''max_kes_evolutions'', ge_max_kes_evolutions g),
          (''security_param'', ge_security_param g), (''update_quorum'', ge_update_quorum g)] of
        Some (field, z) \<Rightarrow> Inl (''`'' @ field @ ''` must be non-negative, got '' @ show_int z)
      | None \<Rightarrow>
          (let asc = ge_active_slots_coefficient g
           in if \<not> (asc > 0 \<and> asc \<le> 1) then
                Inl (''`active_slots_coefficient` must be in (0, 1], got '' @ ce_show_f64 env asc)
              else
                let invalid = Inl (''`max_lovelace_supply` must be a positive integer, got `''
                                   @ ge_max_lovelace_supply g @ ''`'')
                in case parse_u64 (ge_max_lovelace_supply g) of
                     Some n \<Rightarrow> if n > 0 then Inr () else invalid
                   | None \<Rightarrow> invalid))"

definition load_custom_genesis :: "config_env \<Rightarrow> string option \<Rightarrow> app_error + genesis_response option" where
  "load_custom_genesis env path =
     (case path of
        None \<Rightarrow> Inr None
      | Some path \<Rightarrow>
          and_then (map_error (\<lambda>e. AE_Server (''Failed to read custom genesis file '' @ path @ '': '' @ e))
                     (ce_read_to_string env path)) (\<lambda>data.
          and_then (map_error (\<lambda>e. AE_Server (''Failed to parse custom genesis file '' @ path @ '': '' @ e))
                     (case ce_parse_json env data of Inr g \<Rightarrow> Inr g | Inl _ \<Rightarrow> ce_parse_toml env data)) (\<lambda>custom.
          and_then (map_error (\<lambda>e. AE_Server (''Invalid custom genesis file '' @ path @ '': '' @ e))
                     (validate_genesis env custom)) (\<lambda>_.
          Inr (Some custom)))))"

text \<open>
  The first magic number of the built-in networks at which a node answers. \<open>network_by_magic\<close> panics
  on an unknown magic number; here it is one of the list.
\<close>

fun first_connecting :: "(u64 \<Rightarrow> bool) \<Rightarrow> u64 list \<Rightarrow> u64 option" where
  "first_connecting connects [] = None"
| "first_connecting connects (magic # magics) =
     (if connects magic then Some magic else first_connecting connects magics)"

definition quoted :: "string \<Rightarrow> string" where
  "quoted s = CHR 0x27 # s @ [CHR 0x27]"

definition detect_network :: "config_env \<Rightarrow> string \<Rightarrow> app_error + network" where
  "detect_network env socket_path =
     (case Option.bind (first_connecting (ce_connect env socket_path) (genesis_all_magics builtin_genesis))
             (network_by_magic builtin_genesis) of
        Some net \<Rightarrow> Inr net
      | None \<Rightarrow> Inl (AE_Server (''Could not detect network from '' @ quoted socket_path @ '' is the node running?'')))"

section \<open>From arguments to a configuration\<close>

definition icebreakers_of :: "args \<Rightarrow> app_error + icebreakers_config option" where
  "icebreakers_of a =
     (if \<not> ar_solitary a then
        case ar_reward_address a of
          None \<Rightarrow> Inl (AE_Server ''--reward-address must be set'')
        | Some reward_address \<Rightarrow>
            (case ar_secret a of
               None \<Rightarrow> Inl (AE_Server ''--secret must be set'')
             | Some secret \<Rightarrow>
                 Inr (Some \<lparr>ic_reward_address = reward_address, ic_secret = secret,
                            ic_gateway_url = ar_gateway_url a\<rparr>))
      else if ar_reward_address a \<noteq> None \<or> ar_secret a \<noteq> None then
        Inl (AE_Server ''Cannot set --reward-address or --secret in solitary mode (--solitary)'')
      else Inr None)"

definition network_and_registry ::
  "(string \<Rightarrow> app_error + network) \<Rightarrow> string \<Rightarrow> genesis_response option \<Rightarrow>
     app_error + network \<times> (network \<times> genesis_response) list" where
  "network_and_registry detector node_socket_path custom_genesis =
     (case custom_genesis of
        Some custom \<Rightarrow> Inr (Custom, genesis_add Custom custom builtin_genesis)
      | None \<Rightarrow> and_then (detector node_socket_path) (\<lambda>net. Inr (net, builtin_genesis)))"

definition config_of ::
  "args \<Rightarrow> string \<Rightarrow> icebreakers_config option \<Rightarrow> network \<Rightarrow> (network \<times> genesis_response) list \<Rightarrow> config" where
  "config_of a node_socket_path icebreakers net genesis_registry =
     \<lparr>cf_server_address = ar_server_address a,
       cf_server_port = ar_server_port a,
       cf_server_concurrency_limit = ar_server_concurrency_limit a,
       cf_max_response_body_bytes = ar_max_response_body_bytes a,
       cf_log_level = ar_log_level a,
       cf_node_socket_path = node_socket_path,
       cf_mode = ar_mode a,
       cf_icebreakers_config = icebreakers,
       cf_max_pool_connections = 10,
       cf_no_metrics = ar_no_metrics a,
       cf_network = net,
       cf_custom_genesis_config = ar_custom_genesis_config a,
       cf_genesis = genesis_registry,
       cf_data_node = map_option (\<lambda>endpoint.
         \<lparr>dc_endpoint = endpoint,
          dc_request_timeout = (case ar_data_node_timeout a of None \<Rightarrow> 30 | Some t \<Rightarrow> t)\<rparr>)
         (ar_data_node a),
       cf_hydra = ar_hydra_cardano_signing_key a\<rparr>"

definition from_args_with_detector ::
  "config_env \<Rightarrow> (string \<Rightarrow> app_error + network) \<Rightarrow> args \<Rightarrow> app_error + config" where
  "from_args_with_detector env detector a =
     (case ar_node_socket_path a of
        None \<Rightarrow> Inl (AE_Server ''--node-socket-path must be set'')
      | Some node_socket_path \<Rightarrow>
          and_then (icebreakers_of a) (\<lambda>icebreakers.
          and_then (load_custom_genesis env (ar_custom_genesis_config a)) (\<lambda>custom_genesis.
          and_then (network_and_registry detector node_socket_path custom_genesis) (\<lambda>(net, genesis_registry).
          Inr (config_of a node_socket_path icebreakers net genesis_registry)))))"

definition from_args :: "config_env \<Rightarrow> args \<Rightarrow> app_error + config" where
  "from_args env = from_args_with_detector env (detect_network env)"

section \<open>The questions that write a configuration file\<close>

text \<open>
  What the user enters: yes or no, a position in a menu, and lines of text. A text question is asked again
  until its validator accepts the line; an empty line stands for the default. When the user gives up, or has
  nothing more to say, the command fails: \<open>None\<close>.
\<close>

record answers =
  an_solitary :: bool
  an_metrics :: bool
  an_mode :: nat
  an_log_level :: nat
  an_lines :: "string list"

fun prompt_text :: "string option \<Rightarrow> (string \<Rightarrow> bool) \<Rightarrow> string list \<Rightarrow> (string \<times> string list) option" where
  "prompt_text dflt valid [] = None"
| "prompt_text dflt valid (line # lines) =
     (let s = (case dflt of Some d \<Rightarrow> if line = [] then d else line | None \<Rightarrow> line)
      in if valid s then Some (s, lines) else prompt_text dflt valid lines)"

definition enum_prompt :: "string list \<Rightarrow> nat \<Rightarrow> string option" where
  "enum_prompt names choice = (if choice < length names then Some (names ! choice) else None)"

definition parse_u16 :: "string \<Rightarrow> u16 option" where
  "parse_u16 s = map_option of_nat (parse_unsigned (2 ^ 16 - 1) s)"

definition mode_variants :: "(string \<times> mode) list" where
  "mode_variants = [(''Compact'', Mode_Compact), (''Light'', Mode_Light), (''Full'', Mode_Full)]"

definition log_level_variants :: "(string \<times> log_level) list" where
  "log_level_variants = [(''Debug'', LL_Debug), (''Info'', LL_Info), (''Warn'', LL_Warn),
     (''Error'', LL_Error), (''Trace'', LL_Trace)]"

text \<open>\<open>ValueEnum::from_str\<close> without regard to case.\<close>

definition variant_from_str :: "(string \<times> 'a) list \<Rightarrow> string \<Rightarrow> 'a option" where
  "variant_from_str variants s =
     map_option snd (find (\<lambda>(n, _). map ascii_lower n = map ascii_lower s) variants)"

definition positive :: "'a::{zero,ord} option \<Rightarrow> bool" where
  "positive v = (case v of Some n \<Rightarrow> 0 < n | None \<Rightarrow> False)"

definition ask_data_node :: "string list \<Rightarrow> ((string option \<times> u64) \<times> string list) option" where
  "ask_data_node lines =
     Option.bind (prompt_text None (\<lambda>_. True) lines) (\<lambda>(url, lines).
     if url = [] then Some ((None, 0), lines)
     else Option.bind (prompt_text (Some ''30'') (\<lambda>s. positive (parse_u64 s)) lines) (\<lambda>(secs, lines).
          Option.bind (parse_u64 secs) (\<lambda>t. Some ((Some url, t), lines))))"

definition ask_icebreakers :: "bool \<Rightarrow> string list \<Rightarrow> args \<Rightarrow> args option" where
  "ask_icebreakers is_solitary lines app_config =
     (if is_solitary then Some app_config
      else Option.bind (prompt_text None (\<lambda>s. s \<noteq> []) lines) (\<lambda>(reward_address, lines).
           Option.bind (prompt_text None (\<lambda>s. s \<noteq> []) lines) (\<lambda>(secret, lines).
           Some (app_config\<lparr>ar_reward_address := Some reward_address, ar_secret := Some secret\<rparr>))))"

definition generate_config :: "config_env \<Rightarrow> answers \<Rightarrow> args option" where
  "generate_config env ans =
     Option.bind (Option.bind (enum_prompt (map fst mode_variants) (an_mode ans))
                    (variant_from_str mode_variants)) (\<lambda>m.
     Option.bind (Option.bind (enum_prompt (map fst log_level_variants) (an_log_level ans))
                    (variant_from_str log_level_variants)) (\<lambda>ll.
     Option.bind (prompt_text (Some ''0.0.0.0'') (\<lambda>s. ce_parse_ip env s \<noteq> None) (an_lines ans)) (\<lambda>(addr, lines).
     Option.bind (ce_parse_ip env addr) (\<lambda>server_address.
     Option.bind (prompt_text (Some ''3000'') (\<lambda>s. positive (parse_u16 s)) lines) (\<lambda>(port, lines).
     Option.bind (parse_u16 port) (\<lambda>server_port.
     Option.bind (prompt_text None (\<lambda>s. s \<noteq> []) lines) (\<lambda>(node_socket_path, lines).
     Option.bind (ask_data_node lines) (\<lambda>((endpoint, request_timeout), lines).
     ask_icebreakers (an_solitary ans) lines
       \<lparr>ar_server_address = server_address, ar_server_port = server_port,
        ar_server_concurrency_limit = 8192, ar_max_response_body_bytes = 10 * 1024 * 1024,
        ar_log_level = ll, ar_node_socket_path = Some node_socket_path, ar_mode = m,
        ar_init = False, ar_config = None, ar_solitary = an_solitary ans,
        ar_secret = None, ar_reward_address = None, ar_no_metrics = (\<not> an_metrics ans),
        ar_custom_genesis_config = None, ar_data_node = endpoint,
        ar_data_node_timeout = Some request_timeout, ar_gateway_url = None,
        ar_hydra_cardano_signing_key = None\<rparr>))))))))"

section \<open>An example\<close>

text \<open>A start-up on the preview network; port 0 is asked again.\<close>

definition demo_env :: config_env where
  "demo_env =
     \<lparr>ce_read_to_string = (\<lambda>_. Inl ''No such file''), ce_parse_json = (\<lambda>_. Inl ''EOF''),
      ce_parse_toml = (\<lambda>_. Inl ''EOF''), ce_connect = (\<lambda>_ magic. magic = 2), ce_show_f64 = (\<lambda>_. ''?''),
      ce_parse_ip = Some\<rparr>"

definition demo_answers :: answers where
  "demo_answers =
     \<lparr>an_solitary = False, an_metrics = True, an_mode = 1, an_log_level = 1,
      an_lines = [[], ''0'', ''8080'', ''/node.socket'', [], ''addr'', [], ''secret'']\<rparr>"

definition demo_args :: args where
  "demo_args = the (generate_config demo_env demo_answers)"

lemma demo_args_eq:
  "demo_args = \<lparr>ar_server_address = ''0.0.0.0'', ar_server_port = 8080, ar_server_concurrency_limit = 8192,
     ar_max_response_body_bytes = 10485760, ar_log_level = LL_Info, ar_node_socket_path = Some ''/node.socket'',
     ar_mode = Mode_Light, ar_init = False, ar_config = None, ar_solitary = False,
     ar_secret = Some ''secret'', ar_reward_address = Some ''addr'', ar_no_metrics = False,
     ar_custom_genesis_config = None, ar_data_node = None, ar_data_node_timeout = Some 0,
     ar_gateway_url = None, ar_hydra_cardano_signing_key = None\<rparr>"
  "generate_config demo_env demo_answers = Some demo_args"
  unfolding demo_args_def
  by (simp_all add: generate_config_def demo_env_def demo_answers_def enum_prompt_def mode_variants_def
      log_level_variants_def variant_from_str_def ascii_lower_def Let_def positive_def parse_u16_def
      parse_magnitude_def is_ascii_digit_def digit_value_def ask_data_node_def ask_icebreakers_def)

section \<open>What a configuration guarantees\<close>

lemma builtin_genesis_valid:
  "(net, g) \<in> set builtin_genesis \<Longrightarrow> validate_genesis env g = Inr ()"
  by (auto simp: builtin_genesis_def Let_def validate_genesis_def parse_u64_def parse_magnitude_def
      is_ascii_digit_def digit_value_def)

lemma builtin_networks:
  "map fst builtin_genesis = [Mainnet, Preprod, Preview]"
  "genesis_all_magics builtin_genesis = [764824073, 1, 2]"
  by (simp_all add: builtin_genesis_def Let_def genesis_all_magics_def magic_u64_def)

lemma genesis_add_builtin: "genesis_add Custom g builtin_genesis = (Custom, g) # builtin_genesis"
  by (simp add: genesis_add_def builtin_genesis_def Let_def List.extract_def)

lemma first_connecting_Some:
  "first_connecting connects magics = Some m \<Longrightarrow> m \<in> set magics \<and> connects m"
  by (induction magics) (auto split: if_splits)

definition registry_entry :: "(network \<times> genesis_response) list \<Rightarrow> network \<Rightarrow> genesis_response \<Rightarrow> bool" where
  "registry_entry registry net g \<longleftrightarrow>
     genesis_by_network registry net = Some g \<and> genesis_by_magic registry (magic_u64 g) = Some g \<and>
     network_by_magic registry (magic_u64 g) = Some net"

lemma builtin_registry:
  "\<forall>(net, g) \<in> set builtin_genesis. registry_entry builtin_genesis net g \<and> net \<noteq> Custom"
  by (simp add: builtin_genesis_def Let_def network_by_magic_def genesis_by_network_def genesis_by_magic_def
      registry_entry_def magic_u64_def)

lemma network_by_magic_member:
  "network_by_magic registry magic = Some net \<Longrightarrow> \<exists>g. (net, g) \<in> set registry \<and> magic_u64 g = magic"
  by (induction registry) (auto simp: network_by_magic_def split: if_splits)

lemma custom_registry: "registry_entry ((Custom, g) # registry) Custom g"
  by (simp add: registry_entry_def genesis_by_network_def genesis_by_magic_def network_by_magic_def)

lemma detect_network_Inr:
  assumes "detect_network env socket = Inr net"
  obtains g where "registry_entry builtin_genesis net g" "(net, g) \<in> set builtin_genesis" "net \<noteq> Custom"
    "ce_connect env socket (magic_u64 g)"
proof -
  from assms obtain magic where
    m: "first_connecting (ce_connect env socket) (genesis_all_magics builtin_genesis) = Some magic"
    and net: "network_by_magic builtin_genesis magic = Some net"
    by (auto simp: detect_network_def bind_eq_Some_conv split: option.splits)
  from network_by_magic_member [OF net] obtain g where "(net, g) \<in> set builtin_genesis" "magic_u64 g = magic"
    by blast
  with builtin_registry first_connecting_Some [OF m] that show ?thesis by blast
qed

lemma load_custom_genesis_Inr:
  "load_custom_genesis env path = Inr g \<Longrightarrow>
     (path = None \<longleftrightarrow> g = None) \<and> (\<forall>g'. g = Some g' \<longrightarrow> validate_genesis env g' = Inr ())"
  by (auto simp: load_custom_genesis_def result_iff split: option.splits)

lemma validate_genesis_Inr:
  assumes "validate_genesis env g = Inr ()"
  shows "0 \<le> ge_network_magic g" "0 < ge_active_slots_coefficient g" "ge_active_slots_coefficient g \<le> 1"
    "\<exists>n. parse_u64 (ge_max_lovelace_supply g) = Some n \<and> n > 0" "0 \<le> ge_slot_length g"
  using assms by (auto simp: validate_genesis_def Let_def split: if_splits option.splits prod.splits)

text \<open>The configuration that a platform starts with names a network of its own registry of genesis
  data, so that the look-ups at start-up never panic. The registry gives back the network for its magic
  number, also when a custom genesis has the magic number of a public network, and its data is valid:
  no magic number is negative (it would wrap in the cast to \<open>u64\<close>), the coefficient is in \<open>(0, 1]\<close> and the
  supply is a positive number. The network is the custom one exactly when a custom genesis was given,
  and otherwise one at whose magic number the node answered. Icebreakers are configured exactly when
  the platform is not solitary.\<close>

theorem config_network_registered:
  assumes "from_args env a = Inr c"
  shows "\<exists>g. registry_entry (cf_genesis c) (cf_network c) g \<and> validate_genesis env g = Inr () \<and>
    0 \<le> ge_network_magic g \<and>
    (cf_network c = Custom \<longleftrightarrow> ar_custom_genesis_config a \<noteq> None) \<and>
    (cf_network c \<noteq> Custom \<longrightarrow> ce_connect env (cf_node_socket_path c) (magic_u64 g)) \<and>
    (cf_icebreakers_config c = None \<longleftrightarrow> ar_solitary a)"
proof -
  from assms obtain socket where socket: "ar_node_socket_path a = Some socket"
    by (cases "ar_node_socket_path a") (auto simp: from_args_def from_args_with_detector_def)
  with assms obtain ib custom net registry where ib: "icebreakers_of a = Inr ib"
    and custom: "load_custom_genesis env (ar_custom_genesis_config a) = Inr custom"
    and net: "network_and_registry (detect_network env) socket custom = Inr (net, registry)"
    and c: "cf_genesis c = registry" "cf_network c = net" "cf_node_socket_path c = socket"
      "cf_icebreakers_config c = ib"
    by (auto simp: from_args_def from_args_with_detector_def config_of_def result_iff)
  from ib have ib': "ib = None \<longleftrightarrow> ar_solitary a"
    by (auto simp: icebreakers_of_def split: if_splits option.splits)
  show ?thesis
  proof (cases custom)
    case None
    with net have d: "detect_network env socket = Inr net" and "registry = builtin_genesis"
      by (auto simp: network_and_registry_def result_iff)
    with detect_network_Inr [OF d] show ?thesis
      using builtin_genesis_valid validate_genesis_Inr(1) load_custom_genesis_Inr [OF custom] None c ib'
      by metis
  next
    case (Some g)
    with net have "net = Custom" "registry = (Custom, g) # builtin_genesis"
      by (auto simp: network_and_registry_def genesis_add_builtin)
    then show ?thesis
      using load_custom_genesis_Inr [OF custom] Some c ib' custom_registry validate_genesis_Inr(1)
      by (metis option.distinct(1))
  qed
qed

theorem config_network_registered_witness:
  "\<exists>c g. from_args demo_env demo_args = Inr c \<and> registry_entry (cf_genesis c) Preview g \<and> 0 \<le> ge_network_magic g"
proof -
  have c: "from_args demo_env demo_args =
      Inr (config_of demo_args ''/node.socket'' (Some \<lparr>ic_reward_address = ''addr'', ic_secret = ''secret'',
        ic_gateway_url = None\<rparr>) Preview builtin_genesis)"
    by (simp add: demo_args_eq(1) from_args_def from_args_with_detector_def icebreakers_of_def load_custom_genesis_def
        network_and_registry_def detect_network_def builtin_networks(2) demo_env_def)
      (simp add: network_by_magic_def builtin_genesis_def Let_def magic_u64_def)
  from config_network_registered [OF c] c show ?thesis by (auto simp: config_of_def)
qed

section \<open>What the questions guarantee\<close>

lemma prompt_text_valid: "prompt_text dflt valid lines = Some (s, rest) \<Longrightarrow> valid s"
  by (induction lines) (auto simp: Let_def split: if_splits)

lemma positive_iff: "positive v \<longleftrightarrow> (\<exists>n. v = Some n \<and> 0 < n)"
  by (simp add: positive_def split: option.splits)

lemma ask_data_node_Some:
  "ask_data_node lines = Some ((endpoint, t), rest) \<Longrightarrow> endpoint = None \<or> 0 < t"
  by (auto simp: ask_data_node_def bind_eq_Some_conv positive_iff dest!: prompt_text_valid split: if_splits)

lemma ask_icebreakers_Some:
  assumes "ask_icebreakers sol lines a0 = Some a" and "ar_solitary a0 = sol"
    and "ar_reward_address a0 = None" and "ar_secret a0 = None"
  shows "\<exists>ib. icebreakers_of a = Inr ib" and "ar_node_socket_path a = ar_node_socket_path a0"
    and "ar_custom_genesis_config a = ar_custom_genesis_config a0"
    and "ar_solitary a = sol" "ar_server_port a = ar_server_port a0"
    "ar_data_node a = ar_data_node a0" "ar_data_node_timeout a = ar_data_node_timeout a0"
  using assms by (auto simp: ask_icebreakers_def icebreakers_of_def bind_eq_Some_conv split: if_splits)

lemma generate_config_Some:
  assumes "generate_config env ans = Some a"
  shows "\<exists>lines a0 socket t. ask_icebreakers (an_solitary ans) lines a0 = Some a \<and>
    ar_solitary a0 = an_solitary ans \<and> ar_reward_address a0 = None \<and> ar_secret a0 = None \<and>
    ar_custom_genesis_config a0 = None \<and> ar_node_socket_path a0 = Some socket \<and>
    positive (Some (ar_server_port a0)) \<and> ar_data_node_timeout a0 = Some t \<and> (ar_data_node a0 = None \<or> 0 < t)"
  using assms
  by (auto simp: generate_config_def bind_eq_Some_conv dest!: prompt_text_valid ask_data_node_Some)
    (rule exI, rule exI, rule conjI, assumption, simp)+

lemma from_args_accepts:
  assumes "ar_node_socket_path a = Some socket" and "icebreakers_of a = Inr ib"
    and "ar_custom_genesis_config a = None"
  shows "from_args env a = and_then (detect_network env socket)
    (\<lambda>net. Inr ((config_of a socket ib Custom builtin_genesis)\<lparr>cf_network := net\<rparr>))"
  using assms by (cases "detect_network env socket") (simp_all add: from_args_def from_args_with_detector_def
      load_custom_genesis_def network_and_registry_def config_of_def)

text \<open>
  The configuration that the questions write is one that the platform starts with: unless the detection
  of the network fails, whose error it then reports, \<open>from_args\<close> succeeds on the arguments just written.
  Whatever was answered, the port is not 0, a data node comes with a positive time-out, and the
  credentials of the Icebreakers are there exactly when the platform is not solitary.\<close>

theorem generated_config_accepted:
  assumes "generate_config env ans = Some a"
  shows "\<exists>socket c. ar_node_socket_path a = Some socket \<and>
    from_args env a = and_then (detect_network env socket) (\<lambda>net. Inr (c\<lparr>cf_network := net\<rparr>)) \<and>
    cf_server_port c \<noteq> 0 \<and>
    (cf_icebreakers_config c = None \<longleftrightarrow> an_solitary ans) \<and>
    (\<forall>d. cf_data_node c = Some d \<longrightarrow> 0 < dc_request_timeout d)"
proof -
  from generate_config_Some [OF assms] obtain lines a0 socket t where
    a: "ask_icebreakers (an_solitary ans) lines a0 = Some a"
    and a0: "ar_solitary a0 = an_solitary ans" "ar_reward_address a0 = None" "ar_secret a0 = None"
    and rest: "ar_custom_genesis_config a0 = None" "ar_node_socket_path a0 = Some socket"
      "positive (Some (ar_server_port a0))" "ar_data_node_timeout a0 = Some t" "ar_data_node a0 = None \<or> 0 < t"
    by blast
  note asked = ask_icebreakers_Some [OF a a0, unfolded rest]
  from asked(1) obtain ib where ib: "icebreakers_of a = Inr ib" by blast
  then have "ib = None \<longleftrightarrow> an_solitary ans"
    using asked(4) by (auto simp: icebreakers_of_def split: if_splits option.splits)
  with asked rest(3,5) show ?thesis
    by (intro exI [of _ socket] exI [of _ "config_of a socket ib Custom builtin_genesis"])
      (auto simp: from_args_accepts [OF _ ib] config_of_def positive_def)
qed

theorem generated_config_accepted_witness:
  "\<exists>c. from_args demo_env demo_args = Inr c \<and> cf_network c = Preview \<and> cf_server_port c \<noteq> 0 \<and> cf_icebreakers_config c \<noteq> None"
proof -
  from generated_config_accepted [OF demo_args_eq(2)] obtain c where
    c: "from_args demo_env demo_args = and_then (detect_network demo_env ''/node.socket'')
      (\<lambda>net. Inr (c\<lparr>cf_network := net\<rparr>))"
    and ib: "cf_server_port c \<noteq> 0" "cf_icebreakers_config c \<noteq> None"
    by (auto simp: demo_args_eq(1) demo_answers_def)
  have d: "detect_network demo_env ''/node.socket'' = Inr Preview"
    by (simp add: detect_network_def builtin_networks(2) demo_env_def)
      (simp add: network_by_magic_def builtin_genesis_def Let_def magic_u64_def)
  with c ib show ?thesis by simp
qed

end
