(* ===== verification/Icebreakers.thy ===== *)
theory Icebreakers
  imports Platform_Config Gateway_Connections
begin

text \<open>
  A platform and the Icebreakers service, \<open>crates/platform/src/icebreakers\<close>: the registration
  (\<open>api.rs\<close>), and the task that hands the Hydra controller's key-exchange requests to whichever
  connection with a gateway wants them at the moment (\<open>forward_to_changing_dest\<close> of \<open>manager.rs\<close>).
\<close>

section \<open>Registration\<close>

record icebreakers_api =
  ia_base_url :: string
  ia_secret :: string
  ia_mode :: string
  ia_port :: u16
  ia_reward_address :: string
  ia_api_prefix :: string       \<comment> \<open>\<open>api_prefix.0.unwrap_or_default()\<close>\<close>

fun show_mode :: "mode \<Rightarrow> string" where
  "show_mode Mode_Compact = ''compact''"
| "show_mode Mode_Light = ''light''"
| "show_mode Mode_Full = ''full''"


text \<open>The HTTP client, which may be bound to the server's address, is left out; \<open>build\<close> fails with its error.\<close>

definition icebreakers_api_new ::
  "string + unit \<Rightarrow> config \<Rightarrow> string \<Rightarrow> app_error + icebreakers_api option" where
  "icebreakers_api_new client c api_prefix =
     (case cf_icebreakers_config c of
        None \<Rightarrow> Inr None
      | Some ic \<Rightarrow>
          (let api_url = (case ic_gateway_url ic of Some url \<Rightarrow> url | None \<Rightarrow> default_gateway_url (cf_network c))
           in and_then (map_error (\<lambda>e. AE_Registration (''Registering failed: '' @ e)) client) (\<lambda>_.
              Inr (Some \<lparr>ia_base_url = api_url, ia_secret = ic_secret ic, ia_mode = show_mode (cf_mode c),
                         ia_port = cf_server_port c, ia_reward_address = ic_reward_address ic,
                         ia_api_prefix = api_prefix\<rparr>))))"

record success_response =
  sr_route :: string
  sr_load_balancers :: "gateway_config list option"

text \<open>The answer of the service: none, or a status with what its body parses as, in both of the shapes.\<close>

datatype register_response =
    IB_Unreachable string
  | IB_Response (ib_status: nat) (ib_success: "string + success_response") (ib_error: "string + string \<times> string")

definition fallback_uri :: "string \<Rightarrow> gateway_config \<Rightarrow> gateway_config" where
  "fallback_uri fallback_proto lb =
     (if starts_with ''//'' (gw_uri lb) then lb\<lparr>gw_uri := fallback_proto @ gw_uri lb\<rparr> else lb)"

definition icebreakers_register :: "icebreakers_api \<Rightarrow> register_response \<Rightarrow> app_error + success_response" where
  "icebreakers_register api response =
     (case response of
        IB_Unreachable e \<Rightarrow> Inl (AE_Registration (''Registering failed: '' @ e))
      | IB_Response status success err \<Rightarrow>
          if 200 \<le> status \<and> status < 300 then
            and_then (map_error (\<lambda>e. AE_Registration (''Failed to parse success response: '' @ e)) success) (\<lambda>r.
            let fallback_proto = (if starts_with ''https:'' (ia_base_url api) then ''wss:'' else ''ws:'')
            in Inr (r\<lparr>sr_load_balancers := Some (map (fallback_uri fallback_proto)
                       (case sr_load_balancers r of None \<Rightarrow> [] | Some lbs \<Rightarrow> lbs))\<rparr>))
          else
            and_then (map_error (\<lambda>e. AE_Registration (''Failed to parse error response: '' @ e)) err)
              (\<lambda>(reason, details). Inl (AE_Registration
                 (''Failed to register with Icebreakers API: '' @ reason @ '' details: '' @ details))))"

section \<open>Forwarding to a changing destination\<close>

text \<open>
  \<open>mpsc\<close> channels that were created so far, with what is buffered, and the \<open>watch\<close> channel with the
  version of its value. \<open>borrow\<close> reads the value, \<open>changed\<close> waits for a version not yet seen and marks
  it as seen; it fails only when the sender is gone and there is no such version. A message given to a
  closed channel comes back. The place where the task stands between two awaits is its phase.
  The capacity of the source is not modelled, so that more can be waiting there than in the code;
  \<open>fw_delivered\<close> is a history.
\<close>

record 'a dest_channel =
  ch_buffer :: "'a list"
  ch_capacity :: nat
  ch_open :: bool

datatype 'a fw_phase =
    FW_Receiving
  | FW_Choosing 'a               \<comment> \<open>the top of the inner loop\<close>
  | FW_Sending nat 'a            \<comment> \<open>awaits \<open>dest.send(msg)\<close>\<close>
  | FW_Waiting 'a                \<comment> \<open>awaits \<open>dest_watch.changed()\<close>\<close>
  | FW_Ended "'a option"         \<comment> \<open>with the message it dropped\<close>

record 'a forwarder =
  fw_phase :: "'a fw_phase"
  fw_src :: "'a list"
  fw_src_open :: bool
  fw_seen :: nat
  fw_version :: nat
  fw_dest :: "nat option"
  fw_watch_open :: bool
  fw_channels :: "'a dest_channel list"
  fw_delivered :: "(nat \<times> 'a) list"

definition ch_is_open :: "nat \<Rightarrow> 'a forwarder \<Rightarrow> bool" where
  "ch_is_open d f \<longleftrightarrow> d < length (fw_channels f) \<and> ch_open (fw_channels f ! d)"

definition ch_is_full :: "nat \<Rightarrow> 'a forwarder \<Rightarrow> bool" where
  "ch_is_full d f \<longleftrightarrow> ch_capacity (fw_channels f ! d) \<le> length (ch_buffer (fw_channels f ! d))"

definition ch_update :: "nat \<Rightarrow> ('a dest_channel \<Rightarrow> 'a dest_channel) \<Rightarrow> 'a forwarder \<Rightarrow> 'a forwarder" where
  "ch_update d g f = f\<lparr>fw_channels := (fw_channels f)[d := g (fw_channels f ! d)]\<rparr>"

text \<open>One step of the task; \<open>None\<close> when it has to wait or has ended.\<close>

definition forward_step :: "'a forwarder \<Rightarrow> 'a forwarder option" where
  "forward_step f =
     (case fw_phase f of
        FW_Receiving \<Rightarrow>
          (case fw_src f of
             msg # rest \<Rightarrow> Some (f\<lparr>fw_phase := FW_Choosing msg, fw_src := rest\<rparr>)
           | [] \<Rightarrow> if fw_src_open f then None else Some (f\<lparr>fw_phase := FW_Ended None\<rparr>))
      | FW_Choosing msg \<Rightarrow>
          (case fw_dest f of
             Some d \<Rightarrow> Some (f\<lparr>fw_phase := FW_Sending d msg\<rparr>)
           | None \<Rightarrow> Some (f\<lparr>fw_phase := FW_Waiting msg\<rparr>))
      | FW_Sending d msg \<Rightarrow>
          if \<not> ch_is_open d f then Some (f\<lparr>fw_phase := FW_Waiting msg\<rparr>)
          else if ch_is_full d f then None
          else Some ((ch_update d (\<lambda>c. c\<lparr>ch_buffer := ch_buffer c @ [msg]\<rparr>) f)
                       \<lparr>fw_phase := FW_Receiving, fw_delivered := fw_delivered f @ [(d, msg)]\<rparr>)
      | FW_Waiting msg \<Rightarrow>
          if fw_seen f \<noteq> fw_version f then
            Some (f\<lparr>fw_seen := fw_version f, fw_phase := FW_Choosing msg\<rparr>)
          else if fw_watch_open f then None
          else Some (f\<lparr>fw_phase := FW_Ended (Some msg)\<rparr>)
      | FW_Ended _ \<Rightarrow> None)"

text \<open>What else happens: the controller sends, connections come, ask for the messages, take them and go.\<close>

datatype 'a fw_label =
    FW_Task
  | FW_Submit 'a
  | FW_Src_Closed
  | FW_New_Channel nat
  | FW_Set_Dest "nat option"
  | FW_Watch_Closed
  | FW_Take nat
  | FW_Channel_Closed nat

fun fw_exec :: "'a fw_label \<Rightarrow> 'a forwarder \<Rightarrow> 'a forwarder option" where
  "fw_exec FW_Task f = forward_step f"
| "fw_exec (FW_Submit a) f =
     (if fw_src_open f \<and> (\<forall>m. fw_phase f \<noteq> FW_Ended m) then Some (f\<lparr>fw_src := fw_src f @ [a]\<rparr>) else None)"
| "fw_exec FW_Src_Closed f = Some (f\<lparr>fw_src_open := False\<rparr>)"
| "fw_exec (FW_New_Channel n) f =
     (if 0 < n then
        Some (f\<lparr>fw_channels := fw_channels f @ [\<lparr>ch_buffer = [], ch_capacity = n, ch_open = True\<rparr>]\<rparr>)
      else None)"
| "fw_exec (FW_Set_Dest d) f =
     (if fw_watch_open f \<and> (\<forall>i. d = Some i \<longrightarrow> i < length (fw_channels f)) then
        Some (f\<lparr>fw_dest := d, fw_version := Suc (fw_version f)\<rparr>)
      else None)"
| "fw_exec FW_Watch_Closed f = Some (f\<lparr>fw_watch_open := False\<rparr>)"
| "fw_exec (FW_Take d) f =
     (if ch_is_open d f \<and> ch_buffer (fw_channels f ! d) \<noteq> [] then
        Some (ch_update d (\<lambda>c. c\<lparr>ch_buffer := tl (ch_buffer c)\<rparr>) f)
      else None)"
| "fw_exec (FW_Channel_Closed d) f =
     (if ch_is_open d f then Some (ch_update d (\<lambda>c. c\<lparr>ch_open := False, ch_buffer := []\<rparr>) f) else None)"

definition fw_start :: "'a forwarder" where
  "fw_start = \<lparr>fw_phase = FW_Receiving, fw_src = [], fw_src_open = True, fw_seen = 0, fw_version = 0,
     fw_dest = None, fw_watch_open = True, fw_channels = [], fw_delivered = []\<rparr>"

fun fw_submitted :: "'a fw_label \<Rightarrow> 'a list" where
  "fw_submitted (FW_Submit a) = [a]"
| "fw_submitted _ = []"

fun fw_in_hand :: "'a fw_phase \<Rightarrow> 'a list" where
  "fw_in_hand FW_Receiving = []"
| "fw_in_hand (FW_Choosing m) = [m]"
| "fw_in_hand (FW_Sending d m) = [m]"
| "fw_in_hand (FW_Waiting m) = [m]"
| "fw_in_hand (FW_Ended m) = (case m of None \<Rightarrow> [] | Some m \<Rightarrow> [m])"

section \<open>Nothing is lost, reordered or stuck\<close>

definition fw_accounted :: "'a forwarder \<Rightarrow> 'a list" where
  "fw_accounted f = map snd (fw_delivered f) @ fw_in_hand (fw_phase f) @ fw_src f"

lemma fw_exec_accounted:
  "fw_exec l f = Some f' \<Longrightarrow> fw_accounted f' = fw_accounted f @ fw_submitted l"
  by (cases l) (auto simp: fw_accounted_def forward_step_def ch_update_def
      split: fw_phase.splits list.splits option.splits if_splits)

lemma fw_run_accounted:
  "runs fw_exec ls f = Some f' \<Longrightarrow> fw_accounted f' = fw_accounted f @ concat (map fw_submitted ls)"
  by (induction ls arbitrary: f) (auto simp: bind_eq_Some_conv dest: fw_exec_accounted)

text \<open>
  What the task has read and not used stays up to date: it waits for a change only when the current
  destination is not there, and ends only when nothing is to come.
\<close>

definition fw_ok :: "'a forwarder \<Rightarrow> bool" where
  "fw_ok f \<longleftrightarrow> fw_seen f \<le> fw_version f \<and> (\<forall>d. fw_dest f = Some d \<longrightarrow> d < length (fw_channels f)) \<and>
     (case fw_phase f of
        FW_Sending d m \<Rightarrow> d < length (fw_channels f) \<and> (fw_seen f = fw_version f \<longrightarrow> fw_dest f = Some d)
      | FW_Waiting m \<Rightarrow> fw_seen f = fw_version f \<longrightarrow> (\<forall>d. fw_dest f = Some d \<longrightarrow> \<not> ch_is_open d f)
      | FW_Ended m \<Rightarrow> if m = None then fw_src f = [] \<and> \<not> fw_src_open f else \<not> fw_watch_open f
      | _ \<Rightarrow> True)"

lemma ch_is_open_simps [simp]:
  "ch_is_open d (f\<lparr>fw_phase := p\<rparr>) = ch_is_open d f"
  "ch_is_open d (f\<lparr>fw_src := s\<rparr>) = ch_is_open d f"
  "ch_is_open d (f\<lparr>fw_src_open := b\<rparr>) = ch_is_open d f"
  "ch_is_open d (f\<lparr>fw_seen := n\<rparr>) = ch_is_open d f"
  "ch_is_open d (f\<lparr>fw_version := n\<rparr>) = ch_is_open d f"
  "ch_is_open d (f\<lparr>fw_dest := e\<rparr>) = ch_is_open d f"
  "ch_is_open d (f\<lparr>fw_watch_open := b\<rparr>) = ch_is_open d f"
  "ch_is_open d (f\<lparr>fw_delivered := xs\<rparr>) = ch_is_open d f"
  "d < length (fw_channels f) \<Longrightarrow> ch_is_open d (f\<lparr>fw_channels := fw_channels f @ cs\<rparr>) = ch_is_open d f"
  by (simp_all add: ch_is_open_def nth_append)

lemma ch_is_open_update [simp]:
  "ch_is_open d (ch_update e g f) \<longleftrightarrow>
     (if d = e then d < length (fw_channels f) \<and> ch_open (g (fw_channels f ! d)) else ch_is_open d f)"
  by (auto simp: ch_is_open_def ch_update_def)

lemma ch_update_simps [simp]:
  "fw_phase (ch_update d g f) = fw_phase f" "fw_src (ch_update d g f) = fw_src f"
  "fw_src_open (ch_update d g f) = fw_src_open f" "fw_seen (ch_update d g f) = fw_seen f"
  "fw_version (ch_update d g f) = fw_version f" "fw_dest (ch_update d g f) = fw_dest f"
  "fw_watch_open (ch_update d g f) = fw_watch_open f" "fw_delivered (ch_update d g f) = fw_delivered f"
  "length (fw_channels (ch_update d g f)) = length (fw_channels f)"
  by (simp_all add: ch_update_def)

lemma fw_step_ok: "fw_ok f \<Longrightarrow> forward_step f = Some f' \<Longrightarrow> fw_ok f'"
  by (auto simp: fw_ok_def forward_step_def split: fw_phase.splits list.splits option.splits if_splits)

lemma fw_exec_ok:
  assumes "fw_ok f" and "fw_exec l f = Some f'"
  shows "fw_ok f'"
proof (cases l)
  case FW_Task
  with assms fw_step_ok show ?thesis by simp
next
  case (FW_Submit a)
  with assms show ?thesis by (cases "fw_phase f") (auto simp: fw_ok_def split: if_split_asm)
next
  case (FW_New_Channel n)
  with assms have "f' = f\<lparr>fw_channels := fw_channels f @ [\<lparr>ch_buffer = [], ch_capacity = n, ch_open = True\<rparr>]\<rparr>"
    by (simp split: if_split_asm)
  with assms(1) show ?thesis by (cases "fw_phase f") (auto simp: fw_ok_def less_SucI)
next
  case (FW_Set_Dest d)
  with assms show ?thesis by (cases "fw_phase f") (auto simp: fw_ok_def split: if_split_asm)
next
  case (FW_Channel_Closed d)
  with assms have "f' = ch_update d (\<lambda>c. c\<lparr>ch_open := False, ch_buffer := []\<rparr>) f" by (simp split: if_split_asm)
  with assms(1) show ?thesis by (cases "fw_phase f") (simp_all add: fw_ok_def)
next
  case (FW_Take d)
  with assms have "ch_is_open d f" "f' = ch_update d (\<lambda>c. c\<lparr>ch_buffer := tl (ch_buffer c)\<rparr>) f"
    by (simp_all split: if_split_asm)
  with assms(1) show ?thesis by (cases "fw_phase f") (auto simp: fw_ok_def)
next
  case FW_Src_Closed
  with assms show ?thesis by (cases "fw_phase f") (auto simp: fw_ok_def)
next
  case FW_Watch_Closed
  with assms show ?thesis by (cases "fw_phase f") (auto simp: fw_ok_def)
qed

lemma fw_start_ok: "fw_ok fw_start"
  by (simp add: fw_start_def fw_ok_def)

lemma fw_run_ok: "runs fw_exec ls fw_start = Some f \<Longrightarrow> fw_ok f"
  by (erule runs_invariant, rule fw_start_ok, erule (1) fw_exec_ok)

text \<open>From each phase, what the task does next on its own when the destination is there.\<close>

definition ch_ready :: "nat \<Rightarrow> 'a forwarder \<Rightarrow> bool" where
  "ch_ready d f \<longleftrightarrow> ch_is_open d f \<and> \<not> ch_is_full d f"

lemma ch_is_full_phase [simp]:
  "ch_is_full d (f\<lparr>fw_phase := p\<rparr>) = ch_is_full d f" "ch_is_full d (f\<lparr>fw_seen := n\<rparr>) = ch_is_full d f"
  by (simp_all add: ch_is_full_def)

lemma step_sending:
  "fw_phase f = FW_Sending d m \<Longrightarrow> ch_ready d f \<Longrightarrow>
     \<exists>f'. forward_step f = Some f' \<and> fw_delivered f' = fw_delivered f @ [(d, m)]"
  by (simp add: forward_step_def ch_ready_def)

lemma step_choosing:
  assumes "fw_phase f = FW_Choosing m" and "fw_dest f = Some d" and "ch_ready d f"
  shows "\<exists>f'. runs fw_exec [FW_Task, FW_Task] f = Some f' \<and> fw_delivered f' = fw_delivered f @ [(d, m)]"
  using assms step_sending [of "f\<lparr>fw_phase := FW_Sending d m\<rparr>" d m]
  by (simp add: ch_ready_def) (simp add: forward_step_def)

lemma step_waiting:
  assumes "fw_ok f" and "fw_phase f = FW_Waiting m" and "fw_dest f = Some d" and "ch_ready d f"
  shows "\<exists>f'. runs fw_exec [FW_Task, FW_Task, FW_Task] f = Some f' \<and> fw_delivered f' = fw_delivered f @ [(d, m)]"
proof -
  from assms have "fw_seen f \<noteq> fw_version f" by (auto simp: fw_ok_def ch_ready_def)
  with assms have "forward_step f = Some (f\<lparr>fw_seen := fw_version f, fw_phase := FW_Choosing m\<rparr>)"
    by (simp add: forward_step_def)
  with step_choosing [of "f\<lparr>fw_seen := fw_version f, fw_phase := FW_Choosing m\<rparr>" m d] assms
  show ?thesis by (simp add: ch_ready_def)
qed

lemma step_from_sending:
  assumes "fw_ok f" and "fw_phase f = FW_Sending d' m" and "fw_dest f = Some d" and "ch_ready d f"
    and "ch_is_open d' f \<longrightarrow> \<not> ch_is_full d' f"
  shows "\<exists>k f' d'. k \<le> 4 \<and> runs fw_exec (replicate k FW_Task) f = Some f' \<and>
    fw_delivered f' = fw_delivered f @ [(d', m)]"
proof (cases "ch_is_open d' f")
  case True
  with assms step_sending [of f d' m] show ?thesis
    by (intro exI [of _ 1]) (auto simp: ch_ready_def)
next
  case False
  let ?g = "f\<lparr>fw_phase := FW_Waiting m\<rparr>"
  have s: "forward_step f = Some ?g" by (simp add: forward_step_def assms(2) False)
  with fw_step_ok [OF assms(1)] have "fw_ok ?g" by blast
  from step_waiting [OF this, of m d] assms(3,4) s show ?thesis
    by (intro exI [of _ 4]) (auto simp: ch_ready_def eval_nat_numeral)
qed

text \<open>Key-exchange requests of the Hydra controller are handed on in order, none twice and none skipped: what was
  delivered, the message in hand and what waits in the source are together what was submitted. The
  message in hand is dropped only when the destinations' sender is gone, and the task ends otherwise
  only when the source is closed and empty. And it does not oversleep: whenever it has a message and the
  current destination can take one, the task delivers the message by at most four steps of its own,
  unless it still waits on an earlier destination that is open but full.\<close>

theorem requests_forwarded:
  assumes "runs fw_exec ls fw_start = Some f"
  shows "map snd (fw_delivered f) @ fw_in_hand (fw_phase f) @ fw_src f = concat (map fw_submitted ls) \<and>
    (\<forall>m. fw_phase f = FW_Ended (Some m) \<longrightarrow> \<not> fw_watch_open f) \<and>
    (fw_phase f = FW_Ended None \<longrightarrow> fw_src f = [] \<and> \<not> fw_src_open f) \<and>
    (\<forall>m d. fw_in_hand (fw_phase f) = [m] \<and> (\<forall>n. fw_phase f \<noteq> FW_Ended n) \<and> fw_dest f = Some d \<and> ch_ready d f \<and>
       (\<forall>d'. fw_phase f = FW_Sending d' m \<longrightarrow> ch_is_open d' f \<longrightarrow> \<not> ch_is_full d' f) \<longrightarrow>
       (\<exists>k f' d'. k \<le> 4 \<and> runs fw_exec (replicate k FW_Task) f = Some f' \<and>
          fw_delivered f' = fw_delivered f @ [(d', m)]))"
proof -
  from fw_run_accounted [OF assms] have "fw_accounted f = concat (map fw_submitted ls)"
    by (simp add: fw_accounted_def fw_start_def)
  moreover from fw_run_ok [OF assms] have ok: "fw_ok f" .
  moreover have "\<exists>k f' d'. k \<le> 4 \<and> runs fw_exec (replicate k FW_Task) f = Some f' \<and>
      fw_delivered f' = fw_delivered f @ [(d', m)]"
    if m: "fw_in_hand (fw_phase f) = [m]" and "\<forall>n. fw_phase f \<noteq> FW_Ended n" and d: "fw_dest f = Some d" "ch_ready d f"
      and free: "\<forall>d'. fw_phase f = FW_Sending d' m \<longrightarrow> ch_is_open d' f \<longrightarrow> \<not> ch_is_full d' f" for m d
    using that(2)
  proof (cases "fw_phase f")
    case (FW_Choosing m')
    with m step_choosing [OF _ d, of m] show ?thesis by (intro exI [of _ 2]) (auto simp: numeral_2_eq_2)
  next
    case (FW_Waiting m')
    with m step_waiting [OF ok _ d, of m] show ?thesis by (intro exI [of _ 3]) (auto simp: numeral_3_eq_3)
  next
    case (FW_Sending d' m')
    with m free show ?thesis using step_from_sending [OF ok _ d] by fastforce
  qed (use m in simp_all)
  ultimately show ?thesis
    by (auto simp: fw_accounted_def fw_ok_def)
qed

definition fw_example :: "nat fw_label list" where
  "fw_example = [FW_Submit 1, FW_Submit 2, FW_Task, FW_Task, FW_New_Channel 1, FW_Set_Dest (Some 0), FW_Task, FW_Task,
     FW_Task, FW_Take 0, FW_Task, FW_Task, FW_Channel_Closed 0, FW_New_Channel 1, FW_Set_Dest (Some 1)]"

theorem requests_forwarded_witness:
  "\<exists>f. runs fw_exec fw_example fw_start = Some f \<and> fw_delivered f = [(0, 1)] \<and> fw_phase f = FW_Sending 0 2 \<and>
    (\<exists>k f' d'. k \<le> 4 \<and> runs fw_exec (replicate k FW_Task) f = Some f' \<and> fw_delivered f' = [(0, 1), (d', 2)])"
proof -
  let ?f = "\<lparr>fw_phase = FW_Sending 0 2, fw_src = [], fw_src_open = True, fw_seen = 1, fw_version = 2,
    fw_dest = Some 1, fw_watch_open = True,
    fw_channels = [\<lparr>ch_buffer = [], ch_capacity = 1, ch_open = False\<rparr>, \<lparr>ch_buffer = [], ch_capacity = 1, ch_open = True\<rparr>],
    fw_delivered = [(0, 1 :: nat)]\<rparr>"
  have f: "runs fw_exec fw_example fw_start = Some ?f"
    by (simp add: fw_example_def fw_start_def forward_step_def ch_is_open_def ch_is_full_def ch_update_def)
  from requests_forwarded [OF f] have "\<exists>k f' d'. k \<le> 4 \<and> runs fw_exec (replicate k FW_Task) ?f = Some f' \<and>
      fw_delivered f' = fw_delivered ?f @ [(d', 2)]"
    by (simp add: ch_ready_def ch_is_open_def ch_is_full_def)
  with f show ?thesis by auto
qed

text \<open>
  What is in the buffer of a destination when its receiver goes away is lost, though: delivered is
  not received.
\<close>

lemma buffered_requests_lost:
  "\<exists>f. runs fw_exec [FW_Submit 1, FW_New_Channel 1, FW_Set_Dest (Some 0), FW_Task, FW_Task, FW_Task, FW_Channel_Closed 0]
      fw_start = Some f \<and> fw_delivered f = [(0, 1 :: nat)] \<and> fw_phase f = FW_Receiving \<and> fw_src f = [] \<and>
    ch_buffer (fw_channels f ! 0) = []"
  by (simp add: fw_start_def forward_step_def ch_is_open_def ch_is_full_def ch_update_def)

section \<open>What a registration returns\<close>

lemma registered_uris:
  assumes "icebreakers_register api response = Inr r"
  shows "\<exists>lbs. sr_load_balancers r = Some lbs \<and> (\<forall>lb \<in> set lbs. \<not> starts_with ''//'' (gw_uri lb))"
  using assms by (auto simp: icebreakers_register_def Let_def result_iff fallback_uri_def starts_with_def
      split: register_response.splits if_splits sum.splits prod.splits)

end
