(* ===== verification/Node_Client.thy ===== *)
theory Node_Client
  imports Platform_Errors Settling_Process
begin

text \<open>
  The platform's connections with its Cardano node, \<open>crates/node\<close>: the state queries and the submission
  of transactions on one connection (\<open>connection.rs\<close>, \<open>transactions.rs\<close>, \<open>sync_progress.rs\<close>) and the pool of
  connections (\<open>pool_manager.rs\<close>). The mini-protocols themselves are a library's: what they answer is
  an input, what they are asked is recorded.
\<close>

section \<open>State queries\<close>

record node_client =
  nc_client :: bool                        \<comment> \<open>\<open>client.is_some()\<close>\<close>
  nc_connection_id :: u64
  nc_unrecoverable_error_happened :: bool
  nc_network_magic :: u64

datatype node_call =
    NC_Acquire
  | NC_Query
  | NC_Release
  | NC_Submit
  | NC_Abort

text \<open>What a local-state client answers to \<open>acquire\<close> and \<open>send_release\<close>.\<close>

record statequery =
  sq_acquire :: "string + unit"
  sq_release :: "string + unit"

text \<open>
  \<open>None\<close> is the panic of \<open>unwrap\<close> on a connection that was given up. The action has a result, or is still
  running after the time-out and is dropped: \<open>None\<close>.
\<close>

definition with_statequery_timeout ::
  "statequery \<Rightarrow> (blockfrost_error + 'a) option \<Rightarrow> nat \<Rightarrow> node_client \<Rightarrow>
     (node_call list \<times> (blockfrost_error + 'a)) option" where
  "with_statequery_timeout sq action duration node =
     (if \<not> nc_client node then None
      else Some (case sq_acquire sq of
          Inl e \<Rightarrow> ([NC_Acquire], Inl (error_of_localstate e))
        | Inr _ \<Rightarrow>
            (case action of
               None \<Rightarrow> ([NC_Acquire, NC_Query],
                        Inl (timeout_error (''Timeout after '' @ show_nat duration @ '' seconds'')))
             | Some result \<Rightarrow>
                 ([NC_Acquire, NC_Query, NC_Release],
                  case sq_release sq of Inl e \<Rightarrow> Inl (error_of_localstate e) | Inr _ \<Rightarrow> result))))"

definition with_statequery ::
  "statequery \<Rightarrow> (blockfrost_error + 'a) option \<Rightarrow> node_client \<Rightarrow>
     (node_call list \<times> (blockfrost_error + 'a)) option" where
  "with_statequery sq action node = with_statequery_timeout sq action 600 node"

text \<open>The action of \<open>ping\<close> is over at once.\<close>

definition ping_node :: "statequery \<Rightarrow> node_client \<Rightarrow> (node_call list \<times> (blockfrost_error + unit)) option" where
  "ping_node sq node = with_statequery_timeout sq (Some (Inr ())) 30 node"

definition invalidate_connection :: "node_client \<Rightarrow> node_client" where
  "invalidate_connection node = node\<lparr>nc_unrecoverable_error_happened := True\<rparr>"

text \<open>An acquired state is released exactly when the action came to an end in time.\<close>

lemma statequery_released_iff:
  assumes "with_statequery_timeout sq action duration node = Some (calls, result)" and "sq_acquire sq = Inr ()"
  shows "NC_Release \<in> set calls \<longleftrightarrow> action \<noteq> None"
  using assms by (auto simp: with_statequery_timeout_def split: if_splits option.splits)

section \<open>Submission of transactions\<close>

datatype submit_response =
    Submit_Accepted
  | Submit_Rejected string     \<comment> \<open>the reason as the node would display it\<close>
  | Submit_Failed string

text \<open>
  The check of the transaction's CBOR and its hash are parameters. \<open>era_query\<close> is the query of the current
  era, whose result is only passed on.
\<close>

definition submit_transaction ::
  "(string \<Rightarrow> blockfrost_error + unit) \<Rightarrow> (string \<Rightarrow> string) \<Rightarrow> (string \<Rightarrow> string) \<Rightarrow>
     statequery \<Rightarrow> (blockfrost_error + u16) option \<Rightarrow> (u16 \<Rightarrow> string \<Rightarrow> submit_response) \<Rightarrow>
     string \<Rightarrow> node_client \<Rightarrow> (node_call list \<times> (blockfrost_error + string) \<times> node_client) option" where
  "submit_transaction validate_tx_cbor hash_cbor hex sq era_query submit_tx tx node =
     (case validate_tx_cbor tx of
        Inl e \<Rightarrow> Some ([], Inl e, node)
      | Inr _ \<Rightarrow>
          (case with_statequery sq era_query node of
             None \<Rightarrow> None
           | Some (calls, Inl e) \<Rightarrow> Some (calls, Inl e, node)
           | Some (calls, Inr current_era) \<Rightarrow>
               Some (case submit_tx current_era tx of
                   Submit_Accepted \<Rightarrow> (calls @ [NC_Submit], Inr (hash_cbor tx), node)
                 | Submit_Rejected reason \<Rightarrow> (calls @ [NC_Submit], Inl (custom_400 reason), node)
                 | Submit_Failed e \<Rightarrow>
                     (calls @ [NC_Submit],
                      Inl (custom_400 (''Error during transaction submission: '' @ e @ '', CBOR: '' @ hex tx)),
                      invalidate_connection node))))"

section \<open>The pool\<close>

text \<open>
  The metrics and the counter of connections, and the connections of the pool, idle or lent. The pool
  makes connections with \<open>create\<close>, asks \<open>recycle\<close> before it lends an idle one again and drops it when
  that fails; these are its documented calls of a \<open>Manager\<close>.
\<close>

record node_metrics =
  nm_initiated :: nat
  nm_failed :: nat
  nm_connections :: int
  nm_connection_counter :: u64

definition pool_create ::
  "u64 \<Rightarrow> string + unit \<Rightarrow> node_metrics \<Rightarrow> (app_error + node_client) \<times> node_metrics" where
  "pool_create network_magic connect m =
     (let connection_id = 1 + nm_connection_counter m;
          m' = m\<lparr>nm_initiated := Suc (nm_initiated m), nm_connection_counter := nm_connection_counter m + 1\<rparr>
      in case connect of
           Inr _ \<Rightarrow> (Inr \<lparr>nc_client = True, nc_connection_id = connection_id,
                          nc_unrecoverable_error_happened = False, nc_network_magic = network_magic\<rparr>,
                     m'\<lparr>nm_connections := nm_connections m' + 1\<rparr>)
         | Inl err \<Rightarrow> (Inl (AE_Node err), m'\<lparr>nm_failed := Suc (nm_failed m')\<rparr>))"

definition pool_recycle ::
  "statequery \<Rightarrow> node_client \<Rightarrow> node_metrics \<Rightarrow>
     (node_call list \<times> (app_error + unit) \<times> node_client \<times> node_metrics) option" where
  "pool_recycle sq node m =
     (case (if nc_unrecoverable_error_happened node then
              Some ([], Inl (AE_Node ''unrecoverable error happened previously''))
            else map_option (map_prod id (map_error (\<lambda>err. AE_Node (show_blockfrost_error err)))) (ping_node sq node)) of
        None \<Rightarrow> None
      | Some (calls, Inr _) \<Rightarrow> Some (calls, Inr (), node, m)
      | Some (calls, Inl err) \<Rightarrow>
          if nc_client node then
            Some (calls @ [NC_Abort], Inl err, node\<lparr>nc_client := False\<rparr>,
                  m\<lparr>nm_failed := Suc (nm_failed m), nm_connections := nm_connections m - 1\<rparr>)
          else None)"

record node_pool =
  np_network_magic :: u64
  np_clients :: "node_client list"
  np_metrics :: node_metrics

datatype pool_step =
    PS_Create "string + unit"
  | PS_Recycle nat statequery
  | PS_Submit nat statequery "(blockfrost_error + u16) option" "u16 \<Rightarrow> string \<Rightarrow> submit_response" string

text \<open>A step of the pool, or \<open>None\<close> when it panics; an index outside the pool is no step.\<close>

definition pool_exec ::
  "(string \<Rightarrow> blockfrost_error + unit) \<Rightarrow> (string \<Rightarrow> string) \<Rightarrow> (string \<Rightarrow> string) \<Rightarrow>
     pool_step \<Rightarrow> node_pool \<Rightarrow> node_pool option" where
  "pool_exec validate_tx_cbor hash_cbor hex l p =
     (case l of
        PS_Create connect \<Rightarrow>
          (let (r, m) = pool_create (np_network_magic p) connect (np_metrics p)
           in Some (p\<lparr>np_metrics := m,
                np_clients := (case r of Inr node \<Rightarrow> np_clients p @ [node] | Inl _ \<Rightarrow> np_clients p)\<rparr>))
      | PS_Recycle i sq \<Rightarrow>
          if i < length (np_clients p) then
            map_option (\<lambda>(calls, r, node, m). p\<lparr>np_metrics := m,
                np_clients := (case r of
                    Inr _ \<Rightarrow> (np_clients p)[i := node]
                  | Inl _ \<Rightarrow> take i (np_clients p) @ drop (Suc i) (np_clients p))\<rparr>)
              (pool_recycle sq (np_clients p ! i) (np_metrics p))
          else Some p
      | PS_Submit i sq era_query submit_tx tx \<Rightarrow>
          if i < length (np_clients p) then
            map_option (\<lambda>(calls, r, node). p\<lparr>np_clients := (np_clients p)[i := node]\<rparr>)
              (submit_transaction validate_tx_cbor hash_cbor hex sq era_query submit_tx tx (np_clients p ! i))
          else Some p)"

definition pool_new :: "u64 \<Rightarrow> node_pool" where
  "pool_new network_magic = \<lparr>np_network_magic = network_magic, np_clients = [],
     np_metrics = \<lparr>nm_initiated = 0, nm_failed = 0, nm_connections = 0, nm_connection_counter = 0\<rparr>\<rparr>"

section \<open>The pool is sound\<close>

definition pool_ok :: "node_pool \<Rightarrow> bool" where
  "pool_ok p \<longleftrightarrow> (\<forall>node \<in> set (np_clients p). nc_client node \<and> nc_network_magic node = np_network_magic p) \<and>
     nm_connections (np_metrics p) = int (length (np_clients p)) \<and>
     nm_initiated (np_metrics p) = length (np_clients p) + nm_failed (np_metrics p)"

lemma ping_node_usable:
  "nc_client node \<Longrightarrow> ping_node sq node = Some (case sq_acquire sq of
      Inl e \<Rightarrow> ([NC_Acquire], Inl (error_of_localstate e))
    | Inr _ \<Rightarrow> ([NC_Acquire, NC_Query, NC_Release],
        case sq_release sq of Inl e \<Rightarrow> Inl (error_of_localstate e) | Inr _ \<Rightarrow> Inr ()))"
  by (simp add: ping_node_def with_statequery_timeout_def split: sum.split)

text \<open>\<open>recycle\<close> of a usable connection never panics; it gives back a connection that answered, or gives it up.\<close>

lemma pool_recycle_usable:
  assumes "nc_client node"
  shows "(\<exists>calls. pool_recycle sq node m = Some (calls, Inr (), node, m) \<and> NC_Release \<in> set calls \<and>
      \<not> nc_unrecoverable_error_happened node) \<or>
    (\<exists>calls err. pool_recycle sq node m = Some (calls @ [NC_Abort], Inl err, node\<lparr>nc_client := False\<rparr>,
      m\<lparr>nm_failed := Suc (nm_failed m), nm_connections := nm_connections m - 1\<rparr>))"
  using assms by (auto simp: pool_recycle_def ping_node_usable split: sum.splits)

lemma pool_recycle_lent:
  assumes "nc_client node" and "pool_recycle sq node m = Some (calls, Inr (), node', m')"
  shows "node' = node \<and> \<not> nc_unrecoverable_error_happened node' \<and> NC_Release \<in> set calls"
  using pool_recycle_usable [OF assms(1), of sq m] assms(2) by auto

lemma submit_transaction_usable:
  assumes "nc_client node"
  shows "\<exists>calls r node'. submit_transaction v h x sq era_query submit_tx tx node = Some (calls, r, node') \<and>
    nc_client node' \<and> nc_network_magic node' = nc_network_magic node \<and>
    (nc_unrecoverable_error_happened node' \<longleftrightarrow> nc_unrecoverable_error_happened node \<or>
      (\<exists>era e. era_query = Some (Inr era) \<and> submit_tx era tx = Submit_Failed e \<and> NC_Submit \<in> set calls))"
  using assms by (auto simp: submit_transaction_def with_statequery_def with_statequery_timeout_def
      invalidate_connection_def split: sum.splits option.splits submit_response.splits)

lemma pool_exec_ok:
  assumes "pool_ok p"
  shows "\<exists>p'. pool_exec v h x l p = Some p' \<and> pool_ok p' \<and> np_network_magic p' = np_network_magic p"
proof (cases l)
  case (PS_Create connect)
  with assms show ?thesis
    by (auto simp: pool_exec_def pool_create_def Let_def pool_ok_def split: sum.splits)
next
  case (PS_Recycle i sq)
  show ?thesis
  proof (cases "i < length (np_clients p)")
    case True
    with assms have "nc_client (np_clients p ! i)" by (simp add: pool_ok_def)
    from pool_recycle_usable [OF this, of sq "np_metrics p"] show ?thesis
    proof (elim disjE exE conjE)
      fix calls assume "pool_recycle sq (np_clients p ! i) (np_metrics p) = Some (calls, Inr (), np_clients p ! i, np_metrics p)"
      with PS_Recycle True assms show ?thesis by (simp add: pool_exec_def)
    next
      fix calls err
      assume "pool_recycle sq (np_clients p ! i) (np_metrics p) = Some (calls @ [NC_Abort], Inl err,
        (np_clients p ! i)\<lparr>nc_client := False\<rparr>,
        (np_metrics p)\<lparr>nm_failed := Suc (nm_failed (np_metrics p)), nm_connections := nm_connections (np_metrics p) - 1\<rparr>)"
      with PS_Recycle True assms show ?thesis
        by (auto simp: pool_exec_def pool_ok_def of_nat_diff dest: in_set_takeD in_set_dropD)
    qed
  qed (use assms PS_Recycle in \<open>simp add: pool_exec_def\<close>)
next
  case (PS_Submit i sq era_query submit_tx tx)
  show ?thesis
  proof (cases "i < length (np_clients p)")
    case True
    with assms have "nc_client (np_clients p ! i)" "nc_network_magic (np_clients p ! i) = np_network_magic p"
      by (simp_all add: pool_ok_def)
    with submit_transaction_usable [of "np_clients p ! i" v h x sq era_query submit_tx tx] obtain calls r node' where
      s: "submit_transaction v h x sq era_query submit_tx tx (np_clients p ! i) = Some (calls, r, node')"
      and node': "nc_client node'" "nc_network_magic node' = np_network_magic p" by auto
    have "\<forall>node \<in> set ((np_clients p)[i := node']). nc_client node \<and> nc_network_magic node = np_network_magic p"
      using assms node' set_update_subset_insert [of "np_clients p" i node'] by (auto simp: pool_ok_def)
    with s assms PS_Submit True show ?thesis by (simp add: pool_exec_def pool_ok_def)
  qed (use assms PS_Submit in \<open>simp add: pool_exec_def\<close>)
qed

text \<open>C38: Whatever the node answers, and however the pool's calls follow each other, a connection of the pool is
  never one that was given up (its \<open>client\<close> is always there, so that no \<open>unwrap\<close> panics), the gauge of
  connections is the number of them, and every attempt to connect is counted as a connection of the pool
  or as failed. A connection is only lent again when it was not marked as broken and when its node
  answered the ping, whose acquired state was released.\<close>

theorem node_pool_sound:
  "\<exists>p. runs (pool_exec v h x) ls (pool_new magic) = Some p \<and> pool_ok p \<and>
    (\<forall>i sq calls node m. i < length (np_clients p) \<longrightarrow>
       pool_recycle sq (np_clients p ! i) (np_metrics p) = Some (calls, Inr (), node, m) \<longrightarrow>
       node = np_clients p ! i \<and> \<not> nc_unrecoverable_error_happened node \<and> NC_Release \<in> set calls)"
proof -
  have "\<exists>p'. runs (pool_exec v h x) ls p = Some p' \<and> pool_ok p'" if "pool_ok p" for p
    using that
  proof (induction ls arbitrary: p)
    case (Cons l ls)
    from pool_exec_ok [OF Cons.prems] obtain q where "pool_exec v h x l p = Some q" "pool_ok q" by blast
    with Cons.IH [of q] show ?case by simp
  qed simp
  moreover have "pool_ok (pool_new magic)" by (simp add: pool_ok_def pool_new_def)
  ultimately obtain p where "runs (pool_exec v h x) ls (pool_new magic) = Some p" "pool_ok p" by blast
  moreover from this(2) have "nc_client (np_clients p ! i)" if "i < length (np_clients p)" for i
    using that by (simp add: pool_ok_def)
  ultimately show ?thesis by (intro exI [of _ p] conjI allI impI) (blast dest: pool_recycle_lent)+
qed

definition node_up :: statequery where
  "node_up = \<lparr>sq_acquire = Inr (), sq_release = Inr ()\<rparr>"

theorem node_pool_sound_witness:
  "\<exists>p. runs (pool_exec (\<lambda>_. Inr ()) id id) [PS_Create (Inr ()),
      PS_Submit 0 node_up (Some (Inr 6)) (\<lambda>_ _. Submit_Failed ''gone'') ''tx'', PS_Create (Inr ()), PS_Recycle 0 node_up]
      (pool_new 2) = Some p \<and> pool_ok p \<and> map nc_connection_id (np_clients p) = [2] \<and>
    (\<forall>calls node m. pool_recycle node_up (np_clients p ! 0) (np_metrics p) = Some (calls, Inr (), node, m) \<longrightarrow>
       NC_Release \<in> set calls)"
proof -
  let ?ls = "[PS_Create (Inr ()),
      PS_Submit 0 node_up (Some (Inr 6)) (\<lambda>_ _. Submit_Failed ''gone'') ''tx'', PS_Create (Inr ()), PS_Recycle 0 node_up]"
  from node_pool_sound [of "\<lambda>_. Inr ()" id id ?ls 2] obtain p where
    p: "runs (pool_exec (\<lambda>_. Inr ()) id id) ?ls (pool_new 2) = Some p" "pool_ok p"
    and lent: "\<forall>i sq calls node m. i < length (np_clients p) \<longrightarrow>
       pool_recycle sq (np_clients p ! i) (np_metrics p) = Some (calls, Inr (), node, m) \<longrightarrow> NC_Release \<in> set calls"
    by blast
  from p(1) have ids: "map nc_connection_id (np_clients p) = [2]"
    by (auto simp: pool_new_def pool_exec_def pool_create_def pool_recycle_def submit_transaction_def
        with_statequery_def with_statequery_timeout_def invalidate_connection_def node_up_def)
  then have "0 < length (np_clients p)" by (cases "np_clients p") auto
  with lent have "\<forall>calls node m. pool_recycle node_up (np_clients p ! 0) (np_metrics p) = Some (calls, Inr (), node, m) \<longrightarrow>
       NC_Release \<in> set calls" by blast
  with p ids show ?thesis by (intro exI [of _ p] conjI)
qed

end
