(* ===== verification/Health_Monitor.thy ===== *)
theory Health_Monitor
  imports Node_Client
begin

text \<open>
  What a platform reports of its own health: the progress of its node (\<open>crates/node/src/sync_progress.rs\<close>),
  the three monitors (\<open>node/src/monitoring\<close>, \<open>data_node/src/node_monitor.rs\<close>) and the loop that
  runs them (\<open>platform/src/health_monitor.rs\<close>). Times are nanoseconds.
\<close>

section \<open>Progress of the node\<close>

record node_info =
  ni_block :: string
  ni_epoch :: u32
  ni_era :: u16
  ni_slot :: u64
  ni_sync_progress :: real

datatype bigint = BI_Int int | BI_Other string      \<comment> \<open>with the \<open>Debug\<close> text\<close>

datatype chain_point = CP_Origin | CP_Specific u64 string      \<comment> \<open>the hash of the block in hex\<close>

definition slot_or_default :: "chain_point \<Rightarrow> u64" where
  "slot_or_default p = (case p of CP_Origin \<Rightarrow> 0 | CP_Specific slot _ \<Rightarrow> slot)"

definition big_int_to_i128 :: "bigint \<Rightarrow> string + int" where
  "big_int_to_i128 i = (case i of BI_Int ii \<Rightarrow> Inr ii | BI_Other s \<Rightarrow> Inl (''cannot convert '' @ s @ '' to i128''))"

definition int_try_from :: "int \<Rightarrow> int \<Rightarrow> int \<Rightarrow> string + int" where
  "int_try_from lo hi i =
     (if lo \<le> i \<and> i \<le> hi then Inr i else Inl ''out of range integral type conversion attempted'')"

text \<open>Division of Rust's signed integers, and \<open>num_seconds\<close>: towards zero.\<close>

definition trunc_div :: "int \<Rightarrow> int \<Rightarrow> int" where
  "trunc_div a b = (if 0 \<le> a then a div b else - ((- a) div b))"

definition num_seconds :: "int \<Rightarrow> int" where
  "num_seconds ns = trunc_div ns 1000000000"

text \<open>
  The genesis values that a library knows of a network, the answers of the node, the calendar of the
  library of dates (the start of a year, and whether a time stamp is in its range) and the clock.
\<close>

record wellknown_genesis =
  wg_absolute_slot_to_relative :: "u64 \<Rightarrow> u64 \<times> u64"
  wg_slot_to_wallclock :: "u64 \<Rightarrow> u64"

record sync_world =
  sw_from_magic :: "u64 \<Rightarrow> wellknown_genesis option"
  sw_system_start :: "blockfrost_error + bigint \<times> int \<times> bigint"    \<comment> \<open>year, day of the year, picoseconds\<close>
  sw_chain_point :: "blockfrost_error + chain_point"
  sw_current_era :: "blockfrost_error + u16"
  sw_block_epoch_number :: "u16 \<Rightarrow> blockfrost_error + u32"
  sw_start_of_year :: "int \<Rightarrow> int option"
  sw_valid_timestamp :: "int \<Rightarrow> bool"
  sw_now :: int
  sw_fl :: "real \<Rightarrow> real"

definition sync_percentage :: "(real \<Rightarrow> real) \<Rightarrow> int \<Rightarrow> int \<Rightarrow> int \<Rightarrow> real" where
  "sync_percentage fl utc_now utc_start utc_slot =
     (let utc_slot_capped = min utc_now utc_slot;
          tolerance = 60
      in if num_seconds (utc_now - utc_slot_capped) < tolerance then 100
         else
           let network_duration = fl (real_of_int (num_seconds (utc_now - utc_start)));
               duration_up_to_slot = fl (real_of_int (num_seconds (utc_slot_capped - utc_start)))
           in fl (real_of_int (f64_round (fl (fl (fl (duration_up_to_slot / network_duration) * 100) * 100))) / 100))"

text \<open>\<open>base_date + days + duration_ns\<close>; times outside the calendar's range panic and are not modelled.\<close>

definition utc_start_of :: "sync_world \<Rightarrow> bigint \<times> int \<times> bigint \<Rightarrow> blockfrost_error + int" where
  "utc_start_of w start =
     (case start of (year, day_of_year, picoseconds_of_day) \<Rightarrow>
        and_then (map_error (\<lambda>e. internal_server_error (''Failed to convert year: '' @ e))
                   (and_then (big_int_to_i128 year) (int_try_from (- (2 ^ 31)) (2 ^ 31 - 1)))) (\<lambda>y.
        and_then (case sw_start_of_year w y of
                    Some base_date \<Rightarrow> Inr base_date
                  | None \<Rightarrow> Inl (internal_server_error ''Invalid base date'')) (\<lambda>base_date.
        and_then (map_error (\<lambda>e. internal_server_error (''Failed to convert picoseconds: '' @ e))
                   (and_then (big_int_to_i128 picoseconds_of_day)
                     (\<lambda>i. int_try_from (- (2 ^ 63)) (2 ^ 63 - 1) (trunc_div i 1000)))) (\<lambda>nanoseconds.
        Inr (base_date + (day_of_year - 1) * 86400000000000 + nanoseconds)))))"

text \<open>The action that \<open>sync_progress\<close> runs on an acquired state.\<close>

definition sync_progress_query :: "sync_world \<Rightarrow> u64 \<Rightarrow> blockfrost_error + node_info" where
  "sync_progress_query w network_magic =
     (case sw_from_magic w network_magic of
        None \<Rightarrow> Inl (internal_server_error
          (''Only well-known networks are supported (unsupported network magic: '' @ show_nat (unat network_magic) @ '')''))
      | Some wellknown \<Rightarrow>
          and_then (sw_system_start w) (\<lambda>system_start.
          and_then (sw_chain_point w) (\<lambda>chain_point.
          let slot = slot_or_default chain_point in
          and_then (utc_start_of w system_start) (\<lambda>utc_start.
          and_then (sw_current_era w) (\<lambda>current_era.
          and_then (if current_era = 0 then Inr (ucast (fst (wg_absolute_slot_to_relative wellknown slot)))
                    else sw_block_epoch_number w current_era) (\<lambda>epoch.
          and_then (map_error (\<lambda>e. internal_server_error (''Failed to convert slot time: '' @ e))
                     (int_try_from (- (2 ^ 63)) (2 ^ 63 - 1) (uint (wg_slot_to_wallclock wellknown slot)))) (\<lambda>slot_time_secs.
          and_then (if sw_valid_timestamp w slot_time_secs then Inr (slot_time_secs * 1000000000)
                    else Inl (internal_server_error ''Invalid slot timestamp'')) (\<lambda>utc_slot.
          Inr \<lparr>ni_block = (case chain_point of CP_Origin \<Rightarrow> [] | CP_Specific _ block \<Rightarrow> block),
               ni_epoch = epoch, ni_era = current_era, ni_slot = slot,
               ni_sync_progress = sync_percentage (sw_fl w) (sw_now w) utc_start utc_slot\<rparr>))))))))"

definition node_sync_progress ::
  "sync_world \<Rightarrow> statequery \<Rightarrow> bool \<Rightarrow> node_client \<Rightarrow> (node_call list \<times> (blockfrost_error + node_info)) option" where
  "node_sync_progress w sq in_time node =
     with_statequery sq (if in_time then Some (sync_progress_query w (nc_network_magic node)) else None) node"

section \<open>The monitors\<close>

record node_monitor =
  mn_errors :: "blockfrost_error list"
  mn_node_info :: "node_info option"

definition node_monitor_update :: "blockfrost_error + node_info \<Rightarrow> node_monitor \<Rightarrow> node_monitor" where
  "node_monitor_update r mon =
     (let (info, errors) = (case r of Inr a \<Rightarrow> (Some a, []) | Inl err \<Rightarrow> (None, [err]))
      in mon\<lparr>mn_errors := errors, mn_node_info := info\<rparr>)"

record chain_monitor =
  cm_last_chain_advancement :: nat
  cm_last_chain_block :: string
  cm_errors :: "blockfrost_error list"

definition CHAIN_STALE_IF_OLDER_THAN :: nat where
  "CHAIN_STALE_IF_OLDER_THAN = 5 * 60 * 1000000000"

definition chain_monitor_new :: "nat \<Rightarrow> chain_monitor" where
  "chain_monitor_new now = \<lparr>cm_last_chain_advancement = now, cm_last_chain_block = replicate 64 (CHR ''0''),
     cm_errors = []\<rparr>"

definition chain_monitor_update ::
  "(nat \<Rightarrow> string) \<Rightarrow> nat \<Rightarrow> node_info option \<Rightarrow> chain_monitor \<Rightarrow> chain_monitor" where
  "chain_monitor_update show_duration now info cm =
     (let cm' = (case info of
            Some i \<Rightarrow> if cm_last_chain_block cm \<noteq> ni_block i
                      then cm\<lparr>cm_last_chain_block := ni_block i, cm_last_chain_advancement := now\<rparr> else cm
          | None \<Rightarrow> cm);
          elapsed = now - cm_last_chain_advancement cm'
      in cm'\<lparr>cm_errors :=
           if elapsed > CHAIN_STALE_IF_OLDER_THAN then
             [internal_server_error (''Chain stuck at '' @ cm_last_chain_block cm' @ '', has not seen updates in ''
                @ show_duration elapsed @ ''.'')]
           else []\<rparr>)"

record data_node_monitor =
  dm_errors :: "blockfrost_error list"
  dm_data_node_info :: "string option"       \<comment> \<open>the root response, as its text\<close>

text \<open>The answers of a data node to the root and the health request.\<close>

record data_node_answers =
  da_root :: "blockfrost_error + string"
  da_health :: "blockfrost_error + bool"

definition data_node_unreachable :: "blockfrost_error \<Rightarrow> blockfrost_error" where
  "data_node_unreachable err = internal_server_error (''Data node unreachable: '' @ show_blockfrost_error err)"

definition data_node_monitor_update :: "data_node_answers option \<Rightarrow> data_node_monitor \<Rightarrow> data_node_monitor" where
  "data_node_monitor_update d mon =
     (case d of
        None \<Rightarrow> mon\<lparr>dm_errors := [], dm_data_node_info := None\<rparr>
      | Some answers \<Rightarrow>
          (case da_root answers of
             Inl err \<Rightarrow> mon\<lparr>dm_data_node_info := None, dm_errors := [data_node_unreachable err]\<rparr>
           | Inr info \<Rightarrow>
               mon\<lparr>dm_data_node_info := Some info,
                   dm_errors := (case da_health answers of
                       Inr is_healthy \<Rightarrow>
                         if is_healthy then []
                         else [internal_server_error ''Data node reports unhealthy status'']
                     | Inl err \<Rightarrow> [data_node_unreachable err])\<rparr>))"

section \<open>The loop\<close>

text \<open>\<open>hm_sources\<close> are the sources that others registered, after those of the three monitors.\<close>

record health_monitor =
  hm_node :: node_monitor
  hm_chain :: chain_monitor
  hm_data_node :: data_node_monitor
  hm_sources :: "blockfrost_error list list"
  hm_previously_healthy :: bool

record health_status =
  hs_healthy :: bool
  hs_errors :: "blockfrost_error list"
  hs_node_info :: "node_info option"
  hs_data_node_info :: "string option"

fun collect_errors :: "blockfrost_error list list \<Rightarrow> blockfrost_error list" where
  "collect_errors [] = []"
| "collect_errors (src # sources) = src @ collect_errors sources"

definition monitor_sources :: "health_monitor \<Rightarrow> blockfrost_error list list" where
  "monitor_sources hm = [mn_errors (hm_node hm), cm_errors (hm_chain hm), dm_errors (hm_data_node hm)]"

definition current_status :: "health_monitor \<Rightarrow> health_status" where
  "current_status hm =
     (let errors = collect_errors (monitor_sources hm @ hm_sources hm)
      in \<lparr>hs_healthy = (errors = []), hs_errors = errors, hs_node_info = mn_node_info (hm_node hm),
          hs_data_node_info = dm_data_node_info (hm_data_node hm)\<rparr>)"

definition num_errors :: "health_monitor \<Rightarrow> u32" where
  "num_errors hm = of_nat (length (collect_errors (monitor_sources hm @ hm_sources hm)))"

definition register_error_source :: "blockfrost_error list \<Rightarrow> health_monitor \<Rightarrow> health_monitor" where
  "register_error_source src hm = hm\<lparr>hm_sources := hm_sources hm @ [src]\<rparr>"

record observation =
  ob_now :: nat
  ob_node :: "blockfrost_error + node_info"
  ob_data_node :: "data_node_answers option"

datatype health_log = HL_Became_Unhealthy | HL_Became_Healthy

text \<open>One round, with what it logs and the seconds until the next one.\<close>

definition health_round ::
  "(nat \<Rightarrow> string) \<Rightarrow> observation \<Rightarrow> health_monitor \<Rightarrow> health_monitor \<times> health_log list \<times> nat" where
  "health_round show_duration ob hm =
     (let hm1 = hm\<lparr>hm_node := node_monitor_update (ob_node ob) (hm_node hm)\<rparr>;
          hm2 = hm1\<lparr>hm_chain := chain_monitor_update show_duration (ob_now ob) (mn_node_info (hm_node hm1)) (hm_chain hm1)\<rparr>;
          hm3 = hm2\<lparr>hm_data_node := data_node_monitor_update (ob_data_node ob) (hm_data_node hm2)\<rparr>;
          node_healthy = (collect_errors (monitor_sources hm3) = [])
      in (hm3\<lparr>hm_previously_healthy := node_healthy\<rparr>,
          if hm_previously_healthy hm3 \<and> \<not> node_healthy then [HL_Became_Unhealthy]
          else if \<not> hm_previously_healthy hm3 \<and> node_healthy then [HL_Became_Healthy] else [],
          if node_healthy then 10 else 2))"

definition health_monitor_new :: "nat \<Rightarrow> health_monitor" where
  "health_monitor_new now =
     \<lparr>hm_node = \<lparr>mn_errors = [], mn_node_info = None\<rparr>, hm_chain = chain_monitor_new now,
      hm_data_node = \<lparr>dm_errors = [], dm_data_node_info = None\<rparr>, hm_sources = [], hm_previously_healthy = True\<rparr>"

fun health_rounds :: "(nat \<Rightarrow> string) \<Rightarrow> observation list \<Rightarrow> health_monitor \<Rightarrow> health_monitor" where
  "health_rounds show_duration [] hm = hm"
| "health_rounds show_duration (ob # obs) hm = health_rounds show_duration obs (fst (health_round show_duration ob hm))"

section \<open>The percentage is one\<close>

lemma num_seconds_mono: "a \<le> b \<Longrightarrow> num_seconds a \<le> num_seconds b"
  by (auto simp: num_seconds_def trunc_div_def zdiv_mono1 intro: order_trans [of _ 0])

lemma f64_round_bounds:
  assumes "0 \<le> x" and "x \<le> real_of_int n"
  shows "0 \<le> f64_round x" and "f64_round x \<le> n"
  using assms by (auto simp: f64_round_def) linarith

text \<open>
  With a rounding that is monotone and exact on the numbers the formula uses, as that of IEEE 754 is, the
  progress lies between 0 and 100 as soon as the node's start is not after its last slot.
\<close>

lemma sync_percentage_bounds:
  assumes "mono fl" and "fl 0 = 0" "fl 1 = 1" "fl 100 = 100" "fl 10000 = 10000"
    and start: "utc_start \<le> min utc_now utc_slot"
  shows "0 \<le> sync_percentage fl utc_now utc_start utc_slot" and "sync_percentage fl utc_now utc_start utc_slot \<le> 100"
proof -
  let ?capped = "min utc_now utc_slot"
  have "0 \<le> sync_percentage fl utc_now utc_start utc_slot \<and> sync_percentage fl utc_now utc_start utc_slot \<le> 100"
  proof (cases "num_seconds (utc_now - ?capped) < 60")
    case False
    let ?n = "fl (real_of_int (num_seconds (utc_now - utc_start)))"
    let ?d = "fl (real_of_int (num_seconds (?capped - utc_start)))"
    have "num_seconds (utc_now - ?capped) \<le> num_seconds (utc_now - utc_start)"
      using start by (intro num_seconds_mono) simp
    with False have "1 \<le> real_of_int (num_seconds (utc_now - utc_start))" by simp
    with assms(1,3) have n: "1 \<le> ?n" by (metis monoD)
    have "0 \<le> real_of_int (num_seconds (?capped - utc_start))"
      using start num_seconds_mono [of 0 "?capped - utc_start"] by (simp add: num_seconds_def trunc_div_def)
    with assms(1,2) have d: "0 \<le> ?d" by (metis monoD)
    have "?d \<le> ?n" using assms(1) num_seconds_mono [of "?capped - utc_start" "utc_now - utc_start"]
      by (intro monoD [OF assms(1)]) simp
    with n d have q: "0 \<le> ?d / ?n" "?d / ?n \<le> 1" by simp_all
    have x: "0 \<le> fl (?d / ?n)" "fl (?d / ?n) \<le> 1" using q assms(1-3) by (metis monoD)+
    have y: "0 \<le> fl (fl (?d / ?n) * 100)" "fl (fl (?d / ?n) * 100) \<le> 100"
      using x monoD [OF assms(1), of 0 "fl (?d / ?n) * 100"] monoD [OF assms(1), of "fl (?d / ?n) * 100" 100] assms(2,4)
      by simp_all
    let ?z = "fl (fl (fl (?d / ?n) * 100) * 100)"
    have z: "0 \<le> ?z" "?z \<le> real_of_int 10000"
      using y monoD [OF assms(1), of 0 "fl (fl (?d / ?n) * 100) * 100"]
        monoD [OF assms(1), of "fl (fl (?d / ?n) * 100) * 100" 10000] assms(2,5) by simp_all
    have r: "0 \<le> real_of_int (f64_round ?z) / 100" "real_of_int (f64_round ?z) / 100 \<le> 100"
      using f64_round_bounds [OF z] by simp_all
    have "0 \<le> fl (real_of_int (f64_round ?z) / 100)" "fl (real_of_int (f64_round ?z) / 100) \<le> 100"
      using monoD [OF assms(1) r(1)] monoD [OF assms(1) r(2)] assms(2,4) by simp_all
    with False show ?thesis by (simp add: sync_percentage_def Let_def)
  qed (simp add: sync_percentage_def Let_def)
  then show "0 \<le> sync_percentage fl utc_now utc_start utc_slot" "sync_percentage fl utc_now utc_start utc_slot \<le> 100"
    by simp_all
qed

section \<open>The status tells what was observed\<close>

text \<open>The blocks that were seen, with their times, the start of the platform first.\<close>

definition seen_blocks :: "nat \<Rightarrow> observation list \<Rightarrow> (nat \<times> string) list" where
  "seen_blocks t0 obs = (t0, replicate 64 (CHR ''0'')) #
     concat (map (\<lambda>ob. case ob_node ob of Inr i \<Rightarrow> [(ob_now ob, ni_block i)] | Inl _ \<Rightarrow> []) obs)"

definition advanced_at :: "(nat \<times> string) list \<Rightarrow> nat \<Rightarrow> bool" where
  "advanced_at xs i \<longleftrightarrow> i < length xs \<and> (i = 0 \<or> snd (xs ! i) \<noteq> snd (xs ! (i - 1)))"

definition tracks_chain :: "(nat \<times> string) list \<Rightarrow> chain_monitor \<Rightarrow> bool" where
  "tracks_chain xs cm \<longleftrightarrow> xs \<noteq> [] \<and> cm_last_chain_block cm = snd (last xs) \<and>
     (\<exists>i. advanced_at xs i \<and> fst (xs ! i) = cm_last_chain_advancement cm \<and> (\<forall>j>i. \<not> advanced_at xs j))"

lemma advanced_at_snoc:
  "xs \<noteq> [] \<Longrightarrow> advanced_at (xs @ [x]) i \<longleftrightarrow> advanced_at xs i \<or> i = length xs \<and> snd x \<noteq> snd (last xs)"
  by (auto simp: advanced_at_def nth_append last_conv_nth less_Suc_eq split: if_splits)

lemma chain_monitor_update_tracks:
  assumes "tracks_chain xs cm"
  shows "tracks_chain (xs @ (case info of Some i \<Rightarrow> [(now, ni_block i)] | None \<Rightarrow> []))
    (chain_monitor_update show_duration now info cm)"
proof (cases "\<exists>i. info = Some i \<and> ni_block i \<noteq> cm_last_chain_block cm")
  case True
  then obtain i where i: "info = Some i" "ni_block i \<noteq> cm_last_chain_block cm" by blast
  have "\<forall>j>length xs. \<not> advanced_at (xs @ [(now, ni_block i)]) j" by (simp add: advanced_at_def)
  with assms i show ?thesis
    by (auto simp: tracks_chain_def chain_monitor_update_def Let_def advanced_at_snoc
        intro!: exI [of _ "length xs"])
next
  case False
  then have "chain_monitor_update show_duration now info cm = cm\<lparr>cm_errors := cm_errors (chain_monitor_update show_duration now info cm)\<rparr>"
    by (auto simp: chain_monitor_update_def Let_def split: option.splits)
  then have cm: "cm_last_chain_block (chain_monitor_update show_duration now info cm) = cm_last_chain_block cm"
    "cm_last_chain_advancement (chain_monitor_update show_duration now info cm) = cm_last_chain_advancement cm"
    by (metis chain_monitor.select_convs(1,2) chain_monitor.surjective chain_monitor.update_convs(3))+
  show ?thesis
  proof (cases info)
    case None
    with assms cm show ?thesis by (simp add: tracks_chain_def)
  next
    case (Some i)
    from assms obtain k where k: "advanced_at xs k" "fst (xs ! k) = cm_last_chain_advancement cm"
      "\<forall>j>k. \<not> advanced_at xs j" "xs \<noteq> []" "cm_last_chain_block cm = snd (last xs)"
      by (auto simp: tracks_chain_def)
    then have "k < length xs" by (simp add: advanced_at_def)
    with k Some False cm show ?thesis
      by (auto simp: tracks_chain_def advanced_at_snoc nth_append intro!: exI [of _ k])
  qed
qed

lemma tracks_chain_errors:
  assumes "tracks_chain xs cm" and "sorted (map fst xs)"
  shows "now - cm_last_chain_advancement cm \<le> n \<longleftrightarrow> (\<exists>i. advanced_at xs i \<and> now - fst (xs ! i) \<le> n)"
proof
  assume "\<exists>i. advanced_at xs i \<and> now - fst (xs ! i) \<le> n"
  then obtain i where i: "advanced_at xs i" "now - fst (xs ! i) \<le> n" by blast
  from assms(1) obtain k where k: "advanced_at xs k" "fst (xs ! k) = cm_last_chain_advancement cm"
    "\<forall>j>k. \<not> advanced_at xs j" by (auto simp: tracks_chain_def)
  from k(3) i(1) have "i \<le> k" by (meson not_le)
  moreover from k(1) have "k < length xs" by (simp add: advanced_at_def)
  ultimately have "fst (xs ! i) \<le> fst (xs ! k)" using assms(2) sorted_nth_mono [of "map fst xs" i k] by simp
  with i(2) k(2) show "now - cm_last_chain_advancement cm \<le> n" by simp
qed (use assms(1) in \<open>auto simp: tracks_chain_def\<close>)

lemma seen_blocks_snoc:
  "seen_blocks t0 (obs @ [ob]) =
     seen_blocks t0 obs @ (case ob_node ob of Inr i \<Rightarrow> [(ob_now ob, ni_block i)] | Inl _ \<Rightarrow> [])"
  by (simp add: seen_blocks_def)

lemma sorted_seen_blocks:
  assumes "sorted (t0 # map ob_now obs)"
  shows "sorted (map fst (seen_blocks t0 obs))"
proof -
  let ?seen = "\<lambda>obs. map fst (concat (map (\<lambda>ob. case ob_node ob of Inr i \<Rightarrow> [(ob_now ob, ni_block i)] | Inl _ \<Rightarrow> []) obs))"
  have "set (?seen obs) \<subseteq> set (map ob_now obs)" for obs
    by (auto split: sum.splits)
  moreover have "sorted (?seen obs)" if "sorted (map ob_now obs)" for obs
    using that calculation by (induction obs) (fastforce split: sum.splits)+
  ultimately show ?thesis using assms by (fastforce simp: seen_blocks_def)
qed

lemma health_rounds_snoc:
  "health_rounds sd (obs @ [ob]) hm = fst (health_round sd ob (health_rounds sd obs hm))"
  by (induction obs arbitrary: hm) simp_all

lemma health_round_fields:
  "mn_node_info (hm_node (fst (health_round sd ob hm))) = (case ob_node ob of Inr i \<Rightarrow> Some i | Inl _ \<Rightarrow> None)"
  "mn_errors (hm_node (fst (health_round sd ob hm))) = (case ob_node ob of Inr _ \<Rightarrow> [] | Inl e \<Rightarrow> [e])"
  "hm_chain (fst (health_round sd ob hm)) =
     chain_monitor_update sd (ob_now ob) (case ob_node ob of Inr i \<Rightarrow> Some i | Inl _ \<Rightarrow> None) (hm_chain hm)"
  "hm_data_node (fst (health_round sd ob hm)) = data_node_monitor_update (ob_data_node ob) (hm_data_node hm)"
  "hm_sources (fst (health_round sd ob hm)) = hm_sources hm"
  "snd (snd (health_round sd ob hm)) =
     (if collect_errors (monitor_sources (fst (health_round sd ob hm))) = [] then 10 else 2)"
  by (auto simp: health_round_def Let_def node_monitor_update_def monitor_sources_def split: sum.splits)

lemma health_rounds_chain:
  "tracks_chain (seen_blocks t0 obs) (hm_chain (health_rounds sd obs ((health_monitor_new t0)\<lparr>hm_sources := srcs\<rparr>)))"
proof (induction obs rule: rev_induct)
  case Nil
  show ?case by (auto simp: tracks_chain_def seen_blocks_def health_monitor_new_def chain_monitor_new_def advanced_at_def)
next
  case (snoc ob obs)
  from chain_monitor_update_tracks [OF this, where info = "case ob_node ob of Inr i \<Rightarrow> Some i | Inl _ \<Rightarrow> None" and now = "ob_now ob" and show_duration = sd]
  show ?case by (auto simp: health_rounds_snoc health_round_fields seen_blocks_snoc split: sum.splits)
qed

lemma health_rounds_sources:
  "hm_sources (health_rounds sd obs hm) = hm_sources hm"
  by (induction obs arbitrary: hm) (simp_all add: health_round_fields)

lemma collect_errors_concat: "collect_errors srcs = concat srcs"
  by (induction srcs) simp_all

lemma chain_monitor_update_errors:
  "cm_errors (chain_monitor_update sd now info cm) = [] \<longleftrightarrow>
     now - cm_last_chain_advancement (chain_monitor_update sd now info cm) \<le> CHAIN_STALE_IF_OLDER_THAN"
  by (auto simp: chain_monitor_update_def Let_def split: option.splits)

definition data_node_fine :: "data_node_answers option \<Rightarrow> bool" where
  "data_node_fine d \<longleftrightarrow> (\<forall>a. d = Some a \<longrightarrow> (\<exists>info. da_root a = Inr info) \<and> da_health a = Inr True)"

lemma data_node_monitor_errors:
  "dm_errors (data_node_monitor_update d mon) = [] \<longleftrightarrow> data_node_fine d"
  by (auto simp: data_node_monitor_update_def data_node_fine_def split: option.splits sum.splits)

definition observed_healthy :: "nat \<Rightarrow> observation list \<Rightarrow> observation \<Rightarrow> bool" where
  "observed_healthy t0 obs ob \<longleftrightarrow> (\<exists>info. ob_node ob = Inr info) \<and> data_node_fine (ob_data_node ob) \<and>
     (\<exists>i. advanced_at (seen_blocks t0 (obs @ [ob])) i \<and>
        ob_now ob - fst (seen_blocks t0 (obs @ [ob]) ! i) \<le> CHAIN_STALE_IF_OLDER_THAN)"

text \<open>C39: What \<open>GET /\<close> and the gateway's health checks are told is what was last observed. After any number of rounds
  the status is healthy exactly when the node answered in the last round, the data node (if there is one)
  answered and called itself healthy, a block that differs from the one seen before it came at most five
  minutes before (or the platform started then), and no other part reports an error. The node's
  figures are shown exactly when it answered. The next round follows after ten seconds when the three
  monitors are content and after two otherwise.\<close>

theorem health_reports_observations:
  assumes "sorted (t0 # map ob_now (obs @ [ob]))"
  shows "let hm0 = (health_monitor_new t0)\<lparr>hm_sources := srcs\<rparr>;
             status = current_status (health_rounds sd (obs @ [ob]) hm0)
         in (hs_healthy status \<longleftrightarrow> observed_healthy t0 obs ob \<and> concat srcs = []) \<and>
            hs_node_info status = (case ob_node ob of Inr i \<Rightarrow> Some i | Inl _ \<Rightarrow> None) \<and>
            snd (snd (health_round sd ob (health_rounds sd obs hm0))) = (if observed_healthy t0 obs ob then 10 else 2)"
proof -
  let ?hm0 = "(health_monitor_new t0)\<lparr>hm_sources := srcs\<rparr>"
  let ?hm = "health_rounds sd (obs @ [ob]) ?hm0"
  have "cm_errors (hm_chain ?hm) = [] \<longleftrightarrow> ob_now ob - cm_last_chain_advancement (hm_chain ?hm) \<le> CHAIN_STALE_IF_OLDER_THAN"
    unfolding health_rounds_snoc health_round_fields by (rule chain_monitor_update_errors)
  with tracks_chain_errors [OF health_rounds_chain sorted_seen_blocks [OF assms], where now = "ob_now ob"]
  have chain: "cm_errors (hm_chain ?hm) = [] \<longleftrightarrow> (\<exists>i. advanced_at (seen_blocks t0 (obs @ [ob])) i \<and>
      ob_now ob - fst (seen_blocks t0 (obs @ [ob]) ! i) \<le> CHAIN_STALE_IF_OLDER_THAN)"
    by blast
  have node: "mn_errors (hm_node ?hm) = [] \<longleftrightarrow> (\<exists>info. ob_node ob = Inr info)"
    by (simp add: health_rounds_snoc health_round_fields split: sum.split)
  have data: "dm_errors (hm_data_node ?hm) = [] \<longleftrightarrow> data_node_fine (ob_data_node ob)"
    by (simp add: health_rounds_snoc health_round_fields data_node_monitor_errors)
  have monitors: "collect_errors (monitor_sources ?hm) = [] \<longleftrightarrow> observed_healthy t0 obs ob"
    by (auto simp: observed_healthy_def monitor_sources_def node chain data)
  moreover have "hm_sources ?hm = srcs" by (simp add: health_rounds_sources)
  ultimately show ?thesis
    by (simp add: Let_def current_status_def collect_errors_concat health_round_fields(6))
      (auto simp: health_rounds_snoc health_round_fields)
qed

theorem health_reports_observations_witness:
  "\<exists>hm i. hm = health_rounds (\<lambda>_. ''5m'') [\<lparr>ob_now = 7, ob_node = Inr i, ob_data_node = None\<rparr>,
      \<lparr>ob_now = 400 * 10 ^ 9, ob_node = Inr i, ob_data_node = None\<rparr>] (health_monitor_new 0) \<and>
    ni_block i = ''ab'' \<and> hs_node_info (current_status hm) = Some i \<and> \<not> hs_healthy (current_status hm)"
proof -
  let ?i = "\<lparr>ni_block = ''ab'', ni_epoch = 1, ni_era = 6, ni_slot = 5, ni_sync_progress = 100\<rparr>"
  let ?a = "\<lparr>ob_now = 7, ob_node = Inr ?i, ob_data_node = None\<rparr>"
  let ?b = "\<lparr>ob_now = 400 * 10 ^ 9, ob_node = Inr ?i, ob_data_node = None\<rparr>"
  let ?hm = "health_rounds (\<lambda>_. ''5m'') [?a, ?b] (health_monitor_new 0)"
  have s: "sorted (0 # map ob_now ([?a] @ [?b]))" by simp
  have n: "(health_monitor_new 0)\<lparr>hm_sources := []\<rparr> = health_monitor_new 0" by (simp add: health_monitor_new_def)
  have "\<not> (\<exists>i. advanced_at (seen_blocks 0 ([?a] @ [?b])) i \<and>
      ob_now ?b - fst (seen_blocks 0 ([?a] @ [?b]) ! i) \<le> CHAIN_STALE_IF_OLDER_THAN)"
    by (auto simp: seen_blocks_def advanced_at_def CHAIN_STALE_IF_OLDER_THAN_def less_Suc_eq nth_Cons')
  then have "\<not> observed_healthy 0 [?a] ?b" unfolding observed_healthy_def by blast
  with health_reports_observations [OF s, of "[]" "\<lambda>_. ''5m''"]
  have "\<not> hs_healthy (current_status ?hm)" and "hs_node_info (current_status ?hm) = Some ?i"
    by (simp_all add: n Let_def)
  then show ?thesis by (intro exI [of _ ?hm] exI [of _ ?i]) simp
qed

end
