(* ===== verification/Process_Group.thy ===== *)
theory Process_Group
  imports Rust_Text
begin

text \<open>
  What the Hydra controllers of all programs share in \<open>crates/common/src/hydra.rs\<close>: ending the process
  group of a hydra-node, and the identity of a machine.
\<close>

section \<open>Ending a process group\<close>

text \<open>
  The calls of \<open>kill\<close>, with the negated group. The world says, for each round of the loop, whether the
  group still exists and how many milliseconds have passed since the start of the loop.
\<close>

datatype group_signal = Sig_Term | Sig_Kill

type_synonym kill_call = "32 word \<times> group_signal"

definition negated_group :: "u32 \<Rightarrow> 32 word" where
  "negated_group pgid = - pgid"

text \<open>The loop, from round \<open>i\<close> on: the signals it sends and the round in which it returns.\<close>

fun wait_for_group ::
  "nat \<Rightarrow> (nat \<Rightarrow> bool) \<Rightarrow> (nat \<Rightarrow> nat) \<Rightarrow> 32 word \<Rightarrow> bool \<Rightarrow> nat \<Rightarrow> (kill_call list \<times> nat) option" where
  "wait_for_group 0 alive elapsed neg escalated i = None"
| "wait_for_group (Suc fuel) alive elapsed neg escalated i =
     (if \<not> alive i then Some ([], i)
      else
        let escalate = (\<not> escalated \<and> elapsed i \<ge> 5000);
            sent = (if escalate then [(neg, Sig_Kill)] else [])
        in if elapsed i \<ge> 10000 then Some (sent, i)
           else map_option (\<lambda>(calls, n). (sent @ calls, n))
                  (wait_for_group fuel alive elapsed neg (escalated \<or> escalate) (Suc i)))"

definition kill_and_wait_process_group ::
  "nat \<Rightarrow> (nat \<Rightarrow> bool) \<Rightarrow> (nat \<Rightarrow> nat) \<Rightarrow> u32 \<Rightarrow> (kill_call list \<times> nat) option" where
  "kill_and_wait_process_group fuel alive elapsed pgid =
     (let neg = negated_group pgid
      in map_option (\<lambda>(calls, n). ((neg, Sig_Term) # calls, n)) (wait_for_group fuel alive elapsed neg False 0))"

text \<open>Each round but the last sleeps 50 ms, so that the round number bounds the time from below.\<close>

definition rounds_sleep :: "(nat \<Rightarrow> nat) \<Rightarrow> bool" where
  "rounds_sleep elapsed \<longleftrightarrow> (\<forall>i. elapsed i + 50 \<le> elapsed (Suc i))"

lemma elapsed_lower_bound:
  assumes "rounds_sleep elapsed"
  shows "50 * i \<le> elapsed i"
proof (induction i)
  case (Suc i)
  moreover from assms have "elapsed i + 50 \<le> elapsed (Suc i)" by (simp add: rounds_sleep_def)
  ultimately show ?case by simp
qed simp

lemma wait_for_group_ends:
  assumes "rounds_sleep elapsed" and "200 < i + fuel" and "i \<le> 200"
  shows "\<exists>calls n. wait_for_group fuel alive elapsed neg escalated i = Some (calls, n) \<and> i \<le> n \<and> n \<le> 200 \<and>
    (\<not> alive n \<or> 10000 \<le> elapsed n) \<and> (\<forall>j. i \<le> j \<longrightarrow> j < n \<longrightarrow> alive j \<and> elapsed j < 10000) \<and>
    calls = (if \<not> escalated \<and> (\<exists>j\<ge>i. j \<le> n \<and> alive j \<and> 5000 \<le> elapsed j) then [(neg, Sig_Kill)] else [])"
  using assms(2,3)
proof (induction fuel arbitrary: i escalated)
  case (Suc fuel)
  show ?case
  proof (cases "alive i \<and> elapsed i < 10000")
    case False
    with Suc.prems show ?thesis by (cases "alive i") (auto simp: Let_def le_antisym)
  next
    case True
    with elapsed_lower_bound [OF assms(1), of i] have "i < 200" by simp
    with Suc.IH [of "Suc i" "escalated \<or> 5000 \<le> elapsed i"] Suc.prems obtain calls n where
      n: "wait_for_group fuel alive elapsed neg (escalated \<or> 5000 \<le> elapsed i) (Suc i) = Some (calls, n)"
      "Suc i \<le> n" "n \<le> 200" "\<not> alive n \<or> 10000 \<le> elapsed n"
      "\<forall>j. Suc i \<le> j \<longrightarrow> j < n \<longrightarrow> alive j \<and> elapsed j < 10000"
      "calls = (if \<not> (escalated \<or> 5000 \<le> elapsed i) \<and> (\<exists>j\<ge>Suc i. j \<le> n \<and> alive j \<and> 5000 \<le> elapsed j)
        then [(neg, Sig_Kill)] else [])"
      by auto
    have esc: "(escalated \<or> \<not> escalated \<and> 5000 \<le> elapsed i) = (escalated \<or> 5000 \<le> elapsed i)" by blast
    have range: "\<And>j P. (\<exists>j\<ge>i. P j) \<longleftrightarrow> P i \<or> (\<exists>j\<ge>Suc i. P j)" by (metis Suc_leD le_eq_less_or_eq less_eq_Suc_le order_refl)
    have all: "\<forall>j. i \<le> j \<longrightarrow> j < n \<longrightarrow> alive j \<and> elapsed j < 10000"
      using n(5) True by (metis le_eq_less_or_eq less_eq_Suc_le)
    show ?thesis
      using True n(1-4) all n(6) by (auto simp: Let_def esc range)
  qed
qed simp

text \<open>Ending a process group returns whatever the group does: SIGTERM is sent at once, the loop makes at most
  201 rounds, and it returns in the first round in which the group is gone or ten seconds have passed.
  SIGKILL is sent exactly once if the group is found alive five seconds or more after the start,
  and otherwise not at all; no other signal is sent, and none to another group.\<close>

theorem process_group_ended:
  assumes "rounds_sleep elapsed" and "200 < fuel"
  shows "\<exists>calls n. kill_and_wait_process_group fuel alive elapsed pgid = Some ((negated_group pgid, Sig_Term) # calls, n) \<and>
    n \<le> 200 \<and> (\<not> alive n \<or> 10000 \<le> elapsed n) \<and> (\<forall>j<n. alive j \<and> elapsed j < 10000) \<and>
    calls = (if \<exists>j\<le>n. alive j \<and> 5000 \<le> elapsed j then [(negated_group pgid, Sig_Kill)] else [])"
  using wait_for_group_ends [OF assms(1), of 0 fuel alive "negated_group pgid" False] assms(2)
  by (auto simp: kill_and_wait_process_group_def Let_def)

theorem process_group_ended_witness:
  "\<exists>calls n. kill_and_wait_process_group 201 (\<lambda>i. i \<le> 120) (\<lambda>i. 60 * i) 7 = Some ((- 7, Sig_Term) # calls, n) \<and>
    n \<le> 200 \<and> (\<not> n \<le> 120 \<or> 10000 \<le> 60 * n)"
  using process_group_ended [of "\<lambda>i. 60 * i" 201 "\<lambda>i. i \<le> 120" 7]
  by (auto simp: negated_group_def rounds_sleep_def)

section \<open>Identity of a machine\<close>

definition machine_id_try_from :: "string \<Rightarrow> nat + string" where
  "machine_id_try_from s =
     (if length s = 64 \<and> list_all (\<lambda>b. b \<in> set ''0123456789abcdef'') s then Inr s else Inl (length s))"

definition show_invalid_machine_id :: "nat \<Rightarrow> string" where
  "show_invalid_machine_id len =
     ''invalid machine_id (len='' @ show_nat len @ ''): expected exactly 64 hex characters''"

text \<open>
  \<open>of_this_host\<close>: the hash function, its lower-case hex digest and the identity of the machine are
  parameters, the latter absent when it cannot be read. \<open>None\<close> is the panic of \<open>expect\<close>.
\<close>

definition machine_id_of_this_host :: "(string \<Rightarrow> string) \<Rightarrow> string option \<Rightarrow> string \<Rightarrow> string option" where
  "machine_id_of_this_host blake3_hex machine_uid fallback =
     (case machine_id_try_from (blake3_hex (''blockfrost.machine-id.v1'' @ '':'' @
             (case machine_uid of Some uid \<Rightarrow> uid | None \<Rightarrow> fallback))) of
        Inr m \<Rightarrow> Some m
      | Inl _ \<Rightarrow> None)"

lemma machine_id_of_this_host_valid:
  assumes "\<And>s. length (blake3_hex s) = 64" and "\<And>s. set (blake3_hex s) \<subseteq> set ''0123456789abcdef''"
  shows "\<exists>m. machine_id_of_this_host blake3_hex uid fallback = Some m \<and> machine_id_try_from m = Inr m"
  using assms by (fastforce simp: machine_id_of_this_host_def machine_id_try_from_def list_all_iff)

end
