(* ===== verification/Gateway_Metrics.thy ===== *)
theory Gateway_Metrics
  imports Lb_Routes
begin

text \<open>
  The metrics page of a gateway, \<open>render_prometheus\<close> of \<open>crates/gateway/src/api/metrics.rs\<close>: a text of one
  line per sample, with names and versions that the relays chose themselves in its labels. The texts of
  UUIDs, of seconds as \<open>f64\<close> and the escaping of labels are the libraries'.
\<close>

section \<open>Samples\<close>

record relay_metrics =
  rm_relay :: string
  rm_api_prefix :: uuid
  rm_network_rtt :: "nat option"
  rm_connected_since_seconds :: int
  rm_requests_sent :: u64
  rm_responses_received :: u64
  rm_requests_in_progress :: u64
  rm_healthy :: "bool option"
  rm_has_data_node :: "bool option"
  rm_version :: "string option"

record pool_status =
  pl_max_size :: nat
  pl_size :: nat
  pl_available :: nat
  pl_waiting :: nat

record metrics_lib =
  ml_sanitize_label_value :: "string \<Rightarrow> string"
  ml_show_uuid :: "uuid \<Rightarrow> string"
  ml_show_seconds :: "nat \<Rightarrow> string"

definition relay_labels :: "metrics_lib \<Rightarrow> relay_metrics \<Rightarrow> string" where
  "relay_labels L r =
     ''{relay='' @ CHR 0x22 # ml_sanitize_label_value L (rm_relay r) @ CHR 0x22 # '',api_prefix=''
       @ CHR 0x22 # ml_show_uuid L (rm_api_prefix r) @ CHR 0x22 # ''}''"

definition show_bit :: "bool \<Rightarrow> string" where
  "show_bit b = (if b then ''1'' else ''0'')"

text \<open>A typographic apostrophe, in UTF-8.\<close>

definition apostrophe :: string where
  "apostrophe = [CHR 0xE2, CHR 0x80, CHR 0x99]"

type_synonym relay_metric = "string \<times> string \<times> string \<times> (relay_metrics \<Rightarrow> string option)"

definition RELAY_METRICS :: "metrics_lib \<Rightarrow> relay_metric list" where
  "RELAY_METRICS L =
    [(''blockfrost_gateway_relay_up'', ''gauge'',
      ''Whether the relay is currently connected (always 1).'', \<lambda>_. Some ''1''),
     (''blockfrost_gateway_relay_healthy'', ''gauge'',
      ''Whether the relay'' @ apostrophe @ ''s Platform reported healthy on the last periodic check (absent until the first check completes).'',
      \<lambda>r. map_option show_bit (rm_healthy r)),
     (''blockfrost_gateway_relay_data_node_up'', ''gauge'',
      ''Whether the relay'' @ apostrophe @ ''s Platform had a data node connected on the last periodic check.'',
      \<lambda>r. map_option show_bit (rm_has_data_node r)),
     (''blockfrost_gateway_relay_network_rtt_seconds'', ''gauge'',
      ''Last measured WebSocket round-trip time to the relay, in seconds.'',
      \<lambda>r. map_option (ml_show_seconds L) (rm_network_rtt r)),
     (''blockfrost_gateway_relay_connected_since_seconds'', ''gauge'',
      ''Unix timestamp (seconds) when the relay connected.'',
      \<lambda>r. Some (show_int (rm_connected_since_seconds r))),
     (''blockfrost_gateway_relay_requests_sent_total'', ''counter'',
      ''Total requests forwarded to the relay since it connected, including the Gateway'' @ apostrophe @ ''s periodic health checks.'',
      \<lambda>r. Some (show_nat (unat (rm_requests_sent r)))),
     (''blockfrost_gateway_relay_responses_received_total'', ''counter'',
      ''Total responses received from the relay since it connected, including responses to the Gateway'' @ apostrophe @ ''s periodic health checks.'',
      \<lambda>r. Some (show_nat (unat (rm_responses_received r)))),
     (''blockfrost_gateway_relay_requests_in_progress'', ''gauge'',
      ''Requests currently in flight to the relay.'',
      \<lambda>r. Some (show_nat (unat (rm_requests_in_progress r))))]"

text \<open>What the shared counters of a session say; \<open>since\<close> is when it connected, as a Unix time stamp.\<close>

definition relay_metrics_of :: "(nat \<Rightarrow> session_counters) \<Rightarrow> (nat \<Rightarrow> int) \<Rightarrow> uuid \<times> relay_state \<Rightarrow> relay_metrics" where
  "relay_metrics_of counters since entry =
     (case entry of (api_prefix, rs) \<Rightarrow>
      case counters (rs_session rs) of (rtt, sent, received, in_progress, health) \<Rightarrow>
        \<lparr>rm_relay = rs_name rs, rm_api_prefix = api_prefix, rm_network_rtt = rtt,
         rm_connected_since_seconds = since (rs_session rs), rm_requests_sent = sent,
         rm_responses_received = received, rm_requests_in_progress = of_nat in_progress,
         rm_healthy = map_option ph_healthy health, rm_has_data_node = Option.bind health ph_has_data_node,
         rm_version = Option.bind health ph_version\<rparr>)"

section \<open>The page\<close>

definition help_lines :: "string \<Rightarrow> string \<Rightarrow> string \<Rightarrow> string list" where
  "help_lines name kind descr = [''# HELP '' @ name @ '' '' @ descr, ''# TYPE '' @ name @ '' '' @ kind]"

definition relay_metric_lines :: "metrics_lib \<Rightarrow> relay_metrics list \<Rightarrow> relay_metric \<Rightarrow> string list" where
  "relay_metric_lines L relays m =
     (case m of (name, kind, descr, v) \<Rightarrow>
        help_lines name kind descr @
        concat (map (\<lambda>r. case v r of Some s \<Rightarrow> [name @ relay_labels L r @ '' '' @ s] | None \<Rightarrow> []) relays))"

definition pool_lines :: "pool_status \<Rightarrow> string list" where
  "pool_lines db_pool = concat (map (\<lambda>(name, descr, n). help_lines name ''gauge'' descr @ [name @ '' '' @ show_nat n])
     [(''blockfrost_gateway_db_pool_max_size'', ''Maximum number of PostgreSQL connections in the pool.'', pl_max_size db_pool),
      (''blockfrost_gateway_db_pool_size'', ''Current number of open PostgreSQL connections in the pool.'', pl_size db_pool),
      (''blockfrost_gateway_db_pool_available'', ''Idle PostgreSQL connections available for immediate use.'', pl_available db_pool),
      (''blockfrost_gateway_db_pool_waiting'', ''Tasks currently waiting for a PostgreSQL connection.'', pl_waiting db_pool)])"

definition version_lines :: "metrics_lib \<Rightarrow> relay_metrics list \<Rightarrow> string list" where
  "version_lines L relays =
     help_lines ''blockfrost_gateway_relay_info'' ''gauge''
       ''Version of the Platform run by the relay, in the `version` label (value is always 1).'' @
     concat (map (\<lambda>r. case rm_version r of
         Some version \<Rightarrow>
           [''blockfrost_gateway_relay_info{relay='' @ CHR 0x22 # ml_sanitize_label_value L (rm_relay r) @ CHR 0x22 #
            '',api_prefix='' @ CHR 0x22 # ml_show_uuid L (rm_api_prefix r) @ CHR 0x22 #
            '',version='' @ CHR 0x22 # ml_sanitize_label_value L version @ CHR 0x22 # ''} 1'']
       | None \<Rightarrow> []) relays)"

definition metrics_lines :: "metrics_lib \<Rightarrow> relay_metrics list \<Rightarrow> pool_status \<Rightarrow> string list" where
  "metrics_lines L relays db_pool =
     help_lines ''blockfrost_gateway_connected_relays'' ''gauge''
       ''Number of relays currently connected via WebSocket.'' @
     [''blockfrost_gateway_connected_relays '' @ show_nat (length relays)] @
     pool_lines db_pool @
     concat (map (relay_metric_lines L relays) (RELAY_METRICS L)) @
     version_lines L relays"

definition render_prometheus ::
  "metrics_lib \<Rightarrow> (nat \<Rightarrow> session_counters) \<Rightarrow> (nat \<Rightarrow> int) \<Rightarrow> load_balancer \<Rightarrow> pool_status \<Rightarrow> string" where
  "render_prometheus L counters since lb db_pool =
     concat (map (\<lambda>l. l @ [CHR 0x0A])
       (metrics_lines L (map (relay_metrics_of counters since) (lb_active_relays lb)) db_pool))"

section \<open>One sample per line\<close>

definition one_line :: "string \<Rightarrow> bool" where
  "one_line s \<longleftrightarrow> CHR 0x0A \<notin> set s"

lemma one_line_simps [simp]:
  "one_line []" "one_line (c # s) \<longleftrightarrow> c \<noteq> CHR 0x0A \<and> one_line s" "one_line (s @ t) \<longleftrightarrow> one_line s \<and> one_line t"
  by (auto simp: one_line_def)

lemma one_line_numbers [simp]: "one_line (show_nat n)" "one_line (show_int z)" "one_line (show_bit b)"
proof -
  have "\<not> is_ascii_digit (CHR 0x0A)" by (simp add: is_ascii_digit_def)
  then have n: "one_line (show_nat n)" for n
    using list_all_show_nat [of n] by (auto simp: one_line_def list_all_iff)
  then show "one_line (show_nat n)" "one_line (show_int z)" by (simp_all add: show_int_def)
  show "one_line (show_bit b)" by (simp add: show_bit_def)
qed

definition metrics_lib_ok :: "metrics_lib \<Rightarrow> bool" where
  "metrics_lib_ok L \<longleftrightarrow> (\<forall>s. one_line (ml_sanitize_label_value L s)) \<and> (\<forall>u. one_line (ml_show_uuid L u)) \<and>
     (\<forall>n. one_line (ml_show_seconds L n))"

lemma split_lines:
  "(\<forall>l \<in> set ls. one_line l) \<Longrightarrow> split_char (CHR 0x0A) (concat (map (\<lambda>l. l @ [CHR 0x0A]) ls)) = ls @ [[]]"
proof (induction ls)
  case (Cons l ls)
  have "one_line l \<Longrightarrow> split_char (CHR 0x0A) (l @ CHR 0x0A # rest) = l # split_char (CHR 0x0A) rest" for rest
    by (induction l) auto
  with Cons show ?case by simp
qed simp

lemma help_lines_one_line:
  "one_line name \<Longrightarrow> one_line kind \<Longrightarrow> one_line descr \<Longrightarrow> \<forall>l \<in> set (help_lines name kind descr). one_line l"
  by (simp add: help_lines_def)

lemma relay_metrics_one_line:
  assumes "metrics_lib_ok L" and "(name, kind, descr, v) \<in> set (RELAY_METRICS L)"
  shows "one_line name" "one_line kind" "one_line descr" "v r = Some s \<Longrightarrow> one_line s"
  using assms by (auto simp: RELAY_METRICS_def apostrophe_def metrics_lib_ok_def)

lemma metrics_lines_one_line:
  assumes "metrics_lib_ok L"
  shows "\<forall>l \<in> set (metrics_lines L relays db_pool). one_line l"
proof -
  have "\<forall>l \<in> set (relay_metric_lines L relays m). one_line l" if "m \<in> set (RELAY_METRICS L)" for m
  proof -
    obtain name kind descr v where m: "m = (name, kind, descr, v)" by (cases m)
    note samples = relay_metrics_one_line [OF assms that [unfolded m]]
    have "one_line (relay_labels L r)" for r
      using assms by (simp add: relay_labels_def metrics_lib_ok_def)
    with samples m show ?thesis
      by (auto simp: relay_metric_lines_def help_lines_def split: option.splits)
  qed
  moreover have "\<forall>l \<in> set (version_lines L relays). one_line l"
    using assms by (auto simp: version_lines_def help_lines_def metrics_lib_ok_def split: option.splits)
  ultimately show ?thesis by (auto simp: metrics_lines_def pool_lines_def help_lines_def)
qed

text \<open>
  The page has exactly the lines it was made of, whatever names and versions the relays gave themselves: as
  long as the library's escaping leaves no line break in a label, no relay can add a sample to the
  page or break one in two.
\<close>

theorem metrics_page_lines:
  assumes "metrics_lib_ok L"
  shows "split_char (CHR 0x0A) (render_prometheus L counters since lb db_pool) =
    metrics_lines L (map (relay_metrics_of counters since) (lb_active_relays lb)) db_pool @ [[]]"
  unfolding render_prometheus_def by (rule split_lines [OF metrics_lines_one_line [OF assms]])

end
