(* ===== verification/Socket_Tasks.thy ===== *)
theory Socket_Tasks
  imports Platform_Connection Sdk_Session
begin

text \<open>
  The tasks between a WebSocket and the event loop of its connection, in the four programs' ends
  (\<open>wire_responses\<close> and \<open>wire_socket\<close> of the gateway, \<open>wire_requests\<close> of the platform, \<open>wire_socket\<close> of
  the SDK bridge): one reads the socket and turns what it gets into events, one writes the messages of the
  loop to the socket. The locale states what the four readers share.
\<close>

section \<open>Frames\<close>

datatype ws_frame =
    WF_Text string
  | WF_Binary string
  | WF_Close
  | WF_Control            \<comment> \<open>ping, pong, or a raw frame\<close>

text \<open>What \<open>next\<close> of the reading half gives.\<close>

datatype socket_read =
    SR_Frame ws_frame
  | SR_Error string
  | SR_End

fun is_final :: "socket_read \<Rightarrow> bool" where
  "is_final (SR_Frame f) \<longleftrightarrow> f = WF_Close"
| "is_final (SR_Error e) \<longleftrightarrow> True"
| "is_final SR_End \<longleftrightarrow> True"

text \<open>
  Sending an event fails when the loop is over. \<open>n\<close> is how many events it still takes; a reader whose
  event was not taken ends.
\<close>

definition last_event :: "nat \<Rightarrow> 'e \<Rightarrow> 'e list" where
  "last_event n e = (if n = 0 then [] else [e])"

section \<open>The readers\<close>

fun lb_read_socket :: "(string \<Rightarrow> relay_message option) \<Rightarrow> nat \<Rightarrow> socket_read list \<Rightarrow> lb_event list" where
  "lb_read_socket from_str n [] = []"
| "lb_read_socket from_str n (SR_Error err # rs) = last_event n (EV_Finish (''socket read error: '' @ err))"
| "lb_read_socket from_str n (SR_End # rs) = last_event n (EV_Finish ''relay disconnected'')"
| "lb_read_socket from_str n (SR_Frame (WF_Text text) # rs) =
     (case from_str text of
        Some msg \<Rightarrow> (case n of 0 \<Rightarrow> [] | Suc n' \<Rightarrow> EV_Relay msg # lb_read_socket from_str n' rs)
      | None \<Rightarrow> lb_read_socket from_str n rs)"
| "lb_read_socket from_str n (SR_Frame (WF_Binary bin) # rs) = lb_read_socket from_str n rs"
| "lb_read_socket from_str n (SR_Frame WF_Close # rs) = last_event n (EV_Finish ''relay disconnected'')"
| "lb_read_socket from_str n (SR_Frame WF_Control # rs) = lb_read_socket from_str n rs"

fun pf_read_socket :: "(string \<Rightarrow> lb_message option) \<Rightarrow> nat \<Rightarrow> socket_read list \<Rightarrow> pf_event list" where
  "pf_read_socket from_str n [] = []"
| "pf_read_socket from_str n (SR_End # rs) = last_event n (PE_Socket_Error ''connection closed'')"
| "pf_read_socket from_str n (SR_Error err # rs) = last_event n (PE_Socket_Error (''stream error: '' @ err))"
| "pf_read_socket from_str n (SR_Frame WF_Close # rs) = last_event n (PE_Socket_Error ''relay disconnected'')"
| "pf_read_socket from_str n (SR_Frame WF_Control # rs) = pf_read_socket from_str n rs"
| "pf_read_socket from_str n (SR_Frame (WF_Binary bin) # rs) = pf_read_socket from_str n rs"
| "pf_read_socket from_str n (SR_Frame (WF_Text text) # rs) =
     (case from_str text of
        Some msg \<Rightarrow> (case n of 0 \<Rightarrow> [] | Suc n' \<Rightarrow> PE_Gateway msg # pf_read_socket from_str n' rs)
      | None \<Rightarrow> pf_read_socket from_str n rs)"

fun bs_read_socket :: "(string \<Rightarrow> bridge_message option) \<Rightarrow> nat \<Rightarrow> socket_read list \<Rightarrow> bridge_event list" where
  "bs_read_socket from_str n [] = []"
| "bs_read_socket from_str n (SR_Error err # rs) = last_event n (BE_Finish (''socket read error: '' @ err))"
| "bs_read_socket from_str n (SR_End # rs) = last_event n (BE_Finish ''bridge disconnected'')"
| "bs_read_socket from_str n (SR_Frame (WF_Text text) # rs) =
     (case from_str text of
        Some msg \<Rightarrow> (case n of 0 \<Rightarrow> [] | Suc n' \<Rightarrow> BE_Bridge msg # bs_read_socket from_str n' rs)
      | None \<Rightarrow> bs_read_socket from_str n rs)"
| "bs_read_socket from_str n (SR_Frame (WF_Binary bin) # rs) = bs_read_socket from_str n rs"
| "bs_read_socket from_str n (SR_Frame WF_Close # rs) = last_event n (BE_Finish ''bridge disconnected'')"
| "bs_read_socket from_str n (SR_Frame WF_Control # rs) = bs_read_socket from_str n rs"

fun ws_read_socket :: "(string \<Rightarrow> gateway_message option) \<Rightarrow> nat \<Rightarrow> socket_read list \<Rightarrow> ws_event list" where
  "ws_read_socket from_str n [] = []"
| "ws_read_socket from_str n (SR_End # rs) = last_event n (WE_Socket_Error ''connection closed'')"
| "ws_read_socket from_str n (SR_Error err # rs) = last_event n (WE_Socket_Error (''stream error: '' @ err))"
| "ws_read_socket from_str n (SR_Frame WF_Close # rs) = last_event n (WE_Socket_Error ''gateway disconnected'')"
| "ws_read_socket from_str n (SR_Frame WF_Control # rs) = ws_read_socket from_str n rs"
| "ws_read_socket from_str n (SR_Frame (WF_Binary bin) # rs) = ws_read_socket from_str n rs"
| "ws_read_socket from_str n (SR_Frame (WF_Text text) # rs) =
     (case from_str text of
        Some msg \<Rightarrow> (case n of 0 \<Rightarrow> [] | Suc n' \<Rightarrow> WE_Gateway msg # ws_read_socket from_str n' rs)
      | None \<Rightarrow> ws_read_socket from_str n rs)"

section \<open>The writer\<close>

text \<open>The same task in all four: messages go out until one fails; \<open>oks\<close> says whether each \<open>send\<close> works.\<close>

fun write_socket :: "'m list \<Rightarrow> bool list \<Rightarrow> 'm list" where
  "write_socket (msg # msgs) (ok # oks) = (if ok then msg # write_socket msgs oks else [])"
| "write_socket _ _ = []"

lemma write_socket_prefix: "prefix (write_socket msgs oks) msgs"
  by (induction msgs oks rule: write_socket.induct) auto

section \<open>What a reader gives to its loop\<close>

text \<open>The messages before the end of the socket, and the end.\<close>

fun messages_of :: "(string \<Rightarrow> 'm option) \<Rightarrow> socket_read list \<Rightarrow> 'm list" where
  "messages_of from_str [] = []"
| "messages_of from_str (r # rs) =
     (if is_final r then []
      else (case r of SR_Frame (WF_Text text) \<Rightarrow> (case from_str text of Some m \<Rightarrow> [m] | None \<Rightarrow> []) | _ \<Rightarrow> [])
           @ messages_of from_str rs)"

locale socket_reader =
  fixes read :: "(string \<Rightarrow> 'm option) \<Rightarrow> nat \<Rightarrow> socket_read list \<Rightarrow> 'e list"
    and message :: "'m \<Rightarrow> 'e"
    and finish :: "socket_read \<Rightarrow> 'e"
  assumes read_Nil: "read from_str n [] = []"
    and read_final: "is_final r \<Longrightarrow> read from_str n (r # rs) = last_event n (finish r)"
    and read_text: "read from_str n (SR_Frame (WF_Text text) # rs) =
        (case from_str text of
           Some msg \<Rightarrow> (case n of 0 \<Rightarrow> [] | Suc n' \<Rightarrow> message msg # read from_str n' rs)
         | None \<Rightarrow> read from_str n rs)"
    and read_binary: "read from_str n (SR_Frame (WF_Binary bin) # rs) = read from_str n rs"
    and read_control: "read from_str n (SR_Frame WF_Control # rs) = read from_str n rs"
begin

lemma reads:
  "read from_str n rs =
     take n (map message (messages_of from_str rs) @ map finish (take 1 (filter is_final rs)))"
proof (induction rs arbitrary: n)
  case (Cons r rs)
  show ?case
  proof (cases "is_final r")
    case True
    then show ?thesis by (simp add: read_final last_event_def)
  next
    case False
    then obtain f where r: "r = SR_Frame f" and "f \<noteq> WF_Close" by (cases r) auto
    then show ?thesis using Cons.IH
      by (cases f) (auto simp: read_text read_binary read_control split: option.splits nat.splits)
  qed
qed (simp add: read_Nil)

end

fun lb_finish_event :: "socket_read \<Rightarrow> lb_event" where
  "lb_finish_event (SR_Error err) = EV_Finish (''socket read error: '' @ err)"
| "lb_finish_event _ = EV_Finish ''relay disconnected''"

fun pf_finish_event :: "socket_read \<Rightarrow> pf_event" where
  "pf_finish_event (SR_Error err) = PE_Socket_Error (''stream error: '' @ err)"
| "pf_finish_event SR_End = PE_Socket_Error ''connection closed''"
| "pf_finish_event _ = PE_Socket_Error ''relay disconnected''"

fun bs_finish_event :: "socket_read \<Rightarrow> bridge_event" where
  "bs_finish_event (SR_Error err) = BE_Finish (''socket read error: '' @ err)"
| "bs_finish_event _ = BE_Finish ''bridge disconnected''"

fun ws_finish_event :: "socket_read \<Rightarrow> ws_event" where
  "ws_finish_event (SR_Error err) = WE_Socket_Error (''stream error: '' @ err)"
| "ws_finish_event SR_End = WE_Socket_Error ''connection closed''"
| "ws_finish_event _ = WE_Socket_Error ''gateway disconnected''"

interpretation lbr: socket_reader lb_read_socket EV_Relay lb_finish_event
proof
  fix r :: socket_read and from_str n rs
  show "is_final r \<Longrightarrow> lb_read_socket from_str n (r # rs) = last_event n (lb_finish_event r)"
    by (cases r) auto
qed simp_all

interpretation pfr: socket_reader pf_read_socket PE_Gateway pf_finish_event
proof
  fix r :: socket_read and from_str n rs
  show "is_final r \<Longrightarrow> pf_read_socket from_str n (r # rs) = last_event n (pf_finish_event r)"
    by (cases r) auto
qed simp_all

interpretation bsr: socket_reader bs_read_socket BE_Bridge bs_finish_event
proof
  fix r :: socket_read and from_str n rs
  show "is_final r \<Longrightarrow> bs_read_socket from_str n (r # rs) = last_event n (bs_finish_event r)"
    by (cases r) auto
qed simp_all

interpretation wsr: socket_reader ws_read_socket WE_Gateway ws_finish_event
proof
  fix r :: socket_read and from_str n rs
  show "is_final r \<Longrightarrow> ws_read_socket from_str n (r # rs) = last_event n (ws_finish_event r)"
    by (cases r) auto
qed simp_all

section \<open>From one loop to the other\<close>

fun text_of :: "socket_read \<Rightarrow> string list" where
  "text_of (SR_Frame (WF_Text text)) = [text]"
| "text_of _ = []"

text \<open>
  A WebSocket delivers the text messages in the order they were written, among control frames, up to
  where it breaks: what is read before the end is an initial part of what was written.
\<close>

definition socket_carries :: "string list \<Rightarrow> socket_read list \<Rightarrow> bool" where
  "socket_carries written rs \<longleftrightarrow>
     prefix (concat (map text_of (takeWhile (\<lambda>r. \<not> is_final r) rs))) written"

lemma messages_of_texts:
  "messages_of from_str rs = concat (map (\<lambda>t. case from_str t of Some m \<Rightarrow> [m] | None \<Rightarrow> [])
     (concat (map text_of (takeWhile (\<lambda>r. \<not> is_final r) rs))))"
proof (induction rs)
  case (Cons r rs)
  then show ?case by (cases r rule: text_of.cases) auto
qed simp

lemma carried_messages:
  assumes "\<forall>m \<in> set msgs. from_str (to_string m) = Some m"
    and "socket_carries (map to_string (write_socket msgs oks)) rs"
  shows "prefix (messages_of from_str rs) msgs"
proof -
  from assms(2) obtain sent where s: "prefix sent (write_socket msgs oks)"
    "concat (map text_of (takeWhile (\<lambda>r. \<not> is_final r) rs)) = map to_string sent"
    unfolding socket_carries_def prefix_def by (metis map_eq_append_conv)
  from s(1) write_socket_prefix have "set sent \<subseteq> set msgs" by (meson set_mono_prefix prefix_order.trans)
  then have "messages_of from_str rs = sent" unfolding messages_of_texts s(2)
    by (induction sent) (simp_all add: assms(1))
  with s(1) write_socket_prefix show ?thesis by (metis prefix_order.trans)
qed

lemma prefix_take_map:
  assumes "prefix ms msgs"
  shows "\<exists>k. \<forall>rest. take n (map f ms @ rest) = map f (take k msgs) @ take (n - length ms) rest"
proof -
  from assms obtain zs where "msgs = ms @ zs" by (auto simp: prefix_def)
  then show ?thesis by (intro exI [of _ "min n (length ms)"]) (auto simp: take_map min_def)
qed

lemma at_most_one:
  assumes "\<And>r. \<exists>t. f r = C t"
  shows "\<exists>e. take m (map f (take 1 xs)) = map C e \<and> length e \<le> 1"
proof (cases xs)
  case (Cons x ys)
  from assms obtain t where t: "f x = C t" by blast
  show ?thesis
  proof (cases m)
    case (Suc k)
    with Cons t show ?thesis by (intro exI [of _ "[t]"]) simp
  qed simp
qed simp

text \<open>
  Between a gateway and a platform, in both directions: the events that a loop gets from its socket are the
  first of the messages that the other loop sent, in their order, none twice and none changed, and after
  them at most one event that the connection has ended. This is what the tunnel and the conservation of
  requests assume of the connection.
\<close>

theorem gateway_platform_in_order:
  assumes "\<forall>m \<in> set to_platform. lm_from_str (lm_to_string m) = Some m"
    and "\<forall>m \<in> set to_gateway. rm_from_str (rm_to_string m) = Some m"
    and "socket_carries (map lm_to_string (write_socket to_platform oks)) down"
    and "socket_carries (map rm_to_string (write_socket to_gateway oks')) up"
  shows "(\<exists>k e. pf_read_socket lm_from_str n down = map PE_Gateway (take k to_platform) @ map PE_Socket_Error e \<and> length e \<le> 1) \<and>
    (\<exists>k e. lb_read_socket rm_from_str n' up = map EV_Relay (take k to_gateway) @ map EV_Finish e \<and> length e \<le> 1)"
proof -
  have pf: "\<exists>t. pf_finish_event r = PE_Socket_Error t" for r
    by (cases r rule: pf_finish_event.cases) auto
  have lb: "\<exists>t. lb_finish_event r = EV_Finish t" for r
    by (cases r rule: lb_finish_event.cases) auto
  from prefix_take_map [OF carried_messages [OF assms(1,3)], of n PE_Gateway] obtain k where
    k: "\<And>rest. take n (map PE_Gateway (messages_of lm_from_str down) @ rest) =
      map PE_Gateway (take k to_platform) @ take (n - length (messages_of lm_from_str down)) rest" by blast
  from prefix_take_map [OF carried_messages [OF assms(2,4)], of n' EV_Relay] obtain k' where
    k': "\<And>rest. take n' (map EV_Relay (messages_of rm_from_str up) @ rest) =
      map EV_Relay (take k' to_gateway) @ take (n' - length (messages_of rm_from_str up)) rest" by blast
  from at_most_one [of pf_finish_event PE_Socket_Error, OF pf] at_most_one [of lb_finish_event EV_Finish, OF lb]
  show ?thesis
    unfolding pfr.reads lbr.reads k k' by blast
qed

end
