(* ===== verification/Relay_End_To_End.thy ===== *)
theory Relay_End_To_End
  imports Lb_Connection_Correct Platform_Connection_Correct Socket_Tasks
begin

text \<open>
  The two ends of a relay's connection together: the loop of the gateway (\<open>Lb_Connection\<close>), the loop of the
  platform with its router (\<open>Platform_Connection\<close>) and the WebSocket between them (\<open>Socket_Tasks\<close>). Each end
  is only known by a run of its own; the sockets relate what one receives to what the other sent.
\<close>

section \<open>What the gateway's loop gives out\<close>

text \<open>
  \<open>R\<close> are the requests that were given to the loop and \<open>A\<close> the responses that came from the socket.
\<close>

definition gateway_failure :: "request_state \<Rightarrow> json_response \<Rightarrow> bool" where
  "gateway_failure rq r \<longleftrightarrow> jr_id r = jq_id (rq_underlying rq) \<and> jr_code r \<in> {400, 502} \<and> jr_header r = []"

fun effect_ok :: "request_state set \<Rightarrow> json_response set \<Rightarrow> lb_effect \<Rightarrow> bool" where
  "effect_ok R A (LE_Send (LM_Request q)) \<longleftrightarrow> q \<in> rq_underlying ` R"
| "effect_ok R A (LE_Respond rq r) \<longleftrightarrow>
     rq \<in> R \<and> jr_id r = jq_id (rq_underlying rq) \<and> (r \<in> A \<or> gateway_failure rq r)"
| "effect_ok R A _ \<longleftrightarrow> True"

definition table_ok :: "request_state set \<Rightarrow> lb_conn \<Rightarrow> bool" where
  "table_ok R s \<longleftrightarrow> hash_ok (lc_in_progress s) \<and>
     (\<forall>(k, rq) \<in> set (lc_in_progress s). rq \<in> R \<and> k = jq_id (rq_underlying rq))"

definition event_ok :: "request_state set \<Rightarrow> json_response set \<Rightarrow> lb_event \<Rightarrow> bool" where
  "event_ok R A e = (case e of EV_New_Request rq \<Rightarrow> rq \<in> R | EV_Relay (RM_Response r) \<Rightarrow> r \<in> A | _ \<Rightarrow> True)"

lemma table_ok_get:
  "table_ok R s \<Longrightarrow> hash_get k (lc_in_progress s) = Some rq \<Longrightarrow> rq \<in> R \<and> k = jq_id (rq_underlying rq)"
  by (auto simp: table_ok_def hash.get_entries)

lemma table_ok_cong: "lc_in_progress s' = lc_in_progress s \<Longrightarrow> table_ok R s' = table_ok R s"
  by (simp add: table_ok_def)

lemma table_ok_remove:
  assumes "table_ok R s" and "lc_in_progress s' = hash_remove k (lc_in_progress s)"
  shows "table_ok R s'"
  using assms by (auto simp: table_ok_def hash.ok_remove hash.set_entries_remove)

lemma table_ok_insert:
  assumes "table_ok R s" and "rq \<in> R" and "lc_in_progress s' = hash_insert (jq_id (rq_underlying rq)) rq (lc_in_progress s)"
  shows "table_ok R s'"
  using assms by (auto simp: table_ok_def hash.ok_put hash.set_entries_put)

lemma gateway_failure_of: "code \<in> {400, 502} \<Longrightarrow> rq \<in> R \<Longrightarrow> effect_ok R A (fail_request L rq code why)"
  by (auto simp: fail_request_def gateway_failure_def)

lemma pass_on_request_ok:
  assumes t: "table_ok R s" and rq: "rq \<in> R" and h: "pass_on_request v rq s = (s', fx, go)"
  shows "table_ok R s' \<and> list_all (effect_ok R A) fx"
proof -
  let ?k = "jq_id (rq_underlying rq)"
  let ?s1 = "s\<lparr>lc_in_progress := hash_insert ?k rq (lc_in_progress s)\<rparr>"
  have t1: "table_ok R ?s1" using t rq by (rule table_ok_insert) simp
  have ok: "hash_ok (lc_in_progress s)" using t by (simp add: table_ok_def)
  have get: "hash_get ?k (hash_insert ?k rq (lc_in_progress s)) = Some rq" by (simp add: hash.get_put ok)
  have drop: "list_all (effect_ok R A)
      (case hash_get ?k (lc_in_progress s) of None \<Rightarrow> [] | Some old \<Rightarrow> [LE_Drop old])"
    by (simp split: option.splits)
  show ?thesis
  proof (cases "en_socket_open v")
    case True
    with h have "s' = ?s1\<lparr>lc_requests_sent := lc_requests_sent ?s1 + 1\<rparr>"
      "fx = (case hash_get ?k (lc_in_progress s) of None \<Rightarrow> [] | Some old \<Rightarrow> [LE_Drop old]) @ [LE_Send (LM_Request (rq_underlying rq))]"
      by (simp_all add: pass_on_request_def Let_def lb_send_def)
    with t1 drop rq show ?thesis by (simp add: table_ok_def)
  next
    case False
    with h get have "s' = ?s1\<lparr>lc_in_progress := hash_remove ?k (lc_in_progress ?s1)\<rparr>"
      and fx: "\<exists>why. fx = (case hash_get ?k (lc_in_progress s) of None \<Rightarrow> [] | Some old \<Rightarrow> [LE_Drop old]) @
        [fail_request (en_http v) rq 400 why]"
      by (auto simp: pass_on_request_def Let_def lb_send_def)
    from this(1) have "table_ok R s'" by (intro table_ok_remove [OF t1, of _ ?k]) simp
    with fx drop gateway_failure_of [OF _ rq] show ?thesis by auto
  qed
qed

lemma pass_on_response_ok:
  assumes t: "table_ok R s" and r: "r \<in> A" and h: "pass_on_response r s = (s', fx, b)"
  shows "table_ok R s' \<and> list_all (effect_ok R A) fx"
proof (cases "hash_get (jr_id r) (lc_in_progress s)")
  case None
  with h t show ?thesis by (auto simp: pass_on_response_def)
next
  case (Some rq)
  with h have "lc_in_progress s' = hash_remove (jr_id r) (lc_in_progress s)" and "fx = [LE_Respond rq r]"
    by (auto simp: pass_on_response_def)
  with table_ok_get [OF t Some] table_ok_remove [OF t] r show ?thesis by simp
qed

lemma kex_effects_ok:
  assumes "lb_on_kex_request v req s = (s', fx, go)"
  shows "lc_in_progress s' = lc_in_progress s \<and> list_all (effect_ok R A) fx"
proof -
  obtain s1 fx1 where d: "lb_drop_controller v s = (s1, fx1)" by fastforce
  obtain s2 fx2 reply where k: "lb_kex_reply v req s1 = (s2, fx2, reply)" by (cases "lb_kex_reply v req s1")
  have 1: "list_all (effect_ok R A) fx1"
    using d by (auto simp: lb_drop_controller_def split: option.splits if_splits)
  have 2: "list_all (effect_ok R A) fx2 \<and> (\<forall>m. reply = Some m \<longrightarrow> effect_ok R A (LE_Send m))"
    using k by (auto simp: lb_kex_reply_def setup_error_def Let_def split: option.splits sum.splits prod.splits if_splits)
  have "list_all (effect_ok R A) fx"
    using assms 1 2 by (auto simp: lb_on_kex_request_def d k lb_send_def split: option.splits if_splits)
  with kex_untouched [OF assms] show ?thesis by simp
qed

lemma lb_handle_ok:
  assumes t: "table_ok R s" and e: "event_ok R A e" and h: "lb_handle v e s = (s', fx, go)"
  shows "table_ok R s' \<and> list_all (effect_ok R A) fx"
proof (cases e)
  case (EV_New_Request rq)
  with e h pass_on_request_ok [OF t] show ?thesis by (simp add: event_ok_def)
next
  case (EV_Relay m)
  show ?thesis
  proof (cases m)
    case (RM_Response r)
    obtain s1 fx1 b where p: "pass_on_response r s = (s1, fx1, b)" by (cases "pass_on_response r s")
    have "s' = s1" "fx = fx1 \<or> fx = fx1 @ [LE_Account_One_Request]"
      using h by (auto simp: EV_Relay RM_Response lb_on_response_def p split: if_splits)
    with pass_on_response_ok [OF t _ p, of A] e show ?thesis by (auto simp: EV_Relay RM_Response event_ok_def)
  next
    case (RM_HydraKExRequest req)
    with EV_Relay h have "lb_on_kex_request v req s = (s', fx, go)" by simp
    from kex_effects_ok [OF this] have "lc_in_progress s' = lc_in_progress s" "list_all (effect_ok R A) fx" by simp_all
    with t table_ok_cong [of s' s R] show ?thesis by simp
  qed (use h t in \<open>auto simp: EV_Relay lb_send_def lb_on_pong_def table_ok_def split: option.splits if_splits\<close>)
qed (use h t in \<open>auto simp: lb_on_ping_tick_def Let_def lb_send_def table_ok_def split: option.splits if_splits\<close>)

lemma lb_drain_ok:
  "table_ok R s \<Longrightarrow> list_all (event_ok R A) es \<Longrightarrow> lb_drain L reason es s = (s', fx) \<Longrightarrow>
    table_ok R s' \<and> list_all (effect_ok R A) fx"
proof (induction L reason es s arbitrary: s' fx rule: lb_drain.induct)
  case (2 L reason rq es s)
  obtain s1 fx1 where d: "lb_drain L reason es s = (s1, fx1)" by fastforce
  with 2 gateway_failure_of [of 502 rq R A] show ?case by (auto simp: event_ok_def)
next
  case (3 L reason r es s)
  obtain s1 fx1 b where p: "pass_on_response r s = (s1, fx1, b)" by (cases "pass_on_response r s")
  obtain s2 fx2 where d: "lb_drain L reason es s1 = (s2, fx2)" by fastforce
  from 3(3) have "r \<in> A" by (simp add: event_ok_def)
  from pass_on_response_ok [OF 3(2) this p] 3(1) [OF p [symmetric] refl refl _ _ d] 3(3,4) p d show ?case by auto
qed (auto simp: event_ok_def)

lemma lb_finish_ok:
  assumes "table_ok R s" and "list_all (event_ok R A) es" and "lb_finish L es s = (s', fx)"
  shows "table_ok R s' \<and> list_all (effect_ok R A) fx"
proof -
  let ?reason = "case lc_disconnection_reason s of Some r \<Rightarrow> r | None \<Rightarrow> ''reason unknown''"
  obtain s1 fx1 where d: "lb_drain L ?reason es (s\<lparr>lc_hydra_controller := None\<rparr>) = (s1, fx1)" by fastforce
  have t1: "table_ok R s1 \<and> list_all (effect_ok R A) fx1"
    using lb_drain_ok [OF _ assms(2) d] assms(1) by (simp add: table_ok_def)
  then have rest: "list_all (effect_ok R A)
      (map (\<lambda>(_, rq). fail_request L rq 502 why) (lc_in_progress s1))" for why
    using gateway_failure_of [of 502 _ R A] by (auto simp: table_ok_def list_all_iff)
  have "table_ok R (s1\<lparr>lc_in_progress := []\<rparr>)" by (simp add: table_ok_def hash.ok_empty)
  with assms(3) d t1 rest show ?thesis by (auto simp: lb_finish_def Let_def)
qed

definition lb_origin_ok :: "request_state set \<Rightarrow> json_response set \<Rightarrow> lb_process \<Rightarrow> bool" where
  "lb_origin_ok R A p \<longleftrightarrow> table_ok R (lp_conn p) \<and> list_all (event_ok R A) (lp_queue p) \<and>
     list_all (effect_ok R A) (lp_log p)"

definition step_ok :: "request_state set \<Rightarrow> json_response set \<Rightarrow> lb_step \<Rightarrow> bool" where
  "step_ok R A l = (case l of LP_Arrive e \<Rightarrow> event_ok R A e | _ \<Rightarrow> True)"

lemma lb_origin_step:
  assumes "lp_exec l p = Some p'" and "lb_origin_ok R A p" and "step_ok R A l"
  shows "lb_origin_ok R A p'"
proof (cases l)
  case (LP_Arrive e)
  with assms show ?thesis
    by (auto simp: lb_origin_ok_def step_ok_def lost_with_def split: if_splits lb_event.splits)
next
  case (LP_Handle v)
  with assms obtain e es where q: "lp_queue p = e # es" and o: "lp_open p"
    by (auto split: if_splits list.splits)
  obtain s fx go where h: "lb_handle v e (lp_conn p) = (s, fx, go)" by (cases "lb_handle v e (lp_conn p)")
  obtain s' fx' where f: "lb_finish (en_http v) es s = (s', fx')" by fastforce
  from assms(2) q have t: "table_ok R (lp_conn p)" "event_ok R A e" "list_all (event_ok R A) es"
    by (simp_all add: lb_origin_ok_def)
  from lb_handle_ok [OF t(1,2) h] have h_ok: "table_ok R s" "list_all (effect_ok R A) fx" by simp_all
  from lb_finish_ok [OF h_ok(1) t(3) f] have f_ok: "table_ok R s'" "list_all (effect_ok R A) fx'" by simp_all
  have "list_all (effect_ok R A) (lp_log p)" using assms(2) by (simp add: lb_origin_ok_def)
  with h_ok f_ok t(3) assms(1) show ?thesis
    by (cases go) (auto simp: LP_Handle q o h f lb_origin_ok_def)
next
  case (LP_Expire now)
  have "table_ok R s'" if "lc_in_progress s' = hash_retain P (lc_in_progress s)" "table_ok R s" for s s' P
    using that hash.ok_retain [of "lc_in_progress s" P] hash.entries_retain [of P "lc_in_progress s"]
    by (auto simp: table_ok_def)
  with assms LP_Expire show ?thesis
    by (auto simp: lb_origin_ok_def lb_clean_up_expired_def list_all_iff split: if_splits)
qed

lemma lb_origin_run:
  "lp_run ls p = Some p' \<Longrightarrow> lb_origin_ok R A p \<Longrightarrow> list_all (step_ok R A) ls \<Longrightarrow> lb_origin_ok R A p'"
proof (induction ls arbitrary: p)
  case (Cons l ls)
  then obtain q where "lp_exec l p = Some q" "lp_run ls q = Some p'" by (auto simp: bind_eq_Some_conv)
  with Cons lb_origin_step [of l p q R A] show ?case by simp
qed simp


section \<open>Both ends\<close>

definition given_requests :: "lb_step list \<Rightarrow> request_state set" where
  "given_requests ls = {rq. LP_Arrive (EV_New_Request rq) \<in> set ls}"

definition from_relay :: "lb_step list \<Rightarrow> relay_message set" where
  "from_relay ls = {m. LP_Arrive (EV_Relay m) \<in> set ls}"

definition from_gateway :: "pf_step list \<Rightarrow> lb_message set" where
  "from_gateway ms = {m. PP_Arrive (PE_Gateway m) \<in> set ms}"

text \<open>
  The socket between the loops. What they write to it holds, among the messages of the tunnel and pings,
  their requests and responses; every message that a loop takes from it was read from it; and each end reads
  the text that the other wrote as the message that it was written for.
\<close>

definition socket_between ::
  "(lb_message \<Rightarrow> string) \<Rightarrow> (string \<Rightarrow> lb_message option) \<Rightarrow> (relay_message \<Rightarrow> string) \<Rightarrow> (string \<Rightarrow> relay_message option) \<Rightarrow>
     lb_step list \<Rightarrow> lb_effect list \<Rightarrow> pf_step list \<Rightarrow> pf_effect list \<Rightarrow> bool" where
  "socket_between lm_to_string lm_from_str rm_to_string rm_from_str ls gateway_log ms platform_log \<longleftrightarrow>
     (\<exists>to_platform to_gateway oks oks' down up n n'.
        (\<forall>m \<in> set to_platform. lm_from_str (lm_to_string m) = Some m) \<and>
        (\<forall>m \<in> set to_gateway. rm_from_str (rm_to_string m) = Some m) \<and>
        (\<forall>q. LM_Request q \<in> set to_platform \<longleftrightarrow> LE_Send (LM_Request q) \<in> set gateway_log) \<and>
        (\<forall>r. RM_Response r \<in> set to_gateway \<longleftrightarrow> r \<in> set (answered platform_log)) \<and>
        socket_carries (map lm_to_string (write_socket to_platform oks)) down \<and>
        socket_carries (map rm_to_string (write_socket to_gateway oks')) up \<and>
        PE_Gateway ` from_gateway ms \<subseteq> set (pf_read_socket lm_from_str n down) \<and>
        EV_Relay ` from_relay ls \<subseteq> set (lb_read_socket rm_from_str n' up))"

lemma socket_between_requests:
  assumes "socket_between lmt lmf rmt rmf ls glog ms plog" and "LM_Request q \<in> from_gateway ms"
  shows "LE_Send (LM_Request q) \<in> set glog"
proof -
  obtain to_platform oks down n where
    codec: "\<forall>m \<in> set to_platform. lmf (lmt m) = Some m" and
    sent: "\<forall>q. LM_Request q \<in> set to_platform \<longleftrightarrow> LE_Send (LM_Request q) \<in> set glog" and
    down: "socket_carries (map lmt (write_socket to_platform oks)) down" and
    got: "PE_Gateway ` from_gateway ms \<subseteq> set (pf_read_socket lmf n down)"
    using assms(1) unfolding socket_between_def by (elim exE conjE) (rule that; assumption)
  from got assms(2) have "PE_Gateway (LM_Request q) \<in> set (pf_read_socket lmf n down)" by blast
  then have "PE_Gateway (LM_Request q) \<in> set (map PE_Gateway (messages_of lmf down) @ map pf_finish_event (take 1 (filter is_final down)))"
    unfolding pfr.reads by (rule in_set_takeD)
  moreover have neq: "PE_Gateway m \<noteq> pf_finish_event y" for y m by (cases y rule: pf_finish_event.cases) auto
  ultimately have "LM_Request q \<in> set (messages_of lmf down)" by (auto simp: neq)
  with set_mono_prefix [OF carried_messages [OF codec down]] sent show ?thesis by blast
qed

lemma socket_between_responses:
  assumes "socket_between lmt lmf rmt rmf ls glog ms plog" and "RM_Response r \<in> from_relay ls"
  shows "r \<in> set (answered plog)"
proof -
  obtain to_gateway oks up n where
    codec: "\<forall>m \<in> set to_gateway. rmf (rmt m) = Some m" and
    sent: "\<forall>r. RM_Response r \<in> set to_gateway \<longleftrightarrow> r \<in> set (answered plog)" and
    up: "socket_carries (map rmt (write_socket to_gateway oks)) up" and
    got: "EV_Relay ` from_relay ls \<subseteq> set (lb_read_socket rmf n up)"
    using assms(1) unfolding socket_between_def by (elim exE conjE) (rule that; assumption)
  from got assms(2) have "EV_Relay (RM_Response r) \<in> set (lb_read_socket rmf n up)" by blast
  then have "EV_Relay (RM_Response r) \<in> set (map EV_Relay (messages_of rmf up) @ map lb_finish_event (take 1 (filter is_final up)))"
    unfolding lbr.reads by (rule in_set_takeD)
  moreover have neq: "EV_Relay m \<noteq> lb_finish_event y" for y m by (cases y rule: lb_finish_event.cases) auto
  ultimately have "RM_Response r \<in> set (messages_of rmf up)" by (auto simp: neq)
  with set_mono_prefix [OF carried_messages [OF codec up]] sent show ?thesis by blast
qed

lemma session_answers:
  assumes "lp_run ls lp_start = Some g" and "runs (pf_exec c) ms pf_start = Some p"
    and "socket_between lmt lmf rmt rmf ls (lp_log g) ms (pp_log p)"
    and "inj_on (\<lambda>rq. jq_id (rq_underlying rq)) (given_requests ls)"
    and "LE_Respond rq r \<in> set (lp_log g)"
  shows "rq \<in> given_requests ls \<and>
    (gateway_failure rq r \<or>
     (\<exists>router \<in> routers_of ms.
        r = pf_handle_one (pg_http c) (pg_max_response_body_bytes c) (pg_api_prefix c) router (rq_underlying rq)))"
proof -
  let ?R = "given_requests ls" and ?A = "{r. RM_Response r \<in> from_relay ls}"
  have "list_all (step_ok ?R ?A) ls"
    by (auto simp: list_all_iff step_ok_def event_ok_def given_requests_def from_relay_def
        split: lb_step.splits lb_event.splits relay_message.splits)
  then have "lb_origin_ok ?R ?A g"
    by (rule lb_origin_run [OF assms(1), rotated])
      (simp add: lb_origin_ok_def table_ok_def lp_start_def lb_conn_new_def event_ok_def hash.ok_empty)
  then have log: "\<And>x. x \<in> set (lp_log g) \<Longrightarrow> effect_ok ?R ?A x" by (simp add: lb_origin_ok_def list_all_iff)
  from log [OF assms(5)] have rq: "rq \<in> ?R" "jr_id r = jq_id (rq_underlying rq)" "r \<in> ?A \<or> gateway_failure rq r"
    by simp_all
  have "pf_origin_ok c (routers_of ms) (set (concat (map pf_received ms))) p"
    by (rule pf_origin_run [OF assms(2)]) (auto simp: pf_origin_ok_def pf_start_def)
  then have answers: "set (answered (pp_log p)) \<subseteq> answers_by c (routers_of ms) (set (concat (map pf_received ms)))"
    by (simp add: pf_origin_ok_def)
  show ?thesis
  proof (cases "gateway_failure rq r")
    case False
    with rq(3) have "RM_Response r \<in> from_relay ls" by simp
    from socket_between_responses [OF assms(3) this] answers
    have "r \<in> answers_by c (routers_of ms) (set (concat (map pf_received ms)))" by blast
    then obtain router q where r: "r = pf_handle_one (pg_http c) (pg_max_response_body_bytes c) (pg_api_prefix c) router q"
      and "router \<in> routers_of ms" "q \<in> set (concat (map pf_received ms))"
      unfolding answers_by_def by blast
    then have "LM_Request q \<in> from_gateway ms" and by_router: "router \<in> routers_of ms"
      by (auto simp: from_gateway_def pf_received_def pf_request_of_def
          split: pf_step.splits pf_event.splits lb_message.splits)
    from log [OF socket_between_requests [OF assms(3) this(1)]] obtain rq' where rq': "rq' \<in> ?R" "q = rq_underlying rq'"
      by auto
    have "jq_id (rq_underlying rq') = jq_id (rq_underlying rq)" using rq(2) by (simp add: r rq'(2))
    with inj_onD [OF assms(4) _ rq'(1) rq(1)] have "rq' = rq" by simp
    with rq(1) r rq'(2) by_router show ?thesis by blast
  qed (use rq in blast)
qed

text \<open>C18: A client of a relay gets the answer to its own request. Take any run of a gateway's connection with a
  relay, any run of that platform's connection with the gateway, and a socket between them that may break at
  any point. If the requests that the gateway was given have different ids, whatever the gateway gives to the
  client that waits for a request is either the gateway's own failure of that request, 400 or 502, or what
  the platform makes of the answer of one of the routers that answered in its run to exactly that request.\<close>

theorem relayed_answer_is_own:
  assumes "lp_run ls lp_start = Some g" and "runs (pf_exec c) ms pf_start = Some p"
    and "socket_between lmt lmf rmt rmf ls (lp_log g) ms (pp_log p)"
    and "inj_on (\<lambda>rq. jq_id (rq_underlying rq)) (given_requests ls)"
    and "LE_Respond rq r \<in> set (lp_log g)"
  shows "rq \<in> given_requests ls \<and>
    (gateway_failure rq r \<or>
     (\<exists>router \<in> routers_of ms.
        r = pf_handle_one (pg_http c) (pg_max_response_body_bytes c) (pg_api_prefix c) router (rq_underlying rq)))"
  by (rule session_answers [OF assms])


text \<open>A request that the platform's router answers.\<close>

definition demo_asked :: json_request where "demo_asked = rq_underlying (demo_rq 1 1)"

definition demo_relayed :: json_response where
  "demo_relayed = pf_handle_one (pg_http demo_pf_config) (pg_max_response_body_bytes demo_pf_config)
     (pg_api_prefix demo_pf_config) demo_constant_router demo_asked"

lemma demo_relayed_id: "jr_id demo_relayed = Uuid 1"
  by (simp add: demo_relayed_def demo_asked_def demo_rq_def)

definition demo_gateway_steps :: "lb_step list" where
  "demo_gateway_steps =
     [LP_Handle demo_lb_env, LP_Arrive (EV_New_Request (demo_rq 1 1)), LP_Handle demo_lb_env,
      LP_Arrive (EV_Relay (RM_Response demo_relayed)), LP_Handle demo_lb_env]"

definition demo_platform_steps :: "pf_step list" where
  "demo_platform_steps =
     [PP_Arrive (PE_Gateway (LM_Request demo_asked)), PP_Handle demo_pf_env, PP_Answer 0 demo_constant_router,
      PP_Handle demo_pf_env]"

lemma demo_gateway_run:
  "\<exists>g. lp_run demo_gateway_steps lp_start = Some g \<and>
     lp_log g = [LE_Schedule_Ping_Tick, LE_Send (LM_Ping 1), LE_Send (LM_Request demo_asked), LE_Respond (demo_rq 1 1) demo_relayed]"
  by (simp add: demo_gateway_steps_def demo_relayed_id demo_asked_def lp_start_def lb_conn_new_def demo_lb_env_def
      lb_on_ping_tick_def lb_send_def Let_def LB_EVENT_CAPACITY_def pass_on_request_def lb_on_response_def
      pass_on_response_def demo_rq_def hash_get_def hash_insert_def hash_remove_def)

lemma demo_platform_run:
  "\<exists>p. runs (pf_exec demo_pf_config) demo_platform_steps pf_start = Some p \<and>
     pp_log p = [PX_Spawn_Handle_One demo_asked, PX_Send (RM_Response demo_relayed)]"
  by (simp add: demo_platform_steps_def pf_start_def LB_EVENT_CAPACITY_def pf_send_or_fail_def pf_send_def
      demo_pf_env_def demo_relayed_def Let_def)

lemma demo_socket:
  assumes "glog = [LE_Schedule_Ping_Tick, LE_Send (LM_Ping 1), LE_Send (LM_Request demo_asked), LE_Respond (demo_rq 1 1) demo_relayed]"
    and "plog = [PX_Spawn_Handle_One demo_asked, PX_Send (RM_Response demo_relayed)]"
  shows "socket_between (\<lambda>_. ''q'') (\<lambda>_. Some (LM_Request demo_asked)) (\<lambda>_. ''r'') (\<lambda>_. Some (RM_Response demo_relayed))
    demo_gateway_steps glog demo_platform_steps plog"
  unfolding socket_between_def assms
  by (intro exI [of _ "[LM_Request demo_asked]"] exI [of _ "[RM_Response demo_relayed]"] exI [of _ "[True]"]
      exI [of _ "[SR_Frame (WF_Text ''q'')]"] exI [of _ "[SR_Frame (WF_Text ''r'')]"] exI [of _ "1 :: nat"])
    (simp add: socket_carries_def from_gateway_def from_relay_def demo_gateway_steps_def demo_platform_steps_def)

theorem relayed_answer_is_own_witness:
  "\<exists>router \<in> routers_of demo_platform_steps. demo_relayed = pf_handle_one (pg_http demo_pf_config) (pg_max_response_body_bytes demo_pf_config)
     (pg_api_prefix demo_pf_config) router (rq_underlying (demo_rq 1 1)) \<and> jr_code demo_relayed = 200"
proof -
  obtain g where g: "lp_run demo_gateway_steps lp_start = Some g" and
    gl: "lp_log g = [LE_Schedule_Ping_Tick, LE_Send (LM_Ping 1), LE_Send (LM_Request demo_asked), LE_Respond (demo_rq 1 1) demo_relayed]"
    using demo_gateway_run by blast
  obtain p where p: "runs (pf_exec demo_pf_config) demo_platform_steps pf_start = Some p" and
    pl: "pp_log p = [PX_Spawn_Handle_One demo_asked, PX_Send (RM_Response demo_relayed)]"
    using demo_platform_run by blast
  have "given_requests demo_gateway_steps = {demo_rq 1 1}"
    by (auto simp: given_requests_def demo_gateway_steps_def)
  then have inj: "inj_on (\<lambda>rq. jq_id (rq_underlying rq)) (given_requests demo_gateway_steps)" by simp
  have code: "jr_code demo_relayed = 200"
    by (simp add: demo_relayed_def demo_pf_config_def demo_asked_def demo_rq_def demo_constant_router_def
        pf_handle_one_def pf_json_to_request_def pf_response_to_json_def demo_http_lib_def build_request_def
        headers_ok_def show_api_prefix_def decode_body_def to_bytes_def Let_def)
  then have "\<not> gateway_failure (demo_rq 1 1) demo_relayed" by (simp add: gateway_failure_def)
  moreover have "LE_Respond (demo_rq 1 1) demo_relayed \<in> set (lp_log g)" by (simp add: gl)
  ultimately show ?thesis
    using relayed_answer_is_own [OF g p demo_socket [OF gl pl] inj] code by blast
qed

end
