(* ===== verification/Client_End_To_End.thy ===== *)
theory Client_End_To_End
  imports Lb_Routes Relay_End_To_End
begin

text \<open>
  From a client of the gateway to the router of a platform and back: the routes of the gateway's HTTP server
  (\<open>crates/gateway/src/main.rs\<close>), which take their parameters from the path of the request, together with
  the session of the relay they name (\<open>Relay_End_To_End\<close>).
\<close>

section \<open>The gateway's routes\<close>

text \<open>The pages of other modules, a relay by its prefix or any relay, each with what follows it.\<close>

datatype gateway_target =
    GT_Page string
  | GT_Prefix_Root string
  | GT_Prefix string string
  | GT_Any_Root
  | GT_Any string

text \<open>
  \<open>Router::new().route(...)\<close> on the raw path: fixed segments go before parameters, a parameter matches one
  segment that is not empty, the last one everything that is left, but not nothing.
\<close>

definition gateway_dispatch :: "string \<Rightarrow> gateway_target option" where
  "gateway_dispatch path =
     (if path \<in> {''/'', ''/register'', ''/ws'', ''/stats'', ''/metrics'', ''/sdk/ws''} then Some (GT_Page path)
      else case path of
        [] \<Rightarrow> None
      | c # cs \<Rightarrow>
          if c \<noteq> CHR ''/'' then None
          else case split_once CHR ''/'' cs of
            None \<Rightarrow> Some (if cs = ''any'' then GT_Any_Root else GT_Prefix_Root cs)
          | Some (segment, rest) \<Rightarrow>
              if segment = ''any'' then Some (if rest = [] then GT_Any_Root else GT_Any rest)
              else if segment = [] then None
              else Some (if rest = [] then GT_Prefix_Root segment else GT_Prefix segment rest))"

text \<open>axum decodes the parameters of a path; what is no escape stays, and what is no UTF-8 then is refused.\<close>

definition hex_value :: "char \<Rightarrow> nat option" where
  "hex_value c =
     (let n = of_char c :: nat
      in if 48 \<le> n \<and> n \<le> 57 then Some (n - 48)
         else if 97 \<le> n \<and> n \<le> 102 then Some (n - 87)
         else if 65 \<le> n \<and> n \<le> 70 then Some (n - 55)
         else None)"

fun percent_decode :: "string \<Rightarrow> string" where
  "percent_decode [] = []"
| "percent_decode (c # cs) =
     (if c = CHR ''%'' then
        (case cs of
           a # b # rest \<Rightarrow>
             (case (hex_value a, hex_value b) of
                (Some h, Some l) \<Rightarrow> char_of (16 * h + l) # percent_decode rest
              | _ \<Rightarrow> c # percent_decode cs)
         | _ \<Rightarrow> c # percent_decode cs)
      else c # percent_decode cs)"

definition path_param :: "(string \<Rightarrow> bool) \<Rightarrow> string \<Rightarrow> (u16 \<times> string) + string" where
  "path_param utf8_ok raw =
     (if utf8_ok (percent_decode raw) then Inr (percent_decode raw)
      else Inl (400, ''Invalid URL: Invalid UTF-8 in path parameter''))"

text \<open>The response and the balancer after it; \<open>None\<close> is the panic of \<open>relay_for_any\<close>. The handlers of the
  other pages are an argument.\<close>

definition gateway_app ::
  "http_lib \<Rightarrow> (string \<Rightarrow> bool) \<Rightarrow> (string \<Rightarrow> http_request \<Rightarrow> http_response) \<Rightarrow> uuid \<Rightarrow>
     (nat \<Rightarrow> json_request \<Rightarrow> relay_outcome) \<Rightarrow> load_balancer \<Rightarrow> http_request \<Rightarrow> (http_response \<times> load_balancer) option" where
  "gateway_app L utf8_ok pages new_id sessions lb req =
     (case gateway_dispatch (hl_uri_path L (hq_uri req)) of
        None \<Rightarrow> Some (\<lparr>hr_status = 404, hr_headers = [], hr_body = Inr []\<rparr>, lb)
      | Some (GT_Page page) \<Rightarrow> Some (pages page req, lb)
      | Some (GT_Prefix_Root uuid) \<Rightarrow>
          (case path_param utf8_ok uuid of
             Inl (code, why) \<Rightarrow> Some (plain_response code why, lb)
           | Inr u \<Rightarrow> Some (prefix_route_root L new_id sessions lb u req, lb))
      | Some (GT_Prefix uuid rest) \<Rightarrow>
          (case (path_param utf8_ok uuid, path_param utf8_ok rest) of
             (Inl (code, why), _) \<Rightarrow> Some (plain_response code why, lb)
           | (Inr u, Inl (code, why)) \<Rightarrow> Some (plain_response code why, lb)
           | (Inr u, Inr r) \<Rightarrow> Some (prefix_route L new_id sessions lb u r req, lb))
      | Some GT_Any_Root \<Rightarrow> any_route_root L new_id sessions lb req
      | Some (GT_Any rest) \<Rightarrow>
          (case path_param utf8_ok rest of
             Inl (code, why) \<Rightarrow> Some (plain_response code why, lb)
           | Inr r \<Rightarrow> any_route L new_id sessions lb r req))"

lemma percent_decode_plain: "CHR ''%'' \<notin> set s \<Longrightarrow> percent_decode s = s"
  by (induction s) auto

lemma split_once_first: "d \<notin> set l \<Longrightarrow> split_once d (l @ d # r) = Some (l, r)"
  by (induction l) auto

text \<open>A path under a prefix is dispatched to the route of that prefix, with what follows it.\<close>

lemma gateway_dispatch_prefix:
  assumes "CHR ''/'' \<notin> set uuid" and "uuid \<notin> {[], ''any'', ''sdk''}" and "rest \<noteq> []"
  shows "gateway_dispatch (''/'' @ uuid @ ''/'' @ rest) = Some (GT_Prefix uuid rest)"
proof -
  let ?path = "''/'' @ uuid @ ''/'' @ rest"
  have "?path \<noteq> ''/'' @ w" if "CHR ''/'' \<notin> set w" for w
    using that by auto
  from this [of "[]"] this [of "''register''"] this [of "''ws''"] this [of "''stats''"] this [of "''metrics''"]
  have "?path \<notin> {''/'', ''/register'', ''/ws'', ''/stats'', ''/metrics''}" by simp
  moreover have "?path \<noteq> ''/sdk/ws''"
  proof
    assume "?path = ''/sdk/ws''"
    then have "uuid @ CHR ''/'' # rest = ''sdk'' @ CHR ''/'' # ''ws''" by simp
    from arg_cong [OF this, of "split_once CHR ''/''"] have "uuid = ''sdk''"
      using split_once_first [OF assms(1), of rest] split_once_first [of "CHR ''/''" "''sdk''" "''ws''"] by simp
    with assms(2) show False by simp
  qed
  ultimately show ?thesis
    using assms split_once_first [OF assms(1), of rest] by (simp add: gateway_dispatch_def)
qed

section \<open>The outcome of a session\<close>

text \<open>What the gateway answers itself for a request that its loop gave up.\<close>

lemma gateway_failure_status:
  assumes "gateway_failure rq r"
  shows "hr_status (route_response (lb_json_to_response L name r)) \<in> {400, 502}"
  using assms
  by (auto simp: gateway_failure_def lb_json_to_response_def route_response_def plain_response_def
      build_response_def split: sum.splits option.splits if_splits)

text \<open>What a client of a connected relay gets, by the outcome of the session.\<close>

lemma prefix_route_outcome:
  assumes "hl_uuid_parse L uuid = Some p" and "btree_get p (lb_active_relays lb) = Some rs"
    and "lb_request_to_json L i (CHR ''/'' # rest) (hl_uri_query L (hq_uri q)) (rs_name rs) q = Inr j"
  shows "case sessions (rs_session rs) j of
      RO_Channel_Closed \<Rightarrow> hr_status (prefix_route L i sessions lb uuid rest q) = 502
    | RO_Sender_Dropped \<Rightarrow> hr_status (prefix_route L i sessions lb uuid rest q) = 502
    | RO_Timed_Out \<Rightarrow> hr_status (prefix_route L i sessions lb uuid rest q) = 504
    | RO_Answered r \<Rightarrow>
        prefix_route L i sessions lb uuid rest q = route_response (lb_json_to_response L (rs_name rs) r)"
  using assms
  by (simp add: prefix_route_def handle_prefix_route_def relay_for_prefix_def forward_request_def
      route_response_def plain_response_def split: relay_outcome.split)

text \<open>The response is made of what a router that answered in the run of the platform gave to the client's
  request: the method, the body and the text headers are those of the request, the path is the given one.\<close>

definition router_answered ::
  "http_lib \<Rightarrow> nat \<Rightarrow> pf_step list \<Rightarrow> http_request \<Rightarrow> string \<Rightarrow> string \<Rightarrow> http_response \<Rightarrow> bool" where
  "router_answered L limit ms q b uri resp \<longleftrightarrow>
     (\<exists>router \<in> routers_of ms. \<exists>q'. hq_method q' = hq_method q \<and> hq_body q' = Inr b \<and> hq_uri q' = uri \<and>
        same_text_headers L (hq_headers q) (hq_headers q') \<and> answer_relayed L limit (router q') resp)"

lemma session_answer_relayed:
  assumes "http_lib_ok L" and "names_valid L (hq_headers q)"
    and "json_method_of (hq_method q) \<noteq> None" and "hq_body q = Inr b" and "length b \<le> DEFAULT_MAX_BODY_BYTES"
    and "hl_uri_ok L (target_uri L (Some p) path query)"
    and "lp_run ls lp_start = Some g" and "runs (pf_exec c) ms pf_start = Some pl"
    and "socket_between lmt lmf rmt rmf ls (lp_log g) ms (pp_log pl)"
    and "inj_on (\<lambda>rq. jq_id (rq_underlying rq)) (given_requests ls)"
    and "pg_http c = L" and "pg_api_prefix c = Some p" and "\<And>router. router \<in> routers_of ms \<Longrightarrow> router_valid L router"
    and "lb_request_to_json L i path query name q = Inr (rq_underlying rq)" and "LE_Respond rq r \<in> set (lp_log g)"
    and "resp = route_response (lb_json_to_response L name r)"
  shows "gateway_failure rq r \<and> hr_status resp \<in> {400, 502} \<or>
    router_answered L (pg_max_response_body_bytes c) ms q b (target_uri L (Some p) path query) resp"
proof -
  from session_answers [OF assms(7-10,15)] assms(11,12) consider (failed) "gateway_failure rq r" |
    (router) router where "router \<in> routers_of ms"
      "r = pf_handle_one L (pg_max_response_body_bytes c) (Some p) router (rq_underlying rq)" by auto
  then show ?thesis
  proof cases
    case failed
    with gateway_failure_status [OF failed] show ?thesis by (simp add: assms(16))
  next
    case router
    from platform_relay_roundtrip [OF assms(1) assms(13) [OF router(1)] assms(2-6), of i name
        "pg_max_response_body_bytes c"]
    show ?thesis using assms(14,16) router unfolding router_answered_def
      by (intro disjI2 bexI [OF _ router(1)]) (auto simp: route_response_def)
  qed
qed

section \<open>Properties\<close>

text \<open>C36: A client of the gateway gets the answer of the platform it names to the request it made. Take a request
  with a path \<open>/<uuid>/<rest>\<close> without escapes, whose method and body can be relayed. If the prefix belongs to
  no connected relay, the answer is 404. Otherwise the request goes to the session of that relay, and what the
  client gets is determined by the outcome: 502 if the session ended before or meanwhile, 504 if it was too
  slow, and for an answer that the session gave, in any run of it and of the platform's connection with the
  gateway over a socket that may break, either the gateway's own failure of the request, 400 or 502, or the
  answer, with its status, text headers and body, that a router of the platform gave to the very request the
  client made: the same method, body and text headers, and as path the prefix, \<open>/<rest>\<close> and the query.\<close>

theorem client_reaches_platform:
  assumes "http_lib_ok L" and "names_valid L (hq_headers q)"
    and "json_method_of (hq_method q) \<noteq> None" and "hq_body q = Inr b" and "length b \<le> DEFAULT_MAX_BODY_BYTES"
    and "hl_uri_path L (hq_uri q) = ''/'' @ uuid @ ''/'' @ rest" and "rest \<noteq> []"
    and "CHR ''/'' \<notin> set uuid" and "uuid \<notin> {[], ''any'', ''sdk''}"
    and "CHR ''%'' \<notin> set uuid \<union> set rest" and "utf8_ok uuid" and "utf8_ok rest"
    and "hl_uuid_parse L uuid = Some p"
    and "hl_uri_ok L (target_uri L (Some p) (CHR ''/'' # rest) (hl_uri_query L (hq_uri q)))"
    and "lp_run ls lp_start = Some g" and "runs (pf_exec c) ms pf_start = Some pl"
    and "socket_between lmt lmf rmt rmf ls (lp_log g) ms (pp_log pl)"
    and "inj_on (\<lambda>rq. jq_id (rq_underlying rq)) (given_requests ls)"
    and "pg_http c = L" and "pg_api_prefix c = Some p" and "\<And>router. router \<in> routers_of ms \<Longrightarrow> router_valid L router"
    and "\<And>rs j r. btree_get p (lb_active_relays lb) = Some rs \<Longrightarrow> sessions (rs_session rs) j = RO_Answered r \<Longrightarrow>
      \<exists>rq. rq_underlying rq = j \<and> LE_Respond rq r \<in> set (lp_log g)"
  shows "\<exists>resp. gateway_app L utf8_ok pages i sessions lb q = Some (resp, lb) \<and>
    (case btree_get p (lb_active_relays lb) of
      None \<Rightarrow> hr_status resp = 404
    | Some rs \<Rightarrow>
        (\<exists>j. lb_request_to_json L i (CHR ''/'' # rest) (hl_uri_query L (hq_uri q)) (rs_name rs) q = Inr j \<and>
          (case sessions (rs_session rs) j of
             RO_Channel_Closed \<Rightarrow> hr_status resp = 502
           | RO_Sender_Dropped \<Rightarrow> hr_status resp = 502
           | RO_Timed_Out \<Rightarrow> hr_status resp = 504
           | RO_Answered r \<Rightarrow>
               (\<exists>rq. rq_underlying rq = j \<and> gateway_failure rq r) \<and> hr_status resp \<in> {400, 502} \<or>
               router_answered L (pg_max_response_body_bytes c) ms q b
                 (target_uri L (Some p) (CHR ''/'' # rest) (hl_uri_query L (hq_uri q))) resp)))"
proof -
  let ?resp = "prefix_route L i sessions lb uuid rest q"
  have dispatch: "gateway_app L utf8_ok pages i sessions lb q = Some (?resp, lb)"
    using gateway_dispatch_prefix [OF assms(8,9,7)] assms(6,10-12)
    by (simp add: gateway_app_def path_param_def percent_decode_plain)
  show ?thesis
  proof (cases "btree_get p (lb_active_relays lb)")
    case None
    with assms(13) dispatch show ?thesis
      by (simp add: prefix_route_def handle_prefix_route_def relay_for_prefix_def route_response_def plain_response_def)
  next
    case (Some rs)
    have "router_valid L (\<lambda>_. None)" by (simp add: router_valid_def)
    from platform_relay_roundtrip [OF assms(1) this assms(2-5,14)] obtain j where
      j: "lb_request_to_json L i (CHR ''/'' # rest) (hl_uri_query L (hq_uri q)) (rs_name rs) q = Inr j" by blast
    note outcome = prefix_route_outcome [OF assms(13) Some j, of sessions]
    show ?thesis
    proof (cases "sessions (rs_session rs) j")
      case (RO_Answered r)
      from assms(22) [OF Some RO_Answered] obtain rq where
        rq: "rq_underlying rq = j" "LE_Respond rq r \<in> set (lp_log g)" by blast
      from session_answer_relayed [OF assms(1-5,14-21) j [folded rq(1)] rq(2)] outcome RO_Answered
      show ?thesis using dispatch j Some RO_Answered rq(1) by auto
    qed (use outcome dispatch j Some in auto)
  qed
qed

text \<open>A client asks for a page of the relay with the prefix 5, whose platform answers.\<close>

definition demo_client_request :: http_request where
  "demo_client_request = \<lparr>hq_method = GET, hq_uri = ''/5/tx?x=1'', hq_headers = [], hq_body = Inr []\<rparr>"

definition demo_client_json :: json_request where
  "demo_client_json = \<lparr>jq_id = Uuid 1, jq_method = JGET, jq_path = ''/tx'', jq_query = Some ''x=1'', jq_header = [],
     jq_body_base64 = []\<rparr>"

definition demo_client_rq :: request_state where
  "demo_client_rq = \<lparr>rq_respond_to = 1, rq_expires = 60000, rq_underlying = demo_client_json, rq_is_health_check = False\<rparr>"

definition demo_prefix_config :: pf_config where
  "demo_prefix_config = demo_pf_config\<lparr>pg_api_prefix := Some (Uuid 5)\<rparr>"

definition demo_client_answer :: json_response where
  "demo_client_answer = pf_handle_one demo_http_lib 100 (Some (Uuid 5)) demo_constant_router demo_client_json"

definition demo_session_steps :: "lb_step list" where
  "demo_session_steps =
     [LP_Handle demo_lb_env, LP_Arrive (EV_New_Request demo_client_rq), LP_Handle demo_lb_env,
      LP_Arrive (EV_Relay (RM_Response demo_client_answer)), LP_Handle demo_lb_env]"

definition demo_serving_steps :: "pf_step list" where
  "demo_serving_steps =
     [PP_Arrive (PE_Gateway (LM_Request demo_client_json)), PP_Handle demo_pf_env, PP_Answer 0 demo_constant_router,
      PP_Handle demo_pf_env]"

definition demo_registry :: load_balancer where
  "demo_registry = \<lparr>lb_active_relays = [(Uuid 5, \<lparr>rs_name = ''r'', rs_session = 0\<rparr>)], lb_any_relay_cursor = 0\<rparr>"

lemma demo_client_answer_id: "jr_id demo_client_answer = Uuid 1"
  by (simp add: demo_client_answer_def demo_client_json_def)

lemma demo_session_run:
  "\<exists>g. lp_run demo_session_steps lp_start = Some g \<and>
     lp_log g = [LE_Schedule_Ping_Tick, LE_Send (LM_Ping 1), LE_Send (LM_Request demo_client_json),
       LE_Respond demo_client_rq demo_client_answer]"
  by (simp add: demo_session_steps_def demo_client_answer_id demo_client_json_def lp_start_def lb_conn_new_def
      demo_lb_env_def lb_on_ping_tick_def lb_send_def Let_def LB_EVENT_CAPACITY_def pass_on_request_def
      lb_on_response_def pass_on_response_def demo_client_rq_def hash_get_def hash_insert_def hash_remove_def)

lemma demo_serving_run:
  "\<exists>p. runs (pf_exec demo_prefix_config) demo_serving_steps pf_start = Some p \<and>
     pp_log p = [PX_Spawn_Handle_One demo_client_json, PX_Send (RM_Response demo_client_answer)]"
  by (simp add: demo_serving_steps_def pf_start_def LB_EVENT_CAPACITY_def pf_send_or_fail_def pf_send_def
      demo_pf_env_def demo_client_answer_def demo_prefix_config_def demo_pf_config_def Let_def)

lemma demo_session_socket:
  assumes "glog = [LE_Schedule_Ping_Tick, LE_Send (LM_Ping 1), LE_Send (LM_Request demo_client_json),
      LE_Respond demo_client_rq demo_client_answer]"
    and "plog = [PX_Spawn_Handle_One demo_client_json, PX_Send (RM_Response demo_client_answer)]"
  shows "socket_between (\<lambda>_. ''q'') (\<lambda>_. Some (LM_Request demo_client_json)) (\<lambda>_. ''r'')
    (\<lambda>_. Some (RM_Response demo_client_answer)) demo_session_steps glog demo_serving_steps plog"
  unfolding socket_between_def assms
  by (intro exI [of _ "[LM_Request demo_client_json]"] exI [of _ "[RM_Response demo_client_answer]"] exI [of _ "[True]"]
      exI [of _ "[SR_Frame (WF_Text ''q'')]"] exI [of _ "[SR_Frame (WF_Text ''r'')]"] exI [of _ "1 :: nat"])
    (simp add: socket_carries_def from_gateway_def from_relay_def demo_session_steps_def demo_serving_steps_def)

definition demo_sessions :: "nat \<Rightarrow> json_request \<Rightarrow> relay_outcome" where
  "demo_sessions n j = (if j = demo_client_json then RO_Answered demo_client_answer else RO_Timed_Out)"

theorem client_reaches_platform_witness:
  "\<exists>resp q'. gateway_app demo_http_lib (\<lambda>_. True) (\<lambda>_ _. plain_response 200 ''page'') (Uuid 1) demo_sessions demo_registry
      demo_client_request = Some (resp, demo_registry) \<and>
    hq_uri q' = ''/u/tx?x=1'' \<and> answer_relayed demo_http_lib 100 (demo_constant_router q') resp \<and> hr_status resp = 200"
proof -
  let ?L = demo_http_lib and ?q = demo_client_request
  obtain g where g: "lp_run demo_session_steps lp_start = Some g" and
    gl: "lp_log g = [LE_Schedule_Ping_Tick, LE_Send (LM_Ping 1), LE_Send (LM_Request demo_client_json),
       LE_Respond demo_client_rq demo_client_answer]"
    using demo_session_run by blast
  obtain p where p: "runs (pf_exec demo_prefix_config) demo_serving_steps pf_start = Some p" and
    pl: "pp_log p = [PX_Spawn_Handle_One demo_client_json, PX_Send (RM_Response demo_client_answer)]"
    using demo_serving_run by blast
  have routers: "routers_of demo_serving_steps = {demo_constant_router}"
    by (auto simp: routers_of_def demo_serving_steps_def)
  have "given_requests demo_session_steps = {demo_client_rq}"
    by (auto simp: given_requests_def demo_session_steps_def)
  then have inj: "inj_on (\<lambda>rq. jq_id (rq_underlying rq)) (given_requests demo_session_steps)" by simp
  have q: "names_valid ?L (hq_headers ?q)" "json_method_of (hq_method ?q) \<noteq> None" "hq_body ?q = Inr []"
    "hl_uri_path ?L (hq_uri ?q) = ''/'' @ ''5'' @ ''/'' @ ''tx''" "hl_uri_query ?L (hq_uri ?q) = Some ''x=1''"
    by (simp_all add: names_valid_def demo_client_request_def demo_http_lib_def)
  have u: "hl_uuid_parse ?L ''5'' = Some (Uuid 5)"
    by (simp add: demo_http_lib_def parse_magnitude_def is_ascii_digit_def digit_value_def)
  have t: "target_uri ?L (Some (Uuid 5)) (CHR ''/'' # ''tx'') (hl_uri_query ?L (hq_uri ?q)) = ''/u/tx?x=1''"
    unfolding q(5) by (simp add: target_uri_def show_api_prefix_def demo_http_lib_def)
  have t_ok: "hl_uri_ok ?L (target_uri ?L (Some (Uuid 5)) (CHR ''/'' # ''tx'') (hl_uri_query ?L (hq_uri ?q)))"
    unfolding t by (simp add: demo_http_lib_def)
  have c: "pg_http demo_prefix_config = ?L" "pg_api_prefix demo_prefix_config = Some (Uuid 5)"
    "pg_max_response_body_bytes demo_prefix_config = 100"
    by (simp_all add: demo_prefix_config_def demo_pf_config_def)
  have s: "\<exists>rq. rq_underlying rq = j \<and> LE_Respond rq r \<in> set (lp_log g)"
    if "demo_sessions n j = RO_Answered r" for n j r
    using that by (auto simp: demo_sessions_def gl demo_client_rq_def split: if_splits)
  have rs: "btree_get (Uuid 5) (lb_active_relays demo_registry) = Some \<lparr>rs_name = ''r'', rs_session = 0\<rparr>"
    by (simp add: demo_registry_def btree_get_def)
  have j: "lb_request_to_json ?L (Uuid 1) (CHR ''/'' # ''tx'') (hl_uri_query ?L (hq_uri ?q)) n ?q = Inr demo_client_json" for n
    unfolding q(5)
    by (simp add: lb_request_to_json_def demo_client_request_def demo_client_json_def text_headers_def demo_http_lib_def
        to_bytes_def List.map_filter_simps)
  have code: "jr_code demo_client_answer = 200"
    by (simp add: demo_client_answer_def demo_client_json_def demo_constant_router_def
        pf_handle_one_def pf_json_to_request_def pf_response_to_json_def demo_http_lib_def build_request_def
        headers_ok_def show_api_prefix_def decode_body_def to_bytes_def Let_def)
  have v: "router_valid ?L router" if "router \<in> routers_of demo_serving_steps" for router
    using that demo_router_valid by (simp add: routers)
  from client_reaches_platform [where lb = demo_registry and sessions = demo_sessions and i = "Uuid 1" and
      utf8_ok = "\<lambda>_. True" and pages = "\<lambda>_ _. plain_response 200 ''page''",
      OF demo_http_lib_ok q(1-3) _ q(4) _ _ _ _ _ _ u t_ok g p demo_session_socket [OF gl pl] inj c(1,2) v s]
  obtain resp where resp: "gateway_app ?L (\<lambda>_. True) (\<lambda>_ _. plain_response 200 ''page'') (Uuid 1) demo_sessions demo_registry ?q
      = Some (resp, demo_registry)" and
    "(\<exists>rq. rq_underlying rq = demo_client_json \<and> gateway_failure rq demo_client_answer) \<or>
      (\<exists>router \<in> routers_of demo_serving_steps. \<exists>q'. hq_uri q' = ''/u/tx?x=1'' \<and>
         answer_relayed ?L 100 (router q') resp)"
    by (auto simp: rs j c(3) t demo_sessions_def router_answered_def)
  then obtain q' where "hq_uri q' = ''/u/tx?x=1''" "answer_relayed ?L 100 (demo_constant_router q') resp"
    using code by (auto simp: routers gateway_failure_def)
  moreover from this(2) have "hr_status resp = 200" by (simp add: answer_relayed_def demo_constant_router_def)
  ultimately show ?thesis using resp by blast
qed

text \<open>A path with escapes does not reach the platform as it was: the decoded question mark begins a query.\<close>

theorem escaped_path_not_transparent:
  "gateway_app demo_http_lib (\<lambda>_. True) pages i sessions lb (demo_client_request\<lparr>hq_uri := ''/5/a%3Fb''\<rparr>) =
     Some (prefix_route demo_http_lib i sessions lb ''5'' ''a?b'' (demo_client_request\<lparr>hq_uri := ''/5/a%3Fb''\<rparr>), lb) \<and>
   (\<exists>j q'. lb_request_to_json demo_http_lib i (CHR ''/'' # ''a?b'') None name
        (demo_client_request\<lparr>hq_uri := ''/5/a%3Fb''\<rparr>) = Inr j \<and>
     pf_json_to_request demo_http_lib (Some p) j = Inr q' \<and> hq_uri q' = ''/u/a?b'' \<and>
     hl_uri_query demo_http_lib (hq_uri q') = Some ''b'')"
proof
  have "percent_decode ''a%3Fb'' = ''a?b''" "percent_decode ''5'' = ''5''" by code_simp+
  moreover have "gateway_dispatch ''/5/a%3Fb'' = Some (GT_Prefix ''5'' ''a%3Fb'')" by code_simp
  moreover have "hl_uri_path demo_http_lib ''/5/a%3Fb'' = ''/5/a%3Fb''" by (simp add: demo_http_lib_def)
  ultimately show "gateway_app demo_http_lib (\<lambda>_. True) pages i sessions lb (demo_client_request\<lparr>hq_uri := ''/5/a%3Fb''\<rparr>) =
     Some (prefix_route demo_http_lib i sessions lb ''5'' ''a?b'' (demo_client_request\<lparr>hq_uri := ''/5/a%3Fb''\<rparr>), lb)"
    by (simp add: gateway_app_def path_param_def)
qed (simp add: lb_request_to_json_def pf_json_to_request_def demo_client_request_def demo_http_lib_def to_bytes_def
    text_headers_def List.map_filter_simps decode_body_def build_request_def headers_ok_def show_api_prefix_def)

end
