(* ===== verification/Bridge_End_To_End.thy ===== *)
theory Bridge_End_To_End
  imports Sdk_Session_Correct Sdk_Bridge_Connection_Correct Socket_Tasks
begin

text \<open>
  An SDK bridge and the gateway together: the bridge over all its sessions (\<open>Sdk_Session\<close>), the gateway's
  connections, one for each session (\<open>Sdk_Bridge_Connection\<close>), and the WebSockets between them
  (\<open>Socket_Tasks\<close>). Each side is only known by its runs; the sockets relate what one receives to what the
  other sent.
\<close>

section \<open>What the SDK bridge sends and replies\<close>

text \<open>\<open>C\<close> are the calls of the run, with the ids they got, and \<open>A\<close> the responses that came from the gateway.\<close>

type_synonym sdk_call = "uuid \<times> http_request"

definition sdk_calls :: "ws_step list \<Rightarrow> sdk_call list" where
  "sdk_calls ls = concat (map (\<lambda>l. case l of WS_Call i q \<Rightarrow> [(i, q)] | _ \<Rightarrow> []) ls)"

definition request_of_call :: "http_lib \<Rightarrow> sdk_call \<Rightarrow> (u16 \<times> string) + sdk_json_request" where
  "request_of_call L c = sp_request_to_json L (fst c) (snd c)"

definition call_request :: "http_lib \<Rightarrow> sdk_call list \<Rightarrow> nat \<Rightarrow> sdk_json_request \<Rightarrow> bool" where
  "call_request L C t q \<longleftrightarrow> t < length C \<and> request_of_call L (C ! t) = Inr q"

definition disconnected :: "http_lib \<Rightarrow> uuid \<Rightarrow> json_response" where
  "disconnected L i = ws_error_response L i 503 ''gateway WebSocket disconnected''"

text \<open>The errors of the bridge itself: of the request, of its credits, and of the way to the gateway.\<close>

definition own_failure :: "http_lib \<Rightarrow> sdk_call \<Rightarrow> u16 \<times> string \<Rightarrow> bool" where
  "own_failure L c err \<longleftrightarrow>
     request_of_call L c = Inl err \<or> err = (402, ''Prepaid credits exhausted'') \<or> err \<in> range bridge_error_to_response"

definition outgoing_ok :: "http_lib \<Rightarrow> sdk_call list \<Rightarrow> ws_request \<Rightarrow> bool" where
  "outgoing_ok L C rq \<longleftrightarrow> call_request L C (wr_respond_to rq) (wr_request rq)"

definition ws_event_ok :: "http_lib \<Rightarrow> sdk_call list \<Rightarrow> json_response set \<Rightarrow> ws_event \<Rightarrow> bool" where
  "ws_event_ok L C A e \<longleftrightarrow>
     (case e of WE_New_Request rq \<Rightarrow> outgoing_ok L C rq | WE_Gateway (GM_Response r) \<Rightarrow> r \<in> A | _ \<Rightarrow> True)"

fun ws_effect_ok :: "http_lib \<Rightarrow> sdk_call list \<Rightarrow> json_response set \<Rightarrow> ws_effect \<Rightarrow> bool" where
  "ws_effect_ok L C A (WX_Send (BM_Request q)) \<longleftrightarrow> (\<exists>t. call_request L C t q)"
| "ws_effect_ok L C A (WX_Respond t r) \<longleftrightarrow> r \<in> A \<or> r \<in> range (disconnected L)"
| "ws_effect_ok L C A _ \<longleftrightarrow> True"

definition reply_ok :: "http_lib \<Rightarrow> sdk_call list \<Rightarrow> ws_effect list \<Rightarrow> nat \<times> ((u16 \<times> string) + http_response) \<Rightarrow> bool" where
  "reply_ok L C fx = (\<lambda>(t, reply). (\<exists>err. reply = Inl err \<and> own_failure L (C ! t) err) \<or>
     (\<exists>r. WX_Respond t r \<in> set fx \<and> reply = fst (proxy_end L (Inr r))))"

lemma reply_ok_more: "reply_ok L C fx x \<Longrightarrow> reply_ok L C (fx @ gx) x"
  by (auto simp: reply_ok_def)

lemma reply_ok_error: "own_failure L (C ! t) err \<Longrightarrow> reply_ok L C fx (t, Inl err)"
  by (cases err) (simp add: reply_ok_def)

lemma reply_ok_end: "reply_ok L C fx (t, fst (proxy_end L (Inl err)))"
proof -
  have "own_failure L (C ! t) (bridge_error_to_response err)" by (simp only: own_failure_def rangeI simp_thms)
  from reply_ok_error [OF this] show ?thesis by (simp add: proxy_end_def)
qed

lemma end_call_replies:
  "x \<in> set (wp_replies (end_call L t f p)) \<Longrightarrow> x \<in> set (wp_replies p) \<or> x = (t, fst (proxy_end L f))"
  by (auto simp: end_call_def Let_def split: prod.splits if_splits)

lemma deliver_replies:
  "x \<in> set (wp_replies (deliver L fx p)) \<Longrightarrow> x \<in> set (wp_replies p) \<or> reply_ok L C fx x"
proof (induction L fx p rule: deliver.induct)
  case (2 L t r fx p)
  from 2(1) 2(2) end_call_replies [of x L t "Inr r" p] show ?case by (auto simp: reply_ok_def)
next
  case (3 L t fx p)
  have "reply_ok L C fx x \<Longrightarrow> reply_ok L C (WX_Drop t # fx) x" by (auto simp: reply_ok_def)
  with reply_ok_end [of L C "WX_Drop t # fx" t Response_Dropped] 3 end_call_replies [of x L t "Inl Response_Dropped" p]
  show ?case by auto
qed (auto simp: reply_ok_def)

lemma ws_emit_replies:
  assumes "\<forall>x \<in> set (wp_replies p). reply_ok L C (wp_log p) x"
  shows "\<forall>x \<in> set (wp_replies (ws_emit L fx p)). reply_ok L C (wp_log p @ fx) x"
proof
  fix x assume "x \<in> set (wp_replies (ws_emit L fx p))"
  then have "x \<in> set (wp_replies p) \<or> reply_ok L C fx x"
    using deliver_replies [of x L fx "p\<lparr>wp_log := wp_log p @ fx\<rparr>" C] by (simp add: ws_emit_def)
  with assms reply_ok_more show "reply_ok L C (wp_log p @ fx) x" by (auto simp: reply_ok_def)
qed

lemma ws_handle_effects:
  assumes "ws_handle v e s = (s', fx, go)" and "ws_event_ok L C A e"
  shows "list_all (ws_effect_ok L C A) fx"
  using assms
  by (cases "(v, e, s)" rule: ws_handle.cases)
    (auto simp: ws_on_response_def ws_on_new_request_def ws_handler_defs ws_event_ok_def outgoing_ok_def
      split: option.splits if_splits)

lemma ws_finish_effects: "list_all (ws_effect_ok L C A) (fst (ws_finish L queued s))"
  by (auto simp: ws_finish_def list_all_iff disconnected_def split: ws_event.splits)

lemma drop_requests_effects: "list_all (ws_effect_ok L C A) (drop_requests rqs)"
  by (simp add: drop_requests_def list_all_iff)

text \<open>The invariant of a run, at the call with the number \<open>length (wp_ids p)\<close>.\<close>

definition ws_origin_ok :: "http_lib \<Rightarrow> sdk_call list \<Rightarrow> json_response set \<Rightarrow> ws_process \<Rightarrow> bool" where
  "ws_origin_ok L C A p \<longleftrightarrow>
     list_all (outgoing_ok L C) (wp_requests p @ in_hand p) \<and> list_all (ws_event_ok L C A) (wp_queue p) \<and>
     list_all (ws_effect_ok L C A) (wp_log p) \<and> (\<forall>x \<in> set (wp_replies p). reply_ok L C (wp_log p) x)"

definition ws_step_ok :: "sdk_call list \<Rightarrow> json_response set \<Rightarrow> ws_step \<Rightarrow> ws_process \<Rightarrow> bool" where
  "ws_step_ok C A l p \<longleftrightarrow>
     (case l of WS_Call i q \<Rightarrow> length (wp_ids p) < length C \<and> C ! length (wp_ids p) = (i, q)
      | WS_Arrive (WE_Gateway (GM_Response r)) \<Rightarrow> r \<in> A | _ \<Rightarrow> True)"

lemma ws_origin_end_call:
  "ws_origin_ok L C A p \<Longrightarrow> ws_origin_ok L C A (end_call L t (Inl err) p)"
  using reply_ok_end by (auto simp: ws_origin_ok_def in_hand_def dest: end_call_replies)

lemma ws_origin_call:
  assumes "ws_exec L (WS_Call i q) p = Some p'" and "ws_origin_ok L C A p" and "ws_step_ok C A (WS_Call i q) p"
  shows "ws_origin_ok L C A p'"
proof -
  let ?t = "length (wp_ids p)"
  from assms(3) have t: "?t < length C" "C ! ?t = (i, q)" by (simp_all add: ws_step_ok_def)
  show ?thesis
  proof (cases "proxy_begin L i q (wp_credits p)")
    case (Inl err)
    then have "own_failure L (C ! ?t) err"
      by (auto simp: t proxy_begin_def own_failure_def request_of_call_def split: sum.splits option.splits)
    from reply_ok_error [OF this] Inl assms(1,2) show ?thesis
      by (auto simp: ws_origin_ok_def in_hand_def Let_def)
  next
    case (Inr x)
    then obtain left r where x: "x = (left, r)" by (cases x)
    with Inr have "call_request L C ?t r"
      by (auto simp: t proxy_begin_def call_request_def request_of_call_def split: sum.splits option.splits)
    with Inr x assms(1,2) ws_origin_end_call [of L C A "p\<lparr>wp_ids := wp_ids p @ [i], wp_credits := left, wp_waiting := wp_waiting p @ [?t]\<rparr>" ?t Connection_Closed]
    show ?thesis
      by (auto simp: ws_origin_ok_def in_hand_def outgoing_ok_def Let_def split: if_splits)
  qed
qed

lemma ws_origin_handle:
  assumes "ws_exec L (WS_Handle v) p = Some p'" and "ws_origin_ok L C A p"
  shows "ws_origin_ok L C A p'"
proof -
  from assms(1) obtain e es where q: "wp_queue p = e # es" and o: "wp_open p"
    by (auto split: if_splits list.splits)
  obtain s fx go where h: "ws_handle v e (wp_conn p) = (s, fx, go)" by (cases "ws_handle v e (wp_conn p)")
  have emit: "ws_origin_ok L C A (ws_emit L gx r)"
    if "ws_origin_ok L C A r" "list_all (ws_effect_ok L C A) gx" for gx r
    using that ws_emit_replies [of r L C gx] by (auto simp: ws_origin_ok_def in_hand_def)
  have fx: "list_all (ws_effect_ok L C A) fx"
    by (rule ws_handle_effects [OF h]) (use assms(2) q in \<open>simp add: ws_origin_ok_def\<close>)
  show ?thesis
  proof (cases go)
    case True
    with assms q o h have p': "p' = ws_emit L fx (p\<lparr>wp_conn := s, wp_queue := es\<rparr>)" by simp
    show ?thesis unfolding p'
      by (rule emit [OF _ fx]) (use assms(2) q in \<open>simp add: ws_origin_ok_def in_hand_def\<close>)
  next
    case False
    with assms q o h have p': "p' = ws_end_session L fx s es p" by simp
    obtain fx' outcome where f: "ws_finish L es s = (fx', outcome)" by (cases "ws_finish L es s")
    have "list_all (ws_effect_ok L C A) fx'" using ws_finish_effects [of L C A es s] f by simp
    with fx drop_requests_effects [of L C A] show ?thesis
      unfolding p' ws_end_session_def f Let_def prod.case
      by (intro emit) (use assms(2) in \<open>auto simp: ws_origin_ok_def in_hand_def\<close>)
  qed
qed

lemma ws_origin_step:
  assumes "ws_exec L l p = Some p'" and "ws_origin_ok L C A p" and "ws_step_ok C A l p"
  shows "ws_origin_ok L C A p'"
proof (cases l)
  case (WS_Call i q)
  with assms ws_origin_call show ?thesis by blast
next
  case (WS_Timeout t)
  with assms ws_origin_end_call show ?thesis by (auto split: if_splits)
next
  case (WS_Handle v)
  with assms ws_origin_handle show ?thesis by blast
next
  case (WS_Arrive e)
  with assms show ?thesis
    by (auto simp: ws_origin_ok_def ws_step_ok_def ws_event_ok_def in_hand_def split: if_splits ws_event.splits gateway_message.splits)
qed (use assms in \<open>auto simp: ws_origin_ok_def ws_event_ok_def in_hand_def split: if_splits list.splits option.splits\<close>)

lemma sdk_calls_simps [simp]:
  "sdk_calls [] = []" "sdk_calls (WS_Call i q # ls) = (i, q) # sdk_calls ls"
  "\<forall>i q. l \<noteq> WS_Call i q \<Longrightarrow> sdk_calls (l # ls) = sdk_calls ls"
  by (auto simp: sdk_calls_def split: ws_step.splits)

lemma ws_exec_ids:
  "ws_exec L l p = Some p' \<Longrightarrow> wp_ids p' = wp_ids p @ map fst (sdk_calls [l])"
  by (cases l) (auto simp: sdk_calls_def Let_def ws_end_session_def
      split: if_splits list.splits option.splits sum.splits prod.splits)

lemma sdk_calls_Cons: "sdk_calls (l # ls) = sdk_calls [l] @ sdk_calls ls"
  by (simp add: sdk_calls_def)

lemma ws_run_ids: "runs (ws_exec L) ls p = Some p' \<Longrightarrow> wp_ids p' = wp_ids p @ map fst (sdk_calls ls)"
proof (induction ls arbitrary: p)
  case (Cons l ls)
  then obtain q where "ws_exec L l p = Some q" "runs (ws_exec L) ls q = Some p'"
    by (auto simp: bind_eq_Some_conv)
  with Cons.IH ws_exec_ids show ?case by (simp add: sdk_calls_Cons [of l ls])
qed (simp add: sdk_calls_def)

definition from_the_gateway :: "ws_step list \<Rightarrow> gateway_message set" where
  "from_the_gateway ls = {m. WS_Arrive (WE_Gateway m) \<in> set ls}"

lemma ws_origin_run:
  assumes "runs (ws_exec L) ls p = Some p'" and "ws_origin_ok L (pre @ sdk_calls ls) A p"
    and "length (wp_ids p) = length pre" and "\<forall>r. GM_Response r \<in> from_the_gateway ls \<longrightarrow> r \<in> A"
  shows "ws_origin_ok L (pre @ sdk_calls ls) A p'"
  using assms
proof (induction ls arbitrary: p pre)
  case (Cons l ls)
  let ?C = "pre @ sdk_calls (l # ls)"
  from Cons obtain q where q: "ws_exec L l p = Some q" "runs (ws_exec L) ls q = Some p'"
    by (auto simp: bind_eq_Some_conv)
  have C: "?C = (pre @ sdk_calls [l]) @ sdk_calls ls" by (simp add: sdk_calls_Cons [of l ls])
  have "ws_step_ok ?C A l p"
    using Cons.prems(3,4)
    by (auto simp: ws_step_ok_def from_the_gateway_def split: ws_step.splits ws_event.splits gateway_message.splits)
  from ws_origin_step [OF q(1) Cons.prems(2) this] have "ws_origin_ok L ?C A q" .
  moreover have "length (wp_ids q) = length (pre @ sdk_calls [l])"
    using ws_exec_ids [OF q(1)] Cons.prems(3) by simp
  moreover have "\<forall>r. GM_Response r \<in> from_the_gateway ls \<longrightarrow> r \<in> A"
    using Cons.prems(4) by (simp add: from_the_gateway_def)
  ultimately show ?case unfolding C by (intro Cons.IH [OF q(2)])
qed simp

section \<open>Both sides\<close>

definition from_the_bridge :: "bs_step list \<Rightarrow> bridge_message set" where
  "from_the_bridge ms = {m. BP_Arrive (BE_Bridge m) \<in> set ms}"

text \<open>
  The two directions of the sockets. A connection of the gateway takes its messages from a socket to which
  the bridge wrote, of requests, only those that it sent; a message that the bridge takes was read from a
  socket to which a connection of the gateway wrote, of responses, only those that it answered; and each
  side reads the text that the other wrote as the message that it was written for.
\<close>

definition gateway_reads ::
  "(bridge_message \<Rightarrow> string) \<Rightarrow> (string \<Rightarrow> bridge_message option) \<Rightarrow> ws_effect list \<Rightarrow> bs_step list \<Rightarrow> bool" where
  "gateway_reads to_string from_str bridge_log ms \<longleftrightarrow>
     (\<exists>sent oks up n.
        (\<forall>m \<in> set sent. from_str (to_string m) = Some m) \<and>
        (\<forall>q. BM_Request q \<in> set sent \<longrightarrow> WX_Send (BM_Request q) \<in> set bridge_log) \<and>
        socket_carries (map to_string (write_socket sent oks)) up \<and>
        BE_Bridge ` from_the_bridge ms \<subseteq> set (bs_read_socket from_str n up))"

definition bridge_reads ::
  "(gateway_message \<Rightarrow> string) \<Rightarrow> (string \<Rightarrow> gateway_message option) \<Rightarrow> bs_effect list \<Rightarrow> gateway_message \<Rightarrow> bool" where
  "bridge_reads to_string from_str gateway_log m \<longleftrightarrow>
     (\<exists>sent oks down n.
        (\<forall>m \<in> set sent. from_str (to_string m) = Some m) \<and>
        (\<forall>r. GM_Response r \<in> set sent \<longrightarrow> r \<in> set (bs_answered gateway_log)) \<and>
        socket_carries (map to_string (write_socket sent oks)) down \<and>
        WE_Gateway m \<in> set (ws_read_socket from_str n down))"

lemma gateway_reads_requests:
  assumes "gateway_reads to_string from_str wlog ms" and "BM_Request q \<in> from_the_bridge ms"
  shows "WX_Send (BM_Request q) \<in> set wlog"
proof -
  obtain sent oks up n where
    codec: "\<forall>m \<in> set sent. from_str (to_string m) = Some m" and
    s: "\<forall>q. BM_Request q \<in> set sent \<longrightarrow> WX_Send (BM_Request q) \<in> set wlog" and
    up: "socket_carries (map to_string (write_socket sent oks)) up" and
    got: "BE_Bridge ` from_the_bridge ms \<subseteq> set (bs_read_socket from_str n up)"
    using assms(1) unfolding gateway_reads_def by (elim exE conjE) (rule that; assumption)
  from got assms(2) have "BE_Bridge (BM_Request q) \<in> set (bs_read_socket from_str n up)" by blast
  then have "BE_Bridge (BM_Request q) \<in>
      set (map BE_Bridge (messages_of from_str up) @ map bs_finish_event (take 1 (filter is_final up)))"
    unfolding bsr.reads by (rule in_set_takeD)
  moreover have neq: "BE_Bridge m \<noteq> bs_finish_event y" for m y by (cases y rule: bs_finish_event.cases) auto
  ultimately have "BM_Request q \<in> set (messages_of from_str up)" by (auto simp: neq)
  with set_mono_prefix [OF carried_messages [OF codec up]] s show ?thesis by blast
qed

lemma bridge_reads_responses:
  assumes "bridge_reads to_string from_str blog (GM_Response r)"
  shows "r \<in> set (bs_answered blog)"
proof -
  obtain sent oks down n where
    codec: "\<forall>m \<in> set sent. from_str (to_string m) = Some m" and
    s: "\<forall>r. GM_Response r \<in> set sent \<longrightarrow> r \<in> set (bs_answered blog)" and
    down: "socket_carries (map to_string (write_socket sent oks)) down" and
    got: "WE_Gateway (GM_Response r) \<in> set (ws_read_socket from_str n down)"
    using assms(1) unfolding bridge_reads_def by (elim exE conjE) (rule that; assumption)
  from got have "WE_Gateway (GM_Response r) \<in>
      set (map WE_Gateway (messages_of from_str down) @ map ws_finish_event (take 1 (filter is_final down)))"
    unfolding wsr.reads by (rule in_set_takeD)
  moreover have neq: "WE_Gateway m \<noteq> ws_finish_event y" for m y by (cases y rule: ws_finish_event.cases) auto
  ultimately have "GM_Response r \<in> set (messages_of from_str down)" by (auto simp: neq)
  with set_mono_prefix [OF carried_messages [OF codec down]] s show ?thesis by blast
qed

text \<open>What the gateway makes of a request: the answer of its router, an error that stands for it, or a refusal.\<close>

definition gateway_answer :: "http_lib \<Rightarrow> sdk_json_request \<Rightarrow> json_response \<Rightarrow> bool" where
  "gateway_answer L q r \<longleftrightarrow> r \<in> set (bs_refusals L q) \<or> (\<exists>router. r = bw_handle_one L router q)"

lemma gateway_answer_id: "gateway_answer L q r \<Longrightarrow> jr_id r = sq_id q"
  by (auto simp: gateway_answer_def bs_refusals_def bs_error_response_def)

lemma gateway_answers:
  assumes "runs (bs_exec L) ms (bs_start k) = Some b" and "r \<in> set (bs_answered (bp_log b))"
  shows "\<exists>q. BM_Request q \<in> from_the_bridge ms \<and> gateway_answer L q r"
proof -
  have "bs_origin_ok L (set (concat (map bs_received ms))) b"
    by (rule bs_origin_run [OF assms(1)]) (auto simp: bs_origin_ok_def bs_start_def bs_request_of_def)
  with assms(2) have "r \<in> bs_answers L (set (concat (map bs_received ms)))" by (auto simp: bs_origin_ok_def)
  then obtain q where "q \<in> set (concat (map bs_received ms))" "gateway_answer L q r"
    unfolding bs_answers_def gateway_answer_def by blast
  then show ?thesis
    by (auto simp: from_the_bridge_def bs_received_def bs_request_of_def
        split: bs_step.splits bridge_event.splits bridge_message.splits)
qed

text \<open>C19: A client of an SDK bridge gets the answer to its own call. Take any run of the bridge, over any
  number of sessions, any runs of the gateway's connections with it, and sockets between them that may break
  at any point. If the calls got different ids, the reply to a call is either an error of the bridge itself
  (the request cannot be sent, no credit is left, the gateway is not reached or does not answer in time), or
  made of a response to exactly the JSON request of that call: the gateway's refusal, what it makes of its
  router's answer, or the bridge's own 503 for a request that was in flight when its session ended.\<close>

theorem sdk_reply_is_own:
  assumes "runs (ws_exec L) ls ws_start = Some w"
    and "\<forall>(k, ms, b) \<in> set conns. runs (bs_exec L') ms (bs_start k) = Some b \<and>
           gateway_reads bmt bmf (wp_log w) ms"
    and "\<forall>m \<in> from_the_gateway ls. \<exists>(k, ms, b) \<in> set conns. bridge_reads gmt gmf (bp_log b) m"
    and "distinct (map fst (sdk_calls ls))"
    and "(t, reply) \<in> set (wp_replies w)"
  shows "t < length (sdk_calls ls) \<and>
    ((\<exists>err. reply = Inl err \<and> own_failure L (sdk_calls ls ! t) err) \<or>
     (\<exists>r. reply = fst (proxy_end L (Inr r)) \<and>
        (r = disconnected L (fst (sdk_calls ls ! t)) \<or>
         (\<exists>q. request_of_call L (sdk_calls ls ! t) = Inr q \<and> gateway_answer L' q r))))"
proof -
  let ?C = "sdk_calls ls" and ?A = "{r. GM_Response r \<in> from_the_gateway ls}"
  have ids: "wp_ids w = map fst ?C" using ws_run_ids [OF assms(1)] by (simp add: ws_start_def)
  have "calls_ok ws_start" "ids_ok ws_start" "solvent 0 ws_start"
    by (simp_all add: calls_ok_def ids_ok_def solvent_def replied_def paid_for_def on_the_way_def in_hand_def
        inflight_match_def answers_match_def ws_start_def ws_conn_new_def hash.ok_empty)
  from ws_run_ok [OF assms(1) this] have ok: "calls_ok w" "ids_ok w" by simp_all
  have "ws_origin_ok L ([] @ ?C) ?A w"
    by (rule ws_origin_run [OF assms(1)]) (simp_all add: ws_origin_ok_def in_hand_def ws_start_def)
  then have o: "\<And>x. x \<in> set (wp_log w) \<Longrightarrow> ws_effect_ok L ?C ?A x" "reply_ok L ?C (wp_log w) (t, reply)"
    using assms(5) by (auto simp: ws_origin_ok_def list_all_iff)
  have "t \<in># replied w" using assms(5) by (force simp: replied_def)
  then have t: "t < length ?C" using ok(1) ids by (simp add: calls_ok_def)
  show ?thesis
  proof (cases "\<exists>err. reply = Inl err \<and> own_failure L (?C ! t) err")
    case False
    with o(2) obtain r where r: "WX_Respond t r \<in> set (wp_log w)" "reply = fst (proxy_end L (Inr r))"
      by (auto simp: reply_ok_def)
    have "call_has_id (map fst ?C) (jr_id r) t"
      using ok(2) r(1) unfolding ids_ok_def answers_match_def ids by blast
    then have id: "jr_id r = fst (?C ! t)" using t by (simp add: call_has_id_def)
    from o(1) [OF r(1)] consider (lost) i where "r = disconnected L i" | (answered) "GM_Response r \<in> from_the_gateway ls"
      by auto
    then show ?thesis
    proof cases
      case lost
      with id r(2) t show ?thesis by (auto simp: disconnected_def ws_error_response_def)
    next
      case answered
      with assms(3) obtain k ms b where c: "(k, ms, b) \<in> set conns" "bridge_reads gmt gmf (bp_log b) (GM_Response r)"
        by blast
      with assms(2) have run: "runs (bs_exec L') ms (bs_start k) = Some b" and up: "gateway_reads bmt bmf (wp_log w) ms"
        by auto
      from gateway_answers [OF run bridge_reads_responses [OF c(2)]] obtain q where
        q: "BM_Request q \<in> from_the_bridge ms" "gateway_answer L' q r" by blast
      from o(1) [OF gateway_reads_requests [OF up q(1)]] obtain u where u: "u < length ?C" "request_of_call L (?C ! u) = Inr q"
        by (auto simp: call_request_def)
      then have "sq_id q = fst (?C ! u)"
        by (auto simp: request_of_call_def sp_request_to_json_def Let_def split: option.splits sum.splits)
      with gateway_answer_id [OF q(2)] id have "map fst ?C ! u = map fst ?C ! t" using u(1) t by simp
      with nth_eq_iff_index_eq [OF assms(4), of u t] u(1) t have "u = t" by simp
      with u(2) q(2) r(2) t show ?thesis by blast
    qed
  qed (use t in blast)
qed


text \<open>A call whose request the gateway's router answers, after a key exchange and with one credit on each side.\<close>

definition demo_call :: sdk_call where "demo_call = (Uuid 7, demo_request)"

definition demo_call_json :: sdk_json_request where
  "demo_call_json = \<lparr>sq_id = Uuid 7, sq_method = JPOST, sq_path = ''/tx?x=1'', sq_header = [(''c'', ''d''), (''a'', ''b'')],
     sq_body_base64 = ''body''\<rparr>"

definition demo_gateway_answer :: json_response where
  "demo_gateway_answer = bw_handle_one demo_http_lib demo_constant_router demo_call_json"

definition demo_bridge_steps :: "ws_step list" where
  "demo_bridge_steps =
     [WS_Grant 1, WS_Call (fst demo_call) (snd demo_call), WS_Connect, WS_Take, WS_Put, WS_Handle ws_demo_env,
      WS_Arrive (WE_Gateway (GM_Response demo_gateway_answer)), WS_Handle ws_demo_env]"

definition demo_connection_steps :: "bs_step list" where
  "demo_connection_steps = bs_demo_setup bs_demo_env @
     [BP_Grant 1, BP_Arrive (BE_Bridge (BM_Request demo_call_json)), BP_Handle bs_demo_env,
      BP_Answer 0 demo_constant_router, BP_Handle bs_demo_env]"

lemma demo_call_request: "request_of_call demo_http_lib demo_call = Inr demo_call_json"
  by (simp add: request_of_call_def demo_call_def demo_call_json_def sp_request_to_json_def demo_request_def
      demo_http_lib_def text_headers_def to_bytes_def DEFAULT_MAX_BODY_BYTES_def)

lemma demo_answer_fields:
  "demo_gateway_answer = \<lparr>jr_id = Uuid 7, jr_code = 200, jr_header = [], jr_body_base64 = ''ok''\<rparr>"
  by (simp add: demo_gateway_answer_def demo_call_json_def demo_constant_router_def bw_handle_one_def
      bw_json_to_request_def bw_response_to_json_def demo_http_lib_def build_request_def headers_ok_def
      text_headers_def to_bytes_def decode_body_def Let_def DEFAULT_MAX_BODY_BYTES_def)

lemma demo_connection_run:
  "\<exists>b. runs (bs_exec demo_http_lib) demo_connection_steps (bs_start 1) = Some b \<and>
     bs_answered (bp_log b) = [demo_gateway_answer]"
  by (simp add: demo_connection_steps_def bs_demo_defs bs_on_request_def bs_try_consume_credit_def attempt_def
      bs_at_conn_def Let_def demo_gateway_answer_def)

lemma demo_bridge_run:
  "\<exists>w. runs (ws_exec demo_http_lib) demo_bridge_steps ws_start = Some w \<and>
     WX_Send (BM_Request demo_call_json) \<in> set (wp_log w) \<and>
     wp_replies w = [(0, Inr \<lparr>hr_status = 200, hr_headers = [], hr_body = Inr ''ok''\<rparr>)]"
proof -
  have start: "proxy_begin demo_http_lib (Uuid 7) demo_request 1 = Inr (0, demo_call_json)"
    using demo_call_request
    by (simp add: proxy_begin_def request_of_call_def demo_call_def ws_try_reserve_credit_def attempt_def)
  have reply: "proxy_end demo_http_lib (Inr demo_gateway_answer) =
      (Inr \<lparr>hr_status = 200, hr_headers = [], hr_body = Inr ''ok''\<rparr>, True)"
    by (simp add: proxy_end_def demo_answer_fields sp_json_to_response_def demo_http_lib_def decode_body_def
        build_response_def headers_ok_def)
  have "sq_id demo_call_json = Uuid 7" "jr_id demo_gateway_answer = Uuid 7"
    by (simp_all add: demo_call_json_def demo_answer_fields)
  with start reply show ?thesis
    by (simp add: demo_bridge_steps_def demo_call_def ws_start_def ws_conn_new_def end_call_def
        REQUEST_CAPACITY_def LB_EVENT_CAPACITY_def ws_emit_def ws_on_new_request_def ws_on_response_def
        ws_handler_defs ws_demo_env_def hash_get_def hash_insert_def hash_remove_def)
qed

text \<open>The three messages to the gateway are an exchange's two requests and the call's.\<close>

definition demo_to_string :: "bridge_message \<Rightarrow> string" where
  "demo_to_string m = (case m of BM_HydraKExRequest r \<Rightarrow> if bq_accepted_bridge_h2h_port r = None then ''a'' else ''b''
     | _ \<Rightarrow> ''c'')"

definition demo_to_gateway :: "bridge_message list" where
  "demo_to_gateway = [BM_HydraKExRequest bkex_demo_req,
     BM_HydraKExRequest (bkex_demo_req\<lparr>bq_accepted_bridge_h2h_port := Some 5001\<rparr>), BM_Request demo_call_json]"

lemma demo_gateway_reads:
  assumes "WX_Send (BM_Request demo_call_json) \<in> set wlog"
  shows "gateway_reads demo_to_string (\<lambda>s. map_of (zip [''a'', ''b'', ''c''] demo_to_gateway) s) wlog demo_connection_steps"
  unfolding gateway_reads_def
  using assms
  by (intro exI [of _ demo_to_gateway] exI [of _ "[True, True, True]"]
      exI [of _ "map (\<lambda>m. SR_Frame (WF_Text (demo_to_string m))) demo_to_gateway"] exI [of _ "3 :: nat"])
    (auto simp: demo_to_gateway_def demo_to_string_def socket_carries_def from_the_bridge_def
      demo_connection_steps_def bs_demo_setup_def bkex_demo_req_def numeral_3_eq_3)

lemma demo_bridge_reads:
  assumes "bs_answered blog = [demo_gateway_answer]"
  shows "bridge_reads (\<lambda>_. ''r'') (\<lambda>_. Some (GM_Response demo_gateway_answer)) blog (GM_Response demo_gateway_answer)"
  unfolding bridge_reads_def assms
  by (intro exI [of _ "[GM_Response demo_gateway_answer]"] exI [of _ "[True]"] exI [of _ "[SR_Frame (WF_Text ''r'')]"]
      exI [of _ "1 :: nat"]) (simp add: socket_carries_def)

theorem sdk_reply_is_own_witness:
  "\<exists>r q. request_of_call demo_http_lib demo_call = Inr q \<and> gateway_answer demo_http_lib q r \<and>
     fst (proxy_end demo_http_lib (Inr r)) = Inr \<lparr>hr_status = 200, hr_headers = [], hr_body = Inr ''ok''\<rparr>"
proof -
  let ?reply = "Inr \<lparr>hr_status = 200, hr_headers = [], hr_body = Inr ''ok''\<rparr> :: (u16 \<times> string) + http_response"
  obtain w where w: "runs (ws_exec demo_http_lib) demo_bridge_steps ws_start = Some w"
    "WX_Send (BM_Request demo_call_json) \<in> set (wp_log w)" "(0, ?reply) \<in> set (wp_replies w)"
    using demo_bridge_run by (metis list.set_intros(1))
  obtain b where b: "runs (bs_exec demo_http_lib) demo_connection_steps (bs_start 1) = Some b"
    "bs_answered (bp_log b) = [demo_gateway_answer]"
    using demo_connection_run by blast
  have calls: "sdk_calls demo_bridge_steps = [demo_call]" by (simp add: demo_bridge_steps_def)
  have "fst (proxy_end demo_http_lib (Inr (disconnected demo_http_lib i))) \<noteq> ?reply" for i
    by (simp add: proxy_end_def disconnected_def ws_error_response_def sp_json_to_response_def demo_http_lib_def
        decode_body_def build_response_def headers_ok_def)
  moreover have "from_the_gateway demo_bridge_steps = {GM_Response demo_gateway_answer}"
    by (auto simp: from_the_gateway_def demo_bridge_steps_def)
  ultimately show ?thesis
    using sdk_reply_is_own [OF w(1), of "[(1, demo_connection_steps, b)]" _ demo_to_string _ _ _ 0 ?reply]
      b(1) demo_gateway_reads [OF w(2)] demo_bridge_reads [OF b(2)] w(3)
    by (simp add: calls) metis
qed

end
