(* ===== verification/Paths.thy ===== *)
theory Paths
  imports Prelude
begin

text \<open>
  The paths of files, as \<open>std::path\<close> has them on Unix: whether they are absolute, and their components.
  The executables that the programs look for by name: \<open>find_libexec\<close> of \<open>crates/common\<close> and
  \<open>find_testgen_hs\<close> of \<open>crates/testgen\<close>.
\<close>

section \<open>Paths\<close>

record path =
  pa_absolute :: bool
  pa_components :: "string list"

definition path_join :: "path \<Rightarrow> path \<Rightarrow> path" where
  "path_join p q =
     (if pa_absolute q then q
      else \<lparr>pa_absolute = pa_absolute p, pa_components = pa_components p @ pa_components q\<rparr>)"

definition file_path :: "string list \<Rightarrow> path" where
  "file_path cs = \<lparr>pa_absolute = False, pa_components = cs\<rparr>"

definition path_parent :: "path \<Rightarrow> path option" where
  "path_parent p = (if pa_components p = [] then None else Some (p\<lparr>pa_components := butlast (pa_components p)\<rparr>))"

definition path_file_name :: "path \<Rightarrow> string option" where
  "path_file_name p =
     (if pa_components p = [] \<or> last (pa_components p) = ''..'' then None else Some (last (pa_components p)))"

text \<open>The part before the last dot, unless that is empty.\<close>

definition file_stem_of :: "string \<Rightarrow> string" where
  "file_stem_of name =
     (case dropWhile (\<lambda>c. c \<noteq> CHR ''.'') (rev name) of
        [] \<Rightarrow> name
      | dot # before \<Rightarrow> if before = [] then name else rev before)"

definition path_with_extension :: "string \<Rightarrow> path \<Rightarrow> path" where
  "path_with_extension ext p =
     (case path_file_name p of
        None \<Rightarrow> p
      | Some name \<Rightarrow> p\<lparr>pa_components := butlast (pa_components p) @ [file_stem_of name @ ''.'' @ ext]\<rparr>)"

lemma path_with_extension_inj:
  assumes "path_file_name p \<noteq> None" and "path_with_extension a p = path_with_extension b p"
  shows "a = b"
proof -
  from assms(2) have "pa_components (path_with_extension a p) = pa_components (path_with_extension b p)" by simp
  with assms(1) show ?thesis by (auto simp: path_with_extension_def)
qed

section \<open>Executables\<close>

text \<open>
  \<open>is_file\<close> and \<open>runs\<close>: whether there is a file and whether it can be started with the test arguments.
\<close>

fun first_executable :: "(path \<Rightarrow> bool) \<Rightarrow> (path \<Rightarrow> bool) \<Rightarrow> path list \<Rightarrow> path option" where
  "first_executable is_file runs [] = None"
| "first_executable is_file runs (p # ps) =
     (if is_file p \<and> runs p then Some p else first_executable is_file runs ps)"

text \<open>The environment: variables, the canonical path of the program, the directories of \<open>PATH\<close>.\<close>

record exe_env =
  xe_override :: "path option"             \<comment> \<open>the variable \<open>env_name\<close>\<close>
  xe_current_exe :: "string + path"
  xe_cargo_manifest_dir :: "path option"
  xe_path :: "path list"

definition option_to_list :: "'a option \<Rightarrow> 'a list" where
  "option_to_list x = (case x of None \<Rightarrow> [] | Some a \<Rightarrow> [a])"

definition libexec_search_path :: "string \<Rightarrow> path option \<Rightarrow> exe_env \<Rightarrow> path list" where
  "libexec_search_path exe_name current_exe_parent env =
    (let env_var_dir = Option.bind (xe_override env) path_parent;
         current_exe_dir = map_option (\<lambda>d. path_join d (file_path [exe_name])) current_exe_parent;
         current_package_dir = Option.bind (Option.bind current_exe_dir path_parent) path_parent;
         cargo_target_dir = map_option
           (\<lambda>root. path_join root (file_path [''target'', exe_name, ''extracted'', exe_name])) (xe_cargo_manifest_dir env);
         docker_path = \<lparr>pa_absolute = True, pa_components = [''app'', exe_name]\<rparr>
     in option_to_list env_var_dir @ option_to_list current_exe_dir @ option_to_list current_package_dir @
        option_to_list cargo_target_dir @ [docker_path] @ xe_path env)"

definition find_libexec :: "(path \<Rightarrow> bool) \<Rightarrow> (path \<Rightarrow> bool) \<Rightarrow> string \<Rightarrow> exe_env \<Rightarrow> string + path" where
  "find_libexec is_file runs exe_name env =
     and_then (xe_current_exe env) (\<lambda>current_exe.
       case first_executable is_file runs
              (map (\<lambda>d. path_join d (file_path [exe_name]))
                (libexec_search_path exe_name (path_parent current_exe) env)) of
         Some p \<Rightarrow> Inr p
       | None \<Rightarrow> Inl (''No valid `'' @ exe_name @ ''` binary found in the search path.''))"

text \<open>
  \<open>find_testgen_hs\<close>: candidates are paths of the program or directories. \<open>compiled_in\<close> is the variable
  at compile time.
\<close>

definition testgen_candidates :: "string \<Rightarrow> path option \<Rightarrow> exe_env \<Rightarrow> path list" where
  "testgen_candidates exe_name compiled_in env =
     option_to_list (xe_override env) @ option_to_list compiled_in @
     (case xe_current_exe env of
        Inl _ \<Rightarrow> []
      | Inr current_exe \<Rightarrow>
          (case path_parent current_exe of
             None \<Rightarrow> []
           | Some exe_dir \<Rightarrow>
               [path_join exe_dir (file_path [exe_name]), path_join exe_dir (file_path [''testgen-hs'', exe_name])] @
               (case path_parent exe_dir of
                  None \<Rightarrow> []
                | Some profile_dir \<Rightarrow> [path_join profile_dir (file_path [''testgen-hs'', exe_name])]))) @
     [\<lparr>pa_absolute = True, pa_components = [''app'', ''testgen-hs'']\<rparr>] @
     map (\<lambda>d. path_join d (file_path [exe_name])) (xe_path env)"

definition testgen_path :: "string \<Rightarrow> path \<Rightarrow> path" where
  "testgen_path exe_name candidate =
     (if path_file_name candidate = Some exe_name then candidate
      else path_join candidate (file_path [exe_name]))"

definition find_testgen_hs :: "(path \<Rightarrow> bool) \<Rightarrow> (path \<Rightarrow> bool) \<Rightarrow> path option \<Rightarrow> exe_env \<Rightarrow> string + path" where
  "find_testgen_hs is_file runs compiled_in env =
     (let exe_name = ''testgen-hs''
      in case first_executable is_file runs (map (testgen_path exe_name) (testgen_candidates exe_name compiled_in env)) of
           Some p \<Rightarrow> Inr p
         | None \<Rightarrow> Inl (''No valid `'' @ exe_name @ ''` binary found in the search path.''))"

lemma first_executable_Some:
  "first_executable is_file runs ps = Some p \<Longrightarrow> p \<in> set ps \<and> is_file p \<and> runs p"
  by (induction ps) (auto split: if_split_asm)

lemma path_file_name_join: "file \<noteq> ''..'' \<Longrightarrow> path_file_name (path_join d (file_path [file])) = Some file"
  by (simp add: path_file_name_def path_join_def file_path_def)

text \<open>
  Whatever the environment holds, what is found has the name that was looked for, is a file and could be
  started; a program that was found under its override wins over all others.
\<close>

lemma find_testgen_hs_named:
  assumes "find_testgen_hs is_file runs compiled_in env = Inr p"
  shows "path_file_name p = Some ''testgen-hs'' \<and> is_file p \<and> runs p"
proof -
  from assms have "first_executable is_file runs
      (map (testgen_path ''testgen-hs'') (testgen_candidates ''testgen-hs'' compiled_in env)) = Some p"
    by (auto simp: find_testgen_hs_def Let_def split: option.splits)
  from first_executable_Some [OF this]
  have "p \<in> testgen_path ''testgen-hs'' ` set (testgen_candidates ''testgen-hs'' compiled_in env)"
    and ok: "is_file p" "runs p" by auto
  from this(1) have "path_file_name p = Some ''testgen-hs''"
    by (auto simp: testgen_path_def path_file_name_join)
  with ok show ?thesis by simp
qed

lemma find_testgen_hs_override:
  assumes "xe_override env = Some p" and "is_file (testgen_path ''testgen-hs'' p)" and "runs (testgen_path ''testgen-hs'' p)"
  shows "find_testgen_hs is_file runs compiled_in env = Inr (testgen_path ''testgen-hs'' p)"
  using assms by (simp add: find_testgen_hs_def testgen_candidates_def option_to_list_def Let_def)

text \<open>
  Of an override, \<open>find_libexec\<close> uses the directory only: what it finds has the name it looks for, so that
  an executable under another name is never found through the variable that is to give its path.
\<close>

lemma find_libexec_named:
  assumes "find_libexec is_file runs exe_name env = Inr p" and "exe_name \<noteq> ''..''"
  shows "path_file_name p = Some exe_name \<and> is_file p \<and> runs p"
proof -
  from assms(1) obtain ds where "first_executable is_file runs (map (\<lambda>d. path_join d (file_path [exe_name])) ds) = Some p"
    by (auto simp: find_libexec_def result_iff split: option.splits)
  from first_executable_Some [OF this] assms(2) show ?thesis by (auto simp: path_file_name_join)
qed

lemma find_libexec_override_directory:
  assumes "xe_override env = Some (path_join d (file_path [name]))" and "xe_current_exe env = Inr exe"
    and "is_file (path_join d (file_path [exe_name]))" and "runs (path_join d (file_path [exe_name]))"
  shows "find_libexec is_file runs exe_name env = Inr (path_join d (file_path [exe_name]))"
proof -
  have "path_parent (path_join d (file_path [name])) = Some d"
    by (simp add: path_parent_def path_join_def file_path_def)
  with assms show ?thesis
    by (simp add: find_libexec_def libexec_search_path_def option_to_list_def Let_def)
qed

end
