(* ===== verification/Cardano_Keys.thy ===== *)
theory Cardano_Keys
  imports Hydra_L1_Funds Paths
begin

text \<open>
  Keys, addresses and signatures in the envelopes of cardano-cli, \<open>crates/common/src/cardano_keys.rs\<close>, and the
  platform's own calls to its node in \<open>crates/platform/src/hydra_client/verifications.rs\<close>. The cryptography,
  bech32, hex and the text of JSON are libraries' and parameters; \<open>key_laws\<close> states what is documented of them.
\<close>

section \<open>The libraries\<close>

record ('priv, 'pub) key_library =
  kl_hex_encode :: "string \<Rightarrow> string"
  kl_hex_decode :: "string \<Rightarrow> string hres"
  kl_from_normal_bytes :: "string \<Rightarrow> 'priv hres"
  kl_private_bytes :: "'priv \<Rightarrow> string"
  kl_to_public :: "'priv \<Rightarrow> 'pub"
  kl_public_bytes :: "'pub \<Rightarrow> string"
  kl_public_from_bytes :: "string \<Rightarrow> 'pub hres"
  kl_hash :: "'pub \<Rightarrow> string"
  kl_enterprise_bech32 :: "u8 \<Rightarrow> string \<Rightarrow> string hres"
  kl_sign :: "string \<Rightarrow> 'priv \<Rightarrow> string hres"
  kl_from_str :: "string \<Rightarrow> json hres"
  kl_to_pretty :: "json \<Rightarrow> string"

section \<open>Envelopes\<close>

definition parse_skey_envelope :: "('priv, 'pub) key_library \<Rightarrow> json \<Rightarrow> string hres" where
  "parse_skey_envelope kl envelope =
     (case Option.bind (jget ''cborHex'' envelope) as_str of
        None \<Rightarrow> Inl (Bail ''skey envelope missing cborHex field'')
      | Some cbor_hex \<Rightarrow>
          (case strip_prefix CBOR_32_PREFIX cbor_hex of
             None \<Rightarrow> Inl (Bail ''skey cborHex does not start with 5820'')
           | Some raw_hex \<Rightarrow>
               and_then (kl_hex_decode kl raw_hex) (\<lambda>bytes.
                 if length bytes = 32 then Inr bytes else Inl (Bail ''skey raw bytes are not 32 bytes''))))"

text \<open>\<open>file\<close> is what reading the file of the key gives.\<close>

definition read_skey_bytes :: "('priv, 'pub) key_library \<Rightarrow> string hres \<Rightarrow> string hres" where
  "read_skey_bytes kl file =
     and_then file (\<lambda>contents. and_then (kl_from_str kl contents) (parse_skey_envelope kl))"

definition load_private_key :: "('priv, 'pub) key_library \<Rightarrow> string hres \<Rightarrow> 'priv hres" where
  "load_private_key kl file = and_then (read_skey_bytes kl file) (kl_from_normal_bytes kl)"

definition derive_public_key :: "('priv, 'pub) key_library \<Rightarrow> string hres \<Rightarrow> 'pub hres" where
  "derive_public_key kl file = and_then (load_private_key kl file) (\<lambda>k. Inr (kl_to_public kl k))"

definition vkey_envelope :: "('priv, 'pub) key_library \<Rightarrow> 'pub \<Rightarrow> json" where
  "vkey_envelope kl pub_key =
     JObj [(''type'', JStr ''PaymentVerificationKeyShelley_ed25519''),
       (''description'', JStr ''Payment Verification Key''),
       (''cborHex'', JStr (CBOR_32_PREFIX @ kl_hex_encode kl (kl_public_bytes kl pub_key)))]"

definition skey_envelope :: "('priv, 'pub) key_library \<Rightarrow> 'priv \<Rightarrow> json" where
  "skey_envelope kl priv_key =
     JObj [(''type'', JStr ''PaymentSigningKeyShelley_ed25519''),
       (''description'', JStr ''Payment Signing Key''),
       (''cborHex'', JStr (CBOR_32_PREFIX @ kl_hex_encode kl (kl_private_bytes kl priv_key)))]"

text \<open>
  What is documented of the libraries: hex and the bytes of keys can be read back, a key's bytes are 32, and
  an envelope that was written is read back with the same fields.
\<close>

definition reads_back :: "('priv, 'pub) key_library \<Rightarrow> json \<Rightarrow> bool" where
  "reads_back kl j \<longleftrightarrow>
     (\<exists>j'. kl_from_str kl (kl_to_pretty kl j @ [CHR 0x0A]) = Inr j' \<and> (\<forall>k. jget k j' = jget k j))"

definition key_laws :: "('priv, 'pub) key_library \<Rightarrow> bool" where
  "key_laws kl \<longleftrightarrow>
     (\<forall>b. kl_hex_decode kl (kl_hex_encode kl b) = Inr b) \<and>
     (\<forall>b k. kl_from_normal_bytes kl b = Inr k \<longrightarrow> length b = 32 \<and> kl_private_bytes kl k = b) \<and>
     (\<forall>p. kl_public_from_bytes kl (kl_public_bytes kl p) = Inr p) \<and>
     (\<forall>k. reads_back kl (skey_envelope kl k)) \<and> (\<forall>p. reads_back kl (vkey_envelope kl p))"

definition derive_vkey_from_skey :: "('priv, 'pub) key_library \<Rightarrow> string hres \<Rightarrow> json hres" where
  "derive_vkey_from_skey kl file = and_then (derive_public_key kl file) (\<lambda>pub. Inr (vkey_envelope kl pub))"

section \<open>Addresses\<close>

text \<open>\<open>NetworkId\<close>: its first byte is 1 for the mainnet and 0 for the test networks.\<close>

datatype network_id = NI_Mainnet | NI_Testnet

definition network_id_for :: "string \<Rightarrow> network_id" where
  "network_id_for network = (if network = ''mainnet'' then NI_Mainnet else NI_Testnet)"

fun network_id_byte :: "network_id \<Rightarrow> u8" where
  "network_id_byte NI_Mainnet = 1"
| "network_id_byte NI_Testnet = 0"

definition enterprise_address_from_pubkey :: "('priv, 'pub) key_library \<Rightarrow> string \<Rightarrow> 'pub \<Rightarrow> string hres" where
  "enterprise_address_from_pubkey kl network pub_key =
     kl_enterprise_bech32 kl (network_id_byte (network_id_for network)) (kl_hash kl pub_key)"

definition derive_enterprise_address :: "('priv, 'pub) key_library \<Rightarrow> string hres \<Rightarrow> string \<Rightarrow> string hres" where
  "derive_enterprise_address kl file network =
     and_then (derive_public_key kl file) (enterprise_address_from_pubkey kl network)"

section \<open>New keys\<close>

text \<open>
  Files by their paths. Writing may fail before the file exists or leave a part of the text.
\<close>

type_synonym files = "path \<Rightarrow> string option"

datatype write_outcome =
    WO_Written
  | WO_Not_Created string
  | WO_Partial string string

definition write_json_file ::
  "('priv, 'pub) key_library \<Rightarrow> (path \<Rightarrow> write_outcome) \<Rightarrow> path \<Rightarrow> json \<Rightarrow> files \<Rightarrow> unit hres \<times> files" where
  "write_json_file kl outcome p json fs =
     (case outcome p of
        WO_Written \<Rightarrow> (Inr (), fs(p \<mapsto> kl_to_pretty kl json @ [CHR 0x0A]))
      | WO_Not_Created e \<Rightarrow> (Inl (Ext_Err e), fs)
      | WO_Partial e part \<Rightarrow> (Inl (Ext_Err e), fs(p \<mapsto> part)))"

definition generate_keypair ::
  "('priv, 'pub) key_library \<Rightarrow> string hres \<Rightarrow> (path \<Rightarrow> write_outcome) \<Rightarrow> path \<Rightarrow> files \<Rightarrow> unit hres \<times> files" where
  "generate_keypair kl random_bytes outcome base_path fs =
     (case and_then random_bytes (kl_from_normal_bytes kl) of
        Inl e \<Rightarrow> (Inl e, fs)
      | Inr priv_key \<Rightarrow>
          let pub_key = kl_to_public kl priv_key;
              sk_path = path_with_extension ''sk'' base_path;
              vk_path = path_with_extension ''vk'' base_path
          in case write_json_file kl outcome sk_path (skey_envelope kl priv_key) fs of
               (Inl e, fs') \<Rightarrow> (Inl e, fs')
             | (Inr _, fs') \<Rightarrow> write_json_file kl outcome vk_path (vkey_envelope kl pub_key) fs')"

definition read_file :: "files \<Rightarrow> path \<Rightarrow> string hres" where
  "read_file fs p = (case fs p of None \<Rightarrow> Inl (Ext_Err ''No such file or directory'') | Some t \<Rightarrow> Inr t)"

section \<open>Signatures\<close>

text \<open>\<open>sign_tx_envelope_with_key\<close> is in \<open>Hydra_L1_Funds\<close>.\<close>

definition sign_tx_envelope :: "('priv, 'pub) key_library \<Rightarrow> json \<Rightarrow> string hres \<Rightarrow> json hres" where
  "sign_tx_envelope kl tx_envelope file =
     and_then (load_private_key kl file) (\<lambda>priv_key.
       sign_tx_envelope_with_key (kl_hex_decode kl) (\<lambda>tx. kl_sign kl tx priv_key) (kl_hex_encode kl) tx_envelope)"

section \<open>The platform's node\<close>

text \<open>What the node's local interface answers, in the order of the calls.\<close>

datatype node_value =
    NV_Coin u64
  | NV_Multiasset u64

datatype node_output =
    NO_Current node_value
  | NO_Legacy node_value

fun value_coin :: "node_value \<Rightarrow> u64" where
  "value_coin (NV_Coin coin) = coin"
| "value_coin (NV_Multiasset coin) = coin"

fun output_value :: "node_output \<Rightarrow> node_value" where
  "output_value (NO_Current v) = v"
| "output_value (NO_Legacy v) = v"

record local_node =
  ln_connect :: "unit hres"
  ln_acquire :: "unit hres"
  ln_current_era :: "u16 hres"
  ln_release :: "unit hres"
  ln_utxo_by_address :: "u16 \<Rightarrow> string \<Rightarrow> node_output list hres"

definition lovelace_on_payment_skey ::
  "('priv, 'pub) key_library \<Rightarrow> (string \<Rightarrow> string hres) \<Rightarrow> local_node \<Rightarrow> string \<Rightarrow> string hres \<Rightarrow> u64 hres" where
  "lovelace_on_payment_skey kl address_from_bech32 node network file =
     and_then (derive_enterprise_address kl file network) (\<lambda>bech32_addr.
     and_then (address_from_bech32 bech32_addr) (\<lambda>addr_bytes.
     and_then (ln_connect node) (\<lambda>_.
     and_then (ln_acquire node) (\<lambda>_.
     and_then (ln_current_era node) (\<lambda>era.
     and_then (ln_utxo_by_address node era addr_bytes) (\<lambda>utxos.
     and_then (ln_release node) (\<lambda>_.
       Inr (sum_list (map (\<lambda>output. value_coin (output_value output)) utxos)))))))))"

datatype tx_response =
    TX_Accepted
  | TX_Rejected string
  | TX_Error string

text \<open>The result has what was submitted: the era and the transaction.\<close>

definition platform_empty_commit ::
  "('priv, 'pub) key_library \<Rightarrow> (json \<Rightarrow> (u16 \<times> string) hres) \<Rightarrow> local_node \<Rightarrow> (u16 \<Rightarrow> string \<Rightarrow> tx_response) \<Rightarrow>
     string hres \<Rightarrow> unit hres \<times> (u16 \<times> string) list" where
  "platform_empty_commit kl post node submit_tx signing_skey =
     (case and_then (signed_commit post (kl_from_str kl) (\<lambda>e. sign_tx_envelope kl e signing_skey)
              (kl_hex_decode kl) (JObj [])) (\<lambda>signed_cbor.
           and_then (ln_connect node) (\<lambda>_.
           and_then (ln_acquire node) (\<lambda>_.
           and_then (ln_current_era node) (\<lambda>era.
           and_then (ln_release node) (\<lambda>_. Inr (era, signed_cbor)))))) of
        Inl e \<Rightarrow> (Inl e, [])
      | Inr (era, signed_cbor) \<Rightarrow>
          ((case submit_tx era signed_cbor of
              TX_Accepted \<Rightarrow> Inr ()
            | TX_Rejected reason \<Rightarrow> Inl (Bail (''commit transaction rejected by cardano-node: '' @ reason))
            | TX_Error e \<Rightarrow> Inl (Bail (''error submitting commit transaction to cardano-node: '' @ e))),
           [(era, signed_cbor)]))"

text \<open>
  \<open>gen_hydra_keys\<close>: an existing key is kept. The result has the output file that \<open>hydra-node gen-hydra-key\<close>
  was asked for; \<open>status\<close> is how that command ends.
\<close>

definition gen_hydra_keys :: "unit hres \<Rightarrow> bool hres \<Rightarrow> (path \<Rightarrow> bool) \<Rightarrow> path \<Rightarrow> unit hres \<times> path option" where
  "gen_hydra_keys create_dir_all status exists config_dir =
     (case create_dir_all of
        Inl e \<Rightarrow> (Inl e, None)
      | Inr _ \<Rightarrow>
          if \<not> exists (path_join config_dir (file_path [''hydra.sk''])) then
            (and_then status (\<lambda>success. if success then Inr () else Inl (Bail ''gen-hydra-key failed'')),
             Some (path_join config_dir (file_path [''hydra''])))
          else (Inr (), None))"

section \<open>A new pair of keys\<close>

lemma parse_skey_envelope_get:
  "jget ''cborHex'' j = jget ''cborHex'' j' \<Longrightarrow> parse_skey_envelope kl j = parse_skey_envelope kl j'"
  by (simp add: parse_skey_envelope_def)

lemma parse_skey_envelope_of:
  assumes "key_laws kl" and "kl_from_normal_bytes kl b = Inr k"
  shows "parse_skey_envelope kl (skey_envelope kl k) = Inr b"
  using assms by (auto simp: parse_skey_envelope_def skey_envelope_def jget_def strip_prefix_append key_laws_def)


text \<open>A file that was written with an envelope gives the envelope's key.\<close>

lemma derive_public_key_written:
  assumes "key_laws kl" and "kl_from_normal_bytes kl b = Inr k"
  shows "derive_public_key kl (Inr (kl_to_pretty kl (skey_envelope kl k) @ [CHR 0x0A])) = Inr (kl_to_public kl k)"
proof -
  obtain j' where j': "kl_from_str kl (kl_to_pretty kl (skey_envelope kl k) @ [CHR 0x0A]) = Inr j'"
    "\<And>x. jget x j' = jget x (skey_envelope kl k)"
    using assms(1) unfolding key_laws_def reads_back_def by blast
  have "parse_skey_envelope kl j' = Inr b"
    using parse_skey_envelope_get [where kl = kl, OF j'(2)] parse_skey_envelope_of [OF assms] by simp
  with j'(1) assms(2) show ?thesis
    by (simp add: derive_public_key_def load_private_key_def read_skey_bytes_def)
qed

lemma address_from_written_vkey:
  assumes "key_laws kl" and "kl_from_str kl (kl_to_pretty kl (vkey_envelope kl pub) @ [CHR 0x0A]) = Inr j'"
    and "\<And>k. jget k j' = jget k (vkey_envelope kl pub)"
  shows "derive_enterprise_address_from_vkey_json (kl_hex_decode kl) (kl_public_from_bytes kl)
           (enterprise_address_from_pubkey kl network) j' = enterprise_address_from_pubkey kl network pub"
  using assms(1) unfolding key_laws_def
  by (simp add: derive_enterprise_address_from_vkey_json_def assms(3)) 
    (simp add: vkey_envelope_def jget_def strip_prefix_append)

text \<open>
  When \<open>generate_keypair\<close> succeeds, both files are there; the verification key that is derived from the
  signing key's file is the one that was written, and the address that the program derives from the file of
  the signing key is the one that the SDK bridge derives from the envelope of the verification key. Other
  files are untouched.
\<close>

theorem keypair_roundtrip:
  assumes "key_laws kl" and "path_file_name base_path \<noteq> None"
    and "generate_keypair kl random_bytes outcome base_path fs = (Inr (), fs')"
  shows "\<exists>pub vk_json.
    derive_vkey_from_skey kl (read_file fs' (path_with_extension ''sk'' base_path)) = Inr (vkey_envelope kl pub) \<and>
    and_then (read_file fs' (path_with_extension ''vk'' base_path)) (kl_from_str kl) = Inr vk_json \<and>
    (\<forall>k. jget k vk_json = jget k (vkey_envelope kl pub)) \<and>
    derive_enterprise_address kl (read_file fs' (path_with_extension ''sk'' base_path)) network =
      derive_enterprise_address_from_vkey_json (kl_hex_decode kl) (kl_public_from_bytes kl)
        (enterprise_address_from_pubkey kl network) vk_json \<and>
    (\<forall>p. p \<noteq> path_with_extension ''sk'' base_path \<longrightarrow> p \<noteq> path_with_extension ''vk'' base_path \<longrightarrow> fs' p = fs p)"
proof -
  let ?sk = "path_with_extension ''sk'' base_path" and ?vk = "path_with_extension ''vk'' base_path"
  have ne: "?sk \<noteq> ?vk" using path_with_extension_inj [OF assms(2), of "''sk''" "''vk''"] by auto
  from assms(3) obtain b k where k: "kl_from_normal_bytes kl b = Inr k"
    and fs': "fs' = fs(?sk \<mapsto> kl_to_pretty kl (skey_envelope kl k) @ [CHR 0x0A],
                      ?vk \<mapsto> kl_to_pretty kl (vkey_envelope kl (kl_to_public kl k)) @ [CHR 0x0A])"
    by (auto simp: generate_keypair_def write_json_file_def Let_def result_iff
        split: sum.splits write_outcome.splits prod.splits)
  let ?pub = "kl_to_public kl k"
  obtain j' where j': "kl_from_str kl (kl_to_pretty kl (vkey_envelope kl ?pub) @ [CHR 0x0A]) = Inr j'"
    "\<And>x. jget x j' = jget x (vkey_envelope kl ?pub)"
    using assms(1) unfolding key_laws_def reads_back_def by blast
  have "read_file fs' ?sk = Inr (kl_to_pretty kl (skey_envelope kl k) @ [CHR 0x0A])"
    using ne by (simp add: fs' read_file_def)
  moreover have "read_file fs' ?vk = Inr (kl_to_pretty kl (vkey_envelope kl ?pub) @ [CHR 0x0A])"
    by (simp add: fs' read_file_def)
  ultimately show ?thesis
    using derive_public_key_written [OF assms(1) k] address_from_written_vkey [OF assms(1) j'] j'
    by (intro exI [of _ ?pub] exI [of _ j']) (auto simp: derive_vkey_from_skey_def derive_enterprise_address_def fs')
qed

text \<open>A library whose texts are simple: keys are their bytes, the public key is the reversed private one.\<close>

definition demo_pretty :: "json \<Rightarrow> string" where
  "demo_pretty j =
     (if jget ''type'' j = Some (JStr ''PaymentSigningKeyShelley_ed25519'') then CHR ''S'' else CHR ''V'') #
     (case jget ''cborHex'' j of Some (JStr t) \<Rightarrow> t | _ \<Rightarrow> [])"

definition demo_from_str :: "string \<Rightarrow> json hres" where
  "demo_from_str t =
     (case t of
        [] \<Rightarrow> Inl (Ext_Err ''EOF'')
      | c # cs \<Rightarrow>
          Inr (if c = CHR ''S''
            then JObj [(''type'', JStr ''PaymentSigningKeyShelley_ed25519''),
                   (''description'', JStr ''Payment Signing Key''), (''cborHex'', JStr (butlast cs))]
            else JObj [(''type'', JStr ''PaymentVerificationKeyShelley_ed25519''),
                   (''description'', JStr ''Payment Verification Key''), (''cborHex'', JStr (butlast cs))]))"

definition demo_keys :: "(string, string) key_library" where
  "demo_keys =
     \<lparr>kl_hex_encode = id, kl_hex_decode = Inr,
      kl_from_normal_bytes = (\<lambda>b. if length b = 32 then Inr b else Inl (Ext_Err ''length'')),
      kl_private_bytes = id, kl_to_public = rev, kl_public_bytes = id, kl_public_from_bytes = Inr, kl_hash = id,
      kl_enterprise_bech32 = (\<lambda>n h. Inr (''addr_test1'' @ h)), kl_sign = (\<lambda>tx k. Inr (k @ tx)),
      kl_from_str = demo_from_str, kl_to_pretty = demo_pretty\<rparr>"

lemma demo_key_laws: "key_laws demo_keys"
  by (auto simp: key_laws_def reads_back_def demo_keys_def skey_envelope_def vkey_envelope_def demo_pretty_def
      demo_from_str_def jget_def butlast_append split: if_split_asm)

definition demo_base :: path where
  "demo_base = \<lparr>pa_absolute = True, pa_components = [''tmp'', ''commit.wallet'']\<rparr>"

theorem keypair_roundtrip_witness:
  "\<exists>fs' address. generate_keypair demo_keys (Inr (replicate 32 (CHR ''k''))) (\<lambda>_. WO_Written) demo_base Map.empty =
       (Inr (), fs') \<and>
     derive_enterprise_address demo_keys
       (read_file fs' \<lparr>pa_absolute = True, pa_components = [''tmp'', ''commit.sk'']\<rparr>) ''preview'' = Inr address"
proof -
  have base: "path_file_name demo_base \<noteq> None" by (simp add: demo_base_def path_file_name_def)
  have sk: "path_with_extension ''sk'' demo_base = \<lparr>pa_absolute = True, pa_components = [''tmp'', ''commit.sk'']\<rparr>"
    by (simp add: demo_base_def path_with_extension_def path_file_name_def file_stem_of_def)
  obtain fs' where run: "generate_keypair demo_keys (Inr (replicate 32 (CHR ''k''))) (\<lambda>_. WO_Written) demo_base Map.empty =
       (Inr (), fs')"
    by (simp add: generate_keypair_def write_json_file_def demo_keys_def Let_def)
  from keypair_roundtrip [OF demo_key_laws base run, of "''preview''"] sk run show ?thesis
    by (auto simp: derive_vkey_from_skey_def derive_enterprise_address_def enterprise_address_from_pubkey_def
        demo_keys_def result_iff)
qed

section \<open>The empty commit\<close>

text \<open>
  The platform submits at most one transaction, the signed answer of the hydra-node, in the era that the
  node reported; the call succeeds exactly when the node accepted it.
\<close>

lemma platform_commit_submitted:
  assumes "platform_empty_commit kl post node submit_tx skey = (result, submitted)"
  shows "(submitted = [] \<and> result \<noteq> Inr ()) \<or>
    (\<exists>era tx. submitted = [(era, tx)] \<and> ln_current_era node = Inr era \<and> (result = Inr () \<longleftrightarrow> submit_tx era tx = TX_Accepted) \<and>
       signed_commit post (kl_from_str kl) (\<lambda>e. sign_tx_envelope kl e skey) (kl_hex_decode kl) (JObj []) = Inr tx)"
  using assms
  by (auto simp: platform_empty_commit_def result_iff split: sum.splits tx_response.splits)

end
