(* ===== verification/Testgen.thy ===== *)
theory Testgen
  imports Hydra_Json
begin

text \<open>
  The worker around the decoder \<open>testgen-hs\<close>, \<open>crates/testgen/src/testgen.rs\<close>: one thread starts the
  program, gives it one request at a time and starts it again when it fails. The program is a parameter:
  it may crash, hang up or answer anything. The decoder of \<open>crates/error_decoder/src/external.rs\<close> is built on it.
\<close>

section \<open>Responses\<close>

datatype testgen_response =
    TR_Ok json
  | TR_Err json

definition MISSING_BOTH_FIELDS_MSG :: string where
  "MISSING_BOTH_FIELDS_MSG = ''invalid testgen-hs response: missing both `json` and `error`''"

text \<open>
  The derived deserializer of the two optional fields: of an object, whose other fields are ignored, or of an
  array in their order. An absent field and \<open>null\<close> are both \<open>None\<close>. The texts of its errors are only logged.
\<close>

definition wire_option :: "json option \<Rightarrow> json option" where
  "wire_option v = (case v of Some JNull \<Rightarrow> None | _ \<Rightarrow> v)"

definition duplicate_field :: "string \<Rightarrow> (string \<times> json) list \<Rightarrow> bool" where
  "duplicate_field k m \<longleftrightarrow> 1 < length (filter (\<lambda>(k', _). k' = k) m)"

fun testgen_wire :: "json \<Rightarrow> string + json option \<times> json option" where
  "testgen_wire (JObj m) =
     (if duplicate_field ''json'' m \<or> duplicate_field ''error'' m then Inl ''duplicate field''
      else Inr (wire_option (map_of m ''json''), wire_option (map_of m ''error'')))"
| "testgen_wire (JArr vs) =
     (case vs of
        [] \<Rightarrow> Inr (None, None)
      | [v] \<Rightarrow> Inr (wire_option (Some v), None)
      | [v, w] \<Rightarrow> Inr (wire_option (Some v), wire_option (Some w))
      | _ \<Rightarrow> Inl ''trailing characters'')"
| "testgen_wire _ = Inl ''invalid type''"

definition testgen_response_of :: "json \<Rightarrow> string + testgen_response" where
  "testgen_response_of v =
     (case testgen_wire v of
        Inl e \<Rightarrow> Inl e
      | Inr (Some json, _) \<Rightarrow> Inr (TR_Ok json)
      | Inr (None, Some error) \<Rightarrow> Inr (TR_Err error)
      | Inr (None, None) \<Rightarrow> Inl MISSING_BOTH_FIELDS_MSG)"

text \<open>\<open>serde_json::from_str\<close>; the parser of JSON is a parameter.\<close>

definition parse_testgen_line :: "(string \<Rightarrow> string + json) \<Rightarrow> string \<Rightarrow> string + testgen_response" where
  "parse_testgen_line from_str line =
     (case from_str line of Inl e \<Rightarrow> Inl e | Inr v \<Rightarrow> testgen_response_of v)"

section \<open>The child\<close>

text \<open>
  What one run of the program does with a line, given the lines written to it before: the line cannot be
  written, or it can and a line, an error or the end is read.
\<close>

datatype child_reply =
    CR_Unwritten string
  | CR_Line string
  | CR_Read_Error string
  | CR_End

type_synonym testgen_child = "string list \<Rightarrow> string \<Rightarrow> child_reply"

record testgen_request =
  tq_sender :: nat         \<comment> \<open>which \<open>oneshot\<close> the answer goes to\<close>
  tq_payload :: string

datatype testgen_event =
    TG_Spawned u32
  | TG_Init string
  | TG_Asked testgen_request
  | TG_Replied testgen_request "string + testgen_response"
  | TG_Reaped
  | TG_Delayed

definition ask_and_receive ::
  "(string \<Rightarrow> string + json) \<Rightarrow> testgen_child \<Rightarrow> string list \<Rightarrow> string \<Rightarrow> string + testgen_response" where
  "ask_and_receive from_str child written payload =
     (case child written payload of
        CR_Unwritten err \<Rightarrow> Inl (''couldn't write to stdin: '' @ err)
      | CR_Line line \<Rightarrow> parse_testgen_line from_str line
      | CR_Read_Error e \<Rightarrow> Inl (''failed to read from subprocess: '' @ e)
      | CR_End \<Rightarrow> Inl ''no output from subprocess'')"

section \<open>The worker\<close>

text \<open>
  \<open>queue\<close> are the requests of the channel, those that still come included: \<open>blocking_recv\<close> gives \<open>None\<close>
  only after the last. \<open>unfulfilled\<close> is \<open>last_unfulfilled_request\<close>.
\<close>

definition take_request ::
  "testgen_request option \<Rightarrow> testgen_request list \<Rightarrow> ((testgen_request \<times> bool) \<times> testgen_request list) option" where
  "take_request unfulfilled queue =
     (case unfulfilled of
        Some a \<Rightarrow> Some ((a, True), queue)
      | None \<Rightarrow> (case queue of [] \<Rightarrow> None | a # queue' \<Rightarrow> Some ((a, False), queue')))"

type_synonym testgen_progress = "testgen_event list \<times> string \<times> testgen_request option \<times> testgen_request list"

definition after_events :: "'e list \<Rightarrow> 'e list \<times> 'a \<Rightarrow> 'e list \<times> 'a" where
  "after_events ev r = (ev @ fst r, snd r)"

text \<open>Requests that are left, a unfulfilled one for half: it has been tried.\<close>

definition work_left :: "testgen_request option \<Rightarrow> testgen_request list \<Rightarrow> nat" where
  "work_left unfulfilled queue = 2 * length queue + (if unfulfilled = None then 0 else 1)"

function serve_requests ::
  "(string \<Rightarrow> string + json) \<Rightarrow> testgen_child \<Rightarrow> string list \<Rightarrow> testgen_request option \<Rightarrow>
     testgen_request list \<Rightarrow> testgen_progress" where
  "serve_requests from_str child written unfulfilled queue =
     (case take_request unfulfilled queue of
        None \<Rightarrow> ([], ''request channel closed'', None, [])
      | Some ((request, is_a_retry), queue') \<Rightarrow>
          (case ask_and_receive from_str child written (tq_payload request) of
             Inr response \<Rightarrow>
               after_events [TG_Asked request, TG_Replied request (Inr response)]
                 (serve_requests from_str child (written @ [tq_payload request]) None queue')
           | Inl err \<Rightarrow>
               if is_a_retry
               then ([TG_Asked request, TG_Replied request (Inl ''repeated internal failure'')], err, None, queue')
               else ([TG_Asked request], err, Some request, queue')))"
  by pat_completeness auto
termination
  by (relation "measure (\<lambda>(_, _, _, unfulfilled, queue). work_left unfulfilled queue)")
    (auto simp: take_request_def work_left_def split: option.splits list.splits)

declare serve_requests.simps [simp del]

definition process_requests ::
  "(string \<Rightarrow> string + json) \<Rightarrow> testgen_child \<Rightarrow> string option \<Rightarrow> testgen_request option \<Rightarrow>
     testgen_request list \<Rightarrow> testgen_progress" where
  "process_requests from_str child init_payload unfulfilled queue =
     (case init_payload of
        None \<Rightarrow> serve_requests from_str child [] unfulfilled queue
      | Some payload \<Rightarrow>
          (case child [] payload of
             CR_Unwritten err \<Rightarrow> ([TG_Init payload], ''couldn't write init payload: '' @ err, unfulfilled, queue)
           | CR_Line line \<Rightarrow>
               (case parse_testgen_line from_str line of
                  Inl e \<Rightarrow> ([TG_Init payload], ''init response parse error: '' @ e, unfulfilled, queue)
                | Inr (TR_Err e) \<Rightarrow> ([TG_Init payload], ''init failed'', unfulfilled, queue)
                | Inr (TR_Ok _) \<Rightarrow>
                    after_events [TG_Init payload] (serve_requests from_str child [payload] unfulfilled queue))
           | CR_Read_Error e \<Rightarrow> ([TG_Init payload], ''init read error: '' @ e, unfulfilled, queue)
           | CR_End \<Rightarrow> ([TG_Init payload], ''no init response from subprocess'', unfulfilled, queue)))"

text \<open>
  One round of the loop: how the program starts, what it does, whether \<open>try_recv\<close> finds the next request
  in the channel already (or all senders gone, after the last), and whether they are gone after the delay.
\<close>

record testgen_run =
  tr_spawned :: "string + u32"
  tr_child :: testgen_child
  tr_arrived :: bool
  tr_closed :: bool

definition spawn_child ::
  "(string \<Rightarrow> string + json) \<Rightarrow> string option \<Rightarrow> testgen_run \<Rightarrow> testgen_request option \<Rightarrow>
     testgen_request list \<Rightarrow> testgen_progress" where
  "spawn_child from_str init_payload run unfulfilled queue =
     (case tr_spawned run of
        Inl err \<Rightarrow> ([], ''couldn't start the child: '' @ err, unfulfilled, queue)
      | Inr pid \<Rightarrow>
          (case process_requests from_str (tr_child run) init_payload unfulfilled queue of
             (ev, err, unfulfilled', queue') \<Rightarrow> (TG_Spawned pid # ev @ [TG_Reaped], err, unfulfilled', queue')))"

text \<open>The result: what happened, what is left, and whether the thread has ended.\<close>

fun testgen_worker ::
  "(string \<Rightarrow> string + json) \<Rightarrow> string option \<Rightarrow> testgen_run list \<Rightarrow> testgen_request option \<Rightarrow>
     testgen_request list \<Rightarrow> testgen_event list \<times> testgen_request option \<times> testgen_request list \<times> bool" where
  "testgen_worker from_str init_payload [] unfulfilled queue = ([], unfulfilled, queue, False)"
| "testgen_worker from_str init_payload (run # runs) unfulfilled queue =
     (case spawn_child from_str init_payload run unfulfilled queue of
        (ev, err, unfulfilled', queue') \<Rightarrow>
          if unfulfilled' = None \<and> tr_arrived run \<and> queue' = [] then (ev, None, [], True)
          else
            let (unfulfilled'', queue'') =
                  (if unfulfilled' = None \<and> tr_arrived run then (Some (hd queue'), tl queue') else (unfulfilled', queue'))
            in if unfulfilled'' = None \<and> tr_closed run then (ev @ [TG_Delayed], None, queue'', True)
               else after_events (ev @ [TG_Delayed]) (testgen_worker from_str init_payload runs unfulfilled'' queue''))"

text \<open>\<open>child_pid\<close> of the last process that was started and is not yet reaped\<close>

definition child_pid :: "u32 \<Rightarrow> u32 option" where
  "child_pid current = (if current = - 1 then None else Some current)"

fun current_child_pid :: "testgen_event list \<Rightarrow> u32" where
  "current_child_pid [] = - 1"
| "current_child_pid (TG_Spawned pid # earlier) = pid"
| "current_child_pid (TG_Reaped # earlier) = - 1"
| "current_child_pid (_ # earlier) = current_child_pid earlier"

text \<open>\<open>send\<close>: the answer comes within the time-out, or the worker drops the sender, or neither.\<close>

datatype testgen_wait =
    TW_Answered "string + testgen_response"
  | TW_Dropped
  | TW_Timeout

definition testgen_send :: "bool \<Rightarrow> testgen_wait \<Rightarrow> string + testgen_response" where
  "testgen_send sent wait =
     (if \<not> sent then Inl ''Testgen: failed to send request''
      else case wait of
        TW_Timeout \<Rightarrow> Inl ''Testgen: request timed out after 30s''
      | TW_Dropped \<Rightarrow> Inl ''Testgen: worker thread dropped''
      | TW_Answered r \<Rightarrow> r)"

text \<open>\<open>decode\<close> of the external decoder: the answers of the program, and failures as texts.\<close>

definition external_decode :: "(json \<Rightarrow> string) \<Rightarrow> string + testgen_response \<Rightarrow> string + json" where
  "external_decode show_json answer =
     (case answer of
        Inr (TR_Ok v) \<Rightarrow> Inr v
      | Inr (TR_Err err) \<Rightarrow> Inl (show_json err)
      | Inl err \<Rightarrow> Inl err)"

section \<open>Every request is answered once, in order\<close>

fun testgen_replies :: "testgen_event list \<Rightarrow> (testgen_request \<times> (string + testgen_response)) list" where
  "testgen_replies [] = []"
| "testgen_replies (TG_Replied request response # ev) = (request, response) # testgen_replies ev"
| "testgen_replies (TG_Spawned pid # ev) = testgen_replies ev"
| "testgen_replies (TG_Init payload # ev) = testgen_replies ev"
| "testgen_replies (TG_Asked request # ev) = testgen_replies ev"
| "testgen_replies (TG_Reaped # ev) = testgen_replies ev"
| "testgen_replies (TG_Delayed # ev) = testgen_replies ev"

fun asked :: "testgen_event list \<Rightarrow> testgen_request list" where
  "asked [] = []"
| "asked (TG_Asked request # ev) = request # asked ev"
| "asked (TG_Replied request response # ev) = asked ev"
| "asked (TG_Spawned pid # ev) = asked ev"
| "asked (TG_Init payload # ev) = asked ev"
| "asked (TG_Reaped # ev) = asked ev"
| "asked (TG_Delayed # ev) = asked ev"

lemma replied_append [simp]: "testgen_replies (ev @ ev') = testgen_replies ev @ testgen_replies ev'"
  by (induction ev rule: testgen_replies.induct) auto

lemma asked_append [simp]: "asked (ev @ ev') = asked ev @ asked ev'"
  by (induction ev rule: asked.induct) auto

definition option_list :: "'a option \<Rightarrow> 'a list" where
  "option_list x = (case x of None \<Rightarrow> [] | Some a \<Rightarrow> [a])"

lemma option_list_simps [simp]: "option_list None = []" "option_list (Some a) = [a]"
  by (simp_all add: option_list_def)

text \<open>
  What a part of the worker's run may do to the requests \<open>before\<close> it: answer the first of them and leave the
  others in their order; ask no more often than the work that it saves; and answer with what the program
  said to the payload, or that it failed. \<open>says\<close> is what the programs may say to a payload.
\<close>

definition honest_reply :: "(string \<Rightarrow> testgen_response \<Rightarrow> bool) \<Rightarrow> testgen_request \<times> (string + testgen_response) \<Rightarrow> bool" where
  "honest_reply says r \<longleftrightarrow>
     (case snd r of Inl e \<Rightarrow> e = ''repeated internal failure'' | Inr resp \<Rightarrow> says (tq_payload (fst r)) resp)"

definition progress_ok ::
  "(string \<Rightarrow> testgen_response \<Rightarrow> bool) \<Rightarrow> testgen_request option \<Rightarrow> testgen_request list \<Rightarrow> testgen_event list \<Rightarrow>
     testgen_request option \<Rightarrow> testgen_request list \<Rightarrow> bool" where
  "progress_ok says unfulfilled queue ev unfulfilled' queue' \<longleftrightarrow>
     map fst (testgen_replies ev) @ option_list unfulfilled' @ queue' = option_list unfulfilled @ queue \<and>
     length (asked ev) + work_left unfulfilled' queue' \<le> work_left unfulfilled queue \<and>
     list_all (honest_reply says) (testgen_replies ev)"

lemma progress_ok_refl: "asked ev = [] \<Longrightarrow> testgen_replies ev = [] \<Longrightarrow> progress_ok says u q ev u q"
  by (simp add: progress_ok_def)

lemma progress_ok_trans:
  "progress_ok says u q ev u' q' \<Longrightarrow> progress_ok says u' q' ev' u'' q'' \<Longrightarrow> progress_ok says u q (ev @ ev') u'' q''"
  by (auto simp: progress_ok_def)

lemma progress_ok_frame:
  "progress_ok says u q ev u' q' \<Longrightarrow> asked ev' = [] \<Longrightarrow> testgen_replies ev' = [] \<Longrightarrow> progress_ok says u q (ev' @ ev) u' q'"
  "progress_ok says u q ev u' q' \<Longrightarrow> asked ev' = [] \<Longrightarrow> testgen_replies ev' = [] \<Longrightarrow> progress_ok says u q (ev @ ev') u' q'"
  by (simp_all add: progress_ok_def)

definition child_says :: "(string \<Rightarrow> string + json) \<Rightarrow> testgen_child \<Rightarrow> string \<Rightarrow> testgen_response \<Rightarrow> bool" where
  "child_says from_str child payload response \<longleftrightarrow>
     (\<exists>written line. child written payload = CR_Line line \<and> parse_testgen_line from_str line = Inr response)"

lemma ask_and_receive_says:
  "ask_and_receive from_str child written payload = Inr response \<Longrightarrow> child_says from_str child payload response"
  by (auto simp: ask_and_receive_def child_says_def split: child_reply.splits)

lemma serve_requests_ok:
  assumes "\<forall>p r. child_says from_str child p r \<longrightarrow> says p r"
    and "serve_requests from_str child written u q = (ev, err, u', q')"
  shows "progress_ok says u q ev u' q' \<and> (u \<noteq> None \<or> q \<noteq> [] \<longrightarrow> work_left u' q' < work_left u q)"
  using assms
proof (induction "from_str" "child" written u q arbitrary: ev err u' q' rule: serve_requests.induct)
  case (1 fs ch written u q)
  show ?case
  proof (cases "take_request u q")
    case None
    then have "u = None" "q = []" by (auto simp: take_request_def split: option.splits list.splits)
    with 1(3) show ?thesis
      by (subst (asm) serve_requests.simps) (auto simp: take_request_def progress_ok_def work_left_def)
  next
    case (Some t)
    then obtain request is_a_retry q1 where t: "take_request u q = Some ((request, is_a_retry), q1)"
      by (cases t) auto
    then have shape: "option_list u @ q = request # q1" "is_a_retry \<longleftrightarrow> u \<noteq> None"
      "work_left u q = 2 * length q1 + (if is_a_retry then 1 else 2)"
      by (auto simp: take_request_def work_left_def split: option.splits list.splits)
    show ?thesis
    proof (cases "ask_and_receive fs ch written (tq_payload request)")
      case (Inl e)
      with 1(3) t shape show ?thesis
        by (subst (asm) serve_requests.simps)
          (auto simp: progress_ok_def work_left_def honest_reply_def split: if_split_asm)
    next
      case (Inr response)
      have "serve_requests fs ch written u q = after_events [TG_Asked request, TG_Replied request (Inr response)]
          (serve_requests fs ch (written @ [tq_payload request]) None q1)"
        by (subst serve_requests.simps) (simp add: t Inr)
      with 1(3) obtain ev1
        where rest: "serve_requests fs ch (written @ [tq_payload request]) None q1 = (ev1, err, u', q')"
        and ev: "ev = [TG_Asked request, TG_Replied request (Inr response)] @ ev1"
        by (auto simp: after_events_def prod_eq_iff)
      from 1(1) [OF t refl refl Inr 1(2) rest] have "progress_ok says None q1 ev1 u' q'" by blast
      moreover from ask_and_receive_says [OF Inr] 1(2) have "says (tq_payload request) response"
        by blast
      ultimately show ?thesis using shape unfolding ev
        by (auto simp: progress_ok_def work_left_def honest_reply_def split: if_splits)
    qed
  qed
qed


lemma spawn_child_ok:
  assumes "\<forall>p r. child_says from_str (tr_child run) p r \<longrightarrow> says p r"
    and "spawn_child from_str init run u q = (ev, err, u', q')"
  shows "progress_ok says u q ev u' q'"
proof (cases "tr_spawned run")
  case (Inr pid)
  with assms(2) obtain ev1 where p: "process_requests from_str (tr_child run) init u q = (ev1, err, u', q')"
    and ev: "ev = TG_Spawned pid # ev1 @ [TG_Reaped]"
    by (auto simp: spawn_child_def split: prod.splits)
  have "progress_ok says u q ev1 u' q'"
  proof (cases init)
    case None
    with p serve_requests_ok [OF assms(1)] show ?thesis
      by (auto simp: process_requests_def)
  next
    case (Some payload)
    obtain ev2 where "(ev1 = [TG_Init payload] \<and> u' = u \<and> q' = q) \<or>
        (ev1 = [TG_Init payload] @ ev2 \<and> serve_requests from_str (tr_child run) [payload] u q = (ev2, err, u', q'))"
      using p Some
      by (auto simp: process_requests_def after_events_def prod_eq_iff
          split: child_reply.splits sum.splits testgen_response.splits)
    then show ?thesis
      using serve_requests_ok [OF assms(1)]
      by (auto intro!: progress_ok_refl progress_ok_frame(1) [of _ _ _ _ _ _ "[TG_Init payload]", simplified])
  qed
  then show ?thesis unfolding ev
    by (intro progress_ok_frame(1) [of _ _ _ _ _ _ "[TG_Spawned pid]", simplified] progress_ok_frame(2)) simp_all
qed (use assms(2) in \<open>auto simp: spawn_child_def intro: progress_ok_refl\<close>)

lemma testgen_worker_ok:
  assumes "\<forall>run \<in> set runs. \<forall>p r. child_says from_str (tr_child run) p r \<longrightarrow> says p r"
    and "testgen_worker from_str init runs u q = (ev, u', q', ended)"
  shows "progress_ok says u q ev u' q'"
  using assms
proof (induction runs arbitrary: u q ev)
  case Nil
  then show ?case by (simp add: progress_ok_refl)
next
  case (Cons run runs)
  obtain ev1 err u1 q1 where s: "spawn_child from_str init run u q = (ev1, err, u1, q1)"
    by (cases "spawn_child from_str init run u q") auto
  have first: "progress_ok says u q ev1 u1 q1"
    by (rule spawn_child_ok [OF _ s]) (use Cons.prems(1) in auto)
  show ?case
  proof (cases "u1 = None \<and> tr_arrived run \<and> q1 = []")
    case True
    with Cons.prems(2) s first show ?thesis by auto
  next
    case False
    define u2 where "u2 = (if u1 = None \<and> tr_arrived run then Some (hd q1) else u1)"
    define q2 where "q2 = (if u1 = None \<and> tr_arrived run then tl q1 else q1)"
    have "progress_ok says u1 q1 [TG_Delayed] u2 q2"
      using False by (auto simp: progress_ok_def u2_def q2_def work_left_def neq_Nil_conv)
    with first have both: "progress_ok says u q (ev1 @ [TG_Delayed]) u2 q2" by (rule progress_ok_trans)
    show ?thesis
    proof (cases "u2 = None \<and> tr_closed run")
      case True
      with Cons.prems(2) s False both show ?thesis
        by (auto simp: u2_def q2_def Let_def split: if_split_asm)
    next
      case go: False
      with Cons.prems(2) s False obtain ev2 where
        ev2: "testgen_worker from_str init runs u2 q2 = (ev2, u', q', ended)" "ev = (ev1 @ [TG_Delayed]) @ ev2"
        by (auto simp: u2_def q2_def Let_def after_events_def prod_eq_iff split: if_split_asm)
      have "progress_ok says u2 q2 ev2 u' q'"
        by (rule Cons.IH [OF _ ev2(1)]) (use Cons.prems(1) in auto)
      with both show ?thesis unfolding ev2(2) by (rule progress_ok_trans)
    qed
  qed
qed


section \<open>Every request is answered\<close>

definition run_ready :: "(string \<Rightarrow> string + json) \<Rightarrow> string option \<Rightarrow> testgen_run \<Rightarrow> bool" where
  "run_ready from_str init_payload run \<longleftrightarrow>
     (\<exists>pid. tr_spawned run = Inr pid) \<and> \<not> tr_closed run \<and>
     (case init_payload of
        None \<Rightarrow> True
      | Some payload \<Rightarrow>
          (\<exists>line v. tr_child run [] payload = CR_Line line \<and> parse_testgen_line from_str line = Inr (TR_Ok v)))"

lemma work_left_0: "work_left u q = 0 \<longleftrightarrow> u = None \<and> q = []"
  by (auto simp: work_left_def)

lemma spawn_child_works:
  assumes "run_ready from_str init run" and "spawn_child from_str init run u q = (ev, err, u', q')"
  shows "work_left u' q' \<le> work_left u q - 1"
proof -
  obtain pid where pid: "tr_spawned run = Inr pid" using assms(1) by (auto simp: run_ready_def)
  obtain written ev1 where serve: "serve_requests from_str (tr_child run) written u q = (ev1, err, u', q')"
    using assms pid
    by (cases init) (auto simp: run_ready_def spawn_child_def process_requests_def after_events_def prod_eq_iff
        split: prod.splits)
  have "\<forall>p r. child_says from_str (tr_child run) p r \<longrightarrow> True" by simp
  from serve_requests_ok [OF this serve]
  have "work_left u' q' \<le> work_left u q" and "u \<noteq> None \<or> q \<noteq> [] \<Longrightarrow> work_left u' q' < work_left u q"
    by (auto simp: progress_ok_def)
  then show ?thesis using work_left_0 [of u q] by fastforce
qed

lemma testgen_worker_done:
  assumes "list_all (run_ready from_str init) runs" and "work_left u q \<le> length runs"
    and "testgen_worker from_str init runs u q = (ev, u', q', ended)"
  shows "u' = None \<and> q' = []"
  using assms
proof (induction runs arbitrary: u q ev)
  case Nil
  then show ?case by (simp add: work_left_0)
next
  case (Cons run runs)
  then have ready: "run_ready from_str init run" and ready': "list_all (run_ready from_str init) runs" by simp_all
  obtain ev1 err u1 q1 where s: "spawn_child from_str init run u q = (ev1, err, u1, q1)"
    by (cases "spawn_child from_str init run u q") auto
  from spawn_child_works [OF ready s] Cons.prems(2) have left: "work_left u1 q1 \<le> length runs" by simp
  have open': "\<not> tr_closed run" using ready by (simp add: run_ready_def)
  show ?case
  proof (cases "u1 = None \<and> tr_arrived run")
    case False
    with Cons.prems(3) s open' obtain ev2 where "testgen_worker from_str init runs u1 q1 = (ev2, u', q', ended)"
      by (auto simp: Let_def after_events_def prod_eq_iff split: if_split_asm)
    from Cons.IH [OF ready' left this] show ?thesis .
  next
    case True
    show ?thesis
    proof (cases q1)
      case Nil
      with True Cons.prems(3) s show ?thesis by simp
    next
      case (Cons r rs)
      with True Cons.prems(3) s open' obtain ev2 where
        w: "testgen_worker from_str init runs (Some r) rs = (ev2, u', q', ended)"
        by (auto simp: Let_def after_events_def prod_eq_iff)
      have "work_left (Some r) rs \<le> length runs" using left True Cons by (simp add: work_left_def)
      from Cons.IH [OF ready' this w] show ?thesis .
    qed
  qed
qed

text \<open>C40: Whatever the programs do and whenever requests arrive: the answers go to the requests in the order of
  their arrival, each request is answered at most once, and what is not answered is still held, unless all
  who could wait for an answer are gone. An answer is what one of the programs said to the very payload of
  the request, or the failure. The programs are asked at most twice per request. When as many programs as
  that start, all requests are answered.\<close>

theorem testgen_answers_requests:
  assumes "testgen_worker from_str init runs None requests = (ev, unfulfilled, queue, ended)"
  shows "map fst (testgen_replies ev) @ option_list unfulfilled @ queue = requests \<and>
    length (asked ev) \<le> 2 * length requests \<and>
    list_all (honest_reply (\<lambda>p r. \<exists>run \<in> set runs. child_says from_str (tr_child run) p r)) (testgen_replies ev) \<and>
    (list_all (run_ready from_str init) runs \<and> 2 * length requests \<le> length runs \<longrightarrow>
       map fst (testgen_replies ev) = requests)"
proof -
  have "\<forall>run \<in> set runs. \<forall>p r. child_says from_str (tr_child run) p r \<longrightarrow>
      (\<exists>run \<in> set runs. child_says from_str (tr_child run) p r)" by blast
  from testgen_worker_ok [OF this assms]
  have ok: "progress_ok (\<lambda>p r. \<exists>run \<in> set runs. child_says from_str (tr_child run) p r) None requests ev
      unfulfilled queue" .
  then have rest: "map fst (testgen_replies ev) @ option_list unfulfilled @ queue = requests"
    "length (asked ev) \<le> 2 * length requests"
    "list_all (honest_reply (\<lambda>p r. \<exists>run \<in> set runs. child_says from_str (tr_child run) p r)) (testgen_replies ev)"
    by (simp_all add: progress_ok_def work_left_def)
  moreover have "map fst (testgen_replies ev) = requests"
    if "list_all (run_ready from_str init) runs" "2 * length requests \<le> length runs"
    using testgen_worker_done [OF that(1) _ assms] that(2) rest(1) by (simp add: work_left_def)
  ultimately show ?thesis by blast
qed

section \<open>A request that is tried once\<close>

text \<open>
  Programs that answer nothing, and two requests: the first is tried twice. The second, taken from the
  channel between two programs, counts as a retry already and fails after a single attempt.
\<close>

definition dead_run :: testgen_run where
  "dead_run = \<lparr>tr_spawned = Inr 7, tr_child = (\<lambda>_ _. CR_End), tr_arrived = True, tr_closed = False\<rparr>"

definition request_1 :: testgen_request where "request_1 = \<lparr>tq_sender = 1, tq_payload = ''81''\<rparr>"
definition request_2 :: testgen_request where "request_2 = \<lparr>tq_sender = 2, tq_payload = ''82''\<rparr>"

lemma dead_run_serves:
  "serve_requests from_str (\<lambda>_ _. CR_End) written (Some a) q =
     ([TG_Asked a, TG_Replied a (Inl ''repeated internal failure'')], ''no output from subprocess'', None, q)"
  "serve_requests from_str (\<lambda>_ _. CR_End) written None (a # q) =
     ([TG_Asked a], ''no output from subprocess'', Some a, q)"
  by (subst serve_requests.simps; simp add: take_request_def ask_and_receive_def)+

lemma second_request_not_retried:
  "\<exists>ev. testgen_worker from_str None [dead_run, dead_run, dead_run] None [request_1, request_2] = (ev, None, [], True) \<and>
     asked ev = [request_1, request_1, request_2] \<and>
     testgen_replies ev = [(request_1, Inl ''repeated internal failure''), (request_2, Inl ''repeated internal failure'')]"
  by (simp add: spawn_child_def process_requests_def dead_run_def dead_run_serves after_events_def)

theorem testgen_answers_requests_witness:
  "\<exists>ev. testgen_worker Inl None [dead_run, dead_run, dead_run, dead_run] None [request_1, request_2] =
       (ev, None, [], True) \<and>
     map fst (testgen_replies ev) = [request_1, request_2]"
proof -
  obtain ev where run: "testgen_worker Inl None [dead_run, dead_run, dead_run, dead_run] None [request_1, request_2] =
       (ev, None, [], True)"
    by (simp add: spawn_child_def process_requests_def dead_run_def dead_run_serves after_events_def)
  have "list_all (run_ready Inl None) [dead_run, dead_run, dead_run, dead_run]"
    by (simp add: run_ready_def dead_run_def)
  with testgen_answers_requests [OF run] run show ?thesis by simp
qed

end
