(* ===== verification/Sdk_Config.thy ===== *)
theory Sdk_Config
  imports Platform_Input
begin

text \<open>
  The start-up configuration of the SDK bridge, \<open>crates/sdk_bridge/src/config.rs\<close>, with the networks of
  \<open>types.rs\<close>. The parsers of socket addresses and URLs are libraries' and parameters; of a URL, its scheme and
  its path are changed, as \<open>set_scheme\<close> (among http, https, ws and wss) and \<open>set_path\<close> do.
\<close>

datatype sdk_network = SN_Mainnet | SN_Preprod | SN_Preview

fun sdk_network_text :: "sdk_network \<Rightarrow> string" where
  "sdk_network_text SN_Mainnet = ''mainnet''"
| "sdk_network_text SN_Preprod = ''preprod''"
| "sdk_network_text SN_Preview = ''preview''"

fun sdk_network_to_common :: "sdk_network \<Rightarrow> network" where
  "sdk_network_to_common SN_Mainnet = Mainnet"
| "sdk_network_to_common SN_Preprod = Preprod"
| "sdk_network_to_common SN_Preview = Preview"

section \<open>The WebSocket of the gateway\<close>

text \<open>\<open>ur_rest\<close>: host, port, query and the other parts.\<close>

record ws_url =
  ur_scheme :: string
  ur_path :: string
  ur_rest :: string

definition ends_with :: "string \<Rightarrow> string \<Rightarrow> bool" where
  "ends_with s suffix \<longleftrightarrow> starts_with (rev suffix) (rev s)"

definition trim_end_slashes :: "string \<Rightarrow> string" where
  "trim_end_slashes s = rev (dropWhile (\<lambda>c. c = CHR ''/'') (rev s))"

definition ws_scheme :: "string \<Rightarrow> string + string" where
  "ws_scheme s =
     (if s = ''http'' then Inr ''ws''
      else if s = ''https'' then Inr ''wss''
      else if s = ''ws'' \<or> s = ''wss'' then Inr s
      else Inl (''Unsupported URL scheme: '' @ s))"

definition ws_path :: "string \<Rightarrow> string" where
  "ws_path path =
     (if path = [] \<or> path = ''/'' then ''/sdk/ws''
      else if ends_with path ''/sdk/ws/'' then trim_end_slashes path
      else if \<not> ends_with path ''/sdk/ws'' then
        (if ends_with path ''/'' then path @ ''sdk/ws'' else path @ ''/sdk/ws'')
      else path)"

definition normalized_url :: "ws_url \<Rightarrow> string + ws_url" where
  "normalized_url url =
     and_then (ws_scheme (ur_scheme url)) (\<lambda>scheme.
       Inr (url\<lparr>ur_scheme := scheme, ur_path := ws_path (ur_path url)\<rparr>))"

definition normalize_gateway_ws_url :: "(string \<Rightarrow> string + ws_url) \<Rightarrow> (ws_url \<Rightarrow> string) \<Rightarrow> string \<Rightarrow> string + string" where
  "normalize_gateway_ws_url parse show_url raw =
     (case parse raw of
        Inl err \<Rightarrow> Inl (''Invalid gateway URL: '' @ err)
      | Inr url \<Rightarrow> and_then (normalized_url url) (\<lambda>url'. Inr (show_url url')))"

section \<open>The configuration\<close>

record sdk_args =
  sa_gateway_url :: "string option"
  sa_listen_address :: string
  sa_network :: sdk_network
  sa_blockfrost_project_id :: string
  sa_cardano_signing_key :: string

record 'addr sdk_config =
  bc_gateway_ws_url :: string
  bc_listen_address :: 'addr
  bc_network :: sdk_network
  bc_blockfrost_project_id :: string
  bc_cardano_signing_key :: string

definition bridge_config_from_args ::
  "(string \<Rightarrow> string + 'addr) \<Rightarrow> (string \<Rightarrow> string + ws_url) \<Rightarrow> (ws_url \<Rightarrow> string) \<Rightarrow> sdk_args \<Rightarrow>
     string + 'addr sdk_config" where
  "bridge_config_from_args parse_addr parse show_url args =
     (case parse_addr (sa_listen_address args) of
        Inl err \<Rightarrow> Inl (''Invalid listen address: '' @ err)
      | Inr listen_address \<Rightarrow>
          let gateway_base_url = (case sa_gateway_url args of
                Some u \<Rightarrow> u | None \<Rightarrow> default_gateway_url (sdk_network_to_common (sa_network args)))
          in and_then (normalize_gateway_ws_url parse show_url gateway_base_url) (\<lambda>gateway_ws_url.
               Inr \<lparr>bc_gateway_ws_url = gateway_ws_url, bc_listen_address = listen_address,
                    bc_network = sa_network args, bc_blockfrost_project_id = sa_blockfrost_project_id args,
                    bc_cardano_signing_key = sa_cardano_signing_key args\<rparr>))"

section \<open>What the bridge connects to\<close>

lemma starts_with_append: "starts_with p s \<longleftrightarrow> (\<exists>r. s = p @ r)"
proof (induction p arbitrary: s)
  case Nil
  then show ?case by (simp add: starts_with_def)
next
  case (Cons c p)
  then show ?case by (cases s) (auto simp: starts_with_def)
qed

lemma ends_with_iff: "ends_with s suffix \<longleftrightarrow> (\<exists>r. s = r @ suffix)"
  unfolding ends_with_def starts_with_append by (metis rev_append rev_rev_ident)

lemma ws_path_ends: "ends_with (ws_path p) ''/sdk/ws''"
proof (cases "ends_with p ''/sdk/ws/''")
  case True
  then obtain r where "p = r @ ''/sdk/ws/''" by (auto simp: ends_with_iff)
  then show ?thesis using True
    by (auto simp: ws_path_def trim_end_slashes_def ends_with_iff)
next
  case False
  show ?thesis
  proof (cases "ends_with p ''/''")
    case True
    then obtain r where "p = r @ ''/''" by (auto simp: ends_with_iff)
    with False show ?thesis by (auto simp: ws_path_def ends_with_iff)
  next
    case no_slash: False
    with False show ?thesis by (auto simp: ws_path_def ends_with_iff)
  qed
qed

lemma ws_path_fixed: "ends_with p ''/sdk/ws'' \<Longrightarrow> ws_path p = p"
proof -
  assume "ends_with p ''/sdk/ws''"
  then obtain r where "p = r @ ''/sdk/ws''" by (auto simp: ends_with_iff)
  then show ?thesis
    by (simp add: ws_path_def ends_with_def starts_with_def)
qed

text \<open>
  Whatever URL is given, a configuration that is accepted connects by a WebSocket to the path of the gateway's
  route for SDK bridges, on the host that was given; giving the normalized URL again changes nothing.
\<close>

theorem gateway_url_normalized:
  assumes "normalized_url url = Inr url'"
  shows "ur_scheme url' \<in> {''ws'', ''wss''} \<and> (ur_scheme url' = ''wss'' \<longleftrightarrow> ur_scheme url \<in> {''https'', ''wss''}) \<and>
    ends_with (ur_path url') ''/sdk/ws'' \<and> ur_rest url' = ur_rest url \<and> normalized_url url' = Inr url'"
proof -
  from assms obtain s where s: "ws_scheme (ur_scheme url) = Inr s"
    and url': "url' = url\<lparr>ur_scheme := s, ur_path := ws_path (ur_path url)\<rparr>"
    by (auto simp: normalized_url_def result_iff)
  have "ws_scheme s = Inr s" "s \<in> {''ws'', ''wss''}" "s = ''wss'' \<longleftrightarrow> ur_scheme url \<in> {''https'', ''wss''}"
    using s by (auto simp: ws_scheme_def split: if_splits)
  then show ?thesis
    by (simp add: url' ws_path_ends ws_path_fixed [OF ws_path_ends] normalized_url_def)
qed

theorem gateway_url_normalized_witness:
  "normalized_url \<lparr>ur_scheme = ''https'', ur_path = ''/'', ur_rest = ''host''\<rparr> =
     Inr \<lparr>ur_scheme = ''wss'', ur_path = ''/sdk/ws'', ur_rest = ''host''\<rparr> \<and>
   normalized_url \<lparr>ur_scheme = ''wss'', ur_path = ''/sdk/ws'', ur_rest = ''host''\<rparr> =
     Inr \<lparr>ur_scheme = ''wss'', ur_path = ''/sdk/ws'', ur_rest = ''host''\<rparr>"
proof -
  have "normalized_url \<lparr>ur_scheme = ''https'', ur_path = ''/'', ur_rest = ''host''\<rparr> =
     Inr \<lparr>ur_scheme = ''wss'', ur_path = ''/sdk/ws'', ur_rest = ''host''\<rparr>"
    by (simp add: normalized_url_def ws_scheme_def ws_path_def)
  with gateway_url_normalized [OF this] show ?thesis by simp
qed

end
