(* ===== verification/Gateway_Database.thy ===== *)
theory Gateway_Database
  imports Registration
begin

text \<open>
  The tables of the gateway, \<open>crates/gateway/src/db.rs\<close> with \<open>models.rs\<close> and \<open>schema.rs\<close>, and the two queries of the
  registration on them. The pool and the connection may fail: \<open>db_calls\<close> has what they give.
  \<open>dev_mock_db\<close> is the feature of that name, which answers without a database.
\<close>

record user =
  us_id :: int
  us_created_at :: string
  us_user_id :: int
  us_email :: string
  us_secret :: string

record request_row =
  rr_id :: int
  rr_route :: string
  rr_mode :: string
  rr_ip_address :: string
  rr_port :: int
  rr_reward_address :: string

record tables =
  tb_users :: "user list"
  tb_requests :: "(int \<times> request_new_item) list"
  tb_next_id :: int

text \<open>What the pool, the thread of the connection and the query give: an error, or nothing.\<close>

record db_calls =
  dbc_pool :: "string option"
  dbc_interact :: "string option"
  dbc_query :: "string option"

definition db_call :: "db_calls \<Rightarrow> 'a \<Rightarrow> api_error + 'a" where
  "db_call calls a =
     (case dbc_pool calls of
        Some e \<Rightarrow> Inl (DatabaseConnection e)
      | None \<Rightarrow>
          (case dbc_interact calls of
             Some e \<Rightarrow> Inl (DatabaseInteraction e)
           | None \<Rightarrow> (case dbc_query calls of Some e \<Rightarrow> Inl (DatabaseQuery e) | None \<Rightarrow> Inr a)))"

definition mock_user :: user where
  "mock_user = \<lparr>us_id = 31337, us_created_at = ''2015-09-05 23:56:04'', us_user_id = 31337,
     us_email = ''xxx@xxx.xxx'', us_secret = ''xxxxxxxx''\<rparr>"

definition request_row_of :: "(uuid \<Rightarrow> string) \<Rightarrow> int \<Rightarrow> request_new_item \<Rightarrow> request_row" where
  "request_row_of show_uuid i item =
     \<lparr>rr_id = i, rr_route = show_uuid (ri_route item), rr_mode = ri_mode item,
      rr_ip_address = ri_ip_address item, rr_port = ri_port item, rr_reward_address = ri_reward_address item\<rparr>"

definition insert_request ::
  "bool \<Rightarrow> (uuid \<Rightarrow> string) \<Rightarrow> db_calls \<Rightarrow> request_new_item \<Rightarrow> tables \<Rightarrow> (api_error + request_row) \<times> tables" where
  "insert_request dev_mock_db show_uuid calls request t =
     (if dev_mock_db then (Inr (request_row_of show_uuid 42 request), t)
      else
        case db_call calls (request_row_of show_uuid (tb_next_id t) request) of
          Inl e \<Rightarrow> (Inl e, t)
        | Inr row \<Rightarrow>
            (Inr row, t\<lparr>tb_requests := tb_requests t @ [(tb_next_id t, request)], tb_next_id := tb_next_id t + 1\<rparr>))"

text \<open>\<open>users.filter(secret.eq(...)).first\<close>, in the order in which the database finds the rows.\<close>

definition authorize_user :: "bool \<Rightarrow> db_calls \<Rightarrow> string \<Rightarrow> tables \<Rightarrow> api_error + user" where
  "authorize_user dev_mock_db calls secret_param t =
     (if dev_mock_db then Inr mock_user
      else
        and_then (db_call calls (find (\<lambda>u. us_secret u = secret_param) (tb_users t))) (\<lambda>user_result.
          case user_result of Some user \<Rightarrow> Inr user | None \<Rightarrow> Inl Unauthorized))"

text \<open>
  Without the mock, a caller is authorized only by the secret of a user of the table, and is refused as
  unauthorized exactly when the database worked and has no user with that secret.
\<close>

lemma authorize_user_Inr:
  "authorize_user False calls s t = Inr u \<Longrightarrow> u \<in> set (tb_users t) \<and> us_secret u = s"
  by (auto simp: authorize_user_def result_iff db_call_def dest!: find_SomeD split: option.splits)

lemma authorize_user_Unauthorized:
  "authorize_user False calls s t = Inl Unauthorized \<longleftrightarrow>
     calls = \<lparr>dbc_pool = None, dbc_interact = None, dbc_query = None\<rparr> \<and> (\<forall>u \<in> set (tb_users t). us_secret u \<noteq> s)"
  by (cases calls) (auto simp: authorize_user_def db_call_def find_None_iff split: option.splits dest: find_SomeD)

lemma authorize_user_distinct:
  assumes "distinct (map us_secret (tb_users t))" and "u \<in> set (tb_users t)"
  shows "authorize_user False \<lparr>dbc_pool = None, dbc_interact = None, dbc_query = None\<rparr> (us_secret u) t = Inr u"
proof -
  have "distinct (map us_secret us) \<Longrightarrow> u \<in> set us \<Longrightarrow> find (\<lambda>v. us_secret v = us_secret u) us = Some u" for us
    by (induction us) (auto simp: image_iff)
  with assms have "find (\<lambda>v. us_secret v = us_secret u) (tb_users t) = Some u" by blast
  then show ?thesis by (simp add: authorize_user_def db_call_def)
qed

section \<open>Registration with these tables\<close>

definition with_database :: "(uuid \<Rightarrow> string) \<Rightarrow> db_calls \<Rightarrow> db_calls \<Rightarrow> tables \<Rightarrow> 'ip register_env \<Rightarrow> 'ip register_env" where
  "with_database show_uuid calls calls' t v =
     v\<lparr>re_authorize_user := \<lambda>s. and_then (authorize_user False calls s t) (\<lambda>u. Inr (us_user_id u)),
       re_insert_request := \<lambda>item. and_then (fst (insert_request False show_uuid calls' item t)) (\<lambda>_. Inr ())\<rparr>"

text \<open>
  A registration on these tables succeeds only with the secret of one of the users, and only when the
  database recorded it, under that user.
\<close>

lemma registration_on_tables:
  assumes "register_route (with_database show_uuid calls calls' t v) header socket_ip body = Inr r"
  shows "\<exists>p u item. re_from_slice v body = Inr p \<and> u \<in> set (tb_users t) \<and> us_secret u = rp_secret p \<and>
    ri_user_id item = us_user_id u \<and>
    tb_requests (snd (insert_request False show_uuid calls' item t)) = tb_requests t @ [(tb_next_id t, item)]"
proof -
  let ?v = "with_database show_uuid calls calls' t v"
  from register_route_Inr [OF assms] obtain p user_id item where "re_from_slice ?v body = Inr p"
    and user: "re_authorize_user ?v (rp_secret p) = Inr user_id"
    and item: "re_insert_request ?v item = Inr ()" "ri_user_id item = user_id"
    by (metis request_new_item.select_convs(1))
  then have p: "re_from_slice v body = Inr p" by (simp add: with_database_def)
  from user obtain u where u: "authorize_user False calls (rp_secret p) t = Inr u" "user_id = us_user_id u"
    by (auto simp: with_database_def result_iff)
  from item(1) have "tb_requests (snd (insert_request False show_uuid calls' item t)) = tb_requests t @ [(tb_next_id t, item)]"
    by (auto simp: with_database_def insert_request_def result_iff split: sum.splits)
  with p u item(2) authorize_user_Inr [OF u(1)] show ?thesis by blast
qed

end
