(* ===== verification/Platform_Server.thy ===== *)
theory Platform_Server
  imports Health_Monitor Platform_Config
begin

text \<open>
  The ends of the platform that put its parts together: the check of a transaction before it is submitted
  (\<open>crates/node/src/cbor/validation.rs\<close>), the page with the health of the platform (\<open>platform/src/api/root.rs\<close>),
  and which tasks the program starts (\<open>platform/src/main.rs\<close>).
\<close>

section \<open>Transactions\<close>

text \<open>
  The decoder of transactions is a library's. Of a decoded transaction the check sees the outputs, and of
  those in the legacy format their value. A decoding error has its text and its position, if known.
  \<open>as_cbor_decode_failure\<close> is the library's text of a failure.
\<close>

datatype tx_value =
    TV_Coin u64
  | TV_Multiasset u64 "(string \<times> (string \<times> u64) list) list"

datatype tx_output =
    TO_Legacy tx_value
  | TO_Post_Alonzo tx_value

definition check_multiasset_zero :: "tx_output list \<Rightarrow> bool" where
  "check_multiasset_zero outputs =
     list_ex (\<lambda>out. case out of
         TO_Legacy (TV_Multiasset coin kv) \<Rightarrow> list_ex (\<lambda>(policy, assets). list_ex (\<lambda>(asset, amount). amount = 0) assets) kv
       | _ \<Rightarrow> False) outputs"

definition validate_tx_cbor ::
  "(string \<Rightarrow> (string \<times> u64 option) + tx_output list) \<Rightarrow> (string \<Rightarrow> u64 \<Rightarrow> string + string) \<Rightarrow> string \<Rightarrow>
     blockfrost_error + unit" where
  "validate_tx_cbor decode as_cbor_decode_failure tx =
     (let failure = (\<lambda>text position. Inl (custom_400
            (case as_cbor_decode_failure text position of
               Inr t \<Rightarrow> t | Inl e \<Rightarrow> ''Failed to format decode error: '' @ e)))
      in case decode tx of
           Inr outputs \<Rightarrow>
             if check_multiasset_zero outputs then failure ''MultiAsset cannot contain zeros'' 0 else Inr ()
         | Inl (e, position) \<Rightarrow> failure e (case position of Some p \<Rightarrow> p | None \<Rightarrow> 0))"

text \<open>
  Accepted are exactly the decoded transactions of which no legacy output holds a quantity 0 of an asset; a
  refusal is the client's error.
\<close>

lemma check_multiasset_zero_iff:
  "check_multiasset_zero outputs \<longleftrightarrow>
     (\<exists>coin kv policy assets asset. TO_Legacy (TV_Multiasset coin kv) \<in> set outputs \<and> (policy, assets) \<in> set kv \<and>
        (asset, 0) \<in> set assets)"
proof
  assume "check_multiasset_zero outputs"
  then obtain out where "out \<in> set outputs" and *: "case out of
         TO_Legacy (TV_Multiasset coin kv) \<Rightarrow> list_ex (\<lambda>(policy, assets). list_ex (\<lambda>(asset, amount). amount = 0) assets) kv
       | _ \<Rightarrow> False"
    by (auto simp: check_multiasset_zero_def list_ex_iff)
  from this(2) show "\<exists>coin kv policy assets asset. TO_Legacy (TV_Multiasset coin kv) \<in> set outputs \<and>
      (policy, assets) \<in> set kv \<and> (asset, 0) \<in> set assets"
    using \<open>out \<in> set outputs\<close> by (auto simp: list_ex_iff split: tx_output.splits tx_value.splits) blast
next
  assume "\<exists>coin kv policy assets asset. TO_Legacy (TV_Multiasset coin kv) \<in> set outputs \<and>
      (policy, assets) \<in> set kv \<and> (asset, 0) \<in> set assets"
  then obtain coin kv where out: "TO_Legacy (TV_Multiasset coin kv) \<in> set outputs"
    and "\<exists>policy assets asset. (policy, assets) \<in> set kv \<and> (asset, 0) \<in> set assets" by blast
  from this(2) have "list_ex (\<lambda>(policy, assets). list_ex (\<lambda>(asset, amount). amount = 0) assets) kv"
    by (fastforce simp: list_ex_iff)
  with out show "check_multiasset_zero outputs"
    unfolding check_multiasset_zero_def list_ex_iff by (intro bexI [OF _ out]) simp
qed

lemma validate_tx_cbor_Inr:
  "validate_tx_cbor decode fmt tx = Inr () \<longleftrightarrow> (\<exists>outputs. decode tx = Inr outputs \<and> \<not> check_multiasset_zero outputs)"
  by (auto simp: validate_tx_cbor_def Let_def split: sum.splits)

lemma validate_tx_cbor_Inl:
  "validate_tx_cbor decode fmt tx = Inl e \<Longrightarrow> bf_status_code e = 400"
  by (auto simp: validate_tx_cbor_def Let_def custom_400_def split: sum.splits if_splits)

section \<open>The page of the platform's health\<close>

record root_response =
  ro_name :: string
  ro_version :: string
  ro_revision :: string
  ro_healthy :: bool
  ro_node_info :: "node_info option"
  ro_data_node :: "string option"
  ro_errors :: "string list"

definition root_route :: "string \<Rightarrow> string \<Rightarrow> string \<Rightarrow> health_monitor \<Rightarrow> u16 \<times> root_response" where
  "root_route name version revision health_monitor =
     (let status = current_status health_monitor;
          http_status = (if hs_healthy status then 200 else 503)
      in (http_status,
          \<lparr>ro_name = name, ro_version = version, ro_revision = revision, ro_healthy = hs_healthy status,
           ro_node_info = hs_node_info status, ro_data_node = hs_data_node_info status,
           ro_errors = map show_blockfrost_error (hs_errors status)\<rparr>))"

text \<open>The code, the flag and the list of errors say the same.\<close>

lemma root_route_consistent:
  "fst (root_route name version revision hm) = 200 \<longleftrightarrow> ro_errors (snd (root_route name version revision hm)) = []"
  "ro_healthy (snd (root_route name version revision hm)) \<longleftrightarrow> ro_errors (snd (root_route name version revision hm)) = []"
  by (simp_all add: root_route_def current_status_def Let_def)

section \<open>The tasks of the program\<close>

datatype started_task =
    Task_Server
  | Task_Icebreakers_Manager
  | Task_Hydra_Controller

text \<open>
  \<open>icebreakers_api\<close> is there exactly when the Icebreakers are configured (\<open>Icebreakers\<close>); the controller
  also registers as a source of health errors. The order is that of the code; what fails on the way ends the
  program.
\<close>

definition started_tasks :: "bool \<Rightarrow> bool \<Rightarrow> bool \<Rightarrow> started_task list" where
  "started_tasks icebreakers_api hydra icebreakers_config =
     [Task_Server] @ (if icebreakers_api then [Task_Icebreakers_Manager] else []) @
     (if hydra then (if icebreakers_config then [Task_Hydra_Controller] else []) else [])"

text \<open>The controller never runs without the task that forwards its key exchange.\<close>

lemma hydra_with_icebreakers:
  assumes "icebreakers_api \<longleftrightarrow> icebreakers_config"
    and "Task_Hydra_Controller \<in> set (started_tasks icebreakers_api hydra icebreakers_config)"
  shows "Task_Icebreakers_Manager \<in> set (started_tasks icebreakers_api hydra icebreakers_config)"
  using assms by (auto simp: started_tasks_def split: if_splits)

end
