(* ===== verification/Spec2Isabelle.thy ===== *)
theory Spec2Isabelle
  imports Lb_Registry Lb_Connection_Correct Tcp_Tunnel_Correct Api_Errors Hydra_Platform_Correct
    Hydras_Manager Bridge_Protocol Credits Remote_Key_Exchange Platform_Connection_Correct
    Gateway_Connections Hydra_Nodes Sdk_Bridge_Connection_Correct Sdk_Session_Correct Platform_Rest_Correct Hydra_L1_Funds Lb_Routes Registration
    Icebreakers Health_Monitor Process_Group Gateway_Config Gateway_Metrics
    Client_End_To_End Bridge_End_To_End Cardano_Keys Testgen Sdk_Config Gateway_Database Platform_Server
begin

text \<open>
  \<^bold>\<open>What the program is.\<close> A Blockfrost platform serves the REST API of Blockfrost from a Cardano node and a
  data node of its own. It registers with a gateway, keeps a WebSocket to it, and answers the requests that
  the gateway relays from clients. The gateway pays the platform through a Hydra head, a micropayment per
  group of requests. An SDK bridge runs at the other side of the gateway: it takes HTTP requests of an
  application, sends them to the gateway over a WebSocket of its own, and prepays them in a Hydra head. All
  sources are under \<open>src/crates\<close>: \<open>gateway\<close>, \<open>platform\<close>, \<open>sdk_bridge\<close>, \<open>common\<close>, \<open>node\<close>, \<open>data_node\<close>,
  \<open>testgen\<close> and \<open>error_decoder\<close>.

  \<^bold>\<open>How the program is modelled.\<close> Handlers are functions from the state, a record with the fields of the
  struct, an event, a datatype with the variants of the enum, and what the outside world does during the
  event (a record of results, clock values and flags) to the new state, the list of the effects, and
  whether the loop goes on, or the error. Event loops, queues, timers and interleavings of tasks are
  executable step functions on the state of the whole process, run by \<open>runs\<close> over a list of steps (which
  step comes next is the input), or step relations. Errors are sums, panics are \<open>None\<close> or values of their
  own. Machine integers are words; \<open>u64\<close> sums and generations wrap as in a release build. Texts are
  sequences of characters; lengths and slices are those of ASCII texts, where the source's offsets are
  bytes. Floating point numbers are reals with a rounding function \<open>fl\<close>, a parameter with a bounded relative
  error. Libraries, the hydra-node, the Cardano node, Blockfrost, the data node and the clients are
  parameters or inputs; what is assumed of them is a named predicate (\<open>http_lib_ok\<close>, \<open>token_lib_ok\<close>,
  \<open>key_laws\<close>, \<open>socket_carries\<close> and others), and each property that needs one has a witness with a concrete
  instance.

  \<^bold>\<open>Shared ground.\<close> \<open>Prelude\<close>: integers, results, conversions to and from \<open>f64\<close>, fact collections.
  \<open>Rust_Text\<close>: formatting and parsing. \<open>Rust_Maps\<close>: \<open>HashMap\<close> and \<open>BTreeMap\<close> as instances of the locale
  \<open>rust_map\<close>, \<open>Uuid\<close> with its order. \<open>Settling_Process\<close>: runs, and the locale of the processes that settle
  each request once (three event loops are instances). \<open>Ping_Watchdog\<close>: the locale of the loops
  that end when a ping is not answered (the same three). \<open>Paths\<close>: file paths, and the search for the
  executables that the programs run (\<open>common/src/find_libexec.rs\<close>, \<open>find_testgen_hs\<close>).

  \<^bold>\<open>Hydra heads.\<close>
  \<^item> \<open>Hydra_Actor\<close>: the loop of the four controllers (\<open>State::spawn\<close>, \<open>send\<close>, \<open>send_delayed\<close>, the watchdog of the
    child process): a channel of 32 events, timers, and calls that are recorded, a spawned node with the pid
    that the operating system gave it. \<open>Hydra_Handlings\<close>: the events that were handled along a run, and the rule
    that bounds how many of a kind there can be.
  \<^item> \<open>Hydra_Json\<close>, \<open>Hydra_L1_Funds\<close>, \<open>Hydra_L2_Payment\<close>, \<open>Cardano_Keys\<close>: the answers of the hydra-node, sums of
    funds, commits, protocol parameters, coin selection and payments in a head (a payment spends different
    entries of the sender, named as the node named them), keys, addresses and signatures (\<open>verifications.rs\<close> of
    the four controllers, \<open>common/src/cardano_keys.rs\<close>). The programs hold copies of several of these functions;
    one is modelled where they say the same.
  \<^item> \<open>Hydra_Config\<close>, \<open>Hydra_Platform_Server\<close>, \<open>Hydra_Platform_Correct\<close>: the gateway's controller for platforms
    (\<open>gateway/src/hydra_server_platform/mod.rs\<close>). Properties: the invariant of the payments, that it never
    waits for an event that is not on its way, that it pays only what is due, its schedule, and that the
    configuration commits enough. A full channel stops it for good (\<open>gp_self_send_deadlock\<close>).
  \<^item> \<open>Hydras_Manager\<close>: the limit of controllers under every interleaving, and the key exchange.
  \<^item> \<open>Hydra_Bridge_Server\<close>, \<open>Hydra_Bridge_Correct\<close>, \<open>Bridge_Manager\<close>: the gateway's controller for SDK bridges
    (\<open>gateway/src/hydra_server_bridge/mod.rs\<close>) and its permits.
  \<^item> \<open>Hydra_Client\<close>, \<open>Hydra_Node\<close>, \<open>Hydra_Nodes\<close>: the platform's controller (\<open>platform/src/hydra_client/mod.rs\<close>),
    and for all four controllers that at most one hydra-node runs and that no process group is killed but
    that of the node that the controller has spawned last. \<open>Remote_Key_Exchange\<close>: the controller and
    its connection on two machines.
  \<^item> \<open>Hydra_Sdk_Client\<close>, \<open>Hydra_Sdk_Correct\<close>: the SDK bridge's controller (\<open>sdk_bridge/src/hydra_client/mod.rs\<close>),
    which over any run prepays at most once for each opening of its head.
  \<^item> \<open>Prepaid_Account\<close>, \<open>Credits\<close>, \<open>Bridge_Protocol\<close>: the abstract account of prepaid requests, which both
    controllers refine, the compare-and-exchange loops on its counter and the controllers' reset of it, step
    by step, and that both ends of a bridge add the same credits from the balances that they both poll.
  \<^item> \<open>Process_Group\<close>: ending a hydra-node and its children (\<open>common/src/hydra.rs\<close>).

  \<^bold>\<open>Connections.\<close>
  \<^item> \<open>Http_Relay\<close>: HTTP requests and responses as JSON messages and back, at all four ends.
  \<^item> \<open>Lb_Token\<close>, \<open>Lb_Registry\<close>, \<open>Lb_Connection\<close>, \<open>Lb_Connection_Correct\<close>, \<open>Lb_Routes\<close>: the load balancer of the
    gateway (\<open>gateway/src/load_balancer.rs\<close>): tokens (an accepted token that was not issued is a forgery of
    the keyed hash), the registry with its round robin in the order of the prefixes, the event loop of a
    relay, the routes.
  \<^item> \<open>Platform_Connection\<close>, \<open>Platform_Connection_Correct\<close>, \<open>Gateway_Connections\<close>, \<open>Icebreakers\<close>: the platform's
    event loop, the supervisor of its gateways (\<open>platform/src/load_balancer.rs\<close>), its registration and the
    forwarding of key exchanges (\<open>platform/src/icebreakers\<close>).
  \<^item> \<open>Sdk_Bridge_Connection\<close>, \<open>Sdk_Bridge_Connection_Correct\<close>: the gateway's event loop of an SDK bridge
    (\<open>gateway/src/sdk_bridge_ws.rs\<close>).
  \<^item> \<open>Sdk_Session\<close>, \<open>Sdk_Session_Correct\<close>, \<open>Sdk_Config\<close>: the SDK bridge's sessions and HTTP proxy
    (\<open>sdk_bridge/src/ws_client.rs\<close>, \<open>http_proxy.rs\<close>) and its configuration.
  \<^item> \<open>Socket_Tasks\<close>: the tasks between a WebSocket and its loop; the four readers are instances of one locale.
    \<open>Relay_End_To_End\<close> puts a gateway's loop, a platform's loop and the socket between them together: a client
    gets the answer to its own request; \<open>Bridge_End_To_End\<close> does the same for an SDK bridge over all its sessions
    and the gateway's connections with it.
  \<^item> \<open>Client_End_To_End\<close>: the gateway's HTTP routes (\<open>gateway/src/main.rs\<close>) with the parameters they take from the
    path of a request, and the way of a client's request through a relay's session to the platform's router.
  \<^item> \<open>Tcp_Tunnel\<close>, \<open>Tcp_Tunnel_Correct\<close>: the multiplexer of TCP streams (\<open>common/src/tcp_mux_tunnel.rs\<close>). Opening a
    stream is two steps, the message \<open>Open\<close> and the route; streams refine byte pipes, except those whose first
    data come back between the two.

  \<^bold>\<open>The gateway around them.\<close> \<open>Gateway_Config\<close>, \<open>Registration\<close>, \<open>Gateway_Database\<close>, \<open>Api_Errors\<close>,
  \<open>Gateway_Metrics\<close>: \<open>config.rs\<close>, \<open>api/register.rs\<close> with \<open>payload.rs\<close> and \<open>blockfrost.rs\<close>, \<open>db.rs\<close>, \<open>errors.rs\<close>,
  \<open>api/metrics.rs\<close>.

  \<^bold>\<open>The platform around them.\<close> \<open>Platform_Errors\<close>, \<open>Platform_Input\<close>, \<open>Platform_Input_Correct\<close>, \<open>Platform_Rest\<close>,
  \<open>Platform_Rest_Correct\<close>: errors and their middleware, the validation of everything that a client gives,
  and the whole REST API with the requests it makes to the data node. \<open>Platform_Config\<close>: the start-up
  configuration. \<open>Node_Client\<close>, \<open>Health_Monitor\<close>, \<open>Platform_Server\<close>: the pool of connections with the node,
  the health of the platform, the check of transactions and the health page. \<open>Testgen\<close>: the worker around
  the external decoder.

  \<^bold>\<open>What the lemmas show.\<close> For each component, lemmas say what a step preserves (\<open>_preserves\<close>, \<open>_ok\<close>,
  \<open>_balanced\<close>), then what holds after any run, by induction over its steps; for the controllers, that every
  outcome of every event is covered. The properties, numbered C1 to C40, are single theorems over these;
  behaviour that is not what the source promises is stated as theorems and lemmas, too
  (\<open>gp_backlog_exceeds_commit\<close>, \<open>rejoin_accounts_diverge\<close>, \<open>tunnel_loses_early_data\<close>, \<open>escaped_path_not_transparent\<close>,
  \<open>remote_key_exchange_restarts\<close>, \<open>bridge_cannot_start_over\<close>, \<open>buffered_requests_lost\<close>, \<open>statequery_released_iff\<close>,
  \<open>second_request_not_retried\<close>, \<open>readme_example_panics\<close>).

  \<^bold>\<open>Bounds.\<close> The channels have the capacities of the source (32 events of a controller, 64 of a connection, 128
  requests of the decoder, where only the order matters). Generations and identifiers of 64 bits are
  assumed not to wrap where a property needs it (\<open>2 ^ 64\<close> restarts, \<open>2 ^ 63\<close> streams of a tunnel). Loops of
  the source recurse on a measure; the wait for a process group is bounded by the clock (201 rounds), the
  worker of the decoder by the rounds that are given, and twice the number of requests are enough
  (\<open>testgen_worker_done\<close>).

  \<^bold>\<open>Simplifications.\<close> The clean-up at the end of a connection of an SDK bridge and a round of the health
  monitor are one step each. The channel that passes requests from the HTTP handlers to the loop of a
  connection, the commands of a controller and the source of forwarded key exchanges have no bound in the
  model; senders that would wait are steps that come later. Every monitor reads the clock once per update.
  Log messages are left out. Panics of the calendar's arithmetic are not modelled. The order of a
  \<open>HashMap\<close>'s entries means nothing in the model, and no property depends on it.

  \<^bold>\<open>Not modelled.\<close> The types of the Blockfrost API (generated, without behaviour) and the JSON types of the
  data node's answers, which pass through; tracing, metrics recorders and the wiring of layers and listeners in
  \<open>main.rs\<close> and \<open>server.rs\<close>, which only calls libraries; database migrations; the merging of arguments,
  environment and file by clap and twelf; the HTTP client's own configuration; the choice of free ports;
  the test suites, the test data and the build scripts.
\<close>

end
